(* ===== verification/Snes_Prelude.thy ===== *)
theory Snes_Prelude
  imports Main "HOL-Library.Word" "HOL-Library.State_Monad"
begin

text \<open>
  Shared vocabulary of the development: the fixed-width integers of the C sources, byte and
  word assembly, the truth value of a C mask test, the state-monad helpers in which the
  stateful components are written, and the predicate \<open>keeps\<close> with the rules by which an
  invariant is pushed through a monadic program.
\<close>

unbundle bit_operations_syntax

type_synonym u8 = "8 word"
type_synonym u16 = "16 word"
type_synonym u32 = "32 word"

named_theorems run_simps \<open>how each monadic operation runs\<close>
named_theorems keeps_intros \<open>compositional rules for invariants of monadic programs\<close>

section \<open>C expressions on fixed-width integers\<close>

text \<open>\<open>tst w m\<close> is the C truth value of \<open>w & m\<close>, as in \<open>bool b = w & m\<close>.\<close>

definition tst :: "'a::len word \<Rightarrow> 'a word \<Rightarrow> bool" where
  "tst w m \<longleftrightarrow> w AND m \<noteq> 0"

definition lo8 :: "u16 \<Rightarrow> u8" where
  "lo8 w = ucast w"

definition hi8 :: "u16 \<Rightarrow> u8" where
  "hi8 w = ucast (drop_bit 8 w)"

text \<open>\<open>low | (high << 8)\<close> as a 16-bit value.\<close>

definition word16 :: "u8 \<Rightarrow> u8 \<Rightarrow> u16" where
  "word16 low high = ucast low OR push_bit 8 (ucast high)"

text \<open>\<open>(bank << 16) | adr\<close> as a 32-bit bus address.\<close>

definition adr24 :: "u8 \<Rightarrow> u16 \<Rightarrow> u32" where
  "adr24 bank adr = push_bit 16 (ucast bank) OR ucast adr"


lemma tst_bit: "tst w (push_bit n 1) \<longleftrightarrow> bit w n" for w :: "'a::len word"
proof -
  have "w AND push_bit n 1 = push_bit n (of_bool (bit w n))"
    by (rule bit_word_eqI) (auto simp: bit_simps)
  then show ?thesis
    by (auto simp: tst_def dest: bit_imp_le_length)
qed

lemma tst8_bits [simp]:
  "tst (w::u8) 0x01 = bit w 0" "tst (w::u8) 0x02 = bit w 1" "tst (w::u8) 0x04 = bit w 2"
  "tst (w::u8) 0x08 = bit w 3" "tst (w::u8) 0x10 = bit w 4" "tst (w::u8) 0x20 = bit w 5"
  "tst (w::u8) 0x40 = bit w 6" "tst (w::u8) 0x80 = bit w 7"
  using tst_bit[of w 0] tst_bit[of w 1] tst_bit[of w 2] tst_bit[of w 3]
    tst_bit[of w 4] tst_bit[of w 5] tst_bit[of w 6] tst_bit[of w 7]
  by (simp_all add: push_bit_eq_mult)

lemma tst16_bits [simp]:
  "tst (w::u16) 0x01 = bit w 0" "tst (w::u16) 0x80 = bit w 7"
  "tst (w::u16) 0x4000 = bit w 14" "tst (w::u16) 0x8000 = bit w 15"
  using tst_bit[of w 0] tst_bit[of w 7] tst_bit[of w 14] tst_bit[of w 15]
  by (simp_all add: push_bit_eq_mult)

lemma tst_zero [simp]: "tst w 0 = False"
  by (simp add: tst_def)

lemma bit_push_of_bool:
  "bit (push_bit k (of_bool b) :: 'a::len word) n \<longleftrightarrow> k < LENGTH('a) \<and> n = k \<and> b"
  by (auto simp: bit_simps)

lemma bit_of_bool_word: "bit (of_bool b :: 'a::len word) n \<longleftrightarrow> n = 0 \<and> b"
  by (auto simp: bit_simps)

text \<open>Bytes and words: the halves determine the word, and assembling them gives it back.\<close>

lemma lo8_word16 [simp]: "lo8 (word16 l h) = l"
  by (rule bit_word_eqI) (simp add: lo8_def word16_def bit_simps)

lemma hi8_word16 [simp]: "hi8 (word16 l h) = h"
  by (rule bit_word_eqI)
    (auto simp: hi8_def word16_def bit_simps dest: bit_imp_le_length)

lemma word16_lo8_hi8 [simp]: "word16 (lo8 w) (hi8 w) = w"
  by (rule bit_word_eqI) (auto simp: hi8_def lo8_def word16_def bit_simps)

lemma word16_inject: "word16 l h = word16 l' h' \<longleftrightarrow> l = l' \<and> h = h'"
  by (metis lo8_word16 hi8_word16)

text \<open>
  Masks of contiguous low bits are remainders; this moves mask expressions of the C sources
  to arithmetic.
\<close>

lemma and_mask_nat [simp]:
  "unat ((w::u16) AND 0xff) = unat w mod 256"
  "unat ((v::u32) AND 0xffff) = unat v mod 65536"
  "unat ((v::u32) AND 0xffffff) = unat v mod 16777216"
proof -
  have "w AND 0xff = take_bit 8 w" "v AND 0xffff = take_bit 16 v" "v AND 0xffffff = take_bit 24 v"
    by (simp_all add: take_bit_eq_mask mask_eq_exp_minus_1)
  then show "unat (w AND 0xff) = unat w mod 256" "unat (v AND 0xffff) = unat v mod 65536"
    "unat (v AND 0xffffff) = unat v mod 16777216"
    by (simp_all add: take_bit_eq_mod unat_mod)
qed

lemma and_mask_less [simp]:
  "(v::u32) AND 0xffff < 0x1000000" "(v::u32) AND 0xffffff < 0x1000000"
  "(w::u16) AND 0xff < 0x100" "(w::u16) AND 0xff \<le> 0xff"
  by (simp_all add: word_less_nat_alt word_le_nat_alt)

lemma unat_u8_less [simp]: "unat (w::u8) < 256"
  using unsigned_less[of w, where ?'a = nat] by simp

lemma unat_u16_less [simp]: "unat (w::u16) < 65536"
  using unsigned_less[of w, where ?'a = nat] by simp

lemma unat_ucast_up [simp]:
  "unat (ucast (b::u8) :: u16) = unat b" "unat (ucast (b::u8) :: u32) = unat b"
  "unat (ucast (w::u16) :: u32) = unat w"
  by (simp_all add: unsigned_ucast_eq take_bit_nat_eq_self_iff
      order.strict_trans [OF unat_u8_less] order.strict_trans [OF unat_u16_less])

lemma adr24_eq_add: "adr24 k a = push_bit 16 (ucast k) + ucast a"
  unfolding adr24_def
  by (rule disjunctive_add [symmetric]) (auto simp: bit_simps dest: bit_imp_le_length)

lemma unat_bank [simp]: "unat (push_bit 16 (ucast (k::u8)) :: u32) = unat k * 65536"
proof -
  have "unat k * 65536 < 4294967296"
    using unat_u8_less[of k] by linarith
  then show ?thesis
    by (simp add: push_bit_eq_mult unat_word_ariths)
qed

lemma unat_adr24 [simp]: "unat (adr24 k a) = unat k * 65536 + unat a"
proof -
  have "unat k * 65536 + unat a < 4294967296"
    using unat_u8_less[of k] unat_u16_less[of a] by linarith
  then show ?thesis
    by (simp add: adr24_eq_add unat_word_ariths)
qed

lemma adr24_less [simp]: "adr24 k a < 0x1000000"
proof -
  have "unat k * 65536 + unat a < 16777216"
    using unat_u8_less[of k] unat_u16_less[of a] by linarith
  then show ?thesis
    by (simp add: word_less_nat_alt)
qed

lemma adr24_inject: "adr24 k a = adr24 k' a' \<longleftrightarrow> k = k' \<and> a = a'"
proof
  assume "adr24 k a = adr24 k' a'"
  then have eq: "unat k * 65536 + unat a = unat k' * 65536 + unat a'"
    by (metis unat_adr24)
  have "unat k = (unat k * 65536 + unat a) div 65536" "unat a = (unat k * 65536 + unat a) mod 65536"
    "unat k' = (unat k' * 65536 + unat a') div 65536" "unat a' = (unat k' * 65536 + unat a') mod 65536"
    by simp_all
  with eq have "unat k = unat k'" "unat a = unat a'"
    by metis+
  then show "k = k' \<and> a = a'"
    by (simp add: word_unat_eq_iff)
qed simp

section \<open>State monad helpers\<close>

definition gets :: "('s \<Rightarrow> 'a) \<Rightarrow> ('s, 'a) state" where
  "gets f = State (\<lambda>s. (f s, s))"

definition modify :: "('s \<Rightarrow> 's) \<Rightarrow> ('s, unit) state" where
  "modify f = State (\<lambda>s. ((), f s))"

lemma run_gets [simp]: "run_state (gets f) s = (f s, s)"
  by (simp add: gets_def)

lemma run_modify [simp]: "run_state (modify f) s = ((), f s)"
  by (simp add: modify_def)

text \<open>
  A total-correctness triple: from a state satisfying \<open>P\<close> the program ends in a value and a
  state related by \<open>Q\<close>. Every program of the monad ends, so there is no partial variant.
\<close>

definition triple :: "('s \<Rightarrow> bool) \<Rightarrow> ('s, 'a) state \<Rightarrow> ('a \<Rightarrow> 's \<Rightarrow> bool) \<Rightarrow> bool" where
  "triple P m Q \<longleftrightarrow> (\<forall>s. P s \<longrightarrow> Q (fst (run_state m s)) (snd (run_state m s)))"

abbreviation keeps :: "('s \<Rightarrow> bool) \<Rightarrow> ('s, 'a) state \<Rightarrow> bool" where
  "keeps P m \<equiv> triple P m (\<lambda>_. P)"

lemma tripleI: "(\<And>s. P s \<Longrightarrow> Q (fst (run_state m s)) (snd (run_state m s))) \<Longrightarrow> triple P m Q"
  by (simp add: triple_def)

lemma tripleD: "triple P m Q \<Longrightarrow> P s \<Longrightarrow> Q (fst (run_state m s)) (snd (run_state m s))"
  by (simp add: triple_def)

lemma triple_bind [keeps_intros]:
  "triple P m Q \<Longrightarrow> (\<And>v. triple (Q v) (f v) R) \<Longrightarrow> triple P (State_Monad.bind m f) R"
  by (simp add: triple_def split: prod.split) (metis fst_conv snd_conv)

lemma triple_weaken:
  "triple P' m Q' \<Longrightarrow> (\<And>s. P s \<Longrightarrow> P' s) \<Longrightarrow> (\<And>v s. Q' v s \<Longrightarrow> Q v s) \<Longrightarrow> triple P m Q"
  by (simp add: triple_def)

lemma keeps_bind:
  "keeps P m \<Longrightarrow> (\<And>v. keeps P (f v)) \<Longrightarrow> keeps P (State_Monad.bind m f)"
  by (rule triple_bind)

lemma keeps_return: "keeps P (State_Monad.return v)"
  by (simp add: triple_def)

lemma keeps_gets: "keeps P (gets f)"
  by (simp add: triple_def)

lemma keeps_if: "keeps P m \<Longrightarrow> keeps P n \<Longrightarrow> keeps P (if b then m else n)"
  by simp

lemma keeps_case_prod: "(\<And>a b. keeps P (f a b)) \<Longrightarrow> keeps P (case p of (a, b) \<Rightarrow> f a b)"
  by (cases p) simp

lemma keeps_let: "keeps P (f v) \<Longrightarrow> keeps P (Let v f)"
  by simp

lemmas keeps_rules = keeps_bind keeps_return keeps_gets keeps_if keeps_case_prod keeps_let

end
