(* ===== verification/Dsp.thy ===== *)
theory Dsp
  imports Snes_Prelude
begin

text \<open>
  The sound processor of \<open>snes/dsp.c\<close>: registers, the eight voices with their envelopes, the
  decoder of bit-rate-reduced samples, Gaussian interpolation, echo, noise, and the output ring.
  Signed C integers are \<open>int\<close> with the casts of the source written out (\<open>i16\<close>, \<open>i8\<close>); unsigned
  ones are words. The audio memory, an array shared with the APU by pointer in the source, is a
  function that is passed in and returned. The optional shadow mixer is absent (the pointer is
  null unless it is enabled), and the trace observers, which have no effect on the state, are
  left out.
\<close>

section \<open>C integer conversions\<close>

definition i16 :: "int \<Rightarrow> int" where "i16 x = signed_take_bit 15 x"

definition i8 :: "int \<Rightarrow> int" where "i8 x = signed_take_bit 7 x"

definition clamp16 :: "int \<Rightarrow> int" where
  "clamp16 x = (if x < - 0x8000 then - 0x8000 else if x > 0x7fff then 0x7fff else x)"

section \<open>Tables\<close>

definition rateValues :: "u16 list" where
  "rateValues =
    [0, 2048, 1536, 1280, 1024, 768, 640, 512, 384, 320, 256, 192, 160, 128, 96, 80,
     64, 48, 40, 32, 24, 20, 16, 12, 10, 8, 6, 5, 4, 3, 2, 1]"

definition gaussValues :: "int list" where
  "gaussValues =
    [0, 0, 0, 0, 0, 0, 0, 0, 0, 0, 0, 0, 0, 0, 0, 0,
     1, 1, 1, 1, 1, 1, 1, 1, 1, 1, 1, 2, 2, 2, 2, 2,
     2, 2, 3, 3, 3, 3, 3, 4, 4, 4, 4, 4, 5, 5, 5, 5,
     6, 6, 6, 6, 7, 7, 7, 8, 8, 8, 9, 9, 9, 10, 10, 10,
     11, 11, 11, 12, 12, 13, 13, 14, 14, 15, 15, 15, 16, 16, 17, 17,
     18, 19, 19, 20, 20, 21, 21, 22, 23, 23, 24, 24, 25, 26, 27, 27,
     28, 29, 29, 30, 31, 32, 32, 33, 34, 35, 36, 36, 37, 38, 39, 40,
     41, 42, 43, 44, 45, 46, 47, 48, 49, 50, 51, 52, 53, 54, 55, 56,
     58, 59, 60, 61, 62, 64, 65, 66, 67, 69, 70, 71, 73, 74, 76, 77,
     78, 80, 81, 83, 84, 86, 87, 89, 90, 92, 94, 95, 97, 99, 100, 102,
     104, 106, 107, 109, 111, 113, 115, 117, 118, 120, 122, 124, 126, 128, 130, 132,
     134, 137, 139, 141, 143, 145, 147, 150, 152, 154, 156, 159, 161, 163, 166, 168,
     171, 173, 175, 178, 180, 183, 186, 188, 191, 193, 196, 199, 201, 204, 207, 210,
     212, 215, 218, 221, 224, 227, 230, 233, 236, 239, 242, 245, 248, 251, 254, 257,
     260, 263, 267, 270, 273, 276, 280, 283, 286, 290, 293, 297, 300, 304, 307, 311,
     314, 318, 321, 325, 328, 332, 336, 339, 343, 347, 351, 354, 358, 362, 366, 370,
     374, 378, 381, 385, 389, 393, 397, 401, 405, 410, 414, 418, 422, 426, 430, 434,
     439, 443, 447, 451, 456, 460, 464, 469, 473, 477, 482, 486, 491, 495, 499, 504,
     508, 513, 517, 522, 527, 531, 536, 540, 545, 550, 554, 559, 563, 568, 573, 577,
     582, 587, 592, 596, 601, 606, 611, 615, 620, 625, 630, 635, 640, 644, 649, 654,
     659, 664, 669, 674, 678, 683, 688, 693, 698, 703, 708, 713, 718, 723, 728, 732,
     737, 742, 747, 752, 757, 762, 767, 772, 777, 782, 787, 792, 797, 802, 806, 811,
     816, 821, 826, 831, 836, 841, 846, 851, 855, 860, 865, 870, 875, 880, 884, 889,
     894, 899, 904, 908, 913, 918, 923, 927, 932, 937, 941, 946, 951, 955, 960, 965,
     969, 974, 978, 983, 988, 992, 997, 1001, 1005, 1010, 1014, 1019, 1023, 1027, 1032, 1036,
     1040, 1045, 1049, 1053, 1057, 1061, 1066, 1070, 1074, 1078, 1082, 1086, 1090, 1094, 1098, 1102,
     1106, 1109, 1113, 1117, 1121, 1125, 1128, 1132, 1136, 1139, 1143, 1146, 1150, 1153, 1157, 1160,
     1164, 1167, 1170, 1174, 1177, 1180, 1183, 1186, 1190, 1193, 1196, 1199, 1202, 1205, 1207, 1210,
     1213, 1216, 1219, 1221, 1224, 1227, 1229, 1232, 1234, 1237, 1239, 1241, 1244, 1246, 1248, 1251,
     1253, 1255, 1257, 1259, 1261, 1263, 1265, 1267, 1269, 1270, 1272, 1274, 1275, 1277, 1279, 1280,
     1282, 1283, 1284, 1286, 1287, 1288, 1290, 1291, 1292, 1293, 1294, 1295, 1296, 1297, 1297, 1298,
     1299, 1300, 1300, 1301, 1302, 1302, 1303, 1303, 1303, 1304, 1304, 1304, 1304, 1304, 1305, 1305]"

section \<open>State\<close>

type_synonym aram = "u16 \<Rightarrow> u8"

record dsp_channel =
  ch_pitch :: u16
  ch_pitchCounter :: u16
  ch_pitchModulation :: bool
  ch_decodeBuffer :: "int list"
  ch_srcn :: u8
  ch_decodeOffset :: u16
  ch_previousFlags :: u8
  ch_old :: int
  ch_older :: int
  ch_useNoise :: bool
  ch_adsrRates :: "u16 list"
  ch_rateCounter :: u16
  ch_adsrState :: u8
  ch_sustainLevel :: u16
  ch_useGain :: bool
  ch_gainMode :: u8
  ch_directGain :: bool
  ch_gainValue :: u16
  ch_gain :: u16
  ch_keyOn :: bool
  ch_keyOff :: bool
  ch_sampleOut :: int
  ch_volumeL :: int
  ch_volumeR :: int
  ch_echoEnable :: bool

record dsp =
  dsp_ram :: "u8 list"
  dsp_channels :: "dsp_channel list"
  dsp_dirPage :: u16
  dsp_evenCycle :: bool
  dsp_mute :: bool
  dsp_resetFlag :: bool
  dsp_masterVolumeL :: int
  dsp_masterVolumeR :: int
  dsp_noiseSample :: int
  dsp_noiseRate :: u16
  dsp_noiseCounter :: u16
  dsp_echoWrites :: bool
  dsp_echoVolumeL :: int
  dsp_echoVolumeR :: int
  dsp_feedbackVolume :: int
  dsp_echoBufferAdr :: u16
  dsp_echoDelay :: u16
  dsp_echoRemain :: u16
  dsp_echoBufferIndex :: u16
  dsp_firBufferIndex :: u8
  dsp_firValues :: "int list"
  dsp_firBufferL :: "int list"
  dsp_firBufferR :: "int list"
  dsp_sampleBuffer :: "int list"
  dsp_sampleWrite :: u32
  dsp_sampleRead :: u32

text \<open>\<open>DSP_SAMPLE_RING\<close>, the capacity of the output ring in stereo samples.\<close>

definition DSP_SAMPLE_RING :: nat where "DSP_SAMPLE_RING = 8192"

text \<open>Channel \<open>i\<close> changed, and every channel changed with its index.\<close>

definition upd_channel :: "nat \<Rightarrow> (dsp_channel \<Rightarrow> dsp_channel) \<Rightarrow> dsp \<Rightarrow> dsp" where
  "upd_channel i f dsp = dsp\<lparr>dsp_channels := (dsp_channels dsp)[i := f (dsp_channels dsp ! i)]\<rparr>"

definition each_channel :: "(nat \<Rightarrow> dsp_channel \<Rightarrow> dsp_channel) \<Rightarrow> dsp \<Rightarrow> dsp" where
  "each_channel f dsp = dsp\<lparr>dsp_channels := map2 f [0..<length (dsp_channels dsp)] (dsp_channels dsp)\<rparr>"

definition channel_reset :: dsp_channel where
  "channel_reset =
     \<lparr>ch_pitch = 0, ch_pitchCounter = 0, ch_pitchModulation = False,
      ch_decodeBuffer = replicate 19 0, ch_srcn = 0, ch_decodeOffset = 0, ch_previousFlags = 0,
      ch_old = 0, ch_older = 0, ch_useNoise = False, ch_adsrRates = replicate 4 0,
      ch_rateCounter = 0, ch_adsrState = 0, ch_sustainLevel = 0, ch_useGain = False,
      ch_gainMode = 0, ch_directGain = False, ch_gainValue = 0, ch_gain = 0,
      ch_keyOn = False, ch_keyOff = False, ch_sampleOut = 0, ch_volumeL = 0, ch_volumeR = 0,
      ch_echoEnable = False\<rparr>"

text \<open>\<open>dsp_reset\<close> assigns every field but the pointers, so the new state does not depend on the old.\<close>

definition dsp_reset :: dsp where
  "dsp_reset =
     \<lparr>dsp_ram = (replicate 0x80 0)[0x7c := 0xff],
      dsp_channels = replicate 8 channel_reset,
      dsp_dirPage = 0, dsp_evenCycle = False, dsp_mute = True, dsp_resetFlag = True,
      dsp_masterVolumeL = 0, dsp_masterVolumeR = 0,
      dsp_noiseSample = - 0x4000, dsp_noiseRate = 0, dsp_noiseCounter = 0,
      dsp_echoWrites = False, dsp_echoVolumeL = 0, dsp_echoVolumeR = 0, dsp_feedbackVolume = 0,
      dsp_echoBufferAdr = 0, dsp_echoDelay = 1, dsp_echoRemain = 1, dsp_echoBufferIndex = 0,
      dsp_firBufferIndex = 0, dsp_firValues = replicate 8 0,
      dsp_firBufferL = replicate 8 0, dsp_firBufferR = replicate 8 0,
      dsp_sampleBuffer = replicate (DSP_SAMPLE_RING * 2) 0,
      dsp_sampleWrite = 0, dsp_sampleRead = 0\<rparr>"

section \<open>Envelope\<close>

text \<open>\<open>gain -= ((gain - 1) >> 8) + 1\<close>, computed in \<open>int\<close> and stored in 16 bits.\<close>

definition exp_decrease :: "u16 \<Rightarrow> u16" where
  "exp_decrease gain = word_of_int (uint gain - (drop_bit 8 (uint gain - 1) + 1))"

definition dsp_handleGain :: "dsp_channel \<Rightarrow> dsp_channel" where
  "dsp_handleGain c =
     (if ch_adsrState c = 0 then
        let rate = ch_adsrRates c ! unat (ch_adsrState c);
            c1 = c\<lparr>ch_gain := ch_gain c + (if rate = 1 then 1024 else 32)\<rparr>;
            c2 = (if ch_gain c1 \<ge> 0x7e0 then c1\<lparr>ch_adsrState := 1\<rparr> else c1)
        in (if ch_gain c2 > 0x7ff then c2\<lparr>ch_gain := 0x7ff\<rparr> else c2)
      else if ch_adsrState c = 1 then
        let c1 = c\<lparr>ch_gain := exp_decrease (ch_gain c)\<rparr>
        in (if ch_gain c1 < ch_sustainLevel c1 then c1\<lparr>ch_adsrState := 2\<rparr> else c1)
      else if ch_adsrState c = 2 then c\<lparr>ch_gain := exp_decrease (ch_gain c)\<rparr>
      else if ch_adsrState c = 3 then
        (if ch_gainMode c = 0 then
           let g = ch_gain c - 32 in c\<lparr>ch_gain := (if g > 0x7ff then 0 else g)\<rparr>
         else if ch_gainMode c = 1 then c\<lparr>ch_gain := exp_decrease (ch_gain c)\<rparr>
         else if ch_gainMode c = 2 then
           let g = ch_gain c + 32 in c\<lparr>ch_gain := (if g > 0x7ff then 0x7ff else g)\<rparr>
         else if ch_gainMode c = 3 then
           let g = ch_gain c + (if ch_gain c < 0x600 then 32 else 8)
           in c\<lparr>ch_gain := (if g > 0x7ff then 0x7ff else g)\<rparr>
         else c)
      else if ch_adsrState c = 4 then
        let g = ch_gain c - 8 in c\<lparr>ch_gain := (if g > 0x7ff then 0 else g)\<rparr>
      else c)"

section \<open>Sample decoding and interpolation\<close>

definition dsp_getSample :: "dsp_channel \<Rightarrow> nat \<Rightarrow> nat \<Rightarrow> int" where
  "dsp_getSample c sampleNum offset =
     (let news = ch_decodeBuffer c ! (sampleNum + 3);
          olds = ch_decodeBuffer c ! (sampleNum + 2);
          olders = ch_decodeBuffer c ! (sampleNum + 1);
          oldests = ch_decodeBuffer c ! sampleNum;
          out = drop_bit 10 (gaussValues ! (0xff - offset) * oldests);
          out = out + drop_bit 10 (gaussValues ! (0x1ff - offset) * olders);
          out = out + drop_bit 10 (gaussValues ! (0x100 + offset) * olds);
          out = i16 (out AND 0xffff);
          out = out + drop_bit 10 (gaussValues ! offset * news);
          out = clamp16 out
      in i16 (drop_bit 1 out))"

text \<open>
  One sample of a block: sign extension of the nibble, scaling, the prediction filter, clamping
  to 16 bits and clipping to 15. The left shift of a negative \<open>int\<close> is taken as a product.
\<close>

definition brr_decode :: "nat \<Rightarrow> nat \<Rightarrow> int \<Rightarrow> int \<Rightarrow> int \<Rightarrow> int" where
  "brr_decode shift filt s old older =
     (let s = (if s > 7 then s - 16 else s);
          s = (if shift \<le> 0xc then drop_bit 1 (push_bit shift s) else push_bit 12 (drop_bit 3 s));
          s = (if filt = 1 then s + (old + drop_bit 4 (- old))
               else if filt = 2 then s + (2 * old + drop_bit 5 (3 * - old) - older + drop_bit 4 older)
               else if filt = 3 then s + (2 * old + drop_bit 6 (13 * - old) - older + drop_bit 4 (3 * older))
               else s);
          s = clamp16 s
      in drop_bit 1 (i16 (push_bit 1 (s AND 0x7fff))))"

text \<open>The loop over the sixteen samples; its variables are the offset, the current byte, the
  last two samples and the buffer.\<close>

fun brr_step :: "aram \<Rightarrow> nat \<Rightarrow> nat \<Rightarrow> nat \<Rightarrow> u16 \<times> u8 \<times> int \<times> int \<times> int list
    \<Rightarrow> u16 \<times> u8 \<times> int \<times> int \<times> int list" where
  "brr_step ram shift filt i (offset, curByte, old, older, buf) =
     (let (offset, curByte, s) =
            (if odd i then (offset, curByte, uint (curByte AND 0xf))
             else (offset + 1, ram offset, uint (drop_bit 4 (ram offset))));
          s = brr_decode shift filt s old older
      in (offset, curByte, s, old, buf[i + 3 := s]))"

definition brr_samples :: "aram \<Rightarrow> nat \<Rightarrow> nat \<Rightarrow> u16 \<times> u8 \<times> int \<times> int \<times> int list
    \<Rightarrow> u16 \<times> u8 \<times> int \<times> int \<times> int list" where
  "brr_samples ram shift filt = fold (brr_step ram shift filt) [0..<16]"

text \<open>The last three samples become the first three.\<close>

definition brr_carry_over :: "dsp_channel \<Rightarrow> dsp_channel" where
  "brr_carry_over c = c\<lparr>ch_decodeBuffer := (ch_decodeBuffer c)
     [0 := ch_decodeBuffer c ! 16, 1 := ch_decodeBuffer c ! 17, 2 := ch_decodeBuffer c ! 18]\<rparr>"

text \<open>The flags of the previous block: the sample loops or ends.\<close>

definition brr_end :: "aram \<Rightarrow> nat \<Rightarrow> dsp \<Rightarrow> dsp" where
  "brr_end ram ch dsp =
     (let flags = ch_previousFlags (dsp_channels dsp ! ch) in
      if flags = 1 \<or> flags = 3 then
        let samplePointer = dsp_dirPage dsp + 4 * ucast (ch_srcn (dsp_channels dsp ! ch));
            dsp = upd_channel ch (\<lambda>c. c\<lparr>ch_decodeOffset :=
              word16 (ram (samplePointer + 2)) (ram (samplePointer + 3))\<rparr>) dsp;
            dsp = (if flags = 1
              then upd_channel ch (\<lambda>c. c\<lparr>ch_adsrState := 4, ch_gain := 0\<rparr>) dsp else dsp)
        in dsp\<lparr>dsp_ram := (dsp_ram dsp)[0x7c := dsp_ram dsp ! 0x7c OR push_bit ch 1]\<rparr>
      else dsp)"

text \<open>The block at the decode offset: its header and the loop.\<close>

definition brr_block :: "aram \<Rightarrow> dsp_channel \<Rightarrow> dsp_channel" where
  "brr_block ram c =
     (let header = ram (ch_decodeOffset c);
          shift = unat (drop_bit 4 header);
          filt = unat (drop_bit 2 (header AND 0xc));
          (offset, curByte, old, older, buf) =
            brr_samples ram shift filt
              (ch_decodeOffset c + 1, 0, ch_old c, ch_older c, ch_decodeBuffer c)
      in c\<lparr>ch_previousFlags := header AND 0x3, ch_decodeOffset := offset,
           ch_decodeBuffer := buf, ch_older := older, ch_old := old\<rparr>)"

definition dsp_decodeBrr :: "aram \<Rightarrow> nat \<Rightarrow> dsp \<Rightarrow> dsp" where
  "dsp_decodeBrr ram ch dsp =
     upd_channel ch (brr_block ram) (brr_end ram ch (upd_channel ch brr_carry_over dsp))"

section \<open>One sample of a voice\<close>

text \<open>Key-on and key-off, polled every other sample.\<close>

definition channel_keys :: "aram \<Rightarrow> u16 \<Rightarrow> dsp_channel \<Rightarrow> dsp_channel" where
  "channel_keys ram dirPage c =
     (if ch_keyOff c then c\<lparr>ch_adsrState := 4\<rparr>
      else if ch_keyOn c then
        let samplePointer = dirPage + 4 * ucast (ch_srcn c)
        in c\<lparr>ch_keyOn := False, ch_previousFlags := 0,
             ch_decodeOffset := word16 (ram samplePointer) (ram (samplePointer + 1)),
             ch_decodeBuffer := replicate 19 0, ch_gain := 0,
             ch_adsrState := (if ch_useGain c then 3 else 0)\<rparr>
      else c)"

text \<open>The envelope: rate counter, gain step, direct gain.\<close>

definition channel_envelope :: "dsp_channel \<Rightarrow> dsp_channel" where
  "channel_envelope c =
     (let doingDirectGain = (ch_adsrState c \<noteq> 4 \<and> ch_useGain c \<and> ch_directGain c);
          rate = (if ch_adsrState c = 4 then 0 else ch_adsrRates c ! unat (ch_adsrState c));
          c = (if ch_adsrState c \<noteq> 4 \<and> \<not> doingDirectGain \<and> rate \<noteq> 0
               then c\<lparr>ch_rateCounter := ch_rateCounter c + 1\<rparr> else c);
          c = (if ch_adsrState c = 4 \<or> \<not> doingDirectGain \<and> ch_rateCounter c \<ge> rate \<and> rate \<noteq> 0
               then dsp_handleGain (if ch_adsrState c \<noteq> 4 then c\<lparr>ch_rateCounter := 0\<rparr> else c)
               else c)
      in (if doingDirectGain then c\<lparr>ch_gain := ch_gainValue c\<rparr> else c))"

text \<open>The pitch, modulated by the previous voice where enabled, and the step of the pitch counter.\<close>

definition channel_pitch :: "nat \<Rightarrow> dsp \<Rightarrow> u16" where
  "channel_pitch ch dsp =
     (let c = dsp_channels dsp ! ch in
      if ch > 0 \<and> ch_pitchModulation c then
        let factor = drop_bit 4 (ch_sampleOut (dsp_channels dsp ! (ch - 1))) + 0x400;
            pitch = word_of_int (drop_bit 10 (uint (ch_pitch c) * factor)) :: u16
        in (if pitch > 0x3fff then 0x3fff else pitch)
      else ch_pitch c)"

definition channel_advance :: "aram \<Rightarrow> nat \<Rightarrow> dsp \<Rightarrow> dsp" where
  "channel_advance ram ch dsp =
     (let newCounter = uint (ch_pitchCounter (dsp_channels dsp ! ch)) + uint (channel_pitch ch dsp);
          dsp = (if newCounter > 0xffff then dsp_decodeBrr ram ch dsp else dsp)
      in upd_channel ch (\<lambda>c. c\<lparr>ch_pitchCounter := word_of_int newCounter\<rparr>) dsp)"

definition channel_sample :: "nat \<Rightarrow> dsp \<Rightarrow> int" where
  "channel_sample ch dsp =
     (let c = dsp_channels dsp ! ch in
      if ch_useNoise c then dsp_noiseSample dsp
      else dsp_getSample c (unat (drop_bit 12 (ch_pitchCounter c))) (unat (drop_bit 4 (ch_pitchCounter c) AND 0xff)))"

text \<open>The end of the function: the gain and the sample in the registers, and the voice's output.\<close>

definition channel_output :: "nat \<Rightarrow> int \<Rightarrow> dsp \<Rightarrow> dsp" where
  "channel_output ch sample dsp =
     (let gain = ch_gain (dsp_channels dsp ! ch);
          dsp = dsp\<lparr>dsp_ram := (dsp_ram dsp)[16 * ch + 8 := ucast (drop_bit 4 gain)]\<rparr>;
          sample = i16 (drop_bit 11 (sample * uint gain));
          dsp = dsp\<lparr>dsp_ram := (dsp_ram dsp)[16 * ch + 9 := word_of_int (drop_bit 7 sample)]\<rparr>
      in upd_channel ch (\<lambda>c. c\<lparr>ch_sampleOut := sample\<rparr>) dsp)"

definition dsp_cycleChannel :: "aram \<Rightarrow> nat \<Rightarrow> dsp \<Rightarrow> dsp" where
  "dsp_cycleChannel ram ch dsp =
     (let dsp = channel_advance ram ch dsp;
          sample = channel_sample ch dsp;
          dsp = (if dsp_evenCycle dsp then upd_channel ch (channel_keys ram (dsp_dirPage dsp)) dsp else dsp);
          dsp = (if dsp_resetFlag dsp
            then upd_channel ch (\<lambda>c. c\<lparr>ch_adsrState := 4, ch_gain := 0\<rparr>) dsp else dsp);
          dsp = upd_channel ch channel_envelope dsp
      in channel_output ch sample dsp)"

section \<open>Echo and noise\<close>

text \<open>One side of the FIR sum: taps in order, clipped to 16 bits before the last addition.\<close>

definition fir_sum :: "int list \<Rightarrow> int list \<Rightarrow> nat \<Rightarrow> int" where
  "fir_sum buf values index =
     clamp16 (fold (\<lambda>i sum. let sum = sum + drop_bit 6 (buf ! ((index + i + 1) mod 8) * values ! i)
                            in if i = 6 then i16 (sum AND 0xffff) else sum) [0..<8] 0)"

text \<open>The dry sum of the voices on one side, restricted to the echo-enabled ones.\<close>

definition echo_input :: "(dsp_channel \<Rightarrow> int) \<Rightarrow> dsp_channel list \<Rightarrow> int" where
  "echo_input volume chs =
     fold (\<lambda>c sum. if ch_echoEnable c then clamp16 (sum + drop_bit 6 (ch_sampleOut c * volume c)) else sum) chs 0"

definition dsp_handleEcho :: "aram \<Rightarrow> int \<Rightarrow> int \<Rightarrow> dsp \<Rightarrow> int \<times> int \<times> aram \<times> dsp" where
  "dsp_handleEcho ram outputL outputR dsp =
     (let adr = dsp_echoBufferAdr dsp + dsp_echoBufferIndex dsp * 4;
          k = unat (dsp_firBufferIndex dsp);
          firL = (dsp_firBufferL dsp)[k := drop_bit 1 (i16 (uint (ram adr) + push_bit 8 (uint (ram (adr + 1)))))];
          firR = (dsp_firBufferR dsp)[k := drop_bit 1 (i16 (uint (ram (adr + 2)) + push_bit 8 (uint (ram (adr + 3)))))];
          sumL = fir_sum firL (dsp_firValues dsp) k;
          sumR = fir_sum firR (dsp_firValues dsp) k;
          outL = clamp16 (outputL + drop_bit 7 (sumL * dsp_echoVolumeL dsp));
          outR = clamp16 (outputR + drop_bit 7 (sumR * dsp_echoVolumeR dsp));
          inL = echo_input ch_volumeL (dsp_channels dsp);
          inR = echo_input ch_volumeR (dsp_channels dsp);
          inL = clamp16 (inL + drop_bit 7 (sumL * dsp_feedbackVolume dsp)) AND 0xfffe;
          inR = clamp16 (inR + drop_bit 7 (sumR * dsp_feedbackVolume dsp)) AND 0xfffe;
          ram = (if dsp_echoWrites dsp
            then ram(adr := word_of_int inL, adr + 1 := word_of_int (drop_bit 8 inL),
                     adr + 2 := word_of_int inR, adr + 3 := word_of_int (drop_bit 8 inR))
            else ram);
          remain = dsp_echoRemain dsp - 1;
          dsp = dsp\<lparr>dsp_firBufferL := firL, dsp_firBufferR := firR,
                    dsp_firBufferIndex := (dsp_firBufferIndex dsp + 1) AND 7,
                    dsp_echoBufferIndex := (if remain = 0 then 0 else dsp_echoBufferIndex dsp + 1),
                    dsp_echoRemain := (if remain = 0 then dsp_echoDelay dsp else remain)\<rparr>
      in (outL, outR, ram, dsp))"

definition dsp_handleNoise :: "dsp \<Rightarrow> dsp" where
  "dsp_handleNoise dsp =
     (let dsp = (if dsp_noiseRate dsp \<noteq> 0 then dsp\<lparr>dsp_noiseCounter := dsp_noiseCounter dsp + 1\<rparr> else dsp)
      in if dsp_noiseCounter dsp \<ge> dsp_noiseRate dsp \<and> dsp_noiseRate dsp \<noteq> 0 then
           let n = dsp_noiseSample dsp;
               b = (n AND 1) XOR (drop_bit 1 n AND 1);
               n = i16 ((drop_bit 1 n AND 0x3fff) OR push_bit 14 b);
               n = drop_bit 1 (i16 (push_bit 1 (n AND 0x7fff)))
           in dsp\<lparr>dsp_noiseSample := n, dsp_noiseCounter := 0\<rparr>
         else dsp)"

section \<open>One output sample\<close>

text \<open>One iteration of the mixing loop: the voice runs, then its output is added on both sides.\<close>

fun mix_step :: "aram \<Rightarrow> nat \<Rightarrow> dsp \<times> int \<times> int \<Rightarrow> dsp \<times> int \<times> int" where
  "mix_step ram i (dsp, totalL, totalR) =
     (let dsp = dsp_cycleChannel ram i dsp;
          c = dsp_channels dsp ! i
      in (dsp, clamp16 (totalL + drop_bit 6 (ch_sampleOut c * ch_volumeL c)),
               clamp16 (totalR + drop_bit 6 (ch_sampleOut c * ch_volumeR c))))"

text \<open>The tail of \<open>dsp_cycle\<close>: the sample goes into the ring unless the ring is full.\<close>

definition dsp_emit :: "int \<Rightarrow> int \<Rightarrow> dsp \<Rightarrow> dsp" where
  "dsp_emit totalL totalR dsp =
     (if unat (dsp_sampleWrite dsp - dsp_sampleRead dsp) \<ge> DSP_SAMPLE_RING then dsp
      else let w = unat (dsp_sampleWrite dsp) mod DSP_SAMPLE_RING
           in dsp\<lparr>dsp_sampleBuffer := (dsp_sampleBuffer dsp)[w * 2 := i16 totalL, w * 2 + 1 := i16 totalR],
                  dsp_sampleWrite := dsp_sampleWrite dsp + 1\<rparr>)"

definition dsp_cycle :: "aram \<Rightarrow> dsp \<Rightarrow> aram \<times> dsp" where
  "dsp_cycle ram dsp =
     (let (dsp, totalL, totalR) = fold (mix_step ram) [0..<8] (dsp, 0, 0);
          totalL = clamp16 (drop_bit 7 (totalL * dsp_masterVolumeL dsp));
          totalR = clamp16 (drop_bit 7 (totalR * dsp_masterVolumeR dsp));
          (totalL, totalR, ram, dsp) = dsp_handleEcho ram totalL totalR dsp;
          (totalL, totalR) = (if dsp_mute dsp then (0, 0) else (totalL, totalR));
          dsp = dsp_handleNoise dsp;
          dsp = dsp_emit totalL totalR dsp
      in (ram, dsp\<lparr>dsp_evenCycle := \<not> dsp_evenCycle dsp\<rparr>))"

section \<open>Registers\<close>

definition dsp_read :: "dsp \<Rightarrow> u8 \<Rightarrow> u8" where
  "dsp_read dsp adr = dsp_ram dsp ! unat adr"

text \<open>\<open>voice_reg adr k\<close>: \<open>adr\<close> is one of \<open>0x0k, 0x1k, \<dots>, 0x7k\<close>.\<close>

definition voice_reg :: "u8 \<Rightarrow> u8 \<Rightarrow> bool" where
  "voice_reg adr k \<longleftrightarrow> adr AND 0x8f = k"

definition rate_at :: "u8 \<Rightarrow> u16" where
  "rate_at k = rateValues ! unat k"

definition dsp_write :: "u8 \<Rightarrow> u8 \<Rightarrow> dsp \<Rightarrow> dsp" where
  "dsp_write adr val dsp =
     (let ch = unat (drop_bit 4 adr);
          dsp' =
       (if voice_reg adr 0 then upd_channel ch (\<lambda>c. c\<lparr>ch_volumeL := sint val\<rparr>) dsp
        else if voice_reg adr 1 then upd_channel ch (\<lambda>c. c\<lparr>ch_volumeR := sint val\<rparr>) dsp
        else if voice_reg adr 2 then
          upd_channel ch (\<lambda>c. c\<lparr>ch_pitch := (ch_pitch c AND 0x3f00) OR ucast val\<rparr>) dsp
        else if voice_reg adr 3 then
          upd_channel ch (\<lambda>c. c\<lparr>ch_pitch := ((ch_pitch c AND 0x00ff) OR push_bit 8 (ucast val)) AND 0x3fff\<rparr>) dsp
        else if voice_reg adr 4 then upd_channel ch (\<lambda>c. c\<lparr>ch_srcn := val\<rparr>) dsp
        else if voice_reg adr 5 then
          upd_channel ch (\<lambda>c. c\<lparr>ch_adsrRates := (ch_adsrRates c)
            [0 := rate_at ((val AND 0xf) * 2 + 1), 1 := rate_at (drop_bit 4 (val AND 0x70) * 2 + 16)],
            ch_useGain := (val AND 0x80 = 0)\<rparr>) dsp
        else if voice_reg adr 6 then
          upd_channel ch (\<lambda>c. c\<lparr>ch_adsrRates := (ch_adsrRates c)[2 := rate_at (val AND 0x1f)],
            ch_sustainLevel := (ucast (drop_bit 5 (val AND 0xe0)) + 1) * 0x100\<rparr>) dsp
        else if voice_reg adr 7 then
          upd_channel ch (\<lambda>c. let c = c\<lparr>ch_directGain := (val AND 0x80 = 0)\<rparr> in
            if tst val 0x80
            then c\<lparr>ch_gainMode := drop_bit 5 (val AND 0x60),
                   ch_adsrRates := (ch_adsrRates c)[3 := rate_at (val AND 0x1f)]\<rparr>
            else c\<lparr>ch_gainValue := ucast (val AND 0x7f) * 16\<rparr>) dsp
        else if adr = 0x0c then dsp\<lparr>dsp_masterVolumeL := sint val\<rparr>
        else if adr = 0x1c then dsp\<lparr>dsp_masterVolumeR := sint val\<rparr>
        else if adr = 0x2c then dsp\<lparr>dsp_echoVolumeL := sint val\<rparr>
        else if adr = 0x3c then dsp\<lparr>dsp_echoVolumeR := sint val\<rparr>
        else if adr = 0x4c then each_channel (\<lambda>i c. c\<lparr>ch_keyOn := bit val i\<rparr>) dsp
        else if adr = 0x5c then each_channel (\<lambda>i c. c\<lparr>ch_keyOff := bit val i\<rparr>) dsp
        else if adr = 0x6c then
          dsp\<lparr>dsp_resetFlag := tst val 0x80, dsp_mute := tst val 0x40, dsp_echoWrites := (val AND 0x20 = 0),
              dsp_noiseRate := rate_at (val AND 0x1f)\<rparr>
        else if adr = 0x0d then dsp\<lparr>dsp_feedbackVolume := sint val\<rparr>
        else if adr = 0x2d then each_channel (\<lambda>i c. c\<lparr>ch_pitchModulation := bit val i\<rparr>) dsp
        else if adr = 0x3d then each_channel (\<lambda>i c. c\<lparr>ch_useNoise := bit val i\<rparr>) dsp
        else if adr = 0x4d then each_channel (\<lambda>i c. c\<lparr>ch_echoEnable := bit val i\<rparr>) dsp
        else if adr = 0x5d then dsp\<lparr>dsp_dirPage := push_bit 8 (ucast val)\<rparr>
        else if adr = 0x6d then dsp\<lparr>dsp_echoBufferAdr := push_bit 8 (ucast val)\<rparr>
        else if adr = 0x7d then
          (let delay = ucast (val AND 0xf) * 512
           in dsp\<lparr>dsp_echoDelay := (if delay = 0 then 1 else delay)\<rparr>)
        else if voice_reg adr 0xf then dsp\<lparr>dsp_firValues := (dsp_firValues dsp)[ch := sint val]\<rparr>
        else dsp)
      in dsp'\<lparr>dsp_ram := (dsp_ram dsp')[unat adr := (if adr = 0x7c then 0 else val)]\<rparr>)"

end
