(* ===== verification/Apu_Bus.thy ===== *)
theory Apu_Bus
  imports Dsp
begin

text \<open>
  The audio unit of \<open>snes/apu.c\<close> as its processor sees it: memory, boot ROM, ports, timers and
  the DSP registers. The structure \<open>Apu\<close> of the source points to its \<open>Spc\<close>, which points back;
  here the record \<open>apu\<close> holds everything but the processor, and the processor's record (theory
  \<open>Spc_Core\<close>) holds the \<open>apu\<close>. The counter of produced samples, kept by \<open>audio_trace.c\<close> and read
  back by the port queue, is the field \<open>apu_produced\<close>. The diagnostic histograms are left out.
\<close>

type_synonym u64 = "64 word"

record timer =
  tm_cycles :: u8
  tm_divider :: u8
  tm_target :: u8
  tm_counter :: u8
  tm_enabled :: bool

record apu_port_write =
  pw_target_sample :: u64
  pw_port :: u8
  pw_val :: u8

record apu =
  apu_dsp :: dsp
  apu_ram :: aram
  apu_romReadable :: bool
  apu_dspAdr :: u8
  apu_cycles :: u32
  apu_inPorts :: "u8 list"
  apu_outPorts :: "u8 list"
  apu_timers :: "timer list"
  apu_cpuCyclesLeft :: u8
  apu_portQueue :: "apu_port_write list"
  apu_portQHead :: u32
  apu_portQTail :: u32
  apu_produced :: u64

text \<open>\<open>APU_PORT_QUEUE_LEN\<close>, the number of slots of the port-write queue.\<close>

definition APU_PORT_QUEUE_LEN :: nat where "APU_PORT_QUEUE_LEN = 128"

definition bootRom :: "u8 list" where
  "bootRom =
    [0xcd, 0xef, 0xbd, 0xe8, 0x00, 0xc6, 0x1d, 0xd0, 0xfc, 0x8f, 0xaa, 0xf4, 0x8f, 0xbb, 0xf5, 0x78,
     0xcc, 0xf4, 0xd0, 0xfb, 0x2f, 0x19, 0xeb, 0xf4, 0xd0, 0xfc, 0x7e, 0xf4, 0xd0, 0x0b, 0xe4, 0xf5,
     0xcb, 0xf4, 0xd7, 0x00, 0xfc, 0xd0, 0xf3, 0xab, 0x01, 0x10, 0xef, 0x7e, 0xf4, 0x10, 0xeb, 0xba,
     0xf6, 0xda, 0x00, 0xba, 0xf4, 0xc4, 0xf4, 0xdd, 0x5d, 0xd0, 0xdb, 0x1f, 0x00, 0x00, 0xc0, 0xff]"

definition apu_cpuRead :: "apu \<Rightarrow> u16 \<Rightarrow> u8 \<times> apu" where
  "apu_cpuRead apu adr =
     (if adr = 0xf0 \<or> adr = 0xf1 \<or> adr = 0xfa \<or> adr = 0xfb \<or> adr = 0xfc then (0, apu)
      else if adr = 0xf2 then (apu_dspAdr apu, apu)
      else if adr = 0xf3 then (dsp_read (apu_dsp apu) (apu_dspAdr apu AND 0x7f), apu)
      else if 0xf4 \<le> adr \<and> adr \<le> 0xf9 then (apu_inPorts apu ! unat (adr - 0xf4), apu)
      else if 0xfd \<le> adr \<and> adr \<le> 0xff then
        let i = unat (adr - 0xfd)
        in (tm_counter (apu_timers apu ! i),
            apu\<lparr>apu_timers := (apu_timers apu)[i := (apu_timers apu ! i)\<lparr>tm_counter := 0\<rparr>]\<rparr>)
      else if apu_romReadable apu \<and> adr \<ge> 0xffc0 then (bootRom ! unat (adr - 0xffc0), apu)
      else (apu_ram apu adr, apu))"

text \<open>Enabling bit \<open>i\<close> of the control register for timer \<open>i\<close>.\<close>

definition timer_control :: "u8 \<Rightarrow> nat \<Rightarrow> timer \<Rightarrow> timer" where
  "timer_control val i t =
     (let t = (if \<not> tm_enabled t \<and> bit val i then t\<lparr>tm_divider := 0, tm_counter := 0\<rparr> else t)
      in t\<lparr>tm_enabled := bit val i\<rparr>)"

definition apu_cpuWrite :: "apu \<Rightarrow> u16 \<Rightarrow> u8 \<Rightarrow> apu" where
  "apu_cpuWrite apu adr val =
     (let apu =
       (if adr = 0xf1 then
          let apu = apu\<lparr>apu_timers := map2 (timer_control val) [0..<length (apu_timers apu)] (apu_timers apu)\<rparr>;
              apu = (if tst val 0x10 then apu\<lparr>apu_inPorts := (apu_inPorts apu)[0 := 0, 1 := 0]\<rparr> else apu);
              apu = (if tst val 0x20 then apu\<lparr>apu_inPorts := (apu_inPorts apu)[2 := 0, 3 := 0]\<rparr> else apu)
          in apu\<lparr>apu_romReadable := tst val 0x80\<rparr>
        else if adr = 0xf2 then apu\<lparr>apu_dspAdr := val\<rparr>
        else if adr = 0xf3 then
          (if apu_dspAdr apu < 0x80 then apu\<lparr>apu_dsp := dsp_write (apu_dspAdr apu) val (apu_dsp apu)\<rparr> else apu)
        else if 0xf4 \<le> adr \<and> adr \<le> 0xf7 then
          apu\<lparr>apu_outPorts := (apu_outPorts apu)[unat (adr - 0xf4) := val]\<rparr>
        else if adr = 0xf8 \<or> adr = 0xf9 then
          apu\<lparr>apu_inPorts := (apu_inPorts apu)[unat (adr - 0xf4) := val]\<rparr>
        else if 0xfa \<le> adr \<and> adr \<le> 0xfc then
          (let i = unat (adr - 0xfa)
           in apu\<lparr>apu_timers := (apu_timers apu)[i := (apu_timers apu ! i)\<lparr>tm_target := val\<rparr>]\<rparr>)
        else apu)
      in apu\<lparr>apu_ram := (apu_ram apu)(adr := val)\<rparr>)"

end
