(* ===== verification/Spc_Core.thy ===== *)
theory Spc_Core
  imports Apu_Bus
begin

text \<open>
  The audio processor of \<open>snes/spc.c\<close>: its structure, the bus (\<open>apu_cpuRead\<close> and
  \<open>apu_cpuWrite\<close>), opcode fetch, flags, stack, the addressing modes and the operations shared by
  opcodes. The record holds the audio unit it drives, so a state of this monad is the whole
  \<open>Apu\<close> structure of the source with its processor.
\<close>

record spc =
  spc_apu :: apu
  spc_a :: u8
  spc_x :: u8
  spc_y :: u8
  spc_sp :: u8
  spc_pc :: u16
  spc_c :: bool
  spc_z :: bool
  spc_v :: bool
  spc_n :: bool
  spc_i :: bool
  spc_h :: bool
  spc_p :: bool
  spc_b :: bool
  spc_stopped :: bool
  spc_cyclesUsed :: u8

type_synonym 'a spcM = "(spc, 'a) state"

section \<open>Bus, reset and fetch\<close>

definition spc_read :: "u16 \<Rightarrow> u8 spcM" where
  "spc_read adr = State (\<lambda>spc.
     (case apu_cpuRead (spc_apu spc) adr of (val, apu) \<Rightarrow> (val, spc\<lparr>spc_apu := apu\<rparr>)))"

definition spc_write :: "u16 \<Rightarrow> u8 \<Rightarrow> unit spcM" where
  "spc_write adr val = modify (\<lambda>spc. spc\<lparr>spc_apu := apu_cpuWrite (spc_apu spc) adr val\<rparr>)"

definition spc_reset :: "unit spcM" where
  "spc_reset = do {
     modify (\<lambda>spc. spc\<lparr>spc_a := 0, spc_x := 0, spc_y := 0, spc_sp := 0\<rparr>);
     low \<leftarrow> spc_read 0xfffe;
     high \<leftarrow> spc_read 0xffff;
     modify (\<lambda>spc. spc\<lparr>spc_pc := word16 low high, spc_c := False, spc_z := False, spc_v := False,
       spc_n := False, spc_i := False, spc_h := False, spc_p := False, spc_b := False,
       spc_stopped := False, spc_cyclesUsed := 0\<rparr>)
   }"

definition spc_readOpcode :: "u8 spcM" where
  "spc_readOpcode = do {
     pc \<leftarrow> gets spc_pc;
     modify (\<lambda>spc. spc\<lparr>spc_pc := spc_pc spc + 1\<rparr>);
     spc_read pc
   }"

definition spc_readOpcodeWord :: "u16 spcM" where
  "spc_readOpcodeWord = do {
     low \<leftarrow> spc_readOpcode;
     high \<leftarrow> spc_readOpcode;
     State_Monad.return (word16 low high)
   }"

section \<open>Flags, branches and stack\<close>

definition spc_getFlags :: "spc \<Rightarrow> u8" where
  "spc_getFlags spc =
     push_bit 7 (of_bool (spc_n spc)) OR push_bit 6 (of_bool (spc_v spc))
     OR push_bit 5 (of_bool (spc_p spc)) OR push_bit 4 (of_bool (spc_b spc))
     OR push_bit 3 (of_bool (spc_h spc)) OR push_bit 2 (of_bool (spc_i spc))
     OR push_bit 1 (of_bool (spc_z spc)) OR of_bool (spc_c spc)"

definition spc_setFlags :: "u8 \<Rightarrow> spc \<Rightarrow> spc" where
  "spc_setFlags val spc =
     spc\<lparr>spc_n := tst val 0x80, spc_v := tst val 0x40, spc_p := tst val 0x20, spc_b := tst val 0x10,
         spc_h := tst val 8, spc_i := tst val 4, spc_z := tst val 2, spc_c := tst val 1\<rparr>"

definition spc_setZN :: "u8 \<Rightarrow> spc \<Rightarrow> spc" where
  "spc_setZN value spc = spc\<lparr>spc_z := (value = 0), spc_n := tst value 0x80\<rparr>"

definition spc_doBranch :: "u8 \<Rightarrow> bool \<Rightarrow> unit spcM" where
  "spc_doBranch value check =
     (if check
      then modify (\<lambda>spc. spc\<lparr>spc_cyclesUsed := spc_cyclesUsed spc + 2, spc_pc := spc_pc spc + scast value\<rparr>)
      else State_Monad.return ())"

text \<open>The stack address \<open>0x100 | sp\<close> and the direct-page address \<open>low | (p << 8)\<close>.\<close>

definition page1 :: "u8 \<Rightarrow> u16" where "page1 low = 0x100 OR ucast low"

definition dp_adr :: "spc \<Rightarrow> u8 \<Rightarrow> u16" where
  "dp_adr spc low = ucast low OR push_bit 8 (of_bool (spc_p spc))"

definition spc_pullByte :: "u8 spcM" where
  "spc_pullByte = do {
     modify (\<lambda>spc. spc\<lparr>spc_sp := spc_sp spc + 1\<rparr>);
     sp \<leftarrow> gets spc_sp;
     spc_read (page1 sp)
   }"

definition spc_pushByte :: "u8 \<Rightarrow> unit spcM" where
  "spc_pushByte value = do {
     sp \<leftarrow> gets spc_sp;
     spc_write (page1 sp) value;
     modify (\<lambda>spc. spc\<lparr>spc_sp := spc_sp spc - 1\<rparr>)
   }"

definition spc_pullWord :: "u16 spcM" where
  "spc_pullWord = do {
     value \<leftarrow> spc_pullByte;
     high \<leftarrow> spc_pullByte;
     State_Monad.return (word16 value high)
   }"

definition spc_pushWord :: "u16 \<Rightarrow> unit spcM" where
  "spc_pushWord value = do { spc_pushByte (hi8 value); spc_pushByte (lo8 value) }"

definition spc_readWord :: "u16 \<Rightarrow> u16 \<Rightarrow> u16 spcM" where
  "spc_readWord adrl adrh = do {
     value \<leftarrow> spc_read adrl;
     high \<leftarrow> spc_read adrh;
     State_Monad.return (word16 value high)
   }"

definition spc_writeWord :: "u16 \<Rightarrow> u16 \<Rightarrow> u16 \<Rightarrow> unit spcM" where
  "spc_writeWord adrl adrh value = do { spc_write adrl (lo8 value); spc_write adrh (hi8 value) }"

section \<open>Addressing modes\<close>

definition spc_adrDp :: "u16 spcM" where
  "spc_adrDp = do { low \<leftarrow> spc_readOpcode; gets (\<lambda>spc. dp_adr spc low) }"

definition spc_adrAbs :: "u16 spcM" where
  "spc_adrAbs = spc_readOpcodeWord"

definition spc_adrInd :: "u16 spcM" where
  "spc_adrInd = gets (\<lambda>spc. dp_adr spc (spc_x spc))"

definition spc_adrIdx :: "u16 spcM" where
  "spc_adrIdx = do {
     pointer \<leftarrow> spc_readOpcode;
     spc \<leftarrow> State_Monad.get;
     spc_readWord (dp_adr spc (pointer + spc_x spc)) (dp_adr spc (pointer + spc_x spc + 1))
   }"

definition spc_adrImm :: "u16 spcM" where
  "spc_adrImm = do {
     pc \<leftarrow> gets spc_pc;
     modify (\<lambda>spc. spc\<lparr>spc_pc := spc_pc spc + 1\<rparr>);
     State_Monad.return pc
   }"

definition spc_adrDpx :: "u16 spcM" where
  "spc_adrDpx = do { low \<leftarrow> spc_readOpcode; gets (\<lambda>spc. dp_adr spc (low + spc_x spc)) }"

definition spc_adrDpy :: "u16 spcM" where
  "spc_adrDpy = do { low \<leftarrow> spc_readOpcode; gets (\<lambda>spc. dp_adr spc (low + spc_y spc)) }"

definition spc_adrAbx :: "u16 spcM" where
  "spc_adrAbx = do { adr \<leftarrow> spc_readOpcodeWord; gets (\<lambda>spc. adr + ucast (spc_x spc)) }"

definition spc_adrAby :: "u16 spcM" where
  "spc_adrAby = do { adr \<leftarrow> spc_readOpcodeWord; gets (\<lambda>spc. adr + ucast (spc_y spc)) }"

definition spc_adrIdy :: "u16 spcM" where
  "spc_adrIdy = do {
     pointer \<leftarrow> spc_readOpcode;
     spc \<leftarrow> State_Monad.get;
     adr \<leftarrow> spc_readWord (dp_adr spc pointer) (dp_adr spc (pointer + 1));
     gets (\<lambda>spc. adr + ucast (spc_y spc))
   }"

text \<open>The two-operand modes return the destination and the source.\<close>

definition spc_adrDpDp :: "(u16 \<times> u16) spcM" where
  "spc_adrDpDp = do {
     src \<leftarrow> spc_adrDp;
     dst \<leftarrow> spc_adrDp;
     State_Monad.return (dst, src)
   }"

definition spc_adrDpImm :: "(u16 \<times> u16) spcM" where
  "spc_adrDpImm = do {
     src \<leftarrow> spc_adrImm;
     dst \<leftarrow> spc_adrDp;
     State_Monad.return (dst, src)
   }"

definition spc_adrIndInd :: "(u16 \<times> u16) spcM" where
  "spc_adrIndInd = gets (\<lambda>spc. (dp_adr spc (spc_x spc), dp_adr spc (spc_y spc)))"

text \<open>The bit number and the address.\<close>

definition spc_adrAbsBit :: "(nat \<times> u16) spcM" where
  "spc_adrAbsBit = do {
     adrBit \<leftarrow> spc_readOpcodeWord;
     State_Monad.return (unat (drop_bit 13 adrBit), adrBit AND 0x1fff)
   }"

text \<open>The low and the high address of a direct-page word.\<close>

definition spc_adrDpWord :: "(u16 \<times> u16) spcM" where
  "spc_adrDpWord = do {
     adr \<leftarrow> spc_readOpcode;
     gets (\<lambda>spc. (dp_adr spc adr, dp_adr spc (adr + 1)))
   }"

definition spc_adrIndP :: "u16 spcM" where
  "spc_adrIndP = do {
     spc \<leftarrow> State_Monad.get;
     modify (\<lambda>spc. spc\<lparr>spc_x := spc_x spc + 1\<rparr>);
     State_Monad.return (dp_adr spc (spc_x spc))
   }"

section \<open>Operations\<close>

text \<open>Logic on the accumulator and from memory to memory.\<close>

definition spc_logic :: "(u8 \<Rightarrow> u8 \<Rightarrow> u8) \<Rightarrow> u16 \<Rightarrow> unit spcM" where
  "spc_logic f adr = do {
     value \<leftarrow> spc_read adr;
     modify (\<lambda>spc. spc\<lparr>spc_a := f (spc_a spc) value\<rparr>);
     modify (\<lambda>spc. spc_setZN (spc_a spc) spc)
   }"

definition spc_logicm :: "(u8 \<Rightarrow> u8 \<Rightarrow> u8) \<Rightarrow> u16 \<Rightarrow> u16 \<Rightarrow> unit spcM" where
  "spc_logicm f dst src = do {
     value \<leftarrow> spc_read src;
     d \<leftarrow> spc_read dst;
     spc_write dst (f d value);
     modify (spc_setZN (f d value))
   }"

definition spc_and :: "u16 \<Rightarrow> unit spcM" where "spc_and = spc_logic (AND)"
definition spc_or :: "u16 \<Rightarrow> unit spcM" where "spc_or = spc_logic (OR)"
definition spc_eor :: "u16 \<Rightarrow> unit spcM" where "spc_eor = spc_logic (XOR)"
definition spc_andm :: "u16 \<Rightarrow> u16 \<Rightarrow> unit spcM" where "spc_andm = spc_logicm (AND)"
definition spc_orm :: "u16 \<Rightarrow> u16 \<Rightarrow> unit spcM" where "spc_orm = spc_logicm (OR)"
definition spc_eorm :: "u16 \<Rightarrow> u16 \<Rightarrow> unit spcM" where "spc_eorm = spc_logicm (XOR)"

text \<open>
  The sum of two bytes and the carry as the C code's \<open>int result\<close>, with its overflow,
  half-carry and carry flags; shared by the four add and subtract functions.
\<close>

definition spc_sum :: "u8 \<Rightarrow> u8 \<Rightarrow> bool \<Rightarrow> int \<times> bool \<times> bool \<times> bool" where
  "spc_sum a value c =
     (let result = uint a + uint value + of_bool c
      in (result,
          uint a AND 0x80 = uint value AND 0x80 \<and> uint value AND 0x80 \<noteq> result AND 0x80,
          (uint a AND 0xf) + (uint value AND 0xf) + of_bool c > 0xf,
          result > 0xff))"

definition spc_adc_value :: "u8 \<Rightarrow> unit spcM" where
  "spc_adc_value value = do {
     modify (\<lambda>spc. case spc_sum (spc_a spc) value (spc_c spc) of (result, v, h, c) \<Rightarrow>
       spc\<lparr>spc_v := v, spc_h := h, spc_c := c, spc_a := word_of_int result\<rparr>);
     modify (\<lambda>spc. spc_setZN (spc_a spc) spc)
   }"

definition spc_adcm_value :: "u16 \<Rightarrow> u8 \<Rightarrow> unit spcM" where
  "spc_adcm_value dst value = do {
     applyOn \<leftarrow> spc_read dst;
     spc \<leftarrow> State_Monad.get;
     let (result, v, h, c) = spc_sum applyOn value (spc_c spc);
     modify (\<lambda>spc. spc\<lparr>spc_v := v, spc_h := h, spc_c := c\<rparr>);
     spc_write dst (word_of_int result);
     modify (spc_setZN (word_of_int result))
   }"

definition spc_adc :: "u16 \<Rightarrow> unit spcM" where
  "spc_adc adr = do { value \<leftarrow> spc_read adr; spc_adc_value value }"

definition spc_adcm :: "u16 \<Rightarrow> u16 \<Rightarrow> unit spcM" where
  "spc_adcm dst src = do { value \<leftarrow> spc_read src; spc_adcm_value dst value }"

definition spc_sbc :: "u16 \<Rightarrow> unit spcM" where
  "spc_sbc adr = do { value \<leftarrow> spc_read adr; spc_adc_value (value XOR 0xff) }"

definition spc_sbcm :: "u16 \<Rightarrow> u16 \<Rightarrow> unit spcM" where
  "spc_sbcm dst src = do { value \<leftarrow> spc_read src; spc_adcm_value dst (value XOR 0xff) }"

text \<open>A comparison: the sum with the complemented operand and one.\<close>

definition spc_compare :: "u8 \<Rightarrow> u8 \<Rightarrow> unit spcM" where
  "spc_compare reg m =
     (let result = uint reg + uint (m XOR 0xff) + 1
      in modify (\<lambda>spc. spc_setZN (word_of_int result) (spc\<lparr>spc_c := (result > 0xff)\<rparr>)))"

definition spc_cmp :: "u16 \<Rightarrow> unit spcM" where
  "spc_cmp adr = do { value \<leftarrow> spc_read adr; reg \<leftarrow> gets spc_a; spc_compare reg value }"

definition spc_cmpx :: "u16 \<Rightarrow> unit spcM" where
  "spc_cmpx adr = do { value \<leftarrow> spc_read adr; reg \<leftarrow> gets spc_x; spc_compare reg value }"

definition spc_cmpy :: "u16 \<Rightarrow> unit spcM" where
  "spc_cmpy adr = do { value \<leftarrow> spc_read adr; reg \<leftarrow> gets spc_y; spc_compare reg value }"

definition spc_cmpm :: "u16 \<Rightarrow> u16 \<Rightarrow> unit spcM" where
  "spc_cmpm dst src = do { value \<leftarrow> spc_read src; reg \<leftarrow> spc_read dst; spc_compare reg value }"

text \<open>Moves; a store reads its destination first.\<close>

definition spc_mov :: "u16 \<Rightarrow> unit spcM" where
  "spc_mov adr = do { value \<leftarrow> spc_read adr; modify (\<lambda>spc. spc_setZN value (spc\<lparr>spc_a := value\<rparr>)) }"

definition spc_movx :: "u16 \<Rightarrow> unit spcM" where
  "spc_movx adr = do { value \<leftarrow> spc_read adr; modify (\<lambda>spc. spc_setZN value (spc\<lparr>spc_x := value\<rparr>)) }"

definition spc_movy :: "u16 \<Rightarrow> unit spcM" where
  "spc_movy adr = do { value \<leftarrow> spc_read adr; modify (\<lambda>spc. spc_setZN value (spc\<lparr>spc_y := value\<rparr>)) }"

definition spc_store :: "(spc \<Rightarrow> u8) \<Rightarrow> u16 \<Rightarrow> unit spcM" where
  "spc_store reg adr = do { _ \<leftarrow> spc_read adr; v \<leftarrow> gets reg; spc_write adr v }"

definition spc_movs :: "u16 \<Rightarrow> unit spcM" where "spc_movs = spc_store spc_a"
definition spc_movsx :: "u16 \<Rightarrow> unit spcM" where "spc_movsx = spc_store spc_x"
definition spc_movsy :: "u16 \<Rightarrow> unit spcM" where "spc_movsy = spc_store spc_y"

text \<open>Shifts, increment and decrement: from the carry and the operand, the result and the new carry.\<close>

definition spc_rmw :: "(bool \<Rightarrow> u8 \<Rightarrow> u8 \<times> bool) \<Rightarrow> u16 \<Rightarrow> unit spcM" where
  "spc_rmw f adr = do {
     val \<leftarrow> spc_read adr;
     spc \<leftarrow> State_Monad.get;
     let (result, c) = f (spc_c spc) val;
     modify (\<lambda>spc. spc\<lparr>spc_c := c\<rparr>);
     spc_write adr result;
     modify (spc_setZN result)
   }"

definition asl8 :: "bool \<Rightarrow> u8 \<Rightarrow> u8 \<times> bool" where "asl8 c v = (push_bit 1 v, tst v 0x80)"
definition lsr8 :: "bool \<Rightarrow> u8 \<Rightarrow> u8 \<times> bool" where "lsr8 c v = (drop_bit 1 v, tst v 1)"
definition rol8 :: "bool \<Rightarrow> u8 \<Rightarrow> u8 \<times> bool" where "rol8 c v = (push_bit 1 v OR of_bool c, tst v 0x80)"
definition ror8 :: "bool \<Rightarrow> u8 \<Rightarrow> u8 \<times> bool" where
  "ror8 c v = (drop_bit 1 v OR push_bit 7 (of_bool c), tst v 1)"

definition spc_asl :: "u16 \<Rightarrow> unit spcM" where "spc_asl = spc_rmw asl8"
definition spc_lsr :: "u16 \<Rightarrow> unit spcM" where "spc_lsr = spc_rmw lsr8"
definition spc_rol :: "u16 \<Rightarrow> unit spcM" where "spc_rol = spc_rmw rol8"
definition spc_ror :: "u16 \<Rightarrow> unit spcM" where "spc_ror = spc_rmw ror8"
definition spc_inc :: "u16 \<Rightarrow> unit spcM" where "spc_inc = spc_rmw (\<lambda>c v. (v + 1, c))"
definition spc_dec :: "u16 \<Rightarrow> unit spcM" where "spc_dec = spc_rmw (\<lambda>c v. (v - 1, c))"

section \<open>How the primitives run\<close>

lemma run_spc_read [run_simps]:
  "run_state (spc_read adr) spc =
    (fst (apu_cpuRead (spc_apu spc) adr), spc\<lparr>spc_apu := snd (apu_cpuRead (spc_apu spc) adr)\<rparr>)"
  by (simp add: spc_read_def split: prod.split)

lemma run_spc_write [run_simps]:
  "run_state (spc_write adr val) spc = ((), spc\<lparr>spc_apu := apu_cpuWrite (spc_apu spc) adr val\<rparr>)"
  by (simp add: spc_write_def)

lemma bit_spc_getFlags [bit_simps]:
  "bit (spc_getFlags spc) n \<longleftrightarrow>
     n = 7 \<and> spc_n spc \<or> n = 6 \<and> spc_v spc \<or> n = 5 \<and> spc_p spc \<or> n = 4 \<and> spc_b spc
     \<or> n = 3 \<and> spc_h spc \<or> n = 2 \<and> spc_i spc \<or> n = 1 \<and> spc_z spc \<or> n = 0 \<and> spc_c spc"
  by (simp only: spc_getFlags_def bit_or_iff bit_push_of_bool bit_of_bool_word disj_assoc) simp

end
