(* ===== verification/Spc_Opcodes.thy ===== *)
theory Spc_Opcodes
  imports Spc_Core
begin

text \<open>
  Instruction execution of the audio processor: the opcodes with code of their own in the switch
  of \<open>spc_doOpcode\<close> (definitions \<open>spc_op_\<dots>\<close>), the switch as a jump table of sixteen rows, the
  cycle table and \<open>spc_runOpcode\<close>.
\<close>

section \<open>Opcodes written out in the switch\<close>

text \<open>An operation applied to one address, or to a destination and a source.\<close>

definition spc_with_adr :: "u16 spcM \<Rightarrow> (u16 \<Rightarrow> unit spcM) \<Rightarrow> unit spcM" where
  "spc_with_adr mode operation = do { adr \<leftarrow> mode; operation adr }"

definition spc_with_dst :: "(u16 \<times> u16) spcM \<Rightarrow> (u16 \<Rightarrow> u16 \<Rightarrow> unit spcM) \<Rightarrow> unit spcM" where
  "spc_with_dst mode operation = do { (dst, src) \<leftarrow> mode; operation dst src }"

definition spc_op_branch :: "(spc \<Rightarrow> bool) \<Rightarrow> unit spcM" where
  "spc_op_branch check = do {
     rel \<leftarrow> spc_readOpcode;
     spc \<leftarrow> State_Monad.get;
     spc_doBranch rel (check spc)
   }"

subsection \<open>Table jumps and bit operations on the direct page\<close>

definition spc_op_tcall :: "u16 \<Rightarrow> unit spcM" where
  "spc_op_tcall n = do {
     pc \<leftarrow> gets spc_pc;
     spc_pushWord pc;
     pc' \<leftarrow> spc_readWord (0xffde - 2 * n) (0xffde - 2 * n + 1);
     modify (\<lambda>spc. spc\<lparr>spc_pc := pc'\<rparr>)
   }"

definition spc_op_set1 :: "nat \<Rightarrow> unit spcM" where
  "spc_op_set1 k = do {
     adr \<leftarrow> spc_adrDp;
     v \<leftarrow> spc_read adr;
     spc_write adr (v OR push_bit k 1)
   }"

definition spc_op_clr1 :: "nat \<Rightarrow> unit spcM" where
  "spc_op_clr1 k = do {
     adr \<leftarrow> spc_adrDp;
     v \<leftarrow> spc_read adr;
     spc_write adr (v AND NOT (push_bit k 1))
   }"

definition spc_op_bbs :: "nat \<Rightarrow> unit spcM" where
  "spc_op_bbs k = do {
     adr \<leftarrow> spc_adrDp;
     val \<leftarrow> spc_read adr;
     rel \<leftarrow> spc_readOpcode;
     spc_doBranch rel (tst val (push_bit k 1))
   }"

definition spc_op_bbc :: "nat \<Rightarrow> unit spcM" where
  "spc_op_bbc k = do {
     adr \<leftarrow> spc_adrDp;
     val \<leftarrow> spc_read adr;
     rel \<leftarrow> spc_readOpcode;
     spc_doBranch rel (val AND push_bit k 1 = 0)
   }"

subsection \<open>Single bits of absolute memory\<close>

text \<open>The carry combined with a bit of memory.\<close>

definition spc_bit_to_c :: "(bool \<Rightarrow> bool \<Rightarrow> bool) \<Rightarrow> unit spcM" where
  "spc_bit_to_c f = do {
     (k, adr) \<leftarrow> spc_adrAbsBit;
     v \<leftarrow> spc_read adr;
     modify (\<lambda>spc. spc\<lparr>spc_c := f (spc_c spc) (bit v k)\<rparr>)
   }"

definition spc_op_or1 :: "unit spcM" where "spc_op_or1 = spc_bit_to_c (\<lambda>c b. c \<or> b)"

definition spc_op_or1n :: "unit spcM" where "spc_op_or1n = spc_bit_to_c (\<lambda>c b. c \<or> \<not> b)"

definition spc_op_and1 :: "unit spcM" where "spc_op_and1 = spc_bit_to_c (\<lambda>c b. c \<and> b)"

definition spc_op_and1n :: "unit spcM" where "spc_op_and1n = spc_bit_to_c (\<lambda>c b. c \<and> \<not> b)"

definition spc_op_eor1 :: "unit spcM" where "spc_op_eor1 = spc_bit_to_c (\<lambda>c b. c \<noteq> b)"

definition spc_op_mov1 :: "unit spcM" where "spc_op_mov1 = spc_bit_to_c (\<lambda>c b. b)"

definition spc_op_mov1s :: "unit spcM" where
  "spc_op_mov1s = do {
     (k, adr) \<leftarrow> spc_adrAbsBit;
     v \<leftarrow> spc_read adr;
     c \<leftarrow> gets spc_c;
     spc_write adr ((v AND NOT (push_bit k 1)) OR push_bit k (of_bool c))
   }"

definition spc_op_not1 :: "unit spcM" where
  "spc_op_not1 = do {
     (k, adr) \<leftarrow> spc_adrAbsBit;
     v \<leftarrow> spc_read adr;
     spc_write adr (v XOR push_bit k 1)
   }"

definition spc_op_tset1 :: "unit spcM" where
  "spc_op_tset1 = do {
     adr \<leftarrow> spc_adrAbs;
     val \<leftarrow> spc_read adr;
     modify (\<lambda>spc. spc_setZN (spc_a spc + (val XOR 0xff) + 1) spc);
     spc \<leftarrow> State_Monad.get;
     spc_write adr (val OR spc_a spc)
   }"

definition spc_op_tclr1 :: "unit spcM" where
  "spc_op_tclr1 = do {
     adr \<leftarrow> spc_adrAbs;
     val \<leftarrow> spc_read adr;
     modify (\<lambda>spc. spc_setZN (spc_a spc + (val XOR 0xff) + 1) spc);
     spc \<leftarrow> State_Monad.get;
     spc_write adr (val AND NOT (spc_a spc))
   }"

subsection \<open>Stack, calls and returns\<close>

definition spc_op_pushp :: "unit spcM" where "spc_op_pushp = do { v \<leftarrow> gets spc_getFlags; spc_pushByte v }"

definition spc_op_pusha :: "unit spcM" where "spc_op_pusha = do { v \<leftarrow> gets spc_a; spc_pushByte v }"

definition spc_op_pushx :: "unit spcM" where "spc_op_pushx = do { v \<leftarrow> gets spc_x; spc_pushByte v }"

definition spc_op_pushy :: "unit spcM" where "spc_op_pushy = do { v \<leftarrow> gets spc_y; spc_pushByte v }"

definition spc_op_popp :: "unit spcM" where "spc_op_popp = do { v \<leftarrow> spc_pullByte; modify (spc_setFlags v) }"

definition spc_op_popa :: "unit spcM" where
  "spc_op_popa = do { v \<leftarrow> spc_pullByte; modify (\<lambda>spc. spc\<lparr>spc_a := v\<rparr>) }"

definition spc_op_popx :: "unit spcM" where
  "spc_op_popx = do { v \<leftarrow> spc_pullByte; modify (\<lambda>spc. spc\<lparr>spc_x := v\<rparr>) }"

definition spc_op_popy :: "unit spcM" where
  "spc_op_popy = do { v \<leftarrow> spc_pullByte; modify (\<lambda>spc. spc\<lparr>spc_y := v\<rparr>) }"

definition spc_op_brk :: "unit spcM" where
  "spc_op_brk = do {
     pc \<leftarrow> gets spc_pc;
     spc_pushWord pc;
     flags \<leftarrow> gets spc_getFlags;
     spc_pushByte flags;
     modify (\<lambda>spc. spc\<lparr>spc_i := False, spc_b := True\<rparr>);
     pc' \<leftarrow> spc_readWord 0xffde 0xffdf;
     modify (\<lambda>spc. spc\<lparr>spc_pc := pc'\<rparr>)
   }"

definition spc_op_call :: "unit spcM" where
  "spc_op_call = do {
     dst \<leftarrow> spc_readOpcodeWord;
     pc \<leftarrow> gets spc_pc;
     spc_pushWord pc;
     modify (\<lambda>spc. spc\<lparr>spc_pc := dst\<rparr>)
   }"

definition spc_op_pcall :: "unit spcM" where
  "spc_op_pcall = do {
     dst \<leftarrow> spc_readOpcode;
     pc \<leftarrow> gets spc_pc;
     spc_pushWord pc;
     modify (\<lambda>spc. spc\<lparr>spc_pc := 0xff00 OR ucast dst\<rparr>)
   }"

definition spc_op_ret :: "unit spcM" where
  "spc_op_ret = do { pc \<leftarrow> spc_pullWord; modify (\<lambda>spc. spc\<lparr>spc_pc := pc\<rparr>) }"

definition spc_op_reti :: "unit spcM" where
  "spc_op_reti = do {
     flags \<leftarrow> spc_pullByte;
     modify (spc_setFlags flags);
     pc \<leftarrow> spc_pullWord;
     modify (\<lambda>spc. spc\<lparr>spc_pc := pc\<rparr>)
   }"

definition spc_op_jmp_abs :: "unit spcM" where
  "spc_op_jmp_abs = do { pc \<leftarrow> spc_readOpcodeWord; modify (\<lambda>spc. spc\<lparr>spc_pc := pc\<rparr>) }"

definition spc_op_jmp_iax :: "unit spcM" where
  "spc_op_jmp_iax = do {
     pointer \<leftarrow> spc_readOpcodeWord;
     x \<leftarrow> gets spc_x;
     pc \<leftarrow> spc_readWord (pointer + ucast x) (pointer + ucast x + 1);
     modify (\<lambda>spc. spc\<lparr>spc_pc := pc\<rparr>)
   }"

subsection \<open>Branches with a body of their own\<close>

definition spc_op_bra :: "unit spcM" where
  "spc_op_bra = do { v \<leftarrow> spc_readOpcode; modify (\<lambda>spc. spc\<lparr>spc_pc := spc_pc spc + scast v\<rparr>) }"

definition spc_cbne :: "u16 spcM \<Rightarrow> unit spcM" where
  "spc_cbne mode = do {
     adr \<leftarrow> mode;
     v \<leftarrow> spc_read adr;
     a \<leftarrow> gets spc_a;
     rel \<leftarrow> spc_readOpcode;
     spc_doBranch rel (a + (v XOR 0xff) + 1 \<noteq> 0)
   }"

definition spc_op_cbne_dp :: "unit spcM" where "spc_op_cbne_dp = spc_cbne spc_adrDp"

definition spc_op_cbne_dpx :: "unit spcM" where "spc_op_cbne_dpx = spc_cbne spc_adrDpx"

definition spc_op_dbnz :: "unit spcM" where
  "spc_op_dbnz = do {
     adr \<leftarrow> spc_adrDp;
     v \<leftarrow> spc_read adr;
     spc_write adr (v - 1);
     rel \<leftarrow> spc_readOpcode;
     spc_doBranch rel (v - 1 \<noteq> 0)
   }"

definition spc_op_dbnzy :: "unit spcM" where
  "spc_op_dbnzy = do {
     modify (\<lambda>spc. spc\<lparr>spc_y := spc_y spc - 1\<rparr>);
     rel \<leftarrow> spc_readOpcode;
     y \<leftarrow> gets spc_y;
     spc_doBranch rel (y \<noteq> 0)
   }"

subsection \<open>Sixteen-bit operations\<close>

definition spc_ya :: "spc \<Rightarrow> u16" where
  "spc_ya spc = word16 (spc_a spc) (spc_y spc)"

definition spc_stepw :: "(u16 \<Rightarrow> u16) \<Rightarrow> unit spcM" where
  "spc_stepw f = do {
     (low, high) \<leftarrow> spc_adrDpWord;
     v \<leftarrow> spc_readWord low high;
     modify (\<lambda>spc. spc\<lparr>spc_z := (f v = 0), spc_n := tst (f v) 0x8000\<rparr>);
     spc_writeWord low high (f v)
   }"

definition spc_op_decw :: "unit spcM" where "spc_op_decw = spc_stepw (\<lambda>v. v - 1)"

definition spc_op_incw :: "unit spcM" where "spc_op_incw = spc_stepw (\<lambda>v. v + 1)"

definition spc_op_cmpw :: "unit spcM" where
  "spc_op_cmpw = do {
     (low, high) \<leftarrow> spc_adrDpWord;
     v \<leftarrow> spc_readWord low high;
     modify (\<lambda>spc. let result = uint (spc_ya spc) + uint (v XOR 0xffff) + 1
       in spc\<lparr>spc_c := (result > 0xffff), spc_z := (result AND 0xffff = 0), spc_n := (result AND 0x8000 \<noteq> 0)\<rparr>)
   }"

text \<open>
  The flags and registers of a 16-bit sum, in the order of the source; \<open>half\<close> is the value the
  half-carry test adds to the low twelve bits.
\<close>

definition spc_sumw :: "u16 \<Rightarrow> int \<Rightarrow> int \<Rightarrow> spc \<Rightarrow> spc" where
  "spc_sumw v carry half spc =
     (let ya = uint (spc_ya spc); vv = uint v;
          result = ya + vv + carry
      in spc\<lparr>spc_v := (ya AND 0x8000 = vv AND 0x8000 \<and> vv AND 0x8000 \<noteq> result AND 0x8000),
             spc_h := ((ya AND 0xfff) + (vv AND 0xfff) + half > 0xfff),
             spc_c := (result > 0xffff), spc_z := (result AND 0xffff = 0),
             spc_n := (result AND 0x8000 \<noteq> 0),
             spc_a := word_of_int (result AND 0xff), spc_y := word_of_int (drop_bit 8 result)\<rparr>)"

definition spc_op_addw :: "unit spcM" where
  "spc_op_addw = do {
     (low, high) \<leftarrow> spc_adrDpWord;
     v \<leftarrow> spc_readWord low high;
     modify (spc_sumw v 0 1)
   }"

definition spc_op_subw :: "unit spcM" where
  "spc_op_subw = do {
     (low, high) \<leftarrow> spc_adrDpWord;
     v \<leftarrow> spc_readWord low high;
     modify (spc_sumw (v XOR 0xffff) 1 1)
   }"

definition spc_op_movw :: "unit spcM" where
  "spc_op_movw = do {
     (low, high) \<leftarrow> spc_adrDpWord;
     v \<leftarrow> spc_readWord low high;
     modify (\<lambda>spc. spc\<lparr>spc_a := lo8 v, spc_y := hi8 v, spc_z := (v = 0), spc_n := tst v 0x8000\<rparr>)
   }"

definition spc_op_movws :: "unit spcM" where
  "spc_op_movws = do {
     (low, high) \<leftarrow> spc_adrDpWord;
     _ \<leftarrow> spc_read low;
     spc \<leftarrow> State_Monad.get;
     spc_write low (spc_a spc);
     spc_write high (spc_y spc)
   }"

definition spc_op_mul :: "unit spcM" where
  "spc_op_mul = modify (\<lambda>spc.
     let result = ucast (spc_a spc) * ucast (spc_y spc) :: u16
     in spc_setZN (hi8 result) (spc\<lparr>spc_a := lo8 result, spc_y := hi8 result\<rparr>))"

definition spc_op_div :: "unit spcM" where
  "spc_op_div = modify (\<lambda>spc.
     let v = uint (spc_ya spc); x = uint (spc_x spc);
         (result, rest) = (if spc_x spc \<noteq> 0 then (v div x, v mod x) else (0xffff, uint (spc_a spc)));
         spc = spc\<lparr>spc_v := (result > 0xff), spc_h := (spc_x spc AND 0xf \<le> spc_y spc AND 0xf)\<rparr>;
         spc = spc\<lparr>spc_a := word_of_int result, spc_y := word_of_int rest\<rparr>
     in spc_setZN (spc_a spc) spc)"

subsection \<open>Accumulator, index and decimal adjustment\<close>

definition spc_shift_a :: "(bool \<Rightarrow> u8 \<Rightarrow> u8 \<times> bool) \<Rightarrow> unit spcM" where
  "spc_shift_a f = modify (\<lambda>spc. case f (spc_c spc) (spc_a spc) of
     (a, c) \<Rightarrow> spc_setZN a (spc\<lparr>spc_c := c, spc_a := a\<rparr>))"

definition spc_set_a :: "(spc \<Rightarrow> u8) \<Rightarrow> unit spcM" where
  "spc_set_a f = modify (\<lambda>spc. spc_setZN (f spc) (spc\<lparr>spc_a := f spc\<rparr>))"

definition spc_set_x :: "(spc \<Rightarrow> u8) \<Rightarrow> unit spcM" where
  "spc_set_x f = modify (\<lambda>spc. spc_setZN (f spc) (spc\<lparr>spc_x := f spc\<rparr>))"

definition spc_set_y :: "(spc \<Rightarrow> u8) \<Rightarrow> unit spcM" where
  "spc_set_y f = modify (\<lambda>spc. spc_setZN (f spc) (spc\<lparr>spc_y := f spc\<rparr>))"

definition spc_op_asla :: "unit spcM" where "spc_op_asla = spc_shift_a asl8"

definition spc_op_rola :: "unit spcM" where "spc_op_rola = spc_shift_a rol8"

definition spc_op_lsra :: "unit spcM" where "spc_op_lsra = spc_shift_a lsr8"

definition spc_op_rora :: "unit spcM" where "spc_op_rora = spc_shift_a ror8"

definition spc_op_decx :: "unit spcM" where "spc_op_decx = spc_set_x (\<lambda>spc. spc_x spc - 1)"

definition spc_op_incx :: "unit spcM" where "spc_op_incx = spc_set_x (\<lambda>spc. spc_x spc + 1)"

definition spc_op_decy :: "unit spcM" where "spc_op_decy = spc_set_y (\<lambda>spc. spc_y spc - 1)"

definition spc_op_incy :: "unit spcM" where "spc_op_incy = spc_set_y (\<lambda>spc. spc_y spc + 1)"

definition spc_op_deca :: "unit spcM" where "spc_op_deca = spc_set_a (\<lambda>spc. spc_a spc - 1)"

definition spc_op_inca :: "unit spcM" where "spc_op_inca = spc_set_a (\<lambda>spc. spc_a spc + 1)"

definition spc_op_movxa :: "unit spcM" where "spc_op_movxa = spc_set_x (\<lambda>spc. spc_a spc)"

definition spc_op_movax :: "unit spcM" where "spc_op_movax = spc_set_a (\<lambda>spc. spc_x spc)"

definition spc_op_movxp :: "unit spcM" where "spc_op_movxp = spc_set_x (\<lambda>spc. spc_sp spc)"

definition spc_op_movay :: "unit spcM" where "spc_op_movay = spc_set_a (\<lambda>spc. spc_y spc)"

definition spc_op_movya :: "unit spcM" where "spc_op_movya = spc_set_y (\<lambda>spc. spc_a spc)"

definition spc_op_xcn :: "unit spcM" where
  "spc_op_xcn = spc_set_a (\<lambda>spc. drop_bit 4 (spc_a spc) OR push_bit 4 (spc_a spc))"

definition spc_op_movpx :: "unit spcM" where "spc_op_movpx = modify (\<lambda>spc. spc\<lparr>spc_sp := spc_x spc\<rparr>)"

definition spc_op_daa :: "unit spcM" where
  "spc_op_daa = modify (\<lambda>spc.
     let spc = (if spc_a spc > 0x99 \<or> spc_c spc then spc\<lparr>spc_a := spc_a spc + 0x60, spc_c := True\<rparr> else spc);
         spc = (if spc_a spc AND 0xf > 9 \<or> spc_h spc then spc\<lparr>spc_a := spc_a spc + 6\<rparr> else spc)
     in spc_setZN (spc_a spc) spc)"

definition spc_op_das :: "unit spcM" where
  "spc_op_das = modify (\<lambda>spc.
     let spc = (if spc_a spc > 0x99 \<or> \<not> spc_c spc then spc\<lparr>spc_a := spc_a spc - 0x60, spc_c := False\<rparr> else spc);
         spc = (if spc_a spc AND 0xf > 9 \<or> \<not> spc_h spc then spc\<lparr>spc_a := spc_a spc - 6\<rparr> else spc)
     in spc_setZN (spc_a spc) spc)"

subsection \<open>Memory moves and flags\<close>

definition spc_op_movm_imm :: "unit spcM" where
  "spc_op_movm_imm = do {
     (dst, src) \<leftarrow> spc_adrDpImm;
     val \<leftarrow> spc_read src;
     _ \<leftarrow> spc_read dst;
     spc_write dst val
   }"

definition spc_op_movm_dp :: "unit spcM" where
  "spc_op_movm_dp = do {
     (dst, src) \<leftarrow> spc_adrDpDp;
     val \<leftarrow> spc_read src;
     spc_write dst val
   }"

definition spc_op_movs_indp :: "unit spcM" where
  "spc_op_movs_indp = do { adr \<leftarrow> spc_adrIndP; a \<leftarrow> gets spc_a; spc_write adr a }"

definition spc_op_mov_indp :: "unit spcM" where "spc_op_mov_indp = do { adr \<leftarrow> spc_adrIndP; spc_mov adr }"

definition spc_op_nop :: "unit spcM" where "spc_op_nop = State_Monad.return ()"

definition spc_op_clrp :: "unit spcM" where "spc_op_clrp = modify (\<lambda>spc. spc\<lparr>spc_p := False\<rparr>)"

definition spc_op_setp :: "unit spcM" where "spc_op_setp = modify (\<lambda>spc. spc\<lparr>spc_p := True\<rparr>)"

definition spc_op_clrc :: "unit spcM" where "spc_op_clrc = modify (\<lambda>spc. spc\<lparr>spc_c := False\<rparr>)"

definition spc_op_setc :: "unit spcM" where "spc_op_setc = modify (\<lambda>spc. spc\<lparr>spc_c := True\<rparr>)"

definition spc_op_notc :: "unit spcM" where "spc_op_notc = modify (\<lambda>spc. spc\<lparr>spc_c := \<not> spc_c spc\<rparr>)"

definition spc_op_ei :: "unit spcM" where "spc_op_ei = modify (\<lambda>spc. spc\<lparr>spc_i := True\<rparr>)"

definition spc_op_di :: "unit spcM" where "spc_op_di = modify (\<lambda>spc. spc\<lparr>spc_i := False\<rparr>)"

definition spc_op_clrv :: "unit spcM" where
  "spc_op_clrv = modify (\<lambda>spc. spc\<lparr>spc_v := False, spc_h := False\<rparr>)"

definition spc_op_sleep :: "unit spcM" where "spc_op_sleep = modify (\<lambda>spc. spc\<lparr>spc_stopped := True\<rparr>)"

definition spc_op_stop :: "unit spcM" where "spc_op_stop = modify (\<lambda>spc. spc\<lparr>spc_stopped := True\<rparr>)"

section \<open>The switch\<close>

definition spc_doOpcode_0x :: "unit spcM list" where
  "spc_doOpcode_0x =
    [spc_op_nop, spc_op_tcall 0,
     spc_op_set1 0, spc_op_bbs 0,
     spc_with_adr spc_adrDp spc_or, spc_with_adr spc_adrAbs spc_or,
     spc_with_adr spc_adrInd spc_or, spc_with_adr spc_adrIdx spc_or,
     spc_with_adr spc_adrImm spc_or, spc_with_dst spc_adrDpDp spc_orm,
     spc_op_or1, spc_with_adr spc_adrDp spc_asl,
     spc_with_adr spc_adrAbs spc_asl, spc_op_pushp,
     spc_op_tset1, spc_op_brk]"

definition spc_doOpcode_1x :: "unit spcM list" where
  "spc_doOpcode_1x =
    [spc_op_branch (\<lambda>spc. \<not> spc_n spc), spc_op_tcall 1,
     spc_op_clr1 0, spc_op_bbc 0,
     spc_with_adr spc_adrDpx spc_or, spc_with_adr spc_adrAbx spc_or,
     spc_with_adr spc_adrAby spc_or, spc_with_adr spc_adrIdy spc_or,
     spc_with_dst spc_adrDpImm spc_orm, spc_with_dst spc_adrIndInd spc_orm,
     spc_op_decw, spc_with_adr spc_adrDpx spc_asl,
     spc_op_asla, spc_op_decx,
     spc_with_adr spc_adrAbs spc_cmpx, spc_op_jmp_iax]"

definition spc_doOpcode_2x :: "unit spcM list" where
  "spc_doOpcode_2x =
    [spc_op_clrp, spc_op_tcall 2,
     spc_op_set1 1, spc_op_bbs 1,
     spc_with_adr spc_adrDp spc_and, spc_with_adr spc_adrAbs spc_and,
     spc_with_adr spc_adrInd spc_and, spc_with_adr spc_adrIdx spc_and,
     spc_with_adr spc_adrImm spc_and, spc_with_dst spc_adrDpDp spc_andm,
     spc_op_or1n, spc_with_adr spc_adrDp spc_rol,
     spc_with_adr spc_adrAbs spc_rol, spc_op_pusha,
     spc_op_cbne_dp, spc_op_bra]"

definition spc_doOpcode_3x :: "unit spcM list" where
  "spc_doOpcode_3x =
    [spc_op_branch (\<lambda>spc. spc_n spc), spc_op_tcall 3,
     spc_op_clr1 1, spc_op_bbc 1,
     spc_with_adr spc_adrDpx spc_and, spc_with_adr spc_adrAbx spc_and,
     spc_with_adr spc_adrAby spc_and, spc_with_adr spc_adrIdy spc_and,
     spc_with_dst spc_adrDpImm spc_andm, spc_with_dst spc_adrIndInd spc_andm,
     spc_op_incw, spc_with_adr spc_adrDpx spc_rol,
     spc_op_rola, spc_op_incx,
     spc_with_adr spc_adrDp spc_cmpx, spc_op_call]"

definition spc_doOpcode_4x :: "unit spcM list" where
  "spc_doOpcode_4x =
    [spc_op_setp, spc_op_tcall 4,
     spc_op_set1 2, spc_op_bbs 2,
     spc_with_adr spc_adrDp spc_eor, spc_with_adr spc_adrAbs spc_eor,
     spc_with_adr spc_adrInd spc_eor, spc_with_adr spc_adrIdx spc_eor,
     spc_with_adr spc_adrImm spc_eor, spc_with_dst spc_adrDpDp spc_eorm,
     spc_op_and1, spc_with_adr spc_adrDp spc_lsr,
     spc_with_adr spc_adrAbs spc_lsr, spc_op_pushx,
     spc_op_tclr1, spc_op_pcall]"

definition spc_doOpcode_5x :: "unit spcM list" where
  "spc_doOpcode_5x =
    [spc_op_branch (\<lambda>spc. \<not> spc_v spc), spc_op_tcall 5,
     spc_op_clr1 2, spc_op_bbc 2,
     spc_with_adr spc_adrDpx spc_eor, spc_with_adr spc_adrAbx spc_eor,
     spc_with_adr spc_adrAby spc_eor, spc_with_adr spc_adrIdy spc_eor,
     spc_with_dst spc_adrDpImm spc_eorm, spc_with_dst spc_adrIndInd spc_eorm,
     spc_op_cmpw, spc_with_adr spc_adrDpx spc_lsr,
     spc_op_lsra, spc_op_movxa,
     spc_with_adr spc_adrAbs spc_cmpy, spc_op_jmp_abs]"

definition spc_doOpcode_6x :: "unit spcM list" where
  "spc_doOpcode_6x =
    [spc_op_clrc, spc_op_tcall 6,
     spc_op_set1 3, spc_op_bbs 3,
     spc_with_adr spc_adrDp spc_cmp, spc_with_adr spc_adrAbs spc_cmp,
     spc_with_adr spc_adrInd spc_cmp, spc_with_adr spc_adrIdx spc_cmp,
     spc_with_adr spc_adrImm spc_cmp, spc_with_dst spc_adrDpDp spc_cmpm,
     spc_op_and1n, spc_with_adr spc_adrDp spc_ror,
     spc_with_adr spc_adrAbs spc_ror, spc_op_pushy,
     spc_op_dbnz, spc_op_ret]"

definition spc_doOpcode_7x :: "unit spcM list" where
  "spc_doOpcode_7x =
    [spc_op_branch (\<lambda>spc. spc_v spc), spc_op_tcall 7,
     spc_op_clr1 3, spc_op_bbc 3,
     spc_with_adr spc_adrDpx spc_cmp, spc_with_adr spc_adrAbx spc_cmp,
     spc_with_adr spc_adrAby spc_cmp, spc_with_adr spc_adrIdy spc_cmp,
     spc_with_dst spc_adrDpImm spc_cmpm, spc_with_dst spc_adrIndInd spc_cmpm,
     spc_op_addw, spc_with_adr spc_adrDpx spc_ror,
     spc_op_rora, spc_op_movax,
     spc_with_adr spc_adrDp spc_cmpy, spc_op_reti]"

definition spc_doOpcode_8x :: "unit spcM list" where
  "spc_doOpcode_8x =
    [spc_op_setc, spc_op_tcall 8,
     spc_op_set1 4, spc_op_bbs 4,
     spc_with_adr spc_adrDp spc_adc, spc_with_adr spc_adrAbs spc_adc,
     spc_with_adr spc_adrInd spc_adc, spc_with_adr spc_adrIdx spc_adc,
     spc_with_adr spc_adrImm spc_adc, spc_with_dst spc_adrDpDp spc_adcm,
     spc_op_eor1, spc_with_adr spc_adrDp spc_dec,
     spc_with_adr spc_adrAbs spc_dec, spc_with_adr spc_adrImm spc_movy,
     spc_op_popp, spc_op_movm_imm]"

definition spc_doOpcode_9x :: "unit spcM list" where
  "spc_doOpcode_9x =
    [spc_op_branch (\<lambda>spc. \<not> spc_c spc), spc_op_tcall 9,
     spc_op_clr1 4, spc_op_bbc 4,
     spc_with_adr spc_adrDpx spc_adc, spc_with_adr spc_adrAbx spc_adc,
     spc_with_adr spc_adrAby spc_adc, spc_with_adr spc_adrIdy spc_adc,
     spc_with_dst spc_adrDpImm spc_adcm, spc_with_dst spc_adrIndInd spc_adcm,
     spc_op_subw, spc_with_adr spc_adrDpx spc_dec,
     spc_op_deca, spc_op_movxp,
     spc_op_div, spc_op_xcn]"

definition spc_doOpcode_ax :: "unit spcM list" where
  "spc_doOpcode_ax =
    [spc_op_ei, spc_op_tcall 10,
     spc_op_set1 5, spc_op_bbs 5,
     spc_with_adr spc_adrDp spc_sbc, spc_with_adr spc_adrAbs spc_sbc,
     spc_with_adr spc_adrInd spc_sbc, spc_with_adr spc_adrIdx spc_sbc,
     spc_with_adr spc_adrImm spc_sbc, spc_with_dst spc_adrDpDp spc_sbcm,
     spc_op_mov1, spc_with_adr spc_adrDp spc_inc,
     spc_with_adr spc_adrAbs spc_inc, spc_with_adr spc_adrImm spc_cmpy,
     spc_op_popa, spc_op_movs_indp]"

definition spc_doOpcode_bx :: "unit spcM list" where
  "spc_doOpcode_bx =
    [spc_op_branch (\<lambda>spc. spc_c spc), spc_op_tcall 11,
     spc_op_clr1 5, spc_op_bbc 5,
     spc_with_adr spc_adrDpx spc_sbc, spc_with_adr spc_adrAbx spc_sbc,
     spc_with_adr spc_adrAby spc_sbc, spc_with_adr spc_adrIdy spc_sbc,
     spc_with_dst spc_adrDpImm spc_sbcm, spc_with_dst spc_adrIndInd spc_sbcm,
     spc_op_movw, spc_with_adr spc_adrDpx spc_inc,
     spc_op_inca, spc_op_movpx,
     spc_op_das, spc_op_mov_indp]"

definition spc_doOpcode_cx :: "unit spcM list" where
  "spc_doOpcode_cx =
    [spc_op_di, spc_op_tcall 12,
     spc_op_set1 6, spc_op_bbs 6,
     spc_with_adr spc_adrDp spc_movs, spc_with_adr spc_adrAbs spc_movs,
     spc_with_adr spc_adrInd spc_movs, spc_with_adr spc_adrIdx spc_movs,
     spc_with_adr spc_adrImm spc_cmpx, spc_with_adr spc_adrAbs spc_movsx,
     spc_op_mov1s, spc_with_adr spc_adrDp spc_movsy,
     spc_with_adr spc_adrAbs spc_movsy, spc_with_adr spc_adrImm spc_movx,
     spc_op_popx, spc_op_mul]"

definition spc_doOpcode_dx :: "unit spcM list" where
  "spc_doOpcode_dx =
    [spc_op_branch (\<lambda>spc. \<not> spc_z spc), spc_op_tcall 13,
     spc_op_clr1 6, spc_op_bbc 6,
     spc_with_adr spc_adrDpx spc_movs, spc_with_adr spc_adrAbx spc_movs,
     spc_with_adr spc_adrAby spc_movs, spc_with_adr spc_adrIdy spc_movs,
     spc_with_adr spc_adrDp spc_movsx, spc_with_adr spc_adrDpy spc_movsx,
     spc_op_movws, spc_with_adr spc_adrDpx spc_movsy,
     spc_op_decy, spc_op_movay,
     spc_op_cbne_dpx, spc_op_daa]"

definition spc_doOpcode_ex :: "unit spcM list" where
  "spc_doOpcode_ex =
    [spc_op_clrv, spc_op_tcall 14,
     spc_op_set1 7, spc_op_bbs 7,
     spc_with_adr spc_adrDp spc_mov, spc_with_adr spc_adrAbs spc_mov,
     spc_with_adr spc_adrInd spc_mov, spc_with_adr spc_adrIdx spc_mov,
     spc_with_adr spc_adrImm spc_mov, spc_with_adr spc_adrAbs spc_movx,
     spc_op_not1, spc_with_adr spc_adrDp spc_movy,
     spc_with_adr spc_adrAbs spc_movy, spc_op_notc,
     spc_op_popy, spc_op_sleep]"

definition spc_doOpcode_fx :: "unit spcM list" where
  "spc_doOpcode_fx =
    [spc_op_branch (\<lambda>spc. spc_z spc), spc_op_tcall 15,
     spc_op_clr1 7, spc_op_bbc 7,
     spc_with_adr spc_adrDpx spc_mov, spc_with_adr spc_adrAbx spc_mov,
     spc_with_adr spc_adrAby spc_mov, spc_with_adr spc_adrIdy spc_mov,
     spc_with_adr spc_adrDp spc_movx, spc_with_adr spc_adrDpy spc_movx,
     spc_op_movm_dp, spc_with_adr spc_adrDpx spc_movy,
     spc_op_incy, spc_op_movya,
     spc_op_dbnzy, spc_op_stop]"

definition spc_opcode_table :: "unit spcM list" where
  "spc_opcode_table =
    spc_doOpcode_0x @ spc_doOpcode_1x @ spc_doOpcode_2x @ spc_doOpcode_3x @
    spc_doOpcode_4x @ spc_doOpcode_5x @ spc_doOpcode_6x @ spc_doOpcode_7x @
    spc_doOpcode_8x @ spc_doOpcode_9x @ spc_doOpcode_ax @ spc_doOpcode_bx @
    spc_doOpcode_cx @ spc_doOpcode_dx @ spc_doOpcode_ex @ spc_doOpcode_fx"

definition spc_doOpcode :: "u8 \<Rightarrow> unit spcM" where
  "spc_doOpcode opcode = spc_opcode_table ! unat opcode"

definition spc_cyclesPerOpcode :: "u8 list" where
  "spc_cyclesPerOpcode =
    [2, 8, 4, 5, 3, 4, 3, 6, 2, 6, 5, 4, 5, 4, 6, 8,
     2, 8, 4, 5, 4, 5, 5, 6, 5, 5, 6, 5, 2, 2, 4, 6,
     2, 8, 4, 5, 3, 4, 3, 6, 2, 6, 5, 4, 5, 4, 5, 4,
     2, 8, 4, 5, 4, 5, 5, 6, 5, 5, 6, 5, 2, 2, 3, 8,
     2, 8, 4, 5, 3, 4, 3, 6, 2, 6, 4, 4, 5, 4, 6, 6,
     2, 8, 4, 5, 4, 5, 5, 6, 5, 5, 4, 5, 2, 2, 4, 3,
     2, 8, 4, 5, 3, 4, 3, 6, 2, 6, 4, 4, 5, 4, 5, 5,
     2, 8, 4, 5, 4, 5, 5, 6, 5, 5, 5, 5, 2, 2, 3, 6,
     2, 8, 4, 5, 3, 4, 3, 6, 2, 6, 5, 4, 5, 2, 4, 5,
     2, 8, 4, 5, 4, 5, 5, 6, 5, 5, 5, 5, 2, 2, 12, 5,
     2, 8, 4, 5, 3, 4, 3, 6, 2, 6, 4, 4, 5, 2, 4, 4,
     2, 8, 4, 5, 4, 5, 5, 6, 5, 5, 5, 5, 2, 2, 3, 4,
     2, 8, 4, 5, 4, 5, 4, 7, 2, 5, 6, 4, 5, 2, 4, 9,
     2, 8, 4, 5, 5, 6, 6, 7, 4, 5, 5, 5, 2, 2, 6, 3,
     2, 8, 4, 5, 3, 4, 3, 6, 2, 4, 5, 3, 4, 3, 4, 3,
     2, 8, 4, 5, 4, 5, 5, 6, 3, 4, 5, 4, 2, 2, 4, 3]"

definition spc_runOpcode :: "u8 spcM" where
  "spc_runOpcode = do {
     modify (\<lambda>spc. spc\<lparr>spc_cyclesUsed := 0\<rparr>);
     stopped \<leftarrow> gets spc_stopped;
     (if stopped then State_Monad.return 1
      else do {
        opcode \<leftarrow> spc_readOpcode;
        modify (\<lambda>spc. spc\<lparr>spc_cyclesUsed := spc_cyclesPerOpcode ! unat opcode\<rparr>);
        spc_doOpcode opcode;
        gets spc_cyclesUsed
      })
   }"

section \<open>The table\<close>

lemmas spc_doOpcode_rows = spc_doOpcode_0x_def spc_doOpcode_1x_def spc_doOpcode_2x_def spc_doOpcode_3x_def spc_doOpcode_4x_def spc_doOpcode_5x_def spc_doOpcode_6x_def spc_doOpcode_7x_def spc_doOpcode_8x_def spc_doOpcode_9x_def spc_doOpcode_ax_def spc_doOpcode_bx_def spc_doOpcode_cx_def spc_doOpcode_dx_def spc_doOpcode_ex_def spc_doOpcode_fx_def

lemma length_spc_opcode_table [simp]: "length spc_opcode_table = 256"
  by (simp add: spc_opcode_table_def spc_doOpcode_rows)

lemma length_spc_cyclesPerOpcode [simp]: "length spc_cyclesPerOpcode = 256"
  by (simp add: spc_cyclesPerOpcode_def)

lemma spc_doOpcode_in_table: "spc_doOpcode opcode \<in> set spc_opcode_table"
  unfolding spc_doOpcode_def by (rule nth_mem) simp

end
