(* ===== verification/Spc_Frame.thy ===== *)
theory Spc_Frame
  imports Spc_Opcodes
begin

text \<open>
  What every opcode of the audio processor has in common: it reaches the audio unit only through
  the two bus functions, and it changes its cycle count only by the two extra cycles of a taken
  branch, at its very end. The locale \<open>spc_frame\<close> states this once, for any pair of predicates
  that respects it; its interpretations are the cycle bounds below and the invariants of the
  audio unit in theory \<open>Apu\<close>.
\<close>

text \<open>A state change that concerns neither the audio unit nor the cycle count.\<close>

definition quiet :: "(spc \<Rightarrow> spc) \<Rightarrow> bool" where
  "quiet f \<longleftrightarrow> (\<forall>spc. spc_apu (f spc) = spc_apu spc \<and> spc_cyclesUsed (f spc) = spc_cyclesUsed spc)"

lemma quietI: "(\<And>spc. spc_apu (f spc) = spc_apu spc \<and> spc_cyclesUsed (f spc) = spc_cyclesUsed spc) \<Longrightarrow> quiet f"
  by (simp add: quiet_def)

lemma setZN_quiet [simp]:
  "spc_apu (spc_setZN v spc) = spc_apu spc" "spc_cyclesUsed (spc_setZN v spc) = spc_cyclesUsed spc"
  "spc_apu (spc_setFlags w spc) = spc_apu spc" "spc_cyclesUsed (spc_setFlags w spc) = spc_cyclesUsed spc"
  by (simp_all add: spc_setZN_def spc_setFlags_def)

locale spc_frame =
  fixes I D :: "spc \<Rightarrow> bool"
  assumes I_read: "I spc \<Longrightarrow> I (spc\<lparr>spc_apu := snd (apu_cpuRead (spc_apu spc) adr)\<rparr>)"
    and I_write: "I spc \<Longrightarrow> I (spc\<lparr>spc_apu := apu_cpuWrite (spc_apu spc) adr val\<rparr>)"
    and I_quiet: "I spc \<Longrightarrow> spc_apu spc' = spc_apu spc \<Longrightarrow> spc_cyclesUsed spc' = spc_cyclesUsed spc \<Longrightarrow> I spc'"
    and I_done: "I spc \<Longrightarrow> D spc"
    and I_branch: "I spc \<Longrightarrow> D (spc\<lparr>spc_cyclesUsed := spc_cyclesUsed spc + 2, spc_pc := pc\<rparr>)"
begin

lemma read_ok: "keeps I (spc_read adr)"
  by (rule tripleI) (simp add: run_simps I_read)

lemma write_ok: "keeps I (spc_write adr val)"
  by (rule tripleI) (simp add: run_simps I_write)

lemma quiet_ok: "quiet f \<Longrightarrow> keeps I (modify f)"
  by (rule tripleI) (simp add: quiet_def I_quiet)

lemma get_ok: "keeps I State_Monad.get"
  by (simp add: triple_def)

lemmas basic_ok = keeps_rules read_ok write_ok get_ok

lemma fetch_ok: "keeps I spc_readOpcode" "keeps I spc_adrImm" "keeps I spc_adrIndP"
  unfolding spc_readOpcode_def spc_adrImm_def spc_adrIndP_def
  by (intro basic_ok quiet_ok quietI; simp)+

lemma word_ok: "keeps I spc_readOpcodeWord" "keeps I (spc_readWord l h)" "keeps I (spc_writeWord l h v)"
  unfolding spc_readOpcodeWord_def spc_readWord_def spc_writeWord_def by (intro basic_ok fetch_ok)+

lemma stack_ok: "keeps I spc_pullByte" "keeps I (spc_pushByte v)"
  unfolding spc_pullByte_def spc_pushByte_def by (intro basic_ok quiet_ok quietI; simp)+

lemma stack_word_ok: "keeps I spc_pullWord" "keeps I (spc_pushWord w)"
  unfolding spc_pullWord_def spc_pushWord_def by (intro basic_ok stack_ok)+

lemma mode_ok:
  "keeps I spc_adrDp" "keeps I spc_adrAbs" "keeps I spc_adrInd" "keeps I spc_adrIdx" "keeps I spc_adrDpx"
  "keeps I spc_adrDpy" "keeps I spc_adrAbx" "keeps I spc_adrAby" "keeps I spc_adrIdy"
  "keeps I spc_adrIndInd" "keeps I spc_adrAbsBit" "keeps I spc_adrDpWord"
  unfolding spc_adrDp_def spc_adrAbs_def spc_adrInd_def spc_adrIdx_def spc_adrDpx_def spc_adrDpy_def
    spc_adrAbx_def spc_adrAby_def spc_adrIdy_def spc_adrIndInd_def spc_adrAbsBit_def spc_adrDpWord_def
  by (intro basic_ok fetch_ok word_ok)+

lemma mode2_ok: "keeps I spc_adrDpDp" "keeps I spc_adrDpImm"
  unfolding spc_adrDpDp_def spc_adrDpImm_def by (intro basic_ok mode_ok fetch_ok)+

lemma operation_ok:
  "keeps I (spc_logic f adr)" "keeps I (spc_logicm f dst src)" "keeps I (spc_adc_value v)"
  "keeps I (spc_adcm_value dst v)" "keeps I (spc_compare reg m)" "keeps I (spc_mov adr)" "keeps I (spc_movx adr)"
  "keeps I (spc_movy adr)" "keeps I (spc_store r adr)" "keeps I (spc_rmw g adr)"
  unfolding spc_logic_def spc_logicm_def spc_adc_value_def spc_adcm_value_def spc_compare_def spc_mov_def
    spc_movx_def spc_movy_def spc_store_def spc_rmw_def
  by (intro basic_ok quiet_ok quietI; simp split: prod.split)+

lemma operation2_ok: "keeps I (spc_adc adr)" "keeps I (spc_adcm dst src)" "keeps I (spc_sbc adr)" "keeps I (spc_sbcm dst src)"
  "keeps I (spc_cmp adr)" "keeps I (spc_cmpx adr)" "keeps I (spc_cmpy adr)" "keeps I (spc_cmpm dst src)"
  unfolding spc_adc_def spc_adcm_def spc_sbc_def spc_sbcm_def spc_cmp_def spc_cmpx_def spc_cmpy_def spc_cmpm_def
  by (intro basic_ok operation_ok)+

lemmas named_ops = spc_and_def spc_or_def spc_eor_def spc_andm_def spc_orm_def spc_eorm_def spc_movs_def
  spc_movsx_def spc_movsy_def spc_asl_def spc_lsr_def spc_rol_def spc_ror_def spc_inc_def spc_dec_def

lemmas all_ok = basic_ok fetch_ok word_ok stack_ok stack_word_ok mode_ok mode2_ok operation_ok operation2_ok

lemma with_ok: "keeps I mode \<Longrightarrow> (\<And>a. keeps I (operation a)) \<Longrightarrow> keeps I (spc_with_adr mode operation)"
  "keeps I mode2 \<Longrightarrow> (\<And>d s. keeps I (operation2 d s)) \<Longrightarrow> keeps I (spc_with_dst mode2 operation2)"
  unfolding spc_with_adr_def spc_with_dst_def by (intro basic_ok; simp)+

lemma helper_ok: "keeps I (spc_bit_to_c f)" "keeps I (spc_stepw g)" "keeps I (spc_shift_a s)"
  "keeps I (spc_set_a r)" "keeps I (spc_set_x r)" "keeps I (spc_set_y r)"
  unfolding spc_bit_to_c_def spc_stepw_def spc_shift_a_def spc_set_a_def spc_set_x_def spc_set_y_def
  by (intro all_ok quiet_ok quietI; simp split: prod.split)+

lemma bit_op_ok:
  "keeps I (spc_op_tcall n)" "keeps I (spc_op_set1 k)" "keeps I (spc_op_clr1 k)" "keeps I spc_op_mov1s"
  "keeps I spc_op_not1" "keeps I spc_op_tset1" "keeps I spc_op_tclr1"
  unfolding spc_op_tcall_def spc_op_set1_def spc_op_clr1_def spc_op_mov1s_def spc_op_not1_def
    spc_op_tset1_def spc_op_tclr1_def
  by (intro all_ok quiet_ok quietI; simp)+

lemma stack_op_ok:
  "keeps I spc_op_pushp" "keeps I spc_op_pusha" "keeps I spc_op_pushx" "keeps I spc_op_pushy" "keeps I spc_op_popp"
  "keeps I spc_op_popa" "keeps I spc_op_popx" "keeps I spc_op_popy" "keeps I spc_op_brk" "keeps I spc_op_call"
  "keeps I spc_op_pcall" "keeps I spc_op_ret" "keeps I spc_op_reti" "keeps I spc_op_jmp_abs" "keeps I spc_op_jmp_iax"
  "keeps I spc_op_bra"
  unfolding spc_op_pushp_def spc_op_pusha_def spc_op_pushx_def spc_op_pushy_def spc_op_popp_def spc_op_popa_def
    spc_op_popx_def spc_op_popy_def spc_op_brk_def spc_op_call_def spc_op_pcall_def spc_op_ret_def spc_op_reti_def
    spc_op_jmp_abs_def spc_op_jmp_iax_def spc_op_bra_def
  by (intro all_ok quiet_ok quietI; simp)+

lemma wide_op_ok:
  "keeps I spc_op_cmpw" "keeps I spc_op_addw" "keeps I spc_op_subw" "keeps I spc_op_movw" "keeps I spc_op_movws"
  "keeps I spc_op_mul" "keeps I spc_op_div" "keeps I spc_op_daa" "keeps I spc_op_das" "keeps I spc_op_movpx"
  "keeps I spc_op_movm_imm" "keeps I spc_op_movm_dp" "keeps I spc_op_movs_indp" "keeps I spc_op_mov_indp"
  unfolding spc_op_cmpw_def spc_op_addw_def spc_op_subw_def spc_op_movw_def spc_op_movws_def spc_op_mul_def
    spc_op_div_def spc_op_daa_def spc_op_das_def spc_op_movpx_def spc_op_movm_imm_def spc_op_movm_dp_def
    spc_op_movs_indp_def spc_op_mov_indp_def
  by (intro all_ok quiet_ok quietI; simp add: Let_def spc_sumw_def split: prod.split)+

lemma flag_op_ok:
  "keeps I spc_op_nop" "keeps I spc_op_clrp" "keeps I spc_op_setp" "keeps I spc_op_clrc" "keeps I spc_op_setc"
  "keeps I spc_op_notc" "keeps I spc_op_ei" "keeps I spc_op_di" "keeps I spc_op_clrv" "keeps I spc_op_sleep"
  "keeps I spc_op_stop"
  unfolding spc_op_nop_def spc_op_clrp_def spc_op_setp_def spc_op_clrc_def spc_op_setc_def spc_op_notc_def
    spc_op_ei_def spc_op_di_def spc_op_clrv_def spc_op_sleep_def spc_op_stop_def
  by (intro all_ok quiet_ok quietI; simp)+

lemmas simple_op_defs = spc_op_or1_def spc_op_or1n_def spc_op_and1_def spc_op_and1n_def spc_op_eor1_def spc_op_mov1_def
  spc_op_decw_def spc_op_incw_def spc_op_asla_def spc_op_rola_def spc_op_lsra_def spc_op_rora_def spc_op_decx_def
  spc_op_incx_def spc_op_decy_def spc_op_incy_def spc_op_deca_def spc_op_inca_def spc_op_movxa_def spc_op_movax_def
  spc_op_movxp_def spc_op_movay_def spc_op_movya_def spc_op_xcn_def spc_op_cbne_dp_def spc_op_cbne_dpx_def

text \<open>Branches: the invariant holds up to the branch itself, which ends the opcode.\<close>

lemma branch_done: "triple I (spc_doBranch rel b) (\<lambda>_. D)"
  unfolding spc_doBranch_def by (simp add: triple_def I_done I_branch)

lemma branch_after: "keeps I m \<Longrightarrow> (\<And>v. triple I (f v) (\<lambda>_. D)) \<Longrightarrow> triple I (State_Monad.bind m f) (\<lambda>_. D)"
  by (rule triple_bind)

lemma branch_op_done:
  "triple I (spc_op_branch check) (\<lambda>_. D)" "triple I (spc_op_bbs k) (\<lambda>_. D)" "triple I (spc_op_bbc k) (\<lambda>_. D)"
  "keeps I mode \<Longrightarrow> triple I (spc_cbne mode) (\<lambda>_. D)" "triple I spc_op_dbnz (\<lambda>_. D)" "triple I spc_op_dbnzy (\<lambda>_. D)"
  unfolding spc_op_branch_def spc_op_bbs_def spc_op_bbc_def spc_cbne_def spc_op_dbnz_def spc_op_dbnzy_def
  by (intro branch_done branch_after all_ok quiet_ok quietI; simp)+

lemma keeps_done: "keeps I m \<Longrightarrow> triple I m (\<lambda>_. D)"
  by (erule triple_weaken) (auto simp: I_done)

lemma table_done: "\<forall>m \<in> set spc_opcode_table. triple I m (\<lambda>_. D)"
  unfolding spc_opcode_table_def set_append ball_Un spc_doOpcode_rows simple_op_defs named_ops
  by (simp add: branch_op_done keeps_done with_ok all_ok helper_ok bit_op_ok stack_op_ok wide_op_ok flag_op_ok)

theorem doOpcode_done: "triple I (spc_doOpcode opcode) (\<lambda>_. D)"
  using table_done spc_doOpcode_in_table by blast

end

end
