(* ===== verification/Dsp_Invariants.thy ===== *)
theory Dsp_Invariants
  imports Dsp
begin

text \<open>
  The well-formedness of the sound processor's state: array lengths, the ranges of the values
  used as indices, and the ranges of the sample values. Every operation keeps it, so every array
  access of \<open>dsp.c\<close> stays in bounds and every stored sample fits its C type.
\<close>

section \<open>Ranges\<close>

definition in16 :: "int \<Rightarrow> bool" where "in16 x \<longleftrightarrow> - 0x8000 \<le> x \<and> x \<le> 0x7fff"

definition in15 :: "int \<Rightarrow> bool" where "in15 x \<longleftrightarrow> - 0x4000 \<le> x \<and> x \<le> 0x3fff"

definition in8 :: "int \<Rightarrow> bool" where "in8 x \<longleftrightarrow> - 0x80 \<le> x \<and> x \<le> 0x7f"

lemma in8_i8 [simp]: "in8 (i8 x)"
proof -
  have "- (2 ^ 7) \<le> signed_take_bit 7 x" "signed_take_bit 7 x < 2 ^ 7"
    by (rule signed_take_bit_int_greater_eq_minus_exp, rule signed_take_bit_int_less_exp)
  then show ?thesis by (simp add: in8_def i8_def)
qed

lemma in8_sint [simp]: "in8 (sint (w :: u8))"
  using sint_range_size [of w] by (simp add: in8_def word_size)

lemma in16_i16 [simp]: "in16 (i16 x)"
proof -
  have "- (2 ^ 15) \<le> signed_take_bit 15 x" "signed_take_bit 15 x < 2 ^ 15"
    by (rule signed_take_bit_int_greater_eq_minus_exp, rule signed_take_bit_int_less_exp)
  then show ?thesis by (simp add: in16_def i16_def)
qed

lemma in16_clamp16 [simp]: "in16 (clamp16 x)"
  by (simp add: in16_def clamp16_def)

lemma in15_half: "in16 x \<Longrightarrow> in15 (drop_bit 1 x)"
  by (auto simp: in16_def in15_def drop_bit_eq_div)

lemma in15_half_i16 [simp]: "in15 (drop_bit (Suc 0) (i16 x))"
  using in15_half [OF in16_i16] by simp

lemma in15_in16: "in15 x \<Longrightarrow> in16 x"
  by (auto simp: in16_def in15_def)

lemma in15_0 [simp]: "in15 0" "in16 0" "in15 (- 0x4000)" "in8 0"
  by (simp_all add: in15_def in16_def in8_def)

lemma i16_id: "in16 x \<Longrightarrow> i16 x = x"
  unfolding i16_def in16_def by (rule signed_take_bit_int_eq_self) auto

section \<open>Well-formedness\<close>

definition ch_wf :: "dsp_channel \<Rightarrow> bool" where
  "ch_wf c \<longleftrightarrow> length (ch_decodeBuffer c) = 19 \<and> list_all in15 (ch_decodeBuffer c)
     \<and> length (ch_adsrRates c) = 4 \<and> ch_adsrState c \<le> 4
     \<and> ch_gain c \<le> 0x7ff \<and> ch_gainValue c \<le> 0x7f0 \<and> in16 (ch_sampleOut c)
     \<and> in15 (ch_old c) \<and> in15 (ch_older c) \<and> in8 (ch_volumeL c) \<and> in8 (ch_volumeR c)"

definition dsp_wf :: "dsp \<Rightarrow> bool" where
  "dsp_wf dsp \<longleftrightarrow> length (dsp_ram dsp) = 0x80
     \<and> length (dsp_channels dsp) = 8 \<and> list_all ch_wf (dsp_channels dsp)
     \<and> length (dsp_firValues dsp) = 8 \<and> length (dsp_firBufferL dsp) = 8 \<and> length (dsp_firBufferR dsp) = 8
     \<and> dsp_firBufferIndex dsp < 8 \<and> dsp_echoDelay dsp \<ge> 1 \<and> dsp_echoRemain dsp \<ge> 1
     \<and> in15 (dsp_noiseSample dsp) \<and> in8 (dsp_masterVolumeL dsp) \<and> in8 (dsp_masterVolumeR dsp)
     \<and> in8 (dsp_echoVolumeL dsp) \<and> in8 (dsp_echoVolumeR dsp) \<and> in8 (dsp_feedbackVolume dsp)
     \<and> list_all in8 (dsp_firValues dsp) \<and> list_all in15 (dsp_firBufferL dsp) \<and> list_all in15 (dsp_firBufferR dsp)
     \<and> length (dsp_sampleBuffer dsp) = 2 * DSP_SAMPLE_RING \<and> list_all in16 (dsp_sampleBuffer dsp)
     \<and> unat (dsp_sampleWrite dsp - dsp_sampleRead dsp) \<le> DSP_SAMPLE_RING"

lemma list_all_update: "list_all P xs \<Longrightarrow> P x \<Longrightarrow> list_all P (xs[i := x])"
  by (auto simp: list_all_iff dest: set_update_subset_insert [THEN subsetD])

lemma list_all_nth: "list_all P xs \<Longrightarrow> i < length xs \<Longrightarrow> P (xs ! i)"
  by (simp add: list_all_length)

lemma list_all_replicate: "P x \<Longrightarrow> list_all P (replicate n x)"
  by (simp add: list_all_iff)

lemma channel_wf: "dsp_wf dsp \<Longrightarrow> i < 8 \<Longrightarrow> ch_wf (dsp_channels dsp ! i)"
  by (auto simp: dsp_wf_def intro: list_all_nth)

lemma upd_channel_wf:
  "dsp_wf dsp \<Longrightarrow> i < 8 \<Longrightarrow> (\<And>c. ch_wf c \<Longrightarrow> ch_wf (f c)) \<Longrightarrow> dsp_wf (upd_channel i f dsp)"
  by (simp add: dsp_wf_def upd_channel_def list_all_update list_all_nth)

lemma each_channel_wf:
  "dsp_wf dsp \<Longrightarrow> (\<And>i c. ch_wf c \<Longrightarrow> ch_wf (f i c)) \<Longrightarrow> dsp_wf (each_channel f dsp)"
  by (auto simp: dsp_wf_def each_channel_def list_all_length)

lemma nth_upd_channel:
  "dsp_wf dsp \<Longrightarrow> i < 8 \<Longrightarrow> dsp_channels (upd_channel i f dsp) ! i = f (dsp_channels dsp ! i)"
  by (simp add: upd_channel_def dsp_wf_def)

lemma ram_wf: "dsp_wf dsp \<Longrightarrow> dsp_wf (dsp\<lparr>dsp_ram := (dsp_ram dsp)[i := v]\<rparr>)"
  by (simp add: dsp_wf_def)

lemma channel_reset_wf: "ch_wf channel_reset"
  by (simp add: ch_wf_def channel_reset_def list_all_replicate)

lemma dsp_reset_wf: "dsp_wf dsp_reset"
  unfolding dsp_wf_def dsp_reset_def
  by (simp add: list_all_replicate channel_reset_wf DSP_SAMPLE_RING_def)

section \<open>The envelope\<close>

lemma exp_decrease_bound: "g \<le> 0x7ff \<Longrightarrow> exp_decrease g \<le> 0x7ff"
proof -
  assume g: "g \<le> 0x7ff"
  have u: "0 \<le> uint g" "uint g \<le> 0x7ff" using g by (simp_all add: word_le_def)
  let ?r = "uint g - (drop_bit 8 (uint g - 1) + 1)"
  have "0 \<le> ?r \<and> ?r \<le> uint g"
  proof (cases "uint g = 0")
    case False
    with u(1) have p: "0 \<le> uint g - 1" by linarith
    have "0 \<le> (uint g - 1) div 256" "(uint g - 1) div 256 \<le> uint g - 1"
      using p zdiv_mono2[of "uint g - 1" 1 256] by (simp_all add: pos_imp_zdiv_nonneg_iff)
    then show ?thesis by (simp add: drop_bit_eq_div)
  qed (simp add: drop_bit_eq_div)
  then have "uint (exp_decrease g) \<le> 0x7ff"
    using u by (simp add: exp_decrease_def uint_word_of_int del: of_int_diff of_int_add)
  then show ?thesis by (simp add: word_le_def)
qed

lemma handleGain_wf: "ch_wf c \<Longrightarrow> ch_wf (dsp_handleGain c)"
  by (auto simp: ch_wf_def dsp_handleGain_def Let_def exp_decrease_bound not_less)

lemma envelope_wf: "ch_wf c \<Longrightarrow> ch_wf (channel_envelope c)"
proof -
  assume c: "ch_wf c"
  have r: "ch_wf (c\<lparr>ch_rateCounter := n\<rparr>)" for n using c by (simp add: ch_wf_def)
  have g: "ch_wf (d\<lparr>ch_gain := ch_gainValue d\<rparr>)" if "ch_wf d" for d
    using that by (auto simp: ch_wf_def intro: order_trans)
  show ?thesis
    unfolding channel_envelope_def Let_def
    using c r handleGain_wf g by simp
qed

lemma keys_wf: "ch_wf c \<Longrightarrow> ch_wf (channel_keys ram dir c)"
  by (auto simp: ch_wf_def channel_keys_def Let_def list_all_replicate)

section \<open>Decoding\<close>

lemma brr_decode_in15: "in15 (brr_decode shift filt s old older)"
  unfolding brr_decode_def Let_def by (rule in15_half) simp

lemma brr_loop:
  assumes "length buf = 19" "list_all in15 buf" "in15 old" "in15 older"
  shows "case fold (brr_step ram shift filt) is (off, cur, old, older, buf) of
    (off', cur', old', older', buf') \<Rightarrow> length buf' = 19 \<and> list_all in15 buf' \<and> in15 old' \<and> in15 older'"
  using assms
proof (induction "is" arbitrary: off cur old older buf)
  case (Cons i "is")
  obtain off1 cur1 s1 where "brr_step ram shift filt i (off, cur, old, older, buf) = (off1, cur1, s1, old, buf[i + 3 := s1])"
    "in15 s1"
    by (cases "odd i") (auto simp: brr_decode_in15 Let_def)
  with Cons.prems Cons.IH[of "buf[i + 3 := s1]" s1 old off1 cur1] show ?case
    by (simp add: list_all_update)
qed simp

lemma brr_block_wf: "ch_wf c \<Longrightarrow> ch_wf (brr_block ram c)"
proof -
  assume c: "ch_wf c"
  let ?h = "ram (ch_decodeOffset c)"
  obtain off cur old older buf where l:
    "brr_samples ram (unat (drop_bit 4 ?h)) (unat (drop_bit 2 (?h AND 0xc)))
      (ch_decodeOffset c + 1, 0, ch_old c, ch_older c, ch_decodeBuffer c) = (off, cur, old, older, buf)"
    using prod_cases5 .
  have "length (ch_decodeBuffer c) = 19" "list_all in15 (ch_decodeBuffer c)" "in15 (ch_old c)" "in15 (ch_older c)"
    using c by (simp_all add: ch_wf_def)
  from brr_loop [OF this] have "case brr_samples ram sh f (o1, cu, ch_old c, ch_older c, ch_decodeBuffer c) of
      (off', cur', old', older', buf') \<Rightarrow> length buf' = 19 \<and> list_all in15 buf' \<and> in15 old' \<and> in15 older'" for sh f o1 cu
    unfolding brr_samples_def .
  from this[of "unat (drop_bit 4 ?h)" "unat (drop_bit 2 (?h AND 0xc))" "ch_decodeOffset c + 1" 0]
  have "length buf = 19 \<and> list_all in15 buf \<and> in15 old \<and> in15 older"
    unfolding l by simp
  with c l show ?thesis
    by (simp add: brr_block_def Let_def ch_wf_def)
qed

lemma brr_end_wf: "dsp_wf dsp \<Longrightarrow> ch < 8 \<Longrightarrow> dsp_wf (brr_end ram ch dsp)"
  unfolding brr_end_def Let_def
  by (auto intro!: ram_wf upd_channel_wf) (auto simp: ch_wf_def)

lemma decodeBrr_wf: "dsp_wf dsp \<Longrightarrow> ch < 8 \<Longrightarrow> dsp_wf (dsp_decodeBrr ram ch dsp)"
  unfolding dsp_decodeBrr_def
  by (intro upd_channel_wf brr_end_wf brr_block_wf)
    (simp_all add: brr_carry_over_def ch_wf_def list_all_update list_all_nth)

section \<open>One sample\<close>

lemma advance_wf: "dsp_wf dsp \<Longrightarrow> ch < 8 \<Longrightarrow> dsp_wf (channel_advance ram ch dsp)"
  unfolding channel_advance_def Let_def
  by (intro upd_channel_wf) (simp_all add: decodeBrr_wf ch_wf_def)

lemma output_wf: "dsp_wf dsp \<Longrightarrow> ch < 8 \<Longrightarrow> dsp_wf (channel_output ch sample dsp)"
  unfolding channel_output_def Let_def
  by (intro upd_channel_wf ram_wf) (simp_all add: ch_wf_def)

lemma silence_wf: "dsp_wf dsp \<Longrightarrow> ch < 8 \<Longrightarrow> dsp_wf (upd_channel ch (\<lambda>c. c\<lparr>ch_adsrState := 4, ch_gain := 0\<rparr>) dsp)"
  by (intro upd_channel_wf) (simp_all add: ch_wf_def)

lemma cycleChannel_wf: "dsp_wf dsp \<Longrightarrow> ch < 8 \<Longrightarrow> dsp_wf (dsp_cycleChannel ram ch dsp)"
  unfolding dsp_cycleChannel_def Let_def
  by (simp add: output_wf upd_channel_wf envelope_wf keys_wf silence_wf advance_wf)

section \<open>Mixing, echo, noise and the output ring\<close>

lemma mix_wf: "dsp_wf (fst st) \<Longrightarrow> i < 8 \<Longrightarrow> dsp_wf (fst (mix_step ram i st))"
  by (cases st) (simp add: Let_def cycleChannel_wf)

lemma mix_loop_wf: "list_all (\<lambda>i. i < 8) is \<Longrightarrow> dsp_wf (fst st) \<Longrightarrow> dsp_wf (fst (fold (mix_step ram) is st))"
  by (induction "is" arbitrary: st) (simp_all add: mix_wf)

lemma word_and_7: "(w :: u8) AND 7 < 8"
proof -
  have "w AND 7 = take_bit 3 w" by (simp add: take_bit_eq_mask mask_eq_exp_minus_1)
  then show ?thesis by (simp add: word_less_nat_alt take_bit_eq_mod unat_mod)
qed

lemma word_ge_1: "(1::'a::len word) \<le> w \<longleftrightarrow> w \<noteq> 0"
  by (simp add: word_less_1 linorder_not_less [symmetric])

lemma echo_wf: "dsp_wf dsp \<Longrightarrow> dsp_handleEcho ram l r dsp = (l', r', ram', dsp') \<Longrightarrow> dsp_wf dsp' \<and> in16 l' \<and> in16 r'"
  by (auto simp: dsp_handleEcho_def Let_def dsp_wf_def word_and_7 word_ge_1 list_all_update split: if_splits)

lemma noise_wf: "dsp_wf dsp \<Longrightarrow> dsp_wf (dsp_handleNoise dsp)"
  by (auto simp: dsp_handleNoise_def Let_def dsp_wf_def intro!: in15_half)

lemma emit_fill:
  fixes w r :: u32
  assumes "unat (w - r) < DSP_SAMPLE_RING"
  shows "unat (w + 1 - r) = Suc (unat (w - r))"
proof -
  have "w + 1 - r = (w - r) + 1" by simp
  moreover have "unat (- 1 :: u32) = 4294967295" by (simp add: unsigned_minus_1_eq_mask mask_eq_exp_minus_1)
  then have "w - r \<noteq> - 1" using assms by (auto simp: DSP_SAMPLE_RING_def)
  then have "1 + (w - r) \<noteq> 0" by (simp add: add_eq_0_iff)
  ultimately show ?thesis using unatSuc [of "w - r"] by (simp add: algebra_simps)
qed

lemma emit_wf: "dsp_wf dsp \<Longrightarrow> dsp_wf (dsp_emit l r dsp)"
  unfolding dsp_emit_def Let_def
  by (auto simp: dsp_wf_def emit_fill not_le list_all_update)

lemma cycle_wf: "dsp_wf dsp \<Longrightarrow> dsp_wf (snd (dsp_cycle ram dsp))"
proof -
  assume wf: "dsp_wf dsp"
  obtain d1 tl tr where 1: "fold (mix_step ram) [0..<8] (dsp, 0, 0) = (d1, tl, tr)"
    using prod_cases3 .
  have "dsp_wf d1"
    using mix_loop_wf [of "[0..<8]" "(dsp, 0, 0)" ram] wf 1 by (simp add: list_all_iff del: upt.simps)
  obtain ol orr ram' d2 where 2: "dsp_handleEcho ram (clamp16 (drop_bit 7 (tl * dsp_masterVolumeL d1)))
      (clamp16 (drop_bit 7 (tr * dsp_masterVolumeR d1))) d1 = (ol, orr, ram', d2)"
    using prod_cases4 .
  have "dsp_wf d2" using echo_wf [OF \<open>dsp_wf d1\<close> 2] by simp
  then have "dsp_wf ((dsp_emit a b (dsp_handleNoise d2))\<lparr>dsp_evenCycle := e\<rparr>)" for a b e
    using emit_wf [OF noise_wf] by (simp add: dsp_wf_def)
  then show ?thesis
    unfolding dsp_cycle_def 1 by (auto simp: Let_def 2 split: prod.split)
qed

section \<open>Register writes\<close>

lemma bit7_unat: "bit (w::u8) 7 \<longleftrightarrow> 128 \<le> unat w"
proof -
  have "bit w 7 \<longleftrightarrow> odd (unat w div 128)"
    using bit_unsigned_iff[of w 7, where ?'a = nat] by (simp add: bit_iff_odd)
  moreover have "unat w div 128 = (if 128 \<le> unat w then 1 else 0)"
    using unat_u8_less[of w] by (auto intro: div_nat_eqI)
  ultimately show ?thesis by simp
qed

lemma voice_index: "voice_reg adr k \<Longrightarrow> k < 0x10 \<Longrightarrow> unat (drop_bit 4 adr) < 8"
proof -
  assume v: "voice_reg adr k" and k: "k < 0x10"
  have "\<not> bit k 7" using k by (simp add: bit7_unat word_less_nat_alt)
  moreover have "bit (adr AND 0x8f) 7 = bit adr 7" by (simp add: bit_and_iff)
  ultimately have "unat adr < 128" using v by (simp add: voice_reg_def bit7_unat [symmetric] not_le [symmetric])
  then show ?thesis by (simp add: drop_bit_eq_div unat_div)
qed

lemma gain_value_bound: "ucast ((val::u8) AND 0x7f) * 16 \<le> (0x7f0 :: u16)"
proof -
  have "val AND 0x7f = take_bit 7 val" by (simp add: take_bit_eq_mask mask_eq_exp_minus_1)
  then have "unat (val AND 0x7f) \<le> 127" by (simp add: take_bit_eq_mod unat_mod)
  then show ?thesis by (simp add: word_le_nat_alt unat_word_ariths)
qed

lemma delay_wf: "dsp_wf dsp \<Longrightarrow> dsp_wf (dsp\<lparr>dsp_echoDelay := (if d = 0 then 1 else d)\<rparr>)"
  by (simp add: dsp_wf_def word_ge_1)

lemma scalar_wf:
  assumes "dsp_wf dsp"
  shows "dsp_wf (dsp\<lparr>dsp_masterVolumeL := sint (v :: u8)\<rparr>)" "dsp_wf (dsp\<lparr>dsp_masterVolumeR := sint (v :: u8)\<rparr>)"
    "dsp_wf (dsp\<lparr>dsp_echoVolumeL := sint (v :: u8)\<rparr>)" "dsp_wf (dsp\<lparr>dsp_echoVolumeR := sint (v :: u8)\<rparr>)"
    "dsp_wf (dsp\<lparr>dsp_feedbackVolume := sint (v :: u8)\<rparr>)" "dsp_wf (dsp\<lparr>dsp_dirPage := w\<rparr>)"
    "dsp_wf (dsp\<lparr>dsp_echoBufferAdr := w\<rparr>)" "dsp_wf (dsp\<lparr>dsp_firValues := (dsp_firValues dsp)[i := sint v]\<rparr>)"
    "dsp_wf (dsp\<lparr>dsp_resetFlag := b1, dsp_mute := b2, dsp_echoWrites := b3, dsp_noiseRate := w\<rparr>)"
  using assms by (simp_all add: dsp_wf_def list_all_update)

lemma write_wf: "dsp_wf dsp \<Longrightarrow> dsp_wf (dsp_write adr val dsp)"
proof -
  assume wf: "dsp_wf dsp"
  have v: "voice_reg adr k \<Longrightarrow> k < 0x10 \<Longrightarrow> (\<And>c. ch_wf c \<Longrightarrow> ch_wf (f c)) \<Longrightarrow>
      dsp_wf (upd_channel (unat (drop_bit 4 adr)) f dsp)" for k f
    by (rule upd_channel_wf [OF wf]) (simp_all add: voice_index)
  have if_wf: "(b \<Longrightarrow> dsp_wf x) \<Longrightarrow> (\<not> b \<Longrightarrow> dsp_wf y) \<Longrightarrow> dsp_wf (if b then x else y)" for b x y
    by simp
  show ?thesis
    unfolding dsp_write_def Let_def
    by (intro ram_wf if_wf; (rule wf)?; (rule scalar_wf [OF wf] delay_wf [OF wf])?;
        (erule v)?; (rule each_channel_wf [OF wf])?; simp add: ch_wf_def gain_value_bound)
qed

end
