(* ===== verification/Ring_Buffer.thy ===== *)
theory Ring_Buffer
  imports Snes_Prelude
begin

text \<open>
  Ring buffers with free-running 32-bit counters, as the port queue and the output ring of the
  audio unit use them: a slot is a counter modulo the capacity, and the counters wrap at
  \<open>2 ^ 32\<close>. The locale gives the queue they implement, for any capacity that divides \<open>2 ^ 32\<close>.
\<close>

text \<open>The queued elements, oldest first: slots \<open>head\<close> to \<open>tail\<close>.\<close>

definition ring_list :: "nat \<Rightarrow> 'a list \<Rightarrow> u32 \<Rightarrow> u32 \<Rightarrow> 'a list" where
  "ring_list n buf head tail = map (\<lambda>i. buf ! (unat (head + of_nat i) mod n)) [0..<unat (tail - head)]"

lemma length_ring_list [simp]: "length (ring_list n buf head tail) = unat (tail - head)"
  by (simp add: ring_list_def)

lemma ring_list_empty: "ring_list n buf head tail = [] \<longleftrightarrow> head = tail"
  by (auto simp: ring_list_def unat_eq_zero)

lemma unat_32: "unat (w::u32) < 4294967296"
  using unsigned_less[of w, where ?'a = nat] by simp

lemma unat_tail_step: "(head::u32) \<noteq> tail \<Longrightarrow> unat (tail - head) = Suc (unat (tail - (head + 1)))"
proof -
  assume "head \<noteq> tail"
  then have "1 + (tail - (head + 1)) \<noteq> 0" by simp
  from unatSuc [OF this] show ?thesis by (simp add: algebra_simps)
qed

text \<open>Advancing the head by \<open>k\<close> drops the \<open>k\<close> oldest elements.\<close>

lemma ring_list_drop:
  assumes "k \<le> unat (tail - head)"
  shows "ring_list n buf (head + of_nat k) tail = drop k (ring_list n buf head tail)"
proof -
  have "unat (of_nat k :: u32) = k"
    using assms unat_32[of "tail - head"] by (simp add: unat_of_nat take_bit_nat_eq_self_iff)
  moreover from this have "unat (tail - head - of_nat k) = unat (tail - head) - k"
    using assms by (subst unat_sub) (simp_all add: word_le_nat_alt)
  ultimately show ?thesis
    using assms by (intro nth_equalityI) (simp_all add: ring_list_def diff_diff_eq add.assoc less_diff_conv)
qed

locale ring_buffer =
  fixes n :: nat
  assumes n_pos: "0 < n" and n_dvd: "n dvd 4294967296"
begin

lemma slot_add: "unat (w + of_nat i :: u32) mod n = (unat w + i) mod n"
proof -
  have "unat (w + of_nat i :: u32) = (unat w + i) mod 4294967296"
    by (simp add: unat_word_ariths unat_of_nat mod_simps)
  then show ?thesis using n_dvd by (simp add: mod_mod_cancel)
qed

text \<open>Removing the oldest element.\<close>

lemma ring_pop:
  assumes "head \<noteq> tail"
  shows "ring_list n buf head tail = buf ! (unat head mod n) # ring_list n buf (head + 1) tail"
  unfolding ring_list_def unat_tail_step [OF assms] upt_conv_Cons [OF zero_less_Suc]
  by (simp add: map_Suc_upt [symmetric] comp_def add.assoc del: upt_Suc)

text \<open>Distances below the capacity give different slots.\<close>

lemma slot_distinct: "i < j \<Longrightarrow> j - i < n \<Longrightarrow> (a + i) mod n \<noteq> (a + j) mod n"
proof
  assume "i < j" "j - i < n" "(a + i) mod n = (a + j) mod n"
  then have "n dvd j - i"
    using mod_eq_dvd_iff_nat[of "a + i" "a + j" n] by simp
  with \<open>i < j\<close> \<open>j - i < n\<close> show False by (auto dest: dvd_imp_le)
qed

text \<open>Appending an element when there is room.\<close>

lemma ring_push:
  assumes "unat (tail - head) < n" "length buf = n" "n < 4294967296"
  shows "ring_list n (buf[unat tail mod n := x]) head (tail + 1) = ring_list n buf head tail @ [x]"
proof -
  let ?d = "unat (tail - head)"
  have t: "unat tail mod n = (unat head + ?d) mod n"
    using slot_add[of head ?d] by simp
  have "head \<noteq> tail + 1"
  proof
    assume "head = tail + 1"
    then have "tail - head = - 1" by simp
    moreover have "unat (- 1 :: u32) = 4294967295" by (simp add: unsigned_minus_1_eq_mask mask_eq_exp_minus_1)
    ultimately show False using assms(1,3) by simp
  qed
  then have len: "unat (tail + 1 - head) = Suc ?d"
    using unat_tail_step[of head "tail + 1"] by simp
  have "i < ?d \<Longrightarrow> unat tail mod n \<noteq> (unat head + i) mod n" for i
    unfolding t using assms(1) by (intro not_sym [OF slot_distinct]) auto
  then show ?thesis
    unfolding ring_list_def len using assms n_pos
    by (auto simp: slot_add t)
qed

lemma ring_full_pop_push:
  fixes head tail :: u32
  assumes "n \<le> unat (tail - head)" "unat (tail - head) \<le> n"
  shows "unat (tail - (head + 1)) < n"
proof -
  have "head \<noteq> tail" using assms n_pos by auto
  then show ?thesis using unat_tail_step[of head tail] assms by simp
qed

end

end
