(* ===== verification/Apu.thy ===== *)
theory Apu
  imports Spc_Frame Dsp_Invariants Ring_Buffer
begin

text \<open>
  The audio unit as a whole: reset, the queue of port writes scheduled by the main processor,
  the timers and \<open>apu_cycle\<close>, which interleaves the audio processor, the port queue, the sound
  processor and the timers. A state is the record \<open>spc\<close>, the processor with its audio unit.
\<close>

section \<open>The port-write queue\<close>

definition apu_clearPortQueue :: "apu \<Rightarrow> apu" where
  "apu_clearPortQueue apu = apu\<lparr>apu_portQHead := 0, apu_portQTail := 0\<rparr>"

definition apu_applyPortWrite :: "apu_port_write \<Rightarrow> apu \<Rightarrow> apu" where
  "apu_applyPortWrite w apu = apu\<lparr>apu_inPorts := (apu_inPorts apu)[unat (pw_port w AND 3) := pw_val w]\<rparr>"

text \<open>The slot of a counter, \<open>q & (APU_PORT_QUEUE_LEN - 1)\<close>.\<close>

definition queue_slot :: "u32 \<Rightarrow> nat" where
  "queue_slot q = unat (q AND 0x7f)"

definition apu_schedulePortWrite :: "u8 \<Rightarrow> u8 \<Rightarrow> u64 \<Rightarrow> apu \<Rightarrow> apu" where
  "apu_schedulePortWrite port val target_sample apu =
     (let apu = (if unat (apu_portQTail apu - apu_portQHead apu) \<ge> APU_PORT_QUEUE_LEN
            then (apu_applyPortWrite (apu_portQueue apu ! queue_slot (apu_portQHead apu)) apu)
                   \<lparr>apu_portQHead := apu_portQHead apu + 1\<rparr>
            else apu)
      in apu\<lparr>apu_portQueue := (apu_portQueue apu)[queue_slot (apu_portQTail apu) :=
               \<lparr>pw_target_sample = target_sample, pw_port = port AND 3, pw_val = val\<rparr>],
             apu_portQTail := apu_portQTail apu + 1\<rparr>)"

function apu_drainPortQueue :: "apu \<Rightarrow> apu" where
  "apu_drainPortQueue apu =
     (if apu_portQHead apu = apu_portQTail apu then apu
      else let w = apu_portQueue apu ! queue_slot (apu_portQHead apu) in
        if pw_target_sample w > apu_produced apu then apu
        else apu_drainPortQueue ((apu_applyPortWrite w apu)\<lparr>apu_portQHead := apu_portQHead apu + 1\<rparr>))"
  by pat_completeness auto

termination
  by (relation "measure (\<lambda>apu. unat (apu_portQTail apu - apu_portQHead apu))")
    (auto simp: apu_applyPortWrite_def unat_tail_step)

declare apu_drainPortQueue.simps [simp del]

section \<open>Timers and the cycle\<close>

definition timer_tick :: "nat \<Rightarrow> timer \<Rightarrow> timer" where
  "timer_tick i t =
     (let t = (if tm_cycles t = 0 then
           let t = t\<lparr>tm_cycles := (if i = 2 then 16 else 128)\<rparr> in
           if tm_enabled t then
             let t = t\<lparr>tm_divider := tm_divider t + 1\<rparr> in
             if tm_divider t = tm_target t
             then t\<lparr>tm_divider := 0, tm_counter := (tm_counter t + 1) AND 0xf\<rparr>
             else t
           else t
         else t)
      in t\<lparr>tm_cycles := tm_cycles t - 1\<rparr>)"

definition apu_tick_timers :: "apu \<Rightarrow> apu" where
  "apu_tick_timers apu = apu\<lparr>apu_timers := map2 timer_tick [0..<length (apu_timers apu)] (apu_timers apu)\<rparr>"

text \<open>The sound processor's part, every 32 cycles; \<open>dsp_cycle\<close> counts one produced sample.\<close>

definition apu_sample :: "apu \<Rightarrow> apu" where
  "apu_sample apu =
     (let apu = apu_drainPortQueue apu;
          (ram, dsp) = dsp_cycle (apu_ram apu) (apu_dsp apu)
      in apu\<lparr>apu_ram := ram, apu_dsp := dsp, apu_produced := apu_produced apu + 1\<rparr>)"

text \<open>The processor's part: a new opcode when the last one has used up its cycles.\<close>

definition apu_run_spc :: "spc \<Rightarrow> spc" where
  "apu_run_spc spc =
     (let spc = (if apu_cpuCyclesLeft (spc_apu spc) = 0
            then (case run_state spc_runOpcode spc of (n, spc) \<Rightarrow>
              spc\<lparr>spc_apu := (spc_apu spc)\<lparr>apu_cpuCyclesLeft := n\<rparr>\<rparr>)
            else spc)
      in spc\<lparr>spc_apu := (spc_apu spc)\<lparr>apu_cpuCyclesLeft := apu_cpuCyclesLeft (spc_apu spc) - 1\<rparr>\<rparr>)"

definition apu_cycle :: "spc \<Rightarrow> spc" where
  "apu_cycle spc =
     (let spc = apu_run_spc spc;
          apu = spc_apu spc;
          apu = (if apu_cycles apu AND 0x1f = 0 then apu_sample apu else apu);
          apu = apu_tick_timers apu
      in spc\<lparr>spc_apu := apu\<lparr>apu_cycles := apu_cycles apu + 1\<rparr>\<rparr>)"

text \<open>
  \<open>apu_reset\<close>; the boot ROM is made readable first because the processor's reset fetches its
  vector from it. The queue's slots and the sample counter are not touched by the source.
\<close>

definition timer_reset :: timer where
  "timer_reset = \<lparr>tm_cycles = 0, tm_divider = 0, tm_target = 0, tm_counter = 0, tm_enabled = False\<rparr>"

definition apu_reset :: "spc \<Rightarrow> spc" where
  "apu_reset spc =
     (let spc = spc\<lparr>spc_apu := (spc_apu spc)\<lparr>apu_romReadable := True\<rparr>\<rparr>;
          spc = snd (run_state spc_reset spc)
      in spc\<lparr>spc_apu := apu_clearPortQueue ((spc_apu spc)\<lparr>apu_dsp := dsp_reset, apu_ram := (\<lambda>_. 0),
           apu_dspAdr := 0, apu_cycles := 0, apu_inPorts := replicate 6 0, apu_outPorts := replicate 4 0,
           apu_timers := replicate 3 timer_reset, apu_cpuCyclesLeft := 7\<rparr>)\<rparr>)"

end
