(* ===== verification/Apu_Ports.thy ===== *)
theory Apu_Ports
  imports Apu
begin

text \<open>
  The queue of scheduled port writes against its specification, a first-in first-out list of at
  most 128 writes, and the output ring of the sound processor against a list of samples. Both
  rest on the ring-buffer laws, with the counters wrapping at 32 bits.
\<close>

section \<open>The port queue as a list\<close>

interpretation port_ring: ring_buffer APU_PORT_QUEUE_LEN
  by unfold_locales (simp_all add: APU_PORT_QUEUE_LEN_def)

lemma queue_slot_mod: "queue_slot q = unat q mod APU_PORT_QUEUE_LEN"
proof -
  have "q AND 0x7f = take_bit 7 q" by (simp add: take_bit_eq_mask mask_eq_exp_minus_1)
  then show ?thesis by (simp add: queue_slot_def APU_PORT_QUEUE_LEN_def take_bit_eq_mod unat_mod)
qed

definition pending :: "apu \<Rightarrow> apu_port_write list" where
  "pending apu = ring_list APU_PORT_QUEUE_LEN (apu_portQueue apu) (apu_portQHead apu) (apu_portQTail apu)"

definition queue_wf :: "apu \<Rightarrow> bool" where
  "queue_wf apu \<longleftrightarrow> length (apu_portQueue apu) = APU_PORT_QUEUE_LEN
     \<and> unat (apu_portQTail apu - apu_portQHead apu) \<le> APU_PORT_QUEUE_LEN"

text \<open>The abstract queue: the input ports and the pending writes, oldest first.\<close>

type_synonym port_spec = "u8 list \<times> apu_port_write list"

definition port_apply :: "apu_port_write \<Rightarrow> u8 list \<Rightarrow> u8 list" where
  "port_apply w ports = ports[unat (pw_port w AND 3) := pw_val w]"

definition spec_schedule :: "apu_port_write \<Rightarrow> port_spec \<Rightarrow> port_spec" where
  "spec_schedule w s = (case s of (ports, q) \<Rightarrow>
     if length q < APU_PORT_QUEUE_LEN then (ports, q @ [w]) else (port_apply (hd q) ports, tl q @ [w]))"

definition due :: "u64 \<Rightarrow> apu_port_write \<Rightarrow> bool" where
  "due produced w \<longleftrightarrow> pw_target_sample w \<le> produced"

definition spec_drain :: "u64 \<Rightarrow> port_spec \<Rightarrow> port_spec" where
  "spec_drain produced s = (case s of (ports, q) \<Rightarrow>
     (fold port_apply (takeWhile (due produced) q) ports, dropWhile (due produced) q))"

definition port_abs :: "apu \<Rightarrow> port_spec" where
  "port_abs apu = (apu_inPorts apu, pending apu)"

lemma apply_fields [simp]:
  "apu_inPorts (apu_applyPortWrite w apu) = port_apply w (apu_inPorts apu)"
  "apu_portQueue (apu_applyPortWrite w apu) = apu_portQueue apu"
  "apu_portQHead (apu_applyPortWrite w apu) = apu_portQHead apu"
  "apu_portQTail (apu_applyPortWrite w apu) = apu_portQTail apu"
  "apu_produced (apu_applyPortWrite w apu) = apu_produced apu"
  by (simp_all add: apu_applyPortWrite_def port_apply_def)

lemma pending_pop:
  assumes "apu_portQHead apu \<noteq> apu_portQTail apu"
  shows "pending apu = apu_portQueue apu ! queue_slot (apu_portQHead apu)
    # pending ((apu_applyPortWrite w apu)\<lparr>apu_portQHead := apu_portQHead apu + 1\<rparr>)"
  using port_ring.ring_pop [OF assms] by (simp add: pending_def queue_slot_mod)

lemma pending_empty: "pending apu = [] \<longleftrightarrow> apu_portQHead apu = apu_portQTail apu"
  by (simp add: pending_def ring_list_empty)

lemma pending_push:
  assumes "length (apu_portQueue apu) = APU_PORT_QUEUE_LEN"
    "unat (apu_portQTail apu - apu_portQHead apu) < APU_PORT_QUEUE_LEN"
  shows "pending (apu\<lparr>apu_portQueue := (apu_portQueue apu)[queue_slot (apu_portQTail apu) := w],
      apu_portQTail := apu_portQTail apu + 1\<rparr>) = pending apu @ [w]"
  using port_ring.ring_push [OF assms(2,1)] by (simp add: pending_def queue_slot_mod APU_PORT_QUEUE_LEN_def)

lemma schedule_abs:
  assumes "queue_wf apu"
  shows "port_abs (apu_schedulePortWrite port val target apu) =
      spec_schedule \<lparr>pw_target_sample = target, pw_port = port AND 3, pw_val = val\<rparr> (port_abs apu)
    \<and> queue_wf (apu_schedulePortWrite port val target apu)"
proof (cases "unat (apu_portQTail apu - apu_portQHead apu) < APU_PORT_QUEUE_LEN")
  case True
  with assms show ?thesis
    using pending_push [of apu] unat_tail_step[of "apu_portQHead apu" "apu_portQTail apu + 1"]
    by (cases "apu_portQHead apu = apu_portQTail apu + 1")
      (auto simp: apu_schedulePortWrite_def Let_def port_abs_def spec_schedule_def queue_wf_def pending_def)
next
  case False
  let ?w = "apu_portQueue apu ! queue_slot (apu_portQHead apu)"
  let ?apu = "(apu_applyPortWrite ?w apu)\<lparr>apu_portQHead := apu_portQHead apu + 1\<rparr>"
  have ne: "apu_portQHead apu \<noteq> apu_portQTail apu" using False by (auto simp: APU_PORT_QUEUE_LEN_def)
  have room: "unat (apu_portQTail apu - (apu_portQHead apu + 1)) < APU_PORT_QUEUE_LEN"
    using False assms by (intro port_ring.ring_full_pop_push) (auto simp: queue_wf_def)
  have "pending apu = ?w # pending ?apu" by (rule pending_pop [OF ne])
  moreover have "length (pending apu) = APU_PORT_QUEUE_LEN"
    using False assms by (simp add: pending_def queue_wf_def)
  ultimately show ?thesis
    using pending_push [of ?apu] room False assms
      unat_tail_step[of "apu_portQHead apu + 1" "apu_portQTail apu + 1"]
    by (auto simp: apu_schedulePortWrite_def Let_def port_abs_def spec_schedule_def queue_wf_def)
qed

text \<open>
  C10. Scheduling a port write refines the first-in first-out queue: with room the write is
  appended and no port changes; when 128 writes are pending the oldest is applied to its port and
  leaves the queue first, so the order survives. The queue keeps its bound of 128 slots.
\<close>

theorem apu_schedule_refines:
  assumes "queue_wf apu"
  shows "port_abs (apu_schedulePortWrite port val target apu) =
      spec_schedule \<lparr>pw_target_sample = target, pw_port = port AND 3, pw_val = val\<rparr> (port_abs apu)
    \<and> queue_wf (apu_schedulePortWrite port val target apu)"
  using assms by (rule schedule_abs)

lemma drain_abs:
  "port_abs (apu_drainPortQueue apu) = spec_drain (apu_produced apu) (port_abs apu)"
proof (induction apu rule: apu_drainPortQueue.induct)
  case (1 apu)
  let ?w = "apu_portQueue apu ! queue_slot (apu_portQHead apu)"
  let ?next = "(apu_applyPortWrite ?w apu)\<lparr>apu_portQHead := apu_portQHead apu + 1\<rparr>"
  show ?case
  proof (cases "apu_portQHead apu = apu_portQTail apu")
    case True
    then have "pending apu = []" by (simp add: pending_empty)
    with True show ?thesis
      by (simp add: apu_drainPortQueue.simps port_abs_def spec_drain_def)
  next
    case False
    have p: "pending apu = ?w # pending ?next" by (rule pending_pop [OF False])
    show ?thesis
    proof (cases "pw_target_sample ?w > apu_produced apu")
      case True
      with False p show ?thesis
        by (simp add: apu_drainPortQueue.simps [of apu] Let_def port_abs_def spec_drain_def due_def)
    next
      case due: False
      with False 1 have "port_abs (apu_drainPortQueue ?next) = spec_drain (apu_produced ?next) (port_abs ?next)"
        by simp
      with False due p show ?thesis
        by (simp add: apu_drainPortQueue.simps [of apu] Let_def port_abs_def spec_drain_def due_def not_less)
    qed
  qed
qed

text \<open>
  C11. Draining refines the specification for every queue: exactly the leading run of writes
  whose target sample has been produced is applied, oldest first, and everything behind the first
  write that is not yet due stays queued in order.
\<close>

theorem apu_drain_refines:
  "port_abs (apu_drainPortQueue apu) = spec_drain (apu_produced apu) (port_abs apu)"
  by (rule drain_abs)

text \<open>The instance: 128 pending writes of ones to port 0, and a write of 2 to port 1.\<close>

definition idle_apu :: apu where
  "idle_apu = \<lparr>apu_dsp = dsp_reset, apu_ram = (\<lambda>_. 0), apu_romReadable = True, apu_dspAdr = 0, apu_cycles = 0,
     apu_inPorts = replicate 6 0, apu_outPorts = replicate 4 0, apu_timers = replicate 3 timer_reset,
     apu_cpuCyclesLeft = 7,
     apu_portQueue = replicate APU_PORT_QUEUE_LEN \<lparr>pw_target_sample = 9, pw_port = 0, pw_val = 1\<rparr>,
     apu_portQHead = 0, apu_portQTail = 0, apu_produced = 0\<rparr>"

theorem apu_schedule_refines_witness:
  "queue_wf (idle_apu\<lparr>apu_portQTail := 128\<rparr>) \<and>
   fst (port_abs (apu_schedulePortWrite 5 2 7 (idle_apu\<lparr>apu_portQTail := 128\<rparr>))) = [1, 0, 0, 0, 0, 0] \<and>
   last (snd (port_abs (apu_schedulePortWrite 5 2 7 (idle_apu\<lparr>apu_portQTail := 128\<rparr>)))) =
     \<lparr>pw_target_sample = 7, pw_port = 1, pw_val = 2\<rparr>"
proof -
  let ?apu = "idle_apu\<lparr>apu_portQTail := 128\<rparr>"
  have wf: "queue_wf ?apu" by (simp add: queue_wf_def idle_apu_def APU_PORT_QUEUE_LEN_def)
  have ne: "apu_portQHead ?apu \<noteq> apu_portQTail ?apu" by (simp add: idle_apu_def)
  have "hd (pending ?apu) = \<lparr>pw_target_sample = 9, pw_port = 0, pw_val = 1\<rparr>"
    using pending_pop [OF ne, of undefined] by (simp add: idle_apu_def queue_slot_def APU_PORT_QUEUE_LEN_def)
  moreover have "length (pending ?apu) = 128"
    by (simp add: pending_def idle_apu_def)
  moreover have "apu_inPorts ?apu = [0, 0, 0, 0, 0, 0]"
    by (simp add: idle_apu_def numeral_eq_Suc)
  ultimately show ?thesis
    using apu_schedule_refines [OF wf, of 5 2 7] wf
    by (simp add: port_abs_def spec_schedule_def APU_PORT_QUEUE_LEN_def port_apply_def)
qed

section \<open>The output ring\<close>

interpretation sample_ring: ring_buffer DSP_SAMPLE_RING
  by unfold_locales (simp_all add: DSP_SAMPLE_RING_def)

text \<open>The ring's interleaved samples as stereo pairs, and the samples not yet consumed.\<close>

definition stereo :: "int list \<Rightarrow> (int \<times> int) list" where
  "stereo buf = map (\<lambda>k. (buf ! (k * 2), buf ! (k * 2 + 1))) [0..<length buf div 2]"

definition unread :: "dsp \<Rightarrow> (int \<times> int) list" where
  "unread dsp = ring_list DSP_SAMPLE_RING (stereo (dsp_sampleBuffer dsp)) (dsp_sampleRead dsp) (dsp_sampleWrite dsp)"

lemma stereo_update:
  assumes "length buf = 2 * n" "k < n"
  shows "stereo (buf[k * 2 := l, k * 2 + 1 := r]) = (stereo buf)[k := (l, r)]"
proof (rule nth_equalityI)
  fix i assume "i < length (stereo (buf[k * 2 := l, k * 2 + 1 := r]))"
  then have "i < n" using assms by (simp add: stereo_def)
  moreover have "i * 2 \<noteq> k * 2 + 1" "k * 2 \<noteq> i * 2 + 1" by presburger+
  ultimately show "stereo (buf[k * 2 := l, k * 2 + 1 := r]) ! i = (stereo buf)[k := (l, r)] ! i"
    using assms by (cases "i = k") (auto simp: stereo_def)
qed (simp add: stereo_def)

text \<open>
  C12. A produced sample is appended to the unread samples of the output ring, as the clamped
  stereo pair, unless 8192 samples are unread; then it is dropped and nothing else is lost or
  reordered. Wrapping of the 32-bit counters does not matter.
\<close>

theorem dsp_emit_appends:
  assumes "dsp_wf dsp"
  shows "unread (dsp_emit l r dsp) =
    (if length (unread dsp) < DSP_SAMPLE_RING then unread dsp @ [(i16 l, i16 r)] else unread dsp)"
proof (cases "length (unread dsp) < DSP_SAMPLE_RING")
  case True
  then have room: "unat (dsp_sampleWrite dsp - dsp_sampleRead dsp) < DSP_SAMPLE_RING" by (simp add: unread_def)
  let ?w = "unat (dsp_sampleWrite dsp) mod DSP_SAMPLE_RING"
  have len: "length (dsp_sampleBuffer dsp) = 2 * DSP_SAMPLE_RING" using assms by (simp add: dsp_wf_def)
  have "?w < DSP_SAMPLE_RING" by (simp add: DSP_SAMPLE_RING_def)
  note upd = stereo_update [OF len this]
  have "length (stereo (dsp_sampleBuffer dsp)) = DSP_SAMPLE_RING" using len by (simp add: stereo_def)
  from sample_ring.ring_push [OF room this, of "(i16 l, i16 r)"] room True show ?thesis
    unfolding dsp_emit_def Let_def unread_def
    by (simp add: upd [unfolded Suc_eq_plus1 [symmetric]]) (simp add: DSP_SAMPLE_RING_def)
next
  case False
  then show ?thesis by (simp add: dsp_emit_def unread_def)
qed

theorem dsp_emit_appends_witness:
  "dsp_wf dsp_reset \<and> unread (dsp_emit 5 (- 3) dsp_reset) = [(5, - 3)]"
  using dsp_emit_appends [OF dsp_reset_wf, of 5 "- 3"] dsp_reset_wf
  by (simp add: unread_def ring_list_def dsp_reset_def DSP_SAMPLE_RING_def i16_id in16_def)

end
