(* ===== verification/Apu_Invariants.thy ===== *)
theory Apu_Invariants
  imports Apu_Ports
begin

text \<open>
  Invariants of the audio unit over whole executions: any program the audio processor runs, with
  port writes and sample consumption interleaved at any point. They rest on \<open>spc_frame\<close>, so that
  the 256 opcodes are covered by the two bus functions.
\<close>

section \<open>Cycle counts of the audio processor\<close>

interpretation spc_cyc: spc_frame "\<lambda>spc. spc_cyclesUsed spc = c" "\<lambda>spc. spc_cyclesUsed spc = c \<or> spc_cyclesUsed spc = c + 2"
  for c :: u8
  by unfold_locales simp_all

lemma spc_cycle_table: "list_all (\<lambda>n. 2 \<le> n \<and> n \<le> 12) spc_cyclesPerOpcode"
  by (simp add: spc_cyclesPerOpcode_def)

lemma runOpcode_running:
  assumes "\<not> spc_stopped spc"
  shows "\<exists>opcode :: u8. fst (run_state spc_runOpcode spc) = spc_cyclesPerOpcode ! unat opcode
    \<or> fst (run_state spc_runOpcode spc) = spc_cyclesPerOpcode ! unat opcode + 2"
proof -
  obtain opcode s1 where f: "run_state spc_readOpcode (spc\<lparr>spc_cyclesUsed := 0\<rparr>) = (opcode, s1)"
    using prod.exhaust .
  let ?s2 = "s1\<lparr>spc_cyclesUsed := spc_cyclesPerOpcode ! unat opcode\<rparr>"
  have "fst (run_state spc_runOpcode spc) = spc_cyclesUsed (snd (run_state (spc_doOpcode opcode) ?s2))"
    using assms f by (simp add: spc_runOpcode_def split: prod.split)
  then show ?thesis
    by (intro exI[of _ opcode], use tripleD [OF spc_cyc.doOpcode_done, of ?s2 _ opcode] in simp)
qed

text \<open>
  One call of \<open>spc_runOpcode\<close> uses exactly 1 cycle when the processor is stopped and
  between 2 and 14 otherwise, whatever the opcode; so the audio unit, which counts them down,
  always makes progress and its 8-bit counter never wraps.
\<close>

theorem spc_runOpcode_cycles:
  "if spc_stopped spc then fst (run_state spc_runOpcode spc) = 1
   else 2 \<le> fst (run_state spc_runOpcode spc) \<and> fst (run_state spc_runOpcode spc) \<le> 14"
proof (cases "spc_stopped spc")
  case True
  then show ?thesis by (simp add: spc_runOpcode_def)
next
  case False
  then obtain opcode :: u8 where r: "fst (run_state spc_runOpcode spc) = spc_cyclesPerOpcode ! unat opcode
      \<or> fst (run_state spc_runOpcode spc) = spc_cyclesPerOpcode ! unat opcode + 2"
    using runOpcode_running by blast
  let ?n = "spc_cyclesPerOpcode ! unat opcode"
  have n: "2 \<le> unat ?n" "unat ?n \<le> 12"
    using list_all_nth [OF spc_cycle_table, of "unat opcode"] unat_u8_less[of opcode]
    by (simp_all add: word_le_nat_alt)
  then have "unat (?n + 2) = unat ?n + 2"
    by (subst unat_add_lem [THEN iffD1]) auto
  with r n False show ?thesis by (auto simp: word_le_nat_alt)
qed

section \<open>Well-formedness of the audio unit\<close>

definition timer_wf :: "timer \<Rightarrow> bool" where
  "timer_wf t \<longleftrightarrow> tm_counter t \<le> 15 \<and> tm_cycles t < 128"

definition apu_wf :: "apu \<Rightarrow> bool" where
  "apu_wf apu \<longleftrightarrow> dsp_wf (apu_dsp apu) \<and> length (apu_inPorts apu) = 6 \<and> length (apu_outPorts apu) = 4
     \<and> length (apu_timers apu) = 3 \<and> list_all timer_wf (apu_timers apu) \<and> queue_wf apu"

lemma and_15: "(w :: u8) AND 0xf \<le> 15"
proof -
  have "w AND 0xf = take_bit 4 w" by (simp add: take_bit_eq_mask mask_eq_exp_minus_1)
  then have "unat (w AND 0xf) \<le> 15" by (simp add: take_bit_eq_mod unat_mod)
  then show ?thesis by (simp add: word_le_nat_alt)
qed

lemma timer_tick_wf: "timer_wf t \<Longrightarrow> timer_wf (timer_tick i t)"
proof -
  assume wf: "timer_wf t"
  have "tm_cycles t \<noteq> 0 \<Longrightarrow> tm_cycles t - 1 < 128"
    using wf unfolding timer_wf_def by (meson less_trans word_sub_less_iff measure_unat word_less_nat_alt)
  with wf show ?thesis
    by (auto simp: timer_tick_def timer_wf_def Let_def and_15)
qed

lemma map_timers_wf:
  "list_all timer_wf ts \<Longrightarrow> length ts = n \<Longrightarrow> (\<And>i t. timer_wf t \<Longrightarrow> timer_wf (f i t)) \<Longrightarrow>
    list_all timer_wf (map2 f [0..<n] ts)"
  by (simp add: list_all_length)

lemma timer_control_wf: "timer_wf t \<Longrightarrow> timer_wf (timer_control val i t)"
  by (simp add: timer_wf_def timer_control_def Let_def)

lemma cpuRead_wf: "apu_wf apu \<Longrightarrow> apu_wf (snd (apu_cpuRead apu adr))"
proof -
  assume wf: "apu_wf apu"
  have "i < 3 \<Longrightarrow> timer_wf ((apu_timers apu ! i)\<lparr>tm_counter := 0\<rparr>)" for i
    using wf list_all_nth[of timer_wf "apu_timers apu" i] by (auto simp: apu_wf_def timer_wf_def)
  moreover have "0xfd \<le> adr \<Longrightarrow> adr \<le> 0xff \<Longrightarrow> unat (adr - 0xfd) < 3"
    by (simp add: word_le_nat_alt unat_sub)
  ultimately show ?thesis
    using wf by (auto simp: apu_cpuRead_def Let_def apu_wf_def queue_wf_def list_all_update)
qed

lemma cpuWrite_wf: "apu_wf apu \<Longrightarrow> apu_wf (apu_cpuWrite apu adr val)"
proof -
  assume wf: "apu_wf apu"
  have t: "i < 3 \<Longrightarrow> timer_wf ((apu_timers apu ! i)\<lparr>tm_target := val\<rparr>)" for i
    using wf list_all_nth[of timer_wf "apu_timers apu" i] by (auto simp: apu_wf_def timer_wf_def)
  have i: "0xfa \<le> adr \<Longrightarrow> adr \<le> 0xfc \<Longrightarrow> unat (adr - 0xfa) < 3"
    by (simp add: word_le_nat_alt unat_sub)
  show ?thesis
    using wf t i
    by (auto simp: apu_cpuWrite_def Let_def apu_wf_def queue_wf_def list_all_update map_timers_wf
        timer_control_wf write_wf)
qed

interpretation spc_apu: spc_frame "\<lambda>spc. apu_wf (spc_apu spc)" "\<lambda>spc. apu_wf (spc_apu spc)"
  by unfold_locales (simp_all add: cpuRead_wf cpuWrite_wf)

lemma runOpcode_apu_wf: "apu_wf (spc_apu spc) \<Longrightarrow> apu_wf (spc_apu (snd (run_state spc_runOpcode spc)))"
proof -
  have "keeps (\<lambda>spc. apu_wf (spc_apu spc)) spc_runOpcode"
    unfolding spc_runOpcode_def
    by (intro keeps_rules spc_apu.fetch_ok(1) spc_apu.doOpcode_done) (simp_all add: triple_def)
  then show "apu_wf (spc_apu spc) \<Longrightarrow> ?thesis" by (rule tripleD)
qed


lemma clearPortQueue_wf: "apu_wf apu \<Longrightarrow> apu_wf (apu_clearPortQueue apu)"
  by (simp add: apu_wf_def apu_clearPortQueue_def queue_wf_def)

lemma length_port_apply [simp]: "length (port_apply w ports) = length ports"
  by (simp add: port_apply_def)

lemma applyPortWrite_fields [simp]:
  "apu_dsp (apu_applyPortWrite w apu) = apu_dsp apu" "apu_outPorts (apu_applyPortWrite w apu) = apu_outPorts apu"
  "apu_timers (apu_applyPortWrite w apu) = apu_timers apu"
  by (simp_all add: apu_applyPortWrite_def)

lemma schedule_wf: "apu_wf apu \<Longrightarrow> apu_wf (apu_schedulePortWrite port val target apu)"
proof -
  assume wf: "apu_wf apu"
  let ?apu = "apu_schedulePortWrite port val target apu"
  have "queue_wf ?apu" using wf schedule_abs [of apu] by (simp add: apu_wf_def)
  moreover have "apu_dsp ?apu = apu_dsp apu \<and> length (apu_inPorts ?apu) = length (apu_inPorts apu)
      \<and> apu_outPorts ?apu = apu_outPorts apu \<and> apu_timers ?apu = apu_timers apu"
    by (simp add: apu_schedulePortWrite_def Let_def)
  ultimately show ?thesis using wf by (simp add: apu_wf_def)
qed

lemma pop_wf:
  "apu_wf apu \<Longrightarrow> apu_portQHead apu \<noteq> apu_portQTail apu \<Longrightarrow>
    apu_wf ((apu_applyPortWrite w apu)\<lparr>apu_portQHead := apu_portQHead apu + 1\<rparr>)"
  using unat_tail_step[of "apu_portQHead apu" "apu_portQTail apu"] by (simp add: apu_wf_def queue_wf_def)

lemma drain_wf: "apu_wf apu \<Longrightarrow> apu_wf (apu_drainPortQueue apu)"
proof (induction apu rule: apu_drainPortQueue.induct)
  case (1 apu)
  then show ?case
    using pop_wf [OF "1.prems"] by (subst apu_drainPortQueue.simps) (simp add: Let_def)
qed

lemma sample_wf: "apu_wf apu \<Longrightarrow> apu_wf (apu_sample apu)"
proof -
  assume "apu_wf apu"
  then have wf: "apu_wf (apu_drainPortQueue apu)" by (rule drain_wf)
  then have "dsp_wf (snd (dsp_cycle ram (apu_dsp (apu_drainPortQueue apu))))" for ram
    by (intro cycle_wf) (simp add: apu_wf_def)
  with wf show ?thesis
    by (simp add: apu_sample_def Let_def apu_wf_def queue_wf_def split: prod.split) (metis snd_conv)
qed

lemma tick_timers_wf: "apu_wf apu \<Longrightarrow> apu_wf (apu_tick_timers apu)"
  by (auto simp: apu_tick_timers_def apu_wf_def queue_wf_def intro!: map_timers_wf timer_tick_wf)

lemma cyclesLeft_wf: "apu_wf (apu\<lparr>apu_cpuCyclesLeft := n\<rparr>) = apu_wf apu"
  "apu_wf (apu\<lparr>apu_cycles := k\<rparr>) = apu_wf apu"
  by (simp_all add: apu_wf_def queue_wf_def)

lemma run_spc_wf: "apu_wf (spc_apu spc) \<Longrightarrow> apu_wf (spc_apu (apu_run_spc spc))"
  using runOpcode_apu_wf [of spc]
  by (auto simp: apu_run_spc_def Let_def cyclesLeft_wf split: prod.split)

lemma apu_cycle_wf: "apu_wf (spc_apu spc) \<Longrightarrow> apu_wf (spc_apu (apu_cycle spc))"
  using run_spc_wf [of spc]
  by (simp add: apu_cycle_def Let_def cyclesLeft_wf sample_wf tick_timers_wf)

lemma spc_reset_queue: "apu_portQueue (spc_apu (snd (run_state spc_reset spc))) = apu_portQueue (spc_apu spc)"
  by (simp add: spc_reset_def run_simps apu_cpuRead_def)

lemma apu_reset_wf:
  assumes "length (apu_portQueue (spc_apu spc)) = APU_PORT_QUEUE_LEN"
  shows "apu_wf (spc_apu (apu_reset spc))"
  using assms
  by (simp add: apu_reset_def Let_def apu_wf_def queue_wf_def apu_clearPortQueue_def dsp_reset_wf
      spc_reset_queue timer_reset_def timer_wf_def list_all_replicate)

section \<open>Executions\<close>

text \<open>
  The audio unit in use: reset, cycles driven by either thread, port writes and queue clearing by
  the main processor, and blocks of 534 samples consumed by the audio callback, which checks that
  they are available.
\<close>

inductive apu_reach :: "spc \<Rightarrow> bool" where
  reset: "length (apu_portQueue (spc_apu spc)) = APU_PORT_QUEUE_LEN \<Longrightarrow> apu_reach (apu_reset spc)"
| cycle: "apu_reach spc \<Longrightarrow> apu_reach (apu_cycle spc)"
| port_write: "apu_reach spc \<Longrightarrow>
    apu_reach (spc\<lparr>spc_apu := apu_schedulePortWrite port val target (spc_apu spc)\<rparr>)"
| clear_queue: "apu_reach spc \<Longrightarrow> apu_reach (spc\<lparr>spc_apu := apu_clearPortQueue (spc_apu spc)\<rparr>)"
| consume: "apu_reach spc \<Longrightarrow> length (unread (apu_dsp (spc_apu spc))) \<ge> 534 \<Longrightarrow>
    apu_reach (spc\<lparr>spc_apu := (spc_apu spc)\<lparr>apu_dsp := (apu_dsp (spc_apu spc))
      \<lparr>dsp_sampleRead := dsp_sampleRead (apu_dsp (spc_apu spc)) + 534\<rparr>\<rparr>\<rparr>)"

lemma consume_wf:
  assumes "dsp_wf dsp" "length (unread dsp) \<ge> 534"
  shows "dsp_wf (dsp\<lparr>dsp_sampleRead := dsp_sampleRead dsp + 534\<rparr>)"
proof -
  have "unat (dsp_sampleWrite dsp - dsp_sampleRead dsp - 534) = unat (dsp_sampleWrite dsp - dsp_sampleRead dsp) - 534"
    using assms(2) by (subst unat_sub) (simp_all add: unread_def word_le_nat_alt)
  then show ?thesis
    using assms(1) by (auto simp: dsp_wf_def diff_diff_eq)
qed

lemma apu_reach_wf: "apu_reach spc \<Longrightarrow> apu_wf (spc_apu spc)"
proof (induction rule: apu_reach.induct)
  case (consume spc)
  then show ?case using consume_wf by (simp add: apu_wf_def queue_wf_def)
qed (simp_all add: apu_reset_wf apu_cycle_wf schedule_wf clearPortQueue_wf)


lemma shift_bounds: "unat (drop_bit 12 (w::u16)) \<le> 15" "unat (drop_bit 4 w AND 0xff) \<le> 255"
proof -
  have "unat w div 4096 < 16" using unat_u16_less[of w] by (intro less_mult_imp_div_less) simp
  then show "unat (drop_bit 12 w) \<le> 15" by (simp add: drop_bit_eq_div unat_div)
qed simp

text \<open>
  C5. In every reachable state of the audio unit, whatever program the audio processor runs and
  however port writes and the audio callback interleave with it, the indices \<open>dsp.c\<close> uses are in
  bounds: the decode buffer and the Gaussian table in \<open>dsp_getSample\<close>, the rate table of the
  envelope, the FIR buffers, the output ring; and every envelope stays within 11 bits and every
  voice output within 16.
\<close>

theorem dsp_accesses_in_bounds:
  assumes "apu_reach spc" "ch < 8"
  shows "let dsp = apu_dsp (spc_apu spc); c = dsp_channels dsp ! ch;
             sampleNum = unat (drop_bit 12 (ch_pitchCounter c));
             offset = unat (drop_bit 4 (ch_pitchCounter c) AND 0xff) in
    ch < length (dsp_channels dsp) \<and> 16 * ch + 9 < length (dsp_ram dsp)
    \<and> sampleNum + 3 < length (ch_decodeBuffer c)
    \<and> 0x1ff - offset < length gaussValues \<and> 0x100 + offset < length gaussValues
    \<and> (ch_adsrState c = 4 \<or> unat (ch_adsrState c) < length (ch_adsrRates c))
    \<and> unat (dsp_firBufferIndex dsp) < length (dsp_firBufferL dsp)
    \<and> unat (dsp_firBufferIndex dsp) < length (dsp_firBufferR dsp)
    \<and> unat (dsp_sampleWrite dsp) mod DSP_SAMPLE_RING * 2 + 1 < length (dsp_sampleBuffer dsp)
    \<and> ch_gain c \<le> 0x7ff \<and> in16 (ch_sampleOut c)"
proof -
  have wf: "dsp_wf (apu_dsp (spc_apu spc))" using apu_reach_wf [OF assms(1)] by (simp add: apu_wf_def)
  have ch: "ch_wf (dsp_channels (apu_dsp (spc_apu spc)) ! ch)" by (rule channel_wf [OF wf assms(2)])
  let ?c = "dsp_channels (apu_dsp (spc_apu spc)) ! ch"
  have "length gaussValues = 512" by (simp add: gaussValues_def)
  moreover have "ch_adsrState ?c = 4 \<or> unat (ch_adsrState ?c) < 4"
    using ch by (auto simp: ch_wf_def word_le_nat_alt word_unat_eq_iff)
  moreover have "unat (dsp_sampleWrite (apu_dsp (spc_apu spc))) mod DSP_SAMPLE_RING < DSP_SAMPLE_RING"
    by (simp add: DSP_SAMPLE_RING_def)
  ultimately show ?thesis
    using wf ch assms(2) shift_bounds[of "ch_pitchCounter ?c"]
    by (auto simp: Let_def dsp_wf_def ch_wf_def word_less_nat_alt)
qed

definition idle_spc :: spc where
  "idle_spc = \<lparr>spc_apu = idle_apu, spc_a = 0, spc_x = 0, spc_y = 0, spc_sp = 0, spc_pc = 0, spc_c = False,
     spc_z = False, spc_v = False, spc_n = False, spc_i = False, spc_h = False, spc_p = False, spc_b = False,
     spc_stopped = False, spc_cyclesUsed = 0\<rparr>"

theorem dsp_accesses_in_bounds_witness:
  "let c = dsp_channels (apu_dsp (spc_apu (apu_cycle (apu_reset idle_spc)))) ! 7 in
    unat (drop_bit 12 (ch_pitchCounter c)) + 3 < length (ch_decodeBuffer c) \<and> ch_gain c \<le> 0x7ff"
proof -
  have "apu_reach (apu_cycle (apu_reset idle_spc))"
    by (intro apu_reach.intros) (simp add: idle_spc_def idle_apu_def)
  from dsp_accesses_in_bounds [OF this, of 7] show ?thesis by (simp add: Let_def)
qed

section \<open>Timers\<close>

text \<open>The cycles of a timer's prescaler: 8 kHz for timers 0 and 1, 64 kHz for timer 2.\<close>

definition timer_period :: "nat \<Rightarrow> nat" where
  "timer_period i = (if i = 2 then 16 else 128)"

lemma timer_countdown:
  "n = unat (tm_cycles t) \<Longrightarrow> (timer_tick i ^^ n) t = t\<lparr>tm_cycles := 0\<rparr>"
proof (induction n arbitrary: t)
  case 0
  then have "tm_cycles t = 0" by (simp add: unat_eq_zero)
  then show ?case by simp
next
  case (Suc n)
  then have "tm_cycles t \<noteq> 0" by auto
  then have "timer_tick i t = t\<lparr>tm_cycles := tm_cycles t - 1\<rparr>" by (simp add: timer_tick_def)
  moreover have "n = unat (tm_cycles t - 1)"
    using Suc.prems \<open>tm_cycles t \<noteq> 0\<close> by (simp add: unat_minus_one)
  ultimately show ?case
    using Suc.IH[of "t\<lparr>tm_cycles := tm_cycles t - 1\<rparr>"] by (simp add: funpow_swap1)
qed

text \<open>One prescaler period of an enabled timer.\<close>

definition timer_step :: "timer \<Rightarrow> timer" where
  "timer_step t =
     (if tm_divider t + 1 = tm_target t
      then t\<lparr>tm_divider := 0, tm_counter := (tm_counter t + 1) AND 0xf\<rparr>
      else t\<lparr>tm_divider := tm_divider t + 1\<rparr>)"

lemma timer_reload:
  assumes "tm_enabled t" "tm_cycles t = 0"
  shows "timer_tick i t = (timer_step t)\<lparr>tm_cycles := (if i = 2 then 15 else 127)\<rparr>"
  using assms by (simp add: timer_tick_def timer_step_def Let_def)

lemma timer_step_fields [simp]:
  "tm_enabled (timer_step t) = tm_enabled t" "tm_cycles (timer_step t) = tm_cycles t"
  "tm_target (timer_step t) = tm_target t"
  by (simp_all add: timer_step_def)

lemma timer_one_period:
  assumes "tm_enabled t" "tm_cycles t = 0"
  shows "(timer_tick i ^^ timer_period i) t = timer_step t"
proof -
  let ?m = "if i = 2 then 15 else 127 :: nat"
  have "timer_period i = Suc ?m" by (simp add: timer_period_def)
  moreover have "(timer_tick i ^^ ?m) (timer_tick i t) = (timer_tick i t)\<lparr>tm_cycles := 0\<rparr>"
    by (rule timer_countdown) (simp add: timer_reload [OF assms])
  moreover have "(timer_step t)\<lparr>tm_cycles := 0\<rparr> = timer_step t"
    using assms by (metis timer_step_fields(2) timer.surjective timer.update_convs(1))
  ultimately show ?thesis
    by (simp add: funpow_swap1 timer_reload [OF assms])
qed

lemma timer_periods:
  assumes "tm_enabled t" "tm_cycles t = 0"
  shows "(timer_tick i ^^ (timer_period i * j)) t = (timer_step ^^ j) t
    \<and> tm_enabled ((timer_step ^^ j) t) \<and> tm_cycles ((timer_step ^^ j) t) = 0"
proof (induction j)
  case (Suc j)
  have "timer_period i * Suc j = timer_period i + timer_period i * j" by simp
  then show ?case
    using Suc timer_one_period[of "(timer_step ^^ j) t" i] by (simp only: funpow_add comp_apply) simp
qed (simp add: assms)

text \<open>Up to its target the divider counts; there it restarts and the counter advances.\<close>

lemma timer_divides:
  "tm_divider t = 0 \<Longrightarrow> j < unat (tm_target t) \<Longrightarrow> (timer_step ^^ j) t = t\<lparr>tm_divider := of_nat j\<rparr>"
proof (induction j)
  case (Suc j)
  have "of_nat j + 1 \<noteq> tm_target t"
  proof
    assume "of_nat j + 1 = tm_target t"
    then have "unat (tm_target t) = unat (of_nat (Suc j) :: u8)" by (simp add: add.commute)
    also have "\<dots> \<le> Suc j" by (simp only: unat_of_nat mod_less_eq_dividend)
    finally show False using Suc.prems by simp
  qed
  with Suc show ?case by (simp add: timer_step_def add.commute)
qed simp

lemma timer_one_count:
  assumes "tm_divider t = 0" "tm_target t \<noteq> 0"
  shows "(timer_step ^^ unat (tm_target t)) t = t\<lparr>tm_counter := (tm_counter t + 1) AND 0xf\<rparr>"
proof -
  obtain m where m: "unat (tm_target t) = Suc m" using assms(2) by (metis not0_implies_Suc unat_eq_zero)
  have "of_nat (Suc m) = tm_target t" unfolding m [symmetric] by simp
  then have "of_nat m + 1 = tm_target t" by (simp add: add.commute)
  with timer_divides [OF assms(1), of m] m assms(1) show ?thesis by (simp add: timer_step_def)
qed

lemma unat_and_15: "unat (w AND 0xf) = unat w mod 16" for w :: u8
proof -
  have "w AND 0xf = take_bit 4 w" by (simp add: take_bit_eq_mask mask_eq_exp_minus_1)
  then show ?thesis by (simp add: take_bit_eq_mod unat_mod)
qed

lemma and_15_add: "((a AND 0xf) + b) AND 0xf = (a + b) AND 0xf" for a b :: u8
  by (simp add: word_unat_eq_iff unat_and_15 unat_word_ariths mod_mod_cancel mod_simps)

lemma and_15_id: "w \<le> 15 \<Longrightarrow> w AND 0xf = w" for w :: u8
  by (simp add: word_unat_eq_iff unat_and_15 word_le_nat_alt)

text \<open>
  An enabled timer with target \<open>T\<close> advances its 4-bit counter once every \<open>T\<close> prescaler
  periods (128 cycles for timers 0 and 1, 16 for timer 2): from a period boundary with a cleared
  divider, after \<open>k * T\<close> periods the counter has grown by \<open>k\<close> modulo 16 and nothing else changed.
\<close>

theorem apu_timer_rate:
  assumes "tm_enabled t" "tm_cycles t = 0" "tm_divider t = 0" "tm_target t \<noteq> 0" "tm_counter t \<le> 15"
  shows "(timer_tick i ^^ (timer_period i * (unat (tm_target t) * k))) t =
    t\<lparr>tm_counter := (tm_counter t + of_nat k) AND 0xf\<rparr>"
proof -
  have "(timer_step ^^ (unat (tm_target t) * k)) t = t\<lparr>tm_counter := (tm_counter t + of_nat k) AND 0xf\<rparr>"
  proof (induction k)
    case 0
    then show ?case using assms(5) by (simp add: and_15_id)
  next
    case (Suc k)
    have "unat (tm_target t) * Suc k = unat (tm_target t) + unat (tm_target t) * k" by simp
    then show ?case
      using Suc assms timer_one_count[of "(timer_step ^^ (unat (tm_target t) * k)) t"]
        and_15_add[of "tm_counter t + of_nat k" 1]
      by (simp only: funpow_add comp_apply) (simp add: add.assoc add.commute add.left_commute)
  qed
  then show ?thesis using timer_periods [OF assms(1,2)] by simp
qed

text \<open>The instance: timer 2 with target 3, counter 15, after two counts (96 cycles).\<close>

theorem apu_timer_rate_witness:
  "(timer_tick 2 ^^ 96) \<lparr>tm_cycles = 0, tm_divider = 0, tm_target = 3, tm_counter = 15, tm_enabled = True\<rparr>
    = \<lparr>tm_cycles = 0, tm_divider = 0, tm_target = 3, tm_counter = 1, tm_enabled = True\<rparr>"
  using apu_timer_rate [of "\<lparr>tm_cycles = 0, tm_divider = 0, tm_target = 3, tm_counter = 15, tm_enabled = True\<rparr>" 2 2]
  by (simp add: timer_period_def)

end
