(* ===== verification/Rtl_Apu.thy ===== *)
theory Rtl_Apu
  imports Apu_Invariants "HOL-Library.While_Combinator"
begin

text \<open>
  How the runtime drives the audio unit, from \<open>common_rtl.c\<close>, \<open>snes/snes.c\<close> and
  \<open>audio_trace.c\<close>: the catch-up that runs the audio unit when the main processor touches it, the
  write clock of \<open>RtlApuWrite\<close> that turns the wall time of a port write into a target sample, and
  the top-up loop of \<open>RtlRenderAudio\<close>. Each touch takes two inputs from its surroundings: the
  whole number of cycles that the floating-point accumulator \<open>apuCatchupCycles\<close> holds at that
  moment and the wall clock. A failed assertion is \<open>None\<close>.
\<close>

section \<open>Catch-up\<close>

record touch =
  tc_cycles :: nat
  tc_now_ns :: u64

definition snes_catchupApu :: "nat \<Rightarrow> spc \<Rightarrow> spc" where
  "snes_catchupApu cycles spc = (apu_cycle ^^ min cycles 10000) spc"

section \<open>The write clock\<close>

definition APU_PORT_MIN_DWELL :: u64 where "APU_PORT_MIN_DWELL = 128"

text \<open>The static variables of \<open>RtlApuWrite\<close>, and the largest block an audio callback has consumed.\<close>

record port_clock =
  pc_clock :: u64
  pc_clock_ns :: u64
  pc_last_target :: "u64 list"
  pc_last_val :: "u8 list"
  pc_last_valid :: "bool list"
  pc_max_consume_chunk :: u32

definition port_clock_init :: port_clock where
  "port_clock_init = \<lparr>pc_clock = 0, pc_clock_ns = 0, pc_last_target = replicate 4 0, pc_last_val = replicate 4 0,
     pc_last_valid = replicate 4 False, pc_max_consume_chunk = 0\<rparr>"

definition audio_trace_consume_quantum :: "port_clock \<Rightarrow> u32" where
  "audio_trace_consume_quantum pc = (if pc_max_consume_chunk pc > 534 then pc_max_consume_chunk pc else 534)"

definition audio_trace_on_consume :: "u32 \<Rightarrow> port_clock \<Rightarrow> port_clock" where
  "audio_trace_on_consume count pc =
     (if count > pc_max_consume_chunk pc then pc\<lparr>pc_max_consume_chunk := count\<rparr> else pc)"

text \<open>The target before the minimum dwell: the previous target advanced by the wall-time gap.\<close>

definition clock_target :: "u64 \<Rightarrow> u64 \<Rightarrow> port_clock \<Rightarrow> u64" where
  "clock_target produced now_ns pc =
     (let quantum = ucast (audio_trace_consume_quantum pc);
          delta = (if pc_clock_ns pc \<noteq> 0 then (now_ns - pc_clock_ns pc) * 32040 div 1000000000 else 0);
          delta = (if delta > 4 * quantum then 4 * quantum else delta);
          target = pc_clock pc + delta;
          target = (if target < produced then produced else target)
      in if target > produced + 3 * quantum then produced + 3 * quantum else target)"

text \<open>The minimum dwell: a distinct value keeps its distance from the last one on its port.\<close>

definition dwell_target :: "u64 \<Rightarrow> nat \<Rightarrow> u8 \<Rightarrow> port_clock \<Rightarrow> u64 \<Rightarrow> u64" where
  "dwell_target produced p val pc target =
     (if pc_last_valid pc ! p \<and> val \<noteq> pc_last_val pc ! p then
        let floor = pc_last_target pc ! p + APU_PORT_MIN_DWELL;
            ceil = produced + 8 * ucast (audio_trace_consume_quantum pc)
        in if target < floor then (if floor < ceil then floor else ceil) else target
      else target)"

definition port_schedule :: "u64 \<Rightarrow> u64 \<Rightarrow> nat \<Rightarrow> u8 \<Rightarrow> port_clock \<Rightarrow> u64 \<times> port_clock" where
  "port_schedule produced now_ns p val pc =
     (let target = dwell_target produced p val pc (clock_target produced now_ns pc)
      in (target, pc\<lparr>pc_last_target := (pc_last_target pc)[p := target], pc_last_val := (pc_last_val pc)[p := val],
            pc_last_valid := (pc_last_valid pc)[p := True], pc_clock := target, pc_clock_ns := now_ns\<rparr>))"

definition RtlApuWrite :: "touch \<Rightarrow> u16 \<Rightarrow> u8 \<Rightarrow> spc \<times> port_clock \<Rightarrow> (spc \<times> port_clock) option" where
  "RtlApuWrite tc adr val st =
     (case st of (spc, pc) \<Rightarrow>
      if 0x2140 \<le> adr \<and> adr \<le> 0x2143 then
        let spc = snes_catchupApu (tc_cycles tc) spc;
            (target, pc) = port_schedule (apu_produced (spc_apu spc)) (tc_now_ns tc) (unat (adr AND 3)) val pc
        in Some (spc\<lparr>spc_apu := apu_schedulePortWrite (ucast (adr AND 3)) val target (spc_apu spc)\<rparr>, pc)
      else None)"

section \<open>The audio callback\<close>

text \<open>\<open>DSP_AVAIL\<close> and the loop that tops the ring up to one block, in batches of 256 cycles.\<close>

definition dsp_avail :: "spc \<Rightarrow> u32" where
  "dsp_avail spc = dsp_sampleWrite (apu_dsp (spc_apu spc)) - dsp_sampleRead (apu_dsp (spc_apu spc))"

primrec top_up_batch :: "nat \<Rightarrow> spc \<Rightarrow> spc" where
  "top_up_batch 0 spc = spc"
| "top_up_batch (Suc batch) spc = (if dsp_avail spc < 534 then top_up_batch batch (apu_cycle spc) else spc)"

definition render_top_up :: "spc \<Rightarrow> spc option" where
  "render_top_up = while_option (\<lambda>spc. dsp_avail spc < 534) (top_up_batch 256)"

text \<open>The ring positions \<open>dsp_getSamples\<close> reads, with the truncated locations as input, and its block.\<close>

definition dsp_getSamples :: "nat list \<Rightarrow> dsp \<Rightarrow> (int \<times> int) list \<times> dsp" where
  "dsp_getSamples locations dsp =
     (map (\<lambda>l. let idx = (unat (dsp_sampleRead dsp) + l) mod DSP_SAMPLE_RING
        in (dsp_sampleBuffer dsp ! (idx * 2), dsp_sampleBuffer dsp ! (idx * 2 + 1))) locations,
      dsp\<lparr>dsp_sampleRead := dsp_sampleRead dsp + 534\<rparr>)"

definition RtlRenderAudio :: "nat list \<Rightarrow> spc \<times> port_clock \<Rightarrow> ((int \<times> int) list \<times> spc \<times> port_clock) option" where
  "RtlRenderAudio locations st =
     (case st of (spc, pc) \<Rightarrow>
      case render_top_up spc of None \<Rightarrow> None
      | Some spc \<Rightarrow> (case dsp_getSamples locations (apu_dsp (spc_apu spc)) of (samples, dsp) \<Rightarrow>
          Some (samples, spc\<lparr>spc_apu := (spc_apu spc)\<lparr>apu_dsp := dsp\<rparr>\<rparr>, audio_trace_on_consume 534 pc)))"

section \<open>The output ring under the cycle\<close>

text \<open>Only the end of \<open>dsp_cycle\<close> moves the write counter, and nothing there moves the read counter.\<close>

definition ring_counters :: "dsp \<Rightarrow> u32 \<times> u32" where
  "ring_counters dsp = (dsp_sampleWrite dsp, dsp_sampleRead dsp)"

lemma channel_counters [simp]:
  "ring_counters (upd_channel ch f dsp) = ring_counters dsp" "ring_counters (each_channel g dsp) = ring_counters dsp"
  "ring_counters (dsp\<lparr>dsp_ram := r\<rparr>) = ring_counters dsp"
  by (simp_all add: ring_counters_def upd_channel_def each_channel_def)

lemma cycleChannel_counters [simp]: "ring_counters (dsp_cycleChannel ram ch dsp) = ring_counters dsp"
  by (simp add: dsp_cycleChannel_def channel_output_def channel_advance_def dsp_decodeBrr_def brr_end_def Let_def)

lemma mix_counters: "ring_counters (fst (fold (mix_step ram) is st)) = ring_counters (fst st)"
proof (induction "is" arbitrary: st)
  case (Cons i "is")
  then show ?case by (cases st) (simp add: Let_def)
qed simp

lemma echo_counters: "dsp_handleEcho ram l r dsp = (l', r', ram', dsp') \<Longrightarrow> ring_counters dsp' = ring_counters dsp"
  by (auto simp: dsp_handleEcho_def Let_def ring_counters_def)

lemma noise_counters [simp]: "ring_counters (dsp_handleNoise dsp) = ring_counters dsp"
  by (simp add: dsp_handleNoise_def Let_def ring_counters_def)

lemma write_counters [simp]: "ring_counters (dsp_write adr val dsp) = ring_counters dsp"
proof -
  have "ring_counters (if b then x else y) = (if b then ring_counters x else ring_counters y)" for b x y
    by simp
  then show ?thesis
    unfolding dsp_write_def Let_def channel_counters
    by (simp only: channel_counters) (simp add: ring_counters_def)
qed

definition counters_emit :: "u32 \<times> u32 \<Rightarrow> u32 \<times> u32" where
  "counters_emit c = (case c of (w, r) \<Rightarrow> (if unat (w - r) < DSP_SAMPLE_RING then w + 1 else w, r))"

lemma emit_counters: "ring_counters (dsp_emit l r dsp) = counters_emit (ring_counters dsp)"
  by (simp add: dsp_emit_def ring_counters_def counters_emit_def Let_def)

lemma cycle_counters: "ring_counters (snd (dsp_cycle ram dsp)) = counters_emit (ring_counters dsp)"
proof -
  obtain d1 tl tr where 1: "fold (mix_step ram) [0..<8] (dsp, 0, 0) = (d1, tl, tr)"
    using prod_cases3 .
  obtain ol orr ram' d2 where 2: "dsp_handleEcho ram (clamp16 (drop_bit 7 (tl * dsp_masterVolumeL d1)))
      (clamp16 (drop_bit 7 (tr * dsp_masterVolumeR d1))) d1 = (ol, orr, ram', d2)"
    using prod_cases4 .
  have even: "ring_counters (d\<lparr>dsp_evenCycle := e\<rparr>) = ring_counters d" for d e
    by (simp add: ring_counters_def)
  have "ring_counters d2 = ring_counters dsp"
    using mix_counters [of ram "[0..<8]" "(dsp, 0, 0)"] echo_counters [OF 2] by (simp add: 1 del: upt.simps)
  then show ?thesis
    unfolding dsp_cycle_def 1 by (auto simp: Let_def 2 even emit_counters split: prod.split)
qed

text \<open>What the audio processor cannot reach: the ring's counters and the cycle count.\<close>

definition apu_counters :: "apu \<Rightarrow> (u32 \<times> u32) \<times> u32" where
  "apu_counters apu = (ring_counters (apu_dsp apu), apu_cycles apu)"

lemma cpuRead_counters [simp]: "apu_counters (snd (apu_cpuRead apu adr)) = apu_counters apu"
  by (simp add: apu_cpuRead_def Let_def apu_counters_def)

lemma cpuWrite_counters [simp]: "apu_counters (apu_cpuWrite apu adr val) = apu_counters apu"
  by (simp add: apu_cpuWrite_def Let_def apu_counters_def)

interpretation spc_counters: spc_frame "\<lambda>spc. apu_counters (spc_apu spc) = c" "\<lambda>spc. apu_counters (spc_apu spc) = c" for c
  by unfold_locales simp_all

lemma runOpcode_counters: "apu_counters (spc_apu (snd (run_state spc_runOpcode spc))) = apu_counters (spc_apu spc)"
proof -
  have "keeps (\<lambda>s. apu_counters (spc_apu s) = apu_counters (spc_apu spc)) spc_runOpcode"
    unfolding spc_runOpcode_def
    by (intro keeps_rules spc_counters.fetch_ok(1) spc_counters.doOpcode_done) (simp_all add: triple_def)
  then show ?thesis by (rule tripleD) simp
qed

lemma run_spc_counters: "apu_counters (spc_apu (apu_run_spc spc)) = apu_counters (spc_apu spc)"
proof -
  have left: "apu_counters (apu\<lparr>apu_cpuCyclesLeft := n\<rparr>) = apu_counters apu" for apu n
    by (simp add: apu_counters_def)
  show ?thesis
    using runOpcode_counters [of spc] by (auto simp: apu_run_spc_def Let_def left split: prod.split)
qed

lemma drain_counters: "apu_dsp (apu_drainPortQueue apu) = apu_dsp apu \<and> apu_cycles (apu_drainPortQueue apu) = apu_cycles apu"
proof (induction apu rule: apu_drainPortQueue.induct)
  case (1 apu)
  then show ?case
    by (subst (1 2) apu_drainPortQueue.simps) (simp add: Let_def apu_applyPortWrite_def)
qed

lemma sample_counters:
  "apu_counters (apu_sample apu) = (counters_emit (ring_counters (apu_dsp apu)), apu_cycles apu)"
  using cycle_counters [of "apu_ram (apu_drainPortQueue apu)" "apu_dsp apu"] drain_counters [of apu]
  by (auto simp: apu_sample_def Let_def apu_counters_def split: prod.split)

lemma apu_cycle_counters:
  "apu_counters (spc_apu (apu_cycle spc)) = (case apu_counters (spc_apu spc) of (c, k) \<Rightarrow>
     (if k AND 0x1f = 0 then counters_emit c else c, k + 1))"
  using run_spc_counters [of spc] sample_counters [of "spc_apu (apu_run_spc spc)"]
  by (auto simp: apu_cycle_def Let_def apu_counters_def apu_tick_timers_def)

section \<open>The top-up terminates\<close>

text \<open>Cycles until the ring holds a block, less the 31 after its last sample.\<close>

definition cycles_missing :: "spc \<Rightarrow> nat" where
  "cycles_missing spc = (534 - unat (dsp_avail spc)) * 32 + (32 - unat (apu_cycles (spc_apu spc)) mod 32) mod 32"

lemma and_31: "unat (k AND 0x1f) = unat k mod 32" for k :: u32
proof -
  have "k AND 0x1f = take_bit 5 k" by (simp add: take_bit_eq_mask mask_eq_exp_minus_1)
  then show ?thesis by (simp add: take_bit_eq_mod unat_mod)
qed

lemma succ_mod_32: "unat (k + 1) mod 32 = Suc (unat k mod 32) mod 32" for k :: u32
  by (simp add: unat_word_ariths mod_mod_cancel mod_simps)

lemma apu_cycle_avail:
  assumes "unat (dsp_avail spc) < 534"
  shows "unat (dsp_avail (apu_cycle spc)) =
      unat (dsp_avail spc) + (if unat (apu_cycles (spc_apu spc)) mod 32 = 0 then 1 else 0)
    \<and> apu_cycles (spc_apu (apu_cycle spc)) = apu_cycles (spc_apu spc) + 1"
proof -
  have "unat (dsp_avail spc) < DSP_SAMPLE_RING" using assms by (simp add: DSP_SAMPLE_RING_def)
  moreover have "apu_cycles (spc_apu spc) AND 0x1f = 0 \<longleftrightarrow> unat (apu_cycles (spc_apu spc)) mod 32 = 0"
    using and_31 by (metis unat_eq_zero)
  ultimately show ?thesis
    using apu_cycle_counters [of spc] emit_fill
    by (auto simp: apu_counters_def ring_counters_def counters_emit_def dsp_avail_def)
qed

lemma apu_cycle_progress:
  assumes "unat (dsp_avail spc) < 534"
  shows "cycles_missing spc = Suc (cycles_missing (apu_cycle spc))
    \<and> unat (dsp_avail (apu_cycle spc)) \<le> 534
    \<and> (unat (dsp_avail (apu_cycle spc)) = 534 \<longrightarrow> cycles_missing (apu_cycle spc) = 31)"
proof -
  let ?k = "unat (apu_cycles (spc_apu spc)) mod 32"
  have "?k < 32" by simp
  moreover have "unat (apu_cycles (spc_apu spc) + 1) mod 32 = (if ?k = 31 then 0 else Suc ?k)"
    using \<open>?k < 32\<close> by (simp add: succ_mod_32)
  moreover have "a + 32 - k = Suc (a + 31 - k)" if "k < 32" for a k :: nat
    using that by simp
  ultimately show ?thesis
    using apu_cycle_avail [OF assms] assms
    by (cases "?k = 0"; cases "?k = 31") (auto simp: cycles_missing_def)
qed

text \<open>The state of the top-up after \<open>n\<close> cycles started from \<open>spc\<close>.\<close>

definition topping_up :: "spc \<Rightarrow> nat \<Rightarrow> spc \<Rightarrow> bool" where
  "topping_up spc n s \<longleftrightarrow> s = (apu_cycle ^^ n) spc \<and> n + cycles_missing s = cycles_missing spc
     \<and> (n = 0 \<or> unat (dsp_avail s) \<le> 534 \<and> (unat (dsp_avail s) = 534 \<longrightarrow> cycles_missing s = 31))"

lemma topping_up_step: "topping_up spc n s \<Longrightarrow> unat (dsp_avail s) < 534 \<Longrightarrow> topping_up spc (Suc n) (apu_cycle s)"
  using apu_cycle_progress [of s] by (auto simp: topping_up_def)

lemma batch_top_up: "topping_up spc n s \<Longrightarrow> \<exists>n' \<ge> n. topping_up spc n' (top_up_batch k s)"
proof (induction k arbitrary: n s)
  case (Suc k)
  show ?case
  proof (cases "dsp_avail s < 534")
    case True
    then have "topping_up spc (Suc n) (apu_cycle s)" using Suc.prems by (intro topping_up_step) (auto simp: word_less_nat_alt)
    from Suc.IH [OF this] True show ?thesis by (auto dest: Suc_leD)
  qed (use Suc.prems in auto)
qed auto

lemma batch_progress:
  assumes "topping_up spc n s" "dsp_avail s < 534"
  shows "\<exists>n' > n. topping_up spc n' (top_up_batch 256 s)"
proof -
  have "topping_up spc (Suc n) (apu_cycle s)" using assms by (intro topping_up_step) (auto simp: word_less_nat_alt)
  from batch_top_up [OF this, of 255] assms(2) show ?thesis
    by (auto simp: numeral_eq_Suc Suc_le_eq)
qed

lemma cycles_missing_bound: "unat (dsp_avail spc) < 534 \<Longrightarrow> cycles_missing spc \<le> 534 * 32 + 31"
  unfolding cycles_missing_def by (rule add_le_mono) (simp_all flip: less_Suc_eq_le)

lemma render_top_up_total:
  "\<exists>n. n \<le> 534 * 32 \<and> render_top_up spc = Some ((apu_cycle ^^ n) spc)
     \<and> unat (dsp_avail ((apu_cycle ^^ n) spc)) = max 534 (unat (dsp_avail spc))"
proof -
  let ?P = "\<lambda>s. \<exists>n. topping_up spc n s"
  have start: "?P spc" by (intro exI [of _ 0]) (simp add: topping_up_def)
  have step: "?P (top_up_batch 256 s) \<and> cycles_missing (top_up_batch 256 s) < cycles_missing s"
    if P: "?P s" and b: "dsp_avail s < 534" for s
  proof -
    obtain n n' where "topping_up spc n s" "n' > n" "topping_up spc n' (top_up_batch 256 s)"
      using P b batch_progress by blast
    then show ?thesis by (auto simp: topping_up_def)
  qed
  have "\<exists>t. render_top_up spc = Some t"
    unfolding render_top_up_def
    by (rule measure_while_option_Some [where P = ?P and f = cycles_missing]) (use step start in auto)
  then obtain t where t: "render_top_up spc = Some t" ..
  have "?P t"
  proof (rule while_option_rule [OF _ t [unfolded render_top_up_def]])
    show "?P (top_up_batch 256 s)" if "?P s" "dsp_avail s < 534" for s
      using step [OF that] by (rule conjunct1)
  qed (rule start)
  then obtain n where n: "topping_up spc n t" by auto
  have full: "\<not> dsp_avail t < 534" using t unfolding render_top_up_def by (rule while_option_stop)
  show ?thesis
  proof (cases "unat (dsp_avail spc) < 534")
    case True
    with n full have "n \<noteq> 0" by (cases n) (auto simp: topping_up_def word_less_nat_alt)
    with n full cycles_missing_bound [OF True] show ?thesis
      using True by (intro exI [of _ n]) (auto simp: topping_up_def word_less_nat_alt t)
  next
    case False
    then have "t = spc" using t unfolding render_top_up_def
      by (subst (asm) while_option_unfold) (simp add: word_less_nat_alt)
    with t False show ?thesis by (intro exI [of _ 0]) simp
  qed
qed

text \<open>
  C21. The audio callback always gets its block: from any state of the audio unit the loop that
  tops the output ring up ends, after at most \<open>534 * 32\<close> cycles, and then the ring holds at least
  534 samples, exactly 534 when it held fewer before.
\<close>

theorem render_top_up_ends:
  "\<exists>n. n \<le> 534 * 32 \<and> render_top_up spc = Some ((apu_cycle ^^ n) spc)
     \<and> unat (dsp_avail ((apu_cycle ^^ n) spc)) = max 534 (unat (dsp_avail spc))"
  by (rule render_top_up_total)

section \<open>The block handed to the audio device\<close>

lemma catchup_reach: "apu_reach spc \<Longrightarrow> apu_reach ((apu_cycle ^^ n) spc)"
  by (induction n) (simp_all add: apu_reach.cycle)

lemma getSamples_fifo:
  assumes "dsp_wf dsp" "534 \<le> length (unread dsp)" "list_all (\<lambda>l. l < 534) locations"
  shows "fst (dsp_getSamples locations dsp) = map (\<lambda>l. unread dsp ! l) locations
    \<and> unread (snd (dsp_getSamples locations dsp)) = drop 534 (unread dsp)"
proof -
  have "(dsp_sampleBuffer dsp ! ((unat (dsp_sampleRead dsp) + l) mod DSP_SAMPLE_RING * 2),
      dsp_sampleBuffer dsp ! ((unat (dsp_sampleRead dsp) + l) mod DSP_SAMPLE_RING * 2 + 1)) = unread dsp ! l"
    if "l < 534" for l
  proof -
    have "length (dsp_sampleBuffer dsp) div 2 = DSP_SAMPLE_RING" using assms(1) by (simp add: dsp_wf_def)
    moreover have "l < unat (dsp_sampleWrite dsp - dsp_sampleRead dsp)" using that assms(2) by (simp add: unread_def)
    ultimately show ?thesis by (simp add: unread_def ring_list_def stereo_def sample_ring.slot_add sample_ring.n_pos)
  qed
  moreover have "ring_list DSP_SAMPLE_RING (stereo (dsp_sampleBuffer dsp)) (dsp_sampleRead dsp + 534) (dsp_sampleWrite dsp)
      = drop 534 (unread dsp)"
    using ring_list_drop [of 534 "dsp_sampleWrite dsp" "dsp_sampleRead dsp"] assms(2) by (simp add: unread_def)
  ultimately show ?thesis
    using assms(3) by (simp add: dsp_getSamples_def Let_def unread_def list_all_iff)
qed

text \<open>
  C22. One audio callback hands out the oldest samples of the ring in order and consumes exactly
  one block: it returns for every reachable state, the samples it copies are the unread ones at
  the given resampling locations, the 534 oldest leave the ring, the rest stays queued, and the
  audio unit is again in a reachable state.
\<close>

theorem render_audio_fifo:
  assumes "apu_reach spc" "list_all (\<lambda>l. l < 534) locations"
  shows "\<exists>n samples spc' pc'. RtlRenderAudio locations (spc, pc) = Some (samples, spc', pc')
    \<and> samples = map (\<lambda>l. unread (apu_dsp (spc_apu ((apu_cycle ^^ n) spc))) ! l) locations
    \<and> unread (apu_dsp (spc_apu spc')) = drop 534 (unread (apu_dsp (spc_apu ((apu_cycle ^^ n) spc))))
    \<and> apu_reach spc'"
proof -
  obtain n where t: "render_top_up spc = Some ((apu_cycle ^^ n) spc)"
    and a: "unat (dsp_avail ((apu_cycle ^^ n) spc)) = max 534 (unat (dsp_avail spc))"
    using render_top_up_total by blast
  let ?s = "(apu_cycle ^^ n) spc" and ?d = "apu_dsp (spc_apu ((apu_cycle ^^ n) spc))"
  have r: "apu_reach ?s" by (rule catchup_reach [OF assms(1)])
  have len: "534 \<le> length (unread ?d)" using a by (simp add: unread_def dsp_avail_def)
  have "dsp_wf ?d" using apu_reach_wf [OF r] by (simp add: apu_wf_def)
  from getSamples_fifo [OF this len assms(2)] apu_reach.consume [OF r len] t show ?thesis
    by (intro exI [of _ n]) (simp add: RtlRenderAudio_def dsp_getSamples_def)
qed

theorem render_audio_fifo_witness:
  "\<exists>samples spc' pc'. RtlRenderAudio [0, 1] (apu_reset idle_spc, port_clock_init) = Some (samples, spc', pc')
     \<and> length samples = 2 \<and> apu_reach spc'"
proof -
  have r: "apu_reach (apu_reset idle_spc)" by (rule apu_reach.reset) (simp add: idle_spc_def idle_apu_def)
  obtain samples spc' pc' and n :: nat where
    "RtlRenderAudio [0, 1] (apu_reset idle_spc, port_clock_init) = Some (samples, spc', pc')" "apu_reach spc'"
    "samples = map (\<lambda>l. unread (apu_dsp (spc_apu ((apu_cycle ^^ n) (apu_reset idle_spc)))) ! l) [0, 1]"
    using render_audio_fifo [OF r, of "[0, 1]" port_clock_init] by auto
  then show ?thesis by simp
qed

end
