(* ===== verification/Rtl_Ports.thy ===== *)
theory Rtl_Ports
  imports Rtl_Apu
begin

text \<open>
  The write clock of \<open>RtlApuWrite\<close>: the window in which targets lie, the minimum distance of
  distinct values on a port, what the distance means for the values the audio processor sees, and
  where it does not carry over to them.
\<close>

section \<open>Port targets\<close>

lemma quantum_bounds: "534 \<le> unat (audio_trace_consume_quantum pc)"
  by (simp add: audio_trace_consume_quantum_def word_less_nat_alt)

lemma quantum_mult:
  assumes "k \<le> 8" "k' = (of_nat k :: u64)"
  shows "unat (k' * ucast (q :: u32)) = k * unat q"
proof -
  have "k * unat q \<le> 8 * unat q" using assms(1) by simp
  also have "\<dots> < 2 ^ 64" using unat_32[of q] by simp
  finally have "k * unat q < 18446744073709551616" by simp
  moreover have "unat (ucast q :: u64) = unat q"
    using unat_32[of q] by (simp add: unsigned_ucast_eq take_bit_nat_eq_self_iff)
  moreover have "unat k' = k" using assms by (simp add: unat_of_nat take_bit_nat_eq_self_iff)
  ultimately show ?thesis by (simp add: unat_word_ariths)
qed

text \<open>A sum of 64-bit counters that does not wrap.\<close>

lemma unat_add64: "unat a + unat b < 18446744073709551616 \<Longrightarrow> unat (a + b) = unat a + unat b" for a b :: u64
  by (simp add: unat_word_ariths)

lemma clock_target_window:
  assumes "unat produced + 8 * unat (audio_trace_consume_quantum pc) < 2 ^ 64"
  shows "unat produced \<le> unat (clock_target produced now pc)
    \<and> unat (clock_target produced now pc) \<le> unat produced + 3 * unat (audio_trace_consume_quantum pc)"
proof -
  let ?q = "audio_trace_consume_quantum pc"
  have "unat (produced + 3 * ucast ?q) = unat produced + 3 * unat ?q"
    using assms quantum_mult [of 3 3 ?q] by (subst unat_add64) auto
  then show ?thesis by (auto simp: clock_target_def Let_def word_less_nat_alt)
qed

lemma dwell_target_window:
  assumes "unat produced + 8 * unat (audio_trace_consume_quantum pc) < 2 ^ 64"
    and "unat (pc_last_target pc ! p) + 128 < 2 ^ 64"
    and "unat produced \<le> unat target" "unat target \<le> unat produced + 8 * unat (audio_trace_consume_quantum pc)"
  shows "unat produced \<le> unat (dwell_target produced p val pc target)
    \<and> unat (dwell_target produced p val pc target) \<le> unat produced + 8 * unat (audio_trace_consume_quantum pc)
    \<and> (pc_last_valid pc ! p \<and> val \<noteq> pc_last_val pc ! p \<longrightarrow>
       min (unat (pc_last_target pc ! p) + 128) (unat produced + 8 * unat (audio_trace_consume_quantum pc))
         \<le> unat (dwell_target produced p val pc target))"
proof -
  let ?q = "audio_trace_consume_quantum pc"
  have "unat (produced + 8 * ucast ?q) = unat produced + 8 * unat ?q"
    using assms quantum_mult [of 8 8 ?q] by (subst unat_add64) auto
  moreover have "unat (pc_last_target pc ! p + APU_PORT_MIN_DWELL) = unat (pc_last_target pc ! p) + 128"
    using assms by (subst unat_add64) (simp_all add: APU_PORT_MIN_DWELL_def)
  ultimately show ?thesis using assms(3,4) by (auto simp: dwell_target_def Let_def word_less_nat_alt)
qed

text \<open>
  The target sample of a port write never lies in the past of the audio unit and at most
  eight audio blocks ahead, and a value that differs from the last one on its port is scheduled at
  least 128 samples, one poll of the sound engine, after it, unless that would pass the bound of
  eight blocks.
\<close>

theorem rtl_port_target:
  assumes "unat produced + 8 * unat (audio_trace_consume_quantum pc) < 2 ^ 64"
    and "unat (pc_last_target pc ! p) + 128 < 2 ^ 64"
  shows "let target = fst (port_schedule produced now p val pc);
             bound = unat produced + 8 * unat (audio_trace_consume_quantum pc) in
    unat produced \<le> unat target \<and> unat target \<le> bound
    \<and> (pc_last_valid pc ! p \<and> val \<noteq> pc_last_val pc ! p \<longrightarrow> min (unat (pc_last_target pc ! p) + 128) bound \<le> unat target)"
  using dwell_target_window [OF assms, of "clock_target produced now pc" val] clock_target_window [OF assms(1), of now]
  by (simp add: port_schedule_def Let_def)

theorem rtl_port_target_witness:
  "let pc = snd (port_schedule 1000 5 0 1 port_clock_init) in
    1128 \<le> unat (fst (port_schedule 1000 5 0 2 pc))"
  using rtl_port_target [of 1000 "snd (port_schedule 1000 5 0 1 port_clock_init)" 0 5 2]
  by (simp add: port_schedule_def dwell_target_def clock_target_def port_clock_init_def Let_def
      audio_trace_consume_quantum_def APU_PORT_MIN_DWELL_def)

section \<open>Dwell\<close>

lemma fold_port_apply_other:
  "list_all (\<lambda>w. pw_port w AND 3 \<noteq> p) ws \<Longrightarrow> fold port_apply ws ports ! unat p = ports ! unat p"
  by (induction ws arbitrary: ports) (auto simp: port_apply_def word_unat_eq_iff)

lemma length_fold_port_apply [simp]: "length (fold port_apply ws ports) = length ports"
  by (induction ws arbitrary: ports) simp_all

lemma and_3_less: "unat (p AND 3) < 4" for p :: u8
proof -
  have "p AND 3 = take_bit 2 p" by (simp add: take_bit_eq_mask mask_eq_exp_minus_1)
  then show ?thesis by (simp add: take_bit_eq_mod unat_mod)
qed

lemma takeWhile_upto_dwell:
  assumes "list_all P (xs @ [a])" "list_all (\<lambda>w. \<not> P w) zs"
  shows "takeWhile P (xs @ a # ys @ zs) = xs @ a # takeWhile P ys"
proof -
  have "takeWhile P zs = []" using assms(2) by (cases zs) simp_all
  moreover have "takeWhile P (ys @ zs) = takeWhile P ys @ (if list_all P ys then takeWhile P zs else [])"
    by (induction ys) simp_all
  moreover have "takeWhile P (xs @ a # ys @ zs) = xs @ a # takeWhile P (ys @ zs)"
    using assms(1) by (simp add: takeWhile_append2 list_all_iff)
  ultimately show ?thesis by simp
qed

text \<open>
  C23. With the targets of the queue in order, a scheduled value stands on its port for its whole
  dwell: at every sample from its target up to the target of the next write to that port, the
  drained port holds that value. A dwell of 128 samples is 128 samples of visibility.
\<close>

theorem apu_port_dwell:
  assumes "pending apu = xs @ a # ys @ zs" "sorted (map pw_target_sample (pending apu))"
    and "list_all (\<lambda>w. pw_port w AND 3 \<noteq> pw_port a AND 3) ys" "length (apu_inPorts apu) = 6"
    and "pw_target_sample a \<le> n" "list_all (\<lambda>w. n < pw_target_sample w) zs"
  shows "apu_inPorts (apu_drainPortQueue (apu\<lparr>apu_produced := n\<rparr>)) ! unat (pw_port a AND 3) = pw_val a"
proof -
  have "list_all (due n) (xs @ [a])"
    using assms(2,5) unfolding assms(1) by (auto simp: list_all_iff due_def sorted_append intro: order.trans)
  moreover have "list_all (\<lambda>w. \<not> due n w) zs" using assms(6) by (simp add: list_all_iff due_def not_le)
  ultimately have t: "takeWhile (due n) (xs @ a # ys @ zs) = xs @ a # takeWhile (due n) ys"
    by (rule takeWhile_upto_dwell)
  have "list_all (\<lambda>w. pw_port w AND 3 \<noteq> pw_port a AND 3) (takeWhile (due n) ys)"
    using assms(3) by (auto simp: list_all_iff dest: set_takeWhileD)
  moreover have "pending (apu\<lparr>apu_produced := n\<rparr>) = pending apu" by (simp add: pending_def)
  ultimately show ?thesis
    using drain_abs [of "apu\<lparr>apu_produced := n\<rparr>"] and_3_less[of "pw_port a"] assms(1,4)
    by (simp add: port_abs_def spec_drain_def t fold_port_apply_other)
      (simp add: port_apply_def)
qed

theorem apu_port_dwell_witness:
  "apu_inPorts (apu_drainPortQueue (idle_apu\<lparr>apu_portQueue := \<lparr>pw_target_sample = 10, pw_port = 0, pw_val = 7\<rparr>
     # \<lparr>pw_target_sample = 138, pw_port = 0, pw_val = 8\<rparr> # replicate 126 \<lparr>pw_target_sample = 0, pw_port = 0, pw_val = 0\<rparr>, apu_portQTail := 2, apu_produced := 137\<rparr>)) ! 0 = 7"
proof -
  let ?a = "\<lparr>pw_target_sample = 10, pw_port = 0, pw_val = 7\<rparr>" and ?b = "\<lparr>pw_target_sample = 138, pw_port = 0, pw_val = 8\<rparr>"
  let ?apu = "idle_apu\<lparr>apu_portQueue := ?a # ?b # replicate 126 \<lparr>pw_target_sample = 0, pw_port = 0, pw_val = 0\<rparr>, apu_portQTail := 2\<rparr>"
  have "pending ?apu = [] @ ?a # [] @ [?b]"
    by (simp add: pending_def ring_list_def idle_apu_def APU_PORT_QUEUE_LEN_def upt_conv_Cons)
  from apu_port_dwell [OF this, of 137] show ?thesis
    by (simp add: idle_apu_def pending_def ring_list_def APU_PORT_QUEUE_LEN_def upt_conv_Cons)
qed

section \<open>A burst across two ports\<close>

text \<open>Writes made at one moment, with no cycles of the audio unit between them.\<close>

definition rtl_burst :: "(u16 \<times> u8) list \<Rightarrow> spc \<times> port_clock \<Rightarrow> (spc \<times> port_clock) option" where
  "rtl_burst ws st = fold (\<lambda>(adr, val) st. case st of None \<Rightarrow> None
     | Some st \<Rightarrow> RtlApuWrite \<lparr>tc_cycles = 0, tc_now_ns = 5\<rparr> adr val st) ws (Some st)"

text \<open>The entries such a burst queues.\<close>

primrec burst_queue :: "u64 \<Rightarrow> (u16 \<times> u8) list \<Rightarrow> port_clock \<Rightarrow> apu_port_write list" where
  "burst_queue produced [] pc = []"
| "burst_queue produced (w # ws) pc =
     (case port_schedule produced 5 (unat (fst w AND 3)) (snd w) pc of (target, pc') \<Rightarrow>
        \<lparr>pw_target_sample = target, pw_port = ucast (fst w AND 3), pw_val = snd w\<rparr> # burst_queue produced ws pc')"

lemma port_bits: "(ucast (adr AND 3) :: u8) AND 3 = ucast (adr AND 3)" for adr :: u16
  by (rule bit_word_eqI) (auto simp: bit_simps)

lemma write_queued:
  assumes "queue_wf (spc_apu spc)" "length (pending (spc_apu spc)) < APU_PORT_QUEUE_LEN" "0x2140 \<le> adr" "adr \<le> 0x2143"
    and "port_schedule (apu_produced (spc_apu spc)) 5 (unat (adr AND 3)) val pc = (target, pc')"
  shows "\<exists>spc'. RtlApuWrite \<lparr>tc_cycles = 0, tc_now_ns = 5\<rparr> adr val (spc, pc) = Some (spc', pc')
    \<and> port_abs (spc_apu spc') = (apu_inPorts (spc_apu spc), pending (spc_apu spc) @
        [\<lparr>pw_target_sample = target, pw_port = ucast (adr AND 3), pw_val = val\<rparr>])
    \<and> queue_wf (spc_apu spc') \<and> apu_produced (spc_apu spc') = apu_produced (spc_apu spc)"
  using assms schedule_abs [OF assms(1), of "ucast (adr AND 3)" val target] port_bits[of adr]
  by (simp add: RtlApuWrite_def snes_catchupApu_def Let_def port_abs_def spec_schedule_def)
    (simp add: apu_schedulePortWrite_def Let_def)

lemma burst_queued:
  assumes "queue_wf (spc_apu spc)" "length (pending (spc_apu spc)) + length ws \<le> APU_PORT_QUEUE_LEN"
    and "list_all (\<lambda>w. 0x2140 \<le> fst w \<and> fst w \<le> 0x2143) ws"
  shows "\<exists>spc' pc'. rtl_burst ws (spc, pc) = Some (spc', pc') \<and> port_abs (spc_apu spc') =
    (apu_inPorts (spc_apu spc), pending (spc_apu spc) @ burst_queue (apu_produced (spc_apu spc)) ws pc)"
  using assms
proof (induction ws arbitrary: spc pc)
  case Nil
  then show ?case by (simp add: rtl_burst_def port_abs_def)
next
  case (Cons w ws)
  obtain target pc' where s: "port_schedule (apu_produced (spc_apu spc)) 5 (unat (fst w AND 3)) (snd w) pc = (target, pc')"
    by fastforce
  obtain spc' where s': "RtlApuWrite \<lparr>tc_cycles = 0, tc_now_ns = 5\<rparr> (fst w) (snd w) (spc, pc) = Some (spc', pc')"
    "port_abs (spc_apu spc') = (apu_inPorts (spc_apu spc), pending (spc_apu spc) @
        [\<lparr>pw_target_sample = target, pw_port = ucast (fst w AND 3), pw_val = snd w\<rparr>])"
    "queue_wf (spc_apu spc')" "apu_produced (spc_apu spc') = apu_produced (spc_apu spc)"
    using write_queued [OF Cons.prems(1) _ _ _ s] Cons.prems by auto
  have "length (pending (spc_apu spc')) + length ws \<le> APU_PORT_QUEUE_LEN"
    using s'(2) Cons.prems(2) by (simp add: port_abs_def)
  from Cons.IH [OF s'(3) this, of pc'] Cons.prems(3) s s' show ?case
    by (auto simp: rtl_burst_def port_abs_def case_prod_beta)
qed

definition burst_writes :: "(u16 \<times> u8) list" where
  "burst_writes =
     [(0x2140, 1), (0x2140, 2), (0x2140, 3), (0x2140, 4), (0x2140, 5), (0x2140, 6), (0x2140, 7), (0x2140, 8),
      (0x2140, 9), (0x2140, 10), (0x2140, 11), (0x2140, 12), (0x2140, 13), (0x2140, 14), (0x2140, 15),
      (0x2141, 1), (0x2141, 2)]"

text \<open>The write clock after a write of \<open>v\<close> to port 0 at target \<open>t\<close>.\<close>

definition burst_clock :: "u64 \<Rightarrow> u8 \<Rightarrow> port_clock" where
  "burst_clock t v = \<lparr>pc_clock = t, pc_clock_ns = 5, pc_last_target = [t, 0, 0, 0], pc_last_val = [v, 0, 0, 0],
     pc_last_valid = [True, False, False, False], pc_max_consume_chunk = 0\<rparr>"

lemmas port_schedule_defs = port_schedule_def dwell_target_def clock_target_def port_clock_init_def
  audio_trace_consume_quantum_def APU_PORT_MIN_DWELL_def burst_clock_def

lemma burst_first: "port_schedule 0 5 0 1 port_clock_init = (0, burst_clock 0 1)"
  by (simp add: port_schedule_defs Let_def numeral_eq_Suc)

lemma burst_next:
  assumes "t \<le> 1664" "v' \<noteq> v"
  shows "port_schedule 0 5 0 v' (burst_clock t v) = (t + 128, burst_clock (t + 128) v')"
proof -
  have "unat (t + 128) = unat t + 128" using assms(1) by (subst unat_add64) (simp_all add: word_le_nat_alt)
  then have "t < t + 128" "t + 128 < 4272" "1602 < t \<Longrightarrow> 1602 < t + 128"
    using assms(1) by (simp_all add: word_less_nat_alt word_le_nat_alt)
  then show ?thesis using assms(2) by (simp add: port_schedule_defs Let_def)
qed

lemma burst_targets: "burst_queue 0 burst_writes port_clock_init =
   map (\<lambda>(t, v). \<lparr>pw_target_sample = t, pw_port = 0, pw_val = v\<rparr>)
     [(0, 1), (128, 2), (256, 3), (384, 4), (512, 5), (640, 6), (768, 7), (896, 8), (1024, 9), (1152, 10), (1280, 11),
      (1408, 12), (1536, 13), (1664, 14)] @
   [\<lparr>pw_target_sample = 1792, pw_port = 0, pw_val = 15\<rparr>, \<lparr>pw_target_sample = 1602, pw_port = 1, pw_val = 1\<rparr>,
    \<lparr>pw_target_sample = 1730, pw_port = 1, pw_val = 2\<rparr>]"
  by (simp add: burst_writes_def burst_first burst_next) (simp add: port_schedule_defs Let_def)

lemma takeWhile_stops: "\<not> P w \<Longrightarrow> set (takeWhile P (xs @ w # ys)) \<subseteq> set xs"
  by (induction xs) auto

lemma burst_port_1:
  "fst (spec_drain n (replicate 6 0, burst_queue 0 burst_writes port_clock_init)) ! 1 = (if n < 1792 then 0 else 2)"
proof (cases "n < 1792")
  case True
  then have "\<not> due n \<lparr>pw_target_sample = 1792, pw_port = 0, pw_val = 15\<rparr>" by (simp add: due_def not_le)
  note early = takeWhile_stops [where P = "due n", OF this]
  have "list_all (\<lambda>w. pw_port w AND 3 \<noteq> 1) (takeWhile (due n) (burst_queue 0 burst_writes port_clock_init))"
    unfolding burst_targets list_all_iff by (intro ballI, drule subsetD [OF early]) auto
  from fold_port_apply_other [OF this] True show ?thesis by (simp add: spec_drain_def)
next
  case False
  then have all: "\<forall>w \<in> set (burst_queue 0 burst_writes port_clock_init). due n w"
    unfolding burst_targets by (auto simp: due_def not_less intro: order.trans [of _ 1792])
  then have "takeWhile (due n) (burst_queue 0 burst_writes port_clock_init) = burst_queue 0 burst_writes port_clock_init"
    by (simp add: takeWhile_eq_all_conv)
  then show ?thesis using False by (simp add: spec_drain_def burst_targets port_apply_def)
qed

text \<open>
  C24. The dwell is a distance between targets, not between the moments values appear: after
  fifteen distinct values written to port 0 in one burst, the next write to port 1 is capped at
  three blocks, before the last target of port 0. It waits behind that entry, and so does the
  following write to port 1; both are applied at the same sample, and the first value is never
  visible to the sound engine, at whatever sample the port is looked at.
\<close>

theorem rtl_burst_hides_value:
  "\<exists>spc pc. rtl_burst burst_writes (idle_spc, port_clock_init) = Some (spc, pc) \<and>
    (\<forall>n. apu_inPorts (apu_drainPortQueue ((spc_apu spc)\<lparr>apu_produced := n\<rparr>)) ! 1 = (if n < 1792 then 0 else 2))"
proof -
  have q: "queue_wf (spc_apu idle_spc)" "pending (spc_apu idle_spc) = []" "apu_inPorts (spc_apu idle_spc) = replicate 6 0"
    "apu_produced (spc_apu idle_spc) = 0"
    by (simp_all add: idle_spc_def idle_apu_def queue_wf_def pending_def ring_list_def)
  obtain spc pc where b: "rtl_burst burst_writes (idle_spc, port_clock_init) = Some (spc, pc)"
    and p: "port_abs (spc_apu spc) = (replicate 6 0, burst_queue 0 burst_writes port_clock_init)"
    using burst_queued [of idle_spc burst_writes port_clock_init] q
    by (auto simp: burst_writes_def APU_PORT_QUEUE_LEN_def)
  have "apu_inPorts (apu_drainPortQueue ((spc_apu spc)\<lparr>apu_produced := n\<rparr>)) ! 1 = (if n < 1792 then 0 else 2)" for n
  proof -
    have "fst (port_abs (apu_drainPortQueue ((spc_apu spc)\<lparr>apu_produced := n\<rparr>)))
        = fst (spec_drain n (replicate 6 0, burst_queue 0 burst_writes port_clock_init))"
      using p by (simp add: drain_abs) (simp add: port_abs_def pending_def)
    then show ?thesis using burst_port_1 [of n] by (simp add: port_abs_def)
  qed
  with b show ?thesis by blast
qed

end
