(* ===== verification/Dma_Regs.thy ===== *)
theory Dma_Regs
  imports Snes_Prelude
begin

text \<open>
  The DMA controller of \<open>snes/dma.c\<close>: its eight channels, the register file at \<open>$43x0\<close> to
  \<open>$43xf\<close>, reset and start. The transfers themselves need the bus and are in theory \<open>Snes_Bus\<close>.
\<close>

record dma_channel =
  dc_bAdr :: u8
  dc_aAdr :: u16
  dc_aBank :: u8
  dc_size :: u16
  dc_indBank :: u8
  dc_tableAdr :: u16
  dc_repCount :: u8
  dc_unusedByte :: u8
  dc_dmaActive :: bool
  dc_hdmaActive :: bool
  dc_mode :: u8
  dc_fixed :: bool
  dc_decrement :: bool
  dc_indirect :: bool
  dc_fromB :: bool
  dc_unusedBit :: bool
  dc_doTransfer :: bool
  dc_terminated :: bool
  dc_offIndex :: u8

record dma =
  dma_channels :: "dma_channel list"
  dma_dmaTimer :: u32
  dma_dmaBusy :: bool

definition bAdrOffsets :: "u8 list list" where
  "bAdrOffsets =
    [[0, 0, 0, 0], [0, 1, 0, 1], [0, 0, 0, 0], [0, 0, 1, 1],
     [0, 1, 2, 3], [0, 1, 0, 1], [0, 0, 0, 0], [0, 0, 1, 1]]"

definition dma_channel_reset :: dma_channel where
  "dma_channel_reset =
     \<lparr>dc_bAdr = 0xff, dc_aAdr = 0xffff, dc_aBank = 0xff, dc_size = 0xffff, dc_indBank = 0xff,
      dc_tableAdr = 0xffff, dc_repCount = 0xff, dc_unusedByte = 0xff, dc_dmaActive = False,
      dc_hdmaActive = False, dc_mode = 7, dc_fixed = True, dc_decrement = True, dc_indirect = True,
      dc_fromB = True, dc_unusedBit = True, dc_doTransfer = False, dc_terminated = False,
      dc_offIndex = 0\<rparr>"

definition dma_reset :: dma where
  "dma_reset = \<lparr>dma_channels = replicate 8 dma_channel_reset, dma_dmaTimer = 0, dma_dmaBusy = False\<rparr>"

text \<open>The channel \<open>(adr & 0x70) >> 4\<close> of a register address.\<close>

definition dma_channel_of :: "u16 \<Rightarrow> nat" where
  "dma_channel_of adr = unat (drop_bit 4 (adr AND 0x70))"

definition dma_control :: "dma_channel \<Rightarrow> u8" where
  "dma_control c = dc_mode c OR push_bit 3 (of_bool (dc_fixed c)) OR push_bit 4 (of_bool (dc_decrement c))
     OR push_bit 5 (of_bool (dc_unusedBit c)) OR push_bit 6 (of_bool (dc_indirect c))
     OR push_bit 7 (of_bool (dc_fromB c))"

definition dma_read :: "dma \<Rightarrow> u16 \<Rightarrow> u8" where
  "dma_read dma adr =
     (let c = dma_channels dma ! dma_channel_of adr; r = adr AND 0xf in
      if r = 0 then dma_control c
      else if r = 1 then dc_bAdr c
      else if r = 2 then lo8 (dc_aAdr c)
      else if r = 3 then hi8 (dc_aAdr c)
      else if r = 4 then dc_aBank c
      else if r = 5 then lo8 (dc_size c)
      else if r = 6 then hi8 (dc_size c)
      else if r = 7 then dc_indBank c
      else if r = 8 then lo8 (dc_tableAdr c)
      else if r = 9 then hi8 (dc_tableAdr c)
      else if r = 0xa then dc_repCount c
      else if r = 0xb \<or> r = 0xf then dc_unusedByte c
      else 0)"

text \<open>The low byte of a 16-bit register replaced, and the high byte.\<close>

definition put_lo :: "u16 \<Rightarrow> u8 \<Rightarrow> u16" where
  "put_lo w v = (w AND 0xff00) OR ucast v"

definition put_hi :: "u16 \<Rightarrow> u8 \<Rightarrow> u16" where
  "put_hi w v = (w AND 0xff) OR push_bit 8 (ucast v)"

definition dma_channel_write :: "u16 \<Rightarrow> u8 \<Rightarrow> dma_channel \<Rightarrow> dma_channel" where
  "dma_channel_write r val c =
     (if r = 0 then c\<lparr>dc_mode := val AND 7, dc_fixed := tst val 0x8, dc_decrement := tst val 0x10,
        dc_unusedBit := tst val 0x20, dc_indirect := tst val 0x40, dc_fromB := tst val 0x80\<rparr>
      else if r = 1 then c\<lparr>dc_bAdr := val\<rparr>
      else if r = 2 then c\<lparr>dc_aAdr := put_lo (dc_aAdr c) val\<rparr>
      else if r = 3 then c\<lparr>dc_aAdr := put_hi (dc_aAdr c) val\<rparr>
      else if r = 4 then c\<lparr>dc_aBank := val\<rparr>
      else if r = 5 then c\<lparr>dc_size := put_lo (dc_size c) val\<rparr>
      else if r = 6 then c\<lparr>dc_size := put_hi (dc_size c) val\<rparr>
      else if r = 7 then c\<lparr>dc_indBank := val\<rparr>
      else if r = 8 then c\<lparr>dc_tableAdr := put_lo (dc_tableAdr c) val\<rparr>
      else if r = 9 then c\<lparr>dc_tableAdr := put_hi (dc_tableAdr c) val\<rparr>
      else if r = 0xa then c\<lparr>dc_repCount := val\<rparr>
      else if r = 0xb \<or> r = 0xf then c\<lparr>dc_unusedByte := val\<rparr>
      else c)"

definition dma_write :: "u16 \<Rightarrow> u8 \<Rightarrow> dma \<Rightarrow> dma" where
  "dma_write adr val dma =
     (let i = dma_channel_of adr in
      dma\<lparr>dma_channels := (dma_channels dma)[i := dma_channel_write (adr AND 0xf) val (dma_channels dma ! i)]\<rparr>)"

definition dma_startDma :: "u8 \<Rightarrow> bool \<Rightarrow> dma \<Rightarrow> dma" where
  "dma_startDma val hdma dma =
     (let dma = dma\<lparr>dma_channels := map2 (\<lambda>i c. if hdma then c\<lparr>dc_hdmaActive := bit val i\<rparr>
            else c\<lparr>dc_dmaActive := bit val i\<rparr>) [0..<length (dma_channels dma)] (dma_channels dma)\<rparr>
      in if hdma then dma
         else dma\<lparr>dma_dmaBusy := (val \<noteq> 0), dma_dmaTimer := dma_dmaTimer dma + (if val \<noteq> 0 then 16 else 0)\<rparr>)"

section \<open>The register file\<close>

definition dma_wf :: "dma \<Rightarrow> bool" where
  "dma_wf dma \<longleftrightarrow> length (dma_channels dma) = 8 \<and> (\<forall>c \<in> set (dma_channels dma). dc_mode c < 8 \<and> dc_offIndex c < 4)"

lemma channel_of_less: "dma_channel_of adr < 8"
proof -
  have m: "(0x70 :: u16) = push_bit 4 (mask 3)" by (simp add: mask_eq_exp_minus_1 push_bit_eq_mult)
  have "drop_bit 4 (adr AND 0x70) = take_bit 3 (drop_bit 4 adr)"
    unfolding m by (rule bit_word_eqI) (auto simp: bit_simps)
  then show ?thesis by (simp add: dma_channel_of_def take_bit_eq_mod unat_mod)
qed

lemma put_word16: "put_lo w v = word16 v (hi8 w)" "put_hi w v = word16 (lo8 w) v"
proof -
  have m: "(0xff00 :: u16) = push_bit 8 (mask 8)" "(0xff :: u16) = mask 8"
    by (simp_all add: mask_eq_exp_minus_1 push_bit_eq_mult)
  show "put_lo w v = word16 v (hi8 w)"
    unfolding put_lo_def m by (rule bit_word_eqI) (auto simp: word16_def hi8_def bit_simps dest: bit_imp_le_length)
  show "put_hi w v = word16 (lo8 w) v"
    unfolding put_hi_def m by (rule bit_word_eqI) (auto simp: word16_def lo8_def bit_simps)
qed

lemma bit_and_7: "bit (val AND 7) n \<longleftrightarrow> bit val n \<and> n < 3" for val :: u8
proof -
  have "(7 :: u8) = mask 3" by (simp add: mask_eq_exp_minus_1)
  then show ?thesis by (simp only: bit_and_iff bit_mask_iff) (auto dest: bit_imp_le_length)
qed

lemma bit_dma_control:
  "bit (dma_control c) n \<longleftrightarrow> bit (dc_mode c) n \<or> n = 3 \<and> dc_fixed c \<or> n = 4 \<and> dc_decrement c
    \<or> n = 5 \<and> dc_unusedBit c \<or> n = 6 \<and> dc_indirect c \<or> n = 7 \<and> dc_fromB c"
  by (simp only: dma_control_def bit_or_iff bit_push_of_bool disj_assoc) simp

lemma control_byte: "dma_control (dma_channel_write 0 val c) = val"
proof (rule bit_word_eqI)
  fix n assume "n < LENGTH(8)"
  then have "n = 7 \<or> n = 6 \<or> n = 5 \<or> n = 4 \<or> n = 3 \<or> n < 3" by auto
  then show "bit (dma_control (dma_channel_write 0 val c)) n = bit val n"
    by (elim disjE) (simp_all add: bit_dma_control bit_and_7 dma_channel_write_def)
qed

lemma small_offset: "w \<le> 0xb \<longleftrightarrow> w \<in> set [0xb, 0xa, 9, 8, 7, 6, 5, 4, 3, 2, 1, 0]" for w :: u16
proof -
  have "n \<le> 11 \<longleftrightarrow> n \<in> set [11, 10, 9, 8, 7, 6, 5, 4, 3, 2, 1, 0]" for n :: nat
    unfolding list.set by (auto simp: numeral_eq_Suc le_Suc_eq)
  from this[of "unat w"] show ?thesis by (simp add: word_le_nat_alt word_unat_eq_iff)
qed

text \<open>Register offsets that exist.\<close>

definition dma_reg_exists :: "u16 \<Rightarrow> bool" where
  "dma_reg_exists adr \<longleftrightarrow> adr AND 0xf \<le> 0xb \<or> adr AND 0xf = 0xf"

lemma channel_write_regs:
  "dma_channel_of adr' \<noteq> dma_channel_of adr \<Longrightarrow> dma_read (dma_write adr val dma) adr' = dma_read dma adr'"
  by (simp add: dma_read_def dma_write_def Let_def)

text \<open>
  C14. Every DMA register that exists reads back the byte last written to it, in all eight
  channels, and a write to a register of one channel changes no register of another; registers
  that do not exist ignore writes and read zero.
\<close>

theorem dma_registers:
  assumes "length (dma_channels dma) = 8"
  shows "dma_read (dma_write adr val dma) adr = (if dma_reg_exists adr then val else 0) \<and>
    (dma_channel_of adr' \<noteq> dma_channel_of adr \<longrightarrow> dma_read (dma_write adr val dma) adr' = dma_read dma adr')"
proof -
  have c: "dma_channels (dma_write adr val dma) ! dma_channel_of adr =
      dma_channel_write (adr AND 0xf) val (dma_channels dma ! dma_channel_of adr)"
    using assms channel_of_less[of adr] by (simp add: dma_write_def Let_def)
  have "dma_read (dma_write adr val dma) adr = (if dma_reg_exists adr then val else 0)"
    unfolding dma_read_def c Let_def dma_reg_exists_def
    using control_byte[of val "dma_channels dma ! dma_channel_of adr"]
    by (auto simp: small_offset dma_channel_write_def put_word16)
  then show ?thesis by (simp add: channel_write_regs)
qed

theorem dma_registers_witness:
  "dma_read (dma_write 0x4300 0x09 dma_reset) 0x4300 = 0x09"
proof -
  have "length (dma_channels dma_reset) = 8" by (simp add: dma_reset_def)
  from dma_registers [OF this, of "0x4300" "0x09"] show ?thesis by (simp add: dma_reg_exists_def)
qed

section \<open>Well-formedness\<close>

lemma channel_write_wf: "dc_mode c < 8 \<and> dc_offIndex c < 4 \<Longrightarrow>
    dc_mode (dma_channel_write r val c) < 8 \<and> dc_offIndex (dma_channel_write r val c) < 4"
proof -
  have "val AND 7 = take_bit 3 val" by (simp add: take_bit_eq_mask mask_eq_exp_minus_1)
  then have "val AND 7 < 8" by (simp add: word_less_nat_alt take_bit_eq_mod unat_mod)
  then show "dc_mode c < 8 \<and> dc_offIndex c < 4 \<Longrightarrow> ?thesis" by (simp add: dma_channel_write_def)
qed

lemma dma_write_wf: "dma_wf dma \<Longrightarrow> dma_wf (dma_write adr val dma)"
  using channel_write_wf[of "dma_channels dma ! dma_channel_of adr"] channel_of_less[of adr]
  by (auto simp: dma_wf_def dma_write_def Let_def dest!: set_update_subset_insert [THEN subsetD])

lemma dma_start_wf: "dma_wf dma \<Longrightarrow> dma_wf (dma_startDma val h dma)"
  by (auto simp: dma_wf_def dma_startDma_def Let_def set_zip)

lemma dma_reset_wf: "dma_wf dma_reset"
  by (simp add: dma_wf_def dma_reset_def dma_channel_reset_def)

end
