(* ===== verification/Ppu_Regs.thy ===== *)
theory Ppu_Regs
  imports Dma_Regs
begin

text \<open>
  The register interface of the picture processor, \<open>ppu_read\<close> and \<open>ppu_write\<close> of
  \<open>snes/ppu.c\<close>, with the memories behind it (VRAM, palette, sprite tables). The line renderer
  and the fields only it uses are not part of the record. A failed \<open>assert\<close> is \<open>None\<close>. The
  arrays indexed by a byte, or by a 16-bit address with its top bit masked off, are functions.
\<close>

record ppu =
  ppu_inidisp :: u8
  ppu_obsel :: u8
  ppu_oamaddl :: u8
  ppu_oamaddh :: u8
  ppu_bgmode :: u8
  ppu_mosaic :: u8
  ppu_bgXsc :: "u8 list"
  ppu_bgTileAdr :: u16
  ppu_m7sel :: u8
  ppu_setini :: u8
  ppu_hScroll :: "u16 list"
  ppu_vScroll :: "u16 list"
  ppu_m7matrix :: "u16 list"
  ppu_fixedColor :: u16
  ppu_windowsel :: u32
  ppu_window1left :: u8
  ppu_window1right :: u8
  ppu_window2left :: u8
  ppu_window2right :: u8
  ppu_wbgobjlog :: u16
  ppu_screenEnabled :: "u8 list"
  ppu_screenWindowed :: "u8 list"
  ppu_cgadsub :: u8
  ppu_cgwsel :: u8
  ppu_vramPointer :: u16
  ppu_vramIncrementOnHigh :: bool
  ppu_vramRemapMode :: u8
  ppu_vramIncrement :: u8
  ppu_vramReadBuffer :: u16
  ppu_cgramPointer :: u8
  ppu_cgramSecondWrite :: bool
  ppu_cgramBuffer :: u8
  ppu_oamAdr :: u8
  ppu_oamInHigh :: bool
  ppu_oamSecondWrite :: bool
  ppu_oamBuffer :: u8
  ppu_timeOver :: bool
  ppu_rangeOver :: bool
  ppu_scrollPrev :: u8
  ppu_scrollPrev2 :: u8
  ppu_mosaicStartLine :: u8
  ppu_m7prev :: u8
  ppu_evenFrame :: bool
  ppu_hCount :: u16
  ppu_vCount :: u16
  ppu_hCountSecond :: bool
  ppu_vCountSecond :: bool
  ppu_countersLatched :: bool
  ppu_cgram :: "u8 \<Rightarrow> u16"
  ppu_oam :: "u8 \<Rightarrow> u16"
  ppu_highOam :: "u8 \<Rightarrow> u8"
  ppu_vram :: "u16 \<Rightarrow> u16"

definition ppu_reset :: ppu where
  "ppu_reset =
     \<lparr>ppu_inidisp = 0, ppu_obsel = 0, ppu_oamaddl = 0, ppu_oamaddh = 0, ppu_bgmode = 0, ppu_mosaic = 0,
      ppu_bgXsc = replicate 4 0, ppu_bgTileAdr = 0, ppu_m7sel = 0, ppu_setini = 0,
      ppu_hScroll = replicate 4 0, ppu_vScroll = replicate 4 0, ppu_m7matrix = replicate 8 0,
      ppu_fixedColor = 0, ppu_windowsel = 0, ppu_window1left = 0, ppu_window1right = 0,
      ppu_window2left = 0, ppu_window2right = 0, ppu_wbgobjlog = 0,
      ppu_screenEnabled = replicate 2 0, ppu_screenWindowed = replicate 2 0, ppu_cgadsub = 0, ppu_cgwsel = 0,
      ppu_vramPointer = 0, ppu_vramIncrementOnHigh = False, ppu_vramRemapMode = 0, ppu_vramIncrement = 1,
      ppu_vramReadBuffer = 0, ppu_cgramPointer = 0, ppu_cgramSecondWrite = False, ppu_cgramBuffer = 0,
      ppu_oamAdr = 0, ppu_oamInHigh = False, ppu_oamSecondWrite = False, ppu_oamBuffer = 0,
      ppu_timeOver = False, ppu_rangeOver = False, ppu_scrollPrev = 0, ppu_scrollPrev2 = 0,
      ppu_mosaicStartLine = 0, ppu_m7prev = 0, ppu_evenFrame = False, ppu_hCount = 0, ppu_vCount = 0,
      ppu_hCountSecond = False, ppu_vCountSecond = False, ppu_countersLatched = False,
      ppu_cgram = (\<lambda>_. 0), ppu_oam = (\<lambda>_. 0), ppu_highOam = (\<lambda>_. 0), ppu_vram = (\<lambda>_. 0)\<rparr>"

section \<open>Video memory addresses\<close>

definition ppu_getVramRemap :: "ppu \<Rightarrow> u16" where
  "ppu_getVramRemap ppu =
     (let adr = ppu_vramPointer ppu; mode = ppu_vramRemapMode ppu in
      if mode = 1 then (adr AND 0xff00) OR drop_bit 5 (adr AND 0xe0) OR push_bit 3 (adr AND 0x1f)
      else if mode = 2 then (adr AND 0xfe00) OR drop_bit 6 (adr AND 0x1c0) OR push_bit 3 (adr AND 0x3f)
      else if mode = 3 then (adr AND 0xfc00) OR drop_bit 7 (adr AND 0x380) OR push_bit 3 (adr AND 0x7f)
      else adr)"

definition vram_slot :: "ppu \<Rightarrow> u16" where
  "vram_slot ppu = ppu_getVramRemap ppu AND 0x7fff"

definition vram_step :: "ppu \<Rightarrow> ppu" where
  "vram_step ppu = ppu\<lparr>ppu_vramPointer := ppu_vramPointer ppu + ucast (ppu_vramIncrement ppu)\<rparr>"

definition vram_prefetch :: "ppu \<Rightarrow> ppu" where
  "vram_prefetch ppu = ppu\<lparr>ppu_vramReadBuffer := ppu_vram ppu (vram_slot ppu)\<rparr>"

text \<open>The index \<open>((oamAdr & 0xf) << 1) | oamSecondWrite\<close> into the high sprite table.\<close>

definition high_oam_index :: "ppu \<Rightarrow> u8" where
  "high_oam_index ppu = push_bit 1 (ppu_oamAdr ppu AND 0xf) OR of_bool (ppu_oamSecondWrite ppu)"

text \<open>Moving to the next sprite entry; at the end of a table the other one follows.\<close>

definition oam_step :: "bool \<Rightarrow> ppu \<Rightarrow> ppu" where
  "oam_step high ppu =
     (let adr = ppu_oamAdr ppu + 1
      in ppu\<lparr>ppu_oamAdr := adr, ppu_oamInHigh := (if adr = 0 then high else ppu_oamInHigh ppu)\<rparr>)"

section \<open>Reads\<close>

definition oam_read :: "ppu \<Rightarrow> u8 \<times> ppu" where
  "oam_read ppu =
     (let (ret, ppu) =
        (if ppu_oamInHigh ppu then
           (ppu_highOam ppu (high_oam_index ppu), if ppu_oamSecondWrite ppu then oam_step False ppu else ppu)
         else if \<not> ppu_oamSecondWrite ppu then (lo8 (ppu_oam ppu (ppu_oamAdr ppu)), ppu)
         else (hi8 (ppu_oam ppu (ppu_oamAdr ppu)), oam_step True ppu))
      in (ret, ppu\<lparr>ppu_oamSecondWrite := \<not> ppu_oamSecondWrite ppu\<rparr>))"

definition ppu_read :: "u8 \<Rightarrow> ppu \<Rightarrow> (u8 \<times> ppu) option" where
  "ppu_read adr ppu =
     (if 0x34 \<le> adr \<and> adr \<le> 0x36 then
        let result = sint (ppu_m7matrix ppu ! 0) * drop_bit 8 (sint (ppu_m7matrix ppu ! 1))
        in Some (word_of_int (drop_bit (8 * unat (adr - 0x34)) result), ppu)
      else if adr = 0x37 then
        Some (0, ppu\<lparr>ppu_hCount := 0, ppu_vCount := 0xc0, ppu_hCountSecond := False, ppu_vCountSecond := False,
          ppu_countersLatched := True\<rparr>)
      else if adr = 0x38 then Some (oam_read ppu)
      else if adr = 0x39 then
        Some (lo8 (ppu_vramReadBuffer ppu),
          if \<not> ppu_vramIncrementOnHigh ppu then vram_step (vram_prefetch ppu) else ppu)
      else if adr = 0x3a then
        Some (hi8 (ppu_vramReadBuffer ppu),
          if ppu_vramIncrementOnHigh ppu then vram_step (vram_prefetch ppu) else ppu)
      else if adr = 0x3b then
        (let word = ppu_cgram ppu (ppu_cgramPointer ppu);
             (ret, ppu) = (if \<not> ppu_cgramSecondWrite ppu then (lo8 word, ppu)
               else (hi8 word AND 0x7f, ppu\<lparr>ppu_cgramPointer := ppu_cgramPointer ppu + 1\<rparr>))
         in Some (ret, ppu\<lparr>ppu_cgramSecondWrite := \<not> ppu_cgramSecondWrite ppu\<rparr>))
      else if adr = 0x3c then
        Some (if ppu_hCountSecond ppu then hi8 (ppu_hCount ppu) AND 1 else lo8 (ppu_hCount ppu),
          ppu\<lparr>ppu_hCountSecond := \<not> ppu_hCountSecond ppu\<rparr>)
      else if adr = 0x3d then
        Some (if ppu_vCountSecond ppu then hi8 (ppu_vCount ppu) AND 1 else lo8 (ppu_vCount ppu),
          ppu\<lparr>ppu_vCountSecond := \<not> ppu_vCountSecond ppu\<rparr>)
      else if adr = 0x3e then
        Some (0x1 OR push_bit 6 (of_bool (ppu_rangeOver ppu)) OR push_bit 7 (of_bool (ppu_timeOver ppu)), ppu)
      else if adr = 0x3f then
        Some (0x3 OR push_bit 6 (of_bool (ppu_countersLatched ppu)) OR push_bit 7 (of_bool (ppu_evenFrame ppu)),
          ppu\<lparr>ppu_countersLatched := False, ppu_hCountSecond := False, ppu_vCountSecond := False\<rparr>)
      else None)"

section \<open>Writes\<close>

definition oam_write :: "u8 \<Rightarrow> ppu \<Rightarrow> ppu" where
  "oam_write val ppu =
     (let ppu =
        (if ppu_oamInHigh ppu then
           let ppu = ppu\<lparr>ppu_highOam := (ppu_highOam ppu)(high_oam_index ppu := val)\<rparr>
           in if ppu_oamSecondWrite ppu then oam_step False ppu else ppu
         else if \<not> ppu_oamSecondWrite ppu then ppu\<lparr>ppu_oamBuffer := val\<rparr>
         else oam_step True (ppu\<lparr>ppu_oam := (ppu_oam ppu)(ppu_oamAdr ppu := word16 (ppu_oamBuffer ppu) val)\<rparr>))
      in ppu\<lparr>ppu_oamSecondWrite := \<not> ppu_oamSecondWrite ppu\<rparr>)"

definition m7_write :: "nat \<Rightarrow> u16 \<Rightarrow> u8 \<Rightarrow> ppu \<Rightarrow> ppu" where
  "m7_write i m val ppu =
     ppu\<lparr>ppu_m7matrix := (ppu_m7matrix ppu)[i := word16 (ppu_m7prev ppu) val AND m], ppu_m7prev := val\<rparr>"

definition hscroll_write :: "nat \<Rightarrow> u8 \<Rightarrow> ppu \<Rightarrow> ppu" where
  "hscroll_write i val ppu =
     ppu\<lparr>ppu_hScroll := (ppu_hScroll ppu)[i :=
           word16 ((ppu_scrollPrev ppu AND 0xf8) OR (ppu_scrollPrev2 ppu AND 0x7)) val AND 0x3ff],
         ppu_scrollPrev := val, ppu_scrollPrev2 := val\<rparr>"

definition vscroll_write :: "nat \<Rightarrow> u8 \<Rightarrow> ppu \<Rightarrow> ppu" where
  "vscroll_write i val ppu =
     ppu\<lparr>ppu_vScroll := (ppu_vScroll ppu)[i := word16 (ppu_scrollPrev ppu) val AND 0x3ff],
         ppu_scrollPrev := val\<rparr>"

definition vmain_write :: "u8 \<Rightarrow> ppu \<Rightarrow> ppu" where
  "vmain_write val ppu =
     ppu\<lparr>ppu_vramIncrement := (if val AND 3 = 0 then 1 else if val AND 3 = 1 then 32 else 128),
         ppu_vramRemapMode := drop_bit 2 (val AND 0xc), ppu_vramIncrementOnHigh := tst val 0x80\<rparr>"

definition vram_write_low :: "u8 \<Rightarrow> ppu \<Rightarrow> ppu" where
  "vram_write_low val ppu =
     (let a = vram_slot ppu;
          ppu = ppu\<lparr>ppu_vram := (ppu_vram ppu)(a := put_lo (ppu_vram ppu a) val)\<rparr>
      in if \<not> ppu_vramIncrementOnHigh ppu then vram_step ppu else ppu)"

definition vram_write_high :: "u8 \<Rightarrow> ppu \<Rightarrow> ppu" where
  "vram_write_high val ppu =
     (let a = vram_slot ppu;
          ppu = ppu\<lparr>ppu_vram := (ppu_vram ppu)(a := put_hi (ppu_vram ppu a) val)\<rparr>
      in if ppu_vramIncrementOnHigh ppu then vram_step ppu else ppu)"

definition cgram_write :: "u8 \<Rightarrow> ppu \<Rightarrow> ppu" where
  "cgram_write val ppu =
     (let ppu = (if \<not> ppu_cgramSecondWrite ppu then ppu\<lparr>ppu_cgramBuffer := val\<rparr>
            else ppu\<lparr>ppu_cgram := (ppu_cgram ppu)(ppu_cgramPointer ppu := word16 (ppu_cgramBuffer ppu) val),
                     ppu_cgramPointer := ppu_cgramPointer ppu + 1\<rparr>)
      in ppu\<lparr>ppu_cgramSecondWrite := \<not> ppu_cgramSecondWrite ppu\<rparr>)"

text \<open>One colour component of the fixed colour: five bits at position \<open>k\<close>.\<close>

definition color_field :: "bool \<Rightarrow> nat \<Rightarrow> u8 \<Rightarrow> u16 \<Rightarrow> u16" where
  "color_field sel k val color =
     (if sel then (color AND NOT (push_bit k 0x1f)) OR push_bit k (ucast (val AND 0x1f)) else color)"

definition coldata_write :: "u8 \<Rightarrow> ppu \<Rightarrow> ppu" where
  "coldata_write val ppu =
     ppu\<lparr>ppu_fixedColor := color_field (tst val 0x20) 0 val (color_field (tst val 0x40) 5 val
       (color_field (tst val 0x80) 10 val (ppu_fixedColor ppu)))\<rparr>"

definition ppu_write :: "u8 \<Rightarrow> u8 \<Rightarrow> ppu \<Rightarrow> ppu option" where
  "ppu_write adr val ppu =
     (if adr = 0x00 then Some (ppu\<lparr>ppu_inidisp := val\<rparr>)
      else if adr = 0x01 then Some (ppu\<lparr>ppu_obsel := val\<rparr>)
      else if adr = 0x02 then Some (ppu\<lparr>ppu_oamaddl := val, ppu_oamAdr := val,
        ppu_oamInHigh := tst (ppu_oamaddh ppu) 1, ppu_oamSecondWrite := False\<rparr>)
      else if adr = 0x03 then Some (ppu\<lparr>ppu_oamaddh := val, ppu_oamInHigh := tst val 1,
        ppu_oamAdr := ppu_oamaddl ppu, ppu_oamSecondWrite := False\<rparr>)
      else if adr = 0x04 then Some (oam_write val ppu)
      else if adr = 0x05 then (if val AND 0xf0 = 0 then Some (ppu\<lparr>ppu_bgmode := val\<rparr>) else None)
      else if adr = 0x06 then Some (ppu\<lparr>ppu_mosaic := val, ppu_mosaicStartLine := 0\<rparr>)
      else if 0x07 \<le> adr \<and> adr \<le> 0x0a then
        Some (ppu\<lparr>ppu_bgXsc := (ppu_bgXsc ppu)[unat (adr - 7) := val]\<rparr>)
      else if adr = 0x0b then Some (ppu\<lparr>ppu_bgTileAdr := put_lo (ppu_bgTileAdr ppu) val\<rparr>)
      else if adr = 0x0c then Some (ppu\<lparr>ppu_bgTileAdr := put_hi (ppu_bgTileAdr ppu) val\<rparr>)
      else if adr = 0x0d then Some (hscroll_write 0 val (m7_write 6 0x1fff val ppu))
      else if adr = 0x0f \<or> adr = 0x11 \<or> adr = 0x13 then Some (hscroll_write (unat (adr - 0xd) div 2) val ppu)
      else if adr = 0x0e then Some (vscroll_write 0 val (m7_write 7 0x1fff val ppu))
      else if adr = 0x10 \<or> adr = 0x12 \<or> adr = 0x14 then Some (vscroll_write (unat (adr - 0xe) div 2) val ppu)
      else if adr = 0x15 then Some (vmain_write val ppu)
      else if adr = 0x16 then
        Some (vram_prefetch (ppu\<lparr>ppu_vramPointer := put_lo (ppu_vramPointer ppu) val\<rparr>))
      else if adr = 0x17 then
        Some (vram_prefetch (ppu\<lparr>ppu_vramPointer := put_hi (ppu_vramPointer ppu) val\<rparr>))
      else if adr = 0x18 then Some (vram_write_low val ppu)
      else if adr = 0x19 then Some (vram_write_high val ppu)
      else if adr = 0x1a then Some (ppu\<lparr>ppu_m7sel := val\<rparr>)
      else if 0x1b \<le> adr \<and> adr \<le> 0x1e then Some (m7_write (unat (adr - 0x1b)) 0xffff val ppu)
      else if adr = 0x1f \<or> adr = 0x20 then Some (m7_write (unat (adr - 0x1b)) 0x1fff val ppu)
      else if adr = 0x21 then Some (ppu\<lparr>ppu_cgramPointer := val, ppu_cgramSecondWrite := False\<rparr>)
      else if adr = 0x22 then Some (cgram_write val ppu)
      else if adr = 0x23 then Some (ppu\<lparr>ppu_windowsel := (ppu_windowsel ppu AND NOT 0xff) OR ucast val\<rparr>)
      else if adr = 0x24 then
        Some (ppu\<lparr>ppu_windowsel := (ppu_windowsel ppu AND NOT 0xff00) OR push_bit 8 (ucast val)\<rparr>)
      else if adr = 0x25 then
        Some (ppu\<lparr>ppu_windowsel := (ppu_windowsel ppu AND NOT 0xff0000) OR push_bit 16 (ucast val)\<rparr>)
      else if adr = 0x26 then Some (ppu\<lparr>ppu_window1left := val\<rparr>)
      else if adr = 0x27 then Some (ppu\<lparr>ppu_window1right := val\<rparr>)
      else if adr = 0x28 then Some (ppu\<lparr>ppu_window2left := val\<rparr>)
      else if adr = 0x29 then Some (ppu\<lparr>ppu_window2right := val\<rparr>)
      else if adr = 0x2a then Some (ppu\<lparr>ppu_wbgobjlog := put_lo (ppu_wbgobjlog ppu) val\<rparr>)
      else if adr = 0x2b then Some (ppu\<lparr>ppu_wbgobjlog := put_hi (ppu_wbgobjlog ppu) val\<rparr>)
      else if adr = 0x2c then Some (ppu\<lparr>ppu_screenEnabled := (ppu_screenEnabled ppu)[0 := val]\<rparr>)
      else if adr = 0x2d then Some (ppu\<lparr>ppu_screenEnabled := (ppu_screenEnabled ppu)[1 := val]\<rparr>)
      else if adr = 0x2e then Some (ppu\<lparr>ppu_screenWindowed := (ppu_screenWindowed ppu)[0 := val]\<rparr>)
      else if adr = 0x2f then Some (ppu\<lparr>ppu_screenWindowed := (ppu_screenWindowed ppu)[1 := val]\<rparr>)
      else if adr = 0x30 then Some (ppu\<lparr>ppu_cgwsel := val\<rparr>)
      else if adr = 0x31 then Some (ppu\<lparr>ppu_cgadsub := val\<rparr>)
      else if adr = 0x32 then Some (coldata_write val ppu)
      else if adr = 0x33 then Some (ppu\<lparr>ppu_setini := val\<rparr>)
      else Some ppu)"

end
