(* ===== verification/Cart.thy ===== *)
theory Cart
  imports Snes_Prelude
begin

text \<open>
  The cartridge of \<open>snes/cart.c\<close>: ROM and battery RAM behind the LoROM and HiROM address maps.
  A failed \<open>assert\<close> is the outcome \<open>None\<close>. The structure's \<open>type\<close> selects the map: 0 is no
  cartridge, 1 LoROM, 2 HiROM.
\<close>

section \<open>The cartridge\<close>

record cart =
  cart_type :: u8
  cart_rom :: "u8 list"
  cart_romSize :: u32
  cart_ram :: "u8 list"
  cart_ramSize :: u32

definition cart_init :: cart where
  "cart_init = \<lparr>cart_type = 0, cart_rom = [], cart_romSize = 0, cart_ram = [], cart_ramSize = 0\<rparr>"

text \<open>\<open>cart_load\<close>: sizes are C \<open>int\<close>s, here naturals; the RAM is cleared.\<close>

definition cart_load :: "u8 \<Rightarrow> u8 list \<Rightarrow> nat \<Rightarrow> nat \<Rightarrow> cart" where
  "cart_load type rom romSize ramSize =
     \<lparr>cart_type = type, cart_rom = take romSize rom, cart_romSize = of_nat romSize,
      cart_ram = replicate ramSize 0, cart_ramSize = of_nat ramSize\<rparr>"

text \<open>The array indices of the two maps, with the mask \<open>size - 1\<close>.\<close>

definition lorom_ram_index :: "u8 \<Rightarrow> u16 \<Rightarrow> u32 \<Rightarrow> nat" where
  "lorom_ram_index bank adr sz =
     unat ((push_bit 15 (ucast (bank AND 0xf)) OR ucast adr) AND (sz - 1))"

definition lorom_rom_index :: "u8 \<Rightarrow> u16 \<Rightarrow> u32 \<Rightarrow> nat" where
  "lorom_rom_index bank adr sz =
     unat ((push_bit 15 (ucast bank) OR ucast (adr AND 0x7fff)) AND (sz - 1))"

definition hirom_ram_index :: "u8 \<Rightarrow> u16 \<Rightarrow> u32 \<Rightarrow> nat" where
  "hirom_ram_index bank adr sz =
     unat ((push_bit 13 (ucast (bank AND 0x3f)) OR ucast (adr AND 0x1fff)) AND (sz - 1))"

definition hirom_rom_index :: "u8 \<Rightarrow> u16 \<Rightarrow> u32 \<Rightarrow> nat" where
  "hirom_rom_index bank adr sz =
     unat ((push_bit 16 (ucast (bank AND 0x3f)) OR ucast adr) AND (sz - 1))"

definition cart_readLorom :: "cart \<Rightarrow> u8 \<Rightarrow> u16 \<Rightarrow> u8 option" where
  "cart_readLorom cart bank adr =
     (if (0x70 \<le> bank \<and> bank < 0x7e \<or> bank \<ge> 0xf0) \<and> adr < 0x8000 \<and> cart_ramSize cart > 0
      then Some (cart_ram cart ! lorom_ram_index bank adr (cart_ramSize cart))
      else let bank = bank AND 0x7f in
        if adr \<ge> 0x8000 \<or> bank \<ge> 0x40
        then Some (cart_rom cart ! lorom_rom_index bank adr (cart_romSize cart))
        else Some 0)"

definition cart_writeLorom :: "cart \<Rightarrow> u8 \<Rightarrow> u16 \<Rightarrow> u8 \<Rightarrow> cart" where
  "cart_writeLorom cart bank adr val =
     (if (0x70 \<le> bank \<and> bank < 0x7e \<or> bank > 0xf0) \<and> adr < 0x8000 \<and> cart_ramSize cart > 0
      then cart\<lparr>cart_ram := (cart_ram cart)[lorom_ram_index bank adr (cart_ramSize cart) := val]\<rparr>
      else cart)"

definition cart_readHirom :: "cart \<Rightarrow> u8 \<Rightarrow> u16 \<Rightarrow> u8 option" where
  "cart_readHirom cart bank0 adr =
     (let bank = bank0 AND 0x7f in
      if bank < 0x40 \<and> adr \<ge> 0x6000 \<and> adr < 0x8000 \<and> cart_ramSize cart > 0
      then Some (cart_ram cart ! hirom_ram_index bank adr (cart_ramSize cart))
      else if adr \<ge> 0x8000 \<or> bank \<ge> 0x40
      then Some (cart_rom cart ! hirom_rom_index bank adr (cart_romSize cart))
      else None)"

definition cart_writeHirom :: "cart \<Rightarrow> u8 \<Rightarrow> u16 \<Rightarrow> u8 \<Rightarrow> cart" where
  "cart_writeHirom cart bank0 adr val =
     (let bank = bank0 AND 0x7f in
      if bank < 0x40 \<and> adr \<ge> 0x6000 \<and> adr < 0x8000 \<and> cart_ramSize cart > 0
      then cart\<lparr>cart_ram := (cart_ram cart)[hirom_ram_index bank adr (cart_ramSize cart) := val]\<rparr>
      else cart)"

definition cart_read :: "cart \<Rightarrow> u8 \<Rightarrow> u16 \<Rightarrow> u8 option" where
  "cart_read cart bank adr =
     (if cart_type cart = 1 then cart_readLorom cart bank adr
      else if cart_type cart = 2 then cart_readHirom cart bank adr
      else None)"

definition cart_write :: "cart \<Rightarrow> u8 \<Rightarrow> u16 \<Rightarrow> u8 \<Rightarrow> cart" where
  "cart_write cart bank adr val =
     (if cart_type cart = 1 then cart_writeLorom cart bank adr val
      else if cart_type cart = 2 then cart_writeHirom cart bank adr val
      else cart)"

section \<open>Index bounds\<close>

text \<open>A loaded cartridge: the arrays have the sizes recorded beside them.\<close>

definition cart_wf :: "cart \<Rightarrow> bool" where
  "cart_wf cart \<longleftrightarrow> length (cart_rom cart) = unat (cart_romSize cart)
     \<and> length (cart_ram cart) = unat (cart_ramSize cart) \<and> cart_romSize cart > 0"

lemma mask_index: "0 < sz \<Longrightarrow> unat (w AND (sz - 1)) < unat sz" for sz w :: u32
proof -
  assume s: "0 < sz"
  have "unat (w AND (sz - 1)) \<le> unat (sz - 1)"
    using word_and_le1[of w "sz - 1"] by (simp add: word_le_nat_alt)
  also have "unat (sz - 1) < unat sz" using s by (simp add: measure_unat)
  finally show ?thesis .
qed

lemma cart_index_bounds:
  assumes "0 < sz"
  shows "lorom_ram_index b a sz < unat sz" "lorom_rom_index b a sz < unat sz"
    "hirom_ram_index b a sz < unat sz" "hirom_rom_index b a sz < unat sz"
  unfolding lorom_ram_index_def lorom_rom_index_def hirom_ram_index_def hirom_rom_index_def
  using mask_index [OF assms] by simp_all

lemma cart_write_wf: "cart_wf cart \<Longrightarrow> cart_wf (cart_write cart bank adr val)"
  by (auto simp: cart_wf_def cart_write_def cart_writeLorom_def cart_writeHirom_def Let_def)

section \<open>Battery RAM as a memory\<close>

lemma take_mask: "0 < k \<Longrightarrow> k < 32 \<Longrightarrow> w AND (2 ^ k - 1) = take_bit k w" for w :: u32
  by (simp add: take_bit_eq_mask mask_eq_exp_minus_1)

lemma unat_pow32: "k < 32 \<Longrightarrow> unat (2 ^ k :: u32) = 2 ^ k"
proof -
  assume "k < 32"
  then have "(2::nat) ^ k < 2 ^ 32" by (rule power_strict_increasing) simp
  then have "unat (of_nat (2 ^ k) :: u32) = 2 ^ k" by (simp only: unat_of_nat) simp
  then show ?thesis by simp
qed

text \<open>
  The memory map in the numbers of the manual, not in those of the code: the byte of battery RAM that an
  address selects. LoROM boards have 32 KB of it in the lower halves of the banks \<open>70\<close> to \<open>7d\<close> and
  \<open>f0\<close> to \<open>ff\<close>, HiROM boards 8 KB at \<open>6000\<close> in the banks \<open>00\<close> to \<open>3f\<close> and \<open>80\<close> to \<open>bf\<close>; a smaller RAM
  repeats.
\<close>

definition cart_cell :: "cart \<Rightarrow> u8 \<Rightarrow> u16 \<Rightarrow> nat option" where
  "cart_cell cart bank adr =
     (let b = unat bank; a = unat adr; size = unat (cart_ramSize cart) in
      if size = 0 then None
      else if cart_type cart = 1 \<and> (0x70 \<le> b \<and> b \<le> 0x7d \<or> 0xf0 \<le> b) \<and> a < 0x8000
      then Some ((b mod 16 * 0x8000 + a) mod size)
      else if cart_type cart = 2 \<and> (b < 0x40 \<or> 0x80 \<le> b \<and> b < 0xc0) \<and> 0x6000 \<le> a \<and> a < 0x8000
      then Some ((b mod 64 * 0x2000 + (a - 0x6000)) mod size)
      else None)"

definition ram_power :: "cart \<Rightarrow> bool" where
  "ram_power cart \<longleftrightarrow> cart_ramSize cart = 0 \<or> (\<exists>k<32. cart_ramSize cart = 2 ^ k)"

lemma mask_mod:
  fixes w sz :: u32
  assumes "sz = 2 ^ k" "k < 32"
  shows "unat (w AND (sz - 1)) = unat w mod unat sz"
proof (cases "k = 0")
  case False
  then have "w AND (sz - 1) = take_bit k w" using take_mask assms by simp
  then show ?thesis using unat_pow32 [OF assms(2)] by (simp add: assms(1) take_bit_eq_mod unat_mod)
qed (use assms in simp)

lemma unat_bank_bits: "unat (bank AND 0xf) = unat bank mod 16" "unat (bank AND 0x3f) = unat bank mod 64"
  "unat (bank AND 0x7f) = unat bank mod 128" for bank :: u8
proof -
  have m: "bank AND 0xf = take_bit 4 bank" "bank AND 0x3f = take_bit 6 bank" "bank AND 0x7f = take_bit 7 bank"
    by (simp_all add: take_bit_eq_mask mask_eq_exp_minus_1)
  then show "unat (bank AND 0xf) = unat bank mod 16" "unat (bank AND 0x3f) = unat bank mod 64"
    "unat (bank AND 0x7f) = unat bank mod 128"
    by (simp_all add: take_bit_eq_mod unat_mod)
qed

lemma unat_window:
  fixes a :: u16 and b :: u8
  assumes "unat a < 2 ^ n" "n \<le> 15" "unat b < 64"
  shows "unat (push_bit n (ucast b) OR ucast a :: u32) = unat b * 2 ^ n + unat a"
proof -
  have "take_bit n (unat a) = unat a" using assms(1) by (simp add: take_bit_nat_eq_self_iff)
  then have "bit (unat a) i \<Longrightarrow> i < n" for i by (metis bit_take_bit_iff)
  then have low: "bit a i \<Longrightarrow> i < n" for i by (simp add: bit_unsigned_iff)
  have "push_bit n (ucast b) OR ucast a = (push_bit n (ucast b) + ucast a :: u32)"
    by (intro disjunctive_add [symmetric]) (auto simp: bit_simps dest: low)
  moreover have le: "unat b * 2 ^ n + unat a < 2 ^ 22"
  proof -
    have "unat b * 2 ^ n \<le> 63 * 2 ^ n" using assms(3) by simp
    then have "unat b * 2 ^ n + unat a < 64 * 2 ^ n" using assms(1) by linarith
    also have "(64 :: nat) * 2 ^ n \<le> 64 * 2 ^ 15" using assms(2) by (intro mult_left_mono power_increasing) simp_all
    finally show ?thesis by simp
  qed
  moreover have "unat (push_bit n (ucast b) :: u32) = unat b * 2 ^ n"
    using le unat_pow32 [of n] assms(2) by (simp add: push_bit_eq_mult unat_word_ariths)
  ultimately show ?thesis by (simp add: unat_word_ariths)
qed

lemma lorom_index:
  assumes "sz = 2 ^ k" "k < 32" "unat adr < 0x8000"
  shows "lorom_ram_index bank adr sz = (unat bank mod 16 * 0x8000 + unat adr) mod unat sz"
proof -
  have "unat (push_bit 15 (ucast (bank AND 0xf)) OR ucast adr :: u32) = unat bank mod 16 * 0x8000 + unat adr"
    using unat_window [of adr 15 "bank AND 0xf"] assms(3) unat_bank_bits(1) [of bank] by simp
  then show ?thesis unfolding lorom_ram_index_def mask_mod [OF assms(1,2)] by simp
qed

lemma hirom_index:
  assumes "sz = 2 ^ k" "k < 32" "0x6000 \<le> unat adr" "unat adr < 0x8000"
  shows "hirom_ram_index (bank AND 0x7f) adr sz = (unat bank mod 64 * 0x2000 + (unat adr - 0x6000)) mod unat sz"
proof -
  have "adr AND 0x1fff = take_bit 13 adr" by (simp add: take_bit_eq_mask mask_eq_exp_minus_1)
  then have "unat (adr AND 0x1fff) = unat adr mod 0x2000" by (simp add: take_bit_eq_mod unat_mod)
  moreover obtain d where d: "unat adr = d + 3 * 0x2000" "d < 0x2000"
    using assms(3,4) by (auto simp: le_iff_add)
  ultimately have a: "unat (adr AND 0x1fff) = unat adr - 0x6000" by (simp only: d(1) mod_mult_self1) (use d in simp)
  have bank: "(bank AND 0x7f) AND 0x3f = bank AND 0x3f" by (simp add: and.assoc)
  have "unat (push_bit 13 (ucast (bank AND 0x3f)) OR ucast (adr AND 0x1fff) :: u32)
      = unat bank mod 64 * 0x2000 + (unat adr - 0x6000)"
    using unat_window [of "adr AND 0x1fff" 13 "bank AND 0x3f"] assms(3,4) a unat_bank_bits(2) [of bank] by simp
  then show ?thesis unfolding hirom_ram_index_def mask_mod [OF assms(1,2)] bank by (simp only:)
qed

text \<open>Reads and writes of a cell; a write into bank \<open>f0\<close> of a LoROM board is lost.\<close>

abbreviation lorom_f0 :: "cart \<Rightarrow> u8 \<Rightarrow> bool" where
  "lorom_f0 cart bank \<equiv> cart_type cart = 1 \<and> bank = 0xf0"

lemma cell_bound: "cart_wf cart \<Longrightarrow> cart_cell cart bank adr = Some i \<Longrightarrow> i < length (cart_ram cart)"
  by (auto simp: cart_cell_def cart_wf_def Let_def split: if_splits)

lemma cell_power:
  assumes "ram_power cart" "cart_cell cart bank adr = Some i"
  obtains k where "k < 32" "cart_ramSize cart = 2 ^ k" "cart_ramSize cart > 0"
  using assms by (auto simp: ram_power_def cart_cell_def Let_def word_gt_0 split: if_splits)

lemma hirom_bank:
  fixes bank :: u8
  shows "unat (bank AND 0x7f) < 0x40 \<longleftrightarrow> unat bank < 0x40 \<or> 0x80 \<le> unat bank \<and> unat bank < 0xc0"
    "0x40 \<le> unat (bank AND 0x7f) \<longleftrightarrow> \<not> (unat bank < 0x40 \<or> 0x80 \<le> unat bank \<and> unat bank < 0xc0)"
proof -
  have b: "unat bank < 256" using unsigned_less [of bank] by simp
  then have "(unat bank - 128) mod 128 = unat bank - 128" by (intro mod_less) linarith
  then have "unat bank mod 128 = (if unat bank < 128 then unat bank else unat bank - 128)" by (simp add: le_mod_geq)
  then show "unat (bank AND 0x7f) < 0x40 \<longleftrightarrow> unat bank < 0x40 \<or> 0x80 \<le> unat bank \<and> unat bank < 0xc0"
    unfolding unat_bank_bits using b by auto
  then show "0x40 \<le> unat (bank AND 0x7f) \<longleftrightarrow> \<not> (unat bank < 0x40 \<or> 0x80 \<le> unat bank \<and> unat bank < 0xc0)"
    by (metis not_less)
qed

lemma cell_read:
  assumes "ram_power cart" "cart_cell cart bank adr = Some i"
  shows "cart_read cart bank adr = Some (cart_ram cart ! i)"
proof -
  obtain k where k: "k < 32" "cart_ramSize cart = 2 ^ k" "cart_ramSize cart > 0" by (rule cell_power [OF assms])
  note cell = assms(2) [unfolded cart_cell_def Let_def]
  show ?thesis
  proof (cases "cart_type cart = 1")
    case True
    then show ?thesis using cell k(3) lorom_index [OF k(2,1)]
      by (auto simp: cart_read_def cart_readLorom_def word_le_nat_alt word_less_nat_alt split: if_splits)
  next
    case False
    then show ?thesis using cell k(3) hirom_index [OF k(2,1)]
      by (auto simp: cart_read_def cart_readHirom_def Let_def hirom_bank word_le_nat_alt word_less_nat_alt split: if_splits)
  qed
qed

lemma cell_write:
  assumes "ram_power cart" "cart_cell cart bank adr = Some i" "\<not> lorom_f0 cart bank"
  shows "cart_write cart bank adr val = cart\<lparr>cart_ram := (cart_ram cart)[i := val]\<rparr>"
proof -
  obtain k where k: "k < 32" "cart_ramSize cart = 2 ^ k" "cart_ramSize cart > 0" by (rule cell_power [OF assms(1,2)])
  note cell = assms(2) [unfolded cart_cell_def Let_def]
  show ?thesis
  proof (cases "cart_type cart = 1")
    case True
    then have "unat bank \<noteq> 0xf0" using assms(3) by (auto simp: word_unat_eq_iff)
    then show ?thesis using True cell k(3) lorom_index [OF k(2,1)]
      by (auto simp: cart_write_def cart_writeLorom_def word_le_nat_alt word_less_nat_alt split: if_splits)
  next
    case False
    then show ?thesis using cell k(3) hirom_index [OF k(2,1)]
      by (auto simp: cart_write_def cart_writeHirom_def Let_def hirom_bank word_le_nat_alt word_less_nat_alt split: if_splits)
  qed
qed

lemma no_cell: "cart_cell cart bank adr = None \<longleftrightarrow> cart_ramSize cart = 0
    \<or> \<not> (cart_type cart = 1 \<and> (0x70 \<le> bank \<and> bank < 0x7e \<or> bank \<ge> 0xf0) \<and> adr < 0x8000)
      \<and> \<not> (cart_type cart = 2 \<and> bank AND 0x7f < 0x40 \<and> adr \<ge> 0x6000 \<and> adr < 0x8000)"
proof -
  have "bank < 0x7e \<longleftrightarrow> unat bank \<le> 0x7d" by (auto simp: word_less_nat_alt)
  moreover have "bank AND 0x7f < 0x40 \<longleftrightarrow> unat bank < 0x40 \<or> 0x80 \<le> unat bank \<and> unat bank < 0xc0"
    using hirom_bank(1) [of bank] by (simp add: word_less_nat_alt)
  ultimately show ?thesis
    by (simp add: cart_cell_def Let_def word_le_nat_alt [of _ bank] word_le_nat_alt [of _ adr] word_less_nat_alt [of adr] unat_eq_0)
qed

lemma no_cell_write:
  assumes "cart_cell cart bank adr = None \<or> lorom_f0 cart bank"
  shows "cart_write cart bank adr val = cart"
proof (cases "lorom_f0 cart bank")
  case True
  then show ?thesis by (simp add: cart_write_def cart_writeLorom_def)
next
  case False
  then have "cart_cell cart bank adr = None" using assms by blast
  moreover have "bank > 0xf0 \<Longrightarrow> bank \<ge> 0xf0" by simp
  ultimately show ?thesis unfolding no_cell
    by (auto simp: cart_write_def cart_writeLorom_def cart_writeHirom_def Let_def)
qed

text \<open>Without a cell, a read does not see the RAM.\<close>

lemma no_cell_read:
  assumes "cart_cell cart bank adr = None"
  shows "cart_read (cart\<lparr>cart_ram := ram\<rparr>) bank adr = cart_read cart bank adr"
  using assms unfolding no_cell by (auto simp: cart_read_def cart_readLorom_def cart_readHirom_def Let_def)

text \<open>
  C13. Battery RAM behaves as memory under both address maps: an address the memory map gives to the RAM
  reads the byte of its cell, a byte written there is read back through every address of the same cell,
  and no other address reads anything else than before; a write to an address without a cell changes
  nothing. One bank is not as the map and the comment in the code have it: a write into bank \<open>f0\<close> of a
  LoROM board, which reads RAM, changes nothing either.
\<close>

theorem cart_read_after_write:
  assumes "cart_wf cart" "ram_power cart"
  shows "(\<forall>i. cart_cell cart bank adr = Some i \<longrightarrow> i < length (cart_ram cart) \<and> cart_read cart bank adr = Some (cart_ram cart ! i))
    \<and> cart_read (cart_write cart bank adr val) bank' adr' =
        (if cart_cell cart bank adr \<noteq> None \<and> cart_cell cart bank' adr' = cart_cell cart bank adr
            \<and> \<not> (cart_type cart = 1 \<and> bank = 0xf0)
         then Some val else cart_read cart bank' adr')
    \<and> (cart_cell cart bank adr = None \<or> cart_type cart = 1 \<and> bank = 0xf0 \<longrightarrow> cart_write cart bank adr val = cart)"
proof (intro conjI allI impI)
  fix i assume "cart_cell cart bank adr = Some i"
  then show "i < length (cart_ram cart)" "cart_read cart bank adr = Some (cart_ram cart ! i)"
    using cell_bound [OF assms(1)] cell_read [OF assms(2)] by blast+
next
  show "cart_read (cart_write cart bank adr val) bank' adr' =
        (if cart_cell cart bank adr \<noteq> None \<and> cart_cell cart bank' adr' = cart_cell cart bank adr
            \<and> \<not> (cart_type cart = 1 \<and> bank = 0xf0)
         then Some val else cart_read cart bank' adr')"
  proof (cases "cart_cell cart bank adr = None \<or> lorom_f0 cart bank")
    case True
    then show ?thesis using no_cell_write by auto
  next
    case False
    then obtain i where i: "cart_cell cart bank adr = Some i" by auto
    define c where "c = cart\<lparr>cart_ram := (cart_ram cart)[i := val]\<rparr>"
    have w: "cart_write cart bank adr val = c" using cell_write [OF assms(2) i] False by (simp add: c_def)
    have "cart_type c = cart_type cart" "cart_ramSize c = cart_ramSize cart" by (simp_all add: c_def)
    then have same: "ram_power c" "cart_cell c bank' adr' = cart_cell cart bank' adr'"
      using assms(2) by (simp_all only: ram_power_def cart_cell_def)
    show ?thesis
    proof (cases "cart_cell cart bank' adr'")
      case None
      then show ?thesis using no_cell_read [of cart bank' adr'] i by (simp add: w c_def)
    next
      case (Some j)
      then show ?thesis
        using False i cell_read [OF same(1), of bank' adr' j] same(2) cell_read [OF assms(2) Some] cell_bound [OF assms(1) i]
        by (auto simp: w c_def nth_list_update)
    qed
  qed
qed (use no_cell_write in blast)

theorem cart_read_after_write_witness:
  "cart_read (cart_write (cart_load 1 [0, 0] 2 4) 0x71 0x0005 0xab) 0xf5 0x7ffd = Some 0xab"
proof -
  have "cart_wf (cart_load 1 [0, 0] 2 4)" "ram_power (cart_load 1 [0, 0] 2 4)"
    by (simp_all add: cart_wf_def ram_power_def cart_load_def) (rule exI [of _ 2], simp)
  from cart_read_after_write [OF this, of "0x71" "0x0005" "0xab" "0xf5" "0x7ffd"] show ?thesis
    by (simp add: cart_cell_def cart_load_def)
qed

text \<open>
  Bank \<open>0xf0\<close> of a LoROM cartridge: the read map gives its lower half to battery RAM, the
  write map does not (\<open>bank > 0xf0\<close> where the read has \<open>bank >= 0xf0\<close>), so a write there is
  lost although the address reads RAM.
\<close>

theorem cart_lorom_bank_f0_lost:
  assumes "cart_type cart = 1" "cart_ramSize cart > 0" "adr < 0x8000"
  shows "cart_read cart 0xf0 adr = Some (cart_ram cart ! lorom_ram_index 0xf0 adr (cart_ramSize cart))
    \<and> cart_write cart 0xf0 adr val = cart"
  using assms by (simp add: cart_read_def cart_readLorom_def cart_write_def cart_writeLorom_def)

theorem cart_lorom_bank_f0_lost_witness:
  "cart_read (cart_load 1 [0, 0] 2 4) 0xf0 1 = Some 0
    \<and> cart_write (cart_load 1 [0, 0] 2 4) 0xf0 1 0xab = cart_load 1 [0, 0] 2 4"
  using cart_lorom_bank_f0_lost [of "cart_load 1 [0, 0] 2 4" 1 "0xab"]
  by (simp add: cart_load_def lorom_ram_index_def)

end
