(* ===== verification/Snes_Bus.thy ===== *)
theory Snes_Bus
  imports Rtl_Ports Ppu_Regs Cart
begin

text \<open>
  The system bus of \<open>snes/snes.c\<close> with the DMA engine of \<open>snes/dma.c\<close>: work RAM and its mirrors,
  the B bus (picture processor, audio ports, RAM data port), the processor's internal registers
  and the cartridge. The structure's pointers become fields; \<open>g_ppu\<close> is the picture processor of
  the structure. Work RAM is a function of a 32-bit index, and theory
  \<open>Snes_Invariants\<close> shows that only indices below \<open>0x20000\<close> are used. Each access to the audio ports takes the next
  \<open>touch\<close> (theory \<open>Rtl_Apu\<close>) from the field \<open>sn_env\<close>.

  A write to \<open>$420b\<close> runs the DMA loop, whose transfers write to the bus again, so writes carry
  fuel: the loop's iterations and the nesting of writes are bounded by it, and running out is
  \<open>Fuel_out\<close>. A failed assertion is \<open>Abort\<close>.
\<close>

datatype 'a outcome = Done 'a | Abort | Fuel_out

record snes =
  sn_apu :: spc
  sn_port_clock :: port_clock
  sn_env :: "nat \<Rightarrow> touch"
  sn_touches :: nat
  sn_ppu :: ppu
  sn_dma :: dma
  sn_cart :: cart
  sn_input1 :: u16
  sn_input2 :: u16
  sn_ramAdr :: u32
  sn_ram :: "u32 \<Rightarrow> u8"
  sn_hPos :: u16
  sn_vPos :: u16
  sn_hIrqEnabled :: bool
  sn_vIrqEnabled :: bool
  sn_nmiEnabled :: bool
  sn_hTimer :: u16
  sn_vTimer :: u16
  sn_inNmi :: bool
  sn_inIrq :: bool
  sn_inVblank :: bool
  sn_autoJoyRead :: bool
  sn_autoJoyTimer :: u16
  sn_ppuLatch :: bool
  sn_multiplyA :: u8
  sn_multiplyResult :: u16
  sn_divideA :: u16
  sn_divideResult :: u16

text \<open>\<open>snes_reset\<close>: the cartridge keeps its RAM; the unused \<open>Cpu\<close> structure is not part of the record.\<close>

definition snes_reset :: "bool \<Rightarrow> snes \<Rightarrow> snes" where
  "snes_reset hard s =
     s\<lparr>sn_apu := apu_reset (sn_apu s), sn_dma := dma_reset, sn_ppu := ppu_reset,
       sn_ram := (if hard then (\<lambda>i. if i < 0x20000 then 0 else sn_ram s i) else sn_ram s),
       sn_ramAdr := 0, sn_hPos := 0, sn_vPos := 0, sn_hIrqEnabled := False, sn_vIrqEnabled := False,
       sn_nmiEnabled := False, sn_hTimer := 0x1ff, sn_vTimer := 0x1ff, sn_inNmi := False, sn_inIrq := False,
       sn_inVblank := False, sn_autoJoyRead := False, sn_autoJoyTimer := 0, sn_ppuLatch := False,
       sn_multiplyA := 0xff, sn_multiplyResult := 0xfe01, sn_divideA := 0xffff, sn_divideResult := 0x101\<rparr>"

definition next_touch :: "snes \<Rightarrow> touch \<times> snes" where
  "next_touch s = (sn_env s (sn_touches s), s\<lparr>sn_touches := Suc (sn_touches s)\<rparr>)"

section \<open>The B bus\<close>

definition snes_readBBus :: "u8 \<Rightarrow> snes \<Rightarrow> (u8 \<times> snes) outcome" where
  "snes_readBBus adr s =
     (if adr < 0x40 then
        (case ppu_read adr (sn_ppu s) of None \<Rightarrow> Abort | Some (val, ppu) \<Rightarrow> Done (val, s\<lparr>sn_ppu := ppu\<rparr>))
      else if adr < 0x80 then
        (case next_touch s of (tc, s) \<Rightarrow>
          let s = s\<lparr>sn_apu := snes_catchupApu (tc_cycles tc) (sn_apu s)\<rparr>
          in Done (apu_outPorts (spc_apu (sn_apu s)) ! unat (adr AND 3), s))
      else if adr = 0x80 then
        Done (sn_ram s (sn_ramAdr s), s\<lparr>sn_ramAdr := (sn_ramAdr s + 1) AND 0x1ffff\<rparr>)
      else Done (0, s))"

definition snes_writeBBus :: "u8 \<Rightarrow> u8 \<Rightarrow> snes \<Rightarrow> snes outcome" where
  "snes_writeBBus adr val s =
     (if adr < 0x40 then
        (case ppu_write adr val (sn_ppu s) of None \<Rightarrow> Abort | Some ppu \<Rightarrow> Done (s\<lparr>sn_ppu := ppu\<rparr>))
      else if adr < 0x80 then
        (case next_touch s of (tc, s) \<Rightarrow>
          (case RtlApuWrite tc (0x2100 + ucast adr) val (sn_apu s, sn_port_clock s) of None \<Rightarrow> Abort
           | Some (spc, pc) \<Rightarrow> Done (s\<lparr>sn_apu := spc, sn_port_clock := pc\<rparr>)))
      else if adr = 0x80 then
        (let wa = sn_ramAdr s AND 0x1ffff
         in Done (s\<lparr>sn_ram := (sn_ram s)(wa := val), sn_ramAdr := (wa + 1) AND 0x1ffff\<rparr>))
      else if adr = 0x81 then Done (s\<lparr>sn_ramAdr := (sn_ramAdr s AND 0x1ff00) OR ucast val\<rparr>)
      else if adr = 0x82 then Done (s\<lparr>sn_ramAdr := (sn_ramAdr s AND 0x100ff) OR push_bit 8 (ucast val)\<rparr>)
      else if adr = 0x83 then Done (s\<lparr>sn_ramAdr := (sn_ramAdr s AND 0x0ffff) OR push_bit 16 (ucast (val AND 1))\<rparr>)
      else Done s)"

section \<open>Internal registers\<close>

text \<open>The loop of \<open>SwapInputBits\<close> on its two variables.\<close>

definition swap_step :: "u16 \<times> u16 \<Rightarrow> u16 \<times> u16" where
  "swap_step rx = (case rx of (r, x) \<Rightarrow> (r * 2 + (x AND 1), drop_bit 1 x))"

definition SwapInputBits :: "u16 \<Rightarrow> u16" where
  "SwapInputBits x = fst ((swap_step ^^ 16) (0, x))"

definition hvbjoy_step :: "snes \<Rightarrow> snes" where
  "hvbjoy_step s =
     (let prev_h = sn_hPos s;
          s = s\<lparr>sn_hPos := of_nat ((unat (sn_hPos s) + 64) mod 1364)\<rparr>
      in if sn_hPos s < prev_h then s\<lparr>sn_vPos := of_nat ((unat (sn_vPos s) + 1) mod 262)\<rparr> else s)"

definition snes_readReg :: "u16 \<Rightarrow> snes \<Rightarrow> u8 \<times> snes" where
  "snes_readReg adr s =
     (if adr = 0x4210 then (0x2 OR push_bit 7 (of_bool (sn_inNmi s)), s\<lparr>sn_inNmi := False\<rparr>)
      else if adr = 0x4211 then (push_bit 7 (of_bool (sn_inIrq s)), s\<lparr>sn_inIrq := False\<rparr>)
      else if adr = 0x4212 then
        (let s = hvbjoy_step s
         in (of_bool (sn_autoJoyTimer s > 0) OR push_bit 6 (of_bool (sn_hPos s \<ge> 1024))
               OR push_bit 7 (of_bool (sn_inVblank s \<or> sn_vPos s \<ge> 225)), s))
      else if adr = 0x4213 then (push_bit 7 (of_bool (sn_ppuLatch s)), s)
      else if adr = 0x4214 then (lo8 (sn_divideResult s), s)
      else if adr = 0x4215 then (hi8 (sn_divideResult s), s)
      else if adr = 0x4216 then (lo8 (sn_multiplyResult s), s)
      else if adr = 0x4217 then (hi8 (sn_multiplyResult s), s)
      else if adr = 0x4016 \<or> adr = 0x4017 then (0x01, s)
      else if adr = 0x4218 then (lo8 (SwapInputBits (sn_input1 s)), s)
      else if adr = 0x4219 then (hi8 (SwapInputBits (sn_input1 s)), s)
      else if adr = 0x421a then (lo8 (SwapInputBits (sn_input2 s)), s)
      else if adr = 0x421b then (hi8 (SwapInputBits (sn_input2 s)), s)
      else (0, s))"

text \<open>The registers that only store; \<open>$420b\<close> starts the transfers and is in \<open>snes_writeReg\<close>.\<close>

definition nmitimen_write :: "u8 \<Rightarrow> snes \<Rightarrow> snes" where
  "nmitimen_write val s =
     (let s = s\<lparr>sn_autoJoyRead := tst val 0x1\<rparr>;
          s = (if \<not> sn_autoJoyRead s then s\<lparr>sn_autoJoyTimer := 0\<rparr> else s);
          s = s\<lparr>sn_hIrqEnabled := tst val 0x10, sn_vIrqEnabled := tst val 0x20, sn_nmiEnabled := tst val 0x80\<rparr>
      in if \<not> sn_hIrqEnabled s \<and> \<not> sn_vIrqEnabled s then s\<lparr>sn_inIrq := False\<rparr> else s)"

definition wrio_write :: "u8 \<Rightarrow> snes \<Rightarrow> snes outcome" where
  "wrio_write val s =
     (if \<not> tst val 0x80 \<and> sn_ppuLatch s then
        (case ppu_read 0x37 (sn_ppu s) of None \<Rightarrow> Abort
         | Some (_, ppu) \<Rightarrow> Done (s\<lparr>sn_ppu := ppu, sn_ppuLatch := tst val 0x80\<rparr>))
      else Done (s\<lparr>sn_ppuLatch := tst val 0x80\<rparr>))"

definition divide_write :: "u8 \<Rightarrow> snes \<Rightarrow> snes" where
  "divide_write val s =
     (if val = 0 then s\<lparr>sn_divideResult := 0xffff, sn_multiplyResult := sn_divideA s\<rparr>
      else s\<lparr>sn_divideResult := sn_divideA s div ucast val, sn_multiplyResult := sn_divideA s mod ucast val\<rparr>)"

text \<open>\<open>snes_writeReg\<close>, with the loop \<open>while (dma_cycle(dma)) {}\<close> as an argument.\<close>

definition snes_writeReg :: "(snes \<Rightarrow> snes outcome) \<Rightarrow> u16 \<Rightarrow> u8 \<Rightarrow> snes \<Rightarrow> snes outcome" where
  "snes_writeReg run_dma adr val s =
     (if adr = 0x4200 then Done (nmitimen_write val s)
      else if adr = 0x4201 then wrio_write val s
      else if adr = 0x4202 then Done (s\<lparr>sn_multiplyA := val\<rparr>)
      else if adr = 0x4203 then Done (s\<lparr>sn_multiplyResult := ucast (sn_multiplyA s) * ucast val\<rparr>)
      else if adr = 0x4204 then Done (s\<lparr>sn_divideA := put_lo (sn_divideA s) val\<rparr>)
      else if adr = 0x4205 then Done (s\<lparr>sn_divideA := put_hi (sn_divideA s) val\<rparr>)
      else if adr = 0x4206 then Done (divide_write val s)
      else if adr = 0x4207 then Done (s\<lparr>sn_hTimer := (sn_hTimer s AND 0x100) OR ucast val\<rparr>)
      else if adr = 0x4208 then Done (s\<lparr>sn_hTimer := (sn_hTimer s AND 0xff) OR push_bit 8 (ucast (val AND 1))\<rparr>)
      else if adr = 0x4209 then Done (s\<lparr>sn_vTimer := (sn_vTimer s AND 0x100) OR ucast val\<rparr>)
      else if adr = 0x420a then Done (s\<lparr>sn_vTimer := (sn_vTimer s AND 0xff) OR push_bit 8 (ucast (val AND 1))\<rparr>)
      else if adr = 0x420b then run_dma (s\<lparr>sn_dma := dma_startDma val False (sn_dma s)\<rparr>)
      else if adr = 0x420c then Done (s\<lparr>sn_dma := dma_startDma val True (sn_dma s)\<rparr>)
      else Done s)"

section \<open>The system bus\<close>

fun obind :: "'a outcome \<Rightarrow> ('a \<Rightarrow> 'b outcome) \<Rightarrow> 'b outcome" where
  "obind (Done x) f = f x"
| "obind Abort f = Abort"
| "obind Fuel_out f = Fuel_out"

text \<open>The banks in which the lower half of the address space holds work RAM and registers.\<close>

definition io_bank :: "u8 \<Rightarrow> bool" where
  "io_bank bank \<longleftrightarrow> bank < 0x40 \<or> 0x80 \<le> bank \<and> bank < 0xc0"

definition bus_bank :: "u32 \<Rightarrow> u8" where
  "bus_bank adr = ucast (drop_bit 16 adr)"

definition wram_index :: "u8 \<Rightarrow> u16 \<Rightarrow> u32" where
  "wram_index bank a = push_bit 16 (ucast (bank AND 1)) OR ucast a"

definition snes_read :: "u32 \<Rightarrow> snes \<Rightarrow> (u8 \<times> snes) outcome" where
  "snes_read adr s =
     (let bank = bus_bank adr; a = ucast adr :: u16; io = io_bank bank in
      if bank = 0x7e \<or> bank = 0x7f then Done (sn_ram s (wram_index bank a), s)
      else if io \<and> a < 0x2000 then Done (sn_ram s (ucast a), s)
      else if io \<and> 0x2100 \<le> a \<and> a < 0x2200 then snes_readBBus (lo8 a) s
      else if io \<and> (a = 0x4016 \<or> a = 0x4017) then Done (0, s)
      else if io \<and> 0x4200 \<le> a \<and> a < 0x4220 then Done (snes_readReg a s)
      else if io \<and> 0x4300 \<le> a \<and> a < 0x4380 then Done (dma_read (sn_dma s) a, s)
      else (case cart_read (sn_cart s) bank a of None \<Rightarrow> Abort | Some val \<Rightarrow> Done (val, s)))"

text \<open>\<open>snes_write\<close>: every write also reaches the cartridge.\<close>

definition snes_write_with :: "(snes \<Rightarrow> snes outcome) \<Rightarrow> u32 \<Rightarrow> u8 \<Rightarrow> snes \<Rightarrow> snes outcome" where
  "snes_write_with run_dma adr val s =
     (let bank = bus_bank adr; a = ucast adr :: u16; io = io_bank bank in
      obind
        (if bank = 0x7e \<or> bank = 0x7f then Done (s\<lparr>sn_ram := (sn_ram s)(wram_index bank a := val)\<rparr>)
         else if io \<and> a < 0x2000 then Done (s\<lparr>sn_ram := (sn_ram s)(ucast a := val)\<rparr>)
         else if io \<and> 0x2100 \<le> a \<and> a < 0x2200 then snes_writeBBus (lo8 a) val s
         else if io \<and> 0x4200 \<le> a \<and> a < 0x4220 then snes_writeReg run_dma a val s
         else if io \<and> 0x4300 \<le> a \<and> a < 0x4380 then Done (s\<lparr>sn_dma := dma_write a val (sn_dma s)\<rparr>)
         else Done s)
        (\<lambda>s. Done (s\<lparr>sn_cart := cart_write (sn_cart s) bank a val\<rparr>)))"

section \<open>DMA transfers\<close>

definition upd_dma :: "(dma \<Rightarrow> dma) \<Rightarrow> snes \<Rightarrow> snes" where
  "upd_dma f s = s\<lparr>sn_dma := f (sn_dma s)\<rparr>"

definition upd_dma_channel :: "nat \<Rightarrow> (dma_channel \<Rightarrow> dma_channel) \<Rightarrow> dma \<Rightarrow> dma" where
  "upd_dma_channel i f dma = dma\<lparr>dma_channels := (dma_channels dma)[i := f (dma_channels dma ! i)]\<rparr>"

definition dma_transferByte ::
    "(u32 \<Rightarrow> u8 \<Rightarrow> snes \<Rightarrow> snes outcome) \<Rightarrow> u16 \<Rightarrow> u8 \<Rightarrow> u8 \<Rightarrow> bool \<Rightarrow> snes \<Rightarrow> snes outcome" where
  "dma_transferByte write aAdr aBank bAdr fromB s =
     (if fromB then obind (snes_readBBus bAdr s) (\<lambda>(val, s). write (adr24 aBank aAdr) val s)
      else obind (snes_read (adr24 aBank aAdr) s) (\<lambda>(val, s). snes_writeBBus bAdr val s))"

definition dma_first_active :: "dma \<Rightarrow> nat option" where
  "dma_first_active dma = List.find (\<lambda>i. dc_dmaActive (dma_channels dma ! i)) [0..<8]"

text \<open>The bookkeeping after a byte.\<close>

definition dma_byte_done :: "nat \<Rightarrow> dma \<Rightarrow> dma" where
  "dma_byte_done i dma =
     (let dma = upd_dma_channel i (\<lambda>c. c\<lparr>dc_offIndex := dc_offIndex c AND 3\<rparr>) dma;
          dma = dma\<lparr>dma_dmaTimer := dma_dmaTimer dma + 6\<rparr>;
          dma = upd_dma_channel i (\<lambda>c. if dc_fixed c then c
            else c\<lparr>dc_aAdr := dc_aAdr c + (if dc_decrement c then - 1 else 1)\<rparr>) dma;
          dma = upd_dma_channel i (\<lambda>c. c\<lparr>dc_size := dc_size c - 1\<rparr>) dma
      in if dc_size (dma_channels dma ! i) = 0 then
           (upd_dma_channel i (\<lambda>c. c\<lparr>dc_offIndex := 0, dc_dmaActive := False\<rparr>) dma)
             \<lparr>dma_dmaTimer := dma_dmaTimer dma + 8\<rparr>
         else dma)"

definition dma_doDma :: "(u32 \<Rightarrow> u8 \<Rightarrow> snes \<Rightarrow> snes outcome) \<Rightarrow> snes \<Rightarrow> snes outcome" where
  "dma_doDma write s =
     (if dma_dmaTimer (sn_dma s) > 0
      then Done (upd_dma (\<lambda>dma. dma\<lparr>dma_dmaTimer := dma_dmaTimer dma - 2\<rparr>) s)
      else case dma_first_active (sn_dma s) of
        None \<Rightarrow> Done (upd_dma (\<lambda>dma. dma\<lparr>dma_dmaBusy := False\<rparr>) s)
      | Some i \<Rightarrow>
          let c = dma_channels (sn_dma s) ! i;
              bAdr = dc_bAdr c + bAdrOffsets ! unat (dc_mode c) ! unat (dc_offIndex c);
              s = upd_dma (upd_dma_channel i (\<lambda>c. c\<lparr>dc_offIndex := dc_offIndex c + 1\<rparr>)) s
          in obind (dma_transferByte write (dc_aAdr c) (dc_aBank c) bAdr (dc_fromB c) s)
               (\<lambda>s. Done (upd_dma (dma_byte_done i) s)))"

definition dma_cycle :: "(u32 \<Rightarrow> u8 \<Rightarrow> snes \<Rightarrow> snes outcome) \<Rightarrow> snes \<Rightarrow> (bool \<times> snes) outcome" where
  "dma_cycle write s =
     (if dma_dmaBusy (sn_dma s) then obind (dma_doDma write s) (\<lambda>s. Done (True, s)) else Done (False, s))"

text \<open>The loop \<open>while (dma_cycle(dma)) {}\<close>, and the writes it may nest in.\<close>

primrec dma_run :: "(u32 \<Rightarrow> u8 \<Rightarrow> snes \<Rightarrow> snes outcome) \<Rightarrow> nat \<Rightarrow> snes \<Rightarrow> snes outcome" where
  "dma_run write 0 s = Fuel_out"
| "dma_run write (Suc n) s =
     obind (dma_cycle write s) (\<lambda>(more, s). if more then dma_run write n s else Done s)"

primrec snes_write :: "nat \<Rightarrow> u32 \<Rightarrow> u8 \<Rightarrow> snes \<Rightarrow> snes outcome" where
  "snes_write 0 = snes_write_with (\<lambda>s. Fuel_out)"
| "snes_write (Suc n) = snes_write_with (dma_run (snes_write n) (Suc n))"

end
