(* ===== verification/Snes_Regs.thy ===== *)
theory Snes_Regs
  imports Snes_Bus
begin

text \<open>
  The internal registers of \<open>snes/snes.c\<close>: the synthesised beam position behind \<open>$4212\<close>, the
  joypad words, and the multiplier and divider.
\<close>

section \<open>The beam position\<close>

text \<open>The dot within a frame of 262 lines of 1364 dots.\<close>

definition beam :: "snes \<Rightarrow> nat" where
  "beam s = unat (sn_vPos s) * 1364 + unat (sn_hPos s)"

definition beam_wf :: "snes \<Rightarrow> bool" where
  "beam_wf s \<longleftrightarrow> unat (sn_hPos s) < 1364 \<and> unat (sn_vPos s) < 262"

lemma unat_of_nat_u16: "n < 65536 \<Longrightarrow> unat (of_nat n :: u16) = n"
  by (simp add: unat_of_nat take_bit_nat_eq_self_iff)

lemma hvbjoy_beam:
  assumes "beam_wf s"
  shows "beam (hvbjoy_step s) = (beam s + 64) mod (262 * 1364) \<and> beam_wf (hvbjoy_step s)"
proof -
  define h where "h = unat (sn_hPos s)"
  define v where "v = unat (sn_vPos s)"
  have hv: "h < 1364" "v < 262" using assms by (simp_all add: beam_wf_def h_def v_def)
  have h': "unat (of_nat ((h + 64) mod 1364) :: u16) = (h + 64) mod 1364"
    by (rule unat_of_nat_u16) (rule less_trans [OF mod_less_divisor], simp_all)
  have v': "unat (of_nat ((v + 1) mod 262) :: u16) = (v + 1) mod 262"
    by (rule unat_of_nat_u16) (rule less_trans [OF mod_less_divisor], simp_all)
  show ?thesis
  proof (cases "h + 64 < 1364")
    case True
    then have "v * 1364 + h + 64 < 262 * 1364" using hv by linarith
    with True h' hv show ?thesis
      by (simp add: hvbjoy_step_def Let_def beam_def beam_wf_def word_less_nat_alt flip: h_def v_def)
  next
    case False
    then have m: "(h + 64) mod 1364 = h + 64 - 1364" using hv by (simp add: mod_if)
    have "(v * 1364 + h + 64) mod (262 * 1364) = (v + 1) mod 262 * 1364 + (h + 64 - 1364)"
      using False hv by (cases "v = 261") (simp_all add: mod_if)
    moreover have "(v + 1) mod 262 < 262" by simp
    ultimately show ?thesis using m h' v' False hv
      by (simp add: hvbjoy_step_def Let_def beam_def beam_wf_def word_less_nat_alt flip: h_def v_def)
  qed
qed

lemma beam_after_reads:
  assumes "beam_wf s"
  shows "beam ((hvbjoy_step ^^ n) s) = (beam s + 64 * n) mod (262 * 1364) \<and> beam_wf ((hvbjoy_step ^^ n) s)"
proof (induction n)
  case 0
  have "beam s < 262 * 1364" using assms by (simp add: beam_def beam_wf_def)
  with assms show ?case by simp
next
  case (Suc n)
  then show ?case using hvbjoy_beam [of "(hvbjoy_step ^^ n) s"] by (simp add: mod_simps ac_simps)
qed

lemma hvbjoy_other: "sn_inVblank (hvbjoy_step s) = sn_inVblank s" "sn_autoJoyTimer (hvbjoy_step s) = sn_autoJoyTimer s"
  by (simp_all add: hvbjoy_step_def Let_def)

lemma hvbjoy_bits:
  "bit (fst (snes_readReg 0x4212 s)) 7 \<longleftrightarrow> sn_inVblank s \<or> sn_vPos (hvbjoy_step s) \<ge> 225"
  "bit (fst (snes_readReg 0x4212 s)) 6 \<longleftrightarrow> sn_hPos (hvbjoy_step s) \<ge> 1024"
  "snd (snes_readReg 0x4212 s) = hvbjoy_step s"
  by (simp_all add: snes_readReg_def Let_def bit_simps hvbjoy_other)

text \<open>The state after \<open>n\<close> reads of the status register, and what the next one returns.\<close>

definition poll :: "nat \<Rightarrow> snes \<Rightarrow> u8" where
  "poll n s = fst (snes_readReg 0x4212 (((\<lambda>s. snd (snes_readReg 0x4212 s)) ^^ n) s))"

lemma poll_reads: "((\<lambda>s. snd (snes_readReg 0x4212 s)) ^^ n) s = (hvbjoy_step ^^ n) s"
  by (simp add: hvbjoy_bits)

lemma beam_vblank: "beam_wf s \<Longrightarrow> 225 * 1364 \<le> beam s \<longleftrightarrow> sn_vPos s \<ge> 225"
  by (auto simp: beam_def beam_wf_def word_le_nat_alt)

lemma poll_vblank:
  assumes "beam_wf s" "\<not> sn_inVblank s"
  shows "bit (poll n s) 7 \<longleftrightarrow> 225 * 1364 \<le> (beam s + 64 * Suc n) mod (262 * 1364)"
proof -
  have "\<not> sn_inVblank ((hvbjoy_step ^^ k) s)" for k
    using assms(2) by (induction k) (simp_all add: hvbjoy_other)
  then have "bit (poll n s) 7 \<longleftrightarrow> sn_vPos ((hvbjoy_step ^^ Suc n) s) \<ge> 225"
    unfolding poll_def poll_reads hvbjoy_bits by simp
  then show ?thesis
    using beam_after_reads [OF assms(1), of "Suc n"] beam_vblank by metis
qed

text \<open>Steps of 64 cannot jump over either region of the frame.\<close>

lemma div_steps:
  fixes a :: nat
  obtains q r where "a = 64 * q + r" "r < 64"
  by (rule that [of "a div 64" "a mod 64"]) simp_all

lemma steps_to_line:
  fixes b line :: nat
  assumes "b < line" "line \<le> 307008"
  shows "\<exists>n < 4797. line \<le> b + 64 * Suc n \<and> b + 64 * Suc n < line + 64"
proof -
  obtain n r where "line - 1 - b = 64 * n + r" "r < 64" by (rule div_steps)
  then show ?thesis using assms by (intro exI [of _ n]) auto
qed

lemma beam_reaches_vblank:
  fixes b :: nat
  assumes "b < 357368"
  shows "\<exists>n < 4797. 306900 \<le> (b + 64 * Suc n) mod 357368"
proof -
  consider "b + 64 < 306900" | "306900 \<le> b + 64" "b + 64 < 357368" | "357368 \<le> b + 64" by linarith
  then show ?thesis
  proof cases
    case 1
    then obtain n where "n < 4797" "306900 \<le> b + 64 * Suc n" "b + 64 * Suc n < 306900 + 64"
      using steps_to_line [of b 306900] by auto
    then show ?thesis by (intro exI [of _ n]) simp
  next
    case 2
    then show ?thesis by (intro exI [of _ 0]) simp
  next
    case 3
    define r where "r = b + 64 - 357368"
    then have r: "r < 64" "b + 64 = 357368 + r" using 3 assms by simp_all
    have "306900 \<le> r + 64 * Suc 4794 \<and> r + 64 * Suc 4794 < 357368 \<or> 306900 \<le> r + 64 * Suc 4795 \<and> r + 64 * Suc 4795 < 357368"
      using r(1) by (cases "r < 20") simp_all
    moreover have "(b + 64 * Suc (Suc n)) mod 357368 = (r + 64 * Suc n) mod 357368" for n
    proof -
      have "b + 64 * Suc (Suc n) = 357368 + (r + 64 * Suc n)" using r(2) by simp
      then show ?thesis by (simp only: mod_add_self1)
    qed
    ultimately have "306900 \<le> (b + 64 * Suc (Suc 4794)) mod 357368 \<or> 306900 \<le> (b + 64 * Suc (Suc 4795)) mod 357368"
      by (metis mod_less)
    then show ?thesis
      by (elim disjE) (rule exI [of _ "Suc 4794"], simp, rule exI [of _ "Suc 4795"], simp)
  qed
qed

lemma beam_leaves_vblank:
  fixes b :: nat
  assumes "b < 357368"
  shows "\<exists>n < 4797. (b + 64 * Suc n) mod 357368 < 306900"
proof (cases "b + 64 < 306900")
  case False
  obtain n r where "357367 - b = 64 * n + r" "r < 64" by (rule div_steps)
  then have n: "357368 \<le> b + 64 * Suc n" "b + 64 * Suc n < 357368 + 64" "n < 4797"
    using assms False by auto
  then have "(b + 64 * Suc n) mod 357368 = b + 64 * Suc n - 357368" by (simp add: mod_if)
  moreover have "b + 64 * Suc n - 357368 < 306900" using n(2) by linarith
  ultimately show ?thesis using n(3) by (intro exI [of _ n]) simp
qed (intro exI [of _ 0], simp)

text \<open>
  C25. A loop that polls \<open>$4212\<close> cannot hang: from every beam position the vertical-blank flag is
  read as set within 4797 polls and as clear within 4797 polls, although no clock advances between
  the reads. (While the frame loop itself holds the blank flag it reads as set.)
\<close>

theorem hvbjoy_vblank_edges:
  assumes "beam_wf s" "\<not> sn_inVblank s"
  shows "(\<exists>n < 4797. bit (poll n s) 7) \<and> (\<exists>n < 4797. \<not> bit (poll n s) 7)"
proof -
  have "beam s < 357368" using assms(1) by (simp add: beam_def beam_wf_def)
  from beam_reaches_vblank [OF this] beam_leaves_vblank [OF this] show ?thesis
    by (simp add: poll_vblank [OF assms] not_le)
qed

text \<open>A system just after reset, for the instances.\<close>

definition idle_snes :: snes where
  "idle_snes = \<lparr>sn_apu = idle_spc, sn_port_clock = port_clock_init, sn_env = (\<lambda>_. \<lparr>tc_cycles = 0, tc_now_ns = 5\<rparr>),
     sn_touches = 0, sn_ppu = ppu_reset, sn_dma = dma_reset, sn_cart = cart_load 1 (replicate 4 0) 4 4,
     sn_input1 = 0, sn_input2 = 0, sn_ramAdr = 0, sn_ram = (\<lambda>_. 0), sn_hPos = 0, sn_vPos = 0,
     sn_hIrqEnabled = False, sn_vIrqEnabled = False, sn_nmiEnabled = False, sn_hTimer = 0x1ff, sn_vTimer = 0x1ff,
     sn_inNmi = False, sn_inIrq = False, sn_inVblank = False, sn_autoJoyRead = False, sn_autoJoyTimer = 0,
     sn_ppuLatch = False, sn_multiplyA = 0xff, sn_multiplyResult = 0xfe01, sn_divideA = 0xffff,
     sn_divideResult = 0x101\<rparr>"

theorem hvbjoy_vblank_edges_witness:
  "(\<exists>n < 4797. bit (poll n idle_snes) 7) \<and> (\<exists>n < 4797. \<not> bit (poll n idle_snes) 7)"
  by (rule hvbjoy_vblank_edges) (simp_all add: beam_wf_def idle_snes_def)

section \<open>Joypad words\<close>

lemma swap_steps:
  "k \<le> 16 \<Longrightarrow> bit (fst ((swap_step ^^ k) (0, x))) n = (n < k \<and> bit x (k - 1 - n))
    \<and> snd ((swap_step ^^ k) (0, x)) = drop_bit k x" for k n :: nat
proof (induction k arbitrary: n)
  case (Suc k)
  define r where "r = fst ((swap_step ^^ k) (0, x))"
  have x: "snd ((swap_step ^^ k) (0, x)) = drop_bit k x" using Suc by simp
  have r: "bit r m = (m < k \<and> bit x (k - 1 - m))" for m using Suc unfolding r_def by simp
  have "r * 2 + (drop_bit k x AND 1) = 2 * r OR (drop_bit k x AND 1)"
    by (subst mult.commute, rule disjunctive_add) (auto simp: bit_double_iff bit_simps)
  then have "bit (r * 2 + (drop_bit k x AND 1)) n = (n < Suc k \<and> bit x (k - n))"
    using r[of "n - 1"] Suc.prems by (cases n) (auto simp: bit_double_iff bit_simps dest: bit_imp_le_length)
  moreover have "(swap_step ^^ Suc k) (0, x) = (r * 2 + (drop_bit k x AND 1), drop_bit (Suc k) x)"
    using x by (simp add: r_def) (simp add: swap_step_def case_prod_beta)
  ultimately show ?case by (simp only: fst_conv snd_conv) simp
qed simp

lemma swap_bits: "bit (SwapInputBits x) n = (n < 16 \<and> bit x (15 - n))"
  using swap_steps [of 16 x n] by (simp add: SwapInputBits_def)

text \<open>
  \<open>SwapInputBits\<close> reverses the sixteen button bits, as the auto-read joypad registers present
  them: bit \<open>n\<close> of the result is bit \<open>15 - n\<close> of the argument, and swapping twice is the identity.
\<close>

theorem SwapInputBits_reverses:
  "bit (SwapInputBits x) n = (n < 16 \<and> bit x (15 - n)) \<and> SwapInputBits (SwapInputBits x) = x"
proof
  show "SwapInputBits (SwapInputBits x) = x"
    by (rule bit_word_eqI) (auto simp: swap_bits)
qed (rule swap_bits)

section \<open>Multiplier and divider\<close>

lemma mult_fits: "unat ((ucast (a :: u8) :: u16) * ucast (b :: u8)) = unat a * unat b"
proof -
  have "unat a * unat b \<le> 255 * 255"
    using unat_u8_less[of a] unat_u8_less[of b] by (intro mult_le_mono) linarith+
  then show ?thesis by (simp add: unat_word_ariths)
qed

text \<open>Writing the registers in turn, and the result registers read back as a number.\<close>

definition write_regs :: "(u16 \<times> u8) list \<Rightarrow> snes \<Rightarrow> snes outcome" where
  "write_regs ws s = fold (\<lambda>(adr, val) r. obind r (snes_writeReg (\<lambda>s. Fuel_out) adr val)) ws (Done s)"

definition read_reg16 :: "u16 \<Rightarrow> snes \<Rightarrow> nat" where
  "read_reg16 adr s = unat (word16 (fst (snes_readReg adr s)) (fst (snes_readReg (adr + 1) s)))"

lemma read_results:
  "read_reg16 0x4216 s = unat (sn_multiplyResult s)" "read_reg16 0x4214 s = unat (sn_divideResult s)"
  by (simp_all add: read_reg16_def snes_readReg_def)

text \<open>
  C26. The arithmetic registers: writing the factors to \<open>$4202\<close> and \<open>$4203\<close> makes \<open>$4216\<close> hold
  the exact product; writing a dividend to \<open>$4204\<close> and \<open>$4205\<close> and a divisor to \<open>$4206\<close> makes
  \<open>$4214\<close> hold the quotient and \<open>$4216\<close> the remainder, and for divisor zero \<open>0xffff\<close> and the
  dividend.
\<close>

theorem arithmetic_registers:
  "(\<exists>s'. write_regs [(0x4202, a), (0x4203, b)] s = Done s' \<and> read_reg16 0x4216 s' = unat a * unat b) \<and>
   (\<exists>s'. write_regs [(0x4204, l), (0x4205, h), (0x4206, d)] s = Done s' \<and>
      (let n = unat (word16 l h) in
       if d = 0 then read_reg16 0x4214 s' = 0xffff \<and> read_reg16 0x4216 s' = n
       else read_reg16 0x4214 s' = n div unat d \<and> read_reg16 0x4216 s' = n mod unat d))"
  by (simp add: write_regs_def snes_writeReg_def read_results mult_fits divide_write_def put_word16 Let_def
      unat_div unat_mod)

end
