(* ===== verification/Snes_Invariants.thy ===== *)
theory Snes_Invariants
  imports Snes_Regs
begin

text \<open>
  What every bus access keeps true of the whole system, nested transfers included, and how the
  fuel of bus writes behaves. The locale \<open>dma_bus\<close> is the contract between the transfer engine
  and the bus it writes to: given that the bus keeps an invariant, so does the transfer loop. It is
  interpreted on \<open>snes_write\<close> itself.
\<close>

section \<open>Outcomes\<close>

definition holds :: "('a \<Rightarrow> bool) \<Rightarrow> 'a outcome \<Rightarrow> bool" where
  "holds P r \<longleftrightarrow> (\<forall>x. r = Done x \<longrightarrow> P x)"

lemma holds_simps [simp]: "holds P (Done x) = P x" "holds P Abort" "holds P Fuel_out"
  by (simp_all add: holds_def)

lemma holds_obind: "holds P r \<Longrightarrow> (\<And>x. P x \<Longrightarrow> holds Q (f x)) \<Longrightarrow> holds Q (obind r f)"
  by (cases r) simp_all

section \<open>The transfer engine over a bus\<close>

definition dma_shape :: "dma \<Rightarrow> bool" where
  "dma_shape dma \<longleftrightarrow> length (dma_channels dma) = 8 \<and> list_all (\<lambda>c. dc_mode c < 8) (dma_channels dma)"

locale dma_bus =
  fixes wr :: "u32 \<Rightarrow> u8 \<Rightarrow> snes \<Rightarrow> snes outcome" and I :: "snes \<Rightarrow> bool"
  assumes write_ok: "I s \<Longrightarrow> holds I (wr adr val s)"
    and read_ok: "I s \<Longrightarrow> holds (\<lambda>r. I (snd r)) (snes_read adr s)"
    and readBBus_ok: "I s \<Longrightarrow> holds (\<lambda>r. I (snd r)) (snes_readBBus b s)"
    and writeBBus_ok: "I s \<Longrightarrow> holds I (snes_writeBBus b val s)"
    and channel_ok: "I s \<Longrightarrow> (\<And>c. dc_mode (f c) = dc_mode c) \<Longrightarrow> I (upd_dma (upd_dma_channel i f) s)"
    and timer_ok: "I s \<Longrightarrow> I (upd_dma (\<lambda>d. d\<lparr>dma_dmaTimer := t d\<rparr>) s)"
    and busy_ok: "I s \<Longrightarrow> I (upd_dma (\<lambda>d. d\<lparr>dma_dmaBusy := b'\<rparr>) s)"
begin

lemma transfer_ok: "I s \<Longrightarrow> holds I (dma_transferByte wr aAdr aBank b fromB s)"
  unfolding dma_transferByte_def
  using holds_obind [OF readBBus_ok, where Q = I] holds_obind [OF read_ok, where Q = I] write_ok writeBBus_ok
  by (auto simp: case_prod_beta)

lemma byte_done_ok: "I s \<Longrightarrow> I (upd_dma (dma_byte_done i) s)"
proof -
  assume s: "I s"
  define s1 where "s1 = upd_dma (upd_dma_channel i (\<lambda>c. c\<lparr>dc_offIndex := dc_offIndex c AND 3\<rparr>)) s"
  define s2 where "s2 = upd_dma (\<lambda>d. d\<lparr>dma_dmaTimer := dma_dmaTimer d + 6\<rparr>) s1"
  define s3 where "s3 = upd_dma (upd_dma_channel i (\<lambda>c. if dc_fixed c then c
    else c\<lparr>dc_aAdr := dc_aAdr c + (if dc_decrement c then - 1 else 1)\<rparr>)) s2"
  define s4 where "s4 = upd_dma (upd_dma_channel i (\<lambda>c. c\<lparr>dc_size := dc_size c - 1\<rparr>)) s3"
  define s5 where "s5 = upd_dma (\<lambda>d. d\<lparr>dma_dmaTimer := dma_dmaTimer d + 8\<rparr>)
    (upd_dma (upd_dma_channel i (\<lambda>c. c\<lparr>dc_offIndex := 0, dc_dmaActive := False\<rparr>)) s4)"
  have "I s1" unfolding s1_def by (intro channel_ok s) simp_all
  then have "I s2" unfolding s2_def by (rule timer_ok)
  then have "I s3" unfolding s3_def by (intro channel_ok) simp_all
  then have "I s4" unfolding s4_def by (intro channel_ok) simp_all
  then have "I s5" unfolding s5_def by (intro timer_ok channel_ok) simp_all
  moreover have "upd_dma (dma_byte_done i) s = (if dc_size (dma_channels (sn_dma s4) ! i) = 0 then s5 else s4)"
    unfolding s5_def s4_def s3_def s2_def s1_def by (simp add: upd_dma_def dma_byte_done_def Let_def upd_dma_channel_def)
  ultimately show "I (upd_dma (dma_byte_done i) s)" using \<open>I s4\<close> by simp
qed

lemma doDma_ok: "I s \<Longrightarrow> holds I (dma_doDma wr s)"
  unfolding dma_doDma_def Let_def
  by (auto intro!: timer_ok busy_ok holds_obind [OF transfer_ok, where Q = I] channel_ok byte_done_ok split: option.split)

lemma cycle_ok: "I s \<Longrightarrow> holds (\<lambda>r. I (snd r)) (dma_cycle wr s)"
  unfolding dma_cycle_def by (auto intro: holds_obind [OF doDma_ok])

lemma run_ok: "I s \<Longrightarrow> holds I (dma_run wr n s)"
proof (induction n arbitrary: s)
  case (Suc n)
  show ?case unfolding dma_run.simps
    by (rule holds_obind [OF cycle_ok [OF Suc.prems]]) (use Suc.IH in \<open>auto split: prod.split\<close>)
qed simp

end

section \<open>The invariant of the system\<close>

definition ppu_wf :: "ppu \<Rightarrow> bool" where
  "ppu_wf ppu \<longleftrightarrow> length (ppu_bgXsc ppu) = 4 \<and> length (ppu_hScroll ppu) = 4 \<and> length (ppu_vScroll ppu) = 4
     \<and> length (ppu_m7matrix ppu) = 8 \<and> length (ppu_screenEnabled ppu) = 2 \<and> length (ppu_screenWindowed ppu) = 2
     \<and> ppu_vramRemapMode ppu < 4 \<and> ppu_vramIncrement ppu \<in> {1, 32, 128} \<and> ppu_bgmode ppu < 16"

definition snes_wf :: "snes \<Rightarrow> bool" where
  "snes_wf s \<longleftrightarrow> sn_ramAdr s < 0x20000 \<and> apu_reach (sn_apu s) \<and> dma_shape (sn_dma s) \<and> cart_wf (sn_cart s)
     \<and> ppu_wf (sn_ppu s) \<and> beam_wf s \<and> sn_hTimer s < 0x200 \<and> sn_vTimer s < 0x200"

lemma list_all_upd: "list_all P xs \<Longrightarrow> (\<And>c. P c \<Longrightarrow> P (f c)) \<Longrightarrow> list_all P (xs[i := f (xs ! i)])"
  by (cases "i < length xs") (simp_all add: list_all_update list_all_nth list_update_beyond)

lemma snes_wf_parts:
  "snes_wf s \<Longrightarrow> apu_reach spc \<Longrightarrow> snes_wf (s\<lparr>sn_apu := spc\<rparr>)"
  "snes_wf s \<Longrightarrow> apu_reach spc \<Longrightarrow> snes_wf (s\<lparr>sn_apu := spc, sn_port_clock := pc\<rparr>)"
  "snes_wf s \<Longrightarrow> ppu_wf ppu \<Longrightarrow> snes_wf (s\<lparr>sn_ppu := ppu\<rparr>)"
  "snes_wf s \<Longrightarrow> dma_shape dma \<Longrightarrow> snes_wf (s\<lparr>sn_dma := dma\<rparr>)"
  "snes_wf s \<Longrightarrow> cart_wf cart \<Longrightarrow> snes_wf (s\<lparr>sn_cart := cart\<rparr>)"
  "snes_wf s \<Longrightarrow> snes_wf (s\<lparr>sn_ram := ram\<rparr>)"
  "snes_wf s \<Longrightarrow> snes_wf (s\<lparr>sn_touches := n\<rparr>)"
  "snes_wf s \<Longrightarrow> a < 0x20000 \<Longrightarrow> snes_wf (s\<lparr>sn_ramAdr := a\<rparr>)"
  by (simp_all add: snes_wf_def beam_wf_def)

lemma channel_shape:
  "dma_shape dma \<Longrightarrow> (\<And>c. dc_mode (f c) = dc_mode c) \<Longrightarrow> dma_shape (upd_dma_channel i f dma)"
  by (simp add: dma_shape_def upd_dma_channel_def list_all_upd)

lemma dma_write_shape: "dma_shape dma \<Longrightarrow> dma_shape (dma_write adr val dma)"
proof -
  have "val AND 7 = take_bit 3 val" by (simp add: take_bit_eq_mask mask_eq_exp_minus_1)
  then have "val AND 7 < 8" by (simp add: word_less_nat_alt take_bit_eq_mod unat_mod)
  then show "dma_shape dma \<Longrightarrow> ?thesis"
    unfolding dma_shape_def dma_write_def Let_def
    by (auto intro!: list_all_upd simp: dma_channel_write_def)
qed

lemma dma_start_shape: "dma_shape dma \<Longrightarrow> dma_shape (dma_startDma val h dma)"
  by (auto simp: dma_shape_def dma_startDma_def Let_def list_all_length)

section \<open>The picture processor's registers keep their shape\<close>

lemma ppu_read_wf: "ppu_wf ppu \<Longrightarrow> ppu_read adr ppu = Some (val, ppu') \<Longrightarrow> ppu_wf ppu'"
  by (auto simp: ppu_read_def oam_read_def oam_step_def vram_step_def vram_prefetch_def Let_def ppu_wf_def split: if_splits)

lemma and_fields: "(v::u8) AND 3 < 4" "(v::u8) AND 0xf0 = 0 \<Longrightarrow> v < 16"
proof -
  show "v AND 3 < 4" using and_3_less[of v] by (simp add: word_less_nat_alt)
  have "(0xff :: u8) = - 1" by simp
  then have "v AND 0xff = v" by (simp only: and.right_neutral)
  then have "v = (v AND 0xf0) OR (v AND 0xf)" by (simp flip: bit.conj_disj_distrib)
  moreover have "v AND 0xf < 16" using and_15[of v] by (simp add: word_less_nat_alt word_le_nat_alt)
  ultimately show "v AND 0xf0 = 0 \<Longrightarrow> v < 16" by simp
qed

lemma ppu_helpers_wf:
  assumes "ppu_wf ppu"
  shows "ppu_wf (oam_write val ppu)" "ppu_wf (m7_write i m val ppu)" "ppu_wf (hscroll_write i val ppu)"
    "ppu_wf (vscroll_write i val ppu)" "ppu_wf (vmain_write val ppu)" "ppu_wf (vram_write_low val ppu)"
    "ppu_wf (vram_write_high val ppu)" "ppu_wf (cgram_write val ppu)" "ppu_wf (coldata_write val ppu)"
    "ppu_wf (vram_prefetch ppu)"
  using assms
  by (simp_all add: ppu_wf_def oam_write_def oam_step_def vram_step_def vram_prefetch_def m7_write_def hscroll_write_def
      vscroll_write_def vmain_write_def vram_write_low_def vram_write_high_def cgram_write_def coldata_write_def
      and_fields Let_def)

lemma pred_option_if: "pred_option P (if b then x else y) = (if b then pred_option P x else pred_option P y)"
  by simp

lemma vramPointer_wf: "ppu_wf (ppu\<lparr>ppu_vramPointer := a\<rparr>) = ppu_wf ppu"
  by (simp add: ppu_wf_def)

lemma ppu_write_wf: "ppu_wf ppu \<Longrightarrow> pred_option ppu_wf (ppu_write adr val ppu)"
  unfolding ppu_write_def
  by (simp only: pred_option_if option.pred_inject)
    (simp add: ppu_helpers_wf vramPointer_wf, simp add: ppu_wf_def and_fields)

section \<open>The bus keeps the invariant\<close>

lemma or_below: "x < 0x20000 \<Longrightarrow> y < 0x20000 \<Longrightarrow> x OR y < 0x20000" for x y :: u32
proof -
  have t: "w < 0x20000 \<longleftrightarrow> take_bit 17 w = w" for w :: u32
    by (auto simp: word_less_nat_alt word_unat_eq_iff take_bit_eq_mod unat_mod mod_eq_self_iff_div_eq_0 div_eq_0_iff)
  show "x < 0x20000 \<Longrightarrow> y < 0x20000 \<Longrightarrow> ?thesis" by (simp add: t)
qed

lemma and_below: "c < 0x20000 \<Longrightarrow> x AND c < 0x20000" for x c :: u32
  using word_and_le1[of x c] by (simp add: word_le_nat_alt word_less_nat_alt)

lemma byte_below: "(ucast (v :: u8) :: u32) < 0x20000" "push_bit 8 (ucast (v :: u8) :: u32) < 0x20000"
  "push_bit 16 (ucast ((v :: u8) AND 1) :: u32) < 0x20000"
proof -
  have v: "unat v < 256" by simp
  show "(ucast v :: u32) < 0x20000" using v by (simp only: word_less_nat_alt unat_ucast_up) (rule less_trans, assumption, simp)
  have "unat v * 256 < 4294967296" using v by linarith
  then have "unat (push_bit 8 (ucast v) :: u32) = unat v * 256"
    by (simp add: push_bit_eq_mult unat_word_ariths)
  then show "push_bit 8 (ucast v :: u32) < 0x20000" using less_trans [OF v, of 512] by (simp add: word_less_nat_alt)
  have "unat (v AND 1) \<le> 1" by (simp add: and_one_eq unat_mod)
  then show "push_bit 16 (ucast (v AND 1) :: u32) < 0x20000" by (simp only: word_less_nat_alt unat_bank) simp
qed

lemmas ram_pointer_bounds = or_below and_below byte_below

lemma catchup_wf: "snes_wf s \<Longrightarrow> apu_reach (snes_catchupApu n (sn_apu s))"
  by (simp add: snes_wf_def snes_catchupApu_def catchup_reach)

lemma RtlApuWrite_wf: "apu_reach spc \<Longrightarrow> RtlApuWrite tc adr val (spc, pc) = Some (spc', pc') \<Longrightarrow> apu_reach spc'"
  by (auto simp: RtlApuWrite_def snes_catchupApu_def Let_def case_prod_beta catchup_reach intro: apu_reach.port_write split: if_splits)

lemma readBBus_wf: "snes_wf s \<Longrightarrow> holds (\<lambda>r. snes_wf (snd r)) (snes_readBBus b s)"
proof -
  assume wf: "snes_wf s"
  have ppu: "ppu_read b (sn_ppu s) = Some (v, ppu) \<Longrightarrow> ppu_wf ppu" for v ppu
    using wf ppu_read_wf by (auto simp: snes_wf_def)
  have "snes_wf (s\<lparr>sn_touches := k, sn_apu := snes_catchupApu n (sn_apu s)\<rparr>)" for k n
    using snes_wf_parts(1) [OF snes_wf_parts(7) [OF wf, of k] catchup_wf [OF wf, of n]] by simp
  then show ?thesis
    using wf by (auto simp: snes_readBBus_def next_touch_def Let_def ppu snes_wf_parts ram_pointer_bounds split: option.split)
qed

lemma writeBBus_wf: "snes_wf s \<Longrightarrow> holds snes_wf (snes_writeBBus b val s)"
proof -
  assume wf: "snes_wf s"
  have ppu: "ppu_write b val (sn_ppu s) = Some ppu \<Longrightarrow> ppu_wf ppu" for ppu
    using wf ppu_write_wf [of "sn_ppu s" b val] by (auto simp: snes_wf_def)
  have apu: "RtlApuWrite tc adr val (sn_apu s, pc) = Some (spc, pc') \<Longrightarrow> apu_reach spc" for tc adr pc spc pc'
    using wf RtlApuWrite_wf by (auto simp: snes_wf_def)
  have "apu_reach spc \<Longrightarrow> snes_wf (s\<lparr>sn_touches := k, sn_apu := spc, sn_port_clock := pc\<rparr>)" for k spc pc
    using snes_wf_parts(2) [OF snes_wf_parts(7) [OF wf]] by simp
  moreover have "a < 0x20000 \<Longrightarrow> snes_wf (s\<lparr>sn_ram := ram, sn_ramAdr := a\<rparr>)" for a ram
    using snes_wf_parts(8) [OF snes_wf_parts(6) [OF wf]] by simp
  ultimately show ?thesis
    using wf by (auto simp: snes_writeBBus_def next_touch_def Let_def ppu snes_wf_parts ram_pointer_bounds
        split: option.split dest: apu)
qed

lemma readReg_wf: "snes_wf s \<Longrightarrow> snes_wf (snd (snes_readReg adr s))"
proof -
  assume wf: "snes_wf s"
  have "snes_wf (hvbjoy_step s)"
    using wf hvbjoy_beam [of s] by (auto simp: snes_wf_def hvbjoy_step_def Let_def)
  moreover have "snes_wf (s\<lparr>sn_inNmi := b\<rparr>)" "snes_wf (s\<lparr>sn_inIrq := b\<rparr>)" for b
    using wf by (simp_all add: snes_wf_def beam_wf_def)
  ultimately show ?thesis using wf by (simp add: snes_readReg_def Let_def)
qed

lemma bus_read_wf: "snes_wf s \<Longrightarrow> holds (\<lambda>r. snes_wf (snd r)) (snes_read adr s)"
  by (simp add: snes_read_def Let_def readBBus_wf readReg_wf split: option.split)

lemma timer_bounds: "((h :: u16) AND 0x100) OR ucast (v :: u8) < 0x200"
  "((h :: u16) AND 0xff) OR push_bit 8 (ucast ((v :: u8) AND 1)) < 0x200"
proof -
  have t: "w < 0x200 \<longleftrightarrow> take_bit 9 w = w" for w :: u16
    by (auto simp: word_less_nat_alt word_unat_eq_iff take_bit_eq_mod unat_mod mod_eq_self_iff_div_eq_0 div_eq_0_iff)
  have o: "x < 0x200 \<Longrightarrow> y < 0x200 \<Longrightarrow> x OR y < 0x200" for x y :: u16 by (simp add: t)
  have a: "c < 0x200 \<Longrightarrow> x AND c < 0x200" for x c :: u16
    using word_and_le1[of x c] by (simp add: word_le_nat_alt word_less_nat_alt)
  have "(ucast v :: u16) < 0x200"
    by (simp only: word_less_nat_alt unat_ucast_up) (rule less_trans [OF unat_u8_less], simp)
  then show "(h AND 0x100) OR ucast v < 0x200" by (intro o a) simp_all
  have "v AND 1 = of_bool (bit v 0)" by (simp add: and_one_eq bit_0 mod2_eq_if)
  then have "push_bit 8 (ucast (v AND 1) :: u16) < 0x200" by (simp only:) simp
  then show "(h AND 0xff) OR push_bit 8 (ucast (v AND 1)) < 0x200" by (intro o a) simp_all
qed

lemma writeReg_wf:
  assumes "snes_wf s" "\<And>s. snes_wf s \<Longrightarrow> holds snes_wf (run s)"
  shows "holds snes_wf (snes_writeReg run adr val s)"
proof -
  have dma: "snes_wf (s\<lparr>sn_dma := dma_startDma v h (sn_dma s)\<rparr>)" for v h
    using assms(1) by (intro snes_wf_parts) (auto simp: snes_wf_def dma_start_shape)
  have nmi: "snes_wf (nmitimen_write v s)" for v
    using assms(1) by (simp add: nmitimen_write_def Let_def snes_wf_def beam_wf_def)
  have ppu: "ppu_read 0x37 (sn_ppu s) = Some (v, ppu) \<Longrightarrow> ppu_wf ppu" for v ppu
    using assms(1) ppu_read_wf by (auto simp: snes_wf_def)
  have wrio: "holds snes_wf (wrio_write v s)" for v
    using assms(1) ppu by (auto simp: wrio_write_def snes_wf_def beam_wf_def split: option.split)
  have divide: "snes_wf (divide_write v s)" for v
    using assms(1) by (simp add: divide_write_def snes_wf_def beam_wf_def)
  have "snes_wf (s\<lparr>sn_multiplyA := a\<rparr>)" "snes_wf (s\<lparr>sn_multiplyResult := r\<rparr>)" "snes_wf (s\<lparr>sn_divideA := r\<rparr>)"
    "t < 0x200 \<Longrightarrow> snes_wf (s\<lparr>sn_hTimer := t\<rparr>)" "t < 0x200 \<Longrightarrow> snes_wf (s\<lparr>sn_vTimer := t\<rparr>)" for a r t
    using assms(1) by (simp_all add: snes_wf_def beam_wf_def)
  then show ?thesis
    using dma nmi wrio divide assms by (simp add: snes_writeReg_def timer_bounds)
qed

lemma write_with_wf:
  assumes "snes_wf s" "\<And>s. snes_wf s \<Longrightarrow> holds snes_wf (run s)"
  shows "holds snes_wf (snes_write_with run adr val s)"
proof -
  have "snes_wf s' \<Longrightarrow> snes_wf (s'\<lparr>sn_cart := cart_write (sn_cart s') b a v\<rparr>)" for s' b a v
    by (intro snes_wf_parts) (auto simp: snes_wf_def cart_write_wf)
  moreover have "snes_wf (s\<lparr>sn_dma := dma_write a v (sn_dma s)\<rparr>)" for a v
    using assms(1) by (intro snes_wf_parts) (auto simp: snes_wf_def dma_write_shape)
  ultimately show ?thesis
    using assms writeReg_wf [of s run] unfolding snes_write_with_def Let_def
    by (intro holds_obind [where P = snes_wf]) (simp_all add: writeBBus_wf snes_wf_parts)
qed

lemma dma_bus_wf: "(\<And>s adr val. snes_wf s \<Longrightarrow> holds snes_wf (wr adr val s)) \<Longrightarrow> dma_bus wr snes_wf"
proof (unfold_locales, goal_cases)
  case (5 s f i)
  then have "dma_shape (upd_dma_channel i f (sn_dma s))" by (intro channel_shape) (simp_all add: snes_wf_def)
  with 5 show ?case by (simp add: upd_dma_def snes_wf_parts)
next
  case (6 s tm)
  then show ?case by (simp add: upd_dma_def snes_wf_def beam_wf_def dma_shape_def)
next
  case (7 s b)
  then show ?case by (simp add: upd_dma_def snes_wf_def beam_wf_def dma_shape_def)
qed (simp_all add: readBBus_wf writeBBus_wf bus_read_wf)

lemma bus_write_wf: "snes_wf s \<Longrightarrow> holds snes_wf (snes_write n adr val s)"
proof (induction n arbitrary: s adr val)
  case 0
  then show ?case by (simp add: write_with_wf)
next
  case (Suc n)
  note bus = dma_bus_wf [OF Suc.IH]
  show ?case unfolding snes_write.simps
    by (rule write_with_wf [OF Suc.prems]) (rule dma_bus.run_ok [OF bus])
qed

interpretation snes_dma: dma_bus "snes_write n" snes_wf for n
  by (rule dma_bus_wf) (rule bus_write_wf)


text \<open>
  C31. Every bus access keeps the whole system well formed, whatever the address and value, nested
  transfers included: the RAM data pointer stays below 128 KB, the audio unit stays in a reachable
  state, the tables of the DMA and picture processors keep their shape, the cartridge arrays keep
  their sizes, the synthetic beam stays inside the frame and the interrupt timers within nine bits.
\<close>

theorem snes_bus_keeps_wf:
  assumes "snes_wf s"
  shows "(\<forall>v s'. snes_read adr s = Done (v, s') \<longrightarrow> snes_wf s') \<and>
    (\<forall>s'. snes_write n adr val s = Done s' \<longrightarrow> snes_wf s')"
  using bus_read_wf [OF assms, of adr] bus_write_wf [OF assms, of n adr val] by (auto simp: holds_def)

lemma idle_snes_wf: "snes_wf (snes_reset True idle_snes)"
proof -
  have "apu_reach (apu_reset idle_spc)" by (rule apu_reach.reset) (simp add: idle_spc_def idle_apu_def)
  then show ?thesis
    by (simp add: snes_wf_def snes_reset_def idle_snes_def beam_wf_def dma_shape_def dma_reset_def dma_channel_reset_def
        list_all_replicate cart_wf_def cart_load_def ppu_wf_def ppu_reset_def)
qed

theorem snes_bus_keeps_wf_witness:
  "\<exists>s'. snes_write 3 0x002183 1 (snes_reset True idle_snes) = Done s' \<and> snes_wf s'"
proof -
  obtain s' where "snes_write 3 0x002183 1 (snes_reset True idle_snes) = Done s'"
    by (simp add: snes_write_with_def bus_bank_def io_bank_def snes_writeBBus_def lo8_def numeral_3_eq_3)
  with snes_bus_keeps_wf [OF idle_snes_wf, of "0x002183" 3 1] show ?thesis by blast
qed

section \<open>Work RAM\<close>

text \<open>
  The byte of work RAM an address selects, in the numbers of the memory map: the 128 KB are the banks \<open>7e\<close>
  and \<open>7f\<close> one after the other, and the banks \<open>00\<close> to \<open>3f\<close> and \<open>80\<close> to \<open>bf\<close> show the first 8 KB again.
\<close>

definition wram_cell :: "u32 \<Rightarrow> u32 option" where
  "wram_cell adr =
     (let bank = unat adr div 0x10000 mod 0x100; a = unat adr mod 0x10000 in
      if bank = 0x7e then Some (of_nat a)
      else if bank = 0x7f then Some (of_nat (0x10000 + a))
      else if (bank < 0x40 \<or> 0x80 \<le> bank \<and> bank < 0xc0) \<and> a < 0x2000 then Some (of_nat a)
      else None)"

lemma bus_parts_nat: "unat (bus_bank adr) = unat adr div 0x10000 mod 0x100" "unat (ucast adr :: u16) = unat adr mod 0x10000"
  by (simp_all add: bus_bank_def unsigned_ucast_eq drop_bit_eq_div take_bit_eq_mod unat_div)

text \<open>The same in the terms of the code.\<close>

lemma wram_cell_bus:
  "wram_cell adr =
     (let bank = bus_bank adr; a = ucast adr :: u16 in
      if bank = 0x7e \<or> bank = 0x7f then Some (wram_index bank a)
      else if io_bank bank \<and> a < 0x2000 then Some (ucast a)
      else None)"
proof -
  let ?bank = "bus_bank adr" and ?a = "ucast adr :: u16"
  have a: "of_nat (unat adr mod 0x10000) = (ucast ?a :: u32)"
    unfolding bus_parts_nat(2) [symmetric] by (rule of_nat_unat)
  have "wram_index 0x7e ?a = ucast ?a" "wram_index 0x7f ?a = adr24 1 ?a"
    by (simp_all add: wram_index_def adr24_def)
  then have i: "wram_index 0x7e ?a = ucast ?a" "wram_index 0x7f ?a = 0x10000 + ucast ?a"
    by (simp_all add: adr24_eq_add)
  have "?bank = 0x7e \<longleftrightarrow> unat adr div 0x10000 mod 0x100 = 0x7e" "?bank = 0x7f \<longleftrightarrow> unat adr div 0x10000 mod 0x100 = 0x7f"
    "io_bank ?bank \<longleftrightarrow> unat adr div 0x10000 mod 0x100 < 0x40 \<or> 0x80 \<le> unat adr div 0x10000 mod 0x100 \<and> unat adr div 0x10000 mod 0x100 < 0xc0"
    "?a < 0x2000 \<longleftrightarrow> unat adr mod 0x10000 < 0x2000"
    by (simp_all add: word_unat_eq_iff word_less_nat_alt word_le_nat_alt io_bank_def bus_parts_nat)
  then show ?thesis using i a by (auto simp: wram_cell_def Let_def)
qed

lemma wram_cell_cases:
  assumes "wram_cell adr = Some i"
  obtains "bus_bank adr = 0x7e \<or> bus_bank adr = 0x7f" "i = wram_index (bus_bank adr) (ucast adr)"
  | "\<not> (bus_bank adr = 0x7e \<or> bus_bank adr = 0x7f)" "io_bank (bus_bank adr)" "(ucast adr :: u16) < 0x2000"
    "i = ucast (ucast adr :: u16)"
  using assms unfolding wram_cell_bus Let_def by (simp only: split: if_splits) simp_all

lemma wram_read: "wram_cell adr = Some i \<Longrightarrow> snes_read adr s = Done (sn_ram s i, s)"
  by (erule wram_cell_cases) (simp_all only: snes_read_def Let_def if_True if_False simp_thms)

lemma wram_write_with:
  "wram_cell adr = Some i \<Longrightarrow>
    \<exists>c. snes_write_with run adr val s = Done (s\<lparr>sn_ram := (sn_ram s)(i := val), sn_cart := c\<rparr>)"
  by (erule wram_cell_cases) (simp_all only: snes_write_with_def Let_def if_True if_False simp_thms obind.simps, auto)

lemma wram_write:
  "wram_cell adr = Some i \<Longrightarrow> \<exists>c. snes_write n adr val s = Done (s\<lparr>sn_ram := (sn_ram s)(i := val), sn_cart := c\<rparr>)"
  by (cases n) (simp_all add: wram_write_with)

lemma wram_cell_bound: "wram_cell adr = Some i \<Longrightarrow> i < 0x20000"
proof -
  have u: "(ucast a :: u32) < 0x20000" for a :: u16
    by (simp only: word_less_nat_alt unat_ucast_up) (rule less_trans [OF unat_u16_less], simp)
  show "wram_cell adr = Some i \<Longrightarrow> ?thesis"
    by (erule wram_cell_cases) (simp_all only: wram_index_def u byte_below or_below)
qed

lemma wram_banks:
  assumes "k < 0x20000"
  shows "wram_cell (0x7e0000 + k) = Some k"
proof -
  have k: "unat k < 0x20000" using assms by (simp add: word_less_nat_alt)
  then have u: "unat (0x7e0000 + k) = 0x7e0000 + unat k" by (simp add: unat_word_ariths)
  show ?thesis
  proof (cases "unat k < 0x10000")
    case True
    have "unat (0x7e0000 + k) = unat k + 0x7e * 0x10000" using u by simp
    then have "unat (0x7e0000 + k) div 0x10000 = 0x7e" "unat (0x7e0000 + k) mod 0x10000 = unat k"
      using True by (simp_all only: div_mult_self1 mod_mult_self1) simp_all
    then show ?thesis by (simp add: wram_cell_def)
  next
    case False
    then obtain d where d: "unat k = 0x10000 + d" "d < 0x10000" using k by (auto simp: not_less le_iff_add)
    then have "unat (0x7e0000 + k) = d + 0x7f * 0x10000" using u by simp
    then have "unat (0x7e0000 + k) div 0x10000 = 0x7f" "unat (0x7e0000 + k) mod 0x10000 = d"
      using d(2) by (simp_all only: div_mult_self1 mod_mult_self1) simp_all
    moreover have "of_nat (0x10000 + d) = k" unfolding d(1) [symmetric] by simp
    ultimately show ?thesis unfolding wram_cell_def Let_def by simp
  qed
qed

text \<open>
  C32. Work RAM is a memory of 128 KB behind all its mirrors: a byte written through any address
  that selects RAM is read back through every address that selects the same cell, other cells keep
  their contents, every cell has an index below \<open>0x20000\<close>, and each of these indices has an address of
  its own in the banks \<open>7e\<close> and \<open>7f\<close>, so that the \<open>0x20000\<close> cells are distinct.
\<close>

theorem snes_wram_memory:
  assumes "wram_cell adr = Some i" "wram_cell adr' = Some j"
  shows "(\<exists>s'. snes_write n adr val s = Done s' \<and> snes_read adr' s' = Done (if i = j then val else sn_ram s j, s')
      \<and> sn_ram s' = (sn_ram s)(i := val))
    \<and> i < 0x20000 \<and> j < 0x20000 \<and> (\<forall>k<0x20000. wram_cell (0x7e0000 + k) = Some k)"
proof (intro conjI allI impI)
  show "\<exists>s'. snes_write n adr val s = Done s' \<and> snes_read adr' s' = Done (if i = j then val else sn_ram s j, s')
      \<and> sn_ram s' = (sn_ram s)(i := val)"
    using wram_write [OF assms(1), of n val s] wram_read [OF assms(2)] by fastforce
qed (use wram_cell_bound [OF assms(1)] wram_cell_bound [OF assms(2)] wram_banks in simp_all)

theorem snes_wram_memory_witness:
  "\<exists>s'. snes_write 0 0x7e0010 0xab idle_snes = Done s' \<and> snes_read 0x810010 s' = Done (0xab, s')"
proof -
  have "wram_cell 0x7e0010 = Some 0x10" "wram_cell 0x810010 = Some 0x10" by (simp_all add: wram_cell_def)
  from snes_wram_memory [OF this, of 0 "0xab" idle_snes] show ?thesis by auto
qed

section \<open>Fuel\<close>

text \<open>A result that does not run out of fuel is the same as the other.\<close>

definition settled :: "'a outcome \<Rightarrow> 'a outcome \<Rightarrow> bool" where
  "settled r r' \<longleftrightarrow> r = Fuel_out \<or> r = r'"

lemma settled_refl [simp]: "settled r r" "settled Fuel_out r"
  by (simp_all add: settled_def)

lemma settled_obind: "settled r r' \<Longrightarrow> (\<And>x. settled (f x) (g x)) \<Longrightarrow> settled (obind r f) (obind r' g)"
  unfolding settled_def by (cases r) (auto, metis)

lemma settled_transfer:
  "(\<And>adr val s. settled (w adr val s) (w' adr val s)) \<Longrightarrow>
    settled (dma_transferByte w a k b fromB s) (dma_transferByte w' a k b fromB s)"
  by (auto simp: dma_transferByte_def split: prod.split intro!: settled_obind)

lemma settled_cycle:
  "(\<And>adr val s. settled (w adr val s) (w' adr val s)) \<Longrightarrow> settled (dma_cycle w s) (dma_cycle w' s)"
  unfolding dma_cycle_def dma_doDma_def Let_def
  by (auto split: option.split intro!: settled_obind settled_transfer)

lemma settled_run:
  "(\<And>adr val s. settled (w adr val s) (w' adr val s)) \<Longrightarrow> n \<le> m \<Longrightarrow> settled (dma_run w n s) (dma_run w' m s)"
proof (induction n arbitrary: m s)
  case (Suc n)
  then obtain k where k: "m = Suc k" "n \<le> k" by (cases m) auto
  show ?case unfolding k dma_run.simps
    using Suc.IH [OF Suc.prems(1) k(2)] Suc.prems(1) by (auto intro!: settled_obind settled_cycle split: prod.split)
qed simp

lemma settled_write_with:
  "(\<And>s. settled (run s) (run' s)) \<Longrightarrow> settled (snes_write_with run adr val s) (snes_write_with run' adr val s)"
  unfolding snes_write_with_def Let_def snes_writeReg_def by (auto intro!: settled_obind)

lemma settled_write: "n \<le> m \<Longrightarrow> settled (snes_write n adr val s) (snes_write m adr val s)"
proof (induction n arbitrary: m adr val s)
  case 0
  then show ?case by (cases m) (simp_all add: settled_write_with)
next
  case (Suc n)
  then obtain k where k: "m = Suc k" "n \<le> k" by (cases m) auto
  show ?case unfolding k snes_write.simps
    using Suc.IH [OF k(2)] k(2) by (intro settled_write_with settled_run) simp_all
qed

text \<open>
  Fuel only decides whether a bus write finishes, never its result: a write that finishes or
  fails an assertion with some fuel does exactly the same with any larger amount.
\<close>

theorem snes_write_fuel:
  assumes "n \<le> m" "snes_write n adr val s \<noteq> Fuel_out"
  shows "snes_write m adr val s = snes_write n adr val s"
  using settled_write [OF assms(1), of adr val s] assms(2) by (simp add: settled_def)

theorem snes_write_fuel_witness:
  "snes_write 7 0x002183 1 idle_snes = snes_write 1 0x002183 1 idle_snes"
  by (rule snes_write_fuel)
    (simp_all add: snes_write_with_def bus_bank_def io_bank_def snes_writeBBus_def lo8_def)

end
