(* ===== verification/Dma_Transfer.thy ===== *)
theory Dma_Transfer
  imports Snes_Invariants
begin

text \<open>
  A whole transfer from work RAM to the picture processor, the commonest use of the DMA engine,
  against its specification: the bytes of the source in order, fed to the ports of the transfer
  pattern. The loop's fuel is counted exactly.
\<close>

section \<open>The specification\<close>

text \<open>Byte \<open>j\<close> of a transfer: its port on the B bus and its address on the A bus.\<close>

definition spec_port :: "dma_channel \<Rightarrow> nat \<Rightarrow> u8" where
  "spec_port c j = dc_bAdr c + bAdrOffsets ! unat (dc_mode c) ! ((unat (dc_offIndex c) + j) mod 4)"

definition spec_source :: "dma_channel \<Rightarrow> nat \<Rightarrow> u32" where
  "spec_source c j = adr24 (dc_aBank c)
     (if dc_fixed c then dc_aAdr c else if dc_decrement c then dc_aAdr c - of_nat j else dc_aAdr c + of_nat j)"

definition spec_bytes :: "(u32 \<Rightarrow> u8) \<Rightarrow> dma_channel \<Rightarrow> nat \<Rightarrow> (u8 \<times> u8) list" where
  "spec_bytes ram c n = map (\<lambda>j. (spec_port c j, ram (the (wram_cell (spec_source c j))))) [0..<n]"

text \<open>The number of bytes: a size of zero means 65536.\<close>

definition dma_count :: "dma_channel \<Rightarrow> nat" where
  "dma_count c = Suc (unat (dc_size c - 1))"

fun ppu_feed :: "(u8 \<times> u8) list \<Rightarrow> ppu \<Rightarrow> ppu option" where
  "ppu_feed [] ppu = Some ppu"
| "ppu_feed ((port, val) # bs) ppu = (case ppu_write port val ppu of None \<Rightarrow> None | Some ppu \<Rightarrow> ppu_feed bs ppu)"

text \<open>The channel after its transfer.\<close>

definition spec_channel_done :: "dma_channel \<Rightarrow> dma_channel" where
  "spec_channel_done c = c\<lparr>dc_aAdr := (if dc_fixed c then dc_aAdr c else if dc_decrement c
      then dc_aAdr c - of_nat (dma_count c) else dc_aAdr c + of_nat (dma_count c)),
     dc_size := 0, dc_offIndex := 0, dc_dmaActive := False\<rparr>"

section \<open>One byte\<close>

definition dma_step :: "dma_channel \<Rightarrow> dma_channel" where
  "dma_step c = c\<lparr>dc_offIndex := (dc_offIndex c + 1) AND 3,
     dc_aAdr := (if dc_fixed c then dc_aAdr c else dc_aAdr c + (if dc_decrement c then - 1 else 1)),
     dc_size := dc_size c - 1\<rparr>"

lemma unat_and_3: "unat ((w + 1) AND 3) = (unat w + 1) mod 4" for w :: u8
proof -
  have "(w + 1) AND 3 = take_bit 2 (w + 1)" by (simp add: take_bit_eq_mask mask_eq_exp_minus_1)
  then show ?thesis by (simp add: take_bit_eq_mod unat_mod unat_word_ariths mod_mod_cancel)
qed

lemma dma_step_spec: "spec_port (dma_step c) j = spec_port c (Suc j)" "spec_source (dma_step c) j = spec_source c (Suc j)"
proof -
  show "spec_port (dma_step c) j = spec_port c (Suc j)"
    by (simp add: spec_port_def dma_step_def unat_and_3 mod_simps)
  show "spec_source (dma_step c) j = spec_source c (Suc j)"
    by (simp add: spec_source_def dma_step_def algebra_simps)
qed

lemma spec_bytes_Suc:
  "spec_bytes ram c (Suc n) = (spec_port c 0, ram (the (wram_cell (spec_source c 0)))) # spec_bytes ram (dma_step c) n"
  unfolding spec_bytes_def upt_conv_Cons [OF zero_less_Suc]
  by (simp add: map_Suc_upt [symmetric] dma_step_spec comp_def del: upt_Suc)

text \<open>A transfer in progress on channel \<open>i\<close>, alone, from the A bus.\<close>

definition transferring :: "nat \<Rightarrow> dma_channel \<Rightarrow> dma \<Rightarrow> bool" where
  "transferring i c dma \<longleftrightarrow> i < 8 \<and> length (dma_channels dma) = 8 \<and> dma_channels dma ! i = c \<and> dma_dmaBusy dma
     \<and> dc_dmaActive c \<and> \<not> dc_fromB c \<and> dc_mode c < 8 \<and> dc_offIndex c < 4
     \<and> (\<forall>j < 8. dc_dmaActive (dma_channels dma ! j) \<longrightarrow> j = i)"

lemma find_only:
  assumes "i < n" "\<And>j. j < n \<Longrightarrow> P j \<longleftrightarrow> j = i"
  shows "List.find P [0..<n] = Some i"
  using assms by (auto simp: find_Some_iff)

lemma transferring_first: "transferring i c dma \<Longrightarrow> dma_first_active dma = Some i"
  unfolding dma_first_active_def transferring_def by (intro find_only) auto

text \<open>The controller after a byte: the channel advanced, the timer charged.\<close>

lemma byte_done:
  assumes "transferring i c dma"
  shows "dma_byte_done i (upd_dma_channel i (\<lambda>c. c\<lparr>dc_offIndex := dc_offIndex c + 1\<rparr>) dma) =
    (if dc_size c = 1
     then dma\<lparr>dma_channels := (dma_channels dma)[i := (dma_step c)\<lparr>dc_offIndex := 0, dc_dmaActive := False\<rparr>],
              dma_dmaTimer := dma_dmaTimer dma + 14\<rparr>
     else dma\<lparr>dma_channels := (dma_channels dma)[i := dma_step c], dma_dmaTimer := dma_dmaTimer dma + 6\<rparr>)"
  using assms by (auto simp: transferring_def dma_byte_done_def upd_dma_channel_def dma_step_def Let_def)

lemma doDma_byte:
  assumes "transferring i c (sn_dma s)" "dma_dmaTimer (sn_dma s) = 0" "wram_cell (spec_source c 0) = Some a"
    and "spec_port c 0 < 0x40"
  shows "dma_doDma wr s = (case ppu_write (spec_port c 0) (sn_ram s a) (sn_ppu s) of None \<Rightarrow> Abort
    | Some ppu \<Rightarrow> Done (s\<lparr>sn_ppu := ppu, sn_dma := dma_byte_done i
        (upd_dma_channel i (\<lambda>c. c\<lparr>dc_offIndex := dc_offIndex c + 1\<rparr>) (sn_dma s))\<rparr>))"
proof -
  have c: "dma_channels (sn_dma s) ! i = c" "\<not> dc_fromB c" "unat (dc_offIndex c) mod 4 = unat (dc_offIndex c)"
    using assms(1) by (auto simp: transferring_def word_less_nat_alt)
  have src: "spec_source c 0 = adr24 (dc_aBank c) (dc_aAdr c)" by (simp add: spec_source_def)
  have port: "spec_port c 0 = dc_bAdr c + bAdrOffsets ! unat (dc_mode c) ! unat (dc_offIndex c)"
    using c(3) by (simp add: spec_port_def)
  show ?thesis
    using assms(2,4) c wram_read [OF assms(3)] transferring_first [OF assms(1)]
    by (auto simp: dma_doDma_def dma_transferByte_def upd_dma_def src [symmetric] port [symmetric] Let_def
        snes_writeBBus_def split: option.split)
qed

section \<open>The loop\<close>

definition set_timer :: "u32 \<Rightarrow> snes \<Rightarrow> snes" where
  "set_timer n s = upd_dma (\<lambda>d. d\<lparr>dma_dmaTimer := n\<rparr>) s"

text \<open>The timer is counted down two cycles at a time.\<close>

lemma run_timer:
  assumes "dma_dmaBusy (sn_dma s)" "dma_dmaTimer (sn_dma s) = of_nat (2 * k)" "k < 1000"
  shows "dma_run wr (k + m) s = dma_run wr m (set_timer 0 s)"
  using assms
proof (induction k arbitrary: s)
  case 0
  then have "set_timer 0 s = s" by (simp add: set_timer_def upd_dma_def)
  then show ?case by simp
next
  case (Suc k)
  have "unat (of_nat (2 * Suc k) :: u32) = 2 * Suc k"
    using Suc.prems(3) by (subst unat_of_nat) (simp add: take_bit_nat_eq_self_iff)
  then have "dma_dmaTimer (sn_dma s) > 0" using Suc.prems(2) by (simp add: word_less_nat_alt)
  moreover have "dma_dmaTimer (sn_dma s) - 2 = of_nat (2 * k)" using Suc.prems(2) by simp
  ultimately have "dma_cycle wr s = Done (True, set_timer (of_nat (2 * k)) s)"
    using Suc.prems(1) by (simp add: dma_cycle_def dma_doDma_def set_timer_def upd_dma_def)
  moreover have "dma_run wr (k + m) (set_timer (of_nat (2 * k)) s) = dma_run wr m (set_timer 0 s)"
    using Suc.IH [of "set_timer (of_nat (2 * k)) s"] Suc.prems by (simp add: set_timer_def upd_dma_def)
  ultimately show ?case by simp
qed

text \<open>With no channel left the loop ends.\<close>

lemma run_idle:
  assumes "dma_dmaBusy (sn_dma s)" "dma_dmaTimer (sn_dma s) = 0" "dma_first_active (sn_dma s) = None"
  shows "dma_run wr (Suc (Suc m)) s = Done (upd_dma (\<lambda>d. d\<lparr>dma_dmaBusy := False\<rparr>) s)"
  using assms by (simp add: dma_cycle_def dma_doDma_def upd_dma_def)

text \<open>The bytes of a transfer all come from RAM and go to the picture processor.\<close>

definition ram_to_ppu :: "dma_channel \<Rightarrow> bool" where
  "ram_to_ppu c \<longleftrightarrow> (\<forall>j < dma_count c. wram_cell (spec_source c j) \<noteq> None \<and> spec_port c j < 0x40)"

lemma count_step:
  assumes "dma_count c = Suc (Suc m)"
  shows "dc_size c \<noteq> 1" "dma_count (dma_step c) = Suc m"
proof -
  show "dc_size c \<noteq> 1" using assms by (auto simp: dma_count_def)
  have "dc_size c - 1 \<noteq> 0" using assms by (auto simp: dma_count_def)
  then have "unat (dc_size c - 1 - 1) = unat (dc_size c - 1) - 1" by (rule unat_minus_one)
  then show "dma_count (dma_step c) = Suc m" using assms by (simp add: dma_count_def dma_step_def)
qed

lemma step_done: "dma_count c = Suc (Suc m) \<Longrightarrow> spec_channel_done (dma_step c) = spec_channel_done c"
  using count_step [of c m] by (simp add: spec_channel_done_def) (simp add: dma_step_def)

lemma last_done: "dma_count c = 1 \<Longrightarrow> dc_size c = 1 \<and>
    (dma_step c)\<lparr>dc_offIndex := 0, dc_dmaActive := False\<rparr> = spec_channel_done c"
proof -
  assume a: "dma_count c = 1"
  then have "dc_size c = 1" by (simp add: dma_count_def unat_eq_zero)
  with a show ?thesis by (simp add: spec_channel_done_def dma_step_def)
qed

lemma run_byte:
  assumes "dma_dmaBusy (sn_dma s)" "dma_doDma wr s = r"
  shows "dma_run wr (Suc n) s = obind r (dma_run wr n)"
  using assms by (cases r) (simp_all add: dma_cycle_def)

lemma run_byte_done: "dma_dmaBusy (sn_dma s) \<Longrightarrow> dma_doDma wr s = Done s' \<Longrightarrow> dma_run wr (Suc n) s = dma_run wr n s'"
  by (simp add: run_byte del: dma_run.simps)

lemma transferring_step:
  "transferring i c dma \<Longrightarrow> transferring i (dma_step c) (dma\<lparr>dma_channels := (dma_channels dma)[i := dma_step c], dma_dmaTimer := n\<rparr>)"
  using and_3_less[of "dc_offIndex c + 1"]
  by (auto simp: transferring_def dma_step_def nth_list_update word_less_nat_alt)

lemma first_active_none:
  "transferring i c dma \<Longrightarrow> \<not> dc_dmaActive c' \<Longrightarrow>
    dma_first_active (dma\<lparr>dma_channels := (dma_channels dma)[i := c'], dma_dmaTimer := n\<rparr>) = None"
  unfolding dma_first_active_def transferring_def find_None_iff by (auto simp: nth_list_update)

lemma run_transfer:
  assumes "transferring i c (sn_dma s)" "dma_dmaTimer (sn_dma s) = 0" "dma_count c = Suc m" "ram_to_ppu c"
  shows "dma_run wr (4 * Suc m + 6 + e) s =
    (case ppu_feed (spec_bytes (sn_ram s) c (Suc m)) (sn_ppu s) of None \<Rightarrow> Abort
     | Some ppu \<Rightarrow> Done (s\<lparr>sn_ppu := ppu, sn_dma := (sn_dma s)
         \<lparr>dma_channels := (dma_channels (sn_dma s))[i := spec_channel_done c], dma_dmaBusy := False\<rparr>\<rparr>))"
  using assms
proof (induction m arbitrary: c s)
  case (0 c s)
  obtain a where a: "wram_cell (spec_source c 0) = Some a" "spec_port c 0 < 0x40"
    using 0 by (auto simp: ram_to_ppu_def)
  note last = last_done [of c]
  show ?case
  proof (cases "ppu_write (spec_port c 0) (sn_ram s a) (sn_ppu s)")
    case None
    then show ?thesis
      using 0 a doDma_byte [OF 0(1,2) a, of wr] run_byte [of s wr _ "9 + e"]
      by (simp add: spec_bytes_def transferring_def)
  next
    case (Some ppu)
    let ?dma = "(sn_dma s)\<lparr>dma_channels := (dma_channels (sn_dma s))[i := spec_channel_done c], dma_dmaTimer := 14\<rparr>"
    let ?s = "s\<lparr>sn_ppu := ppu, sn_dma := ?dma\<rparr>"
    have "dma_doDma wr s = Done ?s"
      using doDma_byte [OF 0(1,2) a, of wr] byte_done [OF 0(1)] 0 last Some by simp
    then have "dma_run wr (Suc (7 + Suc (Suc e))) s = dma_run wr (7 + Suc (Suc e)) ?s"
      using 0(1) by (intro run_byte_done) (simp_all add: transferring_def)
    also have "\<dots> = dma_run wr (Suc (Suc e)) (set_timer 0 ?s)"
      using 0 by (intro run_timer) (simp_all add: transferring_def)
    also have "\<dots> = Done (upd_dma (\<lambda>d. d\<lparr>dma_dmaBusy := False\<rparr>) (set_timer 0 ?s))"
      using 0 first_active_none [OF 0(1), of "spec_channel_done c" 0]
      by (intro run_idle) (simp_all add: set_timer_def upd_dma_def transferring_def spec_channel_done_def)
    finally show ?thesis
      using 0 Some a by (simp add: spec_bytes_def set_timer_def upd_dma_def)
  qed
next
  case (Suc m c s)
  obtain a where a: "wram_cell (spec_source c 0) = Some a" "spec_port c 0 < 0x40"
    using Suc.prems by (auto simp: ram_to_ppu_def)
  note count = count_step [OF Suc.prems(3)]
  show ?case
  proof (cases "ppu_write (spec_port c 0) (sn_ram s a) (sn_ppu s)")
    case None
    then show ?thesis
      using Suc.prems a doDma_byte [OF Suc.prems(1,2) a, of wr] run_byte [of s wr _ "4 * Suc m + 9 + e"]
      by (simp add: spec_bytes_Suc transferring_def add.assoc)
  next
    case (Some ppu)
    let ?dma = "\<lambda>n. (sn_dma s)\<lparr>dma_channels := (dma_channels (sn_dma s))[i := dma_step c], dma_dmaTimer := n\<rparr>"
    let ?s = "\<lambda>n. s\<lparr>sn_ppu := ppu, sn_dma := ?dma n\<rparr>"
    have "dma_doDma wr s = Done (?s 6)"
      using doDma_byte [OF Suc.prems(1,2) a, of wr] byte_done [OF Suc.prems(1)] Suc.prems count Some by simp
    then have "dma_run wr (Suc (3 + (4 * Suc m + 6 + e))) s = dma_run wr (3 + (4 * Suc m + 6 + e)) (?s 6)"
      using Suc.prems(1) by (intro run_byte_done) (simp_all add: transferring_def)
    also have "\<dots> = dma_run wr (4 * Suc m + 6 + e) (set_timer 0 (?s 6))"
      using Suc.prems by (intro run_timer) (simp_all add: transferring_def)
    also have "set_timer 0 (?s 6) = ?s 0" by (simp add: set_timer_def upd_dma_def)
    finally have run: "dma_run wr (4 * Suc (Suc m) + 6 + e) s = dma_run wr (4 * Suc m + 6 + e) (?s 0)"
      by (simp add: add.assoc)
    have tr: "transferring i (dma_step c) (sn_dma (?s 0))" using transferring_step [OF Suc.prems(1), of 0] by simp
    have ram: "ram_to_ppu (dma_step c)" using Suc.prems(3,4) count(2) by (simp add: ram_to_ppu_def dma_step_spec)
    have tm: "dma_dmaTimer (sn_dma (?s 0)) = 0" by simp
    show ?thesis
      unfolding run Suc.IH [OF tr tm count(2) ram]
      using Suc.prems(2) Some a step_done [OF Suc.prems(3)]
      by (simp add: spec_bytes_Suc [of _ _ "Suc m"] split: option.split)
  qed
qed

section \<open>Starting a transfer\<close>

lemma start_transfer:
  assumes "dma_wf dma" "i < 8" "dma_channels dma ! i = c" "\<not> dc_fromB c" "dma_dmaTimer dma = 0"
  shows "transferring i (c\<lparr>dc_dmaActive := True\<rparr>) ((dma_startDma (2 ^ i) False dma)\<lparr>dma_dmaTimer := n\<rparr>)
    \<and> dma_dmaTimer (dma_startDma (2 ^ i) False dma) = 16
    \<and> (\<forall>d. (dma_channels (dma_startDma (2 ^ i) False dma))[i := d] =
        (map (\<lambda>c. c\<lparr>dc_dmaActive := False\<rparr>) (dma_channels dma))[i := d])"
proof -
  let ?v = "2 ^ i :: u8"
  have b: "bit ?v j \<longleftrightarrow> j = i" for j
    using assms(2) by (auto simp: bit_exp_iff)
  then have v: "?v \<noteq> 0" by (metis bit_0_eq bot_apply bot_bool_def)
  have len: "length (dma_channels dma) = 8" and c: "dc_mode c < 8" "dc_offIndex c < 4"
    using assms(1,2,3) by (auto simp: dma_wf_def dest: nth_mem)
  have ch: "dma_channels (dma_startDma ?v False dma) =
      map2 (\<lambda>j c. c\<lparr>dc_dmaActive := (j = i)\<rparr>) [0..<8] (dma_channels dma)"
    by (simp add: dma_startDma_def Let_def len b del: upt.simps)
  have "(dma_channels (dma_startDma ?v False dma))[i := d] =
      (map (\<lambda>c. c\<lparr>dc_dmaActive := False\<rparr>) (dma_channels dma))[i := d]" for d
  proof (intro nth_equalityI)
    fix k assume "k < length ((dma_channels (dma_startDma ?v False dma))[i := d])"
    then have "k < 8" by (simp add: ch len)
    then show "(dma_channels (dma_startDma ?v False dma))[i := d] ! k =
        (map (\<lambda>c. c\<lparr>dc_dmaActive := False\<rparr>) (dma_channels dma))[i := d] ! k"
      using len by (cases "k = i") (simp_all add: ch)
  qed (simp add: ch len)
  moreover have "transferring i (c\<lparr>dc_dmaActive := True\<rparr>) ((dma_startDma ?v False dma)\<lparr>dma_dmaTimer := n\<rparr>)"
    using assms(2-4) len c ch by (auto simp: transferring_def simp del: upt.simps) (simp_all add: dma_startDma_def Let_def v)
  ultimately show ?thesis using assms(5) v by (simp add: dma_startDma_def Let_def)
qed

lemma active_spec:
  "spec_bytes ram (c\<lparr>dc_dmaActive := b\<rparr>) n = spec_bytes ram c n" "dma_count (c\<lparr>dc_dmaActive := b\<rparr>) = dma_count c"
  "ram_to_ppu (c\<lparr>dc_dmaActive := b\<rparr>) = ram_to_ppu c" "spec_channel_done (c\<lparr>dc_dmaActive := b\<rparr>) = spec_channel_done c"
  by (simp_all add: spec_bytes_def spec_port_def spec_source_def dma_count_def ram_to_ppu_def spec_channel_done_def)

lemma cart_write_420b: "cart_write cart 0 0x420b val = cart"
  by (simp add: cart_write_def cart_writeLorom_def cart_writeHirom_def Let_def)

lemma run_started:
  assumes "dma_wf (sn_dma s)" "i < 8" "dma_channels (sn_dma s) ! i = c" "\<not> dc_fromB c" "dma_dmaTimer (sn_dma s) = 0"
    and "ram_to_ppu c" "n \<ge> 4 * dma_count c + 14"
  shows "dma_run wr n (s\<lparr>sn_dma := dma_startDma (2 ^ i) False (sn_dma s)\<rparr>) =
    (case ppu_feed (spec_bytes (sn_ram s) c (dma_count c)) (sn_ppu s) of None \<Rightarrow> Abort
     | Some ppu \<Rightarrow> Done (s\<lparr>sn_ppu := ppu, sn_dma := \<lparr>dma_channels =
          (map (\<lambda>c. c\<lparr>dc_dmaActive := False\<rparr>) (dma_channels (sn_dma s)))[i := spec_channel_done c],
          dma_dmaTimer = 0, dma_dmaBusy = False\<rparr>\<rparr>))"
proof -
  let ?d = "dma_startDma (2 ^ i) False (sn_dma s)"
  let ?s = "s\<lparr>sn_dma := ?d\<rparr>"
  note start = start_transfer [OF assms(1-5)]
  obtain m where m: "dma_count c = Suc m" by (simp add: dma_count_def)
  obtain e where e: "n = 8 + (4 * Suc m + 6 + e)" using assms(7) m le_Suc_ex by force
  have "dma_run wr n ?s = dma_run wr (4 * Suc m + 6 + e) (set_timer 0 ?s)"
    unfolding e using start by (intro run_timer) (auto simp: transferring_def)
  also have "\<dots> = (case ppu_feed (spec_bytes (sn_ram s) c (Suc m)) (sn_ppu s) of None \<Rightarrow> Abort
     | Some ppu \<Rightarrow> Done ((set_timer 0 ?s)\<lparr>sn_ppu := ppu, sn_dma := (?d\<lparr>dma_dmaTimer := 0\<rparr>)
         \<lparr>dma_channels := (dma_channels ?d)[i := spec_channel_done c], dma_dmaBusy := False\<rparr>\<rparr>))"
    using run_transfer [of i "c\<lparr>dc_dmaActive := True\<rparr>" "set_timer 0 ?s" m wr e] start m assms(6)
    by (auto simp: active_spec set_timer_def upd_dma_def split: option.split)
  finally show ?thesis using start by (auto simp: m set_timer_def upd_dma_def split: option.split)
qed

text \<open>
  C30. A transfer from work RAM to the picture processor does what the channel's registers say.
  Writing the channel's bit to \<open>$420b\<close> feeds exactly the requested number of bytes (65536 for size
  zero) to the ports of the transfer pattern, byte \<open>j\<close> from the source address stepped \<open>j\<close> times,
  in order; the write returns once \<open>4 * count + 14\<close> loop iterations are allowed, and leaves the
  channel's address advanced, its size zero, every channel inactive and the timer at zero. It fails
  exactly when the picture processor rejects one of the bytes.
\<close>

theorem dma_ram_to_ppu:
  assumes "dma_wf (sn_dma s)" "i < 8" "dma_channels (sn_dma s) ! i = c" "\<not> dc_fromB c" "dma_dmaTimer (sn_dma s) = 0"
    and "ram_to_ppu c" "n \<ge> 4 * dma_count c + 14"
  shows "snes_write n 0x00420b (2 ^ i) s =
    (case ppu_feed (spec_bytes (sn_ram s) c (dma_count c)) (sn_ppu s) of None \<Rightarrow> Abort
     | Some ppu \<Rightarrow> Done (s\<lparr>sn_ppu := ppu, sn_dma := \<lparr>dma_channels =
          (map (\<lambda>c. c\<lparr>dc_dmaActive := False\<rparr>) (dma_channels (sn_dma s)))[i := spec_channel_done c],
          dma_dmaTimer = 0, dma_dmaBusy = False\<rparr>\<rparr>))"
proof -
  obtain k where k: "n = Suc k" using assms(7) by (cases n) auto
  show ?thesis
    using run_started [OF assms, of "snes_write k"] unfolding k snes_write.simps snes_write_with_def
    by (simp add: bus_bank_def io_bank_def snes_writeReg_def Let_def cart_write_420b del: dma_run.simps split: option.split)
qed

text \<open>The instance: 3 bytes from \<open>7e:0010\<close> to the palette ports \<open>$2121\<close> and \<open>$2122\<close>.\<close>

definition palette_channel :: dma_channel where
  "palette_channel = dma_channel_reset\<lparr>dc_bAdr := 0x21, dc_aAdr := 0x10, dc_aBank := 0x7e, dc_size := 3, dc_mode := 3,
     dc_fixed := False, dc_decrement := False, dc_fromB := False\<rparr>"

lemma dma_wf_set_channel:
  "dma_wf dma \<Longrightarrow> dc_mode c < 8 \<Longrightarrow> dc_offIndex c < 4 \<Longrightarrow> dma_wf (dma\<lparr>dma_channels := (dma_channels dma)[i := c]\<rparr>)"
  by (auto simp: dma_wf_def dest!: set_update_subset_insert [THEN subsetD])

theorem dma_ram_to_ppu_witness:
  "\<exists>s'. snes_write 26 0x00420b 1 (idle_snes\<lparr>sn_dma := dma_reset\<lparr>dma_channels := (dma_channels dma_reset)[0 := palette_channel]\<rparr>,
       sn_ram := (\<lambda>_. 0)(0x10 := 5, 0x11 := 7, 0x12 := 9)\<rparr>) = Done s' \<and> ppu_cgramBuffer (sn_ppu s') = 9
     \<and> ppu_cgramPointer (sn_ppu s') = 7"
proof -
  let ?s = "idle_snes\<lparr>sn_dma := dma_reset\<lparr>dma_channels := (dma_channels dma_reset)[0 := palette_channel]\<rparr>,
       sn_ram := (\<lambda>_. 0)(0x10 := 5, 0x11 := 7, 0x12 := 9)\<rparr>"
  have wf: "dma_wf (sn_dma ?s)"
    using dma_wf_set_channel [OF dma_reset_wf, of palette_channel 0]
    by (simp add: palette_channel_def dma_channel_reset_def)
  have c: "dma_channels (sn_dma ?s) ! 0 = palette_channel" "dma_dmaTimer (sn_dma ?s) = 0"
    by (simp_all add: dma_reset_def)
  have n: "dma_count palette_channel = 3" by (simp add: dma_count_def palette_channel_def)
  have b: "spec_bytes (sn_ram ?s) palette_channel 3 = [(0x21, 5), (0x21, 7), (0x22, 9)]"
    by (simp add: spec_bytes_def spec_port_def spec_source_def palette_channel_def dma_channel_reset_def bAdrOffsets_def
        upt_conv_Cons wram_cell_bus bus_bank_def wram_index_def adr24_def)
  have r: "ram_to_ppu palette_channel"
  proof -
    have "wram_cell (spec_source palette_channel j) \<noteq> None \<and> spec_port palette_channel j < 0x40" if "j \<in> {0, 1, 2}" for j
      using that by (auto simp: spec_port_def spec_source_def palette_channel_def dma_channel_reset_def
          bAdrOffsets_def wram_cell_bus bus_bank_def adr24_def)
    moreover have "j < 3 \<Longrightarrow> j \<in> {0, 1, 2}" for j :: nat by auto
    ultimately show ?thesis unfolding ram_to_ppu_def n by blast
  qed
  have i: "0 < (8 :: nat)" and fuel: "4 * dma_count palette_channel + 14 \<le> 26" by (simp_all add: n)
  have f: "\<not> dc_fromB palette_channel" by (simp add: palette_channel_def)
  obtain ppu where ppu: "ppu_feed [(0x21, 5), (0x21, 7), (0x22, 9)] (sn_ppu ?s) = Some ppu" "ppu_cgramBuffer ppu = 9"
    "ppu_cgramPointer ppu = 7"
    by (simp add: ppu_write_def cgram_write_def)
  have "snes_write 26 0x00420b (2 ^ 0) ?s = Done (?s\<lparr>sn_ppu := ppu, sn_dma := \<lparr>dma_channels =
          (map (\<lambda>c. c\<lparr>dc_dmaActive := False\<rparr>) (dma_channels (sn_dma ?s)))[0 := spec_channel_done palette_channel],
          dma_dmaTimer = 0, dma_dmaBusy = False\<rparr>\<rparr>)"
    by (simp only: dma_ram_to_ppu [OF wf i c(1) f c(2) r fuel] n b ppu(1) option.case)
  then show ?thesis using ppu by (auto simp del: snes_write.simps)
qed

end
