(* ===== verification/Msu1.thy ===== *)
theory Msu1
  imports Dsp
begin

text \<open>
  The MSU-1 streaming coprocessor of \<open>snes/msu1.c\<close>: its register window, the data channel, the
  track loader, the frame reader and the mixer. The file system is the field \<open>msu_files\<close>, from
  path names to file contents; an open file is its contents with a read position. Seeking an open
  file to a non-negative offset succeeds, past the end too. The directories and the environment
  variable are arguments of \<open>msu1_init\<close>.
\<close>

section \<open>State\<close>

record filep =
  f_bytes :: "u8 list"
  f_pos :: nat

record msu1 =
  msu_files :: "string \<Rightarrow> u8 list option"
  msu_armed :: bool
  msu_auto_base :: bool
  msu_have_base :: bool
  msu_base :: string
  msu_track :: "filep option"
  msu_loop_point :: u32
  msu_data_start :: nat
  msu_playing :: bool
  msu_repeat :: bool
  msu_audio_error :: bool
  msu_volume :: u8
  msu_track_lo :: u16
  msu_data :: "filep option"
  msu_data_tried :: bool
  msu_seek :: "u8 list"

definition MSU1_FRAMES_PER_BLK :: nat where "MSU1_FRAMES_PER_BLK = 735"
definition MSU1_PCM_HEADER :: nat where "MSU1_PCM_HEADER = 8"

definition msu1_off :: "(string \<Rightarrow> u8 list option) \<Rightarrow> msu1" where
  "msu1_off files =
     \<lparr>msu_files = files, msu_armed = False, msu_auto_base = False, msu_have_base = False, msu_base = [],
      msu_track = None, msu_loop_point = 0, msu_data_start = 0, msu_playing = False, msu_repeat = False,
      msu_audio_error = False, msu_volume = 255, msu_track_lo = 0, msu_data = None, msu_data_tried = False,
      msu_seek = replicate 4 0\<rparr>"

text \<open>Characters without upper case, as in \<open>ci_eq\<close>.\<close>

definition ci_lower :: "char \<Rightarrow> nat" where
  "ci_lower c = (let n = of_char c :: nat in if 65 \<le> n \<and> n \<le> 90 then n + 32 else n)"

fun ci_eq :: "string \<Rightarrow> string \<Rightarrow> bool" where
  "ci_eq (a # as) (b # bs) = (ci_lower a = ci_lower b \<and> ci_eq as bs)"
| "ci_eq as bs = (as = [] \<and> bs = [])"

definition is_separator :: "char \<Rightarrow> bool" where
  "is_separator c \<longleftrightarrow> c = CHR ''/'' \<or> of_char c = (92::nat)"

definition is_digit :: "char \<Rightarrow> bool" where
  "is_digit c \<longleftrightarrow> 48 \<le> (of_char c :: nat) \<and> (of_char c :: nat) \<le> 57"

text \<open>\<open>msu_match_track_name\<close>: the base of a name that ends in \<open>-<N>.pcm\<close>.\<close>

definition msu_match_track_name :: "string \<Rightarrow> nat \<Rightarrow> string option" where
  "msu_match_track_name name out_sz =
     (let stem = take (length name - 4) name; ext = drop (length name - 4) name;
          digits = takeWhile is_digit (rev stem) in
      if length name < 7 \<or> \<not> ci_eq ext ''.pcm'' \<or> digits = [] then None
      else case dropWhile is_digit (rev stem) of
        [] \<Rightarrow> None
      | c # cs \<Rightarrow> if c \<noteq> CHR ''-'' \<or> cs = [] \<or> length cs \<ge> out_sz then None else Some (rev cs))"

text \<open>
  \<open>msu_resolve_base_if_dir\<close> with the entries of the directory: the tally of at most 16 candidate
  bases, and the first of those with most tracks.
\<close>

fun msu_tally :: "string \<Rightarrow> (string \<times> nat) list \<Rightarrow> (string \<times> nat) list" where
  "msu_tally nb ((b, n) # cand) = (if b = nb then (b, n + 1) # cand else (b, n) # msu_tally nb cand)"
| "msu_tally nb [] = [(nb, 1)]"

definition msu_tally_name :: "(string \<times> nat) list \<Rightarrow> string \<Rightarrow> (string \<times> nat) list" where
  "msu_tally_name cand name =
     (case msu_match_track_name name 1024 of None \<Rightarrow> cand
      | Some nb \<Rightarrow> if nb \<in> fst ` set cand \<or> length cand < 16 then msu_tally nb cand else cand)"

fun msu_best :: "(string \<times> nat) list \<Rightarrow> (string \<times> nat) option" where
  "msu_best [] = None"
| "msu_best (c # cand) =
     (case msu_best cand of None \<Rightarrow> Some c | Some b \<Rightarrow> if snd b > snd c then Some b else Some c)"

definition msu_resolve_base_if_dir :: "(string \<Rightarrow> string list option) \<Rightarrow> string \<Rightarrow> string" where
  "msu_resolve_base_if_dir dirs base =
     (case dirs base of None \<Rightarrow> base
      | Some names \<Rightarrow>
          (case msu_best (foldl msu_tally_name [] names) of None \<Rightarrow> base
           | Some (b, _) \<Rightarrow> take 1023 (rev (dropWhile is_separator (rev base)) @ ''/'' @ b)))"

text \<open>\<open>msu1_init\<close> with the value of the environment variable.\<close>

definition msu1_init :: "(string \<Rightarrow> string list option) \<Rightarrow> (string \<Rightarrow> u8 list option) \<Rightarrow> string \<Rightarrow> msu1" where
  "msu1_init dirs files e =
     (let g = msu1_off files in
      if e = [] then g
      else let g = g\<lparr>msu_armed := True\<rparr> in
        if ci_eq e ''1'' \<or> ci_eq e ''on'' \<or> ci_eq e ''auto'' \<or> ci_eq e ''true''
        then g\<lparr>msu_auto_base := True\<rparr>
        else g\<lparr>msu_base := msu_resolve_base_if_dir dirs (take 1023 e), msu_have_base := True\<rparr>)"

text \<open>\<open>msu1_set_rom_path\<close>: the extension is cut when its dot follows the last path separator.\<close>

definition strip_extension :: "string \<Rightarrow> string" where
  "strip_extension path =
     (case dropWhile (\<lambda>c. c \<noteq> CHR ''.'' \<and> \<not> is_separator c) (rev path) of
        c # cs \<Rightarrow> if c = CHR ''.'' then rev cs else path
      | [] \<Rightarrow> path)"

definition msu1_set_rom_path :: "string \<Rightarrow> msu1 \<Rightarrow> msu1" where
  "msu1_set_rom_path rom_path g =
     (if \<not> msu_armed g \<or> \<not> msu_auto_base g \<or> msu_have_base g \<or> rom_path = [] then g
      else g\<lparr>msu_base := strip_extension (take 1023 rom_path), msu_have_base := True\<rparr>)"

definition msu1_enabled :: "msu1 \<Rightarrow> bool" where
  "msu1_enabled g \<longleftrightarrow> msu_armed g \<and> msu_have_base g"

section \<open>File names and files\<close>

fun decimal :: "nat \<Rightarrow> string" where
  "decimal n = (if n < 10 then [char_of (48 + n)] else decimal (n div 10) @ [char_of (48 + n mod 10)])"

declare decimal.simps [simp del]

definition track_name :: "string \<Rightarrow> u16 \<Rightarrow> string" where
  "track_name base track = base @ ''-'' @ decimal (unat track) @ ''.pcm''"

definition data_name :: "string \<Rightarrow> string" where
  "data_name base = base @ ''.msu''"

definition fopen :: "msu1 \<Rightarrow> string \<Rightarrow> filep option" where
  "fopen g name = map_option (\<lambda>bytes. \<lparr>f_bytes = bytes, f_pos = 0\<rparr>) (msu_files g name)"

text \<open>\<open>fread\<close> of whole items of \<open>sz\<close> bytes: a short read leaves the file at its end.\<close>

definition fread_items :: "nat \<Rightarrow> nat \<Rightarrow> filep \<Rightarrow> u8 list list \<times> filep" where
  "fread_items sz n f =
     (let rest = drop (f_pos f) (f_bytes f); k = length rest div sz in
      if n \<le> k then (map (\<lambda>i. take sz (drop (sz * i) rest)) [0..<n], f\<lparr>f_pos := f_pos f + sz * n\<rparr>)
      else (map (\<lambda>i. take sz (drop (sz * i) rest)) [0..<k], f\<lparr>f_pos := max (f_pos f) (length (f_bytes f))\<rparr>))"

definition le32 :: "u8 \<Rightarrow> u8 \<Rightarrow> u8 \<Rightarrow> u8 \<Rightarrow> u32" where
  "le32 a b c d = ucast a OR push_bit 8 (ucast b) OR push_bit 16 (ucast c) OR push_bit 24 (ucast d)"

definition msu_load_track :: "u16 \<Rightarrow> msu1 \<Rightarrow> msu1" where
  "msu_load_track track g =
     (let g = g\<lparr>msu_track := None, msu_playing := False, msu_audio_error := False\<rparr> in
      case fopen g (track_name (msu_base g) track) of
        None \<Rightarrow> g\<lparr>msu_audio_error := True\<rparr>
      | Some f \<Rightarrow>
          let hdr = take MSU1_PCM_HEADER (f_bytes f) in
          if length hdr = MSU1_PCM_HEADER \<and> take 4 hdr = [0x4d, 0x53, 0x55, 0x31]
          then g\<lparr>msu_loop_point := le32 (hdr ! 4) (hdr ! 5) (hdr ! 6) (hdr ! 7),
                 msu_data_start := MSU1_PCM_HEADER, msu_track := Some (f\<lparr>f_pos := MSU1_PCM_HEADER\<rparr>)\<rparr>
          else g\<lparr>msu_loop_point := 0, msu_data_start := 0, msu_track := Some (f\<lparr>f_pos := 0\<rparr>)\<rparr>)"

text \<open>The data file is opened at the first use of the channel, and only once.\<close>

definition open_data :: "msu1 \<Rightarrow> msu1" where
  "open_data g =
     (if msu_data g = None \<and> \<not> msu_data_tried g
      then g\<lparr>msu_data_tried := True, msu_data := fopen g (data_name (msu_base g))\<rparr>
      else g)"

definition fgetc :: "filep \<Rightarrow> u8 \<times> filep" where
  "fgetc f = (if f_pos f < length (f_bytes f) then (f_bytes f ! f_pos f, f\<lparr>f_pos := f_pos f + 1\<rparr>) else (0, f))"

section \<open>Registers\<close>

definition kMsuId :: "u8 list" where
  "kMsuId = [0x53, 0x2d, 0x4d, 0x53, 0x55, 0x31]"

definition msu_status :: "msu1 \<Rightarrow> u8" where
  "msu_status g =
     (if msu_repeat g then 0x20 else 0) OR (if msu_playing g then 0x10 else 0)
     OR (if msu_audio_error g then 0x08 else 0) OR (0x01 AND 0x07)"

definition msu1_read :: "u16 \<Rightarrow> msu1 \<Rightarrow> u8 \<times> msu1" where
  "msu1_read reg g =
     (if \<not> msu1_enabled g then (0, g)
      else if reg AND 7 = 0 then (msu_status g, g)
      else if reg AND 7 = 1 then
        (let g = open_data g in
         case msu_data g of None \<Rightarrow> (0, g)
         | Some f \<Rightarrow> (case fgetc f of (out, f) \<Rightarrow> (out, g\<lparr>msu_data := Some f\<rparr>)))
      else (kMsuId ! (unat (reg AND 7) - 2), g))"

definition msu1_write :: "u16 \<Rightarrow> u8 \<Rightarrow> msu1 \<Rightarrow> msu1" where
  "msu1_write reg val g =
     (let r = unat (reg AND 7) in
      if \<not> msu1_enabled g then g
      else if r \<le> 2 then g\<lparr>msu_seek := (msu_seek g)[r := val]\<rparr>
      else if r = 3 then
        (let g = g\<lparr>msu_seek := (msu_seek g)[3 := val]\<rparr>;
             off = le32 (msu_seek g ! 0) (msu_seek g ! 1) (msu_seek g ! 2) (msu_seek g ! 3);
             g = open_data g
         in g\<lparr>msu_data := map_option (\<lambda>f. f\<lparr>f_pos := unat off\<rparr>) (msu_data g)\<rparr>)
      else if r = 4 then g\<lparr>msu_track_lo := ucast val\<rparr>
      else if r = 5 then msu_load_track (msu_track_lo g OR push_bit 8 (ucast val)) g
      else if r = 6 then g\<lparr>msu_volume := val\<rparr>
      else g\<lparr>msu_repeat := tst val 0x2,
             msu_playing := tst val 0x1 \<and> msu_track g \<noteq> None \<and> \<not> msu_audio_error g\<rparr>)"

section \<open>Streaming\<close>

text \<open>One stereo frame: two little-endian signed 16-bit samples.\<close>

definition pcm_frame :: "u8 list \<Rightarrow> int \<times> int" where
  "pcm_frame bs = (sint (word16 (bs ! 0) (bs ! 1)), sint (word16 (bs ! 2) (bs ! 3)))"

text \<open>
  The loop of \<open>msu_read_frames\<close> with its flag \<open>looped\<close>: a short read continues once at the loop
  point when repeat is on, and stops playback otherwise.
\<close>

function msu_read_loop :: "nat \<Rightarrow> bool \<Rightarrow> u8 list list \<Rightarrow> filep \<Rightarrow> msu1 \<Rightarrow> u8 list list \<times> msu1" where
  "msu_read_loop frames looped acc f g =
     (if length acc < frames then
        (case fread_items 4 (frames - length acc) f of (got, f) \<Rightarrow>
          let acc = acc @ got in
          if length acc \<ge> frames then (acc, g\<lparr>msu_track := Some f\<rparr>)
          else if msu_repeat g \<and> \<not> looped
          then msu_read_loop frames True acc (f\<lparr>f_pos := msu_data_start g + unat (msu_loop_point g) * 4\<rparr>) g
          else (acc, g\<lparr>msu_track := Some f, msu_playing := False\<rparr>))
      else (acc, g\<lparr>msu_track := Some f\<rparr>))"
  by pat_completeness auto

termination
  by (relation "measure (\<lambda>(_, looped, _). of_bool (\<not> looped))") auto

declare msu_read_loop.simps [simp del]

definition msu_read_frames :: "nat \<Rightarrow> filep \<Rightarrow> msu1 \<Rightarrow> (int \<times> int) list \<times> msu1" where
  "msu_read_frames frames f g =
     (case msu_read_loop frames False [] f g of (got, g) \<Rightarrow>
       (map pcm_frame got @ replicate (frames - length got) (0, 0), g))"

text \<open>
  \<open>msu1_mix\<close>. The floating-point position of output frame \<open>i\<close> enters as \<open>resample i\<close>: its whole
  part, and the interpolation between two samples by its fraction, truncated to an integer.
\<close>

definition mix_sample :: "int \<Rightarrow> int \<Rightarrow> int \<Rightarrow> int" where
  "mix_sample vol out s = clamp16 (out + (if s * vol < 0 then - (- (s * vol) div 255) else s * vol div 255))"

definition msu1_mix :: "(nat \<Rightarrow> nat \<times> (int \<Rightarrow> int \<Rightarrow> int)) \<Rightarrow> (int \<times> int) list \<Rightarrow> msu1 \<Rightarrow> (int \<times> int) list \<times> msu1" where
  "msu1_mix resample out g =
     (if \<not> msu1_enabled g \<or> \<not> msu_playing g \<or> out = [] then (out, g)
      else case msu_track g of None \<Rightarrow> (out, g)
      | Some f \<Rightarrow> (case msu_read_frames MSU1_FRAMES_PER_BLK f g of (src, g) \<Rightarrow>
          if msu_volume g = 0 then (out, g)
          else (map (\<lambda>i. case resample i of (idx, lerp) \<Rightarrow>
                  let i0 = min idx (MSU1_FRAMES_PER_BLK - 1); i1 = min (idx + 1) (MSU1_FRAMES_PER_BLK - 1); vol = uint (msu_volume g)
                  in (mix_sample vol (fst (out ! i)) (lerp (fst (src ! i0)) (fst (src ! i1))),
                      mix_sample vol (snd (out ! i)) (lerp (snd (src ! i0)) (snd (src ! i1)))))
                [0..<length out], g)))"

section \<open>Track names\<close>

lemma of_char_of_digit: "n < 10 \<Longrightarrow> of_char (char_of (48 + n :: nat)) = 48 + n"
  by (simp add: of_char_of)

lemma decimal_digits: "decimal n \<noteq> [] \<and> list_all is_digit (decimal n)"
proof (induction n rule: decimal.induct)
  case (1 n)
  have "is_digit (char_of (48 + n mod 10))" "n < 10 \<Longrightarrow> is_digit (char_of (48 + n))"
    using of_char_of_digit [of "n mod 10"] of_char_of_digit [of n] by (simp_all add: is_digit_def)
  then show ?case using 1 by (cases "n < 10") (simp_all add: decimal.simps [of n])
qed

lemma span_digits:
  "list_all P ds \<Longrightarrow> \<not> P c \<Longrightarrow> takeWhile P (ds @ c # xs) = ds"
  "list_all P ds \<Longrightarrow> \<not> P c \<Longrightarrow> dropWhile P (ds @ c # xs) = c # xs"
  by (induction ds) auto

text \<open>
  The name of a track names its pack: matching the file name that the loader builds for any
  track number gives back the base it was built from, for every base that fits the path buffer.
\<close>

theorem msu_track_name_base:
  assumes "base \<noteq> []" "length base < 1024"
  shows "msu_match_track_name (track_name base track) 1024 = Some base"
proof -
  let ?d = "decimal (unat track)"
  have d: "?d \<noteq> []" "list_all is_digit (rev ?d)" using decimal_digits by simp_all
  have len: "length (track_name base track) - 4 = length (base @ ''-'' @ ?d)" "length (track_name base track) \<ge> 7"
    using assms(1) d(1) by (cases base; cases ?d; simp add: track_name_def)+
  have stem: "take (length (track_name base track) - 4) (track_name base track) = base @ ''-'' @ ?d"
    "drop (length (track_name base track) - 4) (track_name base track) = ''.pcm''"
    unfolding len by (simp_all add: track_name_def)
  have dash: "\<not> is_digit (CHR ''-'')" by (simp add: is_digit_def)
  have "takeWhile is_digit (rev ?d @ CHR ''-'' # rev base) = rev ?d"
    "dropWhile is_digit (rev ?d @ CHR ''-'' # rev base) = CHR ''-'' # rev base"
    using d(2) dash by (rule span_digits)+
  then show ?thesis
    unfolding msu_match_track_name_def Let_def stem
    using assms len(2) d(1) by simp
qed

theorem msu_track_name_base_witness:
  "msu_match_track_name (track_name ''alttp'' 12) 1024 = Some ''alttp''"
  by (rule msu_track_name_base) simp_all

section \<open>The data channel\<close>

text \<open>The data file is open, or will be at the first use.\<close>

definition data_ready :: "u8 list \<Rightarrow> msu1 \<Rightarrow> bool" where
  "data_ready bytes g \<longleftrightarrow>
     msu_data g = None \<and> \<not> msu_data_tried g \<and> msu_files g (data_name (msu_base g)) = Some bytes
     \<or> map_option f_bytes (msu_data g) = Some bytes"

definition msu_seek_to :: "u8 \<Rightarrow> u8 \<Rightarrow> u8 \<Rightarrow> u8 \<Rightarrow> msu1 \<Rightarrow> msu1" where
  "msu_seek_to b0 b1 b2 b3 g =
     msu1_write 0x2003 b3 (msu1_write 0x2002 b2 (msu1_write 0x2001 b1 (msu1_write 0x2000 b0 g)))"

primrec data_reads :: "nat \<Rightarrow> msu1 \<Rightarrow> u8 list" where
  "data_reads 0 g = []"
| "data_reads (Suc n) g = (case msu1_read 0x2001 g of (v, g) \<Rightarrow> v # data_reads n g)"

definition data_at :: "u8 list \<Rightarrow> nat \<Rightarrow> msu1 \<Rightarrow> bool" where
  "data_at bytes p g \<longleftrightarrow> msu1_enabled g \<and> (\<exists>f. msu_data g = Some f \<and> f_bytes f = bytes \<and> f_pos f = p)"

lemma data_at_read:
  assumes "data_at bytes p g"
  shows "\<exists>g'. msu1_read 0x2001 g = (if p < length bytes then bytes ! p else 0, g')
    \<and> data_at bytes (if p < length bytes then Suc p else p) g'"
  using assms by (auto simp: data_at_def msu1_read_def open_data_def fgetc_def msu1_enabled_def)

lemma data_reads_from:
  assumes "data_at bytes p g"
  shows "data_reads n g = map (\<lambda>i. if p + i < length bytes then bytes ! (p + i) else 0) [0..<n]"
  using assms
proof (induction n arbitrary: p g)
  case (Suc n)
  obtain g' where g': "msu1_read 0x2001 g = (if p < length bytes then bytes ! p else 0, g')"
    "data_at bytes (if p < length bytes then Suc p else p) g'"
    using data_at_read [OF Suc.prems] by blast
  show ?case
    using Suc.IH [OF g'(2)] g'(1) by (auto simp: upt_conv_Cons_Cons map_upt_Suc simp del: upt_Suc)
qed simp

lemma data_at_seek:
  assumes "msu1_enabled g" "data_ready bytes g" "length (msu_seek g) = 4"
  shows "data_at bytes (unat (le32 b0 b1 b2 b3)) (msu_seek_to b0 b1 b2 b3 g)"
  using assms unfolding msu_seek_to_def data_at_def data_ready_def
  by (auto simp: msu1_write_def Let_def open_data_def fopen_def msu1_enabled_def)

text \<open>
  The data channel: after the four seek bytes, successive reads of \<open>$2001\<close> return the bytes of
  the data file from that 32-bit offset on, in order, and zero past its end; it makes no difference
  whether the file was already open.
\<close>

theorem msu_data_channel:
  assumes "msu1_enabled g" "data_ready bytes g" "length (msu_seek g) = 4"
  shows "data_reads n (msu_seek_to b0 b1 b2 b3 g) =
    map (\<lambda>i. let p = unat (le32 b0 b1 b2 b3) + i in if p < length bytes then bytes ! p else 0) [0..<n]"
  using data_reads_from [OF data_at_seek [OF assms]] by (simp add: Let_def)

theorem msu_data_channel_witness:
  "data_reads 3 (msu_seek_to 1 0 0 0 (msu1_init (\<lambda>_. None) (\<lambda>_. Some [10, 11, 12]) ''pack'')) = [11, 12, 0]"
proof -
  let ?g = "msu1_init (\<lambda>_. None) (\<lambda>_. Some [10, 11, 12]) ''pack''"
  have g: "msu1_enabled ?g" "data_ready [10, 11, 12] ?g" "length (msu_seek ?g) = 4"
    by (simp_all add: msu1_init_def msu1_off_def msu1_enabled_def data_ready_def ci_lower_def)
  have "unat (le32 1 0 0 0) = 1" by (simp add: le32_def)
  then show ?thesis
    unfolding msu_data_channel [OF g] by (simp add: Let_def numeral_3_eq_3)
qed

section \<open>The frame reader\<close>

text \<open>The whole frames of a file from a byte position on, and the frame at an index from there.\<close>

definition frames_left :: "u8 list \<Rightarrow> nat \<Rightarrow> nat" where
  "frames_left bytes p = (length bytes - p) div 4"

definition frame_at :: "u8 list \<Rightarrow> nat \<Rightarrow> nat \<Rightarrow> u8 list" where
  "frame_at bytes p i = take 4 (drop (p + 4 * i) bytes)"

lemma fread_frames:
  "\<exists>q. fread_items 4 n f = (map (frame_at (f_bytes f) (f_pos f)) [0..<min n (frames_left (f_bytes f) (f_pos f))], f\<lparr>f_pos := q\<rparr>)"
  by (auto simp: fread_items_def Let_def frames_left_def frame_at_def min_def add.commute)

definition loop_start :: "msu1 \<Rightarrow> nat" where
  "loop_start g = msu_data_start g + unat (msu_loop_point g) * 4"

text \<open>The second pass of the loop, and the whole of it.\<close>

lemma read_loop_second:
  assumes "length acc < n"
  shows "\<exists>q. msu_read_loop n True acc f g =
    (acc @ map (frame_at (f_bytes f) (f_pos f)) [0..<min (n - length acc) (frames_left (f_bytes f) (f_pos f))],
     g\<lparr>msu_track := Some (f\<lparr>f_pos := q\<rparr>), msu_playing := msu_playing g \<and> n \<le> length acc + frames_left (f_bytes f) (f_pos f)\<rparr>)"
proof -
  obtain q where "fread_items 4 (n - length acc) f =
    (map (frame_at (f_bytes f) (f_pos f)) [0..<min (n - length acc) (frames_left (f_bytes f) (f_pos f))], f\<lparr>f_pos := q\<rparr>)"
    using fread_frames by blast
  with assms show ?thesis
    by (cases g, subst msu_read_loop.simps) (auto simp: Let_def min_def le_diff_conv add.commute intro!: exI [of _ q])
qed

lemma read_loop:
  fixes f :: filep and g :: msu1
  assumes "0 < n"
  defines "k \<equiv> frames_left (f_bytes f) (f_pos f)" and "l \<equiv> frames_left (f_bytes f) (loop_start g)"
  shows "\<exists>q. msu_read_loop n False [] f g =
    (map (frame_at (f_bytes f) (f_pos f)) [0..<min n k]
       @ (if n \<le> k \<or> \<not> msu_repeat g then [] else map (frame_at (f_bytes f) (loop_start g)) [0..<min (n - k) l]),
     g\<lparr>msu_track := Some (f\<lparr>f_pos := q\<rparr>), msu_playing := msu_playing g \<and> (n \<le> k \<or> msu_repeat g \<and> n \<le> k + l)\<rparr>)"
proof -
  let ?acc = "map (frame_at (f_bytes f) (f_pos f)) [0..<min n k]"
  obtain q where q: "fread_items 4 n f = (?acc, f\<lparr>f_pos := q\<rparr>)"
    using fread_frames k_def by blast
  show ?thesis
  proof (cases "n \<le> k \<or> \<not> msu_repeat g")
    case True
    then show ?thesis
      using assms(1) q by (subst msu_read_loop.simps) (auto simp: Let_def min_def intro!: exI [of _ q])
  next
    case False
    then have "msu_read_loop n False [] f g = msu_read_loop n True ?acc (f\<lparr>f_pos := loop_start g\<rparr>) g"
      using assms(1) q by (subst msu_read_loop.simps) (auto simp: Let_def min_def loop_start_def)
    moreover obtain r where "msu_read_loop n True ?acc (f\<lparr>f_pos := loop_start g\<rparr>) g =
      (?acc @ map (frame_at (f_bytes f) (loop_start g)) [0..<min (n - k) l],
       g\<lparr>msu_track := Some (f\<lparr>f_pos := r\<rparr>), msu_playing := msu_playing g \<and> n \<le> k + l\<rparr>)"
      using read_loop_second [of ?acc n "f\<lparr>f_pos := loop_start g\<rparr>" g] False by (auto simp: l_def min_def)
    ultimately show ?thesis using False by (auto intro!: exI [of _ r])
  qed
qed

text \<open>
  C40. The frame reader ends and fills every block exactly: the frames left in the track, then, when
  repeat is on, those from the loop point, then silence. Playback goes on exactly when the track or
  the track and one pass over the loop region filled the block, so that a loop region which is not
  empty but too short to finish the block stops playback.
\<close>

theorem msu_frames_exact:
  assumes "0 < n" "msu_read_frames n f g = (out, g')"
  shows "length out = n
    \<and> (\<forall>i<n. out ! i =
        (let k = frames_left (f_bytes f) (f_pos f); l = frames_left (f_bytes f) (loop_start g) in
         if i < k then pcm_frame (frame_at (f_bytes f) (f_pos f) i)
         else if msu_repeat g \<and> i < k + l then pcm_frame (frame_at (f_bytes f) (loop_start g) (i - k))
         else (0, 0)))
    \<and> (msu_playing g' \<longleftrightarrow> msu_playing g \<and> (n \<le> frames_left (f_bytes f) (f_pos f)
        \<or> msu_repeat g \<and> n \<le> frames_left (f_bytes f) (f_pos f) + frames_left (f_bytes f) (loop_start g)))"
  using read_loop [OF assms(1), of f g] assms(2)
  by (auto simp: msu_read_frames_def nth_append Let_def min_def) arith

theorem msu_frames_exact_witness:
  "\<exists>g out g'. msu_repeat g \<and> msu_playing g \<and> msu_read_frames 3 \<lparr>f_bytes = [1, 0, 2, 0], f_pos = 0\<rparr> g = (out, g')
     \<and> out ! 1 = (1, 2) \<and> out ! 2 = (0, 0) \<and> \<not> msu_playing g'"
proof -
  let ?f = "\<lparr>f_bytes = [1, 0, 2, 0], f_pos = 0\<rparr> :: filep"
  let ?g = "(msu1_off (\<lambda>_. None))\<lparr>msu_repeat := True, msu_playing := True\<rparr>"
  obtain out g' where r: "msu_read_frames 3 ?f ?g = (out, g')" by (cases "msu_read_frames 3 ?f ?g")
  have "out ! 1 = (1, 2)" "out ! 2 = (0, 0)" "\<not> msu_playing g'"
    using msu_frames_exact [OF _ r]
    by (simp_all add: frames_left_def frame_at_def loop_start_def msu1_off_def pcm_frame_def word16_def)
  moreover have "msu_repeat ?g" "msu_playing ?g" by simp_all
  ultimately show ?thesis using r by blast
qed

end
