(* ===== verification/Rtl_Regs.thy ===== *)
theory Rtl_Regs
  imports Dma_Transfer Msu1
begin

text \<open>
  The register interface that recompiled code uses, from \<open>common_rtl.c\<close>, \<open>common_rtl.h\<close> and
  \<open>recomp_hw.c\<close>: \<open>WriteReg\<close>, \<open>ReadReg\<close> and their word forms, the pointers into RAM and ROM
  (\<open>RomPtr\<close>, \<open>MvnPtr\<close>, \<open>IndirPtr\<close>), the per-line HDMA replay and the frame
  driver. The global variables are the record \<open>machine\<close>. A pointer is a location in RAM or
  ROM; reading or writing outside the ROM array is \<open>Abort\<close>, like a failed assertion. Debug hooks
  are left out.
\<close>

record machine =
  g_snes :: snes
  g_msu :: msu1
  g_memsel :: u8
  g_last_hdmaen :: u8
  g_fail :: bool
  g_main_cycles :: u64
  g_apu_pace_cycles :: u64
  snes_frame_counter :: u32
  g_fp_ring :: "u64 list"
  g_fp_max_frame :: u64

definition upd_snes :: "(snes \<Rightarrow> snes) \<Rightarrow> machine \<Rightarrow> machine" where
  "upd_snes f m = m\<lparr>g_snes := f (g_snes m)\<rparr>"

definition on_snes :: "snes outcome \<Rightarrow> machine \<Rightarrow> machine outcome" where
  "on_snes r m = obind r (\<lambda>s. Done (m\<lparr>g_snes := s\<rparr>))"

definition on_snes_value :: "('a \<times> snes) outcome \<Rightarrow> machine \<Rightarrow> ('a \<times> machine) outcome" where
  "on_snes_value r m = obind r (\<lambda>(v, s). Done (v, m\<lparr>g_snes := s\<rparr>))"

section \<open>Locations\<close>

datatype loc = Ram u32 | Rom nat

text \<open>\<open>RomPtr\<close>: the LoROM offset modulo the size of the ROM; an address outside the window sets \<open>g_fail\<close>.\<close>

definition rom_offset :: "cart \<Rightarrow> u32 \<Rightarrow> nat" where
  "rom_offset cart addr =
     (let off = push_bit 15 (drop_bit 16 addr) OR (addr AND 0x7fff);
          rom_size = (if cart_romSize cart = 0 then 0x80000 else cart_romSize cart)
      in unat off mod unat rom_size)"

definition rom_window :: "u32 \<Rightarrow> bool" where
  "rom_window addr \<longleftrightarrow>
     (let bank = bus_bank addr; lo = ucast addr :: u16
      in bank \<noteq> 0x7e \<and> bank \<noteq> 0x7f \<and> (lo \<ge> 0x8000 \<or> bank AND 0x7f \<ge> 0x40))"

definition RomPtr :: "u32 \<Rightarrow> machine \<Rightarrow> loc \<times> machine" where
  "RomPtr addr m =
     (Rom (rom_offset (sn_cart (g_snes m)) addr), if rom_window addr then m else m\<lparr>g_fail := True\<rparr>)"

text \<open>The banks in which the low addresses mirror work RAM.\<close>

definition ram_loc :: "u8 \<Rightarrow> u16 \<Rightarrow> loc option" where
  "ram_loc bank addr =
     (if bank = 0x7e then Some (Ram (ucast addr))
      else if bank = 0x7f then Some (Ram (0x10000 + ucast addr))
      else if (bank < 0x40 \<or> bank \<ge> 0x80 \<and> bank < 0xc0) \<and> addr < 0x2000 then Some (Ram (ucast addr))
      else None)"

definition MvnPtr :: "u8 \<Rightarrow> u16 \<Rightarrow> loc" where
  "MvnPtr bank addr =
     (case ram_loc bank addr of Some l \<Rightarrow> l
      | None \<Rightarrow> let full = adr24 bank addr
          in Rom (unat ((push_bit 15 (drop_bit 16 full) OR (full AND 0x7fff)) AND 0x3fffff)))"

definition SimpleHdma_GetPtr :: "u32 \<Rightarrow> machine \<Rightarrow> loc \<times> machine" where
  "SimpleHdma_GetPtr p m =
     (case ram_loc (bus_bank p) (ucast p) of Some l \<Rightarrow> (l, m) | None \<Rightarrow> RomPtr p m)"

text \<open>A \<open>LongPtr\<close> is its 24-bit value.\<close>

definition IndirPtr :: "u32 \<Rightarrow> u16 \<Rightarrow> machine \<Rightarrow> loc \<times> machine" where
  "IndirPtr ptr offs m =
     (let a = (ptr AND 0xffffff) + ucast offs; bank = bus_bank a in
      if bank \<ge> 0x7e \<and> bank \<le> 0x7f \<or> a AND 0xffff < 0x2000 then (Ram (a AND 0x1ffff), m) else RomPtr a m)"

definition loc_add :: "nat \<Rightarrow> loc \<Rightarrow> loc" where
  "loc_add n l = (case l of Ram i \<Rightarrow> Ram (i + of_nat n) | Rom i \<Rightarrow> Rom (i + n))"

definition load :: "loc \<Rightarrow> machine \<Rightarrow> u8 outcome" where
  "load l m =
     (case l of Ram i \<Rightarrow> if i < 0x20000 then Done (sn_ram (g_snes m) i) else Abort
      | Rom i \<Rightarrow> if i < length (cart_rom (sn_cart (g_snes m))) then Done (cart_rom (sn_cart (g_snes m)) ! i) else Abort)"

definition store :: "loc \<Rightarrow> u8 \<Rightarrow> machine \<Rightarrow> machine outcome" where
  "store l v m =
     (case l of
        Ram i \<Rightarrow> if i < 0x20000 then Done (upd_snes (\<lambda>s. s\<lparr>sn_ram := (sn_ram s)(i := v)\<rparr>) m) else Abort
      | Rom i \<Rightarrow> if i < length (cart_rom (sn_cart (g_snes m)))
          then Done (upd_snes (\<lambda>s. s\<lparr>sn_cart := (sn_cart s)\<lparr>cart_rom := (cart_rom (sn_cart s))[i := v]\<rparr>\<rparr>) m) else Abort)"

definition IndirWriteByte :: "u32 \<Rightarrow> u16 \<Rightarrow> u8 \<Rightarrow> machine \<Rightarrow> machine outcome" where
  "IndirWriteByte ptr offs v m = (case IndirPtr ptr offs m of (dst, m) \<Rightarrow> store dst v m)"

definition IndirWriteWord :: "u32 \<Rightarrow> u16 \<Rightarrow> u16 \<Rightarrow> machine \<Rightarrow> machine outcome" where
  "IndirWriteWord ptr offs v m =
     (case IndirPtr ptr offs m of (dst, m) \<Rightarrow>
       obind (store dst (lo8 v) m) (store (loc_add 1 dst) (hi8 v)))"

section \<open>Registers\<close>

text \<open>\<open>recomp_write_internal_reg\<close> and \<open>WriteReg\<close>; the fuel is that of the bus writes.\<close>

definition recomp_write_internal_reg :: "nat \<Rightarrow> u16 \<Rightarrow> u8 \<Rightarrow> snes \<Rightarrow> snes outcome" where
  "recomp_write_internal_reg n = snes_writeReg (dma_run (snes_write n) (Suc n))"

definition recomp_read_internal_reg :: "u16 \<Rightarrow> snes \<Rightarrow> u8 \<times> snes" where
  "recomp_read_internal_reg = snes_readReg"

definition rtl_ppu_write :: "u16 \<Rightarrow> u8 \<Rightarrow> machine \<Rightarrow> machine outcome" where
  "rtl_ppu_write reg v m =
     (case ppu_write (lo8 reg) v (sn_ppu (g_snes m)) of None \<Rightarrow> Abort
      | Some ppu \<Rightarrow> Done (upd_snes (\<lambda>s. s\<lparr>sn_ppu := ppu\<rparr>) m))"

definition rtl_apu_write :: "u16 \<Rightarrow> u8 \<Rightarrow> snes \<Rightarrow> snes outcome" where
  "rtl_apu_write reg v s =
     (case next_touch s of (tc, s) \<Rightarrow>
       (case RtlApuWrite tc reg v (sn_apu s, sn_port_clock s) of None \<Rightarrow> Abort
        | Some (spc, pc) \<Rightarrow> Done (s\<lparr>sn_apu := spc, sn_port_clock := pc\<rparr>)))"

definition WriteReg :: "nat \<Rightarrow> u16 \<Rightarrow> u8 \<Rightarrow> machine \<Rightarrow> machine outcome" where
  "WriteReg n reg v m =
     (if 0x2000 \<le> reg \<and> reg < 0x2008 then
        Done (if msu1_enabled (g_msu m) then m\<lparr>g_msu := msu1_write reg v (g_msu m)\<rparr> else m)
      else if 0x2100 \<le> reg \<and> reg < 0x2140 then rtl_ppu_write reg v m
      else if 0x2140 \<le> reg \<and> reg < 0x2180 then on_snes (rtl_apu_write reg v (g_snes m)) m
      else if 0x2180 \<le> reg \<and> reg < 0x2184 then on_snes (snes_writeBBus (lo8 reg) v (g_snes m)) m
      else if 0x4200 \<le> reg \<and> reg < 0x4220 then
        (let m = (if reg = 0x420c then m\<lparr>g_last_hdmaen := v\<rparr> else m);
             m = (if reg = 0x420d then m\<lparr>g_memsel := v AND 1\<rparr> else m)
         in on_snes (recomp_write_internal_reg n reg v (g_snes m)) m)
      else if 0x4300 \<le> reg \<and> reg < 0x4380 then
        Done (upd_snes (\<lambda>s. s\<lparr>sn_dma := dma_write reg v (sn_dma s)\<rparr>) m)
      else Done m)"

definition ReadReg :: "u16 \<Rightarrow> machine \<Rightarrow> (u8 \<times> machine) outcome" where
  "ReadReg reg m =
     (if 0x2000 \<le> reg \<and> reg < 0x2008 then
        Done (if msu1_enabled (g_msu m)
          then (case msu1_read reg (g_msu m) of (v, g) \<Rightarrow> (v, m\<lparr>g_msu := g\<rparr>)) else (0, m))
      else if 0x2100 \<le> reg \<and> reg < 0x2140 then
        (case ppu_read (lo8 reg) (sn_ppu (g_snes m)) of None \<Rightarrow> Abort
         | Some (v, ppu) \<Rightarrow> Done (v, upd_snes (\<lambda>s. s\<lparr>sn_ppu := ppu\<rparr>) m))
      else if 0x2140 \<le> reg \<and> reg < 0x2180 then on_snes_value (snes_read (ucast reg) (g_snes m)) m
      else if reg = 0x2180 then on_snes_value (snes_readBBus (lo8 reg) (g_snes m)) m
      else if reg = 0x4016 \<or> reg = 0x4017 then on_snes_value (Done (snes_readReg reg (g_snes m))) m
      else if 0x4200 \<le> reg \<and> reg < 0x4220 then on_snes_value (Done (recomp_read_internal_reg reg (g_snes m))) m
      else if 0x4300 \<le> reg \<and> reg < 0x4380 then Done (dma_read (sn_dma (g_snes m)) reg, m)
      else Done (0, m))"

definition ReadRegWord :: "u16 \<Rightarrow> machine \<Rightarrow> (u16 \<times> machine) outcome" where
  "ReadRegWord reg m =
     (if 0x2140 \<le> reg \<and> reg \<le> 0x217f then
        (case next_touch (g_snes m) of (tc, s) \<Rightarrow>
          let s = s\<lparr>sn_apu := snes_catchupApu (tc_cycles tc) (sn_apu s)\<rparr>;
              ports = apu_outPorts (spc_apu (sn_apu s))
          in Done (word16 (ports ! unat (reg AND 3)) (ports ! unat ((reg + 1) AND 3)), m\<lparr>g_snes := s\<rparr>))
      else obind (ReadReg reg m) (\<lambda>(lo, m). obind (ReadReg (reg + 1) m) (\<lambda>(hi, m). Done (word16 lo hi, m))))"

definition WriteVramWord :: "u16 \<Rightarrow> ppu \<Rightarrow> ppu" where
  "WriteVramWord v ppu =
     ppu\<lparr>ppu_vram := (ppu_vram ppu)(ppu_vramPointer ppu AND 0x7fff := v),
         ppu_vramPointer := ppu_vramPointer ppu + ucast (ppu_vramIncrement ppu)\<rparr>"

definition WriteRegWord :: "nat \<Rightarrow> u16 \<Rightarrow> u16 \<Rightarrow> machine \<Rightarrow> machine outcome" where
  "WriteRegWord n reg v m =
     (if reg = 0x2118 then Done (upd_snes (\<lambda>s. s\<lparr>sn_ppu := WriteVramWord v (sn_ppu s)\<rparr>) m)
      else if 0x2140 \<le> reg \<and> reg \<le> 0x217f then obind (WriteReg n (reg + 1) (hi8 v) m) (WriteReg n reg (lo8 v))
      else obind (WriteReg n reg (lo8 v) m) (WriteReg n (reg + 1) (hi8 v)))"

section \<open>HDMA replay\<close>

record simple_hdma =
  sh_table :: "loc option"
  sh_indir_ptr :: loc
  sh_rep_count :: u8
  sh_mode :: u8
  sh_ppu_addr :: u8
  sh_indir_bank :: u8

definition transferLength :: "nat list" where
  "transferLength = [1, 2, 2, 4, 4, 4, 2, 4]"

definition SimpleHdma_Init :: "dma_channel \<Rightarrow> simple_hdma \<Rightarrow> machine \<Rightarrow> simple_hdma \<times> machine" where
  "SimpleHdma_Init dc c m =
     (if \<not> dc_hdmaActive dc then (c\<lparr>sh_table := None\<rparr>, m)
      else case SimpleHdma_GetPtr (adr24 (dc_aBank dc) (dc_aAdr dc)) m of (t, m) \<Rightarrow>
        (c\<lparr>sh_table := Some t, sh_rep_count := 0, sh_mode := dc_mode dc OR push_bit 6 (of_bool (dc_indirect dc)),
           sh_ppu_addr := dc_bAdr dc, sh_indir_bank := dc_indBank dc\<rparr>, m))"

text \<open>The transfer of one line: \<open>n\<close> bytes from a location, returning the location after them.\<close>

primrec hdma_bytes :: "nat \<Rightarrow> simple_hdma \<Rightarrow> nat \<Rightarrow> loc \<Rightarrow> machine \<Rightarrow> (loc \<times> machine) outcome" where
  "hdma_bytes 0 c j l m = Done (l, m)"
| "hdma_bytes (Suc k) c j l m =
     obind (load l m) (\<lambda>v.
       obind (rtl_ppu_write (0x2100 + ucast (sh_ppu_addr c) + ucast (bAdrOffsets ! unat (sh_mode c AND 7) ! j)) v m)
         (hdma_bytes k c (Suc j) (loc_add 1 l)))"

definition hdma_transfer :: "simple_hdma \<Rightarrow> loc \<Rightarrow> machine \<Rightarrow> (simple_hdma \<times> machine) outcome" where
  "hdma_transfer c t m =
     (let n = transferLength ! unat (sh_mode c AND 7) in
      if tst (sh_mode c) 0x40
      then obind (hdma_bytes n c 0 (sh_indir_ptr c) m) (\<lambda>(l, m). Done (c\<lparr>sh_table := Some t, sh_indir_ptr := l\<rparr>, m))
      else obind (hdma_bytes n c 0 t m) (\<lambda>(l, m). Done (c\<lparr>sh_table := Some l\<rparr>, m)))"

definition SimpleHdma_DoLine :: "simple_hdma \<Rightarrow> machine \<Rightarrow> (simple_hdma \<times> machine) outcome" where
  "SimpleHdma_DoLine c m =
     (case sh_table c of None \<Rightarrow> Done (c, m)
      | Some t \<Rightarrow>
          let count_down = (\<lambda>(c, m). Done (c\<lparr>sh_rep_count := sh_rep_count c - 1\<rparr>, m)) in
          if sh_rep_count c AND 0x7f = 0 then
            obind (load t m) (\<lambda>rep.
              let c = c\<lparr>sh_rep_count := rep\<rparr>; t = loc_add 1 t in
              if rep = 0 then Done (c\<lparr>sh_table := None\<rparr>, m)
              else if tst (sh_mode c) 0x40 then
                obind (load t m) (\<lambda>lo. obind (load (loc_add 1 t) m) (\<lambda>hi.
                  case SimpleHdma_GetPtr (adr24 (sh_indir_bank c) (word16 lo hi)) m of (p, m) \<Rightarrow>
                    obind (hdma_transfer (c\<lparr>sh_indir_ptr := p\<rparr>) (loc_add 2 t) m) count_down))
              else obind (hdma_transfer c t m) count_down)
          else if tst (sh_rep_count c) 0x80 then obind (hdma_transfer c t m) count_down
          else count_down (c, m))"

section \<open>Frames\<close>

text \<open>Opposite directions are released, for both players.\<close>

definition filter_inputs :: "u32 \<Rightarrow> u32" where
  "filter_inputs inputs =
     (let i = inputs;
          i = (if i AND 0x30 = 0x30 then i XOR 0x30 else i);
          i = (if i AND 0xc0 = 0xc0 then i XOR 0xc0 else i);
          i = (if i AND 0x30000 = 0x30000 then i XOR 0x30000 else i)
      in if i AND 0xc0000 = 0xc0000 then i XOR 0xc0000 else i)"

definition fp_fnv1a :: "u8 list \<Rightarrow> u64" where
  "fp_fnv1a bs = foldl (\<lambda>h b. (h XOR ucast b) * 1099511628211) 1469598103934665603 bs"

definition FP_RING :: nat where "FP_RING = 8192"

text \<open>\<open>RtlRunFrame\<close>: the game's frame function is an argument, the watchdog's exit part of it.\<close>

definition RtlRunFrame :: "(machine \<Rightarrow> machine outcome) \<Rightarrow> u32 \<Rightarrow> machine \<Rightarrow> machine outcome" where
  "RtlRunFrame run_frame inputs m =
     (let i = filter_inputs inputs in
      obind (run_frame (upd_snes (\<lambda>s. s\<lparr>sn_input1 := ucast (i AND 0xfff),
               sn_input2 := ucast (drop_bit 12 i AND 0xfff)\<rparr>) m))
        (\<lambda>m. let k = snes_frame_counter m in
          Done (m\<lparr>g_fp_ring := (g_fp_ring m)[unat k mod FP_RING :=
                     fp_fnv1a (map (\<lambda>a. sn_ram (g_snes m) (of_nat a)) [0..<0x20000])],
                  g_fp_max_frame := scast k, snes_frame_counter := k + 1\<rparr>)))"

section \<open>Word writes to video memory\<close>

lemma put_both [simp]: "put_hi (put_lo w (lo8 v)) (hi8 v) = v"
  by (simp add: put_word16)

lemma on_snes_upd [simp]: "g_snes (upd_snes f m) = f (g_snes m)" "upd_snes f (upd_snes g m) = upd_snes (f \<circ> g) m"
  by (simp_all add: upd_snes_def)

text \<open>
  The word write to \<open>$2118\<close> that recompiled code uses is the pair of byte writes it stands for,
  low byte first, whenever video memory is addressed linearly and advances on the high byte.
\<close>

theorem vram_word_write:
  assumes "ppu_vramRemapMode (sn_ppu (g_snes m)) = 0" "ppu_vramIncrementOnHigh (sn_ppu (g_snes m))"
  shows "WriteRegWord n 0x2118 v m = obind (WriteReg n 0x2118 (lo8 v) m) (WriteReg n 0x2119 (hi8 v))"
  using assms
  by (simp add: WriteRegWord_def WriteReg_def rtl_ppu_write_def ppu_write_def lo8_def [of "0x2118"] lo8_def [of "0x2119"]
      vram_write_low_def vram_write_high_def vram_slot_def ppu_getVramRemap_def vram_step_def WriteVramWord_def Let_def)
    (simp add: upd_snes_def comp_def)

definition idle_machine :: machine where
  "idle_machine =
     \<lparr>g_snes = idle_snes, g_msu = msu1_off (\<lambda>_. None), g_memsel = 0, g_last_hdmaen = 0, g_fail = False,
      g_main_cycles = 0, g_apu_pace_cycles = 0, snes_frame_counter = 0, g_fp_ring = replicate FP_RING 0, g_fp_max_frame = 0\<rparr>"

theorem vram_word_write_witness:
  "let m = upd_snes (\<lambda>s. s\<lparr>sn_ppu := ppu_reset\<lparr>ppu_vramIncrementOnHigh := True\<rparr>\<rparr>) idle_machine
   in WriteRegWord 0 0x2118 0x1234 m = obind (WriteReg 0 0x2118 0x34 m) (WriteReg 0 0x2119 0x12)"
proof -
  have v: "lo8 0x1234 = 0x34" "hi8 0x1234 = 0x12" by (simp_all add: lo8_def hi8_def)
  show ?thesis
    unfolding Let_def using vram_word_write [where v = "0x1234" and n = 0] by (simp add: v ppu_reset_def)
qed

text \<open>In the other mode the two differ: the byte writes put the high byte into the next word.\<close>

lemma vram_word_write_differs:
  assumes "sn_ppu (g_snes m) = ppu_reset"
  shows "WriteRegWord n 0x2118 0x1234 m \<noteq> obind (WriteReg n 0x2118 0x34 m) (WriteReg n 0x2119 0x12)"
proof
  assume eq: "WriteRegWord n 0x2118 0x1234 m = obind (WriteReg n 0x2118 0x34 m) (WriteReg n 0x2119 0x12)"
  define vram1 where "vram1 = (\<lambda>r :: machine outcome. case r of Done m \<Rightarrow> ppu_vram (sn_ppu (g_snes m)) 1 | _ \<Rightarrow> 0)"
  have "vram1 (WriteRegWord n 0x2118 0x1234 m) = 0"
    using assms by (simp add: vram1_def WriteRegWord_def WriteVramWord_def ppu_reset_def)
  moreover have "vram1 (obind (WriteReg n 0x2118 0x34 m) (WriteReg n 0x2119 0x12)) = 0x1200"
    using assms by (simp add: vram1_def WriteReg_def rtl_ppu_write_def ppu_write_def lo8_def vram_write_low_def
        vram_write_high_def vram_slot_def ppu_getVramRemap_def vram_step_def ppu_reset_def put_lo_def put_hi_def Let_def)
  ultimately show False using eq by simp
qed

section \<open>Directions\<close>

definition opposed :: "u32 \<Rightarrow> nat \<Rightarrow> bool" where
  "opposed i k \<longleftrightarrow> bit i k \<and> bit i (Suc k)"

lemma bit_3: "bit (3::nat) n \<longleftrightarrow> n < 2" "bit (3::int) n \<longleftrightarrow> n < 2" "bit (3::u32) n \<longleftrightarrow> n < 2"
proof -
  have m: "(3::nat) = mask 2" "(3::int) = mask 2" "(3::u32) = mask 2"
    by (simp_all add: mask_eq_exp_minus_1)
  show "bit (3::nat) n \<longleftrightarrow> n < 2" "bit (3::int) n \<longleftrightarrow> n < 2" "bit (3::u32) n \<longleftrightarrow> n < 2"
    unfolding m bit_mask_iff by auto
qed

lemma pair_mask:
  fixes i :: u32
  assumes "k < 31"
  shows "i AND push_bit k 3 = push_bit k 3 \<longleftrightarrow> opposed i k"
proof
  assume eq: "i AND push_bit k 3 = push_bit k 3"
  show "opposed i k"
    using assms arg_cong [OF eq, of "\<lambda>w. bit w k"] arg_cong [OF eq, of "\<lambda>w. bit w (Suc k)"]
    by (simp add: opposed_def bit_simps bit_3)
next
  assume "opposed i k"
  then have "bit i n" if "k \<le> n" "n - k < 2" for n
    using that by (cases "n = k"; cases "n = Suc k") (auto simp: opposed_def)
  then show "i AND push_bit k 3 = push_bit k 3"
    by (intro bit_word_eqI) (auto simp: bit_simps bit_3)
qed

lemma bit_release:
  fixes i :: u32
  assumes "k < 31"
  shows "bit (if i AND push_bit k 3 = push_bit k 3 then i XOR push_bit k 3 else i) n
    \<longleftrightarrow> bit i n \<and> \<not> ((n = k \<or> n = Suc k) \<and> opposed i k)"
proof -
  have "n = k \<or> n = Suc k" if "k \<le> n" "n - k < 2" using that by arith
  then show ?thesis
    using assms by (auto simp: pair_mask [OF assms] bit_simps bit_3 opposed_def dest: bit_imp_le_length)
qed

text \<open>
  The input filter releases opposite directions of both players, exactly when both are pressed,
  and changes no other button.
\<close>

theorem filter_inputs_directions:
  "bit (filter_inputs i) k \<longleftrightarrow> bit i k
     \<and> \<not> ((k = 4 \<or> k = 5) \<and> opposed i 4 \<or> (k = 6 \<or> k = 7) \<and> opposed i 6
        \<or> (k = 16 \<or> k = 17) \<and> opposed i 16 \<or> (k = 18 \<or> k = 19) \<and> opposed i 18)"
proof -
  have m: "(0x30::u32) = push_bit 4 3" "(0xc0::u32) = push_bit 6 3" "(0x30000::u32) = push_bit 16 3"
    "(0xc0000::u32) = push_bit 18 3"
    by simp_all
  show ?thesis
    unfolding filter_inputs_def Let_def m by (simp only: bit_release opposed_def) auto
qed

end
