(* ===== verification/Cpu_State.thy ===== *)
theory Cpu_State
  imports Rtl_Regs
begin

text \<open>
  The processor state of recompiled code, from \<open>cpu_state.h\<close> and \<open>cpu_state.c\<close>: registers and flag
  mirrors, the typed register accesses and the memory map \<open>cpu_read8\<close> \<dots> \<open>cpu_write16\<close> over the
  runtime's globals (theory \<open>Rtl_Regs\<close>). The pointer \<open>cpu->ram\<close> is the work RAM of the machine.
  Logging counters are left out.
\<close>

section \<open>Registers\<close>

record cpu_state =
  cs_A :: u16
  cs_X :: u16
  cs_Y :: u16
  cs_S :: u16
  cs_D :: u16
  cs_DB :: u8
  cs_PB :: u8
  cs_host_return_valid :: u8
  cs_P :: u8
  cs_m_flag :: u8
  cs_x_flag :: u8
  cs_emulation :: u8
  cs_flag_N :: u8
  cs_flag_V :: u8
  cs_flag_Z :: u8
  cs_flag_C :: u8
  cs_flag_I :: u8
  cs_flag_D :: u8
  cs_cycles :: u64
  cs_master_cycles :: u64

definition cpu_read_b :: "cpu_state \<Rightarrow> u8" where "cpu_read_b cpu = hi8 (cs_A cpu)"

definition cpu_read_a8 :: "cpu_state \<Rightarrow> u8" where "cpu_read_a8 cpu = lo8 (cs_A cpu)"
definition cpu_read_a16 :: "cpu_state \<Rightarrow> u16" where "cpu_read_a16 cpu = cs_A cpu"
definition cpu_read_a_m :: "cpu_state \<Rightarrow> u16" where
  "cpu_read_a_m cpu = (if cs_m_flag cpu \<noteq> 0 then ucast (cpu_read_a8 cpu) else cpu_read_a16 cpu)"
definition cpu_write_a8 :: "u8 \<Rightarrow> cpu_state \<Rightarrow> cpu_state" where
  "cpu_write_a8 v cpu = cpu\<lparr>cs_A := (cs_A cpu AND 0xff00) OR ucast v\<rparr>"
definition cpu_write_a16 :: "u16 \<Rightarrow> cpu_state \<Rightarrow> cpu_state" where "cpu_write_a16 v cpu = cpu\<lparr>cs_A := v\<rparr>"
definition cpu_write_a_m :: "u16 \<Rightarrow> cpu_state \<Rightarrow> cpu_state" where
  "cpu_write_a_m v cpu = (if cs_m_flag cpu \<noteq> 0 then cpu_write_a8 (lo8 v) cpu else cpu_write_a16 v cpu)"

definition cpu_read_x8 :: "cpu_state \<Rightarrow> u8" where "cpu_read_x8 cpu = lo8 (cs_X cpu)"
definition cpu_read_x16 :: "cpu_state \<Rightarrow> u16" where "cpu_read_x16 cpu = cs_X cpu"
definition cpu_read_x_x :: "cpu_state \<Rightarrow> u16" where
  "cpu_read_x_x cpu = (if cs_x_flag cpu \<noteq> 0 then ucast (cpu_read_x8 cpu) else cpu_read_x16 cpu)"
definition cpu_write_x8 :: "u8 \<Rightarrow> cpu_state \<Rightarrow> cpu_state" where "cpu_write_x8 v cpu = cpu\<lparr>cs_X := ucast v\<rparr>"
definition cpu_write_x16 :: "u16 \<Rightarrow> cpu_state \<Rightarrow> cpu_state" where "cpu_write_x16 v cpu = cpu\<lparr>cs_X := v\<rparr>"
definition cpu_write_x_x :: "u16 \<Rightarrow> cpu_state \<Rightarrow> cpu_state" where
  "cpu_write_x_x v cpu = (if cs_x_flag cpu \<noteq> 0 then cpu_write_x8 (lo8 v) cpu else cpu_write_x16 v cpu)"

definition cpu_read_y8 :: "cpu_state \<Rightarrow> u8" where "cpu_read_y8 cpu = lo8 (cs_Y cpu)"
definition cpu_read_y16 :: "cpu_state \<Rightarrow> u16" where "cpu_read_y16 cpu = cs_Y cpu"
definition cpu_read_y_x :: "cpu_state \<Rightarrow> u16" where
  "cpu_read_y_x cpu = (if cs_x_flag cpu \<noteq> 0 then ucast (cpu_read_y8 cpu) else cpu_read_y16 cpu)"
definition cpu_write_y8 :: "u8 \<Rightarrow> cpu_state \<Rightarrow> cpu_state" where "cpu_write_y8 v cpu = cpu\<lparr>cs_Y := ucast v\<rparr>"
definition cpu_write_y16 :: "u16 \<Rightarrow> cpu_state \<Rightarrow> cpu_state" where "cpu_write_y16 v cpu = cpu\<lparr>cs_Y := v\<rparr>"
definition cpu_write_y_x :: "u16 \<Rightarrow> cpu_state \<Rightarrow> cpu_state" where
  "cpu_write_y_x v cpu = (if cs_x_flag cpu \<noteq> 0 then cpu_write_y8 (lo8 v) cpu else cpu_write_y16 v cpu)"

section \<open>The status byte and its mirrors\<close>

definition cpu_p_to_mirrors :: "cpu_state \<Rightarrow> cpu_state" where
  "cpu_p_to_mirrors cpu =
     cpu\<lparr>cs_m_flag := of_bool (tst (cs_P cpu) 0x20), cs_x_flag := of_bool (tst (cs_P cpu) 0x10),
         cs_flag_C := of_bool (tst (cs_P cpu) 0x01), cs_flag_Z := of_bool (tst (cs_P cpu) 0x02),
         cs_flag_I := of_bool (tst (cs_P cpu) 0x04), cs_flag_D := of_bool (tst (cs_P cpu) 0x08),
         cs_flag_V := of_bool (tst (cs_P cpu) 0x40), cs_flag_N := of_bool (tst (cs_P cpu) 0x80)\<rparr>"

definition cpu_mirrors_to_p :: "cpu_state \<Rightarrow> cpu_state" where
  "cpu_mirrors_to_p cpu =
     cpu\<lparr>cs_P := (if cs_m_flag cpu \<noteq> 0 then 0x20 else 0) OR (if cs_x_flag cpu \<noteq> 0 then 0x10 else 0)
       OR (if cs_flag_C cpu \<noteq> 0 then 0x01 else 0) OR (if cs_flag_Z cpu \<noteq> 0 then 0x02 else 0)
       OR (if cs_flag_I cpu \<noteq> 0 then 0x04 else 0) OR (if cs_flag_D cpu \<noteq> 0 then 0x08 else 0)
       OR (if cs_flag_V cpu \<noteq> 0 then 0x40 else 0) OR (if cs_flag_N cpu \<noteq> 0 then 0x80 else 0)\<rparr>"

definition cpu_state_init :: cpu_state where
  "cpu_state_init =
     \<lparr>cs_A = 0, cs_X = 0, cs_Y = 0, cs_S = 0x01ff, cs_D = 0, cs_DB = 0, cs_PB = 0, cs_host_return_valid = 0,
      cs_P = 0x20 OR 0x10 OR 0x04, cs_m_flag = 1, cs_x_flag = 1, cs_emulation = 1, cs_flag_N = 0, cs_flag_V = 0,
      cs_flag_Z = 0, cs_flag_C = 0, cs_flag_I = 1, cs_flag_D = 0, cs_cycles = 0, cs_master_cycles = 0\<rparr>"

section \<open>Memory\<close>

definition cpu_ram_offset :: "u8 \<Rightarrow> u16 \<Rightarrow> u32 option" where
  "cpu_ram_offset bank addr =
     (if bank = 0x7e then Some (ucast addr)
      else if bank = 0x7f then Some (0x10000 + ucast addr)
      else if addr < 0x2000 \<and> (bank \<le> 0x3f \<or> bank \<ge> 0x80 \<and> bank \<le> 0xbf) then Some (ucast addr)
      else None)"

definition is_hw_reg :: "u8 \<Rightarrow> u16 \<Rightarrow> bool" where
  "is_hw_reg bank addr \<longleftrightarrow>
     \<not> (addr < 0x2000 \<or> addr \<ge> 0x6000) \<and> (bank \<le> 0x3f \<or> bank \<ge> 0x80 \<and> bank \<le> 0xbf)"

definition cpu_sram_offset :: "cart \<Rightarrow> u8 \<Rightarrow> u16 \<Rightarrow> nat option" where
  "cpu_sram_offset cart bank addr =
     (if cart_ramSize cart = 0 then None
      else if (bank \<ge> 0x70 \<and> bank < 0x7e \<or> bank \<ge> 0xf0 \<and> bank < 0xfe) \<and> addr < 0x8000
      then Some (lorom_ram_index bank addr (cart_ramSize cart))
      else if (bank < 0x40 \<or> bank \<ge> 0x80 \<and> bank < 0xc0) \<and> addr \<ge> 0x6000 \<and> addr < 0x8000
      then Some (hirom_ram_index bank addr (cart_ramSize cart))
      else None)"

definition cpu_pace_cycles :: "u16 \<Rightarrow> machine \<Rightarrow> machine" where
  "cpu_pace_cycles addr m =
     (let m = m\<lparr>g_main_cycles := g_main_cycles m + 256\<rparr>
      in if addr \<ge> 0x2140 \<and> addr \<le> 0x217f then m\<lparr>g_apu_pace_cycles := g_apu_pace_cycles m + 256\<rparr> else m)"

abbreviation sram_at :: "machine \<Rightarrow> u8 \<Rightarrow> u16 \<Rightarrow> nat option" where
  "sram_at m \<equiv> cpu_sram_offset (sn_cart (g_snes m))"

definition sram_byte :: "machine \<Rightarrow> nat \<Rightarrow> u8" where
  "sram_byte m i = cart_ram (sn_cart (g_snes m)) ! i"

definition sram_set :: "nat \<Rightarrow> u8 \<Rightarrow> machine \<Rightarrow> machine" where
  "sram_set i v = upd_snes (\<lambda>s. s\<lparr>sn_cart := (sn_cart s)\<lparr>cart_ram := (cart_ram (sn_cart s))[i := v]\<rparr>\<rparr>)"

definition ram_set :: "u32 \<Rightarrow> u8 \<Rightarrow> machine \<Rightarrow> machine" where
  "ram_set i v = upd_snes (\<lambda>s. s\<lparr>sn_ram := (sn_ram s)(i := v)\<rparr>)"

definition cpu_read8 :: "u8 \<Rightarrow> u16 \<Rightarrow> machine \<Rightarrow> (u8 \<times> machine) outcome" where
  "cpu_read8 bank addr m =
     (case cpu_ram_offset bank addr of Some off \<Rightarrow> Done (sn_ram (g_snes m) off, m)
      | None \<Rightarrow> if is_hw_reg bank addr then ReadReg addr (cpu_pace_cycles addr m)
          else case sram_at m bank addr of Some i \<Rightarrow> Done (sram_byte m i, m)
          | None \<Rightarrow> (case RomPtr (adr24 bank addr) m of (p, m) \<Rightarrow> obind (load p m) (\<lambda>v. Done (v, m))))"

definition cpu_read16 :: "u8 \<Rightarrow> u16 \<Rightarrow> machine \<Rightarrow> (u16 \<times> machine) outcome" where
  "cpu_read16 bank addr m =
     (case Option.bind (cpu_ram_offset bank addr) (\<lambda>off. if off + 1 < 0x20000 then Some off else None) of
        Some off \<Rightarrow> Done (word16 (sn_ram (g_snes m) off) (sn_ram (g_snes m) (off + 1)), m)
      | None \<Rightarrow> if is_hw_reg bank addr then ReadRegWord addr (cpu_pace_cycles addr m)
          else case sram_at m bank addr of
            Some i \<Rightarrow>
              (case sram_at m bank (addr + 1) of
                 Some j \<Rightarrow> Done (word16 (sram_byte m i) (sram_byte m j), m)
               | None \<Rightarrow> obind (cpu_read8 bank (addr + 1) m) (\<lambda>(hi, m'). Done (word16 (sram_byte m' i) hi, m')))
          | None \<Rightarrow> (case RomPtr (adr24 bank addr) m of (p, m) \<Rightarrow>
              obind (load p m) (\<lambda>lo. obind (load (loc_add 1 p) m) (\<lambda>hi. Done (word16 lo hi, m)))))"

definition cpu_write8 :: "nat \<Rightarrow> u8 \<Rightarrow> u16 \<Rightarrow> u8 \<Rightarrow> machine \<Rightarrow> machine outcome" where
  "cpu_write8 n bank addr v m =
     (case cpu_ram_offset bank addr of Some off \<Rightarrow> Done (ram_set off v m)
      | None \<Rightarrow> if is_hw_reg bank addr then WriteReg n addr v (cpu_pace_cycles addr m)
          else case sram_at m bank addr of Some i \<Rightarrow> Done (sram_set i v m) | None \<Rightarrow> Done m)"

definition cpu_write16 :: "nat \<Rightarrow> u8 \<Rightarrow> u16 \<Rightarrow> u16 \<Rightarrow> machine \<Rightarrow> machine outcome" where
  "cpu_write16 n bank addr v m =
     (case Option.bind (cpu_ram_offset bank addr) (\<lambda>off. if off + 1 < 0x20000 then Some off else None) of
        Some off \<Rightarrow> Done (ram_set (off + 1) (hi8 v) (ram_set off (lo8 v) m))
      | None \<Rightarrow> if is_hw_reg bank addr then WriteRegWord n addr v (cpu_pace_cycles addr m)
          else case sram_at m bank addr of
            Some i \<Rightarrow>
              (let m = sram_set i (lo8 v) m in
               case sram_at m bank (addr + 1) of Some j \<Rightarrow> Done (sram_set j (hi8 v) m)
               | None \<Rightarrow> cpu_write8 n bank (addr + 1) (hi8 v) m)
          | None \<Rightarrow> Done m)"

section \<open>Mirrors and widths\<close>

lemma flag_masks:
  "(if b then 0x20 else 0 :: u8) = push_bit 5 (of_bool b)" "(if b then 0x10 else 0 :: u8) = push_bit 4 (of_bool b)"
  "(if b then 0x01 else 0 :: u8) = push_bit 0 (of_bool b)" "(if b then 0x02 else 0 :: u8) = push_bit 1 (of_bool b)"
  "(if b then 0x04 else 0 :: u8) = push_bit 2 (of_bool b)" "(if b then 0x08 else 0 :: u8) = push_bit 3 (of_bool b)"
  "(if b then 0x40 else 0 :: u8) = push_bit 6 (of_bool b)" "(if b then 0x80 else 0 :: u8) = push_bit 7 (of_bool b)"
  by simp_all

lemma bit_mirrors_to_p:
  "bit (cs_P (cpu_mirrors_to_p cpu)) n \<longleftrightarrow>
     n = 5 \<and> cs_m_flag cpu \<noteq> 0 \<or> n = 4 \<and> cs_x_flag cpu \<noteq> 0 \<or> n = 0 \<and> cs_flag_C cpu \<noteq> 0
     \<or> n = 1 \<and> cs_flag_Z cpu \<noteq> 0 \<or> n = 2 \<and> cs_flag_I cpu \<noteq> 0 \<or> n = 3 \<and> cs_flag_D cpu \<noteq> 0
     \<or> n = 6 \<and> cs_flag_V cpu \<noteq> 0 \<or> n = 7 \<and> cs_flag_N cpu \<noteq> 0"
  unfolding cpu_mirrors_to_p_def flag_masks
  by (cases cpu) (simp only: cpu_state.simps bit_or_iff bit_push_of_bool disj_assoc, simp)

lemma byte_positions: "n < 8 \<Longrightarrow> n \<in> set [7, 6, 5, 4, 3, 2, 1, 0 :: nat]"
  by simp arith

definition mirrors_bool :: "cpu_state \<Rightarrow> bool" where
  "mirrors_bool cpu \<longleftrightarrow>
     list_all (\<lambda>f. f cpu = 0 \<or> f cpu = 1)
       [cs_m_flag, cs_x_flag, cs_flag_C, cs_flag_Z, cs_flag_I, cs_flag_D, cs_flag_V, cs_flag_N]"

lemma pack_unpacked: "cs_P (cpu_mirrors_to_p (cpu_p_to_mirrors cpu)) = cs_P cpu"
proof (rule bit_word_eqI)
  fix n assume "n < LENGTH(8)"
  then have "n \<in> set [7, 6, 5, 4, 3, 2, 1, 0]" by (intro byte_positions) simp
  then show "bit (cs_P (cpu_mirrors_to_p (cpu_p_to_mirrors cpu))) n = bit (cs_P cpu) n"
    unfolding bit_mirrors_to_p by (auto simp: cpu_p_to_mirrors_def)
qed

lemma unpack_packed:
  assumes "mirrors_bool cpu"
  shows "cpu_p_to_mirrors (cpu_mirrors_to_p cpu) = cpu_mirrors_to_p cpu"
proof -
  have b: "of_bool (v \<noteq> 0) = v" if "v = 0 \<or> v = 1" for v :: u8 using that by auto
  obtain q where q: "cpu_mirrors_to_p cpu = cpu\<lparr>cs_P := q\<rparr>" by (simp add: cpu_mirrors_to_p_def)
  have "cs_P (cpu_mirrors_to_p cpu) = q" by (simp add: q)
  then have n: "bit q n = bit (cs_P (cpu_mirrors_to_p cpu)) n" for n by simp
  show ?thesis
    using assms unfolding q cpu_p_to_mirrors_def tst8_bits
    by (simp add: n bit_mirrors_to_p mirrors_bool_def b)
qed

text \<open>
  The status byte and its mirrors never lose each other's contents: packing the mirrors that were
  unpacked from \<open>P\<close> gives back \<open>P\<close>, and unpacking the byte that was packed from mirrors holding
  0 or 1 gives back every mirror; neither direction touches a register.
\<close>

theorem cpu_mirrors_round_trip:
  "cpu_mirrors_to_p (cpu_p_to_mirrors cpu) = cpu_p_to_mirrors cpu
   \<and> (mirrors_bool cpu \<longrightarrow> cpu_p_to_mirrors (cpu_mirrors_to_p cpu) = cpu_mirrors_to_p cpu)"
proof
  have "cpu_mirrors_to_p c = c" if "cs_P (cpu_mirrors_to_p c) = cs_P c" for c
    using that by (cases c) (simp add: cpu_mirrors_to_p_def)
  then show "cpu_mirrors_to_p (cpu_p_to_mirrors cpu) = cpu_p_to_mirrors cpu"
    using pack_unpacked [of cpu] by (simp add: cpu_p_to_mirrors_def)
qed (simp add: unpack_packed)

theorem cpu_mirrors_round_trip_witness:
  "mirrors_bool cpu_state_init \<and> cpu_p_to_mirrors (cpu_mirrors_to_p cpu_state_init) = cpu_mirrors_to_p cpu_state_init"
  using cpu_mirrors_round_trip [of cpu_state_init] by (simp add: mirrors_bool_def cpu_state_init_def)

section \<open>One memory map\<close>

lemma adr24_parts [simp]:
  "bus_bank (adr24 bank addr) = bank" "ucast (adr24 bank addr) = addr" "drop_bit 16 (adr24 bank addr) = ucast bank"
  by (rule bit_word_eqI; auto simp: bus_bank_def adr24_def bit_simps dest: bit_imp_le_length)+

text \<open>The two ways to find a byte of a LoROM cartridge agree for sizes that are powers of two, up to 4 MB.\<close>

lemma lorom_offset:
  assumes "cart_romSize cart = 2 ^ k" "15 \<le> k" "k \<le> 22"
  shows "rom_offset cart (adr24 bank addr) = lorom_rom_index (bank AND 0x7f) addr (cart_romSize cart)"
proof -
  let ?off = "push_bit 15 (ucast bank) OR (adr24 bank addr AND 0x7fff) :: u32"
  have m: "(0x7fff :: u32) = mask 15" "(0x7fff :: u16) = mask 15" "(0x7f :: u8) = mask 7"
    by (simp_all add: mask_eq_exp_minus_1)
  have k: "k < 32" using assms by simp
  have sz: "unat (cart_romSize cart) = 2 ^ k" "cart_romSize cart \<noteq> 0"
    using assms(1) unat_pow32 [OF k] by (simp, metis assms(1) power_not_zero unat_0 zero_neq_numeral)
  have "unat ?off mod 2 ^ k = unat (take_bit k ?off)"
    using unat_pow32 [OF k] by (simp add: take_bit_eq_mod unat_mod)
  moreover have "take_bit k ?off = take_bit k (push_bit 15 (ucast (bank AND 0x7f)) OR ucast (addr AND 0x7fff))"
    unfolding m using assms(3)
    by (intro bit_word_eqI) (auto simp: adr24_def bit_simps dest: bit_imp_le_length)
  moreover have "w AND (2 ^ k - 1) = take_bit k w" for w :: u32 using take_mask assms(2) k by simp
  ultimately show ?thesis
    unfolding rom_offset_def lorom_rom_index_def Let_def adr24_parts sz(1) assms(1) [symmetric] using sz assms(1)
    by simp
qed

definition lorom_cart :: "cart \<Rightarrow> bool" where
  "lorom_cart cart \<longleftrightarrow> cart_type cart = 1 \<and> cart_wf cart \<and> (\<exists>k\<in>{15..22}. cart_romSize cart = 2 ^ k)"

text \<open>
  The addresses with one meaning: all but \<open>2000\<close> to \<open>7fff\<close> of the banks with registers and, on a board
  with battery RAM, the lower halves of the banks \<open>f0\<close>, \<open>fe\<close> and \<open>ff\<close>.
\<close>

definition shared_map :: "cart \<Rightarrow> u8 \<Rightarrow> u16 \<Rightarrow> bool" where
  "shared_map cart bank addr \<longleftrightarrow>
     \<not> (io_bank bank \<and> 0x2000 \<le> addr \<and> addr < 0x8000)
     \<and> \<not> (cart_ramSize cart > 0 \<and> bank \<in> {0xf0, 0xfe, 0xff} \<and> addr < 0x8000)"

lemma ram_offset_wram: "cpu_ram_offset bank addr = wram_cell (adr24 bank addr)"
proof -
  have "wram_index 0x7e addr = ucast addr" "wram_index 0x7f addr = adr24 1 addr"
    by (simp_all add: wram_index_def adr24_def)
  then have "wram_index 0x7e addr = ucast addr" "wram_index 0x7f addr = 0x10000 + ucast addr"
    by (simp_all add: adr24_eq_add)
  moreover have "bank \<le> 0x3f \<longleftrightarrow> bank < 0x40" "bank \<le> 0xbf \<longleftrightarrow> bank < 0xc0"
    by (simp_all add: word_le_nat_alt word_less_nat_alt) arith+
  ultimately show ?thesis
    by (auto simp: cpu_ram_offset_def wram_cell_bus io_bank_def)
qed

lemma wram_write_cart:
  assumes "wram_cell adr = Some i"
  shows "snes_write n adr val s =
    Done (s\<lparr>sn_ram := (sn_ram s)(i := val), sn_cart := cart_write (sn_cart s) (bus_bank adr) (ucast adr) val\<rparr>)"
  using assms
  by (cases n; elim wram_cell_cases) (simp_all only: snes_write.simps snes_write_with_def Let_def if_True if_False simp_thms obind.simps, auto)

lemma ram_agrees:
  assumes "lorom_cart (sn_cart (g_snes m))" "wram_cell (adr24 bank addr) = Some i"
  shows "cpu_read8 bank addr m = Done (sn_ram (g_snes m) i, m)"
    "snes_read (adr24 bank addr) (g_snes m) = Done (sn_ram (g_snes m) i, g_snes m)"
    "cpu_write8 n bank addr val m = Done (m\<lparr>g_snes := (g_snes m)\<lparr>sn_ram := (sn_ram (g_snes m))(i := val)\<rparr>\<rparr>)"
    "snes_write n (adr24 bank addr) val (g_snes m) = Done ((g_snes m)\<lparr>sn_ram := (sn_ram (g_snes m))(i := val)\<rparr>)"
proof -
  have "\<not> ((0x70 \<le> bank \<and> bank < 0x7e \<or> bank > 0xf0) \<and> addr < 0x8000)"
    using assms(2) unfolding io_bank_def word_le_nat_alt word_less_nat_alt word_unat_eq_iff
    by (elim wram_cell_cases) (auto simp: io_bank_def word_le_nat_alt word_less_nat_alt word_unat_eq_iff)
  then have "cart_write (sn_cart (g_snes m)) bank addr val = sn_cart (g_snes m)"
    using assms(1) by (auto simp: cart_write_def cart_writeLorom_def lorom_cart_def)
  then show "snes_write n (adr24 bank addr) val (g_snes m) = Done ((g_snes m)\<lparr>sn_ram := (sn_ram (g_snes m))(i := val)\<rparr>)"
    using wram_write_cart [OF assms(2)] by simp
qed (use assms in \<open>simp_all add: cpu_read8_def cpu_write8_def ram_offset_wram wram_read ram_set_def upd_snes_def\<close>)

lemma bus_to_cart:
  assumes "bank \<noteq> 0x7e" "bank \<noteq> 0x7f" "io_bank bank \<longrightarrow> addr \<ge> 0x6000"
  shows "snes_read (adr24 bank addr) s = (case cart_read (sn_cart s) bank addr of None \<Rightarrow> Abort | Some v \<Rightarrow> Done (v, s))"
    "snes_write n (adr24 bank addr) val s = Done (s\<lparr>sn_cart := cart_write (sn_cart s) bank addr val\<rparr>)"
proof -
  have low: "io_bank bank \<Longrightarrow> addr < lim \<Longrightarrow> lim \<le> 0x6000 \<Longrightarrow> False" for lim
    using assms(3) by (simp add: word_le_nat_alt word_less_nat_alt)
  have "\<not> (io_bank bank \<and> addr < 0x2000)" "\<not> (io_bank bank \<and> 0x2100 \<le> addr \<and> addr < 0x2200)"
    "\<not> (io_bank bank \<and> (addr = 0x4016 \<or> addr = 0x4017))" "\<not> (io_bank bank \<and> 0x4200 \<le> addr \<and> addr < 0x4220)"
    "\<not> (io_bank bank \<and> 0x4300 \<le> addr \<and> addr < 0x4380)"
    using low [of "0x2000"] low [of "0x2200"] low [of "0x4018"] low [of "0x4220"] low [of "0x4380"]
    by auto
  then show "snes_read (adr24 bank addr) s = (case cart_read (sn_cart s) bank addr of None \<Rightarrow> Abort | Some v \<Rightarrow> Done (v, s))"
    "snes_write n (adr24 bank addr) val s = Done (s\<lparr>sn_cart := cart_write (sn_cart s) bank addr val\<rparr>)"
    using assms(1,2) unfolding snes_read_def Let_def adr24_parts
    by (simp_all only: if_False simp_thms) (cases n, simp_all only: snes_write.simps snes_write_with_def Let_def adr24_parts if_False simp_thms obind.simps)
qed

text \<open>The cartridge from the side of recompiled code: battery RAM where \<open>cpu_sram_offset\<close> finds it, else ROM.\<close>

lemma no_wram_no_register:
  assumes "bank \<noteq> 0x7e" "bank \<noteq> 0x7f" "io_bank bank \<longrightarrow> addr \<ge> 0x6000"
  shows "cpu_ram_offset bank addr = None" "\<not> is_hw_reg bank addr"
  using assms unfolding cpu_ram_offset_def is_hw_reg_def io_bank_def word_le_nat_alt word_less_nat_alt
  by auto

lemma cpu_sram:
  assumes "bank \<noteq> 0x7e" "bank \<noteq> 0x7f" "io_bank bank \<longrightarrow> addr \<ge> 0x6000" "sram_at m bank addr = Some i"
  shows "cpu_read8 bank addr m = Done (cart_ram (sn_cart (g_snes m)) ! i, m)"
    "cpu_write8 n bank addr val m = Done (m\<lparr>g_snes := (g_snes m)\<lparr>sn_cart :=
       (sn_cart (g_snes m))\<lparr>cart_ram := (cart_ram (sn_cart (g_snes m)))[i := val]\<rparr>\<rparr>\<rparr>)"
  using no_wram_no_register [OF assms(1-3)] assms(4)
  by (simp_all add: cpu_read8_def cpu_write8_def sram_byte_def sram_set_def upd_snes_def)

abbreviation rom_at :: "machine \<Rightarrow> u8 \<Rightarrow> u16 \<Rightarrow> u8" where
  "rom_at m bank addr \<equiv> cart_rom (sn_cart (g_snes m)) ! lorom_rom_index (bank AND 0x7f) addr (cart_romSize (sn_cart (g_snes m)))"

lemma io_bank_mask: "bank AND 0x7f \<ge> 0x40 \<longleftrightarrow> \<not> io_bank bank"
  using hirom_bank(2) [of bank] by (simp add: io_bank_def word_le_nat_alt word_less_nat_alt)

lemma cpu_rom:
  assumes "lorom_cart (sn_cart (g_snes m))" "bank \<noteq> 0x7e" "bank \<noteq> 0x7f" "io_bank bank \<longrightarrow> addr \<ge> 0x8000" "sram_at m bank addr = None"
  shows "cpu_read8 bank addr m = Done (rom_at m bank addr, m)" "cpu_write8 n bank addr val m = Done m"
proof -
  obtain k where k: "cart_romSize (sn_cart (g_snes m)) = 2 ^ k" "15 \<le> k" "k \<le> 22"
    using assms(1) by (auto simp: lorom_cart_def)
  let ?i = "lorom_rom_index (bank AND 0x7f) addr (cart_romSize (sn_cart (g_snes m)))"
  have io: "io_bank bank \<longrightarrow> addr \<ge> 0x6000" using assms(4) by (auto simp: word_le_nat_alt)
  have "addr \<ge> 0x8000 \<or> bank AND 0x7f \<ge> 0x40" using assms(4) io_bank_mask by blast
  then have "RomPtr (adr24 bank addr) m = (Rom ?i, m)"
    using lorom_offset [OF k] assms(2,3) by (simp add: RomPtr_def rom_window_def Let_def)
  moreover have "load (Rom ?i) m = Done (rom_at m bank addr)"
    using assms(1) cart_index_bounds(2) by (simp add: load_def lorom_cart_def cart_wf_def)
  ultimately show "cpu_read8 bank addr m = Done (rom_at m bank addr, m)" "cpu_write8 n bank addr val m = Done m"
    using no_wram_no_register [OF assms(2,3) io] assms(5) by (simp_all add: cpu_read8_def cpu_write8_def)
qed

text \<open>The same from the side of the bus.\<close>

lemma bus_sram:
  assumes "lorom_cart (sn_cart s)" "0x70 \<le> bank \<and> bank < 0x7e \<or> 0xf0 \<le> bank" "addr < 0x8000" "cart_ramSize (sn_cart s) > 0"
  defines "i \<equiv> lorom_ram_index bank addr (cart_ramSize (sn_cart s))"
  shows "snes_read (adr24 bank addr) s = Done (cart_ram (sn_cart s) ! i, s)"
    "snes_write n (adr24 bank addr) val s =
       Done (if bank = 0xf0 then s else s\<lparr>sn_cart := (sn_cart s)\<lparr>cart_ram := (cart_ram (sn_cart s))[i := val]\<rparr>\<rparr>)"
proof -
  have b: "bank \<noteq> 0x7e" "bank \<noteq> 0x7f" "\<not> io_bank bank"
    using assms(2) by (auto simp: io_bank_def word_le_nat_alt word_less_nat_alt word_unat_eq_iff)
  have t: "cart_type (sn_cart s) = 1" using assms(1) by (simp add: lorom_cart_def)
  have f0: "bank > 0xf0 \<longleftrightarrow> bank \<ge> 0xf0 \<and> bank \<noteq> 0xf0" by auto
  have r: "cart_read (sn_cart s) bank addr = Some (cart_ram (sn_cart s) ! i)"
    using t assms(2-4) by (simp only: cart_read_def cart_readLorom_def i_def if_True simp_thms)
  have "cart_write (sn_cart s) bank addr val =
      (if bank = 0xf0 then sn_cart s else (sn_cart s)\<lparr>cart_ram := (cart_ram (sn_cart s))[i := val]\<rparr>)"
    using t assms(2-4) by (auto simp: cart_write_def cart_writeLorom_def i_def f0)
  then show "snes_read (adr24 bank addr) s = Done (cart_ram (sn_cart s) ! i, s)"
    "snes_write n (adr24 bank addr) val s =
       Done (if bank = 0xf0 then s else s\<lparr>sn_cart := (sn_cart s)\<lparr>cart_ram := (cart_ram (sn_cart s))[i := val]\<rparr>\<rparr>)"
    using bus_to_cart [OF b(1,2), of addr] b(3) r by simp_all
qed

lemma bus_rom:
  assumes "lorom_cart (sn_cart s)" "bank \<noteq> 0x7e" "bank \<noteq> 0x7f" "io_bank bank \<longrightarrow> addr \<ge> 0x6000"
    "\<not> ((0x70 \<le> bank \<and> bank < 0x7e \<or> 0xf0 \<le> bank) \<and> addr < 0x8000 \<and> cart_ramSize (sn_cart s) > 0)"
  shows "snes_read (adr24 bank addr) s =
      Done (if io_bank bank \<and> addr < 0x8000 then 0
        else cart_rom (sn_cart s) ! lorom_rom_index (bank AND 0x7f) addr (cart_romSize (sn_cart s)), s)"
    "snes_write n (adr24 bank addr) val s = Done s"
proof -
  have t: "cart_type (sn_cart s) = 1" using assms(1) by (simp add: lorom_cart_def)
  have f0: "bank > 0xf0 \<Longrightarrow> bank \<ge> 0xf0" by simp
  have "cart_read (sn_cart s) bank addr = Some (if io_bank bank \<and> addr < 0x8000 then 0
      else cart_rom (sn_cart s) ! lorom_rom_index (bank AND 0x7f) addr (cart_romSize (sn_cart s)))"
    using t assms(5) io_bank_mask [of bank] by (auto simp: cart_read_def cart_readLorom_def Let_def)
  moreover have "cart_write (sn_cart s) bank addr val = sn_cart s"
    using t assms(5) f0 by (auto simp: cart_write_def cart_writeLorom_def)
  ultimately show "snes_read (adr24 bank addr) s =
      Done (if io_bank bank \<and> addr < 0x8000 then 0
        else cart_rom (sn_cart s) ! lorom_rom_index (bank AND 0x7f) addr (cart_romSize (sn_cart s)), s)"
    "snes_write n (adr24 bank addr) val s = Done s"
    using bus_to_cart [OF assms(2-4)] by simp_all
qed

lemma lorom_window:
  assumes "lorom_cart (sn_cart (g_snes m))" "\<not> io_bank bank \<or> addr \<ge> 0x8000"
  shows "sram_at m bank addr =
    (if (0x70 \<le> bank \<and> bank < 0x7e \<or> 0xf0 \<le> bank \<and> bank < 0xfe) \<and> addr < 0x8000 \<and> cart_ramSize (sn_cart (g_snes m)) > 0
     then Some (lorom_ram_index bank addr (cart_ramSize (sn_cart (g_snes m)))) else None)"
proof -
  have "\<not> ((bank < 0x40 \<or> bank \<ge> 0x80 \<and> bank < 0xc0) \<and> addr \<ge> 0x6000 \<and> addr < 0x8000)"
    using assms(2) by (auto simp: io_bank_def)
  moreover have "cart_ramSize (sn_cart (g_snes m)) = 0 \<longleftrightarrow> \<not> cart_ramSize (sn_cart (g_snes m)) > 0" by (simp add: word_gt_0)
  ultimately show ?thesis unfolding cpu_sram_offset_def by (simp only: if_False split: if_split) auto
qed

lemma shared_agrees:
  assumes "lorom_cart (sn_cart (g_snes m))" "shared_map (sn_cart (g_snes m)) bank addr"
  shows "(\<exists>v. cpu_read8 bank addr m = Done (v, m) \<and> snes_read (adr24 bank addr) (g_snes m) = Done (v, g_snes m))
    \<and> (\<exists>s. cpu_write8 n bank addr val m = Done (m\<lparr>g_snes := s\<rparr>) \<and> snes_write n (adr24 bank addr) val (g_snes m) = Done s)"
proof (cases "wram_cell (adr24 bank addr)")
  case (Some i)
  then show ?thesis using ram_agrees [OF assms(1) Some] by blast
next
  case None
  then have b: "bank \<noteq> 0x7e" "bank \<noteq> 0x7f" and "\<not> (io_bank bank \<and> addr < 0x2000)"
    by (auto simp: wram_cell_bus split: if_splits)
  then have io: "io_bank bank \<longrightarrow> addr \<ge> 0x8000" using assms(2) by (auto simp: shared_map_def not_le)
  then have io6: "io_bank bank \<longrightarrow> addr \<ge> 0x6000" by (auto simp: word_le_nat_alt)
  have w: "\<not> io_bank bank \<or> addr \<ge> 0x8000" using io by blast
  let ?window = "(0x70 \<le> bank \<and> bank < 0x7e \<or> 0xf0 \<le> bank \<and> bank < 0xfe) \<and> addr < 0x8000 \<and> cart_ramSize (sn_cart (g_snes m)) > 0"
  have top: "0xf0 \<le> bank \<longleftrightarrow> 0xf0 \<le> bank \<and> bank < 0xfe \<or> bank = 0xfe \<or> bank = 0xff"
    by (auto simp: word_le_nat_alt word_less_nat_alt word_unat_eq_iff) (use unat_u8_less [of bank] in linarith)
  show ?thesis
  proof (cases ?window)
    case True
    then have "bank \<noteq> 0xf0" using assms(2) by (auto simp: shared_map_def)
    moreover have "0x70 \<le> bank \<and> bank < 0x7e \<or> 0xf0 \<le> bank" using True by blast
    ultimately show ?thesis
      using True cpu_sram [OF b io6, of m] lorom_window [OF assms(1) w] bus_sram [OF assms(1), of bank addr] by simp
  next
    case False
    then have none: "sram_at m bank addr = None" using lorom_window [OF assms(1) w] by (simp only: if_False)
    have bus: "\<not> ((0x70 \<le> bank \<and> bank < 0x7e \<or> 0xf0 \<le> bank) \<and> addr < 0x8000 \<and> cart_ramSize (sn_cart (g_snes m)) > 0)"
      using False assms(2) top by (auto simp: shared_map_def)
    have "(io_bank bank \<and> addr < 0x8000) = False" using io by auto
    then show ?thesis
      using cpu_rom [OF assms(1) b io none] bus_rom [OF assms(1) b io6 bus] by (simp only: if_False) auto
  qed
qed

text \<open>The three windows with two meanings.\<close>

lemma upper_banks:
  fixes bank :: u8 and val :: u8
  assumes "lorom_cart (sn_cart (g_snes m))" "cart_ramSize (sn_cart (g_snes m)) > 0" "addr < 0x8000"
  defines "i \<equiv> lorom_ram_index bank addr (cart_ramSize (sn_cart (g_snes m)))"
  defines "put \<equiv> (g_snes m)\<lparr>sn_cart := (sn_cart (g_snes m))\<lparr>cart_ram := (cart_ram (sn_cart (g_snes m)))[i := val]\<rparr>\<rparr>"
  shows "bank = 0xf0 \<Longrightarrow> cpu_read8 bank addr m = Done (cart_ram (sn_cart (g_snes m)) ! i, m)
      \<and> snes_read (adr24 bank addr) (g_snes m) = Done (cart_ram (sn_cart (g_snes m)) ! i, g_snes m)
      \<and> cpu_write8 n bank addr val m = Done (m\<lparr>g_snes := put\<rparr>) \<and> snes_write n (adr24 bank addr) val (g_snes m) = Done (g_snes m)"
    "bank \<in> {0xfe, 0xff} \<Longrightarrow> cpu_read8 bank addr m = Done (rom_at m bank addr, m)
      \<and> snes_read (adr24 bank addr) (g_snes m) = Done (cart_ram (sn_cart (g_snes m)) ! i, g_snes m)
      \<and> cpu_write8 n bank addr val m = Done m \<and> snes_write n (adr24 bank addr) val (g_snes m) = Done put"
proof -
  have bus: "snes_read (adr24 bank addr) (g_snes m) = Done (cart_ram (sn_cart (g_snes m)) ! i, g_snes m)"
      "snes_write n (adr24 bank addr) val (g_snes m) = Done (if bank = 0xf0 then g_snes m else put)" if "0xf0 \<le> bank"
    unfolding i_def put_def by (rule bus_sram [OF assms(1) disjI2 [OF that] assms(3,2)])+
  show "cpu_read8 bank addr m = Done (cart_ram (sn_cart (g_snes m)) ! i, m)
      \<and> snes_read (adr24 bank addr) (g_snes m) = Done (cart_ram (sn_cart (g_snes m)) ! i, g_snes m)
      \<and> cpu_write8 n bank addr val m = Done (m\<lparr>g_snes := put\<rparr>) \<and> snes_write n (adr24 bank addr) val (g_snes m) = Done (g_snes m)"
    if b: "bank = 0xf0"
  proof -
    have io: "\<not> io_bank bank" "bank \<noteq> 0x7e" "bank \<noteq> 0x7f" "0xf0 \<le> bank" by (simp_all add: b io_bank_def)
    have "sram_at m bank addr = Some i"
      unfolding i_def lorom_window [OF assms(1) disjI1 [OF io(1)]] using assms(2,3) by (simp add: b)
    then show ?thesis using bus [OF io(4)] cpu_sram [OF io(2,3), of addr m i] io(1) b by (simp add: put_def)
  qed
  show "cpu_read8 bank addr m = Done (rom_at m bank addr, m)
      \<and> snes_read (adr24 bank addr) (g_snes m) = Done (cart_ram (sn_cart (g_snes m)) ! i, g_snes m)
      \<and> cpu_write8 n bank addr val m = Done m \<and> snes_write n (adr24 bank addr) val (g_snes m) = Done put"
    if b: "bank \<in> {0xfe, 0xff}"
  proof -
    have io: "\<not> io_bank bank" "bank \<noteq> 0x7e" "bank \<noteq> 0x7f" "0xf0 \<le> bank" "bank \<noteq> 0xf0" using b by (auto simp: io_bank_def)
    have "sram_at m bank addr = None"
      unfolding lorom_window [OF assms(1) disjI1 [OF io(1)]] using b by auto
    then show ?thesis using bus [OF io(4)] cpu_rom [OF assms(1) io(2,3), of addr] io(1,5) by simp
  qed
qed

lemma hirom_window:
  fixes val :: u8
  assumes "lorom_cart (sn_cart (g_snes m))" "cart_ramSize (sn_cart (g_snes m)) > 0" "io_bank bank" "0x6000 \<le> addr" "addr < 0x8000"
  defines "i \<equiv> hirom_ram_index bank addr (cart_ramSize (sn_cart (g_snes m)))"
  defines "put \<equiv> (g_snes m)\<lparr>sn_cart := (sn_cart (g_snes m))\<lparr>cart_ram := (cart_ram (sn_cart (g_snes m)))[i := val]\<rparr>\<rparr>"
  shows "cpu_read8 bank addr m = Done (cart_ram (sn_cart (g_snes m)) ! i, m)
      \<and> snes_read (adr24 bank addr) (g_snes m) = Done (0, g_snes m)
      \<and> cpu_write8 n bank addr val m = Done (m\<lparr>g_snes := put\<rparr>) \<and> snes_write n (adr24 bank addr) val (g_snes m) = Done (g_snes m)"
proof -
  have b: "bank \<noteq> 0x7e" "bank \<noteq> 0x7f" "\<not> (0x70 \<le> bank \<and> bank < 0x7e \<or> 0xf0 \<le> bank)" "\<not> (bank \<ge> 0x70 \<and> bank < 0x7e \<or> bank \<ge> 0xf0 \<and> bank < 0xfe)"
    using assms(3) by (auto simp: io_bank_def word_le_nat_alt word_less_nat_alt word_unat_eq_iff)
  have "bank < 0x40 \<or> bank \<ge> 0x80 \<and> bank < 0xc0" using assms(3) by (simp add: io_bank_def)
  then have "sram_at m bank addr = Some i"
    unfolding cpu_sram_offset_def i_def using b(4) assms(2,4,5) by auto
  then show ?thesis
    using cpu_sram [OF b(1,2), of addr m i] bus_rom [OF assms(1) b(1,2), of addr] assms(3-5) b(3) by (auto simp: put_def)
qed

text \<open>
  C33. Recompiled code and the emulated bus see one memory, but for three windows: for a LoROM cartridge
  whose size is a power of two up to 4 MB, at every address outside \<open>2000\<close> to \<open>7fff\<close> of the banks with
  registers and outside the lower halves of the banks \<open>f0\<close>, \<open>fe\<close> and \<open>ff\<close> of a board with battery RAM,
  \<open>cpu_read8\<close> returns what \<open>snes_read\<close> returns and \<open>cpu_write8\<close> leaves what \<open>snes_write\<close> leaves: all of work
  RAM and its mirrors, ROM and the rest of battery RAM. In the windows they differ: bank \<open>f0\<close> takes the
  write of recompiled code and loses that of the bus; the banks \<open>fe\<close> and \<open>ff\<close> are ROM for recompiled code
  and RAM on the bus; \<open>6000\<close> to \<open>7fff\<close> of the banks with registers is RAM for recompiled code, as on a HiROM
  board, and nothing on the bus.
\<close>

theorem cpu_memory_agrees:
  assumes "lorom_cart (sn_cart (g_snes m))"
  shows "let s = g_snes m; cart = sn_cart s;
      byte = (\<lambda>i. cart_ram cart ! i); put = (\<lambda>i. s\<lparr>sn_cart := cart\<lparr>cart_ram := (cart_ram cart)[i := val]\<rparr>\<rparr>);
      low = lorom_ram_index bank addr (cart_ramSize cart); window = hirom_ram_index bank addr (cart_ramSize cart) in
    (shared_map cart bank addr \<longrightarrow>
      (\<exists>v. cpu_read8 bank addr m = Done (v, m) \<and> snes_read (adr24 bank addr) s = Done (v, s))
      \<and> (\<exists>s'. cpu_write8 n bank addr val m = Done (m\<lparr>g_snes := s'\<rparr>) \<and> snes_write n (adr24 bank addr) val s = Done s'))
    \<and> (cart_ramSize cart > 0 \<and> addr < 0x8000 \<and> bank = 0xf0 \<longrightarrow>
      cpu_read8 bank addr m = Done (byte low, m) \<and> snes_read (adr24 bank addr) s = Done (byte low, s)
      \<and> cpu_write8 n bank addr val m = Done (m\<lparr>g_snes := put low\<rparr>) \<and> snes_write n (adr24 bank addr) val s = Done s)
    \<and> (cart_ramSize cart > 0 \<and> addr < 0x8000 \<and> bank \<in> {0xfe, 0xff} \<longrightarrow>
      cpu_read8 bank addr m = Done (rom_at m bank addr, m) \<and> snes_read (adr24 bank addr) s = Done (byte low, s)
      \<and> cpu_write8 n bank addr val m = Done m \<and> snes_write n (adr24 bank addr) val s = Done (put low))
    \<and> (cart_ramSize cart > 0 \<and> addr < 0x8000 \<and> io_bank bank \<and> 0x6000 \<le> addr \<longrightarrow>
      cpu_read8 bank addr m = Done (byte window, m) \<and> snes_read (adr24 bank addr) s = Done (0, s)
      \<and> cpu_write8 n bank addr val m = Done (m\<lparr>g_snes := put window\<rparr>) \<and> snes_write n (adr24 bank addr) val s = Done s)"
  unfolding Let_def
  by (rule conjI [OF impI conjI [OF impI conjI [OF impI impI]]]; (elim conjE)?;
      (rule shared_agrees [OF assms] upper_banks [OF assms] hirom_window [OF assms]; assumption))

definition lorom_machine :: machine where
  "lorom_machine = upd_snes (\<lambda>s. s\<lparr>sn_cart := cart_load 1 (replicate 0x8000 7) 0x8000 0x800\<rparr>) idle_machine"

lemma lorom_machine_cart: "lorom_cart (sn_cart (g_snes lorom_machine))"
  by (simp add: lorom_machine_def lorom_cart_def cart_wf_def cart_load_def) (rule bexI [of _ 15], simp_all)

theorem cpu_memory_agrees_witness:
  "\<exists>v. cpu_read8 0x70 0x123 lorom_machine = Done (v, lorom_machine)
     \<and> snes_read 0x700123 (g_snes lorom_machine) = Done (v, g_snes lorom_machine)"
proof -
  have "shared_map (sn_cart (g_snes lorom_machine)) 0x70 0x123" by (simp add: shared_map_def io_bank_def)
  moreover have "adr24 0x70 0x123 = 0x700123" by (simp add: adr24_def)
  ultimately show ?thesis
    using cpu_memory_agrees [OF lorom_machine_cart, of 0 "0x70" "0x123" 0] by (auto simp: Let_def)
qed

end
