(* ===== verification/Cpu_Dispatch.thy ===== *)
theory Cpu_Dispatch
  imports Cpu_State
begin

text \<open>
  Control transfer between recompiled functions, from \<open>cpu_state.h\<close>, \<open>cpu_state.c\<close> and
  \<open>common_cpu_infra.c\<close>: the interrupt and call frames on the emulated stack, the dispatch table
  with its binary search, the ring that logs dispatches, the call stack with the search for an
  ancestor to return to, the tail-call context and the abandon of an unresolved site. The whole
  state of a run is the record \<open>sys\<close>. Diagnostics are left out: what is printed to a stream, the
  stack-balance auditor and the ring of memory snapshots of \<open>RecompStackPush\<close> and
  \<open>RecompStackPop\<close>.
\<close>

section \<open>The state of a run\<close>

record dispatch_log_entry =
  dl_pc24 :: u32
  dl_source_pc24 :: u32
  dl_func_name :: string
  dl_mx_idx :: u8
  dl_found :: bool
  dl_mirror :: bool
  dl_frame :: u32

record abandon_site =
  ab_site_pc24 :: u32
  ab_hits :: u64
  ab_first_frame :: u32
  ab_last_frame :: u32
  ab_last_hrv :: u8

record tier2_site =
  t2_site_pc24 :: u32
  t2_target_pc24 :: u32
  t2_mx :: u8
  t2_kind :: u8
  t2_clean_hits :: u64
  t2_bail_hits :: u64
  t2_first_frame :: u32
  t2_last_frame :: u32

record sys =
  sy_cpu :: cpu_state
  sy_machine :: machine
  sy_last_func :: string
  sy_stack :: "string list"
  sy_entry_s :: "u16 list"
  sy_stack_top :: nat
  sy_tail_valid :: bool
  sy_tail_entry_s :: u16
  sy_tail_hrv :: u8
  sy_log :: "dispatch_log_entry list"
  sy_log_idx :: u32
  sy_abandons :: "abandon_site list"
  sy_abandon_total :: u64
  sy_abandon_overflow :: u64
  sy_tier_hits :: nat
  sy_tier2 :: "tier2_site list"
  sy_tier2_overflow :: u64

datatype recomp_return = Return_normal | Return_skip_1 | Return_skip_2 | Return_skip_3

type_synonym aot = "sys \<Rightarrow> (recomp_return \<times> sys) outcome"

record dispatch_entry =
  de_pc24 :: u32
  de_variant :: "aot option list"

definition upd_cpu :: "(cpu_state \<Rightarrow> cpu_state) \<Rightarrow> sys \<Rightarrow> sys" where
  "upd_cpu f y = y\<lparr>sy_cpu := f (sy_cpu y)\<rparr>"

section \<open>Frames on the stack\<close>

definition push8 :: "nat \<Rightarrow> u8 \<Rightarrow> sys \<Rightarrow> sys outcome" where
  "push8 n v y =
     obind (cpu_write8 n 0x00 (cs_S (sy_cpu y)) v (sy_machine y))
       (\<lambda>m. Done (upd_cpu (\<lambda>c. c\<lparr>cs_S := cs_S c - 1\<rparr>) (y\<lparr>sy_machine := m\<rparr>)))"

definition cpu_push_interrupt_frame :: "nat \<Rightarrow> sys \<Rightarrow> sys outcome" where
  "cpu_push_interrupt_frame n y =
     (let y = upd_cpu cpu_mirrors_to_p y in
      obind (if cs_emulation (sy_cpu y) = 0 then push8 n (cs_PB (sy_cpu y)) y else Done y) (\<lambda>y.
        obind (push8 n 0x00 y) (\<lambda>y. obind (push8 n 0x00 y) (\<lambda>y. push8 n (cs_P (sy_cpu y)) y))))"

definition cpu_push_jsr_return_frame :: "nat \<Rightarrow> sys \<Rightarrow> sys outcome" where
  "cpu_push_jsr_return_frame n y =
     obind (push8 n 0x00 y) (\<lambda>y. obind (push8 n 0x00 y) (\<lambda>y. Done (upd_cpu (\<lambda>c. c\<lparr>cs_host_return_valid := 2\<rparr>) y)))"

definition cpu_push_jsl_return_frame :: "nat \<Rightarrow> sys \<Rightarrow> sys outcome" where
  "cpu_push_jsl_return_frame n y =
     obind (push8 n 0xff y) (\<lambda>y. obind (push8 n 0xff y) (\<lambda>y. obind (push8 n 0xff y) (\<lambda>y.
       Done (upd_cpu (\<lambda>c. c\<lparr>cs_host_return_valid := 3\<rparr>) y))))"

section \<open>The dispatch log\<close>

definition DISPATCH_LOG_CAP :: nat where "DISPATCH_LOG_CAP = 1024"

definition dispatch_log_record :: "u32 \<Rightarrow> u32 \<Rightarrow> u8 \<Rightarrow> bool \<Rightarrow> bool \<Rightarrow> sys \<Rightarrow> sys" where
  "dispatch_log_record pc24 source_pc24 mx_idx found via_mirror y =
     y\<lparr>sy_log := (sy_log y)[unat (sy_log_idx y) mod DISPATCH_LOG_CAP :=
         \<lparr>dl_pc24 = pc24, dl_source_pc24 = source_pc24, dl_func_name = sy_last_func y, dl_mx_idx = mx_idx,
          dl_found = found, dl_mirror = via_mirror, dl_frame = snes_frame_counter (sy_machine y)\<rparr>],
       sy_log_idx := sy_log_idx y + 1\<rparr>"

definition cpu_dispatch_log_count :: "sys \<Rightarrow> u32" where
  "cpu_dispatch_log_count y = sy_log_idx y"

definition cpu_dispatch_log_at :: "sys \<Rightarrow> u32 \<Rightarrow> dispatch_log_entry option" where
  "cpu_dispatch_log_at y i =
     (if i \<ge> sy_log_idx y then None
      else if sy_log_idx y > 1024 \<and> i < sy_log_idx y - 1024 then None
      else Some (sy_log y ! (unat i mod DISPATCH_LOG_CAP)))"

section \<open>The dispatch table\<close>

text \<open>The binary search of \<open>_cpu_dispatch_lookup\<close> for the entry, and the choice of its variant.\<close>

function dispatch_search :: "dispatch_entry list \<Rightarrow> u32 \<Rightarrow> nat \<Rightarrow> nat \<Rightarrow> dispatch_entry option" where
  "dispatch_search table pc24 lo hi =
     (if lo < hi then
        (let mid = lo + (hi - lo) div 2; mid_pc = de_pc24 (table ! mid) in
         if mid_pc = pc24 then Some (table ! mid)
         else if mid_pc < pc24 then dispatch_search table pc24 (mid + 1) hi
         else dispatch_search table pc24 lo mid)
      else None)"
  by pat_completeness auto

termination
  by (relation "measure (\<lambda>(_, _, lo, hi). hi - lo)") auto

declare dispatch_search.simps [simp del]

definition mx_index :: "cpu_state \<Rightarrow> u8" where
  "mx_index cpu = push_bit 1 (cs_m_flag cpu AND 1) OR (cs_x_flag cpu AND 1)"

definition cpu_dispatch_lookup :: "dispatch_entry list \<Rightarrow> cpu_state \<Rightarrow> u32 \<Rightarrow> aot option" where
  "cpu_dispatch_lookup table cpu pc24 =
     (case dispatch_search table pc24 0 (length table) of None \<Rightarrow> None
      | Some e \<Rightarrow> de_variant e ! unat (mx_index cpu))"

text \<open>The lookup with the LoROM mirror of the bank as fallback; the flag tells that it was used.\<close>

definition mirrored_bank :: "u32 \<Rightarrow> bool" where
  "mirrored_bank pc24 \<longleftrightarrow> (let bank = bus_bank pc24 in bank < 0x40 \<or> bank \<ge> 0x80 \<and> bank < 0xc0)"

definition dispatch_find :: "dispatch_entry list \<Rightarrow> cpu_state \<Rightarrow> u32 \<Rightarrow> aot option \<times> bool" where
  "dispatch_find table cpu pc24 =
     (case cpu_dispatch_lookup table cpu pc24 of
        Some fp \<Rightarrow> (Some fp, False)
      | None \<Rightarrow>
          if mirrored_bank pc24 then
            (let fp = cpu_dispatch_lookup table cpu (pc24 XOR 0x800000) in (fp, fp \<noteq> None))
          else (None, False))"

definition cpu_dispatch_pc_from ::
    "dispatch_entry list \<Rightarrow> u32 \<Rightarrow> u16 \<Rightarrow> u32 \<Rightarrow> sys \<Rightarrow> (recomp_return \<times> sys) outcome" where
  "cpu_dispatch_pc_from table pc24 entry_s_for_miss_restore source_pc24 y =
     (let pc24 = pc24 AND 0xffffff; source_pc24 = source_pc24 AND 0xffffff in
      case dispatch_find table (sy_cpu y) pc24 of (fp, via_mirror) \<Rightarrow>
        let y = dispatch_log_record pc24 source_pc24 (mx_index (sy_cpu y)) (fp \<noteq> None) via_mirror y in
        case fp of None \<Rightarrow> Done (Return_normal, upd_cpu (\<lambda>c. c\<lparr>cs_S := entry_s_for_miss_restore\<rparr>) y)
        | Some f \<Rightarrow> f (upd_cpu (\<lambda>c. c\<lparr>cs_host_return_valid := 0\<rparr>) y))"

definition cpu_dispatch_pc :: "dispatch_entry list \<Rightarrow> u32 \<Rightarrow> u16 \<Rightarrow> sys \<Rightarrow> (recomp_return \<times> sys) outcome" where
  "cpu_dispatch_pc table pc24 entry_s_for_miss_restore = cpu_dispatch_pc_from table pc24 entry_s_for_miss_restore 0xffffff"

definition cpu_dispatch_pc_paired ::
    "dispatch_entry list \<Rightarrow> u32 \<Rightarrow> u8 \<Rightarrow> sys \<Rightarrow> (recomp_return \<times> sys) outcome" where
  "cpu_dispatch_pc_paired table pc24 frame_size y =
     (let pc24 = pc24 AND 0xffffff in
      case dispatch_find table (sy_cpu y) pc24 of (fp, via_mirror) \<Rightarrow>
        let y = dispatch_log_record pc24 0xffffff (mx_index (sy_cpu y)) (fp \<noteq> None) via_mirror y in
        case fp of None \<Rightarrow> Done (Return_normal, y)
        | Some f \<Rightarrow> f (upd_cpu (\<lambda>c. c\<lparr>cs_host_return_valid := frame_size\<rparr>) y))"

definition cpu_dispatch_has_entry :: "dispatch_entry list \<Rightarrow> cpu_state \<Rightarrow> u32 \<Rightarrow> bool" where
  "cpu_dispatch_has_entry table cpu pc24 =
     (let pc24 = pc24 AND 0xffffff in
      if cpu_dispatch_lookup table cpu pc24 \<noteq> None then True
      else mirrored_bank pc24 \<and> cpu_dispatch_lookup table cpu (pc24 XOR 0x800000) \<noteq> None)"

text \<open>\<open>cpu_dispatch_call_pc\<close>, with the interpreter's \<open>interp_tier_run_call\<close> as an argument.\<close>

definition cpu_dispatch_call_pc ::
    "(u32 \<Rightarrow> u32 \<Rightarrow> sys \<Rightarrow> (recomp_return \<times> sys) outcome) \<Rightarrow> nat \<Rightarrow> dispatch_entry list \<Rightarrow> u32 \<Rightarrow> u32 \<Rightarrow> sys
      \<Rightarrow> (recomp_return \<times> sys) outcome" where
  "cpu_dispatch_call_pc run_call n table pc24 source_pc24 y =
     (let pc24 = pc24 AND 0xffffff; source_pc24 = source_pc24 AND 0xffffff;
          iret16 = ucast (source_pc24 + 2) :: u16 in
      obind (push8 n (hi8 iret16) y) (\<lambda>y. obind (push8 n (lo8 iret16) y) (\<lambda>y.
        case dispatch_find table (sy_cpu y) pc24 of (fp, via_mirror) \<Rightarrow>
          let y = dispatch_log_record pc24 source_pc24 (mx_index (sy_cpu y)) (fp \<noteq> None) via_mirror y in
          case fp of Some f \<Rightarrow> f (upd_cpu (\<lambda>c. c\<lparr>cs_host_return_valid := 2\<rparr>) y)
          | None \<Rightarrow> run_call pc24 source_pc24 y)))"

section \<open>The call stack\<close>

definition RECOMP_STACK_DEPTH :: nat where "RECOMP_STACK_DEPTH = 64"

definition RecompStackPush :: "string \<Rightarrow> sys \<Rightarrow> sys" where
  "RecompStackPush name y =
     (let y = (if sy_stack_top y < RECOMP_STACK_DEPTH
        then y\<lparr>sy_stack := (sy_stack y)[sy_stack_top y := name], sy_stack_top := sy_stack_top y + 1\<rparr> else y)
      in y\<lparr>sy_last_func := name\<rparr>)"

definition RecompStackPop :: "sys \<Rightarrow> sys" where
  "RecompStackPop y =
     (let y = (if sy_stack_top y > 0 then y\<lparr>sy_stack_top := sy_stack_top y - 1\<rparr> else y)
      in y\<lparr>sy_last_func := (if sy_stack_top y > 0 then sy_stack y ! (sy_stack_top y - 1) else ''(none)'')\<rparr>)"

text \<open>The downward scan for the nearest strict ancestor that was entered at the given stack level.\<close>

primrec ancestor_scan :: "u16 list \<Rightarrow> u16 \<Rightarrow> nat \<Rightarrow> nat option" where
  "ancestor_scan entry_s ret_s 0 = None"
| "ancestor_scan entry_s ret_s (Suc i) = (if entry_s ! i = ret_s then Some i else ancestor_scan entry_s ret_s i)"

definition cpu_resolve_ancestor_skip :: "u16 \<Rightarrow> sys \<Rightarrow> int" where
  "cpu_resolve_ancestor_skip ret_s y =
     (let top = sy_stack_top y in
      if top < 2 \<or> top > RECOMP_STACK_DEPTH then - 1
      else case ancestor_scan (sy_entry_s y) ret_s (top - 1) of None \<Rightarrow> - 1 | Some i \<Rightarrow> int (top - 1) - int i)"

definition cpu_tailcall_inherit_return_context :: "u16 \<Rightarrow> u8 \<Rightarrow> sys \<Rightarrow> sys" where
  "cpu_tailcall_inherit_return_context entry_s hrv y =
     y\<lparr>sy_tail_entry_s := entry_s, sy_tail_hrv := hrv, sy_tail_valid := True\<rparr>"

definition cpu_take_tailcall_return_context :: "sys \<Rightarrow> (u16 \<times> u8) option \<times> sys" where
  "cpu_take_tailcall_return_context y =
     (if \<not> sy_tail_valid y then (None, y)
      else (Some (sy_tail_entry_s y, sy_tail_hrv y), y\<lparr>sy_tail_valid := False\<rparr>))"

section \<open>Unresolved sites\<close>

definition UNRESOLVED_ABANDON_MAX :: nat where "UNRESOLVED_ABANDON_MAX = 256"

definition abandon_hit :: "u32 \<Rightarrow> u8 \<Rightarrow> abandon_site \<Rightarrow> abandon_site" where
  "abandon_hit frame hrv s = s\<lparr>ab_hits := ab_hits s + 1, ab_last_frame := frame, ab_last_hrv := hrv\<rparr>"

fun abandon_record :: "u32 \<Rightarrow> u32 \<Rightarrow> u8 \<Rightarrow> abandon_site list \<Rightarrow> abandon_site list" where
  "abandon_record site frame hrv [] =
     [abandon_hit frame hrv \<lparr>ab_site_pc24 = site, ab_hits = 0, ab_first_frame = frame, ab_last_frame = 0, ab_last_hrv = 0\<rparr>]"
| "abandon_record site frame hrv (s # ss) =
     (if ab_site_pc24 s = site then abandon_hit frame hrv s # ss else s # abandon_record site frame hrv ss)"

definition cpu_unresolved_abandon_balanced :: "u32 \<Rightarrow> u16 \<Rightarrow> u8 \<Rightarrow> sys \<Rightarrow> recomp_return \<times> sys" where
  "cpu_unresolved_abandon_balanced site_pc24 entry_s hrv y =
     (let hrv = (if hrv = 1 then 0 else hrv);
          y = y\<lparr>sy_abandon_total := sy_abandon_total y + 1\<rparr>;
          known = site_pc24 \<in> ab_site_pc24 ` set (sy_abandons y);
          y = (if known \<or> length (sy_abandons y) < UNRESOLVED_ABANDON_MAX
            then y\<lparr>sy_abandons := abandon_record site_pc24 (snes_frame_counter (sy_machine y)) hrv (sy_abandons y)\<rparr>
            else y\<lparr>sy_abandon_overflow := sy_abandon_overflow y + 1\<rparr>)
      in (Return_normal, upd_cpu (\<lambda>c. c\<lparr>cs_S := entry_s + ucast hrv\<rparr>) y))"

section \<open>The search is a lookup\<close>

definition table_sorted :: "dispatch_entry list \<Rightarrow> bool" where
  "table_sorted table \<longleftrightarrow> sorted_wrt (\<lambda>e e'. de_pc24 e < de_pc24 e') table"

lemma search_find:
  assumes "table_sorted table" "hi \<le> length table"
    "\<forall>i<lo. de_pc24 (table ! i) < pc24" "\<forall>i<length table. hi \<le> i \<longrightarrow> pc24 < de_pc24 (table ! i)"
  shows "dispatch_search table pc24 lo hi = List.find (\<lambda>e. de_pc24 e = pc24) table"
  using assms
proof (induction table pc24 lo hi rule: dispatch_search.induct)
  case (1 table pc24 lo hi)
  have less: "i < j \<Longrightarrow> j < length table \<Longrightarrow> de_pc24 (table ! i) < de_pc24 (table ! j)" for i j
    using 1(3) by (auto simp: table_sorted_def sorted_wrt_iff_nth_less)
  show ?case
  proof (cases "lo < hi")
    case False
    then have "\<forall>i<length table. de_pc24 (table ! i) \<noteq> pc24"
      using 1(5,6) by (metis less_irrefl not_le_imp_less order_le_less_trans)
    then have "List.find (\<lambda>e. de_pc24 e = pc24) table = None"
      by (auto simp: find_None_iff in_set_conv_nth)
    with False show ?thesis by (subst dispatch_search.simps) simp
  next
    case True
    define mid where "mid = lo + (hi - lo) div 2"
    have mid: "mid < hi" "lo \<le> mid" "mid < length table" using True 1(4) by (auto simp: mid_def)
    consider "de_pc24 (table ! mid) = pc24" | "de_pc24 (table ! mid) < pc24" | "de_pc24 (table ! mid) > pc24"
      by fastforce
    then show ?thesis
    proof cases
      case 1
      have "List.find (\<lambda>e. de_pc24 e = pc24) table = Some (table ! mid)"
        using mid less 1 by (auto simp: find_Some_iff intro!: exI [of _ mid] dest: less_imp_neq)
      with 1 True show ?thesis by (subst dispatch_search.simps) (simp add: Let_def mid_def)
    next
      case 2
      have "\<forall>i<mid + 1. de_pc24 (table ! i) < pc24"
        using 2 less [of _ mid] mid by (metis add.commute less_SucE order_less_trans plus_1_eq_Suc)
      moreover have "de_pc24 (table ! mid) \<noteq> pc24" using 2 by simp
      ultimately show ?thesis
        using "1.IH"(1) [OF True mid_def refl] 2 "1.prems" True
        by (subst dispatch_search.simps) (simp add: Let_def mid_def [symmetric])
    next
      case 3
      have "\<forall>i<length table. mid \<le> i \<longrightarrow> pc24 < de_pc24 (table ! i)"
        using 3 less [of mid] by (metis le_neq_implies_less order_less_trans)
      moreover have "de_pc24 (table ! mid) \<noteq> pc24" "\<not> de_pc24 (table ! mid) < pc24" using 3 by auto
      ultimately show ?thesis
        using "1.IH"(2) [OF True mid_def refl] "1.prems" mid True
        by (subst dispatch_search.simps) (simp add: Let_def mid_def [symmetric])
    qed
  qed
qed

lemma sorted_unique:
  assumes "table_sorted table" "e \<in> set table" "e' \<in> set table" "de_pc24 e = de_pc24 e'"
  shows "e = e'"
proof -
  obtain i j where ij: "i < length table" "e = table ! i" "j < length table" "e' = table ! j"
    using assms(2,3) by (auto simp: in_set_conv_nth)
  then show ?thesis
    using assms(1,4) unfolding table_sorted_def sorted_wrt_iff_nth_less
    by (metis less_irrefl linorder_neqE_nat)
qed

lemma lookup_iff:
  assumes "table_sorted table"
  shows "cpu_dispatch_lookup table cpu pc24 = Some f \<longleftrightarrow>
    (\<exists>e\<in>set table. de_pc24 e = pc24 \<and> de_variant e ! unat (mx_index cpu) = Some f)"
proof -
  have s: "dispatch_search table pc24 0 (length table) = List.find (\<lambda>e. de_pc24 e = pc24) table"
    using search_find [OF assms, of "length table" 0] by simp
  show ?thesis
  proof (cases "List.find (\<lambda>e. de_pc24 e = pc24) table")
    case None
    then have "cpu_dispatch_lookup table cpu pc24 = None" using s by (simp add: cpu_dispatch_lookup_def)
    with None show ?thesis by (auto simp: find_None_iff)
  next
    case (Some e)
    then have "e \<in> set table" "de_pc24 e = pc24" by (auto simp: find_Some_iff)
    with Some s sorted_unique [OF assms] show ?thesis by (auto simp: cpu_dispatch_lookup_def)
  qed
qed

text \<open>The function a program counter stands for, with the mirror of its bank behind it.\<close>

definition dispatches_to :: "dispatch_entry list \<Rightarrow> cpu_state \<Rightarrow> u32 \<Rightarrow> aot \<Rightarrow> bool" where
  "dispatches_to table cpu pc24 f \<longleftrightarrow>
     (let body = (\<lambda>pc f. \<exists>e\<in>set table. de_pc24 e = pc \<and> de_variant e ! unat (mx_index cpu) = Some f) in
      body pc24 f \<or> (\<nexists>g. body pc24 g) \<and> mirrored_bank pc24 \<and> body (pc24 XOR 0x800000) f)"

lemma find_dispatches:
  assumes "table_sorted table"
  shows "fst (dispatch_find table cpu pc24) = Some f \<longleftrightarrow> dispatches_to table cpu pc24 f"
proof (cases "cpu_dispatch_lookup table cpu pc24")
  case None
  then have "\<nexists>g. \<exists>e\<in>set table. de_pc24 e = pc24 \<and> de_variant e ! unat (mx_index cpu) = Some g"
    using lookup_iff [OF assms, of cpu pc24] by auto
  with None show ?thesis
    unfolding dispatches_to_def Let_def lookup_iff [OF assms, symmetric]
    by (auto simp: dispatch_find_def Let_def)
next
  case (Some g)
  then show ?thesis
    unfolding dispatches_to_def Let_def lookup_iff [OF assms, symmetric] by (auto simp: dispatch_find_def)
qed

text \<open>
  C36. Dispatch finds what the table holds: over a table sorted by address the binary search ends and
  a dispatch runs the one recompiled body registered for the address and the live register widths,
  or else the one of the mirrored bank, without a paired caller; the probe answers yes exactly then;
  and when there is no such body the only effects are the log entry and the restored stack pointer.
\<close>

theorem cpu_dispatch_complete:
  assumes "table_sorted table" "pc24 < 0x1000000"
  shows "(cpu_dispatch_has_entry table (sy_cpu y) pc24 \<longleftrightarrow> (\<exists>f. dispatches_to table (sy_cpu y) pc24 f))
    \<and> (\<forall>f. dispatches_to table (sy_cpu y) pc24 f \<longrightarrow>
        (\<exists>l i. cpu_dispatch_pc_from table pc24 s_miss source y
           = f (upd_cpu (\<lambda>c. c\<lparr>cs_host_return_valid := 0\<rparr>) (y\<lparr>sy_log := l, sy_log_idx := i\<rparr>))))
    \<and> ((\<nexists>f. dispatches_to table (sy_cpu y) pc24 f) \<longrightarrow>
        (\<exists>l i. cpu_dispatch_pc_from table pc24 s_miss source y
           = Done (Return_normal, upd_cpu (\<lambda>c. c\<lparr>cs_S := s_miss\<rparr>) (y\<lparr>sy_log := l, sy_log_idx := i\<rparr>))))"
proof -
  have pc: "pc24 AND 0xffffff = pc24"
    using assms(2) by (simp add: word_unat_eq_iff word_less_nat_alt)
  have has: "cpu_dispatch_has_entry table (sy_cpu y) pc24 \<longleftrightarrow> fst (dispatch_find table (sy_cpu y) pc24) \<noteq> None"
    by (auto simp: cpu_dispatch_has_entry_def dispatch_find_def pc Let_def split: option.split)
  obtain fp mir where d: "dispatch_find table (sy_cpu y) pc24 = (fp, mir)" by fastforce
  have to: "dispatches_to table (sy_cpu y) pc24 f \<longleftrightarrow> fp = Some f" for f
    using find_dispatches [OF assms(1), of "sy_cpu y" pc24 f] d by simp
  show ?thesis
    unfolding has to d
    by (cases fp) (auto simp: cpu_dispatch_pc_from_def pc d Let_def dispatch_log_record_def)
qed

definition idle_sys :: sys where
  "idle_sys =
     \<lparr>sy_cpu = cpu_state_init, sy_machine = lorom_machine, sy_last_func = [], sy_stack = replicate 64 [],
      sy_entry_s = replicate 64 0, sy_stack_top = 0, sy_tail_valid = False, sy_tail_entry_s = 0, sy_tail_hrv = 0,
      sy_log = replicate 1024 \<lparr>dl_pc24 = 0, dl_source_pc24 = 0, dl_func_name = [], dl_mx_idx = 0, dl_found = False,
        dl_mirror = False, dl_frame = 0\<rparr>, sy_log_idx = 0, sy_abandons = [], sy_abandon_total = 0,
      sy_abandon_overflow = 0, sy_tier_hits = 0, sy_tier2 = [], sy_tier2_overflow = 0\<rparr>"

definition return_entry :: "u32 \<Rightarrow> dispatch_entry" where
  "return_entry pc24 = \<lparr>de_pc24 = pc24, de_variant = replicate 4 (Some (\<lambda>y. Done (Return_normal, y)))\<rparr>"

theorem cpu_dispatch_complete_witness:
  "\<exists>y. cpu_dispatch_pc_from [return_entry 0x8000, return_entry 0x9000] 0x809000 0x1ff 0 idle_sys = Done (Return_normal, y)
     \<and> cs_S (sy_cpu y) = 0x1ff"
proof -
  let ?t = "[return_entry 0x8000, return_entry 0x9000]"
  have mx: "unat (mx_index (sy_cpu idle_sys)) < 4"
    by (simp add: mx_index_def idle_sys_def cpu_state_init_def)
  have s: "table_sorted ?t" by (simp add: table_sorted_def return_entry_def)
  have "dispatches_to ?t (sy_cpu idle_sys) 0x809000 (\<lambda>y. Done (Return_normal, y))"
    using mx by (simp add: dispatches_to_def return_entry_def mirrored_bank_def bus_bank_def)
  with cpu_dispatch_complete [OF s, of "0x809000" idle_sys "0x1ff" 0]
  show ?thesis by (auto simp: upd_cpu_def idle_sys_def cpu_state_init_def)
qed

section \<open>Returns to an ancestor\<close>

lemma ancestor_scan_nearest:
  "ancestor_scan entry_s ret_s n = Some i \<longleftrightarrow> i < n \<and> entry_s ! i = ret_s \<and> (\<forall>j. i < j \<and> j < n \<longrightarrow> entry_s ! j \<noteq> ret_s)"
proof (induction n)
  case (Suc n)
  then show ?case by (auto simp: less_Suc_eq)
qed simp

lemma ancestor_scan_none: "ancestor_scan entry_s ret_s n = None \<longleftrightarrow> (\<forall>j<n. entry_s ! j \<noteq> ret_s)"
  by (induction n) (auto simp: less_Suc_eq)

text \<open>
  A return to an ancestor skips to the nearest one: for a call stack within its bound the result is
  the positive number of levels up to the closest strict ancestor that was entered at the given stack
  level, and \<open>-1\<close> exactly when no strict ancestor was.
\<close>

theorem ancestor_skip_nearest:
  assumes "2 \<le> sy_stack_top y" "sy_stack_top y \<le> RECOMP_STACK_DEPTH"
  shows "(cpu_resolve_ancestor_skip ret_s y = int k \<longleftrightarrow>
      0 < k \<and> k < sy_stack_top y \<and> sy_entry_s y ! (sy_stack_top y - 1 - k) = ret_s
      \<and> (\<forall>j. 0 < j \<and> j < k \<longrightarrow> sy_entry_s y ! (sy_stack_top y - 1 - j) \<noteq> ret_s))
    \<and> (cpu_resolve_ancestor_skip ret_s y = - 1 \<longleftrightarrow> (\<forall>i. i < sy_stack_top y - 1 \<longrightarrow> sy_entry_s y ! i \<noteq> ret_s))"
proof (cases "ancestor_scan (sy_entry_s y) ret_s (sy_stack_top y - 1)")
  case None
  then have n: "\<And>j. j < sy_stack_top y - 1 \<Longrightarrow> sy_entry_s y ! j \<noteq> ret_s" by (simp add: ancestor_scan_none)
  have "cpu_resolve_ancestor_skip ret_s y = - 1" using assms None by (simp add: cpu_resolve_ancestor_skip_def)
  moreover have "\<not> (0 < k \<and> k < sy_stack_top y \<and> sy_entry_s y ! (sy_stack_top y - 1 - k) = ret_s)"
    using n [of "sy_stack_top y - 1 - k"] by force
  ultimately show ?thesis using n by (intro conjI; simp; blast)
next
  case (Some i)
  define top where "top = sy_stack_top y - 1"
  have i: "i < top" "sy_entry_s y ! i = ret_s" and near: "\<And>j. i < j \<Longrightarrow> j < top \<Longrightarrow> sy_entry_s y ! j \<noteq> ret_s"
    using Some unfolding ancestor_scan_nearest top_def by auto
  have r: "cpu_resolve_ancestor_skip ret_s y = int (top - i)"
    using assms Some i(1) by (simp add: cpu_resolve_ancestor_skip_def top_def)
  have "k = top - i" if "0 < k" "k < Suc top" "sy_entry_s y ! (top - k) = ret_s"
    "\<And>j. 0 < j \<Longrightarrow> j < k \<Longrightarrow> sy_entry_s y ! (top - j) \<noteq> ret_s"
  proof -
    have "\<not> top - i < k" using that(4) [of "top - i"] i by auto
    moreover have "\<not> k < top - i" using near [of "top - k"] that(1-3) by (auto simp: less_diff_conv add.commute)
    ultimately show ?thesis by simp
  qed
  moreover have "sy_entry_s y ! (top - j) \<noteq> ret_s" if "0 < j" "j < top - i" for j
    using near [of "top - j"] that by simp
  ultimately have "k = top - i \<longleftrightarrow> 0 < k \<and> k < Suc top \<and> sy_entry_s y ! (top - k) = ret_s
      \<and> (\<forall>j. 0 < j \<and> j < k \<longrightarrow> sy_entry_s y ! (top - j) \<noteq> ret_s)"
    using i by (intro iffI) (simp, blast)
  moreover have "sy_stack_top y = Suc top" using assms(1) by (simp add: top_def)
  moreover have "int (top - i) = int k \<longleftrightarrow> k = top - i" "int (top - i) \<noteq> - 1" by auto
  ultimately show ?thesis
    unfolding r using i by (simp only: diff_Suc_1) blast
qed

theorem ancestor_skip_nearest_witness:
  "cpu_resolve_ancestor_skip 0x1f0 (idle_sys\<lparr>sy_entry_s := [0x1f0, 0x1f4, 0x1f0, 0x1ec], sy_stack_top := 4\<rparr>) = 1"
  using ancestor_skip_nearest [of "idle_sys\<lparr>sy_entry_s := [0x1f0, 0x1f4, 0x1f0, 0x1ec], sy_stack_top := 4\<rparr>" "0x1f0" 1]
  by (simp add: RECOMP_STACK_DEPTH_def)

end
