(* ===== verification/Interp816_Core.thy ===== *)
theory Interp816_Core
  imports Snes_Prelude
begin

text \<open>
  The state of the 65816 interpreter (\<open>struct Interp816\<close> of \<open>interp816.h\<close>) and its
  primitives: bus access, opcode fetch, the flag byte, the stack, interrupts. The memory bus is
  the pair of handlers stored in the structure, as in the C code; a handler takes the opaque
  memory and returns it, since reads of hardware registers have side effects.
\<close>

section \<open>The processor structure\<close>

record 'm interp816 =
  cpu_mem :: 'm
  cpu_read :: "'m \<Rightarrow> u32 \<Rightarrow> u8 \<times> 'm"
  cpu_write :: "'m \<Rightarrow> u32 \<Rightarrow> u8 \<Rightarrow> 'm"
  cpu_a :: u16
  cpu_x :: u16
  cpu_y :: u16
  cpu_sp :: u16
  cpu_pc :: u16
  cpu_dp :: u16
  cpu_k :: u8
  cpu_db :: u8
  cpu_c :: bool
  cpu_z :: bool
  cpu_v :: bool
  cpu_n :: bool
  cpu_i :: bool
  cpu_d :: bool
  cpu_xf :: bool
  cpu_mf :: bool
  cpu_e :: bool
  cpu_irqWanted :: bool
  cpu_nmiWanted :: bool
  cpu_waiting :: bool
  cpu_stopped :: bool
  cpu_cyclesUsed :: u8

type_synonym ('m, 'a) cpuM = "('m interp816, 'a) state"

section \<open>Bus access\<close>

definition interp816_read :: "u32 \<Rightarrow> ('m, u8) cpuM" where
  "interp816_read adr = State (\<lambda>cpu.
     (case cpu_read cpu (cpu_mem cpu) adr of (val, mem) \<Rightarrow> (val, cpu\<lparr>cpu_mem := mem\<rparr>)))"

definition interp816_write :: "u32 \<Rightarrow> u8 \<Rightarrow> ('m, unit) cpuM" where
  "interp816_write adr val = modify (\<lambda>cpu.
     cpu\<lparr>cpu_mem := cpu_write cpu (cpu_mem cpu) adr val\<rparr>)"

definition cyclesUsed_add :: "u8 \<Rightarrow> ('m, unit) cpuM" where
  "cyclesUsed_add n = modify (\<lambda>cpu. cpu\<lparr>cpu_cyclesUsed := cpu_cyclesUsed cpu + n\<rparr>)"

text \<open>\<open>interp816_init\<close>: the structure is cleared and the bus installed.\<close>

definition interp816_init :: "'m \<Rightarrow> ('m \<Rightarrow> u32 \<Rightarrow> u8 \<times> 'm) \<Rightarrow> ('m \<Rightarrow> u32 \<Rightarrow> u8 \<Rightarrow> 'm) \<Rightarrow> 'm interp816" where
  "interp816_init mem rd wr =
     \<lparr>cpu_mem = mem, cpu_read = rd, cpu_write = wr,
      cpu_a = 0, cpu_x = 0, cpu_y = 0, cpu_sp = 0, cpu_pc = 0, cpu_dp = 0, cpu_k = 0, cpu_db = 0,
      cpu_c = False, cpu_z = False, cpu_v = False, cpu_n = False, cpu_i = False, cpu_d = False,
      cpu_xf = False, cpu_mf = False, cpu_e = False,
      cpu_irqWanted = False, cpu_nmiWanted = False, cpu_waiting = False, cpu_stopped = False,
      cpu_cyclesUsed = 0\<rparr>"

text \<open>
  \<open>interp816_reset\<close>. The two operands of the vector load are read left to right; C leaves
  their order open.
\<close>

definition interp816_reset :: "('m, unit) cpuM" where
  "interp816_reset = do {
     modify (\<lambda>cpu. cpu\<lparr>cpu_a := 0, cpu_x := 0, cpu_y := 0, cpu_sp := 0x100\<rparr>);
     low \<leftarrow> interp816_read 0xfffc;
     high \<leftarrow> interp816_read 0xfffd;
     modify (\<lambda>cpu. cpu\<lparr>cpu_pc := word16 low high, cpu_dp := 0, cpu_k := 0, cpu_db := 0,
       cpu_c := False, cpu_z := False, cpu_v := False, cpu_n := False, cpu_i := True,
       cpu_d := False, cpu_xf := True, cpu_mf := True, cpu_e := True,
       cpu_irqWanted := False, cpu_nmiWanted := False, cpu_waiting := False,
       cpu_stopped := False, cpu_cyclesUsed := 0\<rparr>)
   }"

section \<open>Opcode fetch\<close>

definition interp816_readOpcode :: "('m, u8) cpuM" where
  "interp816_readOpcode = do {
     cpu \<leftarrow> State_Monad.get;
     modify (\<lambda>cpu. cpu\<lparr>cpu_pc := cpu_pc cpu + 1\<rparr>);
     interp816_read (adr24 (cpu_k cpu) (cpu_pc cpu))
   }"

definition interp816_readOpcodeWord :: "('m, u16) cpuM" where
  "interp816_readOpcodeWord = do {
     low \<leftarrow> interp816_readOpcode;
     high \<leftarrow> interp816_readOpcode;
     State_Monad.return (word16 low high)
   }"

section \<open>Flags\<close>

definition interp816_getFlags :: "'m interp816 \<Rightarrow> u8" where
  "interp816_getFlags cpu =
     push_bit 7 (of_bool (cpu_n cpu)) OR push_bit 6 (of_bool (cpu_v cpu))
     OR push_bit 5 (of_bool (cpu_mf cpu)) OR push_bit 4 (of_bool (cpu_xf cpu))
     OR push_bit 3 (of_bool (cpu_d cpu)) OR push_bit 2 (of_bool (cpu_i cpu))
     OR push_bit 1 (of_bool (cpu_z cpu)) OR of_bool (cpu_c cpu)"

definition interp816_setFlags :: "u8 \<Rightarrow> 'm interp816 \<Rightarrow> 'm interp816" where
  "interp816_setFlags val cpu =
     (let cpu1 = cpu\<lparr>cpu_n := tst val 0x80, cpu_v := tst val 0x40, cpu_mf := tst val 0x20,
            cpu_xf := tst val 0x10, cpu_d := tst val 8, cpu_i := tst val 4, cpu_z := tst val 2,
            cpu_c := tst val 1\<rparr>;
          cpu2 = (if cpu_e cpu1
            then cpu1\<lparr>cpu_mf := True, cpu_xf := True, cpu_sp := (cpu_sp cpu1 AND 0xff) OR 0x100\<rparr>
            else cpu1)
      in if cpu_xf cpu2
         then cpu2\<lparr>cpu_x := cpu_x cpu2 AND 0xff, cpu_y := cpu_y cpu2 AND 0xff\<rparr>
         else cpu2)"

definition interp816_setZN :: "u16 \<Rightarrow> bool \<Rightarrow> 'm interp816 \<Rightarrow> 'm interp816" where
  "interp816_setZN value byte cpu =
     (if byte then cpu\<lparr>cpu_z := (value AND 0xff = 0), cpu_n := tst value 0x80\<rparr>
      else cpu\<lparr>cpu_z := (value = 0), cpu_n := tst value 0x8000\<rparr>)"

definition interp816_doBranch :: "u8 \<Rightarrow> bool \<Rightarrow> ('m, unit) cpuM" where
  "interp816_doBranch value check =
     (if check then do {
        cyclesUsed_add 1;
        modify (\<lambda>cpu. cpu\<lparr>cpu_pc := cpu_pc cpu + scast value\<rparr>)
      } else State_Monad.return ())"

section \<open>The stack\<close>

definition interp816_pullByte :: "('m, u8) cpuM" where
  "interp816_pullByte = do {
     modify (\<lambda>cpu. cpu\<lparr>cpu_sp := cpu_sp cpu + 1\<rparr>);
     modify (\<lambda>cpu. if cpu_e cpu then cpu\<lparr>cpu_sp := (cpu_sp cpu AND 0xff) OR 0x100\<rparr> else cpu);
     cpu \<leftarrow> State_Monad.get;
     interp816_read (ucast (cpu_sp cpu))
   }"

definition interp816_pushByte :: "u8 \<Rightarrow> ('m, unit) cpuM" where
  "interp816_pushByte value = do {
     cpu \<leftarrow> State_Monad.get;
     interp816_write (ucast (cpu_sp cpu)) value;
     modify (\<lambda>cpu. cpu\<lparr>cpu_sp := cpu_sp cpu - 1\<rparr>);
     modify (\<lambda>cpu. if cpu_e cpu then cpu\<lparr>cpu_sp := (cpu_sp cpu AND 0xff) OR 0x100\<rparr> else cpu)
   }"

definition interp816_pullWord :: "('m, u16) cpuM" where
  "interp816_pullWord = do {
     value \<leftarrow> interp816_pullByte;
     high \<leftarrow> interp816_pullByte;
     State_Monad.return (word16 value high)
   }"

definition interp816_pushWord :: "u16 \<Rightarrow> ('m, unit) cpuM" where
  "interp816_pushWord value = do {
     interp816_pushByte (hi8 value);
     interp816_pushByte (lo8 value)
   }"

definition interp816_readWord :: "u32 \<Rightarrow> u32 \<Rightarrow> ('m, u16) cpuM" where
  "interp816_readWord adrl adrh = do {
     value \<leftarrow> interp816_read adrl;
     high \<leftarrow> interp816_read adrh;
     State_Monad.return (word16 value high)
   }"

definition interp816_writeWord :: "u32 \<Rightarrow> u32 \<Rightarrow> u16 \<Rightarrow> bool \<Rightarrow> ('m, unit) cpuM" where
  "interp816_writeWord adrl adrh value reversed =
     (if reversed then do {
        interp816_write adrh (hi8 value);
        interp816_write adrl (lo8 value)
      } else do {
        interp816_write adrl (lo8 value);
        interp816_write adrh (hi8 value)
      })"

section \<open>Interrupts\<close>

definition interp816_doInterrupt :: "bool \<Rightarrow> ('m, unit) cpuM" where
  "interp816_doInterrupt irq = do {
     k \<leftarrow> gets cpu_k;
     interp816_pushByte k;
     pc \<leftarrow> gets cpu_pc;
     interp816_pushWord pc;
     flags \<leftarrow> gets interp816_getFlags;
     interp816_pushByte flags;
     cyclesUsed_add 1;
     modify (\<lambda>cpu. cpu\<lparr>cpu_i := True, cpu_d := False, cpu_k := 0\<rparr>);
     pc' \<leftarrow> (if irq then interp816_readWord 0xffee 0xffef else interp816_readWord 0xffea 0xffeb);
     modify (\<lambda>cpu. cpu\<lparr>cpu_pc := pc'\<rparr>)
   }"

section \<open>How the primitives run\<close>

lemma run_read [run_simps]:
  "run_state (interp816_read adr) cpu =
    (fst (cpu_read cpu (cpu_mem cpu) adr), cpu\<lparr>cpu_mem := snd (cpu_read cpu (cpu_mem cpu) adr)\<rparr>)"
  by (simp add: interp816_read_def split: prod.split)

lemma run_write [run_simps]:
  "run_state (interp816_write adr val) cpu =
    ((), cpu\<lparr>cpu_mem := cpu_write cpu (cpu_mem cpu) adr val\<rparr>)"
  by (simp add: interp816_write_def)

lemma run_cyclesUsed_add [run_simps]:
  "run_state (cyclesUsed_add n) cpu = ((), cpu\<lparr>cpu_cyclesUsed := cpu_cyclesUsed cpu + n\<rparr>)"
  by (simp add: cyclesUsed_add_def)

lemma bit_getFlags [bit_simps]:
  "bit (interp816_getFlags cpu) n \<longleftrightarrow>
     n = 7 \<and> cpu_n cpu \<or> n = 6 \<and> cpu_v cpu \<or> n = 5 \<and> cpu_mf cpu \<or> n = 4 \<and> cpu_xf cpu
     \<or> n = 3 \<and> cpu_d cpu \<or> n = 2 \<and> cpu_i cpu \<or> n = 1 \<and> cpu_z cpu \<or> n = 0 \<and> cpu_c cpu"
  by (simp only: interp816_getFlags_def bit_or_iff bit_push_of_bool bit_of_bool_word disj_assoc)
    simp

end
