(* ===== verification/Interp816_Modes.thy ===== *)
theory Interp816_Modes
  imports Interp816_Core
begin

text \<open>
  The addressing modes of the 65816 interpreter. Each C function stores the low byte's address
  through a pointer and returns the high byte's; the model returns the pair \<open>(low, high)\<close>.
  Addresses are 32-bit, as in the C code, and the masks are written where the code has them.
\<close>

section \<open>Immediate and direct-page modes\<close>

definition interp816_adrImm :: "bool \<Rightarrow> ('m, u32 \<times> u32) cpuM" where
  "interp816_adrImm xFlag = do {
     cpu \<leftarrow> State_Monad.get;
     (if (xFlag \<and> cpu_xf cpu) \<or> (\<not> xFlag \<and> cpu_mf cpu) then do {
        modify (\<lambda>cpu. cpu\<lparr>cpu_pc := cpu_pc cpu + 1\<rparr>);
        State_Monad.return (adr24 (cpu_k cpu) (cpu_pc cpu), 0)
      } else do {
        modify (\<lambda>cpu. cpu\<lparr>cpu_pc := cpu_pc cpu + 1\<rparr>);
        modify (\<lambda>cpu. cpu\<lparr>cpu_pc := cpu_pc cpu + 1\<rparr>);
        State_Monad.return (adr24 (cpu_k cpu) (cpu_pc cpu), adr24 (cpu_k cpu) (cpu_pc cpu + 1))
      })
   }"

text \<open>The direct-page operand fetch shared by the \<open>dp\<close> modes: one more cycle when \<open>D.l \<noteq> 0\<close>.\<close>

definition fetch_dp :: "('m, u8) cpuM" where
  "fetch_dp = do {
     adr \<leftarrow> interp816_readOpcode;
     cpu \<leftarrow> State_Monad.get;
     (if tst (cpu_dp cpu) 0xff then cyclesUsed_add 1 else State_Monad.return ());
     State_Monad.return adr
   }"

definition interp816_adrDp :: "('m, u32 \<times> u32) cpuM" where
  "interp816_adrDp = do {
     adr \<leftarrow> fetch_dp;
     cpu \<leftarrow> State_Monad.get;
     State_Monad.return
       ((ucast (cpu_dp cpu) + ucast adr) AND 0xffff,
        (ucast (cpu_dp cpu) + ucast adr + 1) AND 0xffff)
   }"

definition interp816_adrDpx :: "('m, u32 \<times> u32) cpuM" where
  "interp816_adrDpx = do {
     adr \<leftarrow> fetch_dp;
     cpu \<leftarrow> State_Monad.get;
     State_Monad.return
       ((ucast (cpu_dp cpu) + ucast adr + ucast (cpu_x cpu)) AND 0xffff,
        (ucast (cpu_dp cpu) + ucast adr + ucast (cpu_x cpu) + 1) AND 0xffff)
   }"

definition interp816_adrDpy :: "('m, u32 \<times> u32) cpuM" where
  "interp816_adrDpy = do {
     adr \<leftarrow> fetch_dp;
     cpu \<leftarrow> State_Monad.get;
     State_Monad.return
       ((ucast (cpu_dp cpu) + ucast adr + ucast (cpu_y cpu)) AND 0xffff,
        (ucast (cpu_dp cpu) + ucast adr + ucast (cpu_y cpu) + 1) AND 0xffff)
   }"

definition interp816_adrIdp :: "('m, u32 \<times> u32) cpuM" where
  "interp816_adrIdp = do {
     adr \<leftarrow> fetch_dp;
     cpu \<leftarrow> State_Monad.get;
     pointer \<leftarrow> interp816_readWord ((ucast (cpu_dp cpu) + ucast adr) AND 0xffff)
       ((ucast (cpu_dp cpu) + ucast adr + 1) AND 0xffff);
     State_Monad.return
       (push_bit 16 (ucast (cpu_db cpu)) + ucast pointer,
        (push_bit 16 (ucast (cpu_db cpu)) + ucast pointer + 1) AND 0xffffff)
   }"

definition interp816_adrIdx :: "('m, u32 \<times> u32) cpuM" where
  "interp816_adrIdx = do {
     adr \<leftarrow> fetch_dp;
     cpu \<leftarrow> State_Monad.get;
     pointer \<leftarrow> interp816_readWord
       ((ucast (cpu_dp cpu) + ucast adr + ucast (cpu_x cpu)) AND 0xffff)
       ((ucast (cpu_dp cpu) + ucast adr + ucast (cpu_x cpu) + 1) AND 0xffff);
     State_Monad.return
       (push_bit 16 (ucast (cpu_db cpu)) + ucast pointer,
        (push_bit 16 (ucast (cpu_db cpu)) + ucast pointer + 1) AND 0xffffff)
   }"

text \<open>
  The indexed modes charge a cycle to writing opcodes when the index is 16-bit or a page is
  crossed; the page numbers are compared before the sum is cut to 16 bits.
\<close>

definition page_crossed :: "u16 \<Rightarrow> u16 \<Rightarrow> bool" where
  "page_crossed base index \<longleftrightarrow>
     drop_bit 8 (ucast base :: u32) \<noteq> drop_bit 8 (ucast base + ucast index)"

definition interp816_adrIdy :: "bool \<Rightarrow> ('m, u32 \<times> u32) cpuM" where
  "interp816_adrIdy write = do {
     adr \<leftarrow> fetch_dp;
     cpu \<leftarrow> State_Monad.get;
     pointer \<leftarrow> interp816_readWord ((ucast (cpu_dp cpu) + ucast adr) AND 0xffff)
       ((ucast (cpu_dp cpu) + ucast adr + 1) AND 0xffff);
     (if write \<and> (\<not> cpu_xf cpu \<or> page_crossed pointer (cpu_y cpu))
      then cyclesUsed_add 1 else State_Monad.return ());
     State_Monad.return
       ((push_bit 16 (ucast (cpu_db cpu)) + ucast pointer + ucast (cpu_y cpu)) AND 0xffffff,
        (push_bit 16 (ucast (cpu_db cpu)) + ucast pointer + ucast (cpu_y cpu) + 1) AND 0xffffff)
   }"

text \<open>The 24-bit pointer at a direct-page address, for the long indirect modes.\<close>

definition read_long_pointer :: "u8 \<Rightarrow> ('m, u32) cpuM" where
  "read_long_pointer adr = do {
     cpu \<leftarrow> State_Monad.get;
     pointer \<leftarrow> interp816_readWord ((ucast (cpu_dp cpu) + ucast adr) AND 0xffff)
       ((ucast (cpu_dp cpu) + ucast adr + 1) AND 0xffff);
     bank \<leftarrow> interp816_read ((ucast (cpu_dp cpu) + ucast adr + 2) AND 0xffff);
     State_Monad.return (ucast pointer OR push_bit 16 (ucast bank))
   }"

definition interp816_adrIdl :: "('m, u32 \<times> u32) cpuM" where
  "interp816_adrIdl = do {
     adr \<leftarrow> fetch_dp;
     pointer \<leftarrow> read_long_pointer adr;
     State_Monad.return (pointer, (pointer + 1) AND 0xffffff)
   }"

definition interp816_adrIly :: "('m, u32 \<times> u32) cpuM" where
  "interp816_adrIly = do {
     adr \<leftarrow> fetch_dp;
     pointer \<leftarrow> read_long_pointer adr;
     cpu \<leftarrow> State_Monad.get;
     State_Monad.return ((pointer + ucast (cpu_y cpu)) AND 0xffffff,
       (pointer + ucast (cpu_y cpu) + 1) AND 0xffffff)
   }"

section \<open>Stack-relative and absolute modes\<close>

definition interp816_adrSr :: "('m, u32 \<times> u32) cpuM" where
  "interp816_adrSr = do {
     adr \<leftarrow> interp816_readOpcode;
     cpu \<leftarrow> State_Monad.get;
     State_Monad.return ((ucast (cpu_sp cpu) + ucast adr) AND 0xffff,
       (ucast (cpu_sp cpu) + ucast adr + 1) AND 0xffff)
   }"

definition interp816_adrIsy :: "('m, u32 \<times> u32) cpuM" where
  "interp816_adrIsy = do {
     adr \<leftarrow> interp816_readOpcode;
     cpu \<leftarrow> State_Monad.get;
     pointer \<leftarrow> interp816_readWord ((ucast (cpu_sp cpu) + ucast adr) AND 0xffff)
       ((ucast (cpu_sp cpu) + ucast adr + 1) AND 0xffff);
     State_Monad.return
       ((push_bit 16 (ucast (cpu_db cpu)) + ucast pointer + ucast (cpu_y cpu)) AND 0xffffff,
        (push_bit 16 (ucast (cpu_db cpu)) + ucast pointer + ucast (cpu_y cpu) + 1) AND 0xffffff)
   }"

definition interp816_adrAbs :: "('m, u32 \<times> u32) cpuM" where
  "interp816_adrAbs = do {
     adr \<leftarrow> interp816_readOpcodeWord;
     cpu \<leftarrow> State_Monad.get;
     State_Monad.return (push_bit 16 (ucast (cpu_db cpu)) + ucast adr,
       (push_bit 16 (ucast (cpu_db cpu)) + ucast adr + 1) AND 0xffffff)
   }"

definition interp816_adrAbx :: "bool \<Rightarrow> ('m, u32 \<times> u32) cpuM" where
  "interp816_adrAbx write = do {
     adr \<leftarrow> interp816_readOpcodeWord;
     cpu \<leftarrow> State_Monad.get;
     (if write \<and> (\<not> cpu_xf cpu \<or> page_crossed adr (cpu_x cpu))
      then cyclesUsed_add 1 else State_Monad.return ());
     State_Monad.return
       ((push_bit 16 (ucast (cpu_db cpu)) + ucast adr + ucast (cpu_x cpu)) AND 0xffffff,
        (push_bit 16 (ucast (cpu_db cpu)) + ucast adr + ucast (cpu_x cpu) + 1) AND 0xffffff)
   }"

definition interp816_adrAby :: "bool \<Rightarrow> ('m, u32 \<times> u32) cpuM" where
  "interp816_adrAby write = do {
     adr \<leftarrow> interp816_readOpcodeWord;
     cpu \<leftarrow> State_Monad.get;
     (if write \<and> (\<not> cpu_xf cpu \<or> page_crossed adr (cpu_y cpu))
      then cyclesUsed_add 1 else State_Monad.return ());
     State_Monad.return
       ((push_bit 16 (ucast (cpu_db cpu)) + ucast adr + ucast (cpu_y cpu)) AND 0xffffff,
        (push_bit 16 (ucast (cpu_db cpu)) + ucast adr + ucast (cpu_y cpu) + 1) AND 0xffffff)
   }"

definition interp816_adrAbl :: "('m, u32 \<times> u32) cpuM" where
  "interp816_adrAbl = do {
     adr \<leftarrow> interp816_readOpcodeWord;
     bank \<leftarrow> interp816_readOpcode;
     State_Monad.return (ucast adr OR push_bit 16 (ucast bank),
       ((ucast adr OR push_bit 16 (ucast bank)) + 1) AND 0xffffff)
   }"

definition interp816_adrAlx :: "('m, u32 \<times> u32) cpuM" where
  "interp816_adrAlx = do {
     adr \<leftarrow> interp816_readOpcodeWord;
     bank \<leftarrow> interp816_readOpcode;
     cpu \<leftarrow> State_Monad.get;
     State_Monad.return
       (((ucast adr OR push_bit 16 (ucast bank)) + ucast (cpu_x cpu)) AND 0xffffff,
        ((ucast adr OR push_bit 16 (ucast bank)) + ucast (cpu_x cpu) + 1) AND 0xffffff)
   }"

text \<open>\<open>adrIax\<close> reads the pointer itself, in the program bank.\<close>

definition interp816_adrIax :: "('m, u16) cpuM" where
  "interp816_adrIax = do {
     adr \<leftarrow> interp816_readOpcodeWord;
     cpu \<leftarrow> State_Monad.get;
     interp816_readWord (adr24 (cpu_k cpu) (adr + cpu_x cpu))
       (adr24 (cpu_k cpu) (adr + cpu_x cpu + 1))
   }"

end
