(* ===== verification/Interp816_Ops.thy ===== *)
theory Interp816_Ops
  imports Interp816_Modes
begin

text \<open>
  The operations of the 65816 interpreter: the functions \<open>interp816_and\<close> to
  \<open>interp816_trb\<close>. The arithmetic of \<open>adc\<close> and \<open>sbc\<close> is done on \<open>int\<close>, as the C code's
  \<open>int result\<close>, in pure functions of the operands so that it can be reasoned about alone.
\<close>

section \<open>Logical operations\<close>

text \<open>\<open>(a & 0xff00) | (v & 0xff)\<close>: the low byte of the accumulator replaced.\<close>

definition set_low :: "u16 \<Rightarrow> u16 \<Rightarrow> u16" where
  "set_low a v = (a AND 0xff00) OR (v AND 0xff)"

text \<open>
  The shape shared by \<open>and\<close>, \<open>ora\<close> and \<open>eor\<close>: an 8-bit operation keeps the high byte of the
  accumulator, a 16-bit one costs a cycle more.
\<close>

definition logic_op :: "(u16 \<Rightarrow> u16 \<Rightarrow> u16) \<Rightarrow> u32 \<Rightarrow> u32 \<Rightarrow> ('m, unit) cpuM" where
  "logic_op f low high = do {
     cpu \<leftarrow> State_Monad.get;
     (if cpu_mf cpu then do {
        value \<leftarrow> interp816_read low;
        modify (\<lambda>cpu. cpu\<lparr>cpu_a := set_low (cpu_a cpu) (f (cpu_a cpu) (ucast value))\<rparr>)
      } else do {
        cyclesUsed_add 1;
        value \<leftarrow> interp816_readWord low high;
        modify (\<lambda>cpu. cpu\<lparr>cpu_a := f (cpu_a cpu) value\<rparr>)
      });
     modify (\<lambda>cpu. interp816_setZN (cpu_a cpu) (cpu_mf cpu) cpu)
   }"

definition interp816_and :: "u32 \<Rightarrow> u32 \<Rightarrow> ('m, unit) cpuM" where
  "interp816_and = logic_op (AND)"

definition interp816_ora :: "u32 \<Rightarrow> u32 \<Rightarrow> ('m, unit) cpuM" where
  "interp816_ora = logic_op (OR)"

definition interp816_eor :: "u32 \<Rightarrow> u32 \<Rightarrow> ('m, unit) cpuM" where
  "interp816_eor = logic_op (XOR)"

section \<open>Addition and subtraction\<close>

text \<open>
  One decimal digit step of \<open>adc\<close> at digit weight \<open>u\<close> (1, 16, 256): the partial sum of the
  digits below and at the weight, corrected when the digit exceeds 9. The C code writes it out
  once per digit with the masks \<open>0xf\<close>, \<open>0xff\<close>, \<open>0xfff\<close>.
\<close>

definition adc_digit :: "int \<Rightarrow> int \<Rightarrow> int" where
  "adc_digit u result =
     (if result > 0xa * u - 1 then ((result + 6 * u) AND (0x10 * u - 1)) + 0x10 * u else result)"

definition adc8 :: "u16 \<Rightarrow> u8 \<Rightarrow> bool \<Rightarrow> bool \<Rightarrow> u16 \<times> bool \<times> bool" where
  "adc8 a value c d =
     (let av = uint a; vv = uint value;
          result = (if d
            then (av AND 0xf0) + (vv AND 0xf0)
                 + adc_digit 1 ((av AND 0xf) + (vv AND 0xf) + of_bool c)
            else (av AND 0xff) + vv + of_bool c);
          v = (av AND 0x80 = vv AND 0x80 \<and> vv AND 0x80 \<noteq> result AND 0x80);
          result = (if d \<and> result > 0x9f then result + 0x60 else result)
      in ((a AND 0xff00) OR word_of_int (result AND 0xff), v, result > 0xff))"

definition adc16 :: "u16 \<Rightarrow> u16 \<Rightarrow> bool \<Rightarrow> bool \<Rightarrow> u16 \<times> bool \<times> bool" where
  "adc16 a value c d =
     (let av = uint a; vv = uint value;
          result = (if d
            then (av AND 0xf000) + (vv AND 0xf000)
                 + adc_digit 0x100 ((av AND 0xf00) + (vv AND 0xf00)
                 + adc_digit 0x10 ((av AND 0xf0) + (vv AND 0xf0)
                 + adc_digit 1 ((av AND 0xf) + (vv AND 0xf) + of_bool c)))
            else av + vv + of_bool c);
          v = (av AND 0x8000 = vv AND 0x8000 \<and> vv AND 0x8000 \<noteq> result AND 0x8000);
          result = (if d \<and> result > 0x9fff then result + 0x6000 else result)
      in (word_of_int result, v, result > 0xffff))"

definition interp816_adc :: "u32 \<Rightarrow> u32 \<Rightarrow> ('m, unit) cpuM" where
  "interp816_adc low high = do {
     cpu \<leftarrow> State_Monad.get;
     (if cpu_mf cpu then do {
        value \<leftarrow> interp816_read low;
        modify (\<lambda>cpu. case adc8 (cpu_a cpu) value (cpu_c cpu) (cpu_d cpu) of
          (a, v, c) \<Rightarrow> cpu\<lparr>cpu_a := a, cpu_v := v, cpu_c := c\<rparr>)
      } else do {
        cyclesUsed_add 1;
        value \<leftarrow> interp816_readWord low high;
        modify (\<lambda>cpu. case adc16 (cpu_a cpu) value (cpu_c cpu) (cpu_d cpu) of
          (a, v, c) \<Rightarrow> cpu\<lparr>cpu_a := a, cpu_v := v, cpu_c := c\<rparr>)
      });
     modify (\<lambda>cpu. interp816_setZN (cpu_a cpu) (cpu_mf cpu) cpu)
   }"

text \<open>
  The digit step of \<open>sbc\<close>: the operand is already complemented, and a digit that did not
  carry is corrected by six, keeping the borrow out of the digits below the weight.
\<close>

definition sbc_digit :: "int \<Rightarrow> int \<Rightarrow> int" where
  "sbc_digit u result =
     (if result < 0x10 * u
      then (result - 6 * u) AND (if result - 6 * u < 0 then 0x10 * u - 1 else 0x20 * u - 1)
      else result)"

definition sbc8 :: "u16 \<Rightarrow> u8 \<Rightarrow> bool \<Rightarrow> bool \<Rightarrow> u16 \<times> bool \<times> bool" where
  "sbc8 a m c d =
     (let av = uint a; vv = uint (m XOR 0xff);
          result = (if d
            then (av AND 0xf0) + (vv AND 0xf0)
                 + sbc_digit 1 ((av AND 0xf) + (vv AND 0xf) + of_bool c)
            else (av AND 0xff) + vv + of_bool c);
          v = (av AND 0x80 = vv AND 0x80 \<and> vv AND 0x80 \<noteq> result AND 0x80);
          result = (if d \<and> result < 0x100 then result - 0x60 else result)
      in ((a AND 0xff00) OR word_of_int (result AND 0xff), v, result > 0xff))"

definition sbc16 :: "u16 \<Rightarrow> u16 \<Rightarrow> bool \<Rightarrow> bool \<Rightarrow> u16 \<times> bool \<times> bool" where
  "sbc16 a m c d =
     (let av = uint a; vv = uint (m XOR 0xffff);
          result = (if d
            then (av AND 0xf000) + (vv AND 0xf000)
                 + sbc_digit 0x100 ((av AND 0xf00) + (vv AND 0xf00)
                 + sbc_digit 0x10 ((av AND 0xf0) + (vv AND 0xf0)
                 + sbc_digit 1 ((av AND 0xf) + (vv AND 0xf) + of_bool c)))
            else av + vv + of_bool c);
          v = (av AND 0x8000 = vv AND 0x8000 \<and> vv AND 0x8000 \<noteq> result AND 0x8000);
          result = (if d \<and> result < 0x10000 then result - 0x6000 else result)
      in (word_of_int result, v, result > 0xffff))"

definition interp816_sbc :: "u32 \<Rightarrow> u32 \<Rightarrow> ('m, unit) cpuM" where
  "interp816_sbc low high = do {
     cpu \<leftarrow> State_Monad.get;
     (if cpu_mf cpu then do {
        value \<leftarrow> interp816_read low;
        modify (\<lambda>cpu. case sbc8 (cpu_a cpu) value (cpu_c cpu) (cpu_d cpu) of
          (a, v, c) \<Rightarrow> cpu\<lparr>cpu_a := a, cpu_v := v, cpu_c := c\<rparr>)
      } else do {
        cyclesUsed_add 1;
        value \<leftarrow> interp816_readWord low high;
        modify (\<lambda>cpu. case sbc16 (cpu_a cpu) value (cpu_c cpu) (cpu_d cpu) of
          (a, v, c) \<Rightarrow> cpu\<lparr>cpu_a := a, cpu_v := v, cpu_c := c\<rparr>)
      });
     modify (\<lambda>cpu. interp816_setZN (cpu_a cpu) (cpu_mf cpu) cpu)
   }"

section \<open>Comparison and bit test\<close>

text \<open>
  The three compares share one shape: the register \<open>reg\<close>, the width flag \<open>wide8\<close>, the sum
  with the complemented operand and one, and the flags of the sum.
\<close>

definition compare_op ::
  "('m interp816 \<Rightarrow> u16) \<Rightarrow> ('m interp816 \<Rightarrow> bool) \<Rightarrow> u32 \<Rightarrow> u32 \<Rightarrow> ('m, unit) cpuM" where
  "compare_op reg byte low high = do {
     cpu \<leftarrow> State_Monad.get;
     result \<leftarrow> (if byte cpu then do {
        m \<leftarrow> interp816_read low;
        cpu \<leftarrow> State_Monad.get;
        let result = (uint (reg cpu) AND 0xff) + uint (m XOR 0xff) + 1;
        modify (\<lambda>cpu. cpu\<lparr>cpu_c := (result > 0xff)\<rparr>);
        State_Monad.return result
      } else do {
        cyclesUsed_add 1;
        m \<leftarrow> interp816_readWord low high;
        cpu \<leftarrow> State_Monad.get;
        let result = uint (reg cpu) + uint (m XOR 0xffff) + 1;
        modify (\<lambda>cpu. cpu\<lparr>cpu_c := (result > 0xffff)\<rparr>);
        State_Monad.return result
      });
     modify (\<lambda>cpu. interp816_setZN (word_of_int result) (byte cpu) cpu)
   }"

definition interp816_cmp :: "u32 \<Rightarrow> u32 \<Rightarrow> ('m, unit) cpuM" where
  "interp816_cmp = compare_op cpu_a cpu_mf"

definition interp816_cpx :: "u32 \<Rightarrow> u32 \<Rightarrow> ('m, unit) cpuM" where
  "interp816_cpx = compare_op cpu_x cpu_xf"

definition interp816_cpy :: "u32 \<Rightarrow> u32 \<Rightarrow> ('m, unit) cpuM" where
  "interp816_cpy = compare_op cpu_y cpu_xf"

definition interp816_bit :: "u32 \<Rightarrow> u32 \<Rightarrow> ('m, unit) cpuM" where
  "interp816_bit low high = do {
     cpu \<leftarrow> State_Monad.get;
     (if cpu_mf cpu then do {
        value \<leftarrow> interp816_read low;
        modify (\<lambda>cpu. cpu\<lparr>cpu_z := (lo8 (cpu_a cpu) AND value = 0), cpu_n := tst value 0x80,
          cpu_v := tst value 0x40\<rparr>)
      } else do {
        cyclesUsed_add 1;
        value \<leftarrow> interp816_readWord low high;
        modify (\<lambda>cpu. cpu\<lparr>cpu_z := (cpu_a cpu AND value = 0), cpu_n := tst value 0x8000,
          cpu_v := tst value 0x4000\<rparr>)
      })
   }"

section \<open>Loads and stores\<close>

definition interp816_lda :: "u32 \<Rightarrow> u32 \<Rightarrow> ('m, unit) cpuM" where
  "interp816_lda low high = do {
     cpu \<leftarrow> State_Monad.get;
     (if cpu_mf cpu then do {
        value \<leftarrow> interp816_read low;
        modify (\<lambda>cpu. cpu\<lparr>cpu_a := (cpu_a cpu AND 0xff00) OR ucast value\<rparr>)
      } else do {
        cyclesUsed_add 1;
        value \<leftarrow> interp816_readWord low high;
        modify (\<lambda>cpu. cpu\<lparr>cpu_a := value\<rparr>)
      });
     modify (\<lambda>cpu. interp816_setZN (cpu_a cpu) (cpu_mf cpu) cpu)
   }"

definition interp816_ldx :: "u32 \<Rightarrow> u32 \<Rightarrow> ('m, unit) cpuM" where
  "interp816_ldx low high = do {
     cpu \<leftarrow> State_Monad.get;
     (if cpu_xf cpu then do {
        value \<leftarrow> interp816_read low;
        modify (\<lambda>cpu. cpu\<lparr>cpu_x := ucast value\<rparr>)
      } else do {
        cyclesUsed_add 1;
        value \<leftarrow> interp816_readWord low high;
        modify (\<lambda>cpu. cpu\<lparr>cpu_x := value\<rparr>)
      });
     modify (\<lambda>cpu. interp816_setZN (cpu_x cpu) (cpu_xf cpu) cpu)
   }"

definition interp816_ldy :: "u32 \<Rightarrow> u32 \<Rightarrow> ('m, unit) cpuM" where
  "interp816_ldy low high = do {
     cpu \<leftarrow> State_Monad.get;
     (if cpu_xf cpu then do {
        value \<leftarrow> interp816_read low;
        modify (\<lambda>cpu. cpu\<lparr>cpu_y := ucast value\<rparr>)
      } else do {
        cyclesUsed_add 1;
        value \<leftarrow> interp816_readWord low high;
        modify (\<lambda>cpu. cpu\<lparr>cpu_y := value\<rparr>)
      });
     modify (\<lambda>cpu. interp816_setZN (cpu_y cpu) (cpu_xf cpu) cpu)
   }"

definition store_op ::
  "('m interp816 \<Rightarrow> u16) \<Rightarrow> ('m interp816 \<Rightarrow> bool) \<Rightarrow> u32 \<Rightarrow> u32 \<Rightarrow> ('m, unit) cpuM" where
  "store_op reg byte low high = do {
     cpu \<leftarrow> State_Monad.get;
     (if byte cpu then interp816_write low (lo8 (reg cpu))
      else do {
        cyclesUsed_add 1;
        interp816_writeWord low high (reg cpu) False
      })
   }"

definition interp816_sta :: "u32 \<Rightarrow> u32 \<Rightarrow> ('m, unit) cpuM" where
  "interp816_sta = store_op cpu_a cpu_mf"

definition interp816_stx :: "u32 \<Rightarrow> u32 \<Rightarrow> ('m, unit) cpuM" where
  "interp816_stx = store_op cpu_x cpu_xf"

definition interp816_sty :: "u32 \<Rightarrow> u32 \<Rightarrow> ('m, unit) cpuM" where
  "interp816_sty = store_op cpu_y cpu_xf"

definition interp816_stz :: "u32 \<Rightarrow> u32 \<Rightarrow> ('m, unit) cpuM" where
  "interp816_stz = store_op (\<lambda>_. 0) cpu_mf"

section \<open>Read-modify-write operations\<close>

text \<open>
  The shape of the shifts, increments and decrements on memory. \<open>f8\<close> and \<open>f16\<close> give from the
  old carry and the operand the C \<open>int result\<close> and the new carry (\<open>None\<close> where the
  operation leaves it alone). The 16-bit result is written high byte first.
\<close>

definition rmw_op ::
  "(bool \<Rightarrow> u8 \<Rightarrow> int \<times> bool option) \<Rightarrow> (bool \<Rightarrow> u16 \<Rightarrow> int \<times> bool option)
    \<Rightarrow> u32 \<Rightarrow> u32 \<Rightarrow> ('m, unit) cpuM" where
  "rmw_op f8 f16 low high = do {
     cpu \<leftarrow> State_Monad.get;
     (result, carry) \<leftarrow> (if cpu_mf cpu then do {
        value \<leftarrow> interp816_read low;
        let (result, carry) = f8 (cpu_c cpu) value;
        interp816_write low (word_of_int result);
        State_Monad.return (result, carry)
      } else do {
        cyclesUsed_add 2;
        value \<leftarrow> interp816_readWord low high;
        let (result, carry) = f16 (cpu_c cpu) value;
        interp816_writeWord low high (word_of_int result) True;
        State_Monad.return (result, carry)
      });
     modify (\<lambda>cpu. interp816_setZN (word_of_int result) (cpu_mf cpu) cpu);
     modify (\<lambda>cpu. case carry of None \<Rightarrow> cpu | Some c \<Rightarrow> cpu\<lparr>cpu_c := c\<rparr>)
   }"

definition interp816_ror :: "u32 \<Rightarrow> u32 \<Rightarrow> ('m, unit) cpuM" where
  "interp816_ror = rmw_op
     (\<lambda>c v. (uint (drop_bit 1 v) OR push_bit 7 (of_bool c), Some (tst v 1)))
     (\<lambda>c v. (uint (drop_bit 1 v) OR push_bit 15 (of_bool c), Some (tst v 1)))"

definition interp816_rol :: "u32 \<Rightarrow> u32 \<Rightarrow> ('m, unit) cpuM" where
  "interp816_rol = rmw_op
     (\<lambda>c v. let result = push_bit 1 (uint v) OR of_bool c in (result, Some (result AND 0x100 \<noteq> 0)))
     (\<lambda>c v. let result = push_bit 1 (uint v) OR of_bool c in (result, Some (result AND 0x10000 \<noteq> 0)))"

definition interp816_lsr :: "u32 \<Rightarrow> u32 \<Rightarrow> ('m, unit) cpuM" where
  "interp816_lsr = rmw_op
     (\<lambda>c v. (uint (drop_bit 1 v), Some (tst v 1)))
     (\<lambda>c v. (uint (drop_bit 1 v), Some (tst v 1)))"

definition interp816_asl :: "u32 \<Rightarrow> u32 \<Rightarrow> ('m, unit) cpuM" where
  "interp816_asl = rmw_op
     (\<lambda>c v. let result = push_bit 1 (uint v) in (result, Some (result AND 0x100 \<noteq> 0)))
     (\<lambda>c v. let result = push_bit 1 (uint v) in (result, Some (result AND 0x10000 \<noteq> 0)))"

definition interp816_inc :: "u32 \<Rightarrow> u32 \<Rightarrow> ('m, unit) cpuM" where
  "interp816_inc = rmw_op (\<lambda>c v. (uint v + 1, None)) (\<lambda>c v. (uint v + 1, None))"

definition interp816_dec :: "u32 \<Rightarrow> u32 \<Rightarrow> ('m, unit) cpuM" where
  "interp816_dec = rmw_op (\<lambda>c v. (uint v - 1, None)) (\<lambda>c v. (uint v - 1, None))"

definition interp816_tsb :: "u32 \<Rightarrow> u32 \<Rightarrow> ('m, unit) cpuM" where
  "interp816_tsb low high = do {
     cpu \<leftarrow> State_Monad.get;
     (if cpu_mf cpu then do {
        value \<leftarrow> interp816_read low;
        modify (\<lambda>cpu. cpu\<lparr>cpu_z := (lo8 (cpu_a cpu) AND value = 0)\<rparr>);
        interp816_write low (value OR lo8 (cpu_a cpu))
      } else do {
        cyclesUsed_add 2;
        value \<leftarrow> interp816_readWord low high;
        modify (\<lambda>cpu. cpu\<lparr>cpu_z := (cpu_a cpu AND value = 0)\<rparr>);
        interp816_writeWord low high (value OR cpu_a cpu) True
      })
   }"

definition interp816_trb :: "u32 \<Rightarrow> u32 \<Rightarrow> ('m, unit) cpuM" where
  "interp816_trb low high = do {
     cpu \<leftarrow> State_Monad.get;
     (if cpu_mf cpu then do {
        value \<leftarrow> interp816_read low;
        modify (\<lambda>cpu. cpu\<lparr>cpu_z := (lo8 (cpu_a cpu) AND value = 0)\<rparr>);
        interp816_write low (value AND NOT (lo8 (cpu_a cpu)))
      } else do {
        cyclesUsed_add 2;
        value \<leftarrow> interp816_readWord low high;
        modify (\<lambda>cpu. cpu\<lparr>cpu_z := (cpu_a cpu AND value = 0)\<rparr>);
        interp816_writeWord low high (value AND NOT (cpu_a cpu)) True
      })
   }"

end
