(* ===== verification/Interp816_Opcodes.thy ===== *)
theory Interp816_Opcodes
  imports Interp816_Ops
begin

text \<open>
  Instruction execution of the 65816 interpreter: the opcodes with code of their own in the
  switch of \<open>interp816_doOpcode\<close> (definitions \<open>op_\<dots>\<close>), the switch itself as a jump table of
  sixteen rows, the BRK seam to \<open>interp816_opcode_hook\<close> with its \<open>goto restart\<close>, and
  \<open>interp816_runOpcode\<close>.
\<close>

section \<open>Opcodes written out in the switch\<close>

text \<open>An opcode of the form \<open>high = mode(&low); operation(low, high)\<close>.\<close>

definition with_mode ::
  "('m, u32 \<times> u32) cpuM \<Rightarrow> (u32 \<Rightarrow> u32 \<Rightarrow> ('m, unit) cpuM) \<Rightarrow> ('m, unit) cpuM" where
  "with_mode mode operation = do { (low, high) \<leftarrow> mode; operation low high }"

definition op_branch :: "('m interp816 \<Rightarrow> bool) \<Rightarrow> ('m, unit) cpuM" where
  "op_branch check = do {
     value \<leftarrow> interp816_readOpcode;
     cpu \<leftarrow> State_Monad.get;
     interp816_doBranch value (check cpu)
   }"

subsection \<open>Flag instructions\<close>

definition op_clc :: "('m, unit) cpuM" where "op_clc = modify (\<lambda>cpu. cpu\<lparr>cpu_c := False\<rparr>)"
definition op_sec :: "('m, unit) cpuM" where "op_sec = modify (\<lambda>cpu. cpu\<lparr>cpu_c := True\<rparr>)"
definition op_cli :: "('m, unit) cpuM" where "op_cli = modify (\<lambda>cpu. cpu\<lparr>cpu_i := False\<rparr>)"
definition op_sei :: "('m, unit) cpuM" where "op_sei = modify (\<lambda>cpu. cpu\<lparr>cpu_i := True\<rparr>)"
definition op_clv :: "('m, unit) cpuM" where "op_clv = modify (\<lambda>cpu. cpu\<lparr>cpu_v := False\<rparr>)"
definition op_cld :: "('m, unit) cpuM" where "op_cld = modify (\<lambda>cpu. cpu\<lparr>cpu_d := False\<rparr>)"
definition op_sed :: "('m, unit) cpuM" where "op_sed = modify (\<lambda>cpu. cpu\<lparr>cpu_d := True\<rparr>)"
definition op_nop :: "('m, unit) cpuM" where "op_nop = State_Monad.return ()"
definition op_wai :: "('m, unit) cpuM" where "op_wai = modify (\<lambda>cpu. cpu\<lparr>cpu_waiting := True\<rparr>)"
definition op_stp :: "('m, unit) cpuM" where "op_stp = modify (\<lambda>cpu. cpu\<lparr>cpu_stopped := True\<rparr>)"

definition op_rep :: "('m, unit) cpuM" where
  "op_rep = do {
     value \<leftarrow> interp816_readOpcode;
     modify (\<lambda>cpu. interp816_setFlags (interp816_getFlags cpu AND NOT value) cpu)
   }"

definition op_sep :: "('m, unit) cpuM" where
  "op_sep = do {
     value \<leftarrow> interp816_readOpcode;
     modify (\<lambda>cpu. interp816_setFlags (interp816_getFlags cpu OR value) cpu)
   }"

definition op_xce :: "('m, unit) cpuM" where
  "op_xce = do {
     modify (\<lambda>cpu. cpu\<lparr>cpu_c := cpu_e cpu, cpu_e := cpu_c cpu\<rparr>);
     modify (\<lambda>cpu. interp816_setFlags (interp816_getFlags cpu) cpu)
   }"

definition op_wdm :: "('m, unit) cpuM" where
  "op_wdm = do { _ \<leftarrow> interp816_readOpcode; State_Monad.return () }"

subsection \<open>Accumulator operations\<close>

definition setZN_a :: "('m, unit) cpuM" where
  "setZN_a = modify (\<lambda>cpu. interp816_setZN (cpu_a cpu) (cpu_mf cpu) cpu)"

definition op_asla :: "('m, unit) cpuM" where
  "op_asla = do {
     modify (\<lambda>cpu. if cpu_mf cpu
       then cpu\<lparr>cpu_c := tst (cpu_a cpu) 0x80,
                cpu_a := (cpu_a cpu AND 0xff00) OR (push_bit 1 (cpu_a cpu) AND 0xff)\<rparr>
       else cpu\<lparr>cpu_c := tst (cpu_a cpu) 0x8000, cpu_a := push_bit 1 (cpu_a cpu)\<rparr>);
     setZN_a
   }"

definition op_inca :: "('m, unit) cpuM" where
  "op_inca = do {
     modify (\<lambda>cpu. if cpu_mf cpu
       then cpu\<lparr>cpu_a := (cpu_a cpu AND 0xff00) OR ((cpu_a cpu + 1) AND 0xff)\<rparr>
       else cpu\<lparr>cpu_a := cpu_a cpu + 1\<rparr>);
     setZN_a
   }"

definition op_deca :: "('m, unit) cpuM" where
  "op_deca = do {
     modify (\<lambda>cpu. if cpu_mf cpu
       then cpu\<lparr>cpu_a := (cpu_a cpu AND 0xff00) OR ((cpu_a cpu - 1) AND 0xff)\<rparr>
       else cpu\<lparr>cpu_a := cpu_a cpu - 1\<rparr>);
     setZN_a
   }"

definition op_rola :: "('m, unit) cpuM" where
  "op_rola = do {
     modify (\<lambda>cpu. let result = push_bit 1 (ucast (cpu_a cpu)) OR of_bool (cpu_c cpu) :: u32 in
       if cpu_mf cpu
       then cpu\<lparr>cpu_c := tst result 0x100,
                cpu_a := (cpu_a cpu AND 0xff00) OR ucast (result AND 0xff)\<rparr>
       else cpu\<lparr>cpu_c := tst result 0x10000, cpu_a := ucast result\<rparr>);
     setZN_a
   }"

definition op_lsra :: "('m, unit) cpuM" where
  "op_lsra = do {
     modify (\<lambda>cpu. let cpu1 = cpu\<lparr>cpu_c := tst (cpu_a cpu) 1\<rparr> in
       if cpu_mf cpu1
       then cpu1\<lparr>cpu_a := (cpu_a cpu AND 0xff00) OR (drop_bit 1 (cpu_a cpu) AND 0x7f)\<rparr>
       else cpu1\<lparr>cpu_a := drop_bit 1 (cpu_a cpu)\<rparr>);
     setZN_a
   }"

definition op_rora :: "('m, unit) cpuM" where
  "op_rora = do {
     modify (\<lambda>cpu. (if cpu_mf cpu
       then cpu\<lparr>cpu_a := (cpu_a cpu AND 0xff00) OR (drop_bit 1 (cpu_a cpu) AND 0x7f)
                         OR push_bit 7 (of_bool (cpu_c cpu))\<rparr>
       else cpu\<lparr>cpu_a := drop_bit 1 (cpu_a cpu) OR push_bit 15 (of_bool (cpu_c cpu))\<rparr>)
       \<lparr>cpu_c := tst (cpu_a cpu) 1\<rparr>);
     setZN_a
   }"

definition op_biti :: "('m, unit) cpuM" where
  "op_biti = do {
     cpu \<leftarrow> State_Monad.get;
     (if cpu_mf cpu then do {
        value \<leftarrow> interp816_readOpcode;
        modify (\<lambda>cpu. cpu\<lparr>cpu_z := (lo8 (cpu_a cpu) AND value = 0)\<rparr>)
      } else do {
        cyclesUsed_add 1;
        value \<leftarrow> interp816_readOpcodeWord;
        modify (\<lambda>cpu. cpu\<lparr>cpu_z := (cpu_a cpu AND value = 0)\<rparr>)
      })
   }"

definition op_xba :: "('m, unit) cpuM" where
  "op_xba = modify (\<lambda>cpu.
     interp816_setZN (ucast (hi8 (cpu_a cpu))) True
       (cpu\<lparr>cpu_a := word16 (hi8 (cpu_a cpu)) (lo8 (cpu_a cpu))\<rparr>))"

subsection \<open>Index registers and transfers\<close>

text \<open>The value a transfer or step leaves in an index register of the current width.\<close>

definition index_val :: "'m interp816 \<Rightarrow> u16 \<Rightarrow> u16" where
  "index_val cpu v = (if cpu_xf cpu then v AND 0xff else v)"

definition set_x :: "('m interp816 \<Rightarrow> u16) \<Rightarrow> ('m, unit) cpuM" where
  "set_x f = do {
     modify (\<lambda>cpu. cpu\<lparr>cpu_x := index_val cpu (f cpu)\<rparr>);
     modify (\<lambda>cpu. interp816_setZN (cpu_x cpu) (cpu_xf cpu) cpu)
   }"

definition set_y :: "('m interp816 \<Rightarrow> u16) \<Rightarrow> ('m, unit) cpuM" where
  "set_y f = do {
     modify (\<lambda>cpu. cpu\<lparr>cpu_y := index_val cpu (f cpu)\<rparr>);
     modify (\<lambda>cpu. interp816_setZN (cpu_y cpu) (cpu_xf cpu) cpu)
   }"

definition op_dex :: "('m, unit) cpuM" where "op_dex = set_x (\<lambda>cpu. cpu_x cpu - 1)"
definition op_inx :: "('m, unit) cpuM" where "op_inx = set_x (\<lambda>cpu. cpu_x cpu + 1)"
definition op_dey :: "('m, unit) cpuM" where "op_dey = set_y (\<lambda>cpu. cpu_y cpu - 1)"
definition op_iny :: "('m, unit) cpuM" where "op_iny = set_y (\<lambda>cpu. cpu_y cpu + 1)"
definition op_tax :: "('m, unit) cpuM" where "op_tax = set_x cpu_a"
definition op_tay :: "('m, unit) cpuM" where "op_tay = set_y cpu_a"
definition op_tsx :: "('m, unit) cpuM" where "op_tsx = set_x cpu_sp"
definition op_tyx :: "('m, unit) cpuM" where "op_tyx = set_x cpu_y"
definition op_txy :: "('m, unit) cpuM" where "op_txy = set_y cpu_x"

definition set_a :: "('m interp816 \<Rightarrow> u16) \<Rightarrow> ('m, unit) cpuM" where
  "set_a f = do {
     modify (\<lambda>cpu. if cpu_mf cpu
       then cpu\<lparr>cpu_a := (cpu_a cpu AND 0xff00) OR (f cpu AND 0xff)\<rparr>
       else cpu\<lparr>cpu_a := f cpu\<rparr>);
     setZN_a
   }"

definition op_txa :: "('m, unit) cpuM" where "op_txa = set_a cpu_x"
definition op_tya :: "('m, unit) cpuM" where "op_tya = set_a cpu_y"
definition op_tcs :: "('m, unit) cpuM" where "op_tcs = modify (\<lambda>cpu. cpu\<lparr>cpu_sp := cpu_a cpu\<rparr>)"
definition op_txs :: "('m, unit) cpuM" where "op_txs = modify (\<lambda>cpu. cpu\<lparr>cpu_sp := cpu_x cpu\<rparr>)"

definition op_tsc :: "('m, unit) cpuM" where
  "op_tsc = modify (\<lambda>cpu. interp816_setZN (cpu_sp cpu) False (cpu\<lparr>cpu_a := cpu_sp cpu\<rparr>))"

definition op_tcd :: "('m, unit) cpuM" where
  "op_tcd = modify (\<lambda>cpu. interp816_setZN (cpu_a cpu) False (cpu\<lparr>cpu_dp := cpu_a cpu\<rparr>))"

definition op_tdc :: "('m, unit) cpuM" where
  "op_tdc = modify (\<lambda>cpu. interp816_setZN (cpu_dp cpu) False (cpu\<lparr>cpu_a := cpu_dp cpu\<rparr>))"

subsection \<open>Stack instructions\<close>

definition op_php :: "('m, unit) cpuM" where
  "op_php = do { flags \<leftarrow> gets interp816_getFlags; interp816_pushByte flags }"

definition op_plp :: "('m, unit) cpuM" where
  "op_plp = do { value \<leftarrow> interp816_pullByte; modify (interp816_setFlags value) }"

definition op_phd :: "('m, unit) cpuM" where
  "op_phd = do { dp \<leftarrow> gets cpu_dp; interp816_pushWord dp }"

definition op_pld :: "('m, unit) cpuM" where
  "op_pld = do {
     value \<leftarrow> interp816_pullWord;
     modify (\<lambda>cpu. interp816_setZN value False (cpu\<lparr>cpu_dp := value\<rparr>))
   }"

definition op_phk :: "('m, unit) cpuM" where
  "op_phk = do { k \<leftarrow> gets cpu_k; interp816_pushByte k }"

definition op_phb :: "('m, unit) cpuM" where
  "op_phb = do { db \<leftarrow> gets cpu_db; interp816_pushByte db }"

definition op_plb :: "('m, unit) cpuM" where
  "op_plb = do {
     value \<leftarrow> interp816_pullByte;
     modify (\<lambda>cpu. interp816_setZN (ucast value) True (cpu\<lparr>cpu_db := value\<rparr>))
   }"

definition push_reg :: "('m interp816 \<Rightarrow> u16) \<Rightarrow> ('m interp816 \<Rightarrow> bool) \<Rightarrow> ('m, unit) cpuM" where
  "push_reg reg byte = do {
     cpu \<leftarrow> State_Monad.get;
     (if byte cpu then interp816_pushByte (lo8 (reg cpu))
      else do { cyclesUsed_add 1; interp816_pushWord (reg cpu) })
   }"

definition op_pha :: "('m, unit) cpuM" where "op_pha = push_reg cpu_a cpu_mf"
definition op_phx :: "('m, unit) cpuM" where "op_phx = push_reg cpu_x cpu_xf"
definition op_phy :: "('m, unit) cpuM" where "op_phy = push_reg cpu_y cpu_xf"

definition op_pla :: "('m, unit) cpuM" where
  "op_pla = do {
     cpu \<leftarrow> State_Monad.get;
     (if cpu_mf cpu then do {
        value \<leftarrow> interp816_pullByte;
        modify (\<lambda>cpu. cpu\<lparr>cpu_a := (cpu_a cpu AND 0xff00) OR ucast value\<rparr>)
      } else do {
        cyclesUsed_add 1;
        value \<leftarrow> interp816_pullWord;
        modify (\<lambda>cpu. cpu\<lparr>cpu_a := value\<rparr>)
      });
     setZN_a
   }"

definition op_plx :: "('m, unit) cpuM" where
  "op_plx = do {
     cpu \<leftarrow> State_Monad.get;
     (if cpu_xf cpu then do {
        value \<leftarrow> interp816_pullByte;
        modify (\<lambda>cpu. cpu\<lparr>cpu_x := ucast value\<rparr>)
      } else do {
        cyclesUsed_add 1;
        value \<leftarrow> interp816_pullWord;
        modify (\<lambda>cpu. cpu\<lparr>cpu_x := value\<rparr>)
      });
     modify (\<lambda>cpu. interp816_setZN (cpu_x cpu) (cpu_xf cpu) cpu)
   }"

definition op_ply :: "('m, unit) cpuM" where
  "op_ply = do {
     cpu \<leftarrow> State_Monad.get;
     (if cpu_xf cpu then do {
        value \<leftarrow> interp816_pullByte;
        modify (\<lambda>cpu. cpu\<lparr>cpu_y := ucast value\<rparr>)
      } else do {
        cyclesUsed_add 1;
        value \<leftarrow> interp816_pullWord;
        modify (\<lambda>cpu. cpu\<lparr>cpu_y := value\<rparr>)
      });
     modify (\<lambda>cpu. interp816_setZN (cpu_y cpu) (cpu_xf cpu) cpu)
   }"

definition op_pea :: "('m, unit) cpuM" where
  "op_pea = do {
     w \<leftarrow> interp816_readOpcodeWord;
     modify (\<lambda>cpu. if w = 0xC2AE then cpu\<lparr>cpu_y := 0\<rparr> else cpu);
     interp816_pushWord w
   }"

definition op_pei :: "('m, unit) cpuM" where
  "op_pei = with_mode interp816_adrDp (\<lambda>low high. do {
     value \<leftarrow> interp816_readWord low high;
     interp816_pushWord value
   })"

definition op_per :: "('m, unit) cpuM" where
  "op_per = do {
     value \<leftarrow> interp816_readOpcodeWord;
     pc \<leftarrow> gets cpu_pc;
     interp816_pushWord (pc + value)
   }"

subsection \<open>Jumps, calls and returns\<close>

definition set_pc :: "u16 \<Rightarrow> ('m, unit) cpuM" where
  "set_pc v = modify (\<lambda>cpu. cpu\<lparr>cpu_pc := v\<rparr>)"

definition set_k :: "u8 \<Rightarrow> ('m, unit) cpuM" where
  "set_k v = modify (\<lambda>cpu. cpu\<lparr>cpu_k := v\<rparr>)"

definition op_bra :: "('m, unit) cpuM" where
  "op_bra = do {
     value \<leftarrow> interp816_readOpcode;
     modify (\<lambda>cpu. cpu\<lparr>cpu_pc := cpu_pc cpu + scast value\<rparr>)
   }"

definition op_brl :: "('m, unit) cpuM" where
  "op_brl = do {
     value \<leftarrow> interp816_readOpcodeWord;
     modify (\<lambda>cpu. cpu\<lparr>cpu_pc := cpu_pc cpu + value\<rparr>)
   }"

definition op_jmp_abs :: "('m, unit) cpuM" where
  "op_jmp_abs = do { value \<leftarrow> interp816_readOpcodeWord; set_pc value }"

definition op_jmp_ind :: "('m, unit) cpuM" where
  "op_jmp_ind = do {
     adr \<leftarrow> interp816_readOpcodeWord;
     value \<leftarrow> interp816_readWord (ucast adr) (ucast (adr + 1));
     set_pc value
   }"

definition op_jmp_iax :: "('m, unit) cpuM" where
  "op_jmp_iax = do { value \<leftarrow> interp816_adrIax; set_pc value }"

definition op_jml_abl :: "('m, unit) cpuM" where
  "op_jml_abl = do {
     value \<leftarrow> interp816_readOpcodeWord;
     new_k \<leftarrow> interp816_readOpcode;
     set_k (new_k AND 0x7f);
     set_pc value
   }"

definition op_jml_ial :: "('m, unit) cpuM" where
  "op_jml_ial = do {
     adr \<leftarrow> interp816_readOpcodeWord;
     value \<leftarrow> interp816_readWord (ucast adr) (ucast (adr + 1));
     set_pc value;
     bank \<leftarrow> interp816_read (ucast (adr + 2));
     set_k (bank AND 0x7f)
   }"

definition op_jsr_abs :: "('m, unit) cpuM" where
  "op_jsr_abs = do {
     value \<leftarrow> interp816_readOpcodeWord;
     pc \<leftarrow> gets cpu_pc;
     interp816_pushWord (pc - 1);
     set_pc value
   }"

definition op_jsr_iax :: "('m, unit) cpuM" where
  "op_jsr_iax = do {
     value \<leftarrow> interp816_adrIax;
     pc \<leftarrow> gets cpu_pc;
     interp816_pushWord (pc - 1);
     set_pc value
   }"

definition op_jsl :: "('m, unit) cpuM" where
  "op_jsl = do {
     value \<leftarrow> interp816_readOpcodeWord;
     newK \<leftarrow> interp816_readOpcode;
     k \<leftarrow> gets cpu_k;
     interp816_pushByte k;
     pc \<leftarrow> gets cpu_pc;
     interp816_pushWord (pc - 1);
     set_pc value;
     set_k (newK AND 0x7f)
   }"

definition op_rts :: "('m, unit) cpuM" where
  "op_rts = do { value \<leftarrow> interp816_pullWord; set_pc (value + 1) }"

definition op_rtl :: "('m, unit) cpuM" where
  "op_rtl = do {
     value \<leftarrow> interp816_pullWord;
     set_pc (value + 1);
     bank \<leftarrow> interp816_pullByte;
     set_k (bank AND 0x7f)
   }"

definition op_rti :: "('m, unit) cpuM" where
  "op_rti = do {
     flags \<leftarrow> interp816_pullByte;
     modify (interp816_setFlags flags);
     cyclesUsed_add 1;
     value \<leftarrow> interp816_pullWord;
     set_pc value;
     bank \<leftarrow> interp816_pullByte;
     set_k bank
   }"

definition op_cop :: "('m, unit) cpuM" where
  "op_cop = do {
     _ \<leftarrow> interp816_readOpcode;
     k \<leftarrow> gets cpu_k;
     interp816_pushByte k;
     pc \<leftarrow> gets cpu_pc;
     interp816_pushWord pc;
     flags \<leftarrow> gets interp816_getFlags;
     interp816_pushByte flags;
     cyclesUsed_add 1;
     modify (\<lambda>cpu. cpu\<lparr>cpu_i := True, cpu_d := False, cpu_k := 0\<rparr>);
     value \<leftarrow> interp816_readWord 0xffe4 0xffe5;
     set_pc value
   }"

subsection \<open>Block moves\<close>

text \<open>One byte of a block move; \<open>delta\<close> is the step of both index registers.\<close>

definition block_move :: "u16 \<Rightarrow> ('m, unit) cpuM" where
  "block_move delta = do {
     dest \<leftarrow> interp816_readOpcode;
     src \<leftarrow> interp816_readOpcode;
     modify (\<lambda>cpu. cpu\<lparr>cpu_db := dest\<rparr>);
     cpu \<leftarrow> State_Monad.get;
     value \<leftarrow> interp816_read (adr24 src (cpu_x cpu));
     interp816_write (adr24 dest (cpu_y cpu)) value;
     modify (\<lambda>cpu. cpu\<lparr>cpu_a := cpu_a cpu - 1, cpu_x := cpu_x cpu + delta, cpu_y := cpu_y cpu + delta\<rparr>);
     modify (\<lambda>cpu. if cpu_a cpu \<noteq> 0xffff then cpu\<lparr>cpu_pc := cpu_pc cpu - 3\<rparr> else cpu);
     modify (\<lambda>cpu. if cpu_xf cpu
       then cpu\<lparr>cpu_x := cpu_x cpu AND 0xff, cpu_y := cpu_y cpu AND 0xff\<rparr> else cpu)
   }"

definition op_mvp :: "('m, unit) cpuM" where "op_mvp = block_move (- 1)"
definition op_mvn :: "('m, unit) cpuM" where "op_mvn = block_move 1"

section \<open>The switch\<close>

definition doOpcode_0x :: "('m, unit) cpuM \<Rightarrow> ('m, unit) cpuM list" where
  "doOpcode_0x brk = [
     \<comment> \<open>00 brk imp\<close> brk,
     \<comment> \<open>01 ora idx\<close> with_mode interp816_adrIdx interp816_ora,
     \<comment> \<open>02 cop imm(s)\<close> op_cop,
     \<comment> \<open>03 ora sr\<close> with_mode interp816_adrSr interp816_ora,
     \<comment> \<open>04 tsb dp\<close> with_mode interp816_adrDp interp816_tsb,
     \<comment> \<open>05 ora dp\<close> with_mode interp816_adrDp interp816_ora,
     \<comment> \<open>06 asl dp\<close> with_mode interp816_adrDp interp816_asl,
     \<comment> \<open>07 ora idl\<close> with_mode interp816_adrIdl interp816_ora,
     \<comment> \<open>08 php imp\<close> op_php,
     \<comment> \<open>09 ora imm(m)\<close> with_mode (interp816_adrImm False) interp816_ora,
     \<comment> \<open>0a asla imp\<close> op_asla,
     \<comment> \<open>0b phd imp\<close> op_phd,
     \<comment> \<open>0c tsb abs\<close> with_mode interp816_adrAbs interp816_tsb,
     \<comment> \<open>0d ora abs\<close> with_mode interp816_adrAbs interp816_ora,
     \<comment> \<open>0e asl abs\<close> with_mode interp816_adrAbs interp816_asl,
     \<comment> \<open>0f ora abl\<close> with_mode interp816_adrAbl interp816_ora]"

definition doOpcode_1x :: "('m, unit) cpuM list" where
  "doOpcode_1x = [
     \<comment> \<open>10 bpl rel\<close> op_branch (\<lambda>cpu. \<not> cpu_n cpu),
     \<comment> \<open>11 ora idy(r)\<close> with_mode (interp816_adrIdy False) interp816_ora,
     \<comment> \<open>12 ora idp\<close> with_mode interp816_adrIdp interp816_ora,
     \<comment> \<open>13 ora isy\<close> with_mode interp816_adrIsy interp816_ora,
     \<comment> \<open>14 trb dp\<close> with_mode interp816_adrDp interp816_trb,
     \<comment> \<open>15 ora dpx\<close> with_mode interp816_adrDpx interp816_ora,
     \<comment> \<open>16 asl dpx\<close> with_mode interp816_adrDpx interp816_asl,
     \<comment> \<open>17 ora ily\<close> with_mode interp816_adrIly interp816_ora,
     \<comment> \<open>18 clc imp\<close> op_clc,
     \<comment> \<open>19 ora aby(r)\<close> with_mode (interp816_adrAby False) interp816_ora,
     \<comment> \<open>1a inca imp\<close> op_inca,
     \<comment> \<open>1b tcs imp\<close> op_tcs,
     \<comment> \<open>1c trb abs\<close> with_mode interp816_adrAbs interp816_trb,
     \<comment> \<open>1d ora abx(r)\<close> with_mode (interp816_adrAbx False) interp816_ora,
     \<comment> \<open>1e asl abx\<close> with_mode (interp816_adrAbx True) interp816_asl,
     \<comment> \<open>1f ora alx\<close> with_mode interp816_adrAlx interp816_ora]"

definition doOpcode_2x :: "('m, unit) cpuM list" where
  "doOpcode_2x = [
     \<comment> \<open>20 jsr abs\<close> op_jsr_abs,
     \<comment> \<open>21 and idx\<close> with_mode interp816_adrIdx interp816_and,
     \<comment> \<open>22 jsl abl\<close> op_jsl,
     \<comment> \<open>23 and sr\<close> with_mode interp816_adrSr interp816_and,
     \<comment> \<open>24 bit dp\<close> with_mode interp816_adrDp interp816_bit,
     \<comment> \<open>25 and dp\<close> with_mode interp816_adrDp interp816_and,
     \<comment> \<open>26 rol dp\<close> with_mode interp816_adrDp interp816_rol,
     \<comment> \<open>27 and idl\<close> with_mode interp816_adrIdl interp816_and,
     \<comment> \<open>28 plp imp\<close> op_plp,
     \<comment> \<open>29 and imm(m)\<close> with_mode (interp816_adrImm False) interp816_and,
     \<comment> \<open>2a rola imp\<close> op_rola,
     \<comment> \<open>2b pld imp\<close> op_pld,
     \<comment> \<open>2c bit abs\<close> with_mode interp816_adrAbs interp816_bit,
     \<comment> \<open>2d and abs\<close> with_mode interp816_adrAbs interp816_and,
     \<comment> \<open>2e rol abs\<close> with_mode interp816_adrAbs interp816_rol,
     \<comment> \<open>2f and abl\<close> with_mode interp816_adrAbl interp816_and]"

definition doOpcode_3x :: "('m, unit) cpuM list" where
  "doOpcode_3x = [
     \<comment> \<open>30 bmi rel\<close> op_branch cpu_n,
     \<comment> \<open>31 and idy(r)\<close> with_mode (interp816_adrIdy False) interp816_and,
     \<comment> \<open>32 and idp\<close> with_mode interp816_adrIdp interp816_and,
     \<comment> \<open>33 and isy\<close> with_mode interp816_adrIsy interp816_and,
     \<comment> \<open>34 bit dpx\<close> with_mode interp816_adrDpx interp816_bit,
     \<comment> \<open>35 and dpx\<close> with_mode interp816_adrDpx interp816_and,
     \<comment> \<open>36 rol dpx\<close> with_mode interp816_adrDpx interp816_rol,
     \<comment> \<open>37 and ily\<close> with_mode interp816_adrIly interp816_and,
     \<comment> \<open>38 sec imp\<close> op_sec,
     \<comment> \<open>39 and aby(r)\<close> with_mode (interp816_adrAby False) interp816_and,
     \<comment> \<open>3a deca imp\<close> op_deca,
     \<comment> \<open>3b tsc imp\<close> op_tsc,
     \<comment> \<open>3c bit abx(r)\<close> with_mode (interp816_adrAbx False) interp816_bit,
     \<comment> \<open>3d and abx(r)\<close> with_mode (interp816_adrAbx False) interp816_and,
     \<comment> \<open>3e rol abx\<close> with_mode (interp816_adrAbx True) interp816_rol,
     \<comment> \<open>3f and alx\<close> with_mode interp816_adrAlx interp816_and]"

definition doOpcode_4x :: "('m, unit) cpuM list" where
  "doOpcode_4x = [
     \<comment> \<open>40 rti imp\<close> op_rti,
     \<comment> \<open>41 eor idx\<close> with_mode interp816_adrIdx interp816_eor,
     \<comment> \<open>42 wdm imm(s)\<close> op_wdm,
     \<comment> \<open>43 eor sr\<close> with_mode interp816_adrSr interp816_eor,
     \<comment> \<open>44 mvp bm\<close> op_mvp,
     \<comment> \<open>45 eor dp\<close> with_mode interp816_adrDp interp816_eor,
     \<comment> \<open>46 lsr dp\<close> with_mode interp816_adrDp interp816_lsr,
     \<comment> \<open>47 eor idl\<close> with_mode interp816_adrIdl interp816_eor,
     \<comment> \<open>48 pha imp\<close> op_pha,
     \<comment> \<open>49 eor imm(m)\<close> with_mode (interp816_adrImm False) interp816_eor,
     \<comment> \<open>4a lsra imp\<close> op_lsra,
     \<comment> \<open>4b phk imp\<close> op_phk,
     \<comment> \<open>4c jmp abs\<close> op_jmp_abs,
     \<comment> \<open>4d eor abs\<close> with_mode interp816_adrAbs interp816_eor,
     \<comment> \<open>4e lsr abs\<close> with_mode interp816_adrAbs interp816_lsr,
     \<comment> \<open>4f eor abl\<close> with_mode interp816_adrAbl interp816_eor]"

definition doOpcode_5x :: "('m, unit) cpuM list" where
  "doOpcode_5x = [
     \<comment> \<open>50 bvc rel\<close> op_branch (\<lambda>cpu. \<not> cpu_v cpu),
     \<comment> \<open>51 eor idy(r)\<close> with_mode (interp816_adrIdy False) interp816_eor,
     \<comment> \<open>52 eor idp\<close> with_mode interp816_adrIdp interp816_eor,
     \<comment> \<open>53 eor isy\<close> with_mode interp816_adrIsy interp816_eor,
     \<comment> \<open>54 mvn bm\<close> op_mvn,
     \<comment> \<open>55 eor dpx\<close> with_mode interp816_adrDpx interp816_eor,
     \<comment> \<open>56 lsr dpx\<close> with_mode interp816_adrDpx interp816_lsr,
     \<comment> \<open>57 eor ily\<close> with_mode interp816_adrIly interp816_eor,
     \<comment> \<open>58 cli imp\<close> op_cli,
     \<comment> \<open>59 eor aby(r)\<close> with_mode (interp816_adrAby False) interp816_eor,
     \<comment> \<open>5a phy imp\<close> op_phy,
     \<comment> \<open>5b tcd imp\<close> op_tcd,
     \<comment> \<open>5c jml abl\<close> op_jml_abl,
     \<comment> \<open>5d eor abx(r)\<close> with_mode (interp816_adrAbx False) interp816_eor,
     \<comment> \<open>5e lsr abx\<close> with_mode (interp816_adrAbx True) interp816_lsr,
     \<comment> \<open>5f eor alx\<close> with_mode interp816_adrAlx interp816_eor]"

definition doOpcode_6x :: "('m, unit) cpuM list" where
  "doOpcode_6x = [
     \<comment> \<open>60 rts imp\<close> op_rts,
     \<comment> \<open>61 adc idx\<close> with_mode interp816_adrIdx interp816_adc,
     \<comment> \<open>62 per rll\<close> op_per,
     \<comment> \<open>63 adc sr\<close> with_mode interp816_adrSr interp816_adc,
     \<comment> \<open>64 stz dp\<close> with_mode interp816_adrDp interp816_stz,
     \<comment> \<open>65 adc dp\<close> with_mode interp816_adrDp interp816_adc,
     \<comment> \<open>66 ror dp\<close> with_mode interp816_adrDp interp816_ror,
     \<comment> \<open>67 adc idl\<close> with_mode interp816_adrIdl interp816_adc,
     \<comment> \<open>68 pla imp\<close> op_pla,
     \<comment> \<open>69 adc imm(m)\<close> with_mode (interp816_adrImm False) interp816_adc,
     \<comment> \<open>6a rora imp\<close> op_rora,
     \<comment> \<open>6b rtl imp\<close> op_rtl,
     \<comment> \<open>6c jmp ind\<close> op_jmp_ind,
     \<comment> \<open>6d adc abs\<close> with_mode interp816_adrAbs interp816_adc,
     \<comment> \<open>6e ror abs\<close> with_mode interp816_adrAbs interp816_ror,
     \<comment> \<open>6f adc abl\<close> with_mode interp816_adrAbl interp816_adc]"

definition doOpcode_7x :: "('m, unit) cpuM list" where
  "doOpcode_7x = [
     \<comment> \<open>70 bvs rel\<close> op_branch cpu_v,
     \<comment> \<open>71 adc idy(r)\<close> with_mode (interp816_adrIdy False) interp816_adc,
     \<comment> \<open>72 adc idp\<close> with_mode interp816_adrIdp interp816_adc,
     \<comment> \<open>73 adc isy\<close> with_mode interp816_adrIsy interp816_adc,
     \<comment> \<open>74 stz dpx\<close> with_mode interp816_adrDpx interp816_stz,
     \<comment> \<open>75 adc dpx\<close> with_mode interp816_adrDpx interp816_adc,
     \<comment> \<open>76 ror dpx\<close> with_mode interp816_adrDpx interp816_ror,
     \<comment> \<open>77 adc ily\<close> with_mode interp816_adrIly interp816_adc,
     \<comment> \<open>78 sei imp\<close> op_sei,
     \<comment> \<open>79 adc aby(r)\<close> with_mode (interp816_adrAby False) interp816_adc,
     \<comment> \<open>7a ply imp\<close> op_ply,
     \<comment> \<open>7b tdc imp\<close> op_tdc,
     \<comment> \<open>7c jmp iax\<close> op_jmp_iax,
     \<comment> \<open>7d adc abx(r)\<close> with_mode (interp816_adrAbx False) interp816_adc,
     \<comment> \<open>7e ror abx\<close> with_mode (interp816_adrAbx True) interp816_ror,
     \<comment> \<open>7f adc alx\<close> with_mode interp816_adrAlx interp816_adc]"

definition doOpcode_8x :: "('m, unit) cpuM list" where
  "doOpcode_8x = [
     \<comment> \<open>80 bra rel\<close> op_bra,
     \<comment> \<open>81 sta idx\<close> with_mode interp816_adrIdx interp816_sta,
     \<comment> \<open>82 brl rll\<close> op_brl,
     \<comment> \<open>83 sta sr\<close> with_mode interp816_adrSr interp816_sta,
     \<comment> \<open>84 sty dp\<close> with_mode interp816_adrDp interp816_sty,
     \<comment> \<open>85 sta dp\<close> with_mode interp816_adrDp interp816_sta,
     \<comment> \<open>86 stx dp\<close> with_mode interp816_adrDp interp816_stx,
     \<comment> \<open>87 sta idl\<close> with_mode interp816_adrIdl interp816_sta,
     \<comment> \<open>88 dey imp\<close> op_dey,
     \<comment> \<open>89 biti imm(m)\<close> op_biti,
     \<comment> \<open>8a txa imp\<close> op_txa,
     \<comment> \<open>8b phb imp\<close> op_phb,
     \<comment> \<open>8c sty abs\<close> with_mode interp816_adrAbs interp816_sty,
     \<comment> \<open>8d sta abs\<close> with_mode interp816_adrAbs interp816_sta,
     \<comment> \<open>8e stx abs\<close> with_mode interp816_adrAbs interp816_stx,
     \<comment> \<open>8f sta abl\<close> with_mode interp816_adrAbl interp816_sta]"

definition doOpcode_9x :: "('m, unit) cpuM list" where
  "doOpcode_9x = [
     \<comment> \<open>90 bcc rel\<close> op_branch (\<lambda>cpu. \<not> cpu_c cpu),
     \<comment> \<open>91 sta idy\<close> with_mode (interp816_adrIdy True) interp816_sta,
     \<comment> \<open>92 sta idp\<close> with_mode interp816_adrIdp interp816_sta,
     \<comment> \<open>93 sta isy\<close> with_mode interp816_adrIsy interp816_sta,
     \<comment> \<open>94 sty dpx\<close> with_mode interp816_adrDpx interp816_sty,
     \<comment> \<open>95 sta dpx\<close> with_mode interp816_adrDpx interp816_sta,
     \<comment> \<open>96 stx dpy\<close> with_mode interp816_adrDpy interp816_stx,
     \<comment> \<open>97 sta ily\<close> with_mode interp816_adrIly interp816_sta,
     \<comment> \<open>98 tya imp\<close> op_tya,
     \<comment> \<open>99 sta aby\<close> with_mode (interp816_adrAby True) interp816_sta,
     \<comment> \<open>9a txs imp\<close> op_txs,
     \<comment> \<open>9b txy imp\<close> op_txy,
     \<comment> \<open>9c stz abs\<close> with_mode interp816_adrAbs interp816_stz,
     \<comment> \<open>9d sta abx\<close> with_mode (interp816_adrAbx True) interp816_sta,
     \<comment> \<open>9e stz abx\<close> with_mode (interp816_adrAbx True) interp816_stz,
     \<comment> \<open>9f sta alx\<close> with_mode interp816_adrAlx interp816_sta]"

definition doOpcode_ax :: "('m, unit) cpuM list" where
  "doOpcode_ax = [
     \<comment> \<open>a0 ldy imm(x)\<close> with_mode (interp816_adrImm True) interp816_ldy,
     \<comment> \<open>a1 lda idx\<close> with_mode interp816_adrIdx interp816_lda,
     \<comment> \<open>a2 ldx imm(x)\<close> with_mode (interp816_adrImm True) interp816_ldx,
     \<comment> \<open>a3 lda sr\<close> with_mode interp816_adrSr interp816_lda,
     \<comment> \<open>a4 ldy dp\<close> with_mode interp816_adrDp interp816_ldy,
     \<comment> \<open>a5 lda dp\<close> with_mode interp816_adrDp interp816_lda,
     \<comment> \<open>a6 ldx dp\<close> with_mode interp816_adrDp interp816_ldx,
     \<comment> \<open>a7 lda idl\<close> with_mode interp816_adrIdl interp816_lda,
     \<comment> \<open>a8 tay imp\<close> op_tay,
     \<comment> \<open>a9 lda imm(m)\<close> with_mode (interp816_adrImm False) interp816_lda,
     \<comment> \<open>aa tax imp\<close> op_tax,
     \<comment> \<open>ab plb imp\<close> op_plb,
     \<comment> \<open>ac ldy abs\<close> with_mode interp816_adrAbs interp816_ldy,
     \<comment> \<open>ad lda abs\<close> with_mode interp816_adrAbs interp816_lda,
     \<comment> \<open>ae ldx abs\<close> with_mode interp816_adrAbs interp816_ldx,
     \<comment> \<open>af lda abl\<close> with_mode interp816_adrAbl interp816_lda]"

definition doOpcode_bx :: "('m, unit) cpuM list" where
  "doOpcode_bx = [
     \<comment> \<open>b0 bcs rel\<close> op_branch cpu_c,
     \<comment> \<open>b1 lda idy(r)\<close> with_mode (interp816_adrIdy False) interp816_lda,
     \<comment> \<open>b2 lda idp\<close> with_mode interp816_adrIdp interp816_lda,
     \<comment> \<open>b3 lda isy\<close> with_mode interp816_adrIsy interp816_lda,
     \<comment> \<open>b4 ldy dpx\<close> with_mode interp816_adrDpx interp816_ldy,
     \<comment> \<open>b5 lda dpx\<close> with_mode interp816_adrDpx interp816_lda,
     \<comment> \<open>b6 ldx dpy\<close> with_mode interp816_adrDpy interp816_ldx,
     \<comment> \<open>b7 lda ily\<close> with_mode interp816_adrIly interp816_lda,
     \<comment> \<open>b8 clv imp\<close> op_clv,
     \<comment> \<open>b9 lda aby(r)\<close> with_mode (interp816_adrAby False) interp816_lda,
     \<comment> \<open>ba tsx imp\<close> op_tsx,
     \<comment> \<open>bb tyx imp\<close> op_tyx,
     \<comment> \<open>bc ldy abx(r)\<close> with_mode (interp816_adrAbx False) interp816_ldy,
     \<comment> \<open>bd lda abx(r)\<close> with_mode (interp816_adrAbx False) interp816_lda,
     \<comment> \<open>be ldx aby(r)\<close> with_mode (interp816_adrAby False) interp816_ldx,
     \<comment> \<open>bf lda alx\<close> with_mode interp816_adrAlx interp816_lda]"

definition doOpcode_cx :: "('m, unit) cpuM list" where
  "doOpcode_cx = [
     \<comment> \<open>c0 cpy imm(x)\<close> with_mode (interp816_adrImm True) interp816_cpy,
     \<comment> \<open>c1 cmp idx\<close> with_mode interp816_adrIdx interp816_cmp,
     \<comment> \<open>c2 rep imm(s)\<close> op_rep,
     \<comment> \<open>c3 cmp sr\<close> with_mode interp816_adrSr interp816_cmp,
     \<comment> \<open>c4 cpy dp\<close> with_mode interp816_adrDp interp816_cpy,
     \<comment> \<open>c5 cmp dp\<close> with_mode interp816_adrDp interp816_cmp,
     \<comment> \<open>c6 dec dp\<close> with_mode interp816_adrDp interp816_dec,
     \<comment> \<open>c7 cmp idl\<close> with_mode interp816_adrIdl interp816_cmp,
     \<comment> \<open>c8 iny imp\<close> op_iny,
     \<comment> \<open>c9 cmp imm(m)\<close> with_mode (interp816_adrImm False) interp816_cmp,
     \<comment> \<open>ca dex imp\<close> op_dex,
     \<comment> \<open>cb wai imp\<close> op_wai,
     \<comment> \<open>cc cpy abs\<close> with_mode interp816_adrAbs interp816_cpy,
     \<comment> \<open>cd cmp abs\<close> with_mode interp816_adrAbs interp816_cmp,
     \<comment> \<open>ce dec abs\<close> with_mode interp816_adrAbs interp816_dec,
     \<comment> \<open>cf cmp abl\<close> with_mode interp816_adrAbl interp816_cmp]"

definition doOpcode_dx :: "('m, unit) cpuM list" where
  "doOpcode_dx = [
     \<comment> \<open>d0 bne rel\<close> op_branch (\<lambda>cpu. \<not> cpu_z cpu),
     \<comment> \<open>d1 cmp idy(r)\<close> with_mode (interp816_adrIdy False) interp816_cmp,
     \<comment> \<open>d2 cmp idp\<close> with_mode interp816_adrIdp interp816_cmp,
     \<comment> \<open>d3 cmp isy\<close> with_mode interp816_adrIsy interp816_cmp,
     \<comment> \<open>d4 pei dp\<close> op_pei,
     \<comment> \<open>d5 cmp dpx\<close> with_mode interp816_adrDpx interp816_cmp,
     \<comment> \<open>d6 dec dpx\<close> with_mode interp816_adrDpx interp816_dec,
     \<comment> \<open>d7 cmp ily\<close> with_mode interp816_adrIly interp816_cmp,
     \<comment> \<open>d8 cld imp\<close> op_cld,
     \<comment> \<open>d9 cmp aby(r)\<close> with_mode (interp816_adrAby False) interp816_cmp,
     \<comment> \<open>da phx imp\<close> op_phx,
     \<comment> \<open>db stp imp\<close> op_stp,
     \<comment> \<open>dc jml ial\<close> op_jml_ial,
     \<comment> \<open>dd cmp abx(r)\<close> with_mode (interp816_adrAbx False) interp816_cmp,
     \<comment> \<open>de dec abx\<close> with_mode (interp816_adrAbx True) interp816_dec,
     \<comment> \<open>df cmp alx\<close> with_mode interp816_adrAlx interp816_cmp]"

definition doOpcode_ex :: "('m, unit) cpuM list" where
  "doOpcode_ex = [
     \<comment> \<open>e0 cpx imm(x)\<close> with_mode (interp816_adrImm True) interp816_cpx,
     \<comment> \<open>e1 sbc idx\<close> with_mode interp816_adrIdx interp816_sbc,
     \<comment> \<open>e2 sep imm(s)\<close> op_sep,
     \<comment> \<open>e3 sbc sr\<close> with_mode interp816_adrSr interp816_sbc,
     \<comment> \<open>e4 cpx dp\<close> with_mode interp816_adrDp interp816_cpx,
     \<comment> \<open>e5 sbc dp\<close> with_mode interp816_adrDp interp816_sbc,
     \<comment> \<open>e6 inc dp\<close> with_mode interp816_adrDp interp816_inc,
     \<comment> \<open>e7 sbc idl\<close> with_mode interp816_adrIdl interp816_sbc,
     \<comment> \<open>e8 inx imp\<close> op_inx,
     \<comment> \<open>e9 sbc imm(m)\<close> with_mode (interp816_adrImm False) interp816_sbc,
     \<comment> \<open>ea nop imp\<close> op_nop,
     \<comment> \<open>eb xba imp\<close> op_xba,
     \<comment> \<open>ec cpx abs\<close> with_mode interp816_adrAbs interp816_cpx,
     \<comment> \<open>ed sbc abs\<close> with_mode interp816_adrAbs interp816_sbc,
     \<comment> \<open>ee inc abs\<close> with_mode interp816_adrAbs interp816_inc,
     \<comment> \<open>ef sbc abl\<close> with_mode interp816_adrAbl interp816_sbc]"

definition doOpcode_fx :: "('m, unit) cpuM list" where
  "doOpcode_fx = [
     \<comment> \<open>f0 beq rel\<close> op_branch cpu_z,
     \<comment> \<open>f1 sbc idy(r)\<close> with_mode (interp816_adrIdy False) interp816_sbc,
     \<comment> \<open>f2 sbc idp\<close> with_mode interp816_adrIdp interp816_sbc,
     \<comment> \<open>f3 sbc isy\<close> with_mode interp816_adrIsy interp816_sbc,
     \<comment> \<open>f4 pea imm(l)\<close> op_pea,
     \<comment> \<open>f5 sbc dpx\<close> with_mode interp816_adrDpx interp816_sbc,
     \<comment> \<open>f6 inc dpx\<close> with_mode interp816_adrDpx interp816_inc,
     \<comment> \<open>f7 sbc ily\<close> with_mode interp816_adrIly interp816_sbc,
     \<comment> \<open>f8 sed imp\<close> op_sed,
     \<comment> \<open>f9 sbc aby(r)\<close> with_mode (interp816_adrAby False) interp816_sbc,
     \<comment> \<open>fa plx imp\<close> op_plx,
     \<comment> \<open>fb xce imp\<close> op_xce,
     \<comment> \<open>fc jsr iax\<close> op_jsr_iax,
     \<comment> \<open>fd sbc abx(r)\<close> with_mode (interp816_adrAbx False) interp816_sbc,
     \<comment> \<open>fe inc abx\<close> with_mode (interp816_adrAbx True) interp816_inc,
     \<comment> \<open>ff sbc alx\<close> with_mode interp816_adrAlx interp816_sbc]"

text \<open>The whole switch; \<open>brk\<close> is the action of \<open>case 0x00\<close>.\<close>

definition opcode_table :: "('m, unit) cpuM \<Rightarrow> ('m, unit) cpuM list" where
  "opcode_table brk =
     doOpcode_0x brk @ doOpcode_1x @ doOpcode_2x @ doOpcode_3x
     @ doOpcode_4x @ doOpcode_5x @ doOpcode_6x @ doOpcode_7x
     @ doOpcode_8x @ doOpcode_9x @ doOpcode_ax @ doOpcode_bx
     @ doOpcode_cx @ doOpcode_dx @ doOpcode_ex @ doOpcode_fx"

definition dispatch :: "('m, unit) cpuM \<Rightarrow> u8 \<Rightarrow> ('m, unit) cpuM" where
  "dispatch brk opcode = opcode_table brk ! unat opcode"

text \<open>
  \<open>case 0x00\<close>: the hook is called with the address of the BRK byte and its result, cut to
  the 8-bit variable \<open>opcode\<close>, is dispatched on; anything but 0, 1, 2 restarts the switch. The
  restart never meets \<open>case 0x00\<close> again, so its BRK entry is not used (lemma
  \<open>dispatch_brk_irrelevant\<close>).
\<close>

definition op_brk :: "(u32 \<Rightarrow> int) \<Rightarrow> ('m, unit) cpuM" where
  "op_brk hook = do {
     cpu \<leftarrow> State_Monad.get;
     let opcode = (word_of_int (hook (adr24 (cpu_k cpu) (cpu_pc cpu) - 1)) :: u8);
     (if opcode = 0 then State_Monad.return ()
      else if opcode = 1 then op_rts
      else if opcode = 2 then op_rtl
      else dispatch (State_Monad.return ()) opcode)
   }"

definition interp816_doOpcode :: "(u32 \<Rightarrow> int) \<Rightarrow> u8 \<Rightarrow> ('m, unit) cpuM" where
  "interp816_doOpcode hook opcode = dispatch (op_brk hook) opcode"

definition cyclesPerOpcode :: "u8 list" where
  "cyclesPerOpcode = [
     7, 6, 7, 4, 5, 3, 5, 6, 3, 2, 2, 4, 6, 4, 6, 5,
     2, 5, 5, 7, 5, 4, 6, 6, 2, 4, 2, 2, 6, 4, 7, 5,
     6, 6, 8, 4, 3, 3, 5, 6, 4, 2, 2, 5, 4, 4, 6, 5,
     2, 5, 5, 7, 4, 4, 6, 6, 2, 4, 2, 2, 4, 4, 7, 5,
     6, 6, 2, 4, 7, 3, 5, 6, 3, 2, 2, 3, 3, 4, 6, 5,
     2, 5, 5, 7, 7, 4, 6, 6, 2, 4, 3, 2, 4, 4, 7, 5,
     6, 6, 6, 4, 3, 3, 5, 6, 4, 2, 2, 6, 5, 4, 6, 5,
     2, 5, 5, 7, 4, 4, 6, 6, 2, 4, 4, 2, 6, 4, 7, 5,
     3, 6, 4, 4, 3, 3, 3, 6, 2, 2, 2, 3, 4, 4, 4, 5,
     2, 6, 5, 7, 4, 4, 4, 6, 2, 5, 2, 2, 4, 5, 5, 5,
     2, 6, 2, 4, 3, 3, 3, 6, 2, 2, 2, 4, 4, 4, 4, 5,
     2, 5, 5, 7, 4, 4, 4, 6, 2, 4, 2, 2, 4, 4, 4, 5,
     2, 6, 3, 4, 3, 3, 5, 6, 2, 2, 2, 3, 4, 4, 6, 5,
     2, 5, 5, 7, 6, 4, 6, 6, 2, 4, 3, 3, 6, 4, 7, 5,
     2, 6, 3, 4, 3, 3, 5, 6, 2, 2, 2, 3, 4, 4, 6, 5,
     2, 5, 5, 7, 5, 4, 6, 6, 2, 4, 4, 2, 8, 4, 7, 5]"

definition serviceInterrupts :: "('m, unit) cpuM" where
  "serviceInterrupts = do {
     cpu \<leftarrow> State_Monad.get;
     (if (\<not> cpu_i cpu \<and> cpu_irqWanted cpu) \<or> cpu_nmiWanted cpu then do {
        modify (\<lambda>cpu. cpu\<lparr>cpu_cyclesUsed := 7\<rparr>);
        (if cpu_nmiWanted cpu then do {
           modify (\<lambda>cpu. cpu\<lparr>cpu_nmiWanted := False\<rparr>);
           interp816_doInterrupt False
         } else interp816_doInterrupt True)
      } else State_Monad.return ())
   }"

definition interp816_runOpcode :: "(u32 \<Rightarrow> int) \<Rightarrow> ('m, int) cpuM" where
  "interp816_runOpcode hook = do {
     modify (\<lambda>cpu. cpu\<lparr>cpu_cyclesUsed := 0\<rparr>);
     stopped \<leftarrow> gets cpu_stopped;
     (if stopped then State_Monad.return 1
      else do {
        serviceInterrupts;
        opcode \<leftarrow> interp816_readOpcode;
        modify (\<lambda>cpu. cpu\<lparr>cpu_cyclesUsed := cyclesPerOpcode ! unat opcode\<rparr>);
        interp816_doOpcode hook opcode;
        gets (\<lambda>cpu. uint (cpu_cyclesUsed cpu))
      })
   }"

section \<open>Facts about the switch\<close>

lemmas doOpcode_rows =
  doOpcode_0x_def doOpcode_1x_def doOpcode_2x_def doOpcode_3x_def
  doOpcode_4x_def doOpcode_5x_def doOpcode_6x_def doOpcode_7x_def
  doOpcode_8x_def doOpcode_9x_def doOpcode_ax_def doOpcode_bx_def
  doOpcode_cx_def doOpcode_dx_def doOpcode_ex_def doOpcode_fx_def

lemma length_opcode_table [simp]: "length (opcode_table brk) = 256"
  by (simp add: opcode_table_def doOpcode_rows)

lemma length_cyclesPerOpcode [simp]: "length cyclesPerOpcode = 256"
  by (simp add: cyclesPerOpcode_def)

lemma dispatch_in_table: "dispatch brk opcode \<in> set (opcode_table brk)"
  by (simp add: dispatch_def)

lemma opcode_table_Cons: "opcode_table brk = brk # tl (opcode_table undefined)"
  by (simp add: opcode_table_def doOpcode_0x_def)

lemma dispatch_brk_irrelevant: "opcode \<noteq> 0 \<Longrightarrow> dispatch brk opcode = dispatch brk' opcode"
  by (metis dispatch_def opcode_table_Cons nth_Cons' unat_eq_zero)

end
