(* ===== verification/Interp816_Frame.thy ===== *)
theory Interp816_Frame
  imports Interp816_Opcodes
begin

text \<open>
  The interface between the interpreter and an invariant of its state. A predicate that is kept
  by the bus handlers at 24-bit addresses and by each kind of register update (the laws of the
  locales \<open>bus_frame\<close> and \<open>cpu_frame\<close>) is kept by every addressing mode, every operation, every
  one of the 256 opcodes and \<open>interp816_runOpcode\<close>. The invariants of the interpreter are
  interpretations of \<open>cpu_frame\<close>.
\<close>

section \<open>Fetching and addressing\<close>

definition adr_ok :: "('m interp816 \<Rightarrow> bool) \<Rightarrow> u32 \<times> u32 \<Rightarrow> 'm interp816 \<Rightarrow> bool" where
  "adr_ok I p cpu \<longleftrightarrow> I cpu \<and> fst p < 0x1000000 \<and> snd p < 0x1000000"

lemma long_pointer_eq: "ucast (w::u16) OR push_bit 16 (ucast (k::u8)) = adr24 k w"
  by (simp add: adr24_def or.commute)

lemma bank_plus_less [simp]:
  "push_bit 16 (ucast (k::u8)) + ucast (w::u16) < (0x1000000 :: u32)"
  by (metis adr24_eq_add adr24_less)

lemma ucast_less_24 [simp]: "(ucast (w::u16) :: u32) < 0x1000000"
proof -
  have "unat w < 16777216" using unat_u16_less[of w] by linarith
  then show ?thesis by (simp add: word_less_nat_alt)
qed

locale bus_frame =
  fixes I :: "'m interp816 \<Rightarrow> bool"
  assumes I_read: "I cpu \<Longrightarrow> adr < 0x1000000 \<Longrightarrow>
      I (cpu\<lparr>cpu_mem := snd (cpu_read cpu (cpu_mem cpu) adr)\<rparr>)"
    and I_write: "I cpu \<Longrightarrow> adr < 0x1000000 \<Longrightarrow>
      I (cpu\<lparr>cpu_mem := cpu_write cpu (cpu_mem cpu) adr val\<rparr>)"
    and I_pc: "I cpu \<Longrightarrow> I (cpu\<lparr>cpu_pc := pc\<rparr>)"
    and I_cyc: "I cpu \<Longrightarrow> I (cpu\<lparr>cpu_cyclesUsed := n\<rparr>)"
    and I_sp: "I cpu \<Longrightarrow> I (cpu\<lparr>cpu_sp := sp\<rparr>)"
begin

lemma keeps_read: "adr < 0x1000000 \<Longrightarrow> keeps I (interp816_read adr)"
  by (rule tripleI) (simp add: run_simps I_read)

lemma keeps_write: "adr < 0x1000000 \<Longrightarrow> keeps I (interp816_write adr val)"
  by (rule tripleI) (simp add: run_simps I_write)

lemma keeps_cycles: "keeps I (cyclesUsed_add n)"
  by (rule tripleI) (simp add: run_simps I_cyc)

lemma keeps_readOpcode: "keeps I interp816_readOpcode"
  unfolding interp816_readOpcode_def
  by (rule tripleI) (use I_read [of "_\<lparr>cpu_pc := _\<rparr>"] in \<open>simp add: run_simps I_pc\<close>)

lemma keeps_readOpcodeWord: "keeps I interp816_readOpcodeWord"
  unfolding interp816_readOpcodeWord_def by (intro keeps_rules keeps_readOpcode)

lemma keeps_readWord:
  "l < 0x1000000 \<Longrightarrow> h < 0x1000000 \<Longrightarrow> keeps I (interp816_readWord l h)"
  unfolding interp816_readWord_def by (intro keeps_rules keeps_read)

lemma keeps_writeWord:
  "l < 0x1000000 \<Longrightarrow> h < 0x1000000 \<Longrightarrow> keeps I (interp816_writeWord l h v r)"
  unfolding interp816_writeWord_def by (intro keeps_rules keeps_write)

lemma keeps_get: "keeps I State_Monad.get"
  by (simp add: triple_def)

lemma keeps_fetch_dp: "keeps I fetch_dp"
  unfolding fetch_dp_def by (intro keeps_rules keeps_readOpcode keeps_get keeps_cycles)

lemma keeps_pullByte: "keeps I interp816_pullByte"
  unfolding interp816_pullByte_def
  by (intro keeps_rules keeps_get keeps_read ucast_less_24) (auto simp: triple_def I_sp)

lemma keeps_pushByte: "keeps I (interp816_pushByte v)"
  unfolding interp816_pushByte_def
  by (intro keeps_rules keeps_get keeps_write ucast_less_24) (auto simp: triple_def I_sp)

lemma keeps_pullWord: "keeps I interp816_pullWord"
  unfolding interp816_pullWord_def by (intro keeps_rules keeps_pullByte)

lemma keeps_pushWord: "keeps I (interp816_pushWord v)"
  unfolding interp816_pushWord_def by (intro keeps_rules keeps_pushByte)

lemma adr_ok_return:
  "fst p < 0x1000000 \<Longrightarrow> snd p < 0x1000000 \<Longrightarrow> triple I (State_Monad.return p) (adr_ok I)"
  by (simp add: triple_def adr_ok_def)

lemma keeps_read_long_pointer: "triple I (read_long_pointer adr) (\<lambda>p cpu. I cpu \<and> p < 0x1000000)"
  unfolding read_long_pointer_def long_pointer_eq
  by (rule triple_bind [OF keeps_get], rule triple_bind [OF keeps_readWord], simp, simp,
      rule triple_bind [OF keeps_read], simp) (simp add: triple_def)

lemmas mode_steps =
  triple_bind [OF keeps_get] triple_bind [OF keeps_fetch_dp] triple_bind [OF keeps_readOpcode]
  triple_bind [OF keeps_readOpcodeWord] triple_bind [OF keeps_readWord]
  triple_bind [OF keeps_if [OF keeps_cycles keeps_return]]
  adr_ok_return

lemma mode_Imm: "triple I (interp816_adrImm xFlag) (adr_ok I)"
  unfolding interp816_adrImm_def by (rule tripleI) (simp add: adr_ok_def I_pc)

lemma mode_Dp: "triple I interp816_adrDp (adr_ok I)"
  unfolding interp816_adrDp_def by (intro mode_steps) simp_all

lemma mode_Dpx: "triple I interp816_adrDpx (adr_ok I)"
  unfolding interp816_adrDpx_def by (intro mode_steps) simp_all

lemma mode_Dpy: "triple I interp816_adrDpy (adr_ok I)"
  unfolding interp816_adrDpy_def by (intro mode_steps) simp_all

lemma mode_Idp: "triple I interp816_adrIdp (adr_ok I)"
  unfolding interp816_adrIdp_def by (intro mode_steps) simp_all

lemma mode_Idx: "triple I interp816_adrIdx (adr_ok I)"
  unfolding interp816_adrIdx_def by (intro mode_steps) simp_all

lemma mode_Idy: "triple I (interp816_adrIdy w) (adr_ok I)"
  unfolding interp816_adrIdy_def by (intro mode_steps) simp_all

lemma mode_Idl: "triple I interp816_adrIdl (adr_ok I)"
  unfolding interp816_adrIdl_def
  by (intro mode_steps triple_bind [OF keeps_read_long_pointer])
    (simp add: triple_def adr_ok_def)

lemma mode_Ily: "triple I interp816_adrIly (adr_ok I)"
  unfolding interp816_adrIly_def
  by (intro mode_steps triple_bind [OF keeps_read_long_pointer])
    (simp add: triple_def adr_ok_def)

lemma mode_Sr: "triple I interp816_adrSr (adr_ok I)"
  unfolding interp816_adrSr_def by (intro mode_steps) simp_all

lemma mode_Isy: "triple I interp816_adrIsy (adr_ok I)"
  unfolding interp816_adrIsy_def by (intro mode_steps) simp_all

lemma mode_Abs: "triple I interp816_adrAbs (adr_ok I)"
  unfolding interp816_adrAbs_def by (intro mode_steps) simp_all

lemma mode_Abx: "triple I (interp816_adrAbx w) (adr_ok I)"
  unfolding interp816_adrAbx_def by (intro mode_steps) simp_all

lemma mode_Aby: "triple I (interp816_adrAby w) (adr_ok I)"
  unfolding interp816_adrAby_def by (intro mode_steps) simp_all

lemma mode_Abl: "triple I interp816_adrAbl (adr_ok I)"
  unfolding interp816_adrAbl_def long_pointer_eq by (intro mode_steps) simp_all

lemma mode_Alx: "triple I interp816_adrAlx (adr_ok I)"
  unfolding interp816_adrAlx_def long_pointer_eq by (intro mode_steps) simp_all

lemma keeps_Iax: "keeps I interp816_adrIax"
  unfolding interp816_adrIax_def by (intro keeps_rules keeps_readOpcodeWord keeps_get keeps_readWord) simp_all

lemmas mode_ok = mode_Imm mode_Dp mode_Dpx mode_Dpy mode_Idp mode_Idx mode_Idy mode_Idl mode_Ily
  mode_Sr mode_Isy mode_Abs mode_Abx mode_Aby mode_Abl mode_Alx

lemma with_mode_keeps:
  assumes "triple I mode (adr_ok I)"
    and "\<And>low high. low < 0x1000000 \<Longrightarrow> high < 0x1000000 \<Longrightarrow> keeps I (f low high)"
  shows "keeps I (with_mode mode f)"
  unfolding with_mode_def
proof (rule triple_bind [OF assms(1)], rule tripleI)
  fix p cpu
  assume "adr_ok I p cpu"
  then show "I (snd (run_state (case p of (low, high) \<Rightarrow> f low high) cpu))"
    using assms(2) [THEN tripleD] by (cases p) (simp add: adr_ok_def)
qed

end

section \<open>Operations and opcodes\<close>

text \<open>The swap of carry and emulation flag at the start of \<open>xce\<close>.\<close>

definition xce_swap :: "'m interp816 \<Rightarrow> 'm interp816" where
  "xce_swap cpu = cpu\<lparr>cpu_c := cpu_e cpu, cpu_e := cpu_c cpu\<rparr>"

locale cpu_frame = bus_frame I for I :: "'m interp816 \<Rightarrow> bool" +
  assumes I_a: "I cpu \<Longrightarrow> I (cpu\<lparr>cpu_a := w\<rparr>)"
    and I_x: "I cpu \<Longrightarrow> (cpu_xf cpu \<longrightarrow> w < 0x100) \<Longrightarrow> I (cpu\<lparr>cpu_x := w\<rparr>)"
    and I_y: "I cpu \<Longrightarrow> (cpu_xf cpu \<longrightarrow> w < 0x100) \<Longrightarrow> I (cpu\<lparr>cpu_y := w\<rparr>)"
    and I_dp: "I cpu \<Longrightarrow> I (cpu\<lparr>cpu_dp := w\<rparr>)"
    and I_k: "I cpu \<Longrightarrow> I (cpu\<lparr>cpu_k := b\<rparr>)"
    and I_db: "I cpu \<Longrightarrow> I (cpu\<lparr>cpu_db := b\<rparr>)"
    and I_c: "I cpu \<Longrightarrow> I (cpu\<lparr>cpu_c := t\<rparr>)"
    and I_z: "I cpu \<Longrightarrow> I (cpu\<lparr>cpu_z := t\<rparr>)"
    and I_v: "I cpu \<Longrightarrow> I (cpu\<lparr>cpu_v := t\<rparr>)"
    and I_n: "I cpu \<Longrightarrow> I (cpu\<lparr>cpu_n := t\<rparr>)"
    and I_i: "I cpu \<Longrightarrow> I (cpu\<lparr>cpu_i := t\<rparr>)"
    and I_d: "I cpu \<Longrightarrow> I (cpu\<lparr>cpu_d := t\<rparr>)"
    and I_nmi: "I cpu \<Longrightarrow> I (cpu\<lparr>cpu_nmiWanted := t\<rparr>)"
    and I_wait: "I cpu \<Longrightarrow> I (cpu\<lparr>cpu_waiting := t\<rparr>)"
    and I_stop: "I cpu \<Longrightarrow> I (cpu\<lparr>cpu_stopped := t\<rparr>)"
    and I_setFlags: "I cpu \<Longrightarrow> I (interp816_setFlags val cpu)"
    and I_xce: "I cpu \<Longrightarrow>
      I (interp816_setFlags (interp816_getFlags (xce_swap cpu)) (xce_swap cpu))"
begin

lemmas I_updates = I_pc I_cyc I_sp I_a I_x I_y I_dp I_k I_db I_c I_z I_v I_n I_i I_d
  I_nmi I_wait I_stop I_setFlags

lemma I_setZN: "I cpu \<Longrightarrow> I (interp816_setZN v b cpu)"
  by (simp add: interp816_setZN_def I_updates)

lemma keeps_modify: "(\<And>cpu. I cpu \<Longrightarrow> I (f cpu)) \<Longrightarrow> keeps I (modify f)"
  by (simp add: triple_def)

lemmas op_steps = keeps_rules keeps_get keeps_read keeps_write keeps_cycles keeps_readWord
  keeps_writeWord keeps_readOpcode keeps_readOpcodeWord keeps_pullByte keeps_pushByte
  keeps_pullWord keeps_pushWord keeps_Iax keeps_modify

lemma ops_keep:
  assumes "low < 0x1000000" "high < 0x1000000"
  shows "keeps I (logic_op f low high)"
    and "keeps I (interp816_adc low high)"
    and "keeps I (interp816_sbc low high)"
    and "keeps I (compare_op reg byte low high)"
    and "keeps I (interp816_bit low high)"
    and "keeps I (interp816_lda low high)"
    and "keeps I (store_op reg byte low high)"
    and "keeps I (rmw_op f8 f16 low high)"
    and "keeps I (interp816_tsb low high)"
    and "keeps I (interp816_trb low high)"
  unfolding logic_op_def interp816_adc_def interp816_sbc_def compare_op_def interp816_bit_def
    interp816_lda_def store_op_def rmw_op_def interp816_tsb_def interp816_trb_def
  by (intro op_steps; simp add: assms I_setZN I_updates split: prod.split option.split)+

text \<open>
  Loads of an index register branch on the width flag before they access the bus, so the flag
  is carried along as part of the invariant.
\<close>

definition at_width :: "bool \<Rightarrow> 'm interp816 \<Rightarrow> bool" where
  "at_width b cpu \<longleftrightarrow> I cpu \<and> cpu_xf cpu = b"

lemma at_width_frame: "bus_frame (at_width b)"
  by unfold_locales (simp_all add: at_width_def I_read I_write I_updates)

lemmas width_steps = keeps_rules
  bus_frame.keeps_read [OF at_width_frame] bus_frame.keeps_readWord [OF at_width_frame]
  bus_frame.keeps_cycles [OF at_width_frame] bus_frame.keeps_pullByte [OF at_width_frame]
  bus_frame.keeps_pullWord [OF at_width_frame]

lemma keeps_get_width:
  assumes "\<And>cpu. keeps (at_width (cpu_xf cpu)) (f cpu)"
  shows "keeps I (State_Monad.bind State_Monad.get f)"
  using assms by (auto simp: triple_def at_width_def)

lemma width_modify:
  "(\<And>cpu. at_width b cpu \<Longrightarrow> at_width b (f cpu)) \<Longrightarrow> keeps (at_width b) (modify f)"
  by (simp add: triple_def)

lemma setZN_xf [simp]: "cpu_xf (interp816_setZN v b cpu) = cpu_xf cpu"
  by (simp add: interp816_setZN_def)

lemma ucast_u8_less_256 [simp]: "(ucast (b::u8) :: u16) < 0x100"
  by (simp add: word_less_nat_alt)

lemma ops_keep_index:
  assumes "low < 0x1000000" "high < 0x1000000"
  shows "keeps I (interp816_ldx low high)" and "keeps I (interp816_ldy low high)"
proof -
  show "keeps I (interp816_ldx low high)"
    unfolding interp816_ldx_def
    by (rule keeps_get_width, case_tac "cpu_xf cpu"; simp only: if_True if_False)
      ((intro width_steps width_modify; simp add: assms at_width_def I_setZN I_updates)+)
  show "keeps I (interp816_ldy low high)"
    unfolding interp816_ldy_def
    by (rule keeps_get_width, case_tac "cpu_xf cpu"; simp only: if_True if_False)
      ((intro width_steps width_modify; simp add: assms at_width_def I_setZN I_updates)+)
qed

lemma keeps_pull_index: "keeps I op_plx" "keeps I op_ply"
proof -
  show "keeps I op_plx"
    unfolding op_plx_def
    by (rule keeps_get_width, case_tac "cpu_xf cpu"; simp only: if_True if_False)
      ((intro width_steps width_modify; simp add: at_width_def I_setZN I_updates)+)
  show "keeps I op_ply"
    unfolding op_ply_def
    by (rule keeps_get_width, case_tac "cpu_xf cpu"; simp only: if_True if_False)
      ((intro width_steps width_modify; simp add: at_width_def I_setZN I_updates)+)
qed

lemma keeps_block_move: "keeps I (block_move delta)"
  unfolding block_move_def
  apply (rule keeps_bind [OF keeps_readOpcode], rule keeps_bind [OF keeps_readOpcode])
  apply (rule keeps_bind [OF keeps_modify], simp add: I_updates)
  apply (rule keeps_bind [OF keeps_get], rule keeps_bind [OF keeps_read], simp)
  apply (rule keeps_bind [OF keeps_write], simp)
  apply (rule tripleI, simp add: I_updates)
  done

lemma keeps_set_index: "keeps I (set_x f)" "keeps I (set_y f)"
  unfolding set_x_def set_y_def
  by (intro op_steps; simp add: index_val_def I_setZN I_updates)+

lemma keeps_doBranch: "keeps I (interp816_doBranch v b)"
  unfolding interp816_doBranch_def by (intro op_steps) (simp add: I_updates)

lemma keeps_xce: "keeps I op_xce"
  using I_xce by (simp add: op_xce_def triple_def xce_swap_def)

lemma keeps_setters: "keeps I setZN_a" "keeps I (set_pc v)" "keeps I (set_k b)"
  unfolding setZN_a_def set_pc_def set_k_def
  by (intro op_steps; simp add: I_setZN I_updates)+

lemma keeps_imp_ops:
  "keeps I op_clc" "keeps I op_sec" "keeps I op_cli" "keeps I op_sei" "keeps I op_clv"
  "keeps I op_cld" "keeps I op_sed" "keeps I op_nop" "keeps I op_wai" "keeps I op_stp"
  "keeps I op_rep" "keeps I op_sep" "keeps I op_wdm"
  "keeps I op_asla" "keeps I op_inca" "keeps I op_deca" "keeps I op_rola" "keeps I op_lsra"
  "keeps I op_rora" "keeps I op_biti" "keeps I op_xba" "keeps I (set_a f)"
  "keeps I op_tcs" "keeps I op_txs" "keeps I op_tsc" "keeps I op_tcd" "keeps I op_tdc"
  unfolding op_clc_def op_sec_def op_cli_def op_sei_def op_clv_def op_cld_def op_sed_def
    op_nop_def op_wai_def op_stp_def op_rep_def op_sep_def op_wdm_def op_asla_def op_inca_def
    op_deca_def op_rola_def op_lsra_def op_rora_def op_biti_def op_xba_def set_a_def
    op_tcs_def op_txs_def op_tsc_def op_tcd_def op_tdc_def
  by (intro op_steps keeps_setters; simp add: I_setZN I_updates Let_def)+

lemma keeps_stack_ops:
  "keeps I op_php" "keeps I op_plp" "keeps I op_phd" "keeps I op_pld" "keeps I op_phk"
  "keeps I op_phb" "keeps I op_plb" "keeps I (push_reg reg byte)" "keeps I op_pla"
  "keeps I op_pea" "keeps I op_per"
  unfolding op_php_def op_plp_def op_phd_def op_pld_def op_phk_def op_phb_def op_plb_def
    push_reg_def op_pla_def op_pea_def op_per_def
  by (intro op_steps keeps_setters; simp add: I_setZN I_updates)+

lemma keeps_pei: "keeps I op_pei"
  unfolding op_pei_def by (rule with_mode_keeps [OF mode_Dp]) (intro op_steps)

lemma keeps_jump_ops:
  "keeps I (op_branch b)" "keeps I op_bra" "keeps I op_brl" "keeps I op_jmp_abs"
  "keeps I op_jmp_ind" "keeps I op_jmp_iax" "keeps I op_jml_abl" "keeps I op_jml_ial"
  "keeps I op_jsr_abs" "keeps I op_jsr_iax" "keeps I op_jsl" "keeps I op_rts" "keeps I op_rtl"
  "keeps I op_rti" "keeps I op_cop"
  unfolding op_branch_def op_bra_def op_brl_def op_jmp_abs_def op_jmp_ind_def op_jmp_iax_def
    op_jml_abl_def op_jml_ial_def op_jsr_abs_def op_jsr_iax_def op_jsl_def op_rts_def op_rtl_def
    op_rti_def op_cop_def
  by (intro op_steps keeps_setters keeps_doBranch; simp add: I_updates)+

lemmas mode_op_defs =
  interp816_and_def interp816_ora_def interp816_eor_def interp816_cmp_def interp816_cpx_def
  interp816_cpy_def interp816_sta_def interp816_stx_def interp816_sty_def interp816_stz_def
  interp816_ror_def interp816_rol_def interp816_lsr_def interp816_asl_def interp816_inc_def
  interp816_dec_def

lemmas index_op_defs = op_dex_def op_inx_def op_dey_def op_iny_def op_tax_def op_tay_def
  op_tsx_def op_tyx_def op_txy_def op_txa_def op_tya_def op_pha_def op_phx_def op_phy_def
  op_mvp_def op_mvn_def

lemma keeps_mode_ops:
  assumes "triple I mode (adr_ok I)"
  shows "keeps I (with_mode mode (logic_op f))" "keeps I (with_mode mode interp816_adc)"
    "keeps I (with_mode mode interp816_sbc)" "keeps I (with_mode mode (compare_op reg byte))"
    "keeps I (with_mode mode interp816_bit)" "keeps I (with_mode mode interp816_lda)"
    "keeps I (with_mode mode interp816_ldx)" "keeps I (with_mode mode interp816_ldy)"
    "keeps I (with_mode mode (store_op reg byte))" "keeps I (with_mode mode (rmw_op f8 f16))"
    "keeps I (with_mode mode interp816_tsb)" "keeps I (with_mode mode interp816_trb)"
  by (rule with_mode_keeps [OF assms], erule (1) ops_keep ops_keep_index)+

lemmas opcode_keeps = keeps_mode_ops [OF mode_Imm] keeps_mode_ops [OF mode_Dp]
  keeps_mode_ops [OF mode_Dpx] keeps_mode_ops [OF mode_Dpy] keeps_mode_ops [OF mode_Idp]
  keeps_mode_ops [OF mode_Idx] keeps_mode_ops [OF mode_Idy] keeps_mode_ops [OF mode_Idl]
  keeps_mode_ops [OF mode_Ily] keeps_mode_ops [OF mode_Sr] keeps_mode_ops [OF mode_Isy]
  keeps_mode_ops [OF mode_Abs] keeps_mode_ops [OF mode_Abx] keeps_mode_ops [OF mode_Aby]
  keeps_mode_ops [OF mode_Abl] keeps_mode_ops [OF mode_Alx]
  keeps_imp_ops keeps_stack_ops keeps_pei keeps_jump_ops keeps_xce keeps_block_move
  keeps_set_index keeps_pull_index

lemma keeps_opcode_table:
  assumes "keeps I brk"
  shows "\<forall>m \<in> set (opcode_table brk). keeps I m"
  unfolding opcode_table_def set_append ball_Un doOpcode_rows mode_op_defs index_op_defs
  by (simp add: assms opcode_keeps)

lemma keeps_dispatch: "keeps I brk \<Longrightarrow> keeps I (dispatch brk opcode)"
  using keeps_opcode_table dispatch_in_table by blast

lemma keeps_brk: "keeps I (op_brk hook)"
  unfolding op_brk_def
  by (intro op_steps keeps_dispatch keeps_jump_ops)

theorem keeps_doOpcode: "keeps I (interp816_doOpcode hook opcode)"
  unfolding interp816_doOpcode_def by (intro keeps_dispatch keeps_brk)

lemma keeps_doInterrupt: "keeps I (interp816_doInterrupt irq)"
  unfolding interp816_doInterrupt_def
  by (intro op_steps; simp add: I_updates)

lemma keeps_serviceInterrupts: "keeps I serviceInterrupts"
  unfolding serviceInterrupts_def
  by (intro op_steps keeps_doInterrupt; simp add: I_updates)

theorem keeps_runOpcode: "keeps I (interp816_runOpcode hook)"
  unfolding interp816_runOpcode_def
  by (intro op_steps keeps_serviceInterrupts keeps_doOpcode; simp add: I_updates)

end

end
