(* ===== verification/Interp816_Invariants.thy ===== *)
theory Interp816_Invariants
  imports Interp816_Frame
begin

text \<open>
  Invariants of the 65816 interpreter, as interpretations of \<open>cpu_frame\<close>: the register widths
  agree with the width flags, the bus is only accessed at 24-bit addresses, and the bus handlers
  are never replaced. The width invariant is carried over whole executions with interrupts
  arriving between opcodes.
\<close>

section \<open>Register widths\<close>

text \<open>
  Emulation mode forces 8-bit widths, and 8-bit index registers have a zero high byte; the
  addressing modes rely on it, since they add the index registers unmasked.
\<close>

definition cpu_wf :: "'m interp816 \<Rightarrow> bool" where
  "cpu_wf cpu \<longleftrightarrow>
     (cpu_e cpu \<longrightarrow> cpu_mf cpu \<and> cpu_xf cpu) \<and>
     (cpu_xf cpu \<longrightarrow> cpu_x cpu < 0x100 \<and> cpu_y cpu < 0x100)"

lemma setFlags_wf: "cpu_wf (interp816_setFlags val cpu)"
  by (simp add: cpu_wf_def interp816_setFlags_def Let_def)

interpretation wf: cpu_frame cpu_wf
  by unfold_locales (auto simp: setFlags_wf, auto simp: cpu_wf_def)

text \<open>
  Executions: the processor starts at reset, opcodes run, and the environment raises or lowers
  the interrupt request lines between opcodes.
\<close>

inductive interp_reach :: "(u32 \<Rightarrow> int) \<Rightarrow> 'm interp816 \<Rightarrow> bool" for hook where
  reset: "interp_reach hook (snd (run_state interp816_reset cpu))"
| opcode: "interp_reach hook cpu \<Longrightarrow> interp_reach hook (snd (run_state (interp816_runOpcode hook) cpu))"
| irq: "interp_reach hook cpu \<Longrightarrow> interp_reach hook (cpu\<lparr>cpu_irqWanted := level\<rparr>)"
| nmi: "interp_reach hook cpu \<Longrightarrow> interp_reach hook (cpu\<lparr>cpu_nmiWanted := True\<rparr>)"

text \<open>
  C3. In every state the interpreter can reach from reset, emulation mode implies 8-bit
  accumulator and index registers, and 8-bit index registers have a zero high byte; no opcode,
  hook result or interrupt breaks this.
\<close>

theorem interp816_widths_reachable:
  assumes "interp_reach hook cpu"
  shows "(cpu_e cpu \<longrightarrow> cpu_mf cpu \<and> cpu_xf cpu) \<and>
         (cpu_xf cpu \<longrightarrow> cpu_x cpu < 0x100 \<and> cpu_y cpu < 0x100)"
proof -
  from assms have "cpu_wf cpu"
  proof induction
    case (reset cpu)
    then show ?case by (simp add: cpu_wf_def interp816_reset_def run_simps)
  next
    case (opcode cpu)
    then show ?case by (intro tripleD [OF wf.keeps_runOpcode])
  qed (auto simp: cpu_wf_def)
  then show ?thesis by (simp add: cpu_wf_def)
qed

text \<open>A bus whose memory is a function on addresses, for the concrete instances below.\<close>

definition flat_read :: "(u32 \<Rightarrow> u8) \<Rightarrow> u32 \<Rightarrow> u8 \<times> (u32 \<Rightarrow> u8)" where
  "flat_read m adr = (m adr, m)"

definition flat_write :: "(u32 \<Rightarrow> u8) \<Rightarrow> u32 \<Rightarrow> u8 \<Rightarrow> (u32 \<Rightarrow> u8)" where
  "flat_write m adr val = m(adr := val)"

definition flat_cpu :: "(u32 \<Rightarrow> u8) \<Rightarrow> (u32 \<Rightarrow> u8) interp816" where
  "flat_cpu m = interp816_init m flat_read flat_write"

theorem interp816_widths_reachable_witness:
  "(let cpu = snd (run_state (interp816_runOpcode (\<lambda>_. 0))
                (snd (run_state interp816_reset (flat_cpu (\<lambda>_. 0xe8)))))
    in cpu_e cpu \<and> cpu_mf cpu \<and> cpu_xf cpu \<and> cpu_x cpu < 0x100 \<and> cpu_y cpu < 0x100)"
proof -
  let ?cpu = "snd (run_state (interp816_runOpcode (\<lambda>_. 0))
                (snd (run_state interp816_reset (flat_cpu (\<lambda>_. 0xe8)))))"
  have e: "cpu_e ?cpu"
    by (simp add: interp816_runOpcode_def interp816_reset_def serviceInterrupts_def run_simps
        interp816_readOpcode_def flat_cpu_def interp816_init_def flat_read_def
        interp816_doOpcode_def dispatch_def opcode_table_def doOpcode_rows nth_append
        op_inx_def set_x_def interp816_setZN_def)
  then show ?thesis
    using interp816_widths_reachable [OF interp_reach.opcode [OF interp_reach.reset], of "\<lambda>_. 0"
        "flat_cpu (\<lambda>_. 0xe8)"]
    by (simp add: Let_def)
qed

section \<open>Bus addresses\<close>

text \<open>What a bus promises the interpreter: its invariant survives accesses at 24-bit addresses.\<close>

locale bus_contract =
  fixes rd :: "'m \<Rightarrow> u32 \<Rightarrow> u8 \<times> 'm"
    and wr :: "'m \<Rightarrow> u32 \<Rightarrow> u8 \<Rightarrow> 'm"
    and J :: "'m \<Rightarrow> bool"
  assumes J_read: "J mem \<Longrightarrow> adr < 0x1000000 \<Longrightarrow> J (snd (rd mem adr))"
    and J_write: "J mem \<Longrightarrow> adr < 0x1000000 \<Longrightarrow> J (wr mem adr val)"
begin

definition on_bus :: "'m interp816 \<Rightarrow> bool" where
  "on_bus cpu \<longleftrightarrow> cpu_read cpu = rd \<and> cpu_write cpu = wr \<and> J (cpu_mem cpu)"

lemma on_bus_frame: "cpu_frame on_bus"
  by unfold_locales
    (simp_all add: on_bus_def J_read J_write interp816_setFlags_def xce_swap_def Let_def)

lemma runOpcode_on_bus: "on_bus cpu \<Longrightarrow> on_bus (snd (run_state (interp816_runOpcode hook) cpu))"
  by (rule tripleD [OF cpu_frame.keeps_runOpcode [OF on_bus_frame]])

end

text \<open>A bus that records, beside its memory, every address it is asked for.\<close>

definition log_read ::
  "('m \<Rightarrow> u32 \<Rightarrow> u8 \<times> 'm) \<Rightarrow> 'm \<times> u32 list \<Rightarrow> u32 \<Rightarrow> u8 \<times> ('m \<times> u32 list)" where
  "log_read rd s adr = (case rd (fst s) adr of (v, m) \<Rightarrow> (v, (m, adr # snd s)))"

definition log_write ::
  "('m \<Rightarrow> u32 \<Rightarrow> u8 \<Rightarrow> 'm) \<Rightarrow> 'm \<times> u32 list \<Rightarrow> u32 \<Rightarrow> u8 \<Rightarrow> 'm \<times> u32 list" where
  "log_write wr s adr val = (wr (fst s) adr val, adr # snd s)"

interpretation log_bus: bus_contract "log_read rd" "log_write wr" "\<lambda>s. \<forall>adr \<in> set (snd s). adr < 0x1000000"
  by unfold_locales (auto simp: log_read_def log_write_def split: prod.split)

text \<open>
  C4. Whatever the opcode, the operands, the registers and the bus behind it, one call of
  \<open>interp816_runOpcode\<close> accesses the bus at addresses below \<open>0x1000000\<close> only: no sum of
  bank, pointer and index escapes the 24-bit address space.
\<close>

theorem interp816_bus_addresses:
  fixes cpu :: "('m \<times> u32 list) interp816"
  assumes "cpu_read cpu = log_read rd" "cpu_write cpu = log_write wr" "snd (cpu_mem cpu) = []"
  shows "\<forall>adr \<in> set (snd (cpu_mem (snd (run_state (interp816_runOpcode hook) cpu)))). adr < 0x1000000"
  using log_bus.runOpcode_on_bus [where cpu = cpu and rd = rd and wr = wr and hook = hook] assms
  by (simp add: log_bus.on_bus_def)

text \<open>The instance: \<open>LDA long,X\<close> at the top of the address space, with \<open>X = 0xff\<close>.\<close>

definition top_cpu :: "((u32 \<Rightarrow> u8) \<times> u32 list) interp816" where
  "top_cpu = (interp816_init (\<lambda>adr. if adr = 0 then 0xbf else 0xff, []) (log_read flat_read) (log_write flat_write))
     \<lparr>cpu_x := 0xff\<rparr>"

theorem interp816_bus_addresses_witness:
  "list_all (\<lambda>adr. adr < 0x1000000)
     (snd (cpu_mem (snd (run_state (interp816_runOpcode (\<lambda>_. 0)) top_cpu))))"
  unfolding list_all_iff
proof (rule interp816_bus_addresses)
  show "cpu_read top_cpu = log_read flat_read" "cpu_write top_cpu = log_write flat_write"
    "snd (cpu_mem top_cpu) = []"
    by (simp_all add: top_cpu_def interp816_init_def)
qed

end
