(* ===== verification/Interp816_Arith.thy ===== *)
theory Interp816_Arith
  imports Interp816_Invariants
begin

text \<open>
  The arithmetic of the 65816 interpreter against its mathematical meaning: binary addition and
  subtraction with carry and signed overflow, decimal addition and subtraction on
  binary-coded-decimal operands, and the flags of a comparison.
\<close>

section \<open>Masks of C integers as division and remainder\<close>

lemma int_and_low:
  "(x::int) AND 0xf = x mod 16" "x AND 0xff = x mod 256" "x AND 0xfff = x mod 4096"
  "x AND 0x1f = x mod 32" "x AND 0x1ff = x mod 512" "x AND 0x1fff = x mod 8192"
proof -
  have low: "x AND b = x mod 2 ^ n" if "b = 2 ^ n - 1" for b n
    unfolding that
    by (simp add: take_bit_eq_mask [symmetric] mask_eq_exp_minus_1 [symmetric] take_bit_eq_mod)
  show "x AND 0xf = x mod 16" using low[of "0xf" 4] by simp
  show "x AND 0xff = x mod 256" using low[of "0xff" 8] by simp
  show "x AND 0xfff = x mod 4096" using low[of "0xfff" 12] by simp
  show "x AND 0x1f = x mod 32" using low[of "0x1f" 5] by simp
  show "x AND 0x1ff = x mod 512" using low[of "0x1ff" 9] by simp
  show "x AND 0x1fff = x mod 8192" using low[of "0x1fff" 13] by simp
qed

lemma int_and_field: "(x::int) AND ((2 ^ n - 1) * 2 ^ k) = 2 ^ k * ((x div 2 ^ k) mod 2 ^ n)"
proof -
  have "x AND push_bit k (mask n) = push_bit k (take_bit n (drop_bit k x))"
    by (rule bit_eqI) (auto simp: bit_simps)
  then show ?thesis
    by (simp add: mask_eq_exp_minus_1 push_bit_eq_mult take_bit_eq_mod drop_bit_eq_div)
qed

lemma int_and_digit:
  "(x::int) AND 0xf0 = 16 * ((x div 16) mod 16)"
  "x AND 0xf00 = 256 * ((x div 256) mod 16)"
  "x AND 0xf000 = 4096 * ((x div 4096) mod 16)"
  "x AND 0x80 = 128 * ((x div 128) mod 2)"
  "x AND 0x8000 = 32768 * ((x div 32768) mod 2)"
proof -
  have field: "x AND b = 2 ^ k * ((x div 2 ^ k) mod 2 ^ n)" if "b = (2 ^ n - 1) * 2 ^ k" for b k n
    unfolding that by (rule int_and_field)
  show "x AND 0xf0 = 16 * ((x div 16) mod 16)" using field[of "0xf0" 4 4] by simp
  show "x AND 0xf00 = 256 * ((x div 256) mod 16)" using field[of "0xf00" 4 8] by simp
  show "x AND 0xf000 = 4096 * ((x div 4096) mod 16)" using field[of "0xf000" 4 12] by simp
  show "x AND 0x80 = 128 * ((x div 128) mod 2)" using field[of "0x80" 1 7] by simp
  show "x AND 0x8000 = 32768 * ((x div 32768) mod 2)" using field[of "0x8000" 1 15] by simp
qed

lemmas int_masks = int_and_low int_and_digit

section \<open>Signed values\<close>

lemma uint_u8_less: "uint (w::u8) < 256" "uint (v::u16) < 65536"
  using uint_lt2p[of w] uint_lt2p[of v] by simp_all

lemma mod_once:
  fixes x n :: int
  assumes "n \<le> x" "x < 2 * n"
  shows "x mod n = x - n"
proof -
  have "x mod n = (x - n) mod n" by simp
  also have "\<dots> = x - n" using assms by (intro mod_pos_pos_trivial) auto
  finally show ?thesis .
qed

lemma top_bit_mod: "0 < n \<Longrightarrow> (x mod (n * 2)) div n mod 2 = (x div n) mod 2" for x n :: int
  by (simp add: zmod_zmult2_eq)

lemma div_quarter:
  fixes x n :: int
  assumes "0 \<le> x" "x < 4 * n"
  shows "(x div n) mod 2 = (if x < n then 0 else if x < 2 * n then 1 else if x < 3 * n then 0 else 1)"
proof -
  have "x div n = (if x < n then 0 else if x < 2 * n then 1 else if x < 3 * n then 2 else 3)"
    using assms by (auto intro: int_div_pos_eq [where r = "x - 3 * n"] int_div_pos_eq [where r = "x - 2 * n"]
        int_div_pos_eq [where r = "x - n"])
  then show ?thesis by simp
qed

lemma sint_u8: "sint (w::u8) = (if uint w < 128 then uint w else uint w - 256)"
  using uint_u8_less(1)[of w] uint_ge_0[of w]
  by (simp add: sint_uint signed_take_bit_eq_take_bit_shift take_bit_eq_mod mod_once)

lemma sint_u16: "sint (w::u16) = (if uint w < 32768 then uint w else uint w - 65536)"
  using uint_u8_less(2)[of w] uint_ge_0[of w]
  by (simp add: sint_uint signed_take_bit_eq_take_bit_shift take_bit_eq_mod mod_once)

lemma uint_lo8: "uint (lo8 a) = uint a mod 256"
  by (simp add: lo8_def unsigned_ucast_eq take_bit_eq_mod)

text \<open>The low byte replaced, the high byte kept.\<close>

lemma set_low_byte: "(a AND 0xff00) OR word_of_int (r AND 0xff) = word16 (word_of_int r) (hi8 a)"
proof (rule bit_word_eqI)
  have m: "(0xff00::u16) = push_bit 8 (mask 8)" "(0xff::int) = mask 8"
    by (simp_all add: mask_eq_exp_minus_1 push_bit_eq_mult)
  fix n assume "n < LENGTH(16)"
  then show "bit ((a AND 0xff00) OR word_of_int (r AND 0xff)) n = bit (word16 (word_of_int r) (hi8 a)) n"
    unfolding m by (auto simp: word16_def hi8_def bit_simps)
qed

lemma set_low_byte_mod: "(a AND 0xff00) OR word_of_int (r mod 256) = word16 (word_of_int r) (hi8 a)"
  using set_low_byte by (simp only: int_and_low)

section \<open>Binary mode\<close>

text \<open>The signed overflow condition of a sum of operands and carry; \<open>n\<close> is the sign bit's weight.\<close>

definition signed_overflow :: "int \<Rightarrow> int \<Rightarrow> bool" where
  "signed_overflow n t \<longleftrightarrow> t < - n \<or> n \<le> t"

lemma overflow_sum:
  fixes x y n c :: int
  assumes "0 \<le> x" "x < 2 * n" "0 \<le> y" "y < 2 * n" "0 \<le> c" "c \<le> 1"
  shows "((x div n) mod 2 = (y div n) mod 2 \<and> (y div n) mod 2 \<noteq> ((x + y + c) div n) mod 2) \<longleftrightarrow>
    signed_overflow n ((if x < n then x else x - 2 * n) + (if y < n then y else y - 2 * n) + c)"
proof -
  have "(x div n) mod 2 = (if x < n then 0 else 1)" "(y div n) mod 2 = (if y < n then 0 else 1)"
    using assms by (simp_all add: div_quarter)
  moreover have "((x + y + c) div n) mod 2 =
      (if x + y + c < n then 0 else if x + y + c < 2 * n then 1 else if x + y + c < 3 * n then 0 else 1)"
    using assms by (intro div_quarter) linarith+
  ultimately show ?thesis
    using assms unfolding signed_overflow_def
    by (cases "x < n"; cases "y < n"; cases "x + y + c < n"; cases "x + y + c < 2 * n";
        cases "x + y + c < 3 * n"; simp (no_asm_simp); linarith)
qed

lemma overflow8:
  fixes x y c :: int
  assumes "0 \<le> x" "x < 256" "0 \<le> y" "y < 256" "0 \<le> c" "c \<le> 1"
  shows "((x div 128) mod 2 = (y div 128) mod 2 \<and> (y div 128) mod 2 \<noteq> ((x + y + c) div 128) mod 2)
    = signed_overflow 128 ((if x < 128 then x else x - 256) + (if y < 128 then y else y - 256) + c)"
proof -
  have n: "(256 :: int) = 2 * 128" by simp
  show ?thesis using assms unfolding n by (rule overflow_sum)
qed

lemma overflow16:
  fixes x y c :: int
  assumes "0 \<le> x" "x < 65536" "0 \<le> y" "y < 65536" "0 \<le> c" "c \<le> 1"
  shows "((x div 32768) mod 2 = (y div 32768) mod 2 \<and>
      (y div 32768) mod 2 \<noteq> ((x + y + c) div 32768) mod 2)
    = signed_overflow 32768 ((if x < 32768 then x else x - 65536) + (if y < 32768 then y else y - 65536) + c)"
proof -
  have n: "(65536 :: int) = 2 * 32768" by simp
  show ?thesis using assms unfolding n by (rule overflow_sum)
qed

lemma adc8_binary:
  "adc8 a v c False =
     (let s = uint (lo8 a) + uint v + of_bool c
      in (word16 (word_of_int s) (hi8 a),
          signed_overflow 128 (sint (lo8 a) + sint v + of_bool c), 256 \<le> s))"
proof -
  have t: "uint a mod 256 div 128 mod 2 = uint a div 128 mod 2"
    using top_bit_mod[of 128 "uint a"] by simp
  have ov: "((uint a div 128) mod 2 = (uint v div 128) mod 2 \<and>
      (uint v div 128) mod 2 \<noteq> ((uint a mod 256 + uint v + of_bool c) div 128) mod 2) \<longleftrightarrow>
    signed_overflow 128 (sint (lo8 a) + sint v + of_bool c)"
    unfolding sint_u8 uint_lo8 t [symmetric]
    by (rule overflow8) (use uint_u8_less(1)[of v] in auto)
  show ?thesis
    unfolding adc8_def Let_def int_masks set_low_byte_mod uint_lo8 ov [symmetric]
    by (simp del: of_int_add) linarith
qed

lemma adc16_binary:
  "adc16 a v c False =
     (let s = uint a + uint v + of_bool c
      in (word_of_int s, signed_overflow 32768 (sint a + sint v + of_bool c), 65536 \<le> s))"
proof -
  have ov: "((uint a div 32768) mod 2 = (uint v div 32768) mod 2 \<and>
      (uint v div 32768) mod 2 \<noteq> ((uint a + uint v + of_bool c) div 32768) mod 2) \<longleftrightarrow>
    signed_overflow 32768 (sint a + sint v + of_bool c)"
    unfolding sint_u16
    by (rule overflow16) (use uint_u8_less(2)[of v] uint_u8_less(2)[of a] in auto)
  show ?thesis
    unfolding adc16_def Let_def int_masks ov [symmetric]
    by (simp del: of_int_add) linarith
qed

lemma complement8: "m XOR 0xff = NOT m" "uint (NOT m) = 255 - uint m" "sint (NOT m) = - 1 - sint m"
  for m :: u8
proof -
  have "(0xff :: u8) = - 1" by simp
  then show "m XOR 0xff = NOT m" by (simp only: bit.xor_one_right)
  show u: "uint (NOT m) = 255 - uint m"
    using uint_u8_less(1)[of m] by (simp add: unsigned_not_eq take_bit_not_eq_mask_diff mask_eq_exp_minus_1 take_bit_int_eq_self)
  show "sint (NOT m) = - 1 - sint m" unfolding sint_u8 u using uint_u8_less(1)[of m] by auto
qed

lemma complement16: "m XOR 0xffff = NOT m" "uint (NOT m) = 65535 - uint m" "sint (NOT m) = - 1 - sint m"
  for m :: u16
proof -
  have "(0xffff :: u16) = - 1" by simp
  then show "m XOR 0xffff = NOT m" by (simp only: bit.xor_one_right)
  show u: "uint (NOT m) = 65535 - uint m"
    using uint_u8_less(2)[of m]
    by (simp add: unsigned_not_eq take_bit_not_eq_mask_diff mask_eq_exp_minus_1 take_bit_int_eq_self)
  show "sint (NOT m) = - 1 - sint m" unfolding sint_u16 u using uint_u8_less(2)[of m] by auto
qed

lemma sbc_binary_adc: "sbc8 a m c False = adc8 a (m XOR 0xff) c False"
  "sbc16 a w c False = adc16 a (w XOR 0xffff) c False"
  by (simp_all add: sbc8_def adc8_def sbc16_def adc16_def)

section \<open>Decimal mode\<close>

text \<open>Binary-coded decimals: hexadecimal digit \<open>k\<close> of a number, the digits' validity and value.\<close>

definition hexdigit :: "nat \<Rightarrow> int \<Rightarrow> int" where
  "hexdigit k x = (x div 16 ^ k) mod 16"

definition bcd_valid :: "nat \<Rightarrow> int \<Rightarrow> bool" where
  "bcd_valid n x \<longleftrightarrow> (\<forall>k < n. hexdigit k x \<le> 9)"

primrec bcd_value :: "nat \<Rightarrow> int \<Rightarrow> int" where
  "bcd_value 0 x = 0"
| "bcd_value (Suc n) x = bcd_value n x + hexdigit n x * 10 ^ n"

lemma hexdigit_bounds [simp]: "0 \<le> hexdigit k x" "hexdigit k x < 16"
  by (simp_all add: hexdigit_def)

lemma int_and_hexdigit:
  "x AND 0xf = hexdigit 0 x" "x AND 0xf0 = 16 * hexdigit 1 x"
  "x AND 0xf00 = 256 * hexdigit 2 x" "x AND 0xf000 = 4096 * hexdigit 3 x"
  by (simp_all add: int_masks hexdigit_def)

lemma hexdigit_compose:
  fixes d0 d1 d2 d3 :: int
  assumes "0 \<le> d0" "d0 < 16" "0 \<le> d1" "d1 < 16" "0 \<le> d2" "d2 < 16" "0 \<le> d3" "d3 < 16"
  shows "hexdigit 0 (d0 + 16 * d1 + 256 * d2 + 4096 * d3) = d0"
    "hexdigit 1 (d0 + 16 * d1 + 256 * d2 + 4096 * d3) = d1"
    "hexdigit 2 (d0 + 16 * d1 + 256 * d2 + 4096 * d3) = d2"
    "hexdigit 3 (d0 + 16 * d1 + 256 * d2 + 4096 * d3) = d3"
proof -
  let ?x = "d0 + 16 * d1 + 256 * d2 + 4096 * d3"
  have q: "?x div 16 = d1 + 16 * d2 + 256 * d3" "?x div 256 = d2 + 16 * d3" "?x div 4096 = d3"
    using assms by (auto intro: int_div_pos_eq [where r = "d0"] int_div_pos_eq [where r = "d0 + 16 * d1"]
        int_div_pos_eq [where r = "d0 + 16 * d1 + 256 * d2"])
  have m: "(d + 16 * y) mod 16 = d" if "0 \<le> d" "d < 16" for d y :: int
    using that by (simp add: mod_pos_pos_trivial)
  show "hexdigit 0 ?x = d0" using m[of d0 "d1 + 16 * d2 + 256 * d3"] assms
    by (simp add: hexdigit_def algebra_simps)
  show "hexdigit 1 ?x = d1" using m[of d1 "d2 + 16 * d3"] assms
    unfolding hexdigit_def power_one_right q by (simp add: algebra_simps)
  show "hexdigit 2 ?x = d2" "hexdigit 3 ?x = d3" using m[of d2 "d3"] assms
    by (simp_all add: hexdigit_def q)
qed

text \<open>
  The digit steps: on a partial sum \<open>s * u + t\<close> with \<open>t\<close> below the weight \<open>u\<close>, the addition
  step carries (adds six) at ten, the subtraction step takes six back below sixteen.
\<close>

lemma adc_digit_step:
  assumes "u = 1 \<or> u = 16 \<or> u = 256" "0 \<le> s" "s \<le> 19" "0 \<le> t" "t < u"
  shows "adc_digit u (s * u + t) = (if 10 \<le> s then (s + 6) * u + t else s * u + t)"
proof -
  have mask: "x AND (0x10 * u - 1) = x mod (0x10 * u)" for x
    using assms(1) int_and_low by auto
  show ?thesis
  proof (cases "10 \<le> s")
    case True
    have "(s * u + t + 6 * u) mod (0x10 * u) = s * u + t + 6 * u - 0x10 * u"
      by (rule mod_once) (use assms True in auto)
    moreover have "s * u + t > 0xa * u - 1" using assms True by auto
    ultimately show ?thesis
      using True unfolding adc_digit_def mask by (simp add: algebra_simps)
  next
    case False
    then have "\<not> s * u + t > 0xa * u - 1" using assms by auto
    then show ?thesis using False by (simp add: adc_digit_def)
  qed
qed

lemma sbc_digit_step:
  assumes "u = 1 \<or> u = 16 \<or> u = 256" "6 \<le> s" "s \<le> 25" "0 \<le> t" "t < u"
  shows "sbc_digit u (s * u + t) = (if 16 \<le> s then s * u + t else (s - 6) * u + t)"
proof (cases "16 \<le> s")
  case True
  then have "\<not> s * u + t < 0x10 * u" using assms by auto
  then show ?thesis using True by (simp add: sbc_digit_def)
next
  case False
  have mask: "x AND (0x20 * u - 1) = x mod (0x20 * u)" for x
    using assms(1) int_and_low by auto
  have "s * u + t < 0x10 * u" "\<not> s * u + t - 6 * u < 0" using assms False by auto
  moreover have "(s * u + t - 6 * u) mod (0x20 * u) = s * u + t - 6 * u"
    by (rule mod_pos_pos_trivial) (use assms False in auto)
  ultimately show ?thesis
    using False unfolding sbc_digit_def by (simp add: mask if_not_P, simp add: algebra_simps)
qed

lemma bcd_valid_digit: "bcd_valid n x \<Longrightarrow> k < n \<Longrightarrow> hexdigit k x \<le> 9"
  by (simp add: bcd_valid_def)

lemma bcd_compose:
  fixes d0 d1 d2 d3 :: int
  assumes "0 \<le> d0" "d0 \<le> 9" "0 \<le> d1" "d1 \<le> 9" "0 \<le> d2" "d2 \<le> 9" "0 \<le> d3" "d3 \<le> 9"
  shows "bcd_valid 4 (d0 + 16 * d1 + 256 * d2 + 4096 * d3)"
    "bcd_value 4 (d0 + 16 * d1 + 256 * d2 + 4096 * d3) = d0 + 10 * d1 + 100 * d2 + 1000 * d3"
    "bcd_valid 2 (d0 + 16 * d1)" "bcd_value 2 (d0 + 16 * d1) = d0 + 10 * d1"
proof -
  have h: "hexdigit 0 (d0 + 16 * d1 + 256 * d2 + 4096 * d3) = d0"
    "hexdigit (Suc 0) (d0 + 16 * d1 + 256 * d2 + 4096 * d3) = d1"
    "hexdigit 2 (d0 + 16 * d1 + 256 * d2 + 4096 * d3) = d2"
    "hexdigit 3 (d0 + 16 * d1 + 256 * d2 + 4096 * d3) = d3"
    using hexdigit_compose[of d0 d1 d2 d3] assms by simp_all
  have g: "hexdigit 0 (d0 + 16 * d1) = d0" "hexdigit (Suc 0) (d0 + 16 * d1) = d1"
    using hexdigit_compose[of d0 d1 0 0] assms by simp_all
  have lt4: "k < 4 \<longleftrightarrow> k = 0 \<or> k = Suc 0 \<or> k = 2 \<or> k = 3" for k :: nat by auto
  have lt2: "k < 2 \<longleftrightarrow> k = 0 \<or> k = Suc 0" for k :: nat by auto
  show "bcd_valid 4 (d0 + 16 * d1 + 256 * d2 + 4096 * d3)" "bcd_valid 2 (d0 + 16 * d1)"
    using assms h g by (auto simp: bcd_valid_def lt4 lt2)
  show "bcd_value 4 (d0 + 16 * d1 + 256 * d2 + 4096 * d3) = d0 + 10 * d1 + 100 * d2 + 1000 * d3"
    "bcd_value 2 (d0 + 16 * d1) = d0 + 10 * d1"
    using h g by (simp_all add: eval_nat_numeral)
qed

lemma bcd_value_4: "bcd_value 4 x = hexdigit 0 x + 10 * hexdigit 1 x + 100 * hexdigit 2 x + 1000 * hexdigit 3 x"
  and bcd_value_2: "bcd_value 2 x = hexdigit 0 x + 10 * hexdigit 1 x"
  by (simp_all add: eval_nat_numeral)

lemma bcd_result4:
  fixes e0 e1 e2 e3 k :: int
  assumes e: "0 \<le> e0" "e0 \<le> 9" "0 \<le> e1" "e1 \<le> 9" "0 \<le> e2" "e2 \<le> 9" "0 \<le> e3" "e3 \<le> 9"
    and k: "0 \<le> k" "k \<le> 1" and r: "r = 65536 * k + (e0 + 16 * e1 + 256 * e2 + 4096 * e3)"
  shows "bcd_valid 4 (uint (word_of_int r :: u16)) \<and>
    bcd_value 4 (uint (word_of_int r :: u16)) + 10000 * of_bool (r > 0xffff)
      = e0 + 10 * e1 + 100 * e2 + 1000 * e3 + 10000 * k"
proof -
  let ?z = "e0 + 16 * e1 + 256 * e2 + 4096 * e3"
  have z: "0 \<le> ?z" "?z < 65536" using e by linarith+
  have "r mod 65536 = ?z"
    unfolding r using z by simp
  then have "uint (word_of_int r :: u16) = ?z"
    by (simp add: uint_word_of_int)
  moreover have "of_bool (r > 0xffff) = k"
    using r z k by (cases "k = 1") auto
  ultimately show ?thesis
    using bcd_compose(1,2) [OF e] by simp
qed

lemma bcd_result2:
  fixes e0 e1 k :: int
  assumes e: "0 \<le> e0" "e0 \<le> 9" "0 \<le> e1" "e1 \<le> 9"
    and k: "0 \<le> k" "k \<le> 1" and r: "r = 256 * k + (e0 + 16 * e1)"
  shows "bcd_valid 2 (uint (word_of_int r :: u8)) \<and>
    bcd_value 2 (uint (word_of_int r :: u8)) + 100 * of_bool (r > 0xff) = e0 + 10 * e1 + 100 * k"
proof -
  let ?z = "e0 + 16 * e1"
  have z: "0 \<le> ?z" "?z < 256" using e by linarith+
  have "r mod 256 = ?z"
    unfolding r using z by simp
  then have "uint (word_of_int r :: u8) = ?z"
    by (simp add: uint_word_of_int)
  moreover have "of_bool (r > 0xff) = k"
    using r z k by (cases "k = 1") auto
  ultimately show ?thesis
    using bcd_compose(3,4) [OF e, of 0 0] by simp
qed

text \<open>
  What the digit chains of \<open>adc\<close> and \<open>sbc\<close> share: a step at weight \<open>u\<close> on digits \<open>x\<close> and
  \<open>y\<close> with a carry \<open>k\<close> and finished lower digits \<open>t\<close> leaves a digit \<open>e\<close> and a carry \<open>k'\<close>.
  Subtraction adds the complemented digit (\<open>raw\<close>), which counts as the nines' complement
  (\<open>cmp\<close>). \<open>top\<close> is the correction of the last digit, which is not masked.
\<close>

locale decimal_chain =
  fixes step top :: "int \<Rightarrow> int \<Rightarrow> int" and raw cmp :: "int \<Rightarrow> int"
  assumes step_carry: "u = 1 \<or> u = 16 \<or> u = 256 \<Longrightarrow> 0 \<le> x \<Longrightarrow> x \<le> 9 \<Longrightarrow> 0 \<le> y \<Longrightarrow> y \<le> 9 \<Longrightarrow>
      0 \<le> k \<Longrightarrow> k \<le> 1 \<Longrightarrow> 0 \<le> t \<Longrightarrow> t < u \<Longrightarrow>
      \<exists>e k'. step u (u * x + u * raw y + (u * k + t)) = 16 * u * k' + (u * e + t)
        \<and> 0 \<le> e \<and> e \<le> 9 \<and> 0 \<le> k' \<and> k' \<le> 1 \<and> x + cmp y + k = e + 10 * k'"
    and top_carry: "u = 16 \<or> u = 4096 \<Longrightarrow> 0 \<le> x \<Longrightarrow> x \<le> 9 \<Longrightarrow> 0 \<le> y \<Longrightarrow> y \<le> 9 \<Longrightarrow>
      0 \<le> k \<Longrightarrow> k \<le> 1 \<Longrightarrow> 0 \<le> t \<Longrightarrow> t < u \<Longrightarrow>
      \<exists>e k'. top u (u * x + u * raw y + (u * k + t)) = 16 * u * k' + (u * e + t)
        \<and> 0 \<le> e \<and> e \<le> 9 \<and> 0 \<le> k' \<and> k' \<le> 1 \<and> x + cmp y + k = e + 10 * k'"
begin

lemma dec2:
  assumes "0 \<le> a0" "a0 \<le> 9" "0 \<le> a1" "a1 \<le> 9" "0 \<le> b0" "b0 \<le> 9" "0 \<le> b1" "b1 \<le> 9" "0 \<le> c" "c \<le> 1"
  obtains e0 e1 k where
    "top 16 (16 * a1 + 16 * raw b1 + step 1 (a0 + raw b0 + c)) = 256 * k + (e0 + 16 * e1)"
    "0 \<le> e0" "e0 \<le> 9" "0 \<le> e1" "e1 \<le> 9" "0 \<le> k" "k \<le> 1"
    "a0 + 10 * a1 + (cmp b0 + 10 * cmp b1) + c = e0 + 10 * e1 + 100 * k"
proof -
  obtain e0 k0 where 0: "step 1 (1 * a0 + 1 * raw b0 + (1 * c + 0)) = 16 * 1 * k0 + (1 * e0 + 0)"
    "0 \<le> e0" "e0 \<le> 9" "0 \<le> k0" "k0 \<le> 1" "a0 + cmp b0 + c = e0 + 10 * k0"
    using step_carry[of 1 a0 b0 c 0] assms by auto
  obtain e1 k1 where 1: "top 16 (16 * a1 + 16 * raw b1 + (16 * k0 + e0)) = 16 * 16 * k1 + (16 * e1 + e0)"
    "0 \<le> e1" "e1 \<le> 9" "0 \<le> k1" "k1 \<le> 1" "a1 + cmp b1 + k0 = e1 + 10 * k1"
    using top_carry[of 16 a1 b1 k0 e0] assms 0 by auto
  show thesis
    by (rule that[of k1 e0 e1]) (use 0 1 in \<open>simp_all add: algebra_simps\<close>)
qed

lemma dec4:
  assumes "\<forall>k < 4. 0 \<le> a k \<and> a k \<le> 9 \<and> 0 \<le> b k \<and> b k \<le> (9::int)" "0 \<le> c" "c \<le> 1"
  obtains e0 e1 e2 e3 k where
    "top 4096 (4096 * a 3 + 4096 * raw (b 3) + step 256 (256 * a 2 + 256 * raw (b 2)
      + step 16 (16 * a 1 + 16 * raw (b 1) + step 1 (a 0 + raw (b (0::nat)) + c))))
      = 65536 * k + (e0 + 16 * e1 + 256 * e2 + 4096 * e3)"
    "0 \<le> e0" "e0 \<le> 9" "0 \<le> e1" "e1 \<le> 9" "0 \<le> e2" "e2 \<le> 9" "0 \<le> e3" "e3 \<le> 9" "0 \<le> k" "k \<le> 1"
    "a 0 + 10 * a 1 + 100 * a 2 + 1000 * a 3
      + (cmp (b 0) + 10 * cmp (b 1) + 100 * cmp (b 2) + 1000 * cmp (b 3)) + c
      = e0 + 10 * e1 + 100 * e2 + 1000 * e3 + 10000 * k"
proof -
  have ab: "0 \<le> a k" "a k \<le> 9" "0 \<le> b k" "b k \<le> 9" if "k < 4" for k
    using assms(1) that by auto
  obtain e0 k0 where 0: "step 1 (1 * a 0 + 1 * raw (b 0) + (1 * c + 0)) = 16 * 1 * k0 + (1 * e0 + 0)"
    "0 \<le> e0" "e0 \<le> 9" "0 \<le> k0" "k0 \<le> 1" "a 0 + cmp (b 0) + c = e0 + 10 * k0"
    using step_carry[of 1 "a 0" "b 0" c 0] ab[of 0] assms(2,3) by auto
  obtain e1 k1 where 1: "step 16 (16 * a 1 + 16 * raw (b 1) + (16 * k0 + e0)) = 16 * 16 * k1 + (16 * e1 + e0)"
    "0 \<le> e1" "e1 \<le> 9" "0 \<le> k1" "k1 \<le> 1" "a 1 + cmp (b 1) + k0 = e1 + 10 * k1"
    using step_carry[of 16 "a 1" "b 1" k0 e0] ab[of 1] 0 by auto
  obtain e2 k2 where 2: "step 256 (256 * a 2 + 256 * raw (b 2) + (256 * k1 + (16 * e1 + e0)))
      = 16 * 256 * k2 + (256 * e2 + (16 * e1 + e0))"
    "0 \<le> e2" "e2 \<le> 9" "0 \<le> k2" "k2 \<le> 1" "a 2 + cmp (b 2) + k1 = e2 + 10 * k2"
    using step_carry[of 256 "a 2" "b 2" k1 "16 * e1 + e0"] ab[of 2] 0 1 by auto
  obtain e3 k3 where 3: "top 4096 (4096 * a 3 + 4096 * raw (b 3) + (4096 * k2 + (256 * e2 + (16 * e1 + e0))))
      = 16 * 4096 * k3 + (4096 * e3 + (256 * e2 + (16 * e1 + e0)))"
    "0 \<le> e3" "e3 \<le> 9" "0 \<le> k3" "k3 \<le> 1" "a 3 + cmp (b 3) + k2 = e3 + 10 * k3"
    using top_carry[of 4096 "a 3" "b 3" k2 "256 * e2 + (16 * e1 + e0)"] ab[of 3] 0 1 2 by auto
  show thesis
    by (rule that[of k3 e0 e1 e2 e3]) (use 0 1 2 3 in \<open>simp_all add: algebra_simps\<close>)
qed

lemma bcd4:
  fixes a v :: int and c :: bool
  assumes "bcd_valid 4 a" "bcd_valid 4 v"
    and "r = top 4096 (4096 * hexdigit 3 a + 4096 * raw (hexdigit 3 v)
      + step 256 (256 * hexdigit 2 a + 256 * raw (hexdigit 2 v)
      + step 16 (16 * hexdigit 1 a + 16 * raw (hexdigit 1 v)
      + step 1 (hexdigit 0 a + raw (hexdigit 0 v) + of_bool c))))"
  shows "bcd_valid 4 (uint (word_of_int r :: u16)) \<and>
    bcd_value 4 (uint (word_of_int r :: u16)) + 10000 * of_bool (r > 0xffff)
      = bcd_value 4 a + (cmp (hexdigit 0 v) + 10 * cmp (hexdigit 1 v) + 100 * cmp (hexdigit 2 v)
        + 1000 * cmp (hexdigit 3 v)) + of_bool c"
proof -
  obtain e0 e1 e2 e3 k where "r = 65536 * k + (e0 + 16 * e1 + 256 * e2 + 4096 * e3)"
    and "0 \<le> e0" "e0 \<le> 9" "0 \<le> e1" "e1 \<le> 9" "0 \<le> e2" "e2 \<le> 9" "0 \<le> e3" "e3 \<le> 9" "0 \<le> k" "k \<le> 1"
    and sum: "hexdigit 0 a + 10 * hexdigit 1 a + 100 * hexdigit 2 a + 1000 * hexdigit 3 a
      + (cmp (hexdigit 0 v) + 10 * cmp (hexdigit 1 v) + 100 * cmp (hexdigit 2 v)
        + 1000 * cmp (hexdigit 3 v)) + of_bool c
      = e0 + 10 * e1 + 100 * e2 + 1000 * e3 + 10000 * k"
    unfolding assms(3)
    by (rule dec4 [of "\<lambda>k. hexdigit k a" "\<lambda>k. hexdigit k v" "of_bool c"])
      (use assms(1,2) in \<open>auto simp: bcd_valid_def\<close>)
  then show ?thesis
    using bcd_result4 [of e0 e1 e2 e3 k r] unfolding bcd_value_4 [of a] sum by simp
qed

lemma bcd2:
  fixes a v :: int and c :: bool
  assumes "bcd_valid 2 a" "bcd_valid 2 v"
    and "r = top 16 (16 * hexdigit 1 a + 16 * raw (hexdigit 1 v)
      + step 1 (hexdigit 0 a + raw (hexdigit 0 v) + of_bool c))"
  shows "bcd_valid 2 (uint (word_of_int r :: u8)) \<and>
    bcd_value 2 (uint (word_of_int r :: u8)) + 100 * of_bool (r > 0xff)
      = bcd_value 2 a + (cmp (hexdigit 0 v) + 10 * cmp (hexdigit 1 v)) + of_bool c"
proof -
  obtain e0 e1 k where "r = 256 * k + (e0 + 16 * e1)"
    and "0 \<le> e0" "e0 \<le> 9" "0 \<le> e1" "e1 \<le> 9" "0 \<le> k" "k \<le> 1"
    and sum: "hexdigit 0 a + 10 * hexdigit 1 a + (cmp (hexdigit 0 v) + 10 * cmp (hexdigit 1 v)) + of_bool c
      = e0 + 10 * e1 + 100 * k"
    unfolding assms(3)
    by (rule dec2 [of "hexdigit 0 a" "hexdigit 1 a" "hexdigit 0 v" "hexdigit 1 v" "of_bool c"])
      (use assms(1,2) in \<open>auto simp: bcd_valid_def\<close>)
  then show ?thesis
    using bcd_result2 [of e0 e1 k r] unfolding bcd_value_2 [of a] sum by simp
qed

end

definition adc_top :: "int \<Rightarrow> int \<Rightarrow> int" where
  "adc_top u r = (if r > 0xa * u - 1 then r + 6 * u else r)"

definition sbc_top :: "int \<Rightarrow> int \<Rightarrow> int" where
  "sbc_top u r = (if r < 0x10 * u then r - 6 * u else r)"

lemma chain_regroup: "u * x + u * y + (u * k + t) = (x + y + k) * u + t" for u x y k t :: int
  by (simp add: algebra_simps)

interpretation add_chain: decimal_chain adc_digit adc_top "\<lambda>y. y" "\<lambda>y. y"
proof unfold_locales
  fix u x y k t :: int
  assume u: "u = 1 \<or> u = 16 \<or> u = 256" and b: "0 \<le> x" "x \<le> 9" "0 \<le> y" "y \<le> 9" "0 \<le> k" "k \<le> 1" "0 \<le> t" "t < u"
  have "adc_digit u ((x + y + k) * u + t) =
      (if 10 \<le> x + y + k then (x + y + k + 6) * u + t else (x + y + k) * u + t)"
    by (rule adc_digit_step) (use u b in auto)
  then show "\<exists>e k'. adc_digit u (u * x + u * y + (u * k + t)) = 16 * u * k' + (u * e + t) \<and> 0 \<le> e \<and> e \<le> 9
      \<and> 0 \<le> k' \<and> k' \<le> 1 \<and> x + y + k = e + 10 * k'"
    using b unfolding chain_regroup
    by (intro exI[of _ "x + y + k - 10 * of_bool (10 \<le> x + y + k)"] exI[of _ "of_bool (10 \<le> x + y + k)"])
      (auto simp: algebra_simps)
next
  fix u x y k t :: int
  assume u: "u = 16 \<or> u = 4096" and b: "0 \<le> x" "x \<le> 9" "0 \<le> y" "y \<le> 9" "0 \<le> k" "k \<le> 1" "0 \<le> t" "t < u"
  have "(x + y + k) * u + t > 0xa * u - 1 \<longleftrightarrow> 10 \<le> x + y + k" using u b by auto
  then show "\<exists>e k'. adc_top u (u * x + u * y + (u * k + t)) = 16 * u * k' + (u * e + t) \<and> 0 \<le> e \<and> e \<le> 9
      \<and> 0 \<le> k' \<and> k' \<le> 1 \<and> x + y + k = e + 10 * k'"
    using b unfolding chain_regroup adc_top_def
    by (intro exI[of _ "x + y + k - 10 * of_bool (10 \<le> x + y + k)"] exI[of _ "of_bool (10 \<le> x + y + k)"])
      (auto simp: algebra_simps)
qed

interpretation sub_chain: decimal_chain sbc_digit sbc_top "\<lambda>y. 15 - y" "\<lambda>y. 9 - y"
proof unfold_locales
  fix u x y k t :: int
  let ?s = "x + (15 - y) + k"
  assume u: "u = 1 \<or> u = 16 \<or> u = 256" and b: "0 \<le> x" "x \<le> 9" "0 \<le> y" "y \<le> 9" "0 \<le> k" "k \<le> 1" "0 \<le> t" "t < u"
  have "sbc_digit u (?s * u + t) = (if 16 \<le> ?s then ?s * u + t else (?s - 6) * u + t)"
    by (rule sbc_digit_step) (use u b in auto)
  then show "\<exists>e k'. sbc_digit u (u * x + u * (15 - y) + (u * k + t)) = 16 * u * k' + (u * e + t) \<and> 0 \<le> e
      \<and> e \<le> 9 \<and> 0 \<le> k' \<and> k' \<le> 1 \<and> x + (9 - y) + k = e + 10 * k'"
    using b unfolding chain_regroup
    by (intro exI[of _ "?s - 6 - 10 * of_bool (16 \<le> ?s)"] exI[of _ "of_bool (16 \<le> ?s)"])
      (auto simp: algebra_simps)
next
  fix u x y k t :: int
  let ?s = "x + (15 - y) + k"
  assume u: "u = 16 \<or> u = 4096" and b: "0 \<le> x" "x \<le> 9" "0 \<le> y" "y \<le> 9" "0 \<le> k" "k \<le> 1" "0 \<le> t" "t < u"
  have "?s * u + t < 0x10 * u \<longleftrightarrow> \<not> 16 \<le> ?s" using u b by auto
  then show "\<exists>e k'. sbc_top u (u * x + u * (15 - y) + (u * k + t)) = 16 * u * k' + (u * e + t) \<and> 0 \<le> e
      \<and> e \<le> 9 \<and> 0 \<le> k' \<and> k' \<le> 1 \<and> x + (9 - y) + k = e + 10 * k'"
    using b unfolding chain_regroup sbc_top_def
    by (intro exI[of _ "?s - 6 - 10 * of_bool (16 \<le> ?s)"] exI[of _ "of_bool (16 \<le> ?s)"])
      (auto simp: algebra_simps)
qed

lemma hexdigit_decompose:
  assumes "0 \<le> x" "x < 65536"
  shows "x = hexdigit 0 x + 16 * hexdigit 1 x + 256 * hexdigit 2 x + 4096 * hexdigit 3 x"
proof -
  define q1 q2 q3 where "q1 = x div 16" and "q2 = q1 div 16" and "q3 = q2 div 16"
  define r0 r1 r2 where "r0 = x mod 16" and "r1 = q1 mod 16" and "r2 = q2 mod 16"
  have e: "x = r0 + 16 * q1" "q1 = r1 + 16 * q2" "q2 = r2 + 16 * q3"
    by (simp_all add: q1_def q2_def q3_def r0_def r1_def r2_def)
  have q: "x div 256 = q2" "x div 4096 = q3"
    by (simp_all add: q1_def q2_def q3_def zdiv_zmult2_eq [symmetric])
  have "q3 mod 16 = q3"
    using assms by (intro mod_pos_pos_trivial) (auto simp: q(2) [symmetric])
  then have "hexdigit 0 x = r0" "hexdigit 1 x = r1" "hexdigit 2 x = r2" "hexdigit 3 x = q3"
    by (simp_all add: hexdigit_def q r0_def r1_def r2_def q1_def [symmetric])
  then show ?thesis
    using e by simp
qed

lemma hexdigit_complement:
  assumes "0 \<le> x" "x < 65536"
  shows "hexdigit 0 (65535 - x) = 15 - hexdigit 0 x" "hexdigit 1 (65535 - x) = 15 - hexdigit 1 x"
    "hexdigit 2 (65535 - x) = 15 - hexdigit 2 x" "hexdigit 3 (65535 - x) = 15 - hexdigit 3 x"
proof -
  define d where "d k = hexdigit k x" for k
  have d: "0 \<le> d k" "d k < 16" for k by (simp_all add: d_def)
  have x: "x = d 0 + 16 * d 1 + 256 * d 2 + 4096 * d 3"
    unfolding d_def by (rule hexdigit_decompose [OF assms])
  have n: "65535 - x = (15 - d 0) + 16 * (15 - d 1) + 256 * (15 - d 2) + 4096 * (15 - d 3)"
    by (simp add: x)
  show "hexdigit 0 (65535 - x) = 15 - hexdigit 0 x" "hexdigit 1 (65535 - x) = 15 - hexdigit 1 x"
    "hexdigit 2 (65535 - x) = 15 - hexdigit 2 x" "hexdigit 3 (65535 - x) = 15 - hexdigit 3 x"
    unfolding d_def [symmetric] n
    using d[of 0] d[of 1] d[of 2] d[of 3] by (intro hexdigit_compose; linarith)+
qed

lemma hexdigit_complement8:
  assumes "0 \<le> x" "x < 256"
  shows "hexdigit 0 (255 - x) = 15 - hexdigit 0 x" "hexdigit 1 (255 - x) = 15 - hexdigit 1 x"
proof -
  define d where "d k = hexdigit k x" for k
  have d: "0 \<le> d k" "d k < 16" for k by (simp_all add: d_def)
  have "d 2 = 0" "d 3 = 0" using assms by (simp_all add: d_def hexdigit_def)
  then have x: "x = d 0 + 16 * d 1"
    using hexdigit_decompose [of x] assms unfolding d_def by simp
  have n: "255 - x = (15 - d 0) + 16 * (15 - d 1) + 256 * 0 + 4096 * 0"
    by (simp add: x)
  show "hexdigit 0 (255 - x) = 15 - hexdigit 0 x" "hexdigit 1 (255 - x) = 15 - hexdigit 1 x"
    unfolding d_def [symmetric] n
    using d[of 0] d[of 1] by (intro hexdigit_compose; linarith)+
qed

lemma hexdigit_low_byte: "hexdigit 0 (uint (lo8 a)) = hexdigit 0 (uint a)"
  "hexdigit 1 (uint (lo8 a)) = hexdigit 1 (uint a)" "hexdigit (Suc 0) (uint (lo8 a)) = hexdigit (Suc 0) (uint a)"
  using zmod_zmult2_eq[of 16 "uint a" 16] by (simp_all add: uint_lo8 hexdigit_def mod_mod_cancel)

text \<open>The accumulator and the carry of the decimal routines, as the digit chains.\<close>

lemma adc16_chain:
  "fst (adc16 a v c True) = word_of_int r \<and> snd (snd (adc16 a v c True)) = (r > 0xffff)"
  if "r = adc_top 4096 (4096 * hexdigit 3 (uint a) + 4096 * hexdigit 3 (uint v)
      + adc_digit 256 (256 * hexdigit 2 (uint a) + 256 * hexdigit 2 (uint v)
      + adc_digit 16 (16 * hexdigit 1 (uint a) + 16 * hexdigit 1 (uint v)
      + adc_digit 1 (hexdigit 0 (uint a) + hexdigit 0 (uint v) + of_bool c))))"
  unfolding that adc16_def Let_def int_and_hexdigit adc_top_def by simp

lemma adc8_chain:
  "fst (adc8 a v c True) = word16 (word_of_int r) (hi8 a) \<and> snd (snd (adc8 a v c True)) = (r > 0xff)"
  if "r = adc_top 16 (16 * hexdigit 1 (uint a) + 16 * hexdigit 1 (uint v)
      + adc_digit 1 (hexdigit 0 (uint a) + hexdigit 0 (uint v) + of_bool c))"
  unfolding that adc8_def Let_def int_and_hexdigit adc_top_def set_low_byte by simp

lemma sbc16_chain:
  "fst (sbc16 a v c True) = word_of_int r \<and> snd (snd (sbc16 a v c True)) = (r > 0xffff)"
  if "r = sbc_top 4096 (4096 * hexdigit 3 (uint a) + 4096 * (15 - hexdigit 3 (uint v))
      + sbc_digit 256 (256 * hexdigit 2 (uint a) + 256 * (15 - hexdigit 2 (uint v))
      + sbc_digit 16 (16 * hexdigit 1 (uint a) + 16 * (15 - hexdigit 1 (uint v))
      + sbc_digit 1 (hexdigit 0 (uint a) + (15 - hexdigit 0 (uint v)) + of_bool c))))"
  unfolding that sbc16_def Let_def int_and_hexdigit sbc_top_def complement16(1,2)
    hexdigit_complement [OF uint_ge_0 uint_u8_less(2)] by simp

lemma sbc8_chain:
  "fst (sbc8 a v c True) = word16 (word_of_int r) (hi8 a) \<and> snd (snd (sbc8 a v c True)) = (r > 0xff)"
  if "r = sbc_top 16 (16 * hexdigit 1 (uint a) + 16 * (15 - hexdigit 1 (uint v))
      + sbc_digit 1 (hexdigit 0 (uint a) + (15 - hexdigit 0 (uint v)) + of_bool c))"
  unfolding that sbc8_def Let_def int_and_hexdigit sbc_top_def complement8(1,2) set_low_byte
    hexdigit_complement8 [OF uint_ge_0 uint_u8_less(1)] by simp

text \<open>The decimal routines on valid operands: the sum and the difference of the decimal values.\<close>

lemma adc16_decimal:
  assumes "bcd_valid 4 (uint a)" "bcd_valid 4 (uint v)" "adc16 a v c True = (a', ov, c')"
  shows "bcd_valid 4 (uint a') \<and>
    bcd_value 4 (uint a') + 10000 * of_bool c' = bcd_value 4 (uint a) + bcd_value 4 (uint v) + of_bool c"
  using add_chain.bcd4 [OF assms(1,2) refl, of c] adc16_chain [OF refl, of a v c] assms(3)
  by (simp add: bcd_value_4 [of "uint v"])

lemma sbc16_decimal:
  assumes "bcd_valid 4 (uint a)" "bcd_valid 4 (uint v)" "sbc16 a v c True = (a', ov, c')"
  shows "bcd_valid 4 (uint a') \<and>
    bcd_value 4 (uint a') + 10000 * of_bool c' = bcd_value 4 (uint a) + (9999 - bcd_value 4 (uint v)) + of_bool c"
  using sub_chain.bcd4 [OF assms(1,2) refl, of c] sbc16_chain [OF refl, of a v c] assms(3)
  by (simp add: bcd_value_4 [of "uint v"])

lemma adc8_decimal:
  assumes "bcd_valid 2 (uint (lo8 a))" "bcd_valid 2 (uint v)" "adc8 a v c True = (a', ov, c')"
  shows "hi8 a' = hi8 a \<and> bcd_valid 2 (uint (lo8 a')) \<and>
    bcd_value 2 (uint (lo8 a')) + 100 * of_bool c' = bcd_value 2 (uint (lo8 a)) + bcd_value 2 (uint v) + of_bool c"
  using add_chain.bcd2 [OF assms(1,2) refl, of c] adc8_chain [OF refl, of a v c] assms(3)
  by (simp add: bcd_value_2 [of "uint v"] hexdigit_low_byte)

lemma sbc8_decimal:
  assumes "bcd_valid 2 (uint (lo8 a))" "bcd_valid 2 (uint v)" "sbc8 a v c True = (a', ov, c')"
  shows "hi8 a' = hi8 a \<and> bcd_valid 2 (uint (lo8 a')) \<and>
    bcd_value 2 (uint (lo8 a')) + 100 * of_bool c' = bcd_value 2 (uint (lo8 a)) + (99 - bcd_value 2 (uint v)) + of_bool c"
  using sub_chain.bcd2 [OF assms(1,2) refl, of c] sbc8_chain [OF refl, of a v c] assms(3)
  by (simp add: bcd_value_2 [of "uint v"] hexdigit_low_byte)

section \<open>The instructions\<close>

text \<open>
  The accumulator at its current width, unsigned, signed and as the number of binary-coded
  digits, and the operand an instruction reads at a low and a high address.
\<close>

definition acc :: "'m interp816 \<Rightarrow> int" where
  "acc cpu = (if cpu_mf cpu then uint (lo8 (cpu_a cpu)) else uint (cpu_a cpu))"

definition acc_signed :: "'m interp816 \<Rightarrow> int" where
  "acc_signed cpu = (if cpu_mf cpu then sint (lo8 (cpu_a cpu)) else sint (cpu_a cpu))"

definition acc_range :: "'m interp816 \<Rightarrow> int" where
  "acc_range cpu = (if cpu_mf cpu then 256 else 65536)"

definition acc_digits :: "'m interp816 \<Rightarrow> nat" where
  "acc_digits cpu = (if cpu_mf cpu then 2 else 4)"

definition operand8 :: "u32 \<Rightarrow> 'm interp816 \<Rightarrow> u8" where
  "operand8 low cpu = fst (run_state (interp816_read low) cpu)"

definition operand16 :: "u32 \<Rightarrow> u32 \<Rightarrow> 'm interp816 \<Rightarrow> u16" where
  "operand16 low high cpu = fst (run_state (interp816_readWord low high) cpu)"

definition operand :: "u32 \<Rightarrow> u32 \<Rightarrow> 'm interp816 \<Rightarrow> int" where
  "operand low high cpu = (if cpu_mf cpu then uint (operand8 low cpu) else uint (operand16 low high cpu))"

definition operand_signed :: "u32 \<Rightarrow> u32 \<Rightarrow> 'm interp816 \<Rightarrow> int" where
  "operand_signed low high cpu =
     (if cpu_mf cpu then sint (operand8 low cpu) else sint (operand16 low high cpu))"

text \<open>Zero and sign flag, and the high byte an 8-bit operation leaves alone.\<close>

definition acc_flags_ok :: "'m interp816 \<Rightarrow> 'm interp816 \<Rightarrow> bool" where
  "acc_flags_ok cpu cpu' \<longleftrightarrow> cpu_z cpu' = (acc cpu' = 0) \<and> cpu_n cpu' = (acc_signed cpu' < 0)
     \<and> (cpu_mf cpu \<longrightarrow> hi8 (cpu_a cpu') = hi8 (cpu_a cpu))"

lemma lo8_eq_0: "w AND 0xff = 0 \<longleftrightarrow> lo8 w = 0"
proof -
  have "unat (w AND 0xff) = unat (lo8 w)"
    by (simp add: lo8_def unsigned_ucast_eq take_bit_eq_mod)
  then show ?thesis by (metis unat_eq_zero)
qed

lemma sign_bits: "bit (w::u16) 15 \<longleftrightarrow> sint w < 0" "bit w 7 \<longleftrightarrow> sint (lo8 w) < 0"
  using bit_last_iff[of w] bit_last_iff[of "lo8 w"] by (simp_all add: lo8_def bit_simps)

lemma setZN_meaning:
  "interp816_setZN v b cpu = cpu\<lparr>cpu_z := (if b then lo8 v = 0 else v = 0),
     cpu_n := (if b then sint (lo8 v) < 0 else sint v < 0)\<rparr>"
  by (simp add: interp816_setZN_def lo8_eq_0 sign_bits)

lemma run_readWord [run_simps]:
  "run_state (interp816_readWord adrl adrh) cpu =
    (operand16 adrl adrh cpu,
     cpu\<lparr>cpu_mem := snd (cpu_read cpu (snd (cpu_read cpu (cpu_mem cpu) adrl)) adrh)\<rparr>)"
  by (simp add: operand16_def interp816_readWord_def run_read)

lemma operand16_cycles [simp]: "operand16 l h (cpu\<lparr>cpu_cyclesUsed := n\<rparr>) = operand16 l h cpu"
  by (simp add: operand16_def interp816_readWord_def run_read)

text \<open>
  The state after an instruction of the \<open>adc\<close> and \<open>sbc\<close> shape: the operand is read at the
  current width, accumulator, overflow and carry come from the routine of that width, zero and
  sign from the accumulator.
\<close>

definition arith_state :: "bool \<Rightarrow> u16 \<times> bool \<times> bool \<Rightarrow> 'm interp816 \<Rightarrow> bool" where
  "arith_state b r cpu' \<longleftrightarrow> (case r of (a, v, c) \<Rightarrow>
     cpu_a cpu' = a \<and> cpu_v cpu' = v \<and> cpu_c cpu' = c \<and> cpu_mf cpu' = b
     \<and> cpu_z cpu' = (if b then lo8 a = 0 else a = 0)
     \<and> cpu_n cpu' = (if b then sint (lo8 a) < 0 else sint a < 0))"

lemma adc_run:
  "cpu_mf cpu \<Longrightarrow> arith_state True (adc8 (cpu_a cpu) (operand8 low cpu) (cpu_c cpu) (cpu_d cpu))
    (snd (run_state (interp816_adc low high) cpu))"
  "\<not> cpu_mf cpu \<Longrightarrow> arith_state False (adc16 (cpu_a cpu) (operand16 low high cpu) (cpu_c cpu) (cpu_d cpu))
    (snd (run_state (interp816_adc low high) cpu))"
  by (simp_all add: interp816_adc_def operand8_def run_simps arith_state_def setZN_meaning split: prod.splits)

lemma sbc_run:
  "cpu_mf cpu \<Longrightarrow> arith_state True (sbc8 (cpu_a cpu) (operand8 low cpu) (cpu_c cpu) (cpu_d cpu))
    (snd (run_state (interp816_sbc low high) cpu))"
  "\<not> cpu_mf cpu \<Longrightarrow> arith_state False (sbc16 (cpu_a cpu) (operand16 low high cpu) (cpu_c cpu) (cpu_d cpu))
    (snd (run_state (interp816_sbc low high) cpu))"
  by (simp_all add: interp816_sbc_def operand8_def run_simps arith_state_def setZN_meaning split: prod.splits)

lemmas acc_defs = acc_def acc_signed_def acc_range_def operand_def operand_signed_def arith_state_def
  acc_flags_ok_def unsigned_eq_0_iff

lemma sum_carry8: "uint (word_of_int s :: u8) + 256 * of_bool (256 \<le> s) = s" if "0 \<le> s" "s < 512"
  using that mod_once[of 256 s] by (auto simp: uint_word_of_int)

lemma sum_carry16: "uint (word_of_int s :: u16) + 65536 * of_bool (65536 \<le> s) = s" if "0 \<le> s" "s < 131072"
  using that mod_once[of 65536 s] by (auto simp: uint_word_of_int)

lemma adc_value8:
  assumes "adc8 a v c False = (a', ov, c')"
  shows "hi8 a' = hi8 a \<and> uint (lo8 a') + 256 * of_bool c' = uint (lo8 a) + uint v + of_bool c
    \<and> ov = signed_overflow 128 (sint (lo8 a) + sint v + of_bool c)"
  using assms sum_carry8 [of "uint (lo8 a) + uint v + of_bool c"] uint_u8_less(1)[of v] uint_u8_less(1)[of "lo8 a"]
  by (auto simp: adc8_binary Let_def simp del: of_int_add)

lemma adc_value16:
  assumes "adc16 a v c False = (a', ov, c')"
  shows "uint a' + 65536 * of_bool c' = uint a + uint v + of_bool c
    \<and> ov = signed_overflow 32768 (sint a + sint v + of_bool c)"
  using assms sum_carry16 [of "uint a + uint v + of_bool c"] uint_u8_less(2)[of v] uint_u8_less(2)[of a]
  by (auto simp: adc16_binary Let_def simp del: of_int_add)

text \<open>
  C6. \<open>ADC\<close> in binary mode, 8 and 16 bits wide: the accumulator with the new carry as its
  next bit is the exact sum of accumulator, operand and old carry; the overflow flag says that
  the signed sum is out of range; zero and sign describe the result; an 8-bit \<open>ADC\<close> keeps the
  high byte of the accumulator.
\<close>

theorem interp816_adc_binary:
  assumes "\<not> cpu_d cpu"
  shows "let cpu' = snd (run_state (interp816_adc low high) cpu) in
    acc cpu' + acc_range cpu * of_bool (cpu_c cpu') = acc cpu + operand low high cpu + of_bool (cpu_c cpu)
    \<and> cpu_v cpu' = signed_overflow (acc_range cpu div 2)
         (acc_signed cpu + operand_signed low high cpu + of_bool (cpu_c cpu))
    \<and> acc_flags_ok cpu cpu'"
proof (cases "cpu_mf cpu")
  case True
  obtain a v c where "adc8 (cpu_a cpu) (operand8 low cpu) (cpu_c cpu) False = (a, v, c)"
    using prod_cases3 .
  with adc_run(1)[OF True, of low high] adc_value8 [OF this] assms True show ?thesis
    by (simp add: acc_defs Let_def)
next
  case False
  obtain a v c where "adc16 (cpu_a cpu) (operand16 low high cpu) (cpu_c cpu) False = (a, v, c)"
    using prod_cases3 .
  with adc_run(2)[OF False, of low high] adc_value16 [OF this] assms False show ?thesis
    by (simp add: acc_defs Let_def)
qed

text \<open>The instance: \<open>0x7f + 0x01\<close> in 8 bits overflows into the sign and keeps the high byte.\<close>

definition arith_cpu :: "u16 \<Rightarrow> bool \<Rightarrow> bool \<Rightarrow> bool \<Rightarrow> u8 \<Rightarrow> (u32 \<Rightarrow> u8) interp816" where
  "arith_cpu a c mf d v = (flat_cpu (\<lambda>_. v))\<lparr>cpu_a := a, cpu_c := c, cpu_mf := mf, cpu_d := d\<rparr>"

theorem interp816_adc_binary_witness:
  "\<not> cpu_d (arith_cpu 0x127f False True False 1) \<and>
   (let cpu' = snd (run_state (interp816_adc 0 1) (arith_cpu 0x127f False True False 1)) in
    acc cpu' + 256 * of_bool (cpu_c cpu') = 0x80 \<and> cpu_v cpu' \<and> hi8 (cpu_a cpu') = 0x12)"
proof -
  let ?cpu = "arith_cpu 0x127f False True False 1"
  have d: "\<not> cpu_d ?cpu" "cpu_mf ?cpu" "\<not> cpu_c ?cpu" "lo8 (cpu_a ?cpu) = 0x7f" "hi8 (cpu_a ?cpu) = 0x12"
      "operand8 0 ?cpu = 1"
    by (simp_all add: arith_cpu_def flat_cpu_def interp816_init_def operand8_def run_simps flat_read_def
        lo8_def hi8_def)
  show ?thesis
    using interp816_adc_binary [OF d(1), of 0 1] d
    by (simp add: acc_def acc_signed_def acc_range_def operand_def operand_signed_def acc_flags_ok_def
        signed_overflow_def Let_def)
qed

lemma sbc_value8:
  assumes "sbc8 a v c False = (a', ov, c')"
  shows "hi8 a' = hi8 a \<and> uint (lo8 a') - 256 * of_bool (\<not> c') = uint (lo8 a) - uint v - of_bool (\<not> c)
    \<and> ov = signed_overflow 128 (sint (lo8 a) - sint v - of_bool (\<not> c))"
  using adc_value8 [OF assms [unfolded sbc_binary_adc]] unfolding complement8 signed_overflow_def
  by (cases c; cases c') auto

lemma sbc_value16:
  assumes "sbc16 a v c False = (a', ov, c')"
  shows "uint a' - 65536 * of_bool (\<not> c') = uint a - uint v - of_bool (\<not> c)
    \<and> ov = signed_overflow 32768 (sint a - sint v - of_bool (\<not> c))"
  using adc_value16 [OF assms [unfolded sbc_binary_adc]] unfolding complement16 signed_overflow_def
  by (cases c; cases c') auto

text \<open>
  C7. \<open>SBC\<close> in binary mode, 8 and 16 bits wide: the accumulator is the exact difference of
  accumulator, operand and borrow (the complement of the carry), plus the range of the width
  exactly when a new borrow is left; the overflow flag says that the signed difference is out of
  range; zero and sign describe the result; an 8-bit \<open>SBC\<close> keeps the high byte.
\<close>

theorem interp816_sbc_binary:
  assumes "\<not> cpu_d cpu"
  shows "let cpu' = snd (run_state (interp816_sbc low high) cpu) in
    acc cpu' - acc_range cpu * of_bool (\<not> cpu_c cpu') = acc cpu - operand low high cpu - of_bool (\<not> cpu_c cpu)
    \<and> cpu_v cpu' = signed_overflow (acc_range cpu div 2)
         (acc_signed cpu - operand_signed low high cpu - of_bool (\<not> cpu_c cpu))
    \<and> acc_flags_ok cpu cpu'"
proof (cases "cpu_mf cpu")
  case True
  obtain a v c where "sbc8 (cpu_a cpu) (operand8 low cpu) (cpu_c cpu) False = (a, v, c)"
    using prod_cases3 .
  with sbc_run(1)[OF True, of low high] sbc_value8 [OF this] assms True show ?thesis
    by (simp add: acc_defs Let_def)
next
  case False
  obtain a v c where "sbc16 (cpu_a cpu) (operand16 low high cpu) (cpu_c cpu) False = (a, v, c)"
    using prod_cases3 .
  with sbc_run(2)[OF False, of low high] sbc_value16 [OF this] assms False show ?thesis
    by (simp add: acc_defs Let_def)
qed

text \<open>The fields of the concrete processors used in the instances of this theory.\<close>

lemma arith_cpu_fields:
  "cpu_d (arith_cpu a c mf d v) = d" "cpu_mf (arith_cpu a c mf d v) = mf" "cpu_c (arith_cpu a c mf d v) = c"
  "cpu_a (arith_cpu a c mf d v) = a" "operand8 l (arith_cpu a c mf d v) = v"
  "operand16 l h (arith_cpu a c mf d v) = word16 v v"
  by (simp_all add: arith_cpu_def flat_cpu_def interp816_init_def operand8_def operand16_def
      interp816_readWord_def run_read flat_read_def)

text \<open>The instance: \<open>0x0000 - 0x0101\<close> in 16 bits borrows.\<close>

theorem interp816_sbc_binary_witness:
  "let cpu' = snd (run_state (interp816_sbc 0 1) (arith_cpu 0 True False False 1)) in
    acc cpu' - 65536 * of_bool (\<not> cpu_c cpu') = - 257 \<and> \<not> cpu_v cpu'"
  using interp816_sbc_binary [of "arith_cpu 0 True False False 1" 0 1]
  by (simp add: arith_cpu_fields acc_def acc_signed_def acc_range_def operand_def operand_signed_def
      word16_def signed_overflow_def Let_def)

section \<open>Decimal instructions\<close>

text \<open>
  C8. \<open>ADC\<close> in decimal mode, 8 and 16 bits wide: on binary-coded-decimal operands (every digit
  at most 9) the result is binary-coded decimal, and its decimal value with the carry as its next
  digit is the exact sum of the decimal values and the old carry.
\<close>

theorem interp816_adc_decimal:
  assumes "cpu_d cpu" "bcd_valid (acc_digits cpu) (acc cpu)"
    "bcd_valid (acc_digits cpu) (operand low high cpu)"
  shows "let cpu' = snd (run_state (interp816_adc low high) cpu); n = acc_digits cpu in
    bcd_valid n (acc cpu') \<and> acc_flags_ok cpu cpu' \<and>
    bcd_value n (acc cpu') + 10 ^ n * of_bool (cpu_c cpu')
      = bcd_value n (acc cpu) + bcd_value n (operand low high cpu) + of_bool (cpu_c cpu)"
proof (cases "cpu_mf cpu")
  case True
  obtain a v c where r: "adc8 (cpu_a cpu) (operand8 low cpu) (cpu_c cpu) True = (a, v, c)"
    using prod_cases3 .
  from True assms have "bcd_valid 2 (uint (lo8 (cpu_a cpu)))" "bcd_valid 2 (uint (operand8 low cpu))"
    by (simp_all add: acc_digits_def acc_def operand_def)
  from adc8_decimal [OF this r] adc_run(1)[OF True, of low high] assms(1) True r show ?thesis
    by (simp add: acc_defs acc_digits_def Let_def)
next
  case False
  obtain a v c where r: "adc16 (cpu_a cpu) (operand16 low high cpu) (cpu_c cpu) True = (a, v, c)"
    using prod_cases3 .
  from False assms have "bcd_valid 4 (uint (cpu_a cpu))" "bcd_valid 4 (uint (operand16 low high cpu))"
    by (simp_all add: acc_digits_def acc_def operand_def)
  from adc16_decimal [OF this r] adc_run(2)[OF False, of low high] assms(1) False r show ?thesis
    by (simp add: acc_defs acc_digits_def Let_def)
qed

lemma bcd_valid_4: "bcd_valid 4 x \<longleftrightarrow> hexdigit 0 x \<le> 9 \<and> hexdigit 1 x \<le> 9 \<and> hexdigit 2 x \<le> 9 \<and> hexdigit 3 x \<le> 9"
  by (auto simp: bcd_valid_def numeral_eq_Suc less_Suc_eq)

text \<open>The instance: \<open>9999 + 1111\<close> in 16 bits.\<close>

theorem interp816_adc_decimal_witness:
  "let cpu' = snd (run_state (interp816_adc 0 1) (arith_cpu 0x9999 False False True 0x11)) in
    bcd_valid 4 (acc cpu') \<and> bcd_value 4 (acc cpu') + 10000 * of_bool (cpu_c cpu') = 11110"
proof -
  let ?cpu = "arith_cpu 0x9999 False False True 0x11"
  have "bcd_valid (acc_digits ?cpu) (acc ?cpu)" "bcd_valid (acc_digits ?cpu) (operand 0 1 ?cpu)" "cpu_d ?cpu"
    by (simp_all add: arith_cpu_fields acc_digits_def acc_def operand_def word16_def bcd_valid_4 hexdigit_def)
  from interp816_adc_decimal [OF this(3,1,2)] show ?thesis
    by (simp add: arith_cpu_fields acc_digits_def acc_def operand_def word16_def bcd_value_4 hexdigit_def Let_def)
qed

text \<open>
  C9. \<open>SBC\<close> in decimal mode, 8 and 16 bits wide: on binary-coded-decimal operands the result is
  binary-coded decimal, and its decimal value is the exact difference of the decimal values and
  the borrow, plus the range of the width exactly when a new borrow is left.
\<close>

theorem interp816_sbc_decimal:
  assumes "cpu_d cpu" "bcd_valid (acc_digits cpu) (acc cpu)"
    "bcd_valid (acc_digits cpu) (operand low high cpu)"
  shows "let cpu' = snd (run_state (interp816_sbc low high) cpu); n = acc_digits cpu in
    bcd_valid n (acc cpu') \<and> acc_flags_ok cpu cpu' \<and>
    bcd_value n (acc cpu') - 10 ^ n * of_bool (\<not> cpu_c cpu')
      = bcd_value n (acc cpu) - bcd_value n (operand low high cpu) - of_bool (\<not> cpu_c cpu)"
proof (cases "cpu_mf cpu")
  case True
  obtain a v c where r: "sbc8 (cpu_a cpu) (operand8 low cpu) (cpu_c cpu) True = (a, v, c)"
    using prod_cases3 .
  from True assms have "bcd_valid 2 (uint (lo8 (cpu_a cpu)))" "bcd_valid 2 (uint (operand8 low cpu))"
    by (simp_all add: acc_digits_def acc_def operand_def)
  from sbc8_decimal [OF this r] sbc_run(1)[OF True, of low high] assms(1) True r show ?thesis
    by (cases c; cases "cpu_c cpu"; simp add: acc_defs acc_digits_def Let_def)
next
  case False
  obtain a v c where r: "sbc16 (cpu_a cpu) (operand16 low high cpu) (cpu_c cpu) True = (a, v, c)"
    using prod_cases3 .
  from False assms have "bcd_valid 4 (uint (cpu_a cpu))" "bcd_valid 4 (uint (operand16 low high cpu))"
    by (simp_all add: acc_digits_def acc_def operand_def)
  from sbc16_decimal [OF this r] sbc_run(2)[OF False, of low high] assms(1) False r show ?thesis
    by (cases c; cases "cpu_c cpu"; simp add: acc_defs acc_digits_def Let_def)
qed

text \<open>The instance: \<open>1000 - 1111\<close> in 16 bits.\<close>

theorem interp816_sbc_decimal_witness:
  "let cpu' = snd (run_state (interp816_sbc 0 1) (arith_cpu 0x1000 True False True 0x11)) in
    bcd_valid 4 (acc cpu') \<and> bcd_value 4 (acc cpu') - 10000 * of_bool (\<not> cpu_c cpu') = - 111"
proof -
  let ?cpu = "arith_cpu 0x1000 True False True 0x11"
  have "bcd_valid (acc_digits ?cpu) (acc ?cpu)" "bcd_valid (acc_digits ?cpu) (operand 0 1 ?cpu)" "cpu_d ?cpu"
    by (simp_all add: arith_cpu_fields acc_digits_def acc_def operand_def word16_def bcd_valid_4 hexdigit_def)
  from interp816_sbc_decimal [OF this(3,1,2)] show ?thesis
    by (simp add: arith_cpu_fields acc_digits_def acc_def operand_def word16_def bcd_value_4 hexdigit_def Let_def)
qed

section \<open>Comparison\<close>

text \<open>
  The flags a comparison leaves: the register less the operand modulo the range, and the carry
  set when nothing was borrowed.
\<close>

definition compare_flags :: "int \<Rightarrow> int \<Rightarrow> int \<Rightarrow> 'm interp816 \<Rightarrow> bool" where
  "compare_flags n r m cpu' \<longleftrightarrow> cpu_c cpu' = (m \<le> r) \<and> cpu_z cpu' = (r = m)
     \<and> cpu_n cpu' = (n div 2 \<le> (r - m) mod n)"

definition compare_ok :: "u16 \<Rightarrow> bool \<Rightarrow> u32 \<Rightarrow> u32 \<Rightarrow> 'm interp816 \<Rightarrow> 'm interp816 \<Rightarrow> bool" where
  "compare_ok r b low high cpu cpu' \<longleftrightarrow>
     (if b then compare_flags 256 (uint (lo8 r)) (uint (operand8 low cpu)) cpu'
      else compare_flags 65536 (uint r) (uint (operand16 low high cpu)) cpu')
     \<and> cpu_a cpu' = cpu_a cpu \<and> cpu_x cpu' = cpu_x cpu \<and> cpu_y cpu' = cpu_y cpu"

lemma diff_mod:
  fixes r m n :: int
  assumes b: "0 \<le> r" "r < n" "0 \<le> m" "m < n"
  shows "(r - m) mod n = (if m \<le> r then r - m else r - m + n)"
proof (cases "m \<le> r")
  case False
  have "(r - m) mod n = (r - m + n) mod n" by simp
  also have "\<dots> = r - m + n" using b False by (intro mod_pos_pos_trivial) auto
  finally show ?thesis using False by simp
qed (use b in auto)

lemma lo8_word_of_int: "lo8 (word_of_int s) = word_of_int s"
  by (rule bit_word_eqI) (simp add: lo8_def bit_simps)

lemma word_zero_mod: "(word_of_int s :: u8) = 0 \<longleftrightarrow> s mod 256 = 0" "(word_of_int s :: u16) = 0 \<longleftrightarrow> s mod 65536 = 0"
  "sint (word_of_int s :: u8) < 0 \<longleftrightarrow> 128 \<le> s mod 256" "sint (word_of_int s :: u16) < 0 \<longleftrightarrow> 32768 \<le> s mod 65536"
  by (auto simp: word_uint_eq_iff uint_word_of_int sint_u8 sint_u16)

lemma compare_sum:
  fixes r m n :: int
  assumes "0 \<le> r" "r < n" "0 \<le> m" "m < n"
  shows "(r + (n - 1 - m) + 1) mod n = (r - m) mod n" "n - 1 < r + (n - 1 - m) + 1 \<longleftrightarrow> m \<le> r"
    "(r - m) mod n = 0 \<longleftrightarrow> r = m"
proof -
  have "r + (n - 1 - m) + 1 = r - m + n" by simp
  then show "(r + (n - 1 - m) + 1) mod n = (r - m) mod n" by (simp only: mod_add_self2)
  show "n - 1 < r + (n - 1 - m) + 1 \<longleftrightarrow> m \<le> r" by auto
  show "(r - m) mod n = 0 \<longleftrightarrow> r = m"
    unfolding diff_mod [OF assms] using assms by auto
qed

lemma compare_run:
  assumes "\<And>mem cpu. reg (cpu\<lparr>cpu_mem := mem\<rparr>) = reg cpu" "\<And>n cpu. reg (cpu\<lparr>cpu_cyclesUsed := n\<rparr>) = reg cpu"
    "\<And>mem cpu. byte (cpu\<lparr>cpu_mem := mem\<rparr>) = byte cpu" "\<And>n cpu. byte (cpu\<lparr>cpu_cyclesUsed := n\<rparr>) = byte cpu"
    "\<And>c cpu. byte (cpu\<lparr>cpu_c := c\<rparr>) = byte cpu"
  shows "compare_ok (reg cpu) (byte cpu) low high cpu (snd (run_state (compare_op reg byte low high) cpu))"
proof (cases "byte cpu")
  case True
  let ?r = "uint (lo8 (reg cpu))" and ?m = "uint (operand8 low cpu)"
  have "0 \<le> ?r" "?r < 256" "0 \<le> ?m" "?m < 256" by (simp_all add: uint_u8_less)
  from compare_sum [OF this] True assms show ?thesis
    by (simp add: compare_ok_def compare_op_def compare_flags_def run_simps setZN_meaning operand8_def
        int_and_low uint_lo8 complement8 lo8_word_of_int word_zero_mod del: of_int_add of_int_diff)
next
  case False
  let ?r = "uint (reg cpu)" and ?m = "uint (operand16 low high cpu)"
  have "0 \<le> ?r" "?r < 65536" "0 \<le> ?m" "?m < 65536" by (simp_all add: uint_u8_less)
  from compare_sum [OF this] False assms show ?thesis
    by (simp add: compare_ok_def compare_op_def compare_flags_def run_simps setZN_meaning
        complement16 word_zero_mod del: of_int_add of_int_diff)
qed

text \<open>
  \<open>CMP\<close>, \<open>CPX\<close> and \<open>CPY\<close> compare at the width of their register: carry says that the
  register is at least the operand as an unsigned number, zero that they are equal, sign is the
  top bit of the difference modulo the range, and no register changes.
\<close>

theorem interp816_compare:
  "compare_ok (cpu_a cpu) (cpu_mf cpu) low high cpu (snd (run_state (interp816_cmp low high) cpu)) \<and>
   compare_ok (cpu_x cpu) (cpu_xf cpu) low high cpu (snd (run_state (interp816_cpx low high) cpu)) \<and>
   compare_ok (cpu_y cpu) (cpu_xf cpu) low high cpu (snd (run_state (interp816_cpy low high) cpu))"
  unfolding interp816_cmp_def interp816_cpx_def interp816_cpy_def by (intro conjI compare_run; simp)

end
