(* ===== verification/Interp_Bridge.thy ===== *)
theory Interp_Bridge
  imports Cpu_Dispatch Interp816_Arith
begin

text \<open>
  The bridge between recompiled code and the interpreter, from \<open>snes/interp_bridge.c\<close>: register and
  flag synchronisation, the interpreter loop that bounces subroutine calls into recompiled bodies
  and stops when a return lifts the stack above its frame base, the tier-down entry points and the
  gap manifest. The interpreter's memory is the machine behind the memory map of recompiled code; a
  failed access stays in it and ends the run with the step that made it. The step cap, read once
  from the environment, is an argument. Traces and the printed manifest are left out.
\<close>

section \<open>Bus and registers\<close>

type_synonym bridge_mem = "machine outcome"

definition bridge_bus_read :: "bridge_mem \<Rightarrow> u32 \<Rightarrow> u8 \<times> bridge_mem" where
  "bridge_bus_read mem adr =
     (case obind mem (cpu_read8 (bus_bank adr) (ucast adr)) of
        Done (v, m) \<Rightarrow> (v, Done m) | Abort \<Rightarrow> (0, Abort) | Fuel_out \<Rightarrow> (0, Fuel_out))"

definition bridge_bus_write :: "nat \<Rightarrow> bridge_mem \<Rightarrow> u32 \<Rightarrow> u8 \<Rightarrow> bridge_mem" where
  "bridge_bus_write n mem adr val = obind mem (cpu_write8 n (bus_bank adr) (ucast adr) val)"

definition sync_cpu_to_interp :: "cpu_state \<Rightarrow> 'm interp816 \<Rightarrow> 'm interp816" where
  "sync_cpu_to_interp c inn =
     inn\<lparr>cpu_a := cs_A c, cpu_x := cs_X c, cpu_y := cs_Y c, cpu_sp := cs_S c, cpu_dp := cs_D c, cpu_db := cs_DB c,
        cpu_k := cs_PB c, cpu_c := cs_flag_C c \<noteq> 0, cpu_z := cs_flag_Z c \<noteq> 0, cpu_v := cs_flag_V c \<noteq> 0,
        cpu_n := cs_flag_N c \<noteq> 0, cpu_i := cs_flag_I c \<noteq> 0, cpu_d := cs_flag_D c \<noteq> 0,
        cpu_mf := cs_m_flag c \<noteq> 0, cpu_xf := cs_x_flag c \<noteq> 0, cpu_e := cs_emulation c \<noteq> 0\<rparr>"

definition sync_interp_to_cpu :: "'m interp816 \<Rightarrow> cpu_state \<Rightarrow> cpu_state" where
  "sync_interp_to_cpu inn c =
     cpu_mirrors_to_p
       (c\<lparr>cs_A := cpu_a inn, cs_X := cpu_x inn, cs_Y := cpu_y inn, cs_S := cpu_sp inn, cs_D := cpu_dp inn,
          cs_DB := cpu_db inn, cs_PB := cpu_k inn, cs_flag_C := of_bool (cpu_c inn), cs_flag_Z := of_bool (cpu_z inn),
          cs_flag_V := of_bool (cpu_v inn), cs_flag_N := of_bool (cpu_n inn), cs_flag_I := of_bool (cpu_i inn),
          cs_flag_D := of_bool (cpu_d inn), cs_m_flag := of_bool (cpu_mf inn), cs_x_flag := of_bool (cpu_xf inn),
          cs_emulation := of_bool (cpu_e inn)\<rparr>)"

text \<open>An interpreted BRK is a no-op.\<close>

definition interp816_opcode_hook :: "u32 \<Rightarrow> int" where
  "interp816_opcode_hook addr = 0"

text \<open>\<open>interp_step_cap\<close> with the value of the environment variable, 2000000 when it is unset.\<close>

definition interp_step_cap :: "nat option \<Rightarrow> nat" where
  "interp_step_cap e = max 1000 (case e of Some v \<Rightarrow> v | None \<Rightarrow> 2000000)"

section \<open>The loop\<close>

text \<open>Calls are \<open>JSR\<close>, \<open>JSL\<close> and \<open>JSR (abs,X)\<close>; returns are \<open>RTS\<close> and \<open>RTL\<close>.\<close>

definition is_call :: "u8 \<Rightarrow> bool" where "is_call opc \<longleftrightarrow> opc = 0x20 \<or> opc = 0x22 \<or> opc = 0xfc"
definition is_ret :: "u8 \<Rightarrow> bool" where "is_ret opc \<longleftrightarrow> opc = 0x60 \<or> opc = 0x6b"
definition call_len :: "u8 \<Rightarrow> u32" where "call_len opc = (if opc = 0x22 then 4 else 3)"
definition call_frame :: "u8 \<Rightarrow> u8" where "call_frame opc = (if opc = 0x22 then 3 else 2)"

definition interp_pc24 :: "'m interp816 \<Rightarrow> u32" where
  "interp_pc24 inn = adr24 (cpu_k inn) (cpu_pc inn)"

datatype bridge_next =
    Interpret "bridge_mem interp816" sys
  | Returned sys

definition bridge_call ::
    "dispatch_entry list \<Rightarrow> u8 \<Rightarrow> u32 \<Rightarrow> bridge_mem interp816 \<Rightarrow> machine \<Rightarrow> sys \<Rightarrow> bridge_next outcome" where
  "bridge_call table opc pc_before inn m y =
     (let y = y\<lparr>sy_cpu := sync_interp_to_cpu inn (sy_cpu y), sy_machine := m\<rparr>; target = interp_pc24 inn in
      if cpu_dispatch_has_entry table (sy_cpu y) target then
        obind (cpu_dispatch_pc_paired table target (call_frame opc) y) (\<lambda>(r, y).
          let inn = (sync_cpu_to_interp (sy_cpu y) inn)\<lparr>cpu_mem := Done (sy_machine y)\<rparr> in
          if r \<noteq> Return_normal then Done (Returned (y\<lparr>sy_cpu := sync_interp_to_cpu inn (sy_cpu y)\<rparr>))
          else let ret = (pc_before + call_len opc) AND 0xffffff
            in Done (Interpret (inn\<lparr>cpu_k := bus_bank ret, cpu_pc := ucast ret\<rparr>) y))
      else Done (Interpret inn y))"

definition bridge_step ::
    "dispatch_entry list \<Rightarrow> u16 \<Rightarrow> bridge_mem interp816 \<Rightarrow> sys \<Rightarrow> (u32 \<times> bridge_next) outcome" where
  "bridge_step table s_enter inn y =
     (let pc_before = interp_pc24 inn in
      case bridge_bus_read (cpu_mem inn) pc_before of (opc, mem) \<Rightarrow>
        let inn = snd (run_state (interp816_runOpcode interp816_opcode_hook) (inn\<lparr>cpu_mem := mem\<rparr>)) in
        obind (cpu_mem inn) (\<lambda>m.
          obind
            (if is_call opc then bridge_call table opc pc_before inn m y
             else if is_ret opc \<and> cpu_sp inn > s_enter
             then Done (Returned (y\<lparr>sy_cpu := sync_interp_to_cpu inn (sy_cpu y), sy_machine := m\<rparr>))
             else Done (Interpret inn (y\<lparr>sy_machine := m\<rparr>)))
            (\<lambda>nxt. Done (interp_pc24 inn, nxt))))"

text \<open>The steps up to the cap: the result tells a clean return from a bail.\<close>

primrec bridge_loop ::
    "dispatch_entry list \<Rightarrow> u16 \<Rightarrow> nat \<Rightarrow> bridge_mem interp816 \<Rightarrow> sys \<Rightarrow> (bool \<times> sys) outcome" where
  "bridge_loop table s_enter 0 inn y = Done (False, y\<lparr>sy_cpu := sync_interp_to_cpu inn (sy_cpu y)\<rparr>)"
| "bridge_loop table s_enter (Suc cap) inn y =
     obind (bridge_step table s_enter inn y) (\<lambda>(_, nxt).
       case nxt of Returned y \<Rightarrow> Done (True, y) | Interpret inn y \<Rightarrow> bridge_loop table s_enter cap inn y)"

definition bridge_start :: "nat \<Rightarrow> u32 \<Rightarrow> sys \<Rightarrow> bridge_mem interp816" where
  "bridge_start n entry_pc24 y =
     (sync_cpu_to_interp (sy_cpu y) (interp816_init (Done (sy_machine y)) bridge_bus_read (bridge_bus_write n)))
       \<lparr>cpu_k := bus_bank entry_pc24, cpu_pc := ucast entry_pc24\<rparr>"

text \<open>\<open>interp_bridge_run_ex\<close>, with the landing address of its first step.\<close>

definition interp_bridge_run_ex ::
    "nat \<Rightarrow> nat \<Rightarrow> dispatch_entry list \<Rightarrow> u32 \<Rightarrow> u16 \<Rightarrow> sys \<Rightarrow> (bool \<times> u32 \<times> sys) outcome" where
  "interp_bridge_run_ex n cap table entry_pc24 s_exit y =
     (let inn = bridge_start n entry_pc24 y in
      obind (bridge_step table s_exit inn y) (\<lambda>(landing, _).
        obind (bridge_loop table s_exit cap inn y) (\<lambda>(ok, y). Done (ok, landing, y))))"

definition interp_bridge_run :: "nat \<Rightarrow> nat \<Rightarrow> dispatch_entry list \<Rightarrow> u32 \<Rightarrow> sys \<Rightarrow> (bool \<times> sys) outcome" where
  "interp_bridge_run n cap table entry_pc24 y =
     obind (interp_bridge_run_ex n cap table entry_pc24 (cs_S (sy_cpu y)) y) (\<lambda>(ok, _, y). Done (ok, y))"

section \<open>The gap manifest\<close>

definition TIER2_COVERAGE_MAX :: nat where "TIER2_COVERAGE_MAX = 1024"

definition tier2_hit :: "bool \<Rightarrow> u32 \<Rightarrow> tier2_site \<Rightarrow> tier2_site" where
  "tier2_hit clean frame s =
     (if clean then s\<lparr>t2_clean_hits := t2_clean_hits s + 1\<rparr> else s\<lparr>t2_bail_hits := t2_bail_hits s + 1\<rparr>)
       \<lparr>t2_last_frame := frame\<rparr>"

definition tier2_key :: "tier2_site \<Rightarrow> u32 \<times> u32 \<times> u8" where
  "tier2_key s = (t2_site_pc24 s, t2_target_pc24 s, t2_mx s)"

fun tier2_put :: "u32 \<times> u32 \<times> u8 \<Rightarrow> u8 \<Rightarrow> bool \<Rightarrow> u32 \<Rightarrow> tier2_site list \<Rightarrow> tier2_site list" where
  "tier2_put (site, target, mx) kind clean frame [] =
     [tier2_hit clean frame \<lparr>t2_site_pc24 = site, t2_target_pc24 = target, t2_mx = mx, t2_kind = kind,
        t2_clean_hits = 0, t2_bail_hits = 0, t2_first_frame = frame, t2_last_frame = 0\<rparr>]"
| "tier2_put key kind clean frame (s # ss) =
     (if tier2_key s = key then tier2_hit clean frame s # ss else s # tier2_put key kind clean frame ss)"

definition tier2_record :: "u32 \<Rightarrow> u32 \<Rightarrow> u8 \<Rightarrow> u8 \<Rightarrow> bool \<Rightarrow> sys \<Rightarrow> sys" where
  "tier2_record site target mx kind clean y =
     (if (site, target, mx) \<in> tier2_key ` set (sy_tier2 y) \<or> length (sy_tier2 y) < TIER2_COVERAGE_MAX
      then y\<lparr>sy_tier2 := tier2_put (site, target, mx) kind clean (snes_frame_counter (sy_machine y)) (sy_tier2 y)\<rparr>
      else y\<lparr>sy_tier2_overflow := sy_tier2_overflow y + 1\<rparr>)"

definition interp_tier_note :: "sys \<Rightarrow> sys" where
  "interp_tier_note y = y\<lparr>sy_tier_hits := sy_tier_hits y + 1\<rparr>"

section \<open>Tier-down entry points\<close>

definition interp_tier_dispatch :: "nat \<Rightarrow> nat \<Rightarrow> dispatch_entry list \<Rightarrow> u32 \<Rightarrow> sys \<Rightarrow> (recomp_return \<times> sys) outcome" where
  "interp_tier_dispatch n cap table target_pc24 y =
     (let y = interp_tier_note y; mx = mx_index (sy_cpu y); target = target_pc24 AND 0xffffff in
      obind (interp_bridge_run n cap table target y) (\<lambda>(ok, y).
        Done (Return_normal, tier2_record target target mx 0 ok y)))"

definition interp_tier_dispatch_balanced ::
    "nat \<Rightarrow> nat \<Rightarrow> dispatch_entry list \<Rightarrow> u32 \<Rightarrow> u32 \<Rightarrow> u16 \<Rightarrow> u8 \<Rightarrow> sys \<Rightarrow> (recomp_return \<times> sys) outcome" where
  "interp_tier_dispatch_balanced n cap table target_pc24 site_pc24 entry_s hrv y =
     (let y = interp_tier_note y; mx = mx_index (sy_cpu y); kind = (if target_pc24 = site_pc24 then 1 else 0);
          target = target_pc24 AND 0xffffff in
      obind (interp_bridge_run_ex n cap table target entry_s y) (\<lambda>(ok, landing, y).
        let rec_target = (if kind = 1 then landing AND 0xffffff else target);
            y = tier2_record (site_pc24 AND 0xffffff) rec_target mx kind ok y
        in Done (if ok then (Return_normal, y) else cpu_unresolved_abandon_balanced site_pc24 entry_s hrv y)))"

definition interp_tier_run_call ::
    "nat \<Rightarrow> nat \<Rightarrow> dispatch_entry list \<Rightarrow> u32 \<Rightarrow> u32 \<Rightarrow> sys \<Rightarrow> (recomp_return \<times> sys) outcome" where
  "interp_tier_run_call n cap table target_pc24 source_pc24 y =
     (let target = target_pc24 AND 0xffffff; source = source_pc24 AND 0xffffff; y = interp_tier_note y;
          mx = mx_index (sy_cpu y); watermark = cs_S (sy_cpu y); post_call = cs_S (sy_cpu y) + 2 in
      obind (interp_bridge_run_ex n cap table target watermark y) (\<lambda>(ok, _, y).
        let y = tier2_record source target mx 0 ok y
        in Done (Return_normal, if ok then y else upd_cpu (\<lambda>c. c\<lparr>cs_S := post_call\<rparr>) y)))"

definition interp_tier_dispatch_bank_miss ::
    "nat \<Rightarrow> nat \<Rightarrow> dispatch_entry list \<Rightarrow> u32 \<Rightarrow> u16 \<Rightarrow> u8 \<Rightarrow> sys \<Rightarrow> (recomp_return \<times> sys) outcome" where
  "interp_tier_dispatch_bank_miss n cap table addr_pc24 entry_s hrv y =
     (let addr = addr_pc24 AND 0xffffff; y = interp_tier_note y; mx = mx_index (sy_cpu y) in
      obind (interp_bridge_run_ex n cap table addr entry_s y) (\<lambda>(ok, _, y).
        let y = tier2_record addr addr mx 2 ok y
        in Done (if ok then (Return_normal, y) else cpu_unresolved_abandon_balanced addr entry_s hrv y)))"

section \<open>Synchronisation\<close>

lemma of_bool_u8 [simp]: "(of_bool b :: u8) \<noteq> 0 \<longleftrightarrow> b" "v = 0 \<or> v = 1 \<Longrightarrow> of_bool (v \<noteq> 0) = (v :: u8)"
  by auto

text \<open>The registers of the interpreter that have a home in the processor state.\<close>

definition same_registers :: "'m interp816 \<Rightarrow> 'm interp816 \<Rightarrow> bool" where
  "same_registers a b \<longleftrightarrow>
     (cpu_a a, cpu_x a, cpu_y a, cpu_sp a, cpu_dp a, cpu_db a, cpu_k a) = (cpu_a b, cpu_x b, cpu_y b, cpu_sp b, cpu_dp b, cpu_db b, cpu_k b)
     \<and> interp816_getFlags a = interp816_getFlags b \<and> cpu_e a = cpu_e b"

definition in_sync :: "cpu_state \<Rightarrow> bool" where
  "in_sync c \<longleftrightarrow> mirrors_bool c \<and> (cs_emulation c = 0 \<or> cs_emulation c = 1) \<and> cpu_mirrors_to_p c = c"

text \<open>
  C35. Crossing between the two worlds loses nothing: handing the interpreter's registers to recompiled
  code and back restores all of them and the status byte, handing a consistent processor state to the
  interpreter and back is the identity, and the state handed over is always consistent.
\<close>

theorem sync_round_trip:
  "same_registers (sync_cpu_to_interp (sync_interp_to_cpu inn c) inn') inn
   \<and> in_sync (sync_interp_to_cpu inn c)
   \<and> cs_P (sync_interp_to_cpu inn c) = interp816_getFlags inn
   \<and> (in_sync c \<longrightarrow> sync_interp_to_cpu (sync_cpu_to_interp c inn) c = c)"
proof (intro conjI impI)
  show "cs_P (sync_interp_to_cpu inn c) = interp816_getFlags inn"
    unfolding sync_interp_to_cpu_def
    by (rule bit_word_eqI) (simp only: bit_mirrors_to_p bit_getFlags, cases c, auto)
  show "same_registers (sync_cpu_to_interp (sync_interp_to_cpu inn c) inn') inn"
    by (simp add: same_registers_def sync_interp_to_cpu_def sync_cpu_to_interp_def cpu_mirrors_to_p_def interp816_getFlags_def)
  show "in_sync (sync_interp_to_cpu inn c)"
    by (simp add: in_sync_def mirrors_bool_def sync_interp_to_cpu_def cpu_mirrors_to_p_def)
  assume "in_sync c"
  then show "sync_interp_to_cpu (sync_cpu_to_interp c inn) c = c"
    by (simp add: in_sync_def mirrors_bool_def sync_interp_to_cpu_def sync_cpu_to_interp_def)
qed

theorem sync_round_trip_witness:
  "sync_interp_to_cpu (sync_cpu_to_interp cpu_state_init (interp816_init () (\<lambda>m _. (0, m)) (\<lambda>m _ _. m))) cpu_state_init = cpu_state_init"
proof -
  have "in_sync cpu_state_init"
    by (simp add: in_sync_def mirrors_bool_def cpu_state_init_def cpu_mirrors_to_p_def)
  then show ?thesis using sync_round_trip [of _ cpu_state_init] by blast
qed

section \<open>The stack after a tier-down\<close>

text \<open>
  The states of interpreter and system at which the loop begins a step. In one of them an interpreted call
  may bounce into a recompiled body; \<open>bounces\<close> says what that body returned.
\<close>

inductive bridge_reach :: "dispatch_entry list \<Rightarrow> u16 \<Rightarrow> bridge_mem interp816 \<times> sys \<Rightarrow> bridge_mem interp816 \<times> sys \<Rightarrow> bool"
  for table :: "dispatch_entry list" and s_enter :: u16 where
  here: "bridge_reach table s_enter st st"
| further: "bridge_step table s_enter inn y = Done (landing, Interpret inn' y') \<Longrightarrow>
    bridge_reach table s_enter (inn', y') st \<Longrightarrow> bridge_reach table s_enter (inn, y) st"

definition bounces :: "dispatch_entry list \<Rightarrow> bridge_mem interp816 \<Rightarrow> sys \<Rightarrow> recomp_return \<Rightarrow> sys \<Rightarrow> bool" where
  "bounces table inn y r z \<longleftrightarrow>
     (case bridge_bus_read (cpu_mem inn) (interp_pc24 inn) of (opc, mem) \<Rightarrow>
        let inn = snd (run_state (interp816_runOpcode interp816_opcode_hook) (inn\<lparr>cpu_mem := mem\<rparr>));
            cpu = sync_interp_to_cpu inn (sy_cpu y)
        in is_call opc \<and> cpu_dispatch_has_entry table cpu (interp_pc24 inn)
          \<and> (\<exists>m. cpu_mem inn = Done m
            \<and> cpu_dispatch_pc_paired table (interp_pc24 inn) (call_frame opc) (y\<lparr>sy_cpu := cpu, sy_machine := m\<rparr>) = Done (r, z)))"

text \<open>A recompiled body called on the way returned past its caller and left the stack pointer at \<open>s\<close>.\<close>

definition unwound :: "dispatch_entry list \<Rightarrow> u16 \<Rightarrow> bridge_mem interp816 \<times> sys \<Rightarrow> u16 \<Rightarrow> bool" where
  "unwound table s_enter st s \<longleftrightarrow>
     (\<exists>inn y r z. bridge_reach table s_enter st (inn, y) \<and> bounces table inn y r z \<and> r \<noteq> Return_normal \<and> s = cs_S (sy_cpu z))"

lemma unwound_here: "bounces table inn y r z \<Longrightarrow> r \<noteq> Return_normal \<Longrightarrow> unwound table s_enter (inn, y) (cs_S (sy_cpu z))"
  unfolding unwound_def using bridge_reach.here by blast

lemma unwound_further:
  "bridge_step table s_enter inn y = Done (landing, Interpret inn' y') \<Longrightarrow> unwound table s_enter (inn', y') s \<Longrightarrow>
    unwound table s_enter (inn, y) s"
  unfolding unwound_def using bridge_reach.further by blast

text \<open>A table whose bodies never return past their caller does not unwind.\<close>

definition local_returns :: "dispatch_entry list \<Rightarrow> bool" where
  "local_returns table \<longleftrightarrow>
     (\<forall>cpu pc f y. cpu_dispatch_lookup table cpu pc = Some f \<longrightarrow> holds (\<lambda>(r, _). r = Return_normal) (f y))"

lemma paired_normal:
  assumes "local_returns table"
  shows "holds (\<lambda>(r, _). r = Return_normal) (cpu_dispatch_pc_paired table pc fs y)"
proof -
  have "holds (\<lambda>(r, _). r = Return_normal) (f y)" if "fst (dispatch_find table cpu pc) = Some f" for f cpu y pc
    using that assms unfolding local_returns_def dispatch_find_def by (auto split: option.splits if_splits simp: Let_def)
  then show ?thesis
    by (auto simp: cpu_dispatch_pc_paired_def Let_def split: prod.split option.split) (metis fst_conv)
qed

lemma local_not_unwound: "local_returns table \<Longrightarrow> \<not> unwound table s_enter st s"
proof -
  assume l: "local_returns table"
  have "r = Return_normal" if "bounces table inn y r z" for inn y r z
    using that paired_normal [OF l] by (auto simp: bounces_def holds_def Let_def split: prod.splits) fastforce
  then show ?thesis by (auto simp: unwound_def)
qed

lemma obind_Done: "obind r f = Done x \<longleftrightarrow> (\<exists>y. r = Done y \<and> f y = Done x)"
  by (cases r) simp_all

lemma sync_S [simp]: "cs_S (sync_interp_to_cpu inn c) = cpu_sp inn"
  by (simp add: sync_interp_to_cpu_def cpu_mirrors_to_p_def)

lemma sync_sp [simp]: "cpu_sp (sync_cpu_to_interp c inn) = cs_S c"
  by (simp add: sync_cpu_to_interp_def)

text \<open>An exit of one step: a return above the frame base, or a body that unwound.\<close>

lemma call_exit:
  assumes "bridge_call table opc pc inn m y = Done (Returned y')"
  shows "\<exists>r z. cpu_dispatch_pc_paired table (interp_pc24 inn) (call_frame opc)
      (y\<lparr>sy_cpu := sync_interp_to_cpu inn (sy_cpu y), sy_machine := m\<rparr>) = Done (r, z)
    \<and> cpu_dispatch_has_entry table (sync_interp_to_cpu inn (sy_cpu y)) (interp_pc24 inn)
    \<and> r \<noteq> Return_normal \<and> cs_S (sy_cpu y') = cs_S (sy_cpu z)"
  using assms unfolding bridge_call_def Let_def by (auto split: if_splits prod.splits simp: obind_Done)

lemma step_exit:
  assumes "bridge_step table s_enter inn y = Done (landing, Returned y')"
  shows "s_enter < cs_S (sy_cpu y') \<or> unwound table s_enter (inn, y) (cs_S (sy_cpu y'))"
proof -
  obtain opc mem where r: "bridge_bus_read (cpu_mem inn) (interp_pc24 inn) = (opc, mem)" by fastforce
  define inn' where "inn' = snd (run_state (interp816_runOpcode interp816_opcode_hook) (inn\<lparr>cpu_mem := mem\<rparr>))"
  obtain m where m: "cpu_mem inn' = Done m"
    using assms by (cases "cpu_mem inn'") (simp_all add: bridge_step_def r Let_def inn'_def)
  show ?thesis
  proof (cases "is_call opc")
    case True
    then have "bridge_call table opc (interp_pc24 inn) inn' m y = Done (Returned y')"
      using assms m by (auto simp: bridge_step_def r Let_def inn'_def [symmetric] obind_Done)
    from call_exit [OF this] obtain r' z where z: "cpu_dispatch_pc_paired table (interp_pc24 inn') (call_frame opc)
        (y\<lparr>sy_cpu := sync_interp_to_cpu inn' (sy_cpu y), sy_machine := m\<rparr>) = Done (r', z)"
        "cpu_dispatch_has_entry table (sync_interp_to_cpu inn' (sy_cpu y)) (interp_pc24 inn')"
        "r' \<noteq> Return_normal" "cs_S (sy_cpu y') = cs_S (sy_cpu z)" by blast
    then have "bounces table inn y r' z" using True m by (simp add: bounces_def r inn'_def Let_def)
    then show ?thesis using unwound_here z(3,4) by metis
  next
    case False
    then show ?thesis using assms m by (auto simp: bridge_step_def r Let_def inn'_def [symmetric] split: if_splits)
  qed
qed

lemma loop_exit:
  "bridge_loop table s_enter cap inn y = Done (True, y') \<Longrightarrow>
    s_enter < cs_S (sy_cpu y') \<or> unwound table s_enter (inn, y) (cs_S (sy_cpu y'))"
proof (induction cap arbitrary: inn y)
  case (Suc cap)
  then obtain landing nxt where s: "bridge_step table s_enter inn y = Done (landing, nxt)"
    by (cases "bridge_step table s_enter inn y") auto
  then show ?case
    using Suc step_exit [of table s_enter inn y landing] unwound_further [of table s_enter inn y landing]
    by (cases nxt) fastforce+
qed simp

lemma run_exit:
  assumes "interp_bridge_run_ex n cap table pc s_exit y = Done (True, landing, y')"
  shows "s_exit < cs_S (sy_cpu y') \<or> unwound table s_exit (bridge_start n pc y, y) (cs_S (sy_cpu y'))"
  using assms loop_exit [of table s_exit cap "bridge_start n pc y" y y']
  by (auto simp: interp_bridge_run_ex_def Let_def obind_Done split: prod.splits)

lemma record_cpu [simp]: "sy_cpu (tier2_record site target mx kind ok y) = sy_cpu y"
  by (simp add: tier2_record_def)

lemma note_cpu [simp]: "sy_cpu (interp_tier_note y) = sy_cpu y"
  by (simp add: interp_tier_note_def)

text \<open>
  C34. What a tier-down does to the stack, whatever code it interprets and whatever the recompiled bodies do.
  It returns normally, and an interpreted call comes back with the stack pointer above its frame base, or
  exactly past the pushed frame when the step cap ends the run, or where a recompiled body that was called
  on the way and returned past its caller (\<open>SKIP_n\<close>) left it; a tail-dispatch likewise above the entry level,
  at the entry level plus the caller's frame, or where such a body left it. With bodies that return to their
  callers the last case does not arise.
\<close>

theorem tier_down_stack:
  "holds (\<lambda>(r, y'). r = Return_normal \<and> (cs_S (sy_cpu y) < cs_S (sy_cpu y') \<or> cs_S (sy_cpu y') = cs_S (sy_cpu y) + 2
        \<or> unwound table (cs_S (sy_cpu y)) (bridge_start n (target AND 0xffffff) (interp_tier_note y), interp_tier_note y) (cs_S (sy_cpu y'))))
      (interp_tier_run_call n cap table target source y)
    \<and> holds (\<lambda>(r, y'). r = Return_normal \<and> (entry_s < cs_S (sy_cpu y') \<or> cs_S (sy_cpu y') = entry_s + ucast (if hrv = 1 then 0 else hrv)
        \<or> unwound table entry_s (bridge_start n (target AND 0xffffff) (interp_tier_note y), interp_tier_note y) (cs_S (sy_cpu y'))))
      (interp_tier_dispatch_balanced n cap table target site entry_s hrv y)
    \<and> (local_returns table \<longrightarrow> \<not> unwound table s_enter st s)"
proof (intro conjI impI)
  show "holds (\<lambda>(r, y'). r = Return_normal \<and> (cs_S (sy_cpu y) < cs_S (sy_cpu y') \<or> cs_S (sy_cpu y') = cs_S (sy_cpu y) + 2
        \<or> unwound table (cs_S (sy_cpu y)) (bridge_start n (target AND 0xffffff) (interp_tier_note y), interp_tier_note y) (cs_S (sy_cpu y'))))
      (interp_tier_run_call n cap table target source y)"
    using run_exit [of n cap table "target AND 0xffffff" "cs_S (sy_cpu y)" "interp_tier_note y"]
    by (cases "interp_bridge_run_ex n cap table (target AND 0xffffff) (cs_S (sy_cpu y)) (interp_tier_note y)")
      (auto simp: interp_tier_run_call_def Let_def upd_cpu_def)
  show "holds (\<lambda>(r, y'). r = Return_normal \<and> (entry_s < cs_S (sy_cpu y') \<or> cs_S (sy_cpu y') = entry_s + ucast (if hrv = 1 then 0 else hrv)
        \<or> unwound table entry_s (bridge_start n (target AND 0xffffff) (interp_tier_note y), interp_tier_note y) (cs_S (sy_cpu y'))))
      (interp_tier_dispatch_balanced n cap table target site entry_s hrv y)"
    using run_exit [of n cap table "target AND 0xffffff" entry_s "interp_tier_note y"]
    by (cases "interp_bridge_run_ex n cap table (target AND 0xffffff) entry_s (interp_tier_note y)")
      (auto simp: interp_tier_dispatch_balanced_def cpu_unresolved_abandon_balanced_def Let_def upd_cpu_def)
qed (rule local_not_unwound)

text \<open>
  The code such a body returned is not passed on: the run ends with it, and the site that tiered down sees a
  normal return, whether the body asked to skip one caller or three.
\<close>

lemma bounce_ends_run:
  assumes "bounces table inn y r z" "r \<noteq> Return_normal"
  shows "\<exists>landing y'. bridge_step table s_enter inn y = Done (landing, Returned y') \<and> cs_S (sy_cpu y') = cs_S (sy_cpu z)"
  using assms by (auto simp: bounces_def bridge_step_def bridge_call_def Let_def split: prod.splits)

lemma skip_not_passed_on:
  assumes "bounces table (bridge_start n (target AND 0xffffff) (interp_tier_note y)) (interp_tier_note y) r z"
    "r \<noteq> Return_normal" "0 < cap"
  shows "\<exists>y'. interp_tier_run_call n cap table target source y = Done (Return_normal, y') \<and> cs_S (sy_cpu y') = cs_S (sy_cpu z)"
proof -
  obtain landing y' where "bridge_step table (cs_S (sy_cpu y)) (bridge_start n (target AND 0xffffff) (interp_tier_note y)) (interp_tier_note y)
      = Done (landing, Returned y')" "cs_S (sy_cpu y') = cs_S (sy_cpu z)"
    using bounce_ends_run [OF assms(1,2)] by blast
  moreover obtain k where "cap = Suc k" using assms(3) by (cases cap) auto
  ultimately show ?thesis by (simp add: interp_tier_run_call_def interp_bridge_run_ex_def Let_def)
qed

section \<open>An empty routine\<close>

lemma dispatch_rts: "dispatch brk 0x60 = op_rts"
  by (simp add: dispatch_def opcode_table_def doOpcode_rows)

lemma run_rts:
  assumes "\<not> cpu_stopped inn" "\<not> cpu_irqWanted inn" "\<not> cpu_nmiWanted inn" "\<not> cpu_e inn"
    "cpu_read inn mem (interp_pc24 inn) = (0x60, mem)" "cpu_mem inn = mem"
    "cpu_read inn mem (ucast (cpu_sp inn + 1)) = (l, mem)" "cpu_read inn mem (ucast (cpu_sp inn + 2)) = (h, mem)"
  shows "\<exists>c. snd (run_state (interp816_runOpcode hook) inn) =
    inn\<lparr>cpu_pc := word16 l h + 1, cpu_sp := cpu_sp inn + 2, cpu_cyclesUsed := c\<rparr>"
  using assms
  by (simp add: interp816_runOpcode_def serviceInterrupts_def interp816_readOpcode_def run_simps interp_pc24_def
      interp816_doOpcode_def dispatch_rts op_rts_def interp816_pullWord_def interp816_pullByte_def set_pc_def add.assoc) (cases inn, auto)

lemma stack_read:
  assumes "unat s < 0x2000"
  shows "bridge_bus_read (Done m) (ucast (s :: u16)) = (sn_ram (g_snes m) (ucast s), Done m)"
proof -
  have "bus_bank (ucast s) = 0" "ucast (ucast s :: u32) = s"
    by (rule bit_word_eqI; auto simp: bus_bank_def bit_simps dest: bit_imp_le_length)+
  moreover have "s < 0x2000" using assms by (simp add: word_less_nat_alt)
  ultimately show ?thesis by (simp add: bridge_bus_read_def cpu_read8_def cpu_ram_offset_def)
qed

lemma step_rts:
  assumes "cs_emulation (sy_cpu y) = 0" "unat (cs_S (sy_cpu y)) + 2 < 0x2000"
    "cpu_read8 (bus_bank pc) (ucast pc) (sy_machine y) = Done (0x60, sy_machine y)"
  shows "\<exists>landing y'. bridge_step table (cs_S (sy_cpu y)) (bridge_start n pc y) y = Done (landing, Returned y')
    \<and> cs_S (sy_cpu y') = cs_S (sy_cpu y) + 2 \<and> cs_A (sy_cpu y') = cs_A (sy_cpu y) \<and> sy_machine y' = sy_machine y"
proof -
  let ?inn = "bridge_start n pc y" and ?m = "sy_machine y" and ?s = "cs_S (sy_cpu y)"
  have f: "\<not> cpu_stopped ?inn" "\<not> cpu_irqWanted ?inn" "\<not> cpu_nmiWanted ?inn" "\<not> cpu_e ?inn" "cpu_mem ?inn = Done ?m"
    "cpu_sp ?inn = ?s" "cpu_read ?inn = bridge_bus_read" "cpu_a ?inn = cs_A (sy_cpu y)"
    "interp_pc24 ?inn = adr24 (bus_bank pc) (ucast pc)"
    using assms(1) by (simp_all add: bridge_start_def sync_cpu_to_interp_def interp816_init_def interp_pc24_def)
  have opc: "bridge_bus_read (Done ?m) (interp_pc24 ?inn) = (0x60, Done ?m)"
    using assms(3) by (simp add: f(9) bridge_bus_read_def)
  have u: "unat (?s + 1) = unat ?s + 1" "unat (?s + 2) = unat ?s + 2"
    using assms(2) by (simp_all add: unat_word_ariths)
  have inn: "?inn\<lparr>cpu_mem := Done ?m\<rparr> = ?inn" using f(5) by (cases ?inn) simp
  obtain c where r: "snd (run_state (interp816_runOpcode interp816_opcode_hook) ?inn) =
      ?inn\<lparr>cpu_pc := word16 (sn_ram (g_snes ?m) (ucast (?s + 1))) (sn_ram (g_snes ?m) (ucast (?s + 2))) + 1,
        cpu_sp := ?s + 2, cpu_cyclesUsed := c\<rparr>"
    using run_rts [OF f(1-4), of "Done ?m" "sn_ram (g_snes ?m) (ucast (?s + 1))" "sn_ram (g_snes ?m) (ucast (?s + 2))"
        interp816_opcode_hook] opc u assms(2) by (auto simp: f stack_read)
  have "?s < ?s + 2" using u by (simp add: word_less_nat_alt)
  then show ?thesis
    by (simp add: bridge_step_def opc f(5,8) inn r is_call_def is_ret_def Let_def)
      (simp add: sync_interp_to_cpu_def cpu_mirrors_to_p_def f(8))
qed

lemma call_rts:
  assumes "cs_emulation (sy_cpu y) = 0" "unat (cs_S (sy_cpu y)) + 2 < 0x2000" "0 < cap"
    "cpu_read8 (bus_bank (pc AND 0xffffff)) (ucast (pc AND 0xffffff)) (sy_machine y) = Done (0x60, sy_machine y)"
  shows "\<exists>y'. interp_tier_run_call n cap table pc source y = Done (Return_normal, y')
    \<and> cs_S (sy_cpu y') = cs_S (sy_cpu y) + 2 \<and> sy_machine y' = sy_machine y"
proof -
  let ?y = "interp_tier_note y"
  obtain landing y' where s: "bridge_step table (cs_S (sy_cpu ?y)) (bridge_start n (pc AND 0xffffff) ?y) ?y = Done (landing, Returned y')"
    "cs_S (sy_cpu y') = cs_S (sy_cpu ?y) + 2" "sy_machine y' = sy_machine ?y"
    using step_rts [of ?y "pc AND 0xffffff" table n] assms by (auto simp: interp_tier_note_def)
  obtain k where "cap = Suc k" using assms(3) by (cases cap) auto
  then show ?thesis
    using s by (simp add: interp_tier_run_call_def interp_bridge_run_ex_def Let_def tier2_record_def interp_tier_note_def)
qed

text \<open>A machine whose ROM holds only \<open>RTS\<close>.\<close>

definition rts_sys :: sys where
  "rts_sys = idle_sys\<lparr>sy_machine := upd_snes (\<lambda>s. s\<lparr>sn_cart := cart_load 1 (replicate 0x8000 0x60) 0x8000 0\<rparr>) idle_machine,
     sy_cpu := cpu_state_init\<lparr>cs_emulation := 0\<rparr>\<rparr>"

lemma rts_read: "cpu_read8 0 0x8000 (sy_machine rts_sys) = Done (0x60, sy_machine rts_sys)"
  by (simp add: cpu_read8_def cpu_ram_offset_def is_hw_reg_def cpu_sram_offset_def RomPtr_def rom_offset_def rom_window_def
      bus_bank_def load_def rts_sys_def cart_load_def adr24_def Let_def nth_replicate)

lemma mx_index_less: "unat (mx_index cpu) < 4"
proof -
  have bit0: "w AND 1 = 0 \<or> w AND 1 = 1" for w :: u8 by (simp add: and_one_eq mod2_eq_if)
  show ?thesis
    using bit0 [of "cs_m_flag cpu"] bit0 [of "cs_x_flag cpu"] unfolding mx_index_def by (elim disjE) simp_all
qed

theorem tier_down_stack_witness:
  "\<exists>y'. interp_tier_run_call 0 1000 [return_entry 0x9000] 0x8000 0x8100 rts_sys = Done (Return_normal, y')
     \<and> (0x1ff < cs_S (sy_cpu y') \<or> cs_S (sy_cpu y') = 0x201)"
proof -
  have l: "local_returns [return_entry 0x9000]"
    unfolding local_returns_def
    by (auto simp: cpu_dispatch_lookup_def dispatch_search.simps return_entry_def nth_replicate mx_index_less Let_def holds_def
        split: if_splits)
  obtain y' where y': "interp_tier_run_call 0 1000 [return_entry 0x9000] 0x8000 0x8100 rts_sys = Done (Return_normal, y')"
    using call_rts [of rts_sys 1000 "0x8000" 0 "[return_entry 0x9000]" "0x8100"] rts_read by (auto simp: rts_sys_def cpu_state_init_def bus_bank_def)
  moreover have "cs_S (sy_cpu rts_sys) = 0x1ff" by (simp add: rts_sys_def cpu_state_init_def)
  moreover have "\<not> unwound [return_entry 0x9000] 0x1ff st s" for st s
    using tier_down_stack [where table = "[return_entry 0x9000]" and s_enter = "0x1ff" and st = st and s = s] l by blast
  ultimately show ?thesis
    using conjunct1 [OF tier_down_stack [where table = "[return_entry 0x9000]" and n = 0 and cap = 1000 and target = "0x8000"
        and source = "0x8100" and y = rts_sys]] by auto
qed

end
