(* ===== verification/Rom_Load.thy ===== *)
theory Rom_Load
  imports Cart
begin

text \<open>
  The ROM loader of \<open>snes/snes_other.c\<close>: reading and scoring the four possible headers, choosing
  one, and expanding the image to a power of two by mirroring its tail. Sizes are C \<open>int\<close>s, here
  naturals. A size field that shifts past the range of an \<open>int\<close> has no defined value and is \<open>None\<close>;
  loading fails as \<open>Load_undefined\<close> only when such a value is used. The two loops are partial
  functions, so that not ending would be the value \<open>None\<close>.
\<close>

section \<open>Headers\<close>

record cart_header =
  ch_headerVersion :: u8
  ch_name :: "u8 list"
  ch_speed :: u8
  ch_type :: u8
  ch_coprocessor :: u8
  ch_chips :: u8
  ch_romSize :: "nat option"
  ch_ramSize :: "nat option"
  ch_region :: u8
  ch_maker :: u8
  ch_version :: u8
  ch_checksumComplement :: u16
  ch_checksum :: u16
  ch_makerCode :: "u8 list"
  ch_gameCode :: "u8 list"
  ch_flashSize :: "nat option"
  ch_exRamSize :: "nat option"
  ch_specialVersion :: u8
  ch_exCoprocessor :: u8
  ch_score :: int
  ch_pal :: bool
  ch_cartType :: u8

definition header_blank :: cart_header where
  "header_blank =
     \<lparr>ch_headerVersion = 0, ch_name = replicate 22 0, ch_speed = 0, ch_type = 0, ch_coprocessor = 0, ch_chips = 0,
      ch_romSize = Some 0, ch_ramSize = Some 0, ch_region = 0, ch_maker = 0, ch_version = 0, ch_checksumComplement = 0,
      ch_checksum = 0, ch_makerCode = replicate 3 0, ch_gameCode = replicate 5 0, ch_flashSize = Some 0,
      ch_exRamSize = Some 0, ch_specialVersion = 0, ch_exCoprocessor = 0, ch_score = - 50, ch_pal = False, ch_cartType = 0\<rparr>"

definition printable :: "u8 \<Rightarrow> u8" where
  "printable c = (if c \<ge> 0x20 \<and> c < 0x7f then c else 0x2e)"

text \<open>\<open>0x400 << x\<close> on \<open>int\<close>.\<close>

definition size_field :: "u8 \<Rightarrow> nat option" where
  "size_field x = (if x \<le> 20 then Some (0x400 * 2 ^ unat x) else None)"

text \<open>The score of a header, with the first opcode after reset when it lies in the image.\<close>

definition opcode_score :: "u8 option \<Rightarrow> int" where
  "opcode_score opc =
     (let opcode = (case opc of Some c \<Rightarrow> c | None \<Rightarrow> 0xff) in
      (if opc = None then - 14 else 0)
      + (if opcode = 0x78 \<or> opcode = 0x18 then 6 else 0)
      + (if opcode = 0x4c \<or> opcode = 0x5c \<or> opcode = 0x9c then 3 else 0)
      + (if opcode = 0x00 \<or> opcode = 0xff \<or> opcode = 0xdb then - 6 else 0))"

definition header_score :: "cart_header \<Rightarrow> u16 \<Rightarrow> u8 option \<Rightarrow> int" where
  "header_score h resetVector opc =
     (if ch_speed h = 2 \<or> ch_speed h = 3 then 5 else - 4)
     + (if ch_type h \<le> 3 \<or> ch_type h = 5 then 5 else - 2)
     + (if ch_coprocessor h \<le> 5 \<or> ch_coprocessor h \<ge> 0xe then 5 else - 2)
     + (if ch_chips h \<le> 6 \<or> ch_chips h = 9 \<or> ch_chips h = 0xa then 5 else - 2)
     + (if ch_region h \<le> 0x14 then 5 else - 2)
     + (if uint (ch_checksum h) + uint (ch_checksumComplement h) = 0xffff then 8 else - 6)
     + (if resetVector \<ge> 0x8000 then 8 else - 20)
     + opcode_score opc"

definition header_extension :: "u8 list \<Rightarrow> nat \<Rightarrow> cart_header \<Rightarrow> cart_header" where
  "header_extension data location h =
     (if ch_maker h = 0x33 then
        h\<lparr>ch_headerVersion := 3,
          ch_makerCode := map (\<lambda>i. printable (data ! (location - 0x10 + i))) [0..<2] @ [0],
          ch_gameCode := map (\<lambda>i. printable (data ! (location - 0xe + i))) [0..<4] @ [0],
          ch_flashSize := size_field (data ! (location - 4)), ch_exRamSize := size_field (data ! (location - 3)),
          ch_specialVersion := data ! (location - 2), ch_exCoprocessor := data ! (location - 1)\<rparr>
      else if data ! (location + 0x14) = 0 then h\<lparr>ch_headerVersion := 2, ch_exCoprocessor := data ! (location - 1)\<rparr>
      else h\<lparr>ch_headerVersion := 1\<rparr>)"

definition readHeader :: "u8 list \<Rightarrow> nat \<Rightarrow> cart_header" where
  "readHeader data location =
     (let rd = (\<lambda>i. data ! (location + i));
          h = header_blank\<lparr>ch_name := map (\<lambda>i. printable (rd i)) [0..<21] @ [0],
            ch_speed := drop_bit 4 (rd 0x15), ch_type := rd 0x15 AND 0xf,
            ch_coprocessor := drop_bit 4 (rd 0x16), ch_chips := rd 0x16 AND 0xf,
            ch_romSize := size_field (rd 0x17), ch_ramSize := size_field (rd 0x18),
            ch_region := rd 0x19, ch_maker := rd 0x1a, ch_version := rd 0x1b,
            ch_checksumComplement := word16 (rd 0x1c) (rd 0x1d), ch_checksum := word16 (rd 0x1e) (rd 0x1f)\<rparr>;
          h = header_extension data location h;
          resetVector = word16 (rd 0x3c) (rd 0x3d);
          opcodeLoc = location + 0x40 - 0x8000 + unat (resetVector AND 0x7fff);
          opc = (if opcodeLoc < length data then Some (data ! opcodeLoc) else None)
      in h\<lparr>ch_pal := ch_region h \<ge> 0x2 \<and> ch_region h \<le> 0xc \<or> ch_region h = 0x11,
           ch_cartType := (if location < 0x9000 then 1 else 2), ch_score := header_score h resetVector opc\<rparr>)"

section \<open>Loading\<close>

text \<open>The lengths needed and the locations tried; then the first header with the greatest positive score.\<close>

definition header_places :: "(nat \<times> nat) list" where
  "header_places = [(0x8000, 0x7fc0), (0x8200, 0x81c0), (0x10000, 0xffc0), (0x10200, 0x101c0)]"

definition read_headers :: "u8 list \<Rightarrow> cart_header list" where
  "read_headers data =
     map (\<lambda>(need, location). if length data \<ge> need then readHeader data location else header_blank) header_places"

definition choose_header :: "cart_header list \<Rightarrow> nat" where
  "choose_header hs =
     snd (fold (\<lambda>i (mx, used). if ch_score (hs ! i) > mx then (ch_score (hs ! i), i) else (mx, used)) [0..<4] (0, 0))"

partial_function (option) expand_length :: "nat \<Rightarrow> nat \<Rightarrow> nat option" where
  "expand_length len newLength = (if len \<le> newLength then Some newLength else expand_length len (newLength * 2))"

text \<open>The mirroring loop on the bytes written so far.\<close>

partial_function (option) mirror_tail :: "nat \<Rightarrow> nat \<Rightarrow> 'a list \<Rightarrow> 'a list option" where
  "mirror_tail newLength test bs =
     (if length bs \<noteq> newLength then
        mirror_tail newLength (test * 2)
          (if length bs AND test \<noteq> 0 then bs @ take test (drop (length bs - test) bs) else bs)
      else Some bs)"

datatype load_result = Load_failed | Load_undefined | Loaded cart

definition load_image :: "cart_header \<Rightarrow> u8 list \<Rightarrow> load_result" where
  "load_image h img =
     (if ch_chips h > 0
      then (case ch_ramSize h of None \<Rightarrow> Load_undefined
            | Some sz \<Rightarrow> Loaded (cart_load (ch_cartType h) img (length img) sz))
      else Loaded (cart_load (ch_cartType h) img (length img) 0))"

definition rom_body :: "u8 list \<Rightarrow> u8 list" where
  "rom_body data = (if odd (choose_header (read_headers data)) then drop 0x200 data else data)"

definition snes_loadRom :: "u8 list \<Rightarrow> load_result option" where
  "snes_loadRom data =
     (if length data < 0x8000 then Some Load_failed
      else let headers = read_headers data; used = choose_header headers; body = rom_body data in
        if ch_cartType (headers ! used) > 2 then Some Load_failed
        else Option.bind (expand_length (length body) 0x8000) (\<lambda>newLength.
          Option.bind (mirror_tail newLength 1 body) (\<lambda>img. Some (load_image (headers ! used) img))))"

section \<open>The loops end\<close>

lemma expand_length_ends:
  assumes "0 < n" "len \<le> n * 2 ^ d"
  shows "\<exists>k. expand_length len n = Some (n * 2 ^ k) \<and> len \<le> n * 2 ^ k \<and> (k = 0 \<or> n * 2 ^ k < 2 * len)"
  using assms
proof (induction d arbitrary: n)
  case 0
  then show ?case by (auto simp: expand_length.simps intro: exI [of _ 0])
next
  case (Suc d)
  show ?case
  proof (cases "len \<le> n")
    case True
    then show ?thesis by (auto simp: expand_length.simps intro: exI [of _ 0])
  next
    case False
    have "len \<le> n * 2 * 2 ^ d" using Suc.prems by (simp add: mult.assoc)
    then obtain k where "expand_length len (n * 2) = Some (n * 2 * 2 ^ k)" "len \<le> n * 2 * 2 ^ k"
      "k = 0 \<or> n * 2 * 2 ^ k < 2 * len"
      using Suc.IH [of "n * 2"] Suc.prems by auto
    then show ?thesis
      using False by (intro exI [of _ "Suc k"]) (auto simp: expand_length.simps mult.assoc)
  qed
qed

text \<open>The lowest bits of the length are cleared one by one, so the length reaches the power of two.\<close>

lemma bit_of_multiple: "(2 ^ j * q) AND 2 ^ j = (if odd q then 2 ^ j else (0::nat))"
proof -
  have "push_bit j q AND push_bit j 1 = push_bit j (q AND 1)" by (simp only: push_bit_and)
  moreover have "push_bit j q = 2 ^ j * q" "push_bit j 1 = (2::nat) ^ j" "push_bit j (q AND 1) = 2 ^ j * (q mod 2)"
    by (simp_all add: push_bit_eq_mult and_one_eq)
  ultimately show ?thesis by (simp add: odd_iff_mod_2_eq_one)
qed

lemma mirror_tail_ends:
  assumes "length bs = 2 ^ j * q" "0 < q" "length bs \<le> 2 ^ k" "k - j = d"
  shows "\<exists>img. mirror_tail (2 ^ k) (2 ^ j) bs = Some img \<and> length img = 2 ^ k
    \<and> take (length bs) img = bs \<and> set img = set bs"
  using assms
proof (induction d arbitrary: j q bs)
  case 0
  then have "(2::nat) ^ k \<le> 2 ^ j" by (simp add: power_increasing)
  moreover have "2 ^ j \<le> length bs" using 0 by simp
  ultimately have "length bs = 2 ^ k" using 0(3) by linarith
  then show ?case by (subst mirror_tail.simps) simp
next
  case (Suc d)
  show ?case
  proof (cases "length bs = 2 ^ k")
    case True
    then show ?thesis by (subst mirror_tail.simps) simp
  next
    case False
    define bs' where "bs' = (if length bs AND 2 ^ j \<noteq> 0 then bs @ take (2 ^ j) (drop (length bs - 2 ^ j) bs) else bs)"
    have step: "mirror_tail (2 ^ k) (2 ^ j) bs = mirror_tail (2 ^ k) (2 ^ Suc j) bs'"
      using False by (subst mirror_tail.simps) (simp add: bs'_def mult.commute)
    have k: "(2::nat) ^ k = 2 ^ j * 2 ^ (k - j)" 
    proof -
      have "k = j + (k - j)" using Suc.prems(4) by arith
      then show ?thesis by (metis power_add)
    qed
    have "q < 2 ^ (k - j)" using False Suc.prems(1,3) unfolding k by simp
    have len: "length bs' = 2 ^ Suc j * ((q + 1) div 2)"
    proof (cases "odd q")
      case True
      then have "length bs' = 2 ^ j * (q + 1)"
        using Suc.prems(1,2) by (auto simp: bs'_def bit_of_multiple)
      with True show ?thesis by (auto elim!: oddE)
    next
      case False
      then show ?thesis using Suc.prems(1) by (auto simp: bs'_def bit_of_multiple elim!: evenE)
    qed
    have "(q + 1) div 2 * 2 \<le> 2 ^ (k - j)"
      using \<open>q < 2 ^ (k - j)\<close> Suc.prems(4) by (cases "k - j") auto
    then have le: "length bs' \<le> 2 ^ k" unfolding len k by (simp add: mult.assoc mult.commute)
    have set': "set bs' = set bs"
      by (auto simp: bs'_def dest: in_set_takeD in_set_dropD)
    obtain img where "mirror_tail (2 ^ k) (2 ^ Suc j) bs' = Some img" "length img = 2 ^ k"
      "take (length bs') img = bs'" "set img = set bs'"
      using Suc.IH [OF len _ le] Suc.prems(2,4) diff_Suc [of k j] by auto
    moreover have "\<exists>ys. bs' = bs @ ys" by (simp add: bs'_def)
    then obtain ys where "bs' = bs @ ys" ..
    then have "take (length bs) bs' = bs" "length bs \<le> length bs'" by simp_all
    ultimately show ?thesis
      using step set' by (metis min.absorb1 take_take)
  qed
qed

text \<open>Only a header with a positive score displaces the first one.\<close>

lemma choose_header_cases: "choose_header hs = 0 \<or> choose_header hs < 4 \<and> 0 < ch_score (hs ! choose_header hs)"
proof -
  let ?f = "\<lambda>i (mx, used). if ch_score (hs ! i) > mx then (ch_score (hs ! i), i) else (mx, used)"
  have "0 \<le> fst (fold ?f is s) \<and> (snd (fold ?f is s) = 0 \<or> snd (fold ?f is s) < 4 \<and> 0 < ch_score (hs ! snd (fold ?f is s)))"
    if "\<forall>i\<in>set is. i < 4" "0 \<le> fst s" "snd s = 0 \<or> snd s < 4 \<and> 0 < ch_score (hs ! snd s)" for s :: "int \<times> nat" and "is" :: "nat list"
    using that
  proof (induction "is" arbitrary: s)
    case (Cons i "is")
    show ?case
      unfolding fold.simps comp_apply
      by (rule Cons.IH) (use Cons.prems in \<open>auto split: prod.split\<close>)
  qed simp
  from this [of "[0..<4]" "(0, 0)"] show ?thesis unfolding choose_header_def by simp
qed

lemma blank_score: "ch_score header_blank = - 50" by (simp add: header_blank_def)

lemma read_type: "ch_cartType (readHeader data location) = (if location < 0x9000 then 1 else 2)"
  by (simp add: readHeader_def Let_def)

lemma chosen_read:
  assumes "0x8000 \<le> length data"
  defines "u \<equiv> choose_header (read_headers data)"
  shows "fst (header_places ! u) \<le> length data" "u < 4" "read_headers data ! u = readHeader data (snd (header_places ! u))"
proof -
  have rd: "read_headers data ! i = (if fst (header_places ! i) \<le> length data then readHeader data (snd (header_places ! i)) else header_blank)"
    if "i < 4" for i
  proof -
    have "length header_places = 4" by (simp add: header_places_def)
    with that show ?thesis by (simp add: read_headers_def split_beta)
  qed
  show "u < 4" using choose_header_cases [of "read_headers data"] by (auto simp: u_def)
  with rd have u: "read_headers data ! u = (if fst (header_places ! u) \<le> length data then readHeader data (snd (header_places ! u)) else header_blank)"
    by blast
  show fits: "fst (header_places ! u) \<le> length data"
  proof (cases "u = 0")
    case True
    then show ?thesis using assms(1) by (simp add: header_places_def)
  next
    case False
    then have "0 < ch_score (read_headers data ! u)" using choose_header_cases [of "read_headers data"] by (auto simp: u_def)
    then show ?thesis using u by (auto simp: blank_score split: if_splits)
  qed
  then show "read_headers data ! u = readHeader data (snd (header_places ! u))" using u by simp
qed

lemma chosen_type:
  "0x8000 \<le> length data \<Longrightarrow> ch_cartType (read_headers data ! choose_header (read_headers data)) \<in> {1, 2}"
  using chosen_read(3) [of data] by (simp add: read_type)

lemma chosen_odd:
  assumes "0x8000 \<le> length data" "odd (choose_header (read_headers data))"
  shows "0x8200 \<le> length data"
proof -
  have "choose_header (read_headers data) \<in> {1, 3}"
    using chosen_read(2) [OF assms(1)] assms(2) by (auto simp: less_Suc_eq numeral_eq_Suc)
  then show ?thesis using chosen_read(1) [OF assms(1)] by (auto simp: header_places_def)
qed

lemma rom_body_length:
  "0x8000 \<le> length data \<Longrightarrow> 0x8000 \<le> length (rom_body data)" "length (rom_body data) \<le> length data"
  using chosen_odd [of data] by (auto simp: rom_body_def)

text \<open>
  C37. Loading ends and yields an image the address masks are right for: for every file of at least
  32 KB and at most 1 GB both loops end; the image's size is a power of two, at least 32 KB and less
  than twice the file's body, it starts with the body, and the rest repeats bytes of it.
\<close>

theorem snes_loadRom_image:
  assumes "0x8000 \<le> length data" "length data \<le> 2 ^ 30"
  shows "\<exists>r. snes_loadRom data = Some r \<and>
    (\<forall>cart. r = Loaded cart \<longrightarrow>
      (\<exists>k\<in>{15..30}. cart_romSize cart = 2 ^ k \<and> length (cart_rom cart) = 2 ^ k \<and> (k = 15 \<or> 2 ^ k < 2 * length (rom_body data)))
      \<and> take (length (rom_body data)) (cart_rom cart) = rom_body data \<and> set (cart_rom cart) = set (rom_body data)
      \<and> (cart_type cart = 1 \<or> cart_type cart = 2))"
proof -
  let ?body = "rom_body data" and ?h = "read_headers data ! choose_header (read_headers data)"
  have "length ?body \<le> 0x8000 * 2 ^ 15" using rom_body_length(2) [of data] assms(2) by simp
  then obtain e where e: "expand_length (length ?body) 0x8000 = Some (0x8000 * 2 ^ e)" "length ?body \<le> 0x8000 * 2 ^ e"
    "e = 0 \<or> 0x8000 * 2 ^ e < 2 * length ?body"
    using expand_length_ends [of "0x8000" "length ?body" 15] by auto
  define k where "k = 15 + e"
  have k: "(2::nat) ^ k = 0x8000 * 2 ^ e" by (simp add: k_def power_add)
  have "(2::nat) ^ k < 2 ^ 31" if "e \<noteq> 0" using that e(3) \<open>length ?body \<le> 0x8000 * 2 ^ 15\<close> by (simp add: k)
  then have "k \<le> 30" using power_less_imp_less_exp [of "2 :: nat" k 31] by (cases "e = 0") (auto simp: k_def)
  obtain img where img: "mirror_tail (2 ^ k) (2 ^ 0) ?body = Some img" "length img = 2 ^ k"
    "take (length ?body) img = ?body" "set img = set ?body"
  proof -
    have "0 < length ?body" using rom_body_length(1) [OF assms(1)] by linarith
    then show thesis using mirror_tail_ends [of ?body 0 "length ?body" k k] e(2) k that by auto
  qed
  have type: "ch_cartType ?h = 1 \<or> ch_cartType ?h = 2" using chosen_type [OF assms(1)] by simp
  then have r: "snes_loadRom data = Some (load_image ?h img)"
    using assms(1) e(1) img(1) by (auto simp: snes_loadRom_def k Let_def)
  have "cart_romSize cart = 2 ^ k \<and> cart_rom cart = img \<and> cart_type cart = ch_cartType ?h" if "load_image ?h img = Loaded cart" for cart
    using that img(2) by (auto simp: load_image_def cart_load_def split: if_splits option.splits)
  then show ?thesis
    using r img type e(3) k \<open>k \<le> 30\<close> k_def by (intro exI [of _ "load_image ?h img"]) (auto intro!: bexI [of _ k])
qed

lemma zero_header:
  assumes "location + 0x40 \<le> n"
  shows "ch_chips (readHeader (replicate n 0) location) = 0"
  using assms by (simp add: readHeader_def header_extension_def Let_def nth_replicate)

theorem snes_loadRom_image_witness:
  "\<exists>cart. snes_loadRom (replicate 0xc000 0) = Some (Loaded cart) \<and> 0x10000 \<le> length (cart_rom cart)"
proof -
  let ?d = "replicate 0xc000 0 :: u8 list"
  let ?u = "choose_header (read_headers ?d)"
  obtain r where r: "snes_loadRom ?d = Some r"
    "\<And>cart. r = Loaded cart \<Longrightarrow> (\<exists>k. length (cart_rom cart) = 2 ^ k) \<and> take (length (rom_body ?d)) (cart_rom cart) = rom_body ?d"
    using snes_loadRom_image [of ?d] by auto
  have u: "?u < 4" "fst (header_places ! ?u) \<le> 0xc000" using chosen_read [of ?d] by simp_all
  have "?u \<in> set [3, 2, 1, 0]" using u(1) by simp arith
  with u(2) have "snd (header_places ! ?u) + 0x40 \<le> 0xc000" by (auto simp: header_places_def)
  then have "ch_chips (read_headers ?d ! ?u) = 0" using chosen_read(3) [of ?d] zero_header by simp
  then have "\<exists>cart. r = Loaded cart"
    using r(1) chosen_type [of ?d]
    by (auto simp: snes_loadRom_def load_image_def Let_def bind_eq_Some_conv split: if_splits)
  then obtain cart where c: "r = Loaded cart" ..
  have "0xbe00 \<le> length (rom_body ?d)" by (simp add: rom_body_def)
  moreover have "length (rom_body ?d) \<le> length (cart_rom cart)" using r(2) [OF c] by (metis length_take min.cobounded1 nat_le_linear min.absorb2)
  moreover obtain k where k: "length (cart_rom cart) = 2 ^ k" using r(2) [OF c] by blast
  ultimately have "(2::nat) ^ 15 < 2 ^ k" by simp
  then have "16 \<le> k" using power_less_imp_less_exp [of "2 :: nat" 15 k] by simp
  then have "0x10000 \<le> length (cart_rom cart)" using power_increasing [of 16 k "2 :: nat"] by (simp add: k)
  with r(1) c show ?thesis by blast
qed

end
