(* ===== verification/Rtl_Boot.thy ===== *)
theory Rtl_Boot
  imports Cpu_State
begin

text \<open>
  Reset and the upload of sound programs, \<open>RtlReset\<close> and \<open>RtlUploadSpcImageFromDp\<close> of
  \<open>common_rtl.c\<close>. An image is a sequence of blocks in ROM, each a length, a target address and its
  bytes, ended by a block of length zero whose target is the entry point. The upload writes the audio
  memory directly instead of running the boot program. Pointers walk through the ROM image; a read past
  its end is \<open>Abort\<close>. The sound player's own initialisation is a function of the game, an argument of
  \<open>RtlReset\<close>; the accumulator of owed cycles and its sync points, which only determine how many cycles
  the next catch-up is given (an input, theory \<open>Rtl_Apu\<close>), and the legacy register record of
  \<open>SnesEnterNativeMode\<close> are left out.
\<close>

section \<open>Reset\<close>

definition RtlReset :: "(machine \<Rightarrow> machine) \<Rightarrow> u32 \<Rightarrow> machine \<Rightarrow> machine" where
  "RtlReset player_initialize mode m =
     (let m = m\<lparr>snes_frame_counter := 0, g_main_cycles := 0, g_apu_pace_cycles := 0\<rparr>;
          m = upd_snes (snes_reset True) m;
          m = upd_snes (\<lambda>s. s\<lparr>sn_ppu := ppu_reset\<rparr>) m;
          m = (if \<not> tst mode 1
            then upd_snes (\<lambda>s. s\<lparr>sn_cart := (sn_cart s)
                   \<lparr>cart_ram := replicate (unat (cart_ramSize (sn_cart s))) 0\<rparr>\<rparr>) m
            else m)
      in player_initialize m)"

section \<open>Upload\<close>

definition upd_apu :: "(spc \<Rightarrow> spc) \<Rightarrow> machine \<Rightarrow> machine" where
  "upd_apu f = upd_snes (\<lambda>s. s\<lparr>sn_apu := f (sn_apu s)\<rparr>)"

definition aram_set :: "u16 \<Rightarrow> u8 \<Rightarrow> spc \<Rightarrow> spc" where
  "aram_set a v spc = spc\<lparr>spc_apu := (spc_apu spc)\<lparr>apu_ram := (apu_ram (spc_apu spc))(a := v)\<rparr>\<rparr>"

definition load_word :: "loc \<Rightarrow> machine \<Rightarrow> u16 outcome" where
  "load_word p m = obind (load p m) (\<lambda>l. obind (load (loc_add 1 p) m) (\<lambda>h. Done (word16 l h)))"

text \<open>The inner loop from index \<open>i\<close>, with \<open>k\<close> bytes left.\<close>

primrec upload_bytes :: "nat \<Rightarrow> nat \<Rightarrow> u16 \<Rightarrow> loc \<Rightarrow> machine \<Rightarrow> machine outcome" where
  "upload_bytes 0 i target p m = Done m"
| "upload_bytes (Suc k) i target p m =
     obind (load (loc_add i p) m) (\<lambda>v. upload_bytes k (Suc i) target p (upd_apu (aram_set (target + of_nat i) v) m))"

text \<open>The outer loop; the stream is bad when it has more than 512 blocks.\<close>

function upload_blocks :: "nat \<Rightarrow> loc \<Rightarrow> machine \<Rightarrow> (u16 option \<times> machine) outcome" where
  "upload_blocks block_count p m =
     obind (load_word p m) (\<lambda>n. obind (load_word (loc_add 2 p) m) (\<lambda>target.
       if n = 0 then Done (Some target, m)
       else obind (upload_bytes (unat n) 0 target (loc_add 4 p) m) (\<lambda>m.
         if Suc block_count > 512 then Done (None, m)
         else upload_blocks (Suc block_count) (loc_add (unat n) (loc_add 4 p)) m)))"
  by pat_completeness auto

termination upload_blocks
  by (relation "measure (\<lambda>(block_count, _). 513 - block_count)") auto

declare upload_blocks.simps [simp del]

definition upload_finish :: "u16 \<Rightarrow> spc \<Rightarrow> spc" where
  "upload_finish final_pc spc =
     (let ipl_phase = apu_romReadable (spc_apu spc);
          spc = spc\<lparr>spc_apu := (apu_clearPortQueue (spc_apu spc))
                  \<lparr>apu_inPorts := replicate 6 0, apu_outPorts := replicate 4 0\<rparr>\<rparr>
      in if ipl_phase then
           let spc = spc\<lparr>spc_apu := (spc_apu spc)\<lparr>apu_romReadable := False, apu_cpuCyclesLeft := 0\<rparr>\<rparr>
           in if final_pc \<noteq> 0
              then spc\<lparr>spc_a := 0, spc_x := 0, spc_y := 0,
                       spc_sp := (if spc_sp spc = 0 then 0xef else spc_sp spc), spc_pc := final_pc\<rparr>
              else spc
         else spc)"

definition upload_result :: "cpu_state \<Rightarrow> cpu_state" where
  "upload_result cpu =
     cpu\<lparr>cs_A := cs_A cpu AND 0xff00, cs_X := 0, cs_Y := 0, cs_flag_Z := 1, cs_flag_N := 0,
         cs_P := (cs_P cpu AND NOT 0x82) OR 0x02\<rparr>"

definition RtlUploadSpcImageFromDpInternal ::
    "bool \<Rightarrow> cpu_state \<Rightarrow> machine \<Rightarrow> (bool \<times> cpu_state \<times> machine) outcome" where
  "RtlUploadSpcImageFromDpInternal update_cpu_result cpu m =
     (let dp = cs_D cpu; ram = (\<lambda>i. sn_ram (g_snes m) (ucast (dp + i)));
          data_lo = word16 (ram 0) (ram 1); data_bank = ram 2
      in case RomPtr (adr24 data_bank data_lo) m of (p, m) \<Rightarrow>
        obind (upload_blocks 0 p m) (\<lambda>(r, m).
          case r of None \<Rightarrow> Done (False, cpu, m)
          | Some final_pc \<Rightarrow>
              Done (True, if update_cpu_result then upload_result cpu else cpu, upd_apu (upload_finish final_pc) m)))"

definition RtlUploadSpcImageFromDp :: "cpu_state \<Rightarrow> machine \<Rightarrow> (bool \<times> cpu_state \<times> machine) outcome" where
  "RtlUploadSpcImageFromDp = RtlUploadSpcImageFromDpInternal False"

definition RtlHandleSpcUpload :: "cpu_state \<Rightarrow> machine \<Rightarrow> (bool \<times> cpu_state \<times> machine) outcome" where
  "RtlHandleSpcUpload = RtlUploadSpcImageFromDpInternal True"

section \<open>Images\<close>

text \<open>What an image is: blocks with their target addresses, and the bytes that encode them.\<close>

definition word_bytes :: "u16 \<Rightarrow> u8 list" where
  "word_bytes w = [lo8 w, hi8 w]"

definition encode_block :: "u16 \<times> u8 list \<Rightarrow> u8 list" where
  "encode_block b = word_bytes (of_nat (length (snd b))) @ word_bytes (fst b) @ snd b"

definition encode_image :: "(u16 \<times> u8 list) list \<Rightarrow> u16 \<Rightarrow> u8 list" where
  "encode_image bs entry = concat (map encode_block bs) @ word_bytes 0 @ word_bytes entry"

definition block_ok :: "u16 \<times> u8 list \<Rightarrow> bool" where
  "block_ok b \<longleftrightarrow> 0 < length (snd b) \<and> length (snd b) < 0x10000"

definition place_block :: "u16 \<times> u8 list \<Rightarrow> aram \<Rightarrow> aram" where
  "place_block b ram = (\<lambda>a. let i = unat (a - fst b) in if i < length (snd b) then snd b ! i else ram a)"

definition put_aram :: "aram \<Rightarrow> spc \<Rightarrow> spc" where
  "put_aram ram spc = spc\<lparr>spc_apu := (spc_apu spc)\<lparr>apu_ram := ram\<rparr>\<rparr>"

text \<open>The bytes at a position of the ROM image.\<close>

definition rom_has :: "machine \<Rightarrow> nat \<Rightarrow> u8 list \<Rightarrow> bool" where
  "rom_has m i bs \<longleftrightarrow> (let rom = cart_rom (sn_cart (g_snes m)) in i + length bs \<le> length rom \<and> take (length bs) (drop i rom) = bs)"

lemma rom_has_append: "rom_has m i (xs @ ys) \<longleftrightarrow> rom_has m i xs \<and> rom_has m (i + length xs) ys"
  unfolding rom_has_def Let_def by (auto simp: take_add add.commute)

lemma rom_has_nth: "rom_has m i bs \<Longrightarrow> k < length bs \<Longrightarrow> load (Rom (i + k)) m = Done (bs ! k)"
proof -
  assume "rom_has m i bs" and k: "k < length bs"
  then have le: "i + length bs \<le> length (cart_rom (sn_cart (g_snes m)))"
    and bs: "bs = take (length bs) (drop i (cart_rom (sn_cart (g_snes m))))"
    by (simp_all add: rom_has_def Let_def)
  have "bs ! k = cart_rom (sn_cart (g_snes m)) ! (i + k)"
    using le k by (subst bs) simp
  then show ?thesis using le k by (simp add: load_def)
qed

text \<open>Writing audio memory changes nothing the reader looks at.\<close>

lemma upd_apu_rom [simp]: "cart_rom (sn_cart (g_snes (upd_apu f m))) = cart_rom (sn_cart (g_snes m))"
  by (simp add: upd_apu_def upd_snes_def)

lemma load_rom_upd_apu [simp]: "load (Rom i) (upd_apu f m) = load (Rom i) m"
  by (simp add: load_def)

lemma rom_has_upd_apu [simp]: "rom_has (upd_apu f m) i bs = rom_has m i bs"
  by (simp add: rom_has_def)

lemma upd_apu_comp: "upd_apu f (upd_apu g m) = upd_apu (f \<circ> g) m"
  by (simp add: upd_apu_def upd_snes_def)

lemma aram_of_set [simp]: "apu_ram (spc_apu (aram_set a v spc)) = (apu_ram (spc_apu spc))(a := v)"
  by (simp add: aram_set_def)

lemma put_aram_set [simp]: "put_aram ram (aram_set a v spc) = put_aram ram spc"
  by (simp add: put_aram_def aram_set_def)

section \<open>What an upload does\<close>

text \<open>The bytes from index \<open>i\<close> on.\<close>

definition place_from :: "nat \<Rightarrow> u16 \<times> u8 list \<Rightarrow> aram \<Rightarrow> aram" where
  "place_from i b ram = (\<lambda>a. let k = unat (a - fst b) in if i \<le> k \<and> k < length (snd b) then snd b ! k else ram a)"

lemma place_from_0: "place_from 0 b = place_block b"
  by (simp add: place_from_def place_block_def fun_eq_iff)

lemma place_from_step:
  assumes "i < length bs" "length bs < 0x10000"
  shows "place_from (Suc i) (t, bs) (ram(t + of_nat i := bs ! i)) = place_from i (t, bs) ram"
proof
  fix a
  have "a = t + of_nat i \<longleftrightarrow> unat (a - t) = i"
    using assms by (auto simp: unat_of_nat)
  then show "place_from (Suc i) (t, bs) (ram(t + of_nat i := bs ! i)) a = place_from i (t, bs) ram a"
    using assms by (auto simp: place_from_def Let_def)
qed

lemma place_from_end: "length (snd b) \<le> i \<Longrightarrow> place_from i b ram = ram"
  by (auto simp: place_from_def Let_def fun_eq_iff)

lemma upload_bytes_run:
  assumes "rom_has m p bs" "length bs < 0x10000" "i + k = length bs"
  shows "upload_bytes k i t (Rom p) m = Done (upd_apu (\<lambda>spc. put_aram (place_from i (t, bs) (apu_ram (spc_apu spc))) spc) m)"
  using assms
proof (induction k arbitrary: i m)
  case 0
  then show ?case by (simp add: place_from_end put_aram_def upd_apu_def upd_snes_def)
next
  case (Suc k)
  then have i: "i < length bs" "Suc i + k = length bs" by auto
  show ?case
    using rom_has_nth [OF Suc.prems(1) i(1)] Suc.IH [OF _ Suc.prems(2) i(2)] Suc.prems(1,2) i(1)
    by (simp add: loc_add_def upd_apu_comp comp_def place_from_step)
qed

lemma load_word_run: "rom_has m p (word_bytes w) \<Longrightarrow> load_word (Rom p) m = Done w"
  using rom_has_nth [of m p "word_bytes w" 0] rom_has_nth [of m p "word_bytes w" 1]
  by (simp add: load_word_def word_bytes_def loc_add_def)

lemma length_word_bytes [simp]: "length (word_bytes w) = 2"
  by (simp add: word_bytes_def)

text \<open>All blocks, the first ones first.\<close>

definition place_all :: "(u16 \<times> u8 list) list \<Rightarrow> spc \<Rightarrow> spc" where
  "place_all bs spc = put_aram (fold place_block bs (apu_ram (spc_apu spc))) spc"

lemma place_all_Nil [simp]: "place_all [] spc = spc"
  by (simp add: place_all_def put_aram_def)

lemma place_all_Cons: "place_all (b # bs) = place_all bs \<circ> place_all [b]"
  by (simp add: place_all_def fun_eq_iff put_aram_def)

lemma upd_apu_id [simp]: "upd_apu (\<lambda>spc. spc) m = m"
  by (simp add: upd_apu_def upd_snes_def)

lemma upload_block_step:
  assumes "rom_has m p (encode_block b)" "block_ok b"
  shows "upload_blocks c (Rom p) m =
    (let m' = upd_apu (place_all [b]) m
     in if c \<ge> 512 then Done (None, m') else upload_blocks (Suc c) (Rom (p + length (encode_block b))) m')"
proof -
  obtain t bs where b: "b = (t, bs)" by fastforce
  have r: "rom_has m p (word_bytes (of_nat (length bs)))" "rom_has m (p + 2) (word_bytes t)" "rom_has m (p + 4) bs"
    using assms(1) by (simp_all add: b encode_block_def rom_has_append add.assoc numeral_eq_Suc)
  have n: "unat (of_nat (length bs) :: u16) = length bs" "0 < length bs" "length bs < 0x10000"
    using assms(2) by (simp_all add: b block_ok_def unat_of_nat)
  have "(of_nat (length bs) :: u16) \<noteq> 0" using n(1,2) by (metis unat_0 less_not_refl)
  moreover have "length (encode_block b) = 4 + length bs" by (simp add: b encode_block_def)
  ultimately show ?thesis
    using load_word_run [OF r(1)] load_word_run [OF r(2)] upload_bytes_run [OF r(3) n(3), of 0 "length bs" t] n(1)
    by (subst upload_blocks.simps)
      (simp add: loc_add_def Let_def place_from_0 place_all_def [abs_def] b add.assoc)
qed

lemma upload_blocks_run:
  assumes "rom_has m p (encode_image bs entry)" "list_all block_ok bs" "c + length bs \<le> 512"
  shows "upload_blocks c (Rom p) m = Done (Some entry, upd_apu (place_all bs) m)"
  using assms
proof (induction bs arbitrary: c p m)
  case Nil
  then have "load_word (Rom p) m = Done 0" "load_word (Rom (p + 2)) m = Done entry"
    by (simp_all add: encode_image_def rom_has_append load_word_run)
  then show ?case by (subst upload_blocks.simps) (simp add: loc_add_def place_all_Nil [abs_def])
next
  case (Cons b bs)
  from Cons.prems(1) have r: "rom_has m p (encode_block b)" "rom_has m (p + length (encode_block b)) (encode_image bs entry)"
    by (simp_all add: encode_image_def rom_has_append add.assoc)
  show ?case
    using upload_block_step [OF r(1), of c] Cons.IH [of "upd_apu (place_all [b]) m" "p + length (encode_block b)" "Suc c"]
      r(2) Cons.prems(2,3)
    by (simp add: upd_apu_comp place_all_Cons [symmetric])
qed

lemma upload_blocks_overflow:
  assumes "rom_has m p (concat (map encode_block bs))" "list_all block_ok bs" "c + length bs = 513" "bs \<noteq> []"
  shows "upload_blocks c (Rom p) m = Done (None, upd_apu (place_all bs) m)"
  using assms
proof (induction bs arbitrary: c p m)
  case Nil
  then show ?case by simp
next
  case (Cons b bs)
  from Cons.prems(1) have r: "rom_has m p (encode_block b)"
      "rom_has m (p + length (encode_block b)) (concat (map encode_block bs))"
    by (simp_all add: rom_has_append)
  show ?case
  proof (cases "bs = []")
    case True
    then show ?thesis using upload_block_step [OF r(1), of c] Cons.prems(2,3) by simp
  next
    case False
    then show ?thesis
      using upload_block_step [OF r(1), of c] Cons.IH [of "upd_apu (place_all [b]) m" "p + length (encode_block b)" "Suc c"]
        r(2) Cons.prems(2,3)
      by (cases bs) (auto simp: upd_apu_comp place_all_Cons [symmetric])
  qed
qed

text \<open>The image's address, read from the direct page.\<close>

definition upload_source :: "cpu_state \<Rightarrow> machine \<Rightarrow> u32" where
  "upload_source cpu m =
     (let ram = (\<lambda>i. sn_ram (g_snes m) (ucast (cs_D cpu + i))) in adr24 (ram 2) (word16 (ram 0) (ram 1)))"

lemma upload_unfold:
  assumes "rom_window (upload_source cpu m)"
  shows "RtlUploadSpcImageFromDpInternal upd cpu m =
    obind (upload_blocks 0 (Rom (rom_offset (sn_cart (g_snes m)) (upload_source cpu m))) m) (\<lambda>(r, m).
      case r of None \<Rightarrow> Done (False, cpu, m)
      | Some final_pc \<Rightarrow> Done (True, if upd then upload_result cpu else cpu, upd_apu (upload_finish final_pc) m))"
  using assms by (simp add: RtlUploadSpcImageFromDpInternal_def upload_source_def RomPtr_def Let_def)

text \<open>What holds of the audio unit after an upload.\<close>

definition uploaded :: "(u16 \<times> u8 list) list \<Rightarrow> u16 \<Rightarrow> spc \<Rightarrow> spc \<Rightarrow> bool" where
  "uploaded bs entry spc spc' \<longleftrightarrow>
     apu_ram (spc_apu spc') = fold place_block bs (apu_ram (spc_apu spc))
     \<and> apu_inPorts (spc_apu spc') = replicate 6 0 \<and> apu_outPorts (spc_apu spc') = replicate 4 0
     \<and> apu_portQHead (spc_apu spc') = apu_portQTail (spc_apu spc') \<and> \<not> apu_romReadable (spc_apu spc')
     \<and> spc_pc spc' = (if apu_romReadable (spc_apu spc) \<and> entry \<noteq> 0 then entry else spc_pc spc)"

lemma upload_finish_uploaded: "uploaded bs entry spc (upload_finish entry (place_all bs spc))"
  by (simp add: uploaded_def upload_finish_def Let_def apu_clearPortQueue_def place_all_def put_aram_def)

text \<open>
  C20. Uploading a sound image that ROM holds at the address in the direct page ends and reports success.
  Every block is in audio memory, later blocks over earlier ones, addresses wrapping at 64 KB; the
  ports read zero and no scheduled port write is left. The first upload after reset maps the boot ROM
  out and starts the audio processor at the entry point of the image (if that is not zero); a later one
  leaves the processor running where it is. An image of more than 512 blocks is refused, after its
  first 513 blocks have been written, and nothing else has changed.
\<close>

theorem upload_image:
  assumes "rom_has m (rom_offset (sn_cart (g_snes m)) (upload_source cpu m)) (encode_image bs entry)"
    and "rom_window (upload_source cpu m)" "list_all block_ok bs"
  shows "if length bs \<le> 512
    then \<exists>spc'. RtlUploadSpcImageFromDpInternal upd cpu m =
        Done (True, if upd then upload_result cpu else cpu, upd_apu (\<lambda>_. spc') m)
      \<and> uploaded bs entry (sn_apu (g_snes m)) spc'
    else RtlUploadSpcImageFromDpInternal upd cpu m = Done (False, cpu, upd_apu (place_all (take 513 bs)) m)"
proof (cases "length bs \<le> 512")
  case True
  have "RtlUploadSpcImageFromDpInternal upd cpu m = Done (True, if upd then upload_result cpu else cpu,
      upd_apu (\<lambda>_. upload_finish entry (place_all bs (sn_apu (g_snes m)))) m)"
    using upload_blocks_run [OF assms(1,3), of 0] True
    by (simp add: upload_unfold [OF assms(2)] upd_apu_comp) (simp add: upd_apu_def upd_snes_def)
  then show ?thesis using True upload_finish_uploaded by auto
next
  case False
  let ?p = "rom_offset (sn_cart (g_snes m)) (upload_source cpu m)"
  have "encode_image bs entry = concat (map encode_block (take 513 bs))
      @ concat (map encode_block (drop 513 bs)) @ word_bytes 0 @ word_bytes entry"
    by (simp add: encode_image_def flip: concat_append map_append)
  then have r: "rom_has m ?p (concat (map encode_block (take 513 bs)))"
    using assms(1) by (simp add: rom_has_append)
  have "list_all block_ok (take 513 bs)"
    using assms(3) by (auto simp: list_all_iff dest: in_set_takeD)
  moreover have "0 + length (take 513 bs) = 513" "take 513 bs \<noteq> []" using False by auto
  ultimately show ?thesis
    using upload_blocks_overflow [OF r] False by (simp add: upload_unfold [OF assms(2)])
qed

definition sound_image :: "u8 list" where
  "sound_image = encode_image [(0x500, [1, 2, 3])] 0x500"

definition upload_machine :: machine where
  "upload_machine = upd_snes (\<lambda>s. s\<lparr>sn_cart := cart_load 1 (sound_image @ replicate 0x7ff5 0) 0x8000 0,
     sn_ram := (\<lambda>_. 0)(1 := 0x80)\<rparr>) idle_machine"

theorem upload_image_witness:
  "\<exists>spc'. RtlUploadSpcImageFromDpInternal False cpu_state_init upload_machine =
      Done (True, cpu_state_init, upd_apu (\<lambda>_. spc') upload_machine)
    \<and> uploaded [(0x500, [1, 2, 3])] 0x500 (sn_apu (g_snes upload_machine)) spc'"
proof -
  have src: "upload_source cpu_state_init upload_machine = 0x8000"
    by (simp add: upload_source_def upload_machine_def upd_snes_def cpu_state_init_def adr24_def word16_def)
  have "rom_offset (sn_cart (g_snes upload_machine)) 0x8000 = 0"
    by (simp add: rom_offset_def upload_machine_def upd_snes_def cart_load_def Let_def)
  moreover have "rom_window 0x8000"
    by (simp add: rom_window_def bus_bank_def Let_def)
  moreover have "length sound_image = 11"
    by (simp add: sound_image_def encode_image_def encode_block_def)
  then have "rom_has upload_machine 0 (encode_image [(0x500, [1, 2, 3])] 0x500)"
    by (simp add: rom_has_def upload_machine_def upd_snes_def cart_load_def sound_image_def)
  ultimately show ?thesis
    using upload_image [where m = upload_machine and cpu = cpu_state_init and bs = "[(0x500, [1, 2, 3])]"
        and entry = "0x500" and upd = False]
    by (simp add: src block_ok_def)
qed

end
