(* ===== verification/Ppu_Windows.thy ===== *)
theory Ppu_Windows
  imports Ppu_Regs
begin

text \<open>
  The line renderer of \<open>snes/ppu.c\<close>, first part: its state, the register fields it decodes, the
  widescreen settings, and the windows. The record \<open>renderer\<close> holds the picture processor's
  registers and memories (theory \<open>Ppu_Regs\<close>) and the fields only the renderer uses. Priority buffers
  are lists whose index is the screen column plus \<open>kPpuExtraLeftRight\<close>. A read or write outside an
  array, and a counter that would run past its range, are \<open>None\<close>. C \<open>int\<close>s are integers; of the
  unsigned coordinates the code only uses low bits, which integers share.
\<close>

unbundle bit_operations_syntax

section \<open>State\<close>

record renderer =
  rd_ppu :: ppu
  rd_m7startX :: int
  rd_m7startY :: int
  rd_frameOverscan :: bool
  rd_frameInterlace :: bool
  rd_extraLeftCur :: u8
  rd_extraRightCur :: u8
  rd_extraLeftRight :: u8
  rd_extraBottomCur :: u8
  rd_wsHudSplitHeight :: u8
  rd_wsHudLeftEnd :: u8
  rd_wsHudRightStart :: u8
  rd_wsBg3WidenY :: u8
  rd_lastMosaicModulo :: u8
  rd_lastBrightnessMult :: u8
  rd_lineHasSprites :: bool
  rd_bgBuffers :: "u16 list list"
  rd_objBuffer :: "u16 list"
  rd_renderPitch :: nat
  rd_renderBuffer :: "u8 list"
  rd_brightnessMult :: "u8 list"
  rd_brightnessMultHalf :: "u8 list"
  rd_mosaicModulo :: "u8 list"

definition kPpuXPixels :: nat where "kPpuXPixels = 256"
definition kPpuExtraLeftRight :: nat where "kPpuExtraLeftRight = 96"
definition kPpuBufWidth :: nat where "kPpuBufWidth = kPpuXPixels + kPpuExtraLeftRight * 2"

text \<open>\<open>ppu_reset\<close> of the whole structure, which keeps the render buffer and its pitch.\<close>

definition renderer_reset :: "renderer \<Rightarrow> renderer" where
  "renderer_reset rd =
     \<lparr>rd_ppu = ppu_reset, rd_m7startX = 0, rd_m7startY = 0, rd_frameOverscan = False, rd_frameInterlace = False,
      rd_extraLeftCur = 0, rd_extraRightCur = 0, rd_extraLeftRight = 0, rd_extraBottomCur = 0,
      rd_wsHudSplitHeight = 0, rd_wsHudLeftEnd = 0, rd_wsHudRightStart = 0, rd_wsBg3WidenY = 0,
      rd_lastMosaicModulo = 0, rd_lastBrightnessMult = 0, rd_lineHasSprites = False,
      rd_bgBuffers = replicate 2 (replicate kPpuBufWidth 0), rd_objBuffer = replicate kPpuBufWidth 0,
      rd_renderPitch = rd_renderPitch rd, rd_renderBuffer = rd_renderBuffer rd,
      rd_brightnessMult = replicate 63 0, rd_brightnessMultHalf = replicate 64 0, rd_mosaicModulo = replicate 256 0\<rparr>"

definition PpuBeginDrawing :: "u8 list \<Rightarrow> nat \<Rightarrow> renderer \<Rightarrow> renderer" where
  "PpuBeginDrawing pixels pitch rd = rd\<lparr>rd_renderPitch := pitch, rd_renderBuffer := pixels\<rparr>"

section \<open>Register fields\<close>

definition IS_SCREEN_ENABLED :: "ppu \<Rightarrow> bool \<Rightarrow> nat \<Rightarrow> bool" where
  "IS_SCREEN_ENABLED ppu sub layer = tst (ppu_screenEnabled ppu ! of_bool sub) (push_bit layer 1)"
definition IS_SCREEN_WINDOWED :: "ppu \<Rightarrow> bool \<Rightarrow> nat \<Rightarrow> bool" where
  "IS_SCREEN_WINDOWED ppu sub layer = tst (ppu_screenWindowed ppu ! of_bool sub) (push_bit layer 1)"
definition GET_WINDOW_FLAGS :: "ppu \<Rightarrow> nat \<Rightarrow> u32" where
  "GET_WINDOW_FLAGS ppu layer = drop_bit (layer * 4) (ppu_windowsel ppu)"

definition PPU_brightness :: "ppu \<Rightarrow> u8" where "PPU_brightness ppu = ppu_inidisp ppu AND 0xf"
definition PPU_forcedBlank :: "ppu \<Rightarrow> bool" where "PPU_forcedBlank ppu = tst (ppu_inidisp ppu) 0x80"
definition PPU_objSize :: "ppu \<Rightarrow> u8" where "PPU_objSize ppu = drop_bit 5 (ppu_obsel ppu)"
definition PPU_objTileAdr1 :: "ppu \<Rightarrow> int" where "PPU_objTileAdr1 ppu = push_bit 13 (uint (ppu_obsel ppu AND 7))"
definition PPU_objTileAdr2 :: "ppu \<Rightarrow> int" where
  "PPU_objTileAdr2 ppu = PPU_objTileAdr1 ppu + push_bit 9 (uint (ppu_obsel ppu AND 0x18) + 8)"
definition PPU_objPriority :: "ppu \<Rightarrow> bool" where "PPU_objPriority ppu = tst (ppu_oamaddh ppu) 0x80"
definition PPU_mode :: "ppu \<Rightarrow> u8" where "PPU_mode ppu = ppu_bgmode ppu AND 7"
definition PPU_bg3priority :: "ppu \<Rightarrow> bool" where "PPU_bg3priority ppu = tst (ppu_bgmode ppu) 8"
definition PPU_bigTiles :: "ppu \<Rightarrow> nat \<Rightarrow> bool" where "PPU_bigTiles ppu layer = tst (drop_bit layer (ppu_bgmode ppu)) 0x10"
definition PPU_mosaicEnabled :: "ppu \<Rightarrow> nat \<Rightarrow> bool" where "PPU_mosaicEnabled ppu layer = tst (ppu_mosaic ppu) (push_bit layer 1)"
definition PPU_mosaicSize :: "ppu \<Rightarrow> int" where "PPU_mosaicSize ppu = uint (drop_bit 4 (ppu_mosaic ppu)) + 1"
definition PPU_bgTilemapWider :: "ppu \<Rightarrow> nat \<Rightarrow> bool" where "PPU_bgTilemapWider ppu layer = tst (ppu_bgXsc ppu ! layer) 1"
definition PPU_bgTilemapHigher :: "ppu \<Rightarrow> nat \<Rightarrow> bool" where "PPU_bgTilemapHigher ppu layer = tst (ppu_bgXsc ppu ! layer) 2"
definition PPU_bgTilemapAdr :: "ppu \<Rightarrow> nat \<Rightarrow> int" where
  "PPU_bgTilemapAdr ppu layer = push_bit 8 (uint (ppu_bgXsc ppu ! layer AND 0xfc))"
definition PPU_bgTileAdr :: "ppu \<Rightarrow> nat \<Rightarrow> int" where
  "PPU_bgTileAdr ppu layer = push_bit 12 (uint (drop_bit (layer * 4) (ppu_bgTileAdr ppu) AND 0xf))"
definition PPU_m7xFlip :: "ppu \<Rightarrow> bool" where "PPU_m7xFlip ppu = tst (ppu_m7sel ppu) 1"
definition PPU_m7yFlip :: "ppu \<Rightarrow> bool" where "PPU_m7yFlip ppu = tst (ppu_m7sel ppu) 2"
definition PPU_m7charFill :: "ppu \<Rightarrow> bool" where "PPU_m7charFill ppu = tst (ppu_m7sel ppu) 0x40"
definition PPU_m7largeField :: "ppu \<Rightarrow> bool" where "PPU_m7largeField ppu = tst (ppu_m7sel ppu) 0x80"
definition PPU_directColor :: "ppu \<Rightarrow> bool" where "PPU_directColor ppu = tst (ppu_cgwsel ppu) 1"
definition PPU_addSubscreen :: "ppu \<Rightarrow> bool" where "PPU_addSubscreen ppu = tst (ppu_cgwsel ppu) 2"
definition PPU_preventMathMode :: "ppu \<Rightarrow> u8" where "PPU_preventMathMode ppu = drop_bit 4 (ppu_cgwsel ppu) AND 3"
definition PPU_clipMode :: "ppu \<Rightarrow> u8" where "PPU_clipMode ppu = drop_bit 6 (ppu_cgwsel ppu) AND 3"
definition PPU_mathEnabled :: "ppu \<Rightarrow> u8" where "PPU_mathEnabled ppu = ppu_cgadsub ppu AND 0x3f"
definition PPU_halfColor :: "ppu \<Rightarrow> bool" where "PPU_halfColor ppu = tst (ppu_cgadsub ppu) 0x40"
definition PPU_subtractColor :: "ppu \<Rightarrow> bool" where "PPU_subtractColor ppu = tst (ppu_cgadsub ppu) 0x80"
definition PPU_interlace :: "ppu \<Rightarrow> bool" where "PPU_interlace ppu = tst (ppu_setini ppu) 1"
definition PPU_objInterlace :: "ppu \<Rightarrow> bool" where "PPU_objInterlace ppu = tst (ppu_setini ppu) 2"
definition PPU_overscan :: "ppu \<Rightarrow> bool" where "PPU_overscan ppu = tst (ppu_setini ppu) 4"
definition PPU_pseudoHires :: "ppu \<Rightarrow> bool" where "PPU_pseudoHires ppu = tst (ppu_setini ppu) 8"
definition PPU_m7extBg :: "ppu \<Rightarrow> bool" where "PPU_m7extBg ppu = tst (ppu_setini ppu) 0x40"

section \<open>Settings\<close>

definition PpuSetExtraSpace :: "u8 \<Rightarrow> renderer \<Rightarrow> renderer" where
  "PpuSetExtraSpace extra rd =
     (let extra = (if extra > 96 then 96 else extra)
      in rd\<lparr>rd_extraLeftRight := extra, rd_extraLeftCur := extra, rd_extraRightCur := extra\<rparr>)"

definition PpuSetExtraSpaceCentered :: "u8 \<Rightarrow> renderer \<Rightarrow> renderer" where
  "PpuSetExtraSpaceCentered budget rd =
     (let budget = (if budget > 96 then 96 else budget)
      in rd\<lparr>rd_extraLeftRight := budget, rd_extraLeftCur := 0, rd_extraRightCur := 0\<rparr>)"

definition PpuSetExtraSideSpace :: "int \<Rightarrow> int \<Rightarrow> int \<Rightarrow> renderer \<Rightarrow> renderer" where
  "PpuSetExtraSideSpace left right bottom rd =
     (let budget = uint (rd_extraLeftRight rd)
      in rd\<lparr>rd_extraLeftCur := word_of_int (min (max left 0) budget),
            rd_extraRightCur := word_of_int (min (max right 0) budget),
            rd_extraBottomCur := word_of_int (min (max bottom 0) 16)\<rparr>)"

definition PpuSetWidescreenHudSplit :: "u8 \<Rightarrow> u8 \<Rightarrow> u8 \<Rightarrow> renderer \<Rightarrow> renderer" where
  "PpuSetWidescreenHudSplit height left_end right_start rd =
     rd\<lparr>rd_wsHudSplitHeight := (if left_end = 0 \<or> left_end \<ge> right_start then 0 else height),
        rd_wsHudLeftEnd := left_end, rd_wsHudRightStart := right_start\<rparr>"

definition PpuSetWidescreenBg3Widen :: "u8 \<Rightarrow> renderer \<Rightarrow> renderer" where
  "PpuSetWidescreenBg3Widen from_y rd = rd\<lparr>rd_wsBg3WidenY := from_y\<rparr>"

definition ppu_checkOverscan :: "renderer \<Rightarrow> bool \<times> renderer" where
  "ppu_checkOverscan rd =
     (PPU_overscan (rd_ppu rd), rd\<lparr>rd_frameOverscan := PPU_overscan (rd_ppu rd)\<rparr>)"

definition ppu_handleVblank :: "renderer \<Rightarrow> renderer" where
  "ppu_handleVblank rd =
     (let ppu = rd_ppu rd;
          rd = (if \<not> PPU_forcedBlank ppu
            then rd\<lparr>rd_ppu := ppu\<lparr>ppu_oamAdr := ppu_oamaddl ppu, ppu_oamInHigh := tst (ppu_oamaddh ppu) 1,
                     ppu_oamSecondWrite := False\<rparr>\<rparr>
            else rd)
      in rd\<lparr>rd_frameInterlace := PPU_interlace (rd_ppu rd)\<rparr>)"

section \<open>Windows\<close>

record ppu_windows =
  wn_edges :: "int list"
  wn_nr :: nat
  wn_bits :: u8

definition PpuLayerExtra :: "renderer \<Rightarrow> nat \<Rightarrow> int \<Rightarrow> u8 \<Rightarrow> int" where
  "PpuLayerExtra rd layer y extra =
     (if layer \<noteq> 2 then uint extra
      else if rd_wsBg3WidenY rd \<noteq> 0 \<and> y \<ge> uint (rd_wsBg3WidenY rd) then uint extra else 0)"

definition window_left :: "renderer \<Rightarrow> nat \<Rightarrow> int \<Rightarrow> int" where
  "window_left rd layer y = - PpuLayerExtra rd layer y (rd_extraLeftCur rd)"
definition window_right :: "renderer \<Rightarrow> nat \<Rightarrow> int \<Rightarrow> int" where
  "window_right rd layer y = 256 + PpuLayerExtra rd layer y (rd_extraRightCur rd)"

definition PpuWindows_Clear :: "renderer \<Rightarrow> nat \<Rightarrow> int \<Rightarrow> ppu_windows" where
  "PpuWindows_Clear rd layer y =
     \<lparr>wn_edges = (replicate 6 0)[0 := window_left rd layer y, 1 := window_right rd layer y], wn_nr = 1, wn_bits = 0\<rparr>"

text \<open>
  The loop \<open>for (j = nr++; j >= i; j--) edges[j + 1] = edges[j]\<close>; with \<open>i = 0\<close> its unsigned counter
  would wrap.
\<close>

primrec shift_edges :: "nat \<Rightarrow> nat \<Rightarrow> int list \<Rightarrow> int list option" where
  "shift_edges 0 i edges = (if i = 0 then None else Some edges)"
| "shift_edges (Suc j) i edges =
     (if Suc j < i then Some edges
      else if Suc (Suc j) < length edges then shift_edges j i (edges[Suc (Suc j) := edges ! Suc j]) else None)"

text \<open>The loop that puts an edge of the second window in its place, from index \<open>i\<close> on.\<close>

function insert_edge :: "int \<Rightarrow> nat \<Rightarrow> nat \<Rightarrow> int list \<Rightarrow> (nat \<times> nat \<times> int list) option" where
  "insert_edge t i nr edges =
     (if i \<le> nr \<and> i < length edges \<and> t \<noteq> edges ! i then
        if t < edges ! i
        then (case shift_edges nr i edges of None \<Rightarrow> None | Some edges \<Rightarrow> Some (i, Suc nr, edges[i := t]))
        else insert_edge t (Suc i) nr edges
      else if i \<le> nr \<and> \<not> i < length edges then None else Some (i, nr, edges))"
  by pat_completeness auto
termination
  by (relation "measure (\<lambda>(_, i, nr, _). Suc nr - i)") auto

declare insert_edge.simps [simp del]

text \<open>The loop \<open>for (i = \<dots>; edges[i] != t; i++);\<close>.\<close>

function find_edge :: "int \<Rightarrow> int list \<Rightarrow> nat \<Rightarrow> nat option" where
  "find_edge t edges i =
     (if i < length edges then if edges ! i = t then Some i else find_edge t edges (Suc i) else None)"
  by pat_completeness auto
termination
  by (relation "measure (\<lambda>(_, edges, i). length edges - i)") auto

declare find_edge.simps [simp del]

text \<open>The edges of the first window split the line; both lie in it.\<close>

definition window1_edges :: "int \<Rightarrow> int \<Rightarrow> int \<Rightarrow> nat \<Rightarrow> int list \<Rightarrow> nat \<times> int list" where
  "window1_edges left right wright nr edges =
     (let (nr, edges) = (if left > edges ! 0 then (Suc nr, edges[nr := left, Suc nr := wright]) else (nr, edges))
      in if right + 1 < wright then (Suc nr, edges[nr := right + 1, Suc nr := wright]) else (nr, edges))"

definition window2_edges :: "int \<Rightarrow> int \<Rightarrow> nat \<Rightarrow> int list \<Rightarrow> (nat \<times> int list) option" where
  "window2_edges left right nr edges =
     (case insert_edge left 0 nr edges of None \<Rightarrow> None | Some (i, nr, edges) \<Rightarrow>
        (case insert_edge (right + 1) i nr edges of None \<Rightarrow> None | Some (_, nr, edges) \<Rightarrow> Some (nr, edges)))"

text \<open>The spans between two edges, as a bit set.\<close>

definition window_bits :: "int \<Rightarrow> int \<Rightarrow> int list \<Rightarrow> u8 option" where
  "window_bits left right edges =
     (case find_edge left edges 0 of None \<Rightarrow> None | Some i \<Rightarrow>
        (case find_edge (right + 1) edges i of None \<Rightarrow> None | Some j \<Rightarrow> Some (push_bit i (mask (j - i)))))"

definition kWindow1Inversed :: u32 where "kWindow1Inversed = 1"
definition kWindow1Enabled :: u32 where "kWindow1Enabled = 2"
definition kWindow2Inversed :: u32 where "kWindow2Inversed = 4"
definition kWindow2Enabled :: u32 where "kWindow2Enabled = 8"

definition PpuWindows_Calc :: "renderer \<Rightarrow> nat \<Rightarrow> int \<Rightarrow> ppu_windows option" where
  "PpuWindows_Calc rd layer y =
     (let ppu = rd_ppu rd; winflags = GET_WINDOW_FLAGS ppu layer;
          wright = window_right rd layer y;
          edges = (replicate 6 0)[0 := window_left rd layer y, 1 := wright];
          l1 = uint (ppu_window1left ppu); r1 = uint (ppu_window1right ppu);
          l2 = uint (ppu_window2left ppu); r2 = uint (ppu_window2right ppu);
          w1_ena = (tst winflags kWindow1Enabled \<and> l1 \<le> r1);
          w2_ena = (tst winflags kWindow2Enabled \<and> l2 \<le> r2);
          (nr, edges) = (if w1_ena then window1_edges l1 r1 wright 1 edges else (1, edges))
      in case (if w2_ena then window2_edges l2 r2 nr edges else Some (nr, edges)) of None \<Rightarrow> None
         | Some (nr, edges) \<Rightarrow>
        (case (if w1_ena then window_bits l1 r1 edges else Some 0) of None \<Rightarrow> None | Some w1_bits \<Rightarrow>
        (case (if w2_ena then window_bits l2 r2 edges else Some 0) of None \<Rightarrow> None | Some w2_bits \<Rightarrow>
           let e1 = kWindow1Enabled OR kWindow1Inversed; e2 = kWindow2Enabled OR kWindow2Inversed;
               w1_bits = (if winflags AND e1 = e1 then NOT w1_bits else w1_bits);
               w2_bits = (if winflags AND e2 = e2 then NOT w2_bits else w2_bits)
           in Some \<lparr>wn_edges = edges, wn_nr = nr, wn_bits = w1_bits OR w2_bits\<rparr>)))"

definition layer_windows :: "renderer \<Rightarrow> bool \<Rightarrow> nat \<Rightarrow> int \<Rightarrow> ppu_windows option" where
  "layer_windows rd sub layer y =
     (if IS_SCREEN_WINDOWED (rd_ppu rd) sub layer then PpuWindows_Calc rd layer y
      else Some (PpuWindows_Clear rd layer y))"

text \<open>The loop over the spans that are not masked; the body gets the span's index and its two edges.\<close>

primrec windows_from :: "nat \<Rightarrow> ppu_windows \<Rightarrow> (nat \<Rightarrow> int \<Rightarrow> int \<Rightarrow> 'a \<Rightarrow> 'a option) \<Rightarrow> nat \<Rightarrow> 'a \<Rightarrow> 'a option" where
  "windows_from 0 win f windex a = Some a"
| "windows_from (Suc k) win f windex a =
     (case (if bit (wn_bits win) windex then Some a
            else f windex (wn_edges win ! windex) (wn_edges win ! Suc windex) a) of
        None \<Rightarrow> None | Some a \<Rightarrow> windows_from k win f (Suc windex) a)"

definition for_windows :: "ppu_windows \<Rightarrow> (nat \<Rightarrow> int \<Rightarrow> int \<Rightarrow> 'a \<Rightarrow> 'a option) \<Rightarrow> 'a \<Rightarrow> 'a option" where
  "for_windows win f = windows_from (wn_nr win) win f 0"

section \<open>Spans\<close>

text \<open>The first \<open>nr + 1\<close> edges ascend from the left to the right end of the line.\<close>

definition spans :: "int \<Rightarrow> int \<Rightarrow> nat \<Rightarrow> int list \<Rightarrow> bool" where
  "spans L R nr e \<longleftrightarrow> 0 < nr \<and> nr < length e \<and> e ! 0 = L \<and> e ! nr = R \<and> (\<forall>i<nr. e ! i < e ! Suc i)"

definition edge_set :: "nat \<Rightarrow> int list \<Rightarrow> int set" where
  "edge_set nr e = (!) e ` {..nr}"

lemma spans_less: "spans L R nr e \<Longrightarrow> i < j \<Longrightarrow> j \<le> nr \<Longrightarrow> e ! i < e ! j"
proof (induction j)
  case (Suc j)
  then have "e ! j < e ! Suc j" by (simp add: spans_def)
  with Suc show ?case by (cases "i = j") auto
qed simp

lemma spans_le: "spans L R nr e \<Longrightarrow> i \<le> j \<Longrightarrow> j \<le> nr \<Longrightarrow> e ! i \<le> e ! j"
  using spans_less [of L R nr e i j] by (cases "i = j") auto

lemma spans_less_iff: "spans L R nr e \<Longrightarrow> i \<le> nr \<Longrightarrow> j \<le> nr \<Longrightarrow> e ! i < e ! j \<longleftrightarrow> i < j"
  by (metis spans_less less_asym linorder_neqE_nat less_irrefl)

lemma spans_pair: "L < R \<Longrightarrow> 1 < length e \<Longrightarrow> e ! 0 = L \<Longrightarrow> e ! 1 = R \<Longrightarrow> spans L R 1 e"
  by (simp add: spans_def)

lemma shift_edges_nth:
  assumes "0 < i" "i \<le> Suc j" "Suc j < length e"
  shows "\<exists>e'. shift_edges j i e = Some e' \<and> length e' = length e
    \<and> (\<forall>k<length e. e' ! k = (if i < k \<and> k \<le> Suc j then e ! (k - 1) else e ! k))"
  using assms
proof (induction j arbitrary: e)
  case 0
  then show ?case by auto
next
  case (Suc j)
  show ?case
  proof (cases "Suc j < i")
    case True
    then show ?thesis by auto
  next
    case False
    let ?e1 = "e[Suc (Suc j) := e ! Suc j]"
    obtain e' where e': "shift_edges j i ?e1 = Some e'" "length e' = length ?e1"
        "\<forall>k<length ?e1. e' ! k = (if i < k \<and> k \<le> Suc j then ?e1 ! (k - 1) else ?e1 ! k)"
      using Suc.IH [of ?e1] Suc.prems False by auto
    have "e' ! k = (if i < k \<and> k \<le> Suc (Suc j) then e ! (k - 1) else e ! k)" if "k < length e" for k
      using e'(3) that False by (cases "k = Suc (Suc j)") (auto simp: nth_list_update)
    then show ?thesis using e'(1,2) False Suc.prems(3) by simp
  qed
qed

lemma insert_at:
  assumes "spans L R nr e" "0 < i" "i \<le> nr" "\<forall>k<i. e ! k < t" "t < e ! i" "Suc nr < length e"
    and "length e' = length e" "\<forall>k<length e. e' ! k = (if i < k \<and> k \<le> Suc nr then e ! (k - 1) else e ! k)"
  shows "spans L R (Suc nr) (e'[i := t]) \<and> edge_set (Suc nr) (e'[i := t]) = insert t (edge_set nr e)"
proof
  let ?f = "e'[i := t]"
  have f: "?f ! k = (if k = i then t else if i < k then e ! (k - 1) else e ! k)" if "k \<le> Suc nr" for k
    using assms(3,6-8) that by (auto simp: nth_list_update)
  have "?f ! k < ?f ! Suc k" if "k < Suc nr" for k
  proof -
    consider "Suc k < i" | "Suc k = i" | "k = i" | "i < k" by linarith
    then show ?thesis
    proof cases
      case 4
      then have "e ! (k - 1) < e ! k" using assms(1) that by (cases k) (auto simp: spans_def)
      with 4 show ?thesis using f [of k] f [of "Suc k"] that by simp
    qed (use f [of k] f [of "Suc k"] that assms(1,3-5) in \<open>auto simp: spans_def\<close>)
  qed
  then show "spans L R (Suc nr) ?f"
    using f [of 0] f [of "Suc nr"] assms(1-3,6,7) by (auto simp: spans_def)
  show "edge_set (Suc nr) ?f = insert t (edge_set nr e)"
  proof (intro equalityI subsetI)
    fix v assume "v \<in> edge_set (Suc nr) ?f"
    then obtain k where k: "k \<le> Suc nr" "v = ?f ! k" by (auto simp: edge_set_def)
    show "v \<in> insert t (edge_set nr e)"
      using k f [OF k(1)] assms(3) by (auto simp: edge_set_def split: if_splits)
  next
    fix v assume "v \<in> insert t (edge_set nr e)"
    then consider "v = t" | k where "k \<le> nr" "v = e ! k" by (auto simp: edge_set_def)
    then show "v \<in> edge_set (Suc nr) ?f"
    proof cases
      case 1
      then show ?thesis using f [of i] assms(3) by (auto simp: edge_set_def intro!: image_eqI [of _ _ i])
    next
      case 2
      then show ?thesis
        using f [of k] f [of "Suc k"]
        by (cases "k < i") (auto simp: edge_set_def intro!: image_eqI [of _ _ "if k < i then k else Suc k"])
    qed
  qed
qed

lemma insert_edge_spans:
  assumes "spans L R nr e" "Suc nr < length e" "i \<le> nr" "t \<le> R" "\<forall>k<i. e ! k < t" "i = 0 \<longrightarrow> L \<le> t"
  shows "\<exists>i' nr' e'. insert_edge t i nr e = Some (i', nr', e') \<and> spans L R nr' e' \<and> nr' \<le> Suc nr
    \<and> length e' = length e \<and> i' \<le> nr' \<and> e' ! i' = t \<and> edge_set nr' e' = insert t (edge_set nr e)"
  using assms
proof (induction t i nr e rule: insert_edge.induct)
  case (1 t i nr e)
  have len: "i < length e" using 1 by simp
  consider "e ! i = t" | "t < e ! i" | "e ! i < t" by linarith
  then show ?case
  proof cases
    case 1
    then have "insert t (edge_set nr e) = edge_set nr e" using \<open>i \<le> nr\<close> by (auto simp: edge_set_def)
    with 1 show ?thesis using \<open>spans L R nr e\<close> \<open>i \<le> nr\<close> len by (subst insert_edge.simps) auto
  next
    case 2
    have i: "0 < i" using 2 \<open>i = 0 \<longrightarrow> L \<le> t\<close> \<open>spans L R nr e\<close> by (cases i) (auto simp: spans_def)
    obtain e' where e': "shift_edges nr i e = Some e'" "length e' = length e"
        "\<forall>k<length e. e' ! k = (if i < k \<and> k \<le> Suc nr then e ! (k - 1) else e ! k)"
      using shift_edges_nth [OF i, of nr e] \<open>i \<le> nr\<close> \<open>Suc nr < length e\<close> by auto
    have "spans L R (Suc nr) (e'[i := t])" "edge_set (Suc nr) (e'[i := t]) = insert t (edge_set nr e)"
      using insert_at [OF _ i _ _ 2 _ e'(2,3)] \<open>spans L R nr e\<close> \<open>i \<le> nr\<close> \<open>Suc nr < length e\<close> \<open>\<forall>k<i. e ! k < t\<close>
      by blast+
    with 2 e'(1,2) show ?thesis using \<open>i \<le> nr\<close> len by (subst insert_edge.simps) simp
  next
    case 3
    have "i < nr" using 3 \<open>i \<le> nr\<close> \<open>t \<le> R\<close> \<open>spans L R nr e\<close> by (cases "i = nr") (auto simp: spans_def)
    then show ?thesis
      using 1 3 len by (subst insert_edge.simps) (simp add: less_Suc_eq)
  qed
qed

lemma find_edge_first:
  assumes "i \<le> k" "k < length e" "e ! k = t"
  shows "\<exists>j. find_edge t e i = Some j \<and> i \<le> j \<and> j \<le> k \<and> e ! j = t"
  using assms
proof (induction t e i rule: find_edge.induct)
  case (1 t e i)
  show ?case
  proof (cases "e ! i = t")
    case True
    then show ?thesis using 1 by (subst find_edge.simps) auto
  next
    case False
    then have "Suc i \<le> k" using 1 by (cases "i = k") auto
    with 1 False obtain j where "find_edge t e (Suc i) = Some j \<and> Suc i \<le> j \<and> j \<le> k \<and> e ! j = t" by auto
    with 1 False show ?thesis by (subst find_edge.simps) auto
  qed
qed

text \<open>A span lies in the window exactly if its bit is set.\<close>

lemma window_bits_exact:
  assumes "spans L R nr e" "nr \<le> 5" "l \<in> edge_set nr e" "r + 1 \<in> edge_set nr e" "l \<le> r"
  shows "\<exists>b. window_bits l r e = Some b
    \<and> (\<forall>k<nr. \<forall>x. e ! k \<le> x \<and> x < e ! Suc k \<longrightarrow> bit b k = (l \<le> x \<and> x \<le> r))"
proof -
  obtain kl where kl: "kl \<le> nr" "e ! kl = l" using assms(3) by (auto simp: edge_set_def)
  obtain kr where kr: "kr \<le> nr" "e ! kr = r + 1" using assms(4) by (auto simp: edge_set_def)
  have len: "nr < length e" using assms(1) by (simp add: spans_def)
  obtain i where i: "find_edge l e 0 = Some i" "i \<le> kl" "e ! i = l"
    using find_edge_first [of 0 kl e l] kl len by auto
  have "i < kr" using spans_less_iff [OF assms(1), of i kr] i kl kr assms(5) by auto
  then obtain j where j: "find_edge (r + 1) e i = Some j" "i \<le> j" "j \<le> kr" "e ! j = r + 1"
    using find_edge_first [of i kr e "r + 1"] kr len by auto
  have "bit (push_bit i (mask (j - i)) :: u8) k = (l \<le> x \<and> x \<le> r)" if k: "k < nr" and x: "e ! k \<le> x" "x < e ! Suc k" for k x
  proof -
    have "bit (push_bit i (mask (j - i)) :: u8) k \<longleftrightarrow> i \<le> k \<and> k < j"
      using k assms(2) by (auto simp: bit_simps)
    also have "\<dots> \<longleftrightarrow> l \<le> x \<and> x < r + 1"
    proof
      assume "i \<le> k \<and> k < j"
      then show "l \<le> x \<and> x < r + 1"
        using spans_le [OF assms(1), of i k] spans_le [OF assms(1), of "Suc k" j] x i(3) j(3,4) k kr(1) by auto
    next
      assume lx: "l \<le> x \<and> x < r + 1"
      have "\<not> k < i" using spans_le [OF assms(1), of "Suc k" i] lx x i kl(1) by auto
      moreover have "\<not> j \<le> k" using spans_le [OF assms(1), of j k] lx x j(4) k by auto
      ultimately show "i \<le> k \<and> k < j" by auto
    qed
    finally show ?thesis by auto
  qed
  then show ?thesis using i(1) j(1) by (simp add: window_bits_def)
qed

lemma window1_edges_spans:
  assumes "length e = 6" "e ! 0 = L" "e ! 1 = R" "L \<le> l" "l \<le> r" "r < R" "L < R"
  shows "\<exists>nr e'. window1_edges l r R 1 e = (nr, e') \<and> spans L R nr e' \<and> nr \<le> 3 \<and> length e' = 6
    \<and> l \<in> edge_set nr e' \<and> r + 1 \<in> edge_set nr e'"
proof -
  obtain a b c d f g where e: "e = [a, b, c, d, f, g]" using assms(1) by (auto simp: length_Suc_conv eval_nat_numeral)
  show ?thesis
    using assms by (auto simp: e window1_edges_def spans_def edge_set_def eval_nat_numeral atMost_Suc less_Suc_eq)
qed

text \<open>The two insertions of the second window.\<close>

lemma window2_edges_spans:
  assumes "spans L R nr e" "nr \<le> 3" "length e = 6" "L \<le> l" "l \<le> r" "r < R"
  shows "\<exists>nr' e'. window2_edges l r nr e = Some (nr', e') \<and> spans L R nr' e' \<and> nr' \<le> 5 \<and> length e' = 6
    \<and> edge_set nr' e' = insert (r + 1) (insert l (edge_set nr e))"
proof -
  obtain i nr1 e1 where 1: "insert_edge l 0 nr e = Some (i, nr1, e1)" "spans L R nr1 e1" "nr1 \<le> Suc nr"
      "length e1 = 6" "i \<le> nr1" "e1 ! i = l" "edge_set nr1 e1 = insert l (edge_set nr e)"
    using insert_edge_spans [OF assms(1), of 0 l] assms by auto
  have "\<forall>k<i. e1 ! k < r + 1"
    using spans_less [OF 1(2)] 1(5,6) assms(5) by fastforce
  moreover have "L \<le> r + 1" using assms by simp
  ultimately obtain j nr2 e2 where 2: "insert_edge (r + 1) i nr1 e1 = Some (j, nr2, e2)" "spans L R nr2 e2"
      "nr2 \<le> Suc nr1" "length e2 = 6" "edge_set nr2 e2 = insert (r + 1) (edge_set nr1 e1)"
    using insert_edge_spans [OF 1(2), of i "r + 1"] 1 assms by auto
  show ?thesis using 1 2 assms(2) by (simp add: window2_edges_def)
qed

section \<open>What a window masks\<close>

text \<open>One window covers a column if it is on and the column is inside, or outside when inverted.\<close>

definition window_state :: "bool \<Rightarrow> bool \<Rightarrow> u8 \<Rightarrow> u8 \<Rightarrow> int \<Rightarrow> bool" where
  "window_state ena inversed left right x \<longleftrightarrow> ena \<and> ((uint left \<le> x \<and> x \<le> uint right) \<noteq> inversed)"

definition window1_state :: "ppu \<Rightarrow> nat \<Rightarrow> int \<Rightarrow> bool" where
  "window1_state ppu layer = (let f = GET_WINDOW_FLAGS ppu layer in
     window_state (tst f kWindow1Enabled) (tst f kWindow1Inversed) (ppu_window1left ppu) (ppu_window1right ppu))"

definition window2_state :: "ppu \<Rightarrow> nat \<Rightarrow> int \<Rightarrow> bool" where
  "window2_state ppu layer = (let f = GET_WINDOW_FLAGS ppu layer in
     window_state (tst f kWindow2Enabled) (tst f kWindow2Inversed) (ppu_window2left ppu) (ppu_window2right ppu))"

text \<open>A set of spans that covers the line, with the columns of the masked ones.\<close>

definition windows_ok :: "int \<Rightarrow> int \<Rightarrow> (int \<Rightarrow> bool) \<Rightarrow> ppu_windows \<Rightarrow> bool" where
  "windows_ok L R masked win \<longleftrightarrow> spans L R (wn_nr win) (wn_edges win) \<and> wn_nr win \<le> 5 \<and> length (wn_edges win) = 6
     \<and> (\<forall>k<wn_nr win. \<forall>x. wn_edges win ! k \<le> x \<and> x < wn_edges win ! Suc k \<longrightarrow> bit (wn_bits win) k = masked x)"

lemma window_flags:
  "f AND (kWindow1Enabled OR kWindow1Inversed) = kWindow1Enabled OR kWindow1Inversed
     \<longleftrightarrow> tst f kWindow1Enabled \<and> tst f kWindow1Inversed"
  "f AND (kWindow2Enabled OR kWindow2Inversed) = kWindow2Enabled OR kWindow2Inversed
     \<longleftrightarrow> tst f kWindow2Enabled \<and> tst f kWindow2Inversed"
proof -
  have k: "kWindow1Inversed = push_bit 0 1" "kWindow1Enabled = push_bit 1 1"
      "kWindow2Inversed = push_bit 2 1" "kWindow2Enabled = push_bit 3 1"
    by (simp_all add: kWindow1Inversed_def kWindow1Enabled_def kWindow2Inversed_def kWindow2Enabled_def)
  have "f AND (push_bit a 1 OR push_bit b 1) = push_bit a 1 OR push_bit b 1
      \<longleftrightarrow> tst f (push_bit a 1) \<and> tst f (push_bit b 1)" if "a < 32" "b < 32" for a b
  proof
    assume eq: "f AND (push_bit a 1 OR push_bit b 1) = push_bit a 1 OR push_bit b 1"
    have "bit (f AND (push_bit a 1 OR push_bit b 1)) k = bit (push_bit a 1 OR push_bit b 1 :: u32) k" for k
      by (simp only: eq)
    from this [of a] this [of b] show "tst f (push_bit a 1) \<and> tst f (push_bit b 1)"
      using that unfolding tst_bit by (simp add: bit_simps)
  next
    assume "tst f (push_bit a 1) \<and> tst f (push_bit b 1)"
    then show "f AND (push_bit a 1 OR push_bit b 1) = push_bit a 1 OR push_bit b 1"
      unfolding tst_bit by (intro bit_word_eqI) (auto simp: bit_simps)
  qed
  from this [of 1 0] this [of 3 2] show "f AND (kWindow1Enabled OR kWindow1Inversed) = kWindow1Enabled OR kWindow1Inversed
      \<longleftrightarrow> tst f kWindow1Enabled \<and> tst f kWindow1Inversed"
    "f AND (kWindow2Enabled OR kWindow2Inversed) = kWindow2Enabled OR kWindow2Inversed
      \<longleftrightarrow> tst f kWindow2Enabled \<and> tst f kWindow2Inversed"
    unfolding k by simp_all
qed

lemma window_extent: "window_left rd layer y \<le> 0" "256 \<le> window_right rd layer y"
  by (simp_all add: window_left_def window_right_def PpuLayerExtra_def)

lemma windows_clear: "windows_ok (window_left rd layer y) (window_right rd layer y) (\<lambda>_. False) (PpuWindows_Clear rd layer y)"
  using window_extent [of rd layer y]
  by (auto simp: windows_ok_def PpuWindows_Clear_def spans_def less_Suc_eq)

lemma one_window:
  assumes "spans L R nr e" "nr \<le> 5" "ena \<and> uint l \<le> uint r \<Longrightarrow> uint l \<in> edge_set nr e \<and> uint r + 1 \<in> edge_set nr e"
  shows "\<exists>b. (if ena \<and> uint l \<le> uint r then window_bits (uint l) (uint r) e else Some 0) = Some b
    \<and> (\<forall>k<nr. \<forall>x. e ! k \<le> x \<and> x < e ! Suc k \<longrightarrow>
        bit (if ena \<and> neg then NOT b else b) k = window_state ena neg l r x)"
proof (cases "ena \<and> uint l \<le> uint r")
  case True
  obtain b where b: "window_bits (uint l) (uint r) e = Some b"
      "\<forall>k<nr. \<forall>x. e ! k \<le> x \<and> x < e ! Suc k \<longrightarrow> bit b k = (uint l \<le> x \<and> x \<le> uint r)"
    using window_bits_exact [OF assms(1,2), of "uint l" "uint r"] assms(3) True by blast
  have "bit (if ena \<and> neg then NOT b else b) k = window_state ena neg l r x"
    if "k < nr" "e ! k \<le> x" "x < e ! Suc k" for k x
    using b(2) that True assms(2) by (simp add: window_state_def bit_not_iff)
  with b(1) True show ?thesis by auto
next
  case False
  have "bit (if ena \<and> neg then NOT 0 else (0::u8)) k = window_state ena neg l r x" if "k < nr" for k x
    using that False assms(2) by (auto simp: window_state_def bit_not_iff)
  with False show ?thesis by auto
qed

theorem windows_calc:
  "\<exists>win. PpuWindows_Calc rd layer y = Some win
    \<and> windows_ok (window_left rd layer y) (window_right rd layer y)
        (\<lambda>x. window1_state (rd_ppu rd) layer x \<or> window2_state (rd_ppu rd) layer x) win"
proof -
  let ?p = "rd_ppu rd" and ?f = "GET_WINDOW_FLAGS (rd_ppu rd) layer"
  let ?L = "window_left rd layer y" and ?R = "window_right rd layer y"
  let ?l1 = "ppu_window1left ?p" and ?r1 = "ppu_window1right ?p" and ?l2 = "ppu_window2left ?p" and ?r2 = "ppu_window2right ?p"
  let ?e0 = "(replicate 6 0)[0 := ?L, 1 := ?R]"
  let ?w1 = "tst ?f kWindow1Enabled \<and> uint ?l1 \<le> uint ?r1" and ?w2 = "tst ?f kWindow2Enabled \<and> uint ?l2 \<le> uint ?r2"
  have LR: "?L \<le> 0" "256 \<le> ?R" "?L < ?R" using window_extent [of rd layer y] by auto
  have byte: "0 \<le> uint v" "uint v < 256" for v :: u8 using uint_lt2p [of v] by simp_all
  have in_line: "?L \<le> uint v" "uint v < ?R" for v :: u8 using LR byte [of v] by linarith+
  have "spans ?L ?R 1 ?e0" using LR by (simp add: spans_def)
  then obtain nr1 e1 where 1: "(if ?w1 then window1_edges (uint ?l1) (uint ?r1) ?R 1 ?e0 else (1, ?e0)) = (nr1, e1)"
      "spans ?L ?R nr1 e1" "nr1 \<le> 3" "length e1 = 6"
      "?w1 \<Longrightarrow> uint ?l1 \<in> edge_set nr1 e1 \<and> uint ?r1 + 1 \<in> edge_set nr1 e1"
    using window1_edges_spans [of ?e0 ?L ?R "uint ?l1" "uint ?r1"] in_line LR by (cases ?w1) auto
  obtain nr e where 2: "(if ?w2 then window2_edges (uint ?l2) (uint ?r2) nr1 e1 else Some (nr1, e1)) = Some (nr, e)"
      "spans ?L ?R nr e" "nr \<le> 5" "length e = 6"
      "?w1 \<Longrightarrow> uint ?l1 \<in> edge_set nr e \<and> uint ?r1 + 1 \<in> edge_set nr e"
      "?w2 \<Longrightarrow> uint ?l2 \<in> edge_set nr e \<and> uint ?r2 + 1 \<in> edge_set nr e"
    using window2_edges_spans [OF 1(2-4), of "uint ?l2" "uint ?r2"] in_line 1 by (cases ?w2) auto
  obtain b1 where b1: "(if ?w1 then window_bits (uint ?l1) (uint ?r1) e else Some 0) = Some b1"
      "\<forall>k<nr. \<forall>x. e ! k \<le> x \<and> x < e ! Suc k \<longrightarrow> bit (if tst ?f kWindow1Enabled \<and> tst ?f kWindow1Inversed then NOT b1 else b1) k
        = window_state (tst ?f kWindow1Enabled) (tst ?f kWindow1Inversed) ?l1 ?r1 x"
    using one_window [OF 2(2,3) 2(5)] by blast
  obtain b2 where b2: "(if ?w2 then window_bits (uint ?l2) (uint ?r2) e else Some 0) = Some b2"
      "\<forall>k<nr. \<forall>x. e ! k \<le> x \<and> x < e ! Suc k \<longrightarrow> bit (if tst ?f kWindow2Enabled \<and> tst ?f kWindow2Inversed then NOT b2 else b2) k
        = window_state (tst ?f kWindow2Enabled) (tst ?f kWindow2Inversed) ?l2 ?r2 x"
    using one_window [OF 2(2,3) 2(6)] by blast
  let ?b = "(if tst ?f kWindow1Enabled \<and> tst ?f kWindow1Inversed then NOT b1 else b1)
    OR (if tst ?f kWindow2Enabled \<and> tst ?f kWindow2Inversed then NOT b2 else b2)"
  have "PpuWindows_Calc rd layer y = Some \<lparr>wn_edges = e, wn_nr = nr, wn_bits = ?b\<rparr>"
    unfolding PpuWindows_Calc_def Let_def window_flags using 1(1) 2(1) b1(1) b2(1) by simp
  moreover have "windows_ok ?L ?R (\<lambda>x. window1_state ?p layer x \<or> window2_state ?p layer x) \<lparr>wn_edges = e, wn_nr = nr, wn_bits = ?b\<rparr>"
    using 2(2-4) b1(2) b2(2) by (simp add: windows_ok_def window1_state_def window2_state_def Let_def bit_or_iff)
  ultimately show ?thesis by blast
qed

end
