(* ===== verification/Ppu_Background.thy ===== *)
theory Ppu_Background
  imports Ppu_Windows
begin

text \<open>
  The tiled backgrounds of the line renderer: \<open>PpuDrawBackground_4bpp\<close> and
  \<open>PpuDrawBackground_2bpp\<close>. The two functions are the same text with different macros; the macros are
  the fields of the record \<open>depth\<close>, and the text is \<open>bg_span\<close> and its parts. Each span is drawn in
  three pieces: the clipped first tile, whole tiles, and the clipped last tile, with a tile pointer that
  moves between the two pages of the map. The locale \<open>bg_depth\<close> states what the macros of a depth have in
  common; under it a span is drawn exactly as if every column were looked up in the map on its own.
\<close>

section \<open>Tiles and pixels\<close>

definition vram_at :: "ppu \<Rightarrow> int \<Rightarrow> u16 option" where
  "vram_at ppu i = (if 0 \<le> i \<and> i < 0x8000 then Some (ppu_vram ppu (word_of_int i)) else None)"

text \<open>The macros \<open>READ_BITS\<close>, \<open>kPaletteShift\<close>, \<open>DO_PIXEL\<close> and \<open>DO_PIXEL_HFLIP\<close> of a depth.\<close>

record depth =
  dp_read :: "ppu \<Rightarrow> int \<Rightarrow> int \<Rightarrow> u32 option"
  dp_shift :: nat
  dp_opaque :: "nat \<Rightarrow> u32 \<Rightarrow> bool"
  dp_pixel :: "nat \<Rightarrow> u32 \<Rightarrow> u32"
  dp_opaque_hflip :: "nat \<Rightarrow> u32 \<Rightarrow> bool"
  dp_pixel_hflip :: "nat \<Rightarrow> u32 \<Rightarrow> u32"

definition READ_BITS_4 :: "ppu \<Rightarrow> int \<Rightarrow> int \<Rightarrow> u32 option" where
  "READ_BITS_4 ppu ta tile =
     (let a = (ta + tile * 16) AND 0x7fff in do {
        lo \<leftarrow> vram_at ppu a;
        hi \<leftarrow> vram_at ppu (a + 8);
        Some (ucast lo OR push_bit 16 (ucast hi))
      })"

definition pixel4 :: "nat \<Rightarrow> u32 \<Rightarrow> u32" where
  "pixel4 i bits = (drop_bit i bits AND 1) OR (drop_bit (7 + i) bits AND 2)
     OR (drop_bit (14 + i) bits AND 4) OR (drop_bit (21 + i) bits AND 8)"

definition pixel4_hflip :: "nat \<Rightarrow> u32 \<Rightarrow> u32" where
  "pixel4_hflip i bits = (drop_bit (7 - i) bits AND 1) OR (drop_bit (14 - i) bits AND 2)
     OR (drop_bit (21 - i) bits AND 4) OR (drop_bit (28 - i) bits AND 8)"

definition bpp4 :: depth where
  "bpp4 = \<lparr>dp_read = READ_BITS_4, dp_shift = 6,
     dp_opaque = (\<lambda>i bits. bits AND push_bit i 0x01010101 \<noteq> 0), dp_pixel = pixel4,
     dp_opaque_hflip = (\<lambda>i bits. bits AND drop_bit i 0x80808080 \<noteq> 0), dp_pixel_hflip = pixel4_hflip\<rparr>"

definition READ_BITS_2 :: "ppu \<Rightarrow> int \<Rightarrow> int \<Rightarrow> u32 option" where
  "READ_BITS_2 ppu ta tile = do {
     lo \<leftarrow> vram_at ppu ((ta + tile * 8) AND 0x7fff);
     Some (ucast lo)
   }"

definition pixel2 :: "nat \<Rightarrow> u32 \<Rightarrow> u32" where
  "pixel2 i bits = (drop_bit i bits AND 1) OR (drop_bit (7 + i) bits AND 2)"

definition pixel2_hflip :: "nat \<Rightarrow> u32 \<Rightarrow> u32" where
  "pixel2_hflip i bits = (drop_bit (7 - i) bits AND 1) OR (drop_bit (14 - i) bits AND 2)"

definition bpp2 :: depth where
  "bpp2 = \<lparr>dp_read = READ_BITS_2, dp_shift = 8,
     dp_opaque = (\<lambda>i bits. pixel2 i bits \<noteq> 0), dp_pixel = pixel2,
     dp_opaque_hflip = (\<lambda>i bits. pixel2_hflip i bits \<noteq> 0), dp_pixel_hflip = pixel2_hflip\<rparr>"

text \<open>The store of \<open>DO_PIXEL\<close>: the buffer is only looked at for an opaque pixel.\<close>

definition plot :: "bool \<Rightarrow> u16 \<Rightarrow> u32 \<Rightarrow> int \<Rightarrow> u16 list \<Rightarrow> u16 list option" where
  "plot opaque z pixel pos buf =
     (if \<not> opaque then Some buf
      else if 0 \<le> pos \<and> pos < int (length buf)
      then Some (if z > buf ! nat pos then buf[nat pos := z + ucast pixel] else buf)
      else None)"

definition do_pixel :: "depth \<Rightarrow> bool \<Rightarrow> nat \<Rightarrow> u32 \<Rightarrow> u16 \<Rightarrow> int \<Rightarrow> u16 list \<Rightarrow> u16 list option" where
  "do_pixel d flip i bits z dstz buf =
     (if flip then plot (dp_opaque d i bits) z (dp_pixel d i bits) (dstz + int i) buf
      else plot (dp_opaque_hflip d i bits) z (dp_pixel_hflip d i bits) (dstz + int i) buf)"

text \<open>
  The loops \<open>do DO_PIXEL(0); while (bits >>= 1, dstz++, --curw);\<close>, with \<open>bits <<= 1\<close> for a tile that is
  not flipped. A count of zero would run through the whole range of the counter.
\<close>

primrec clip_run :: "depth \<Rightarrow> bool \<Rightarrow> nat \<Rightarrow> u32 \<Rightarrow> u16 \<Rightarrow> int \<Rightarrow> u16 list \<Rightarrow> u16 list option" where
  "clip_run d flip 0 bits z dstz buf = None"
| "clip_run d flip (Suc n) bits z dstz buf = do {
     buf \<leftarrow> do_pixel d flip 0 bits z dstz buf;
     if n = 0 then Some buf
     else clip_run d flip n (if flip then drop_bit 1 bits else push_bit 1 bits) z (dstz + 1) buf
   }"

text \<open>The first \<open>n\<close> of the eight pixels of a whole tile, in order.\<close>

primrec do_pixels :: "depth \<Rightarrow> bool \<Rightarrow> nat \<Rightarrow> u32 \<Rightarrow> u16 \<Rightarrow> int \<Rightarrow> u16 list \<Rightarrow> u16 list option" where
  "do_pixels d flip 0 bits z dstz buf = Some buf"
| "do_pixels d flip (Suc n) bits z dstz buf = do {
     buf \<leftarrow> do_pixels d flip n bits z dstz buf;
     do_pixel d flip n bits z dstz buf
   }"

section \<open>A span\<close>

text \<open>What the code computes once per line: the two pages of the map row and the two tile rows.\<close>

record bg_line =
  bl_tps0 :: int
  bl_tps1 :: int
  bl_tileadr0 :: int
  bl_tileadr1 :: int
  bl_zhi :: u16
  bl_zlo :: u16

definition map_row :: "ppu \<Rightarrow> nat \<Rightarrow> int \<Rightarrow> int" where
  "map_row ppu layer y =
     PPU_bgTilemapAdr ppu layer + push_bit 5 (drop_bit 3 y AND 0x1f)
     + (if y AND 0x100 \<noteq> 0 \<and> PPU_bgTilemapHigher ppu layer
        then if PPU_bgTilemapWider ppu layer then 0x800 else 0x400 else 0)"

definition bg_line_of :: "ppu \<Rightarrow> nat \<Rightarrow> int \<Rightarrow> u16 \<Rightarrow> u16 \<Rightarrow> bg_line" where
  "bg_line_of ppu layer y zhi zlo =
     (let sc_offs = map_row ppu layer y; tileadr = PPU_bgTileAdr ppu layer
      in \<lparr>bl_tps0 = sc_offs AND 0x7fff,
          bl_tps1 = (sc_offs + (if PPU_bgTilemapWider ppu layer then 0x400 else 0)) AND 0x7fff,
          bl_tileadr0 = tileadr + (y AND 7), bl_tileadr1 = tileadr + 7 - (y AND 7), bl_zhi = zhi, bl_zlo = zlo\<rparr>)"

definition bl_tps :: "bg_line \<Rightarrow> int \<Rightarrow> int" where
  "bl_tps l page = (if page = 0 then bl_tps0 l else bl_tps1 l)"

text \<open>The tile pointer with the end of its page and the start of the other one, and \<open>NEXT_TP\<close>.\<close>

type_synonym walk = "int \<times> int \<times> int"

definition walk_at :: "bg_line \<Rightarrow> int \<Rightarrow> walk" where
  "walk_at l x =
     (let page = drop_bit 8 x AND 1
      in (bl_tps l page + (drop_bit 3 x AND 0x1f), bl_tps l page + 31, bl_tps l (page XOR 1)))"

fun NEXT_TP :: "walk \<Rightarrow> walk" where
  "NEXT_TP (tp, tp_last, tp_next) =
     (if tp \<noteq> tp_last then (tp + 1, tp_last, tp_next) else (tp_next, tp_next + 31, tp_last - 31))"

text \<open>The planes, the priority with the palette, and the horizontal flip of the tile at a map entry.\<close>

definition tile_row :: "depth \<Rightarrow> bg_line \<Rightarrow> ppu \<Rightarrow> u16 \<Rightarrow> (u32 \<times> u16 \<times> bool) option" where
  "tile_row d l ppu tile = do {
     bits \<leftarrow> dp_read d ppu (if tst tile 0x8000 then bl_tileadr1 l else bl_tileadr0 l) (uint (tile AND 0x3ff));
     Some (bits, (if tst tile 0x2000 then bl_zhi l else bl_zlo l) + drop_bit (dp_shift d) (tile AND 0x1c00),
           tst tile 0x4000)
   }"

definition bg_left :: "depth \<Rightarrow> bg_line \<Rightarrow> ppu \<Rightarrow> int \<Rightarrow> walk \<Rightarrow> nat \<Rightarrow> int \<Rightarrow> u16 list
    \<Rightarrow> (walk \<times> nat \<times> int \<times> u16 list) option" where
  "bg_left d l ppu x tp w dstz buf =
     (if x AND 7 = 0 then Some (tp, w, dstz, buf)
      else let curw = min (nat (8 - (x AND 7))) w in do {
        tile \<leftarrow> vram_at ppu (fst tp);
        (bits, z, flip) \<leftarrow> tile_row d l ppu tile;
        buf \<leftarrow> (if bits = 0 then Some buf
               else clip_run d flip curw
                 (if flip then drop_bit (nat (x AND 7)) bits else push_bit (nat (x AND 7)) bits) z dstz buf);
        Some (NEXT_TP tp, w - curw, dstz + int curw, buf)
      })"

fun bg_middle :: "depth \<Rightarrow> bg_line \<Rightarrow> ppu \<Rightarrow> walk \<Rightarrow> nat \<Rightarrow> int \<Rightarrow> u16 list \<Rightarrow> (walk \<times> nat \<times> int \<times> u16 list) option" where
  "bg_middle d l ppu tp w dstz buf =
     (if w < 8 then Some (tp, w, dstz, buf)
      else do {
        tile \<leftarrow> vram_at ppu (fst tp);
        (bits, z, flip) \<leftarrow> tile_row d l ppu tile;
        buf \<leftarrow> (if bits = 0 then Some buf else do_pixels d flip 8 bits z dstz buf);
        bg_middle d l ppu (NEXT_TP tp) (w - 8) (dstz + 8) buf
      })"

declare bg_middle.simps [simp del]

lemma bg_middle_short: "w < 8 \<Longrightarrow> bg_middle d l ppu tp w dstz buf = Some (tp, w, dstz, buf)"
  by (simp add: bg_middle.simps)

definition bg_right :: "depth \<Rightarrow> bg_line \<Rightarrow> ppu \<Rightarrow> walk \<Rightarrow> nat \<Rightarrow> int \<Rightarrow> u16 list \<Rightarrow> u16 list option" where
  "bg_right d l ppu tp w dstz buf =
     (if w = 0 then Some buf
      else do {
        tile \<leftarrow> vram_at ppu (fst tp);
        (bits, z, flip) \<leftarrow> tile_row d l ppu tile;
        if bits = 0 then Some buf else clip_run d flip w bits z dstz buf
      })"

definition bg_span :: "depth \<Rightarrow> bg_line \<Rightarrow> ppu \<Rightarrow> int \<Rightarrow> nat \<Rightarrow> int \<Rightarrow> u16 list \<Rightarrow> u16 list option" where
  "bg_span d l ppu x w dstz buf = do {
     (tp, w, dstz, buf) \<leftarrow> bg_left d l ppu x (walk_at l x) w dstz buf;
     (tp, w, dstz, buf) \<leftarrow> bg_middle d l ppu tp w dstz buf;
     bg_right d l ppu tp w dstz buf
   }"

section \<open>A line\<close>

definition put_bg :: "bool \<Rightarrow> u16 list \<Rightarrow> renderer \<Rightarrow> renderer" where
  "put_bg sub buf rd = rd\<lparr>rd_bgBuffers := (rd_bgBuffers rd)[of_bool sub := buf]\<rparr>"

definition PpuDrawBackground_4bpp :: "int \<Rightarrow> bool \<Rightarrow> nat \<Rightarrow> u16 \<Rightarrow> u16 \<Rightarrow> renderer \<Rightarrow> renderer option" where
  "PpuDrawBackground_4bpp y sub layer zhi zlo rd =
     (let ppu = rd_ppu rd in
      if \<not> IS_SCREEN_ENABLED ppu sub layer then Some rd
      else do {
        win \<leftarrow> layer_windows rd sub layer y;
        let l = bg_line_of ppu layer (y + uint (ppu_vScroll ppu ! layer)) zhi zlo;
        buf \<leftarrow> for_windows win (\<lambda>windex left right buf.
                 bg_span bpp4 l ppu (left + uint (ppu_hScroll ppu ! layer)) (nat (right - left)) (left + 96) buf)
               (rd_bgBuffers rd ! of_bool sub);
        Some (put_bg sub buf rd)
      })"

text \<open>The five spans of a split status bar, with the shift of the source column of each.\<close>

definition hud_split :: "renderer \<Rightarrow> nat \<Rightarrow> int \<Rightarrow> ppu_windows \<Rightarrow> ppu_windows \<times> int list" where
  "hud_split rd layer y win =
     (let left = uint (rd_extraLeftCur rd); right = uint (rd_extraRightCur rd);
          left_end = uint (rd_wsHudLeftEnd rd); right_start = uint (rd_wsHudRightStart rd) in
      if layer = 2 \<and> y < uint (rd_wsHudSplitHeight rd) \<and> left \<noteq> 0 \<and> right \<noteq> 0 \<and> wn_nr win = 1 \<and> wn_bits win = 0
      then (\<lparr>wn_edges = [- left, left_end - left, left_end, right_start, right_start + right, 256 + right],
             wn_nr = 5, wn_bits = 0x0a\<rparr>, [left, 0, 0, 0, - right, 0])
      else (win, [0, 0, 0, 0, 0, 0]))"

definition PpuDrawBackground_2bpp :: "int \<Rightarrow> bool \<Rightarrow> nat \<Rightarrow> u16 \<Rightarrow> u16 \<Rightarrow> renderer \<Rightarrow> renderer option" where
  "PpuDrawBackground_2bpp y sub layer zhi zlo rd =
     (let ppu = rd_ppu rd in
      if \<not> IS_SCREEN_ENABLED ppu sub layer then Some rd
      else do {
        win \<leftarrow> layer_windows rd sub layer y;
        let (win, ws_bias) = hud_split rd layer y win;
        let l = bg_line_of ppu layer (y + uint (ppu_vScroll ppu ! layer)) zhi zlo;
        buf \<leftarrow> for_windows win (\<lambda>windex left right buf.
                 bg_span bpp2 l ppu (left + uint (ppu_hScroll ppu ! layer) + ws_bias ! windex)
                   (nat (right - left)) (left + 96) buf)
               (rd_bgBuffers rd ! of_bool sub);
        Some (put_bg sub buf rd)
      })"

section \<open>Columns of a buffer\<close>

text \<open>\<open>cols a b g buf\<close> applies \<open>g\<close> to each of the columns from \<open>a\<close> up to \<open>b\<close>.\<close>

definition cols :: "int \<Rightarrow> int \<Rightarrow> (int \<Rightarrow> u16 \<Rightarrow> u16) \<Rightarrow> u16 list \<Rightarrow> u16 list" where
  "cols a b g buf =
     map (\<lambda>i. if a \<le> int i - 96 \<and> int i - 96 < b then g (int i - 96) (buf ! i) else buf ! i) [0..<length buf]"

lemma length_cols [simp]: "length (cols a b g buf) = length buf"
  by (simp add: cols_def)

lemma nth_cols: "i < length buf \<Longrightarrow>
    cols a b g buf ! i = (if a \<le> int i - 96 \<and> int i - 96 < b then g (int i - 96) (buf ! i) else buf ! i)"
  by (simp add: cols_def)

lemma cols_empty: "b \<le> a \<Longrightarrow> cols a b g buf = buf"
  by (rule nth_equalityI) (auto simp: nth_cols)

lemma cols_split: "a \<le> m \<Longrightarrow> m \<le> b \<Longrightarrow> cols m b g (cols a m g buf) = cols a b g buf"
  by (rule nth_equalityI) (auto simp: nth_cols)

lemma cols_cong: "(\<And>x v. a \<le> x \<Longrightarrow> x < b \<Longrightarrow> g x v = h x v) \<Longrightarrow> cols a b g buf = cols a b h buf"
  by (rule nth_equalityI) (auto simp: nth_cols)

lemma cols_id: "(\<And>x v. a \<le> x \<Longrightarrow> x < b \<Longrightarrow> g x v = v) \<Longrightarrow> cols a b g buf = buf"
  by (rule nth_equalityI) (auto simp: nth_cols)

lemma cols_widen:
  "L \<le> a \<Longrightarrow> b \<le> R \<Longrightarrow> cols a b g buf = cols L R (\<lambda>x v. if a \<le> x \<and> x < b then g x v else v) buf"
  by (rule nth_equalityI) (auto simp: nth_cols)

lemma cols_one:
  assumes "0 \<le> x + 96"
  shows "cols x (x + 1) g buf =
    (if x + 96 < int (length buf) then buf[nat (x + 96) := g x (buf ! nat (x + 96))] else buf)"
proof (rule nth_equalityI)
  fix i assume "i < length (cols x (x + 1) g buf)"
  then have i: "i < length buf" by simp
  have "x \<le> int i - 96 \<and> int i - 96 < x + 1 \<longleftrightarrow> i = nat (x + 96)" using assms by auto
  then show "cols x (x + 1) g buf ! i
      = (if x + 96 < int (length buf) then buf[nat (x + 96) := g x (buf ! nat (x + 96))] else buf) ! i"
    using i assms by (auto simp: nth_cols nth_list_update)
qed auto

text \<open>A body that draws each span column by column draws the unmasked columns of the line.\<close>

lemma windows_from_cols:
  assumes win: "windows_ok L R masked win"
    and body: "\<And>k a b buf. k < wn_nr win \<Longrightarrow> a = wn_edges win ! k \<Longrightarrow> b = wn_edges win ! Suc k \<Longrightarrow>
      length buf = n \<Longrightarrow> \<not> bit (wn_bits win) k \<Longrightarrow> f k a b buf = Some (cols a b g buf)"
    and "windex + k = wn_nr win" "length buf = n"
  shows "windows_from k win f windex buf = Some (cols (wn_edges win ! windex) R (\<lambda>x v. if masked x then v else g x v) buf)"
  using assms(3,4)
proof (induction k arbitrary: windex buf)
  case 0
  then show ?case using win by (simp add: windows_ok_def spans_def cols_empty)
next
  case (Suc k)
  let ?a = "wn_edges win ! windex" and ?b = "wn_edges win ! Suc windex"
  let ?g = "\<lambda>x v. if masked x then v else g x v"
  have w: "windex < wn_nr win" using Suc.prems by simp
  have ab: "?a \<le> ?b" "?b \<le> R"
    using win w spans_le [of L R "wn_nr win" "wn_edges win" windex "Suc windex"]
      spans_le [of L R "wn_nr win" "wn_edges win" "Suc windex" "wn_nr win"]
    by (simp_all add: windows_ok_def spans_def)
  have m: "bit (wn_bits win) windex = masked x" if "?a \<le> x" "x < ?b" for x
    using win w that by (simp add: windows_ok_def)
  have "(if bit (wn_bits win) windex then Some buf else f windex ?a ?b buf) = Some (cols ?a ?b ?g buf)"
  proof (cases "bit (wn_bits win) windex")
    case True
    then have "cols ?a ?b ?g buf = buf" using m by (intro cols_id) auto
    with True show ?thesis by simp
  next
    case False
    then have "cols ?a ?b ?g buf = cols ?a ?b g buf" using m by (intro cols_cong) auto
    with False show ?thesis using body [OF w refl refl Suc.prems(2)] by simp
  qed
  moreover have "windows_from k win f (Suc windex) (cols ?a ?b ?g buf) = Some (cols ?b R ?g (cols ?a ?b ?g buf))"
    using Suc by simp
  ultimately show ?case using ab by (simp add: cols_split)
qed

lemma for_windows_cols:
  assumes "windows_ok L R masked win" "length buf = n"
    and "\<And>k a b buf. k < wn_nr win \<Longrightarrow> a = wn_edges win ! k \<Longrightarrow> b = wn_edges win ! Suc k \<Longrightarrow>
      length buf = n \<Longrightarrow> \<not> bit (wn_bits win) k \<Longrightarrow> f k a b buf = Some (cols a b g buf)"
  shows "for_windows win f buf = Some (cols L R (\<lambda>x v. if masked x then v else g x v) buf)"
  using windows_from_cols [OF assms(1,3), where windex = 0 and k = "wn_nr win" and buf = buf] assms(1,2)
  by (simp add: for_windows_def windows_ok_def spans_def)

section \<open>Columns of the map\<close>

text \<open>The tile walk stands on the map entry of its column.\<close>

lemma int_low_bits:
  fixes x :: int
  shows "x AND 1 = x mod 2" "x AND 7 = x mod 8" "x AND 0x1f = x mod 32" "x AND 0x7fff = x mod 0x8000"
  using take_bit_eq_mask [of 1 x] take_bit_eq_mask [of 3 x] take_bit_eq_mask [of 5 x] take_bit_eq_mask [of 15 x]
  by (simp_all add: take_bit_eq_mod mask_eq_exp_minus_1)

lemma walk_at_column:
  "walk_at l x = (let c = x div 8; page = c div 32 mod 2
     in (bl_tps l page + c mod 32, bl_tps l page + 31, bl_tps l (1 - page)))"
proof -
  have "q mod 2 XOR 1 = 1 - q mod 2" for q :: int
    by (cases "q mod 2 = 0") (auto simp: not_mod_2_eq_0_eq_1)
  moreover have "x div 8 div 32 = x div 256" using zdiv_zmult2_eq [of 32 x 8] by simp
  moreover have "(2::int) ^ 8 = 256" "(2::int) ^ 3 = 8" by simp_all
  ultimately show ?thesis
    by (simp only: walk_at_def Let_def drop_bit_eq_div int_low_bits)
qed

lemma walk_at_tile: "x div 8 = x' div 8 \<Longrightarrow> walk_at l x = walk_at l x'"
  by (simp add: walk_at_column)

lemma NEXT_TP_walk: "NEXT_TP (walk_at l x) = walk_at l (x + 8)"
proof -
  define c where "c = x div 8"
  define q r where "q = c div 32" and "r = c mod 32"
  have c: "(x + 8) div 8 = c + 1" by (simp add: c_def)
  have qr: "c = r + q * 32" "0 \<le> r" "r < 32" by (simp_all add: q_def r_def)
  have page: "(q + 1) mod 2 = 1 - q mod 2" by (simp add: mod_2_eq_odd)
  show ?thesis
  proof (cases "r = 31")
    case True
    then have "c + 1 = (q + 1) * 32" using qr(1) by simp
    then have "(c + 1) mod 32 = 0" "(c + 1) div 32 = q + 1" by simp_all
    then show ?thesis
      using True page by (simp add: walk_at_column Let_def c c_def [symmetric] q_def [symmetric] r_def [symmetric])
  next
    case False
    then have e: "c + 1 = (r + 1) + q * 32" and r: "0 \<le> r + 1" "r + 1 < 32" using qr by simp_all
    have "(c + 1) mod 32 = r + 1" unfolding e mod_mult_self1 using r by (rule mod_pos_pos_trivial)
    moreover have "(c + 1) div 32 = q" unfolding e using r by (subst div_mult_self1) (simp_all add: div_pos_pos_trivial)
    ultimately show ?thesis
      using False by (simp add: walk_at_column Let_def c c_def [symmetric] q_def [symmetric] r_def [symmetric])
  qed
qed

text \<open>One pixel of a tile row over what is in the buffer.\<close>

definition draw_px :: "depth \<Rightarrow> u32 \<times> u16 \<times> bool \<Rightarrow> nat \<Rightarrow> u16 \<Rightarrow> u16" where
  "draw_px d row k v =
     (case row of (bits, z, flip) \<Rightarrow>
       if (if flip then dp_opaque d k bits else dp_opaque_hflip d k bits) \<and> z > v
       then z + ucast (if flip then dp_pixel d k bits else dp_pixel_hflip d k bits) else v)"

text \<open>What a column of the map puts over a value: the reference for the drawing loops.\<close>

definition bg_column :: "depth \<Rightarrow> bg_line \<Rightarrow> ppu \<Rightarrow> int \<Rightarrow> u16 \<Rightarrow> u16" where
  "bg_column d l ppu x v =
     (case Option.bind (vram_at ppu (fst (walk_at l x))) (tile_row d l ppu) of
        None \<Rightarrow> v | Some row \<Rightarrow> draw_px d row (nat (x mod 8)) v)"

text \<open>The pages of the map and the tile rows stay inside video memory.\<close>

definition bg_line_ok :: "bg_line \<Rightarrow> bool" where
  "bg_line_ok l \<longleftrightarrow> (\<forall>t\<in>{bl_tps0 l, bl_tps1 l}. 0 \<le> t \<and> t + 31 < 0x8000)
     \<and> (\<forall>t\<in>{bl_tileadr0 l, bl_tileadr1 l}. 0 \<le> t \<and> t mod 16 < 8)"

lemma walk_at_in_vram: "bg_line_ok l \<Longrightarrow> \<exists>tile. vram_at ppu (fst (walk_at l x)) = Some tile"
proof -
  assume ok: "bg_line_ok l"
  define c where "c = x div 8"
  have "0 \<le> c mod 32" "c mod 32 \<le> 31" using pos_mod_bound [of 32 c] by auto
  then show ?thesis using ok
    by (auto simp: bg_line_ok_def walk_at_column Let_def bl_tps_def vram_at_def c_def [symmetric])
qed

lemma do_pixel_cols:
  assumes "0 \<le> x + 96 + int i" "x + 96 + int i < int (length buf)"
  shows "do_pixel d flip i bits z (x + 96) buf =
    Some (cols (x + int i) (x + int i + 1) (\<lambda>_. draw_px d (bits, z, flip) i) buf)"
proof -
  have b: "0 \<le> x + int i + 96" "x + int i + 96 < int (length buf)" using assms by auto
  have p: "x + 96 + int i = x + int i + 96" by simp
  show ?thesis
    using b unfolding cols_one [OF b(1)] do_pixel_def p by (auto simp: plot_def draw_px_def)
qed

text \<open>What the macros of a depth have in common.\<close>

locale bg_depth =
  fixes d :: depth
  assumes opaque_shift: "i + k < 8 \<Longrightarrow> dp_opaque d i (drop_bit k bits) = dp_opaque d (i + k) bits"
    and pixel_shift: "i + k < 8 \<Longrightarrow> dp_pixel d i (drop_bit k bits) = dp_pixel d (i + k) bits"
    and opaque_shift_hflip: "i + k < 8 \<Longrightarrow> dp_opaque_hflip d i (push_bit k bits) = dp_opaque_hflip d (i + k) bits"
    and pixel_shift_hflip: "i + k < 8 \<Longrightarrow> dp_pixel_hflip d i (push_bit k bits) = dp_pixel_hflip d (i + k) bits"
    and opaque_zero: "\<not> dp_opaque d i 0" "\<not> dp_opaque_hflip d i 0"
    and read_ok: "0 \<le> ta \<Longrightarrow> ta mod 16 < 8 \<Longrightarrow> 0 \<le> tile \<Longrightarrow> \<exists>bits. dp_read d ppu ta tile = Some bits"
begin

lemma draw_px_shift:
  "i + k < 8 \<Longrightarrow> draw_px d (if flip then drop_bit k bits else push_bit k bits, z, flip) i = draw_px d (bits, z, flip) (i + k)"
  by (simp add: draw_px_def fun_eq_iff opaque_shift pixel_shift opaque_shift_hflip pixel_shift_hflip)

lemma draw_px_zero: "draw_px d (0, z, flip) i v = v"
  by (simp add: draw_px_def opaque_zero)

lemma clip_run_cols:
  assumes "k + Suc n \<le> 8" "0 \<le> x + 96" "x + 96 + int (Suc n) \<le> int (length buf)"
  shows "clip_run d flip (Suc n) (if flip then drop_bit k bits else push_bit k bits) z (x + 96) buf =
    Some (cols x (x + int (Suc n)) (\<lambda>x'. draw_px d (bits, z, flip) (nat (x' - x) + k)) buf)"
  using assms
proof (induction n arbitrary: k x buf)
  case 0
  have "cols x (x + 1) (\<lambda>_. draw_px d (bits, z, flip) k) buf = cols x (x + 1) (\<lambda>x'. draw_px d (bits, z, flip) (nat (x' - x) + k)) buf"
    by (rule cols_cong) (simp add: zless_add1_eq)
  then show ?case
    using do_pixel_cols [of x 0 buf d flip "if flip then drop_bit k bits else push_bit k bits" z]
      draw_px_shift [of 0 k flip bits z] 0 by simp
next
  case (Suc n)
  let ?g = "\<lambda>x'. draw_px d (bits, z, flip) (nat (x' - x) + k)"
  let ?b = "if flip then drop_bit k bits else push_bit k bits"
  have one: "cols x (x + 1) (\<lambda>_. draw_px d (bits, z, flip) k) buf = cols x (x + 1) ?g buf"
    by (rule cols_cong) (simp add: zless_add1_eq)
  have next_bits: "(if flip then drop_bit 1 ?b else push_bit 1 ?b) = (if flip then drop_bit (Suc k) bits else push_bit (Suc k) bits)"
    by simp
  have "clip_run d flip (Suc n) (if flip then drop_bit (Suc k) bits else push_bit (Suc k) bits) z (x + 1 + 96) (cols x (x + 1) ?g buf)
      = Some (cols (x + 1) (x + 1 + int (Suc n)) (\<lambda>x'. draw_px d (bits, z, flip) (nat (x' - (x + 1)) + Suc k)) (cols x (x + 1) ?g buf))"
    using Suc.prems by (intro Suc.IH) auto
  also have "cols (x + 1) (x + 1 + int (Suc n)) (\<lambda>x'. draw_px d (bits, z, flip) (nat (x' - (x + 1)) + Suc k)) (cols x (x + 1) ?g buf)
      = cols (x + 1) (x + 1 + int (Suc n)) ?g (cols x (x + 1) ?g buf)"
    by (rule cols_cong) (simp add: nat_diff_distrib' Suc_nat_eq_nat_zadd1 flip: add_Suc)
  also have "\<dots> = cols x (x + int (Suc (Suc n))) ?g buf"
    by (subst cols_split) (simp_all add: algebra_simps)
  finally show ?case
    using do_pixel_cols [of x 0 buf d flip ?b z] draw_px_shift [of 0 k flip bits z] Suc.prems next_bits one
    by (subst clip_run.simps) (simp add: algebra_simps del: clip_run.simps)
qed

lemma clip_run_pos:
  assumes "0 < n" "k + n \<le> 8" "0 \<le> x + 96" "x + 96 + int n \<le> int (length buf)"
  shows "clip_run d flip n (if flip then drop_bit k bits else push_bit k bits) z (x + 96) buf =
    Some (cols x (x + int n) (\<lambda>x'. draw_px d (bits, z, flip) (nat (x' - x) + k)) buf)"
  using assms clip_run_cols [of k "n - 1" x buf flip bits z] by (cases n) (simp_all del: clip_run.simps)

lemma clip_run_start:
  assumes "0 < n" "n \<le> 8" "0 \<le> x + 96" "x + 96 + int n \<le> int (length buf)"
  shows "clip_run d flip n bits z (x + 96) buf = Some (cols x (x + int n) (\<lambda>x'. draw_px d (bits, z, flip) (nat (x' - x) + 0)) buf)"
  using clip_run_pos [of n 0 x buf flip bits z] assms by (cases flip) simp_all

lemma do_pixels_cols:
  assumes "n \<le> 8" "0 \<le> x + 96" "x + 96 + int n \<le> int (length buf)"
  shows "do_pixels d flip n bits z (x + 96) buf =
    Some (cols x (x + int n) (\<lambda>x'. draw_px d (bits, z, flip) (nat (x' - x))) buf)"
  using assms
proof (induction n)
  case 0
  then show ?case by (simp add: cols_empty)
next
  case (Suc n)
  let ?g = "\<lambda>x'. draw_px d (bits, z, flip) (nat (x' - x))"
  have "cols (x + int n) (x + int n + 1) (\<lambda>_. draw_px d (bits, z, flip) n) (cols x (x + int n) ?g buf)
      = cols (x + int n) (x + int n + 1) ?g (cols x (x + int n) ?g buf)"
    by (rule cols_cong) (simp add: zless_add1_eq)
  also have "\<dots> = cols x (x + int (Suc n)) ?g buf"
    by (subst cols_split) (simp_all add: algebra_simps)
  finally show ?case
    using Suc do_pixel_cols [of x n "cols x (x + int n) ?g buf" d flip bits z] by simp
qed

lemma tile_row_ok: "bg_line_ok l \<Longrightarrow> \<exists>row. tile_row d l ppu tile = Some row"
proof -
  assume ok: "bg_line_ok l"
  obtain bits where "dp_read d ppu (if tst tile 0x8000 then bl_tileadr1 l else bl_tileadr0 l) (uint (tile AND 0x3ff)) = Some bits"
    using ok read_ok [of "bl_tileadr1 l" "uint (tile AND 0x3ff)" ppu] read_ok [of "bl_tileadr0 l" "uint (tile AND 0x3ff)" ppu]
    by (fastforce simp: bg_line_ok_def)
  then show ?thesis by (simp add: tile_row_def)
qed

text \<open>The columns of one tile, from the pixel \<open>k\<close> on.\<close>

lemma tile_columns:
  assumes "vram_at ppu (fst (walk_at l (x + s))) = Some tile" "tile_row d l ppu tile = Some row"
    and "k = nat ((x + s) mod 8)" "int k + b - x \<le> 8"
  shows "cols x b (\<lambda>x'. bg_column d l ppu (x' + s)) buf = cols x b (\<lambda>x'. draw_px d row (nat (x' - x) + k)) buf"
proof (rule cols_cong)
  fix x' v assume x': "x \<le> x'" "x' < b"
  define q where "q = (x + s) div 8"
  have X: "x + s = int k + q * 8" using assms(3) by (simp add: q_def)
  have X': "x' + s = (x' - x + int k) + q * 8" using X by simp
  have "(x' + s) mod 8 = x' - x + int k" "(x' + s) div 8 = (x + s) div 8"
    unfolding X' q_def [symmetric] using x' assms(4) by (simp_all add: div_pos_pos_trivial mod_pos_pos_trivial)
  then show "bg_column d l ppu (x' + s) v = draw_px d row (nat (x' - x) + k) v"
    using assms(1,2) walk_at_tile [of "x' + s" "x + s" l] x' by (simp add: bg_column_def nat_add_distrib)
qed

text \<open>The tile at a column, ready to be drawn.\<close>

lemma tile_at:
  assumes "bg_line_ok l"
  obtains tile bits z flip where "vram_at ppu (fst (walk_at l X)) = Some tile" "tile_row d l ppu tile = Some (bits, z, flip)"
  using walk_at_in_vram [OF assms, of ppu X] tile_row_ok [OF assms, of ppu] by fastforce

text \<open>The state of the drawing loops after \<open>n\<close> columns.\<close>

definition drawn :: "bg_line \<Rightarrow> ppu \<Rightarrow> int \<Rightarrow> int \<Rightarrow> nat \<Rightarrow> u16 list \<Rightarrow> nat \<Rightarrow> walk \<times> nat \<times> int \<times> u16 list \<Rightarrow> bool" where
  "drawn l ppu x s w buf n st \<longleftrightarrow> n \<le> w \<and> (\<exists>tp.
     st = (tp, w - n, x + int n + 96, cols x (x + int n) (\<lambda>x'. bg_column d l ppu (x' + s)) buf)
     \<and> (n < w \<longrightarrow> tp = walk_at l (x + int n + s) \<and> (x + int n + s) mod 8 = 0))"

lemma bg_left_drawn:
  assumes "bg_line_ok l" "0 < w" "0 \<le> x + 96" "x + 96 + int w \<le> int (length buf)"
  shows "\<exists>n st. bg_left d l ppu (x + s) (walk_at l (x + s)) w (x + 96) buf = Some st \<and> drawn l ppu x s w buf n st"
proof (cases "(x + s) mod 8 = 0")
  case True
  then show ?thesis
    by (intro exI [of _ 0] exI [of _ "(walk_at l (x + s), w, x + 96, buf)"])
      (simp add: bg_left_def drawn_def int_low_bits cols_empty del: split_paired_Ex)
next
  case False
  define k where "k = nat ((x + s) mod 8)"
  have k: "(x + s) mod 8 = int k" "0 < k" "k < 8" using False by (simp_all add: k_def nat_less_iff)
  define n where "n = min (8 - k) w"
  have n: "min (nat (8 - int k)) w = n" "0 < n" "n \<le> w" "k + n \<le> 8" using k assms(2) by (auto simp: n_def)
  obtain tile bits z flip where tile: "vram_at ppu (fst (walk_at l (x + s))) = Some tile" "tile_row d l ppu tile = Some (bits, z, flip)"
    using tile_at [OF assms(1)] by metis
  let ?buf = "cols x (x + int n) (\<lambda>x'. bg_column d l ppu (x' + s)) buf"
  have buf: "?buf = cols x (x + int n) (\<lambda>x'. draw_px d (bits, z, flip) (nat (x' - x) + k)) buf"
    using n(4) by (intro tile_columns [OF tile]) (simp_all add: k_def)
  have "(if bits = 0 then Some buf else clip_run d flip n (if flip then drop_bit k bits else push_bit k bits) z (x + 96) buf)
      = Some ?buf"
  proof (cases "bits = 0")
    case True
    then show ?thesis by (simp add: buf draw_px_zero cols_id)
  next
    case False
    then show ?thesis
      using clip_run_pos [of n k x buf flip bits z] n assms(3,4) by (simp add: buf)
  qed
  moreover have "NEXT_TP (walk_at l (x + s)) = walk_at l (x + int n + s)" "(x + int n + s) mod 8 = 0" if "n < w"
  proof -
    define q where "q = (x + s) div 8"
    have "x + s = int k + q * 8" using k(1) div_mult_mod_eq [of "x + s" 8] by (simp add: q_def)
    moreover have "int n = 8 - int k" using that k(3) by (simp add: n_def)
    ultimately have X: "x + int n + s = (q + 1) * 8" "x + s + 8 = int k + (q + 1) * 8" by simp_all
    then show "(x + int n + s) mod 8 = 0" by simp
    have "(x + s + 8) div 8 = (x + int n + s) div 8"
      unfolding X using k(3) by (simp add: div_pos_pos_trivial)
    then show "NEXT_TP (walk_at l (x + s)) = walk_at l (x + int n + s)"
      using walk_at_tile [of "x + s + 8" "x + int n + s" l] by (simp only: NEXT_TP_walk)
  qed
  ultimately have "bg_left d l ppu (x + s) (walk_at l (x + s)) w (x + 96) buf
      = Some (NEXT_TP (walk_at l (x + s)), w - n, x + 96 + int n, ?buf)"
    using tile k n(1) by (cases "bits = 0"; cases flip) (simp_all add: bg_left_def int_low_bits Let_def)
  with \<open>n < w \<Longrightarrow> NEXT_TP (walk_at l (x + s)) = walk_at l (x + int n + s)\<close> \<open>n < w \<Longrightarrow> (x + int n + s) mod 8 = 0\<close>
  show ?thesis
    using n(3) by (intro exI [of _ n] exI [of _ "(NEXT_TP (walk_at l (x + s)), w - n, x + 96 + int n, ?buf)"])
      (simp add: drawn_def del: split_paired_Ex)
qed

lemma bg_middle_drawn:
  assumes "bg_line_ok l" "0 \<le> x + 96" "x + 96 + int w \<le> int (length buf)" "drawn l ppu x s w buf n (tp, w', dstz, buf')"
  shows "\<exists>n' st. bg_middle d l ppu tp w' dstz buf' = Some st \<and> drawn l ppu x s w buf n' st \<and> w < n' + 8"
  using assms(4)
proof (induction w' arbitrary: n tp dstz buf' rule: less_induct)
  case (less w')
  let ?g = "\<lambda>x'. bg_column d l ppu (x' + s)"
  note st = less.prems [unfolded drawn_def]
  show ?case
  proof (cases "w' < 8")
    case True
    then show ?thesis
      using less.prems st by (intro exI [of _ n] exI [of _ "(tp, w', dstz, buf')"]) (auto simp: bg_middle_short)
  next
    case False
    then have w': "w' = w - n" "n < w" "8 \<le> w - n" and dst: "dstz = x + int n + 96" "buf' = cols x (x + int n) ?g buf"
      and tp: "tp = walk_at l (x + int n + s)" "(x + int n + s) mod 8 = 0"
      using st by auto
    obtain tile bits z flip where tile: "vram_at ppu (fst tp) = Some tile" "tile_row d l ppu tile = Some (bits, z, flip)"
      using tile_at [OF assms(1), of ppu] tp(1) by metis
    have c: "cols (x + int n) (x + int n + 8) ?g buf' = cols (x + int n) (x + int n + 8) (\<lambda>x'. draw_px d (bits, z, flip) (nat (x' - (x + int n)) + 0)) buf'"
      using tile tp by (intro tile_columns) simp_all
    have e: "cols (x + int n) (x + int n + 8) ?g buf' = cols x (x + int (n + 8)) ?g buf"
      unfolding dst(2) by (subst cols_split) (simp_all add: add.assoc)
    have draw: "(if bits = 0 then Some buf' else do_pixels d flip 8 bits z dstz buf') = Some (cols x (x + int (n + 8)) ?g buf)"
    proof (cases "bits = 0")
      case True
      have "cols a b (\<lambda>x'. draw_px d (bits, z, flip) (nat (x' - a) + 0)) buf' = buf'" for a b
        using True by (simp add: draw_px_zero cols_id)
      with True show ?thesis using c e by metis
    next
      case False
      then show ?thesis
        using do_pixels_cols [of 8 "x + int n" buf' flip bits z] w' assms(2,3) dst c e by simp
    qed
    have X: "x + int (n + 8) + s = x + int n + s + 8" by simp
    have "(x + int n + s + 8) mod 8 = 0" using tp(2) by simp
    then have "drawn l ppu x s w buf (n + 8) (NEXT_TP tp, w' - 8, dstz + 8, cols x (x + int (n + 8)) ?g buf)"
      unfolding drawn_def X tp(1) NEXT_TP_walk
      using w' dst(1) by (intro conjI exI [of _ "walk_at l (x + int n + s + 8)"]) simp_all
    from less.IH [OF _ this] False obtain n' st where
      "bg_middle d l ppu (NEXT_TP tp) (w' - 8) (dstz + 8) (cols x (x + int (n + 8)) ?g buf) = Some st"
      "drawn l ppu x s w buf n' st" "w < n' + 8" by auto
    then show ?thesis
      using tile draw False by (subst bg_middle.simps) auto
  qed
qed

lemma bg_right_drawn:
  assumes "bg_line_ok l" "0 \<le> x + 96" "x + 96 + int w \<le> int (length buf)" "drawn l ppu x s w buf n (tp, w', dstz, buf')" "w < n + 8"
  shows "bg_right d l ppu tp w' dstz buf' = Some (cols x (x + int w) (\<lambda>x'. bg_column d l ppu (x' + s)) buf)"
proof -
  let ?g = "\<lambda>x'. bg_column d l ppu (x' + s)"
  have st: "n \<le> w" "w' = w - n" "dstz = x + int n + 96" "buf' = cols x (x + int n) ?g buf"
      "n < w \<Longrightarrow> tp = walk_at l (x + int n + s)" "n < w \<Longrightarrow> (x + int n + s) mod 8 = 0"
    using assms(4) by (auto simp: drawn_def)
  show ?thesis
  proof (cases "n < w")
    case False
    then show ?thesis using st by (simp add: bg_right_def)
  next
    case True
    obtain tile bits z flip where tile: "vram_at ppu (fst tp) = Some tile" "tile_row d l ppu tile = Some (bits, z, flip)"
      using tile_at [OF assms(1), of ppu] st(5) [OF True] by metis
    have c: "cols (x + int n) (x + int w) ?g buf' = cols (x + int n) (x + int w) (\<lambda>x'. draw_px d (bits, z, flip) (nat (x' - (x + int n)) + 0)) buf'"
      using tile st(5,6) [OF True] assms(5) by (intro tile_columns) auto
    have e: "cols (x + int n) (x + int w) ?g buf' = cols x (x + int w) ?g buf"
      unfolding st(4) using st(1) by (subst cols_split) simp_all
    have "(if bits = 0 then Some buf' else clip_run d flip w' bits z dstz buf') = Some (cols x (x + int w) ?g buf)"
    proof (cases "bits = 0")
      case True
      have "cols a b (\<lambda>x'. draw_px d (bits, z, flip) (nat (x' - a) + 0)) buf' = buf'" for a b
        using True by (simp add: draw_px_zero cols_id)
      with True show ?thesis using c e by metis
    next
      case False
      then show ?thesis
        using clip_run_start [of w' "x + int n" buf' flip bits z] st(1-4) True assms(2,3,5) c e by simp
    qed
    then show ?thesis using tile st(2) True unfolding bg_right_def by (simp add: if_splits)
  qed
qed

theorem bg_span_cols:
  assumes "bg_line_ok l" "0 < w" "0 \<le> x + 96" "x + 96 + int w \<le> int (length buf)"
  shows "bg_span d l ppu (x + s) w (x + 96) buf = Some (cols x (x + int w) (\<lambda>x'. bg_column d l ppu (x' + s)) buf)"
proof -
  obtain n tp w' dstz buf' where 1: "bg_left d l ppu (x + s) (walk_at l (x + s)) w (x + 96) buf = Some (tp, w', dstz, buf')"
      "drawn l ppu x s w buf n (tp, w', dstz, buf')"
    using bg_left_drawn [OF assms, of ppu s] by (metis prod_cases4)
  obtain n' tp' w'' dstz' buf'' where 2: "bg_middle d l ppu tp w' dstz buf' = Some (tp', w'', dstz', buf'')"
      "drawn l ppu x s w buf n' (tp', w'', dstz', buf'')" "w < n' + 8"
    using bg_middle_drawn [OF assms(1,3,4) 1(2)] by (metis prod_cases4)
  show ?thesis
    using 1(1) 2(1) bg_right_drawn [OF assms(1,3,4) 2(2,3)] by (simp add: bg_span_def)
qed

end

section \<open>The two depths\<close>

lemma vram_at_low: "0 \<le> i \<Longrightarrow> \<exists>v. vram_at ppu (i AND 0x7fff) = Some v"
  by (simp add: vram_at_def int_low_bits)

text \<open>With the row of the tile below eight, the second pair of planes is inside video memory too.\<close>

lemma vram_at_planes: "0 \<le> i \<Longrightarrow> i mod 16 < 8 \<Longrightarrow> \<exists>v. vram_at ppu ((i AND 0x7fff) + 8) = Some v"
proof -
  assume i: "0 \<le> i" "i mod 16 < 8"
  define m q where "m = i mod 0x8000" and "q = m div 16"
  have "m mod 16 = i mod 16" by (simp add: m_def mod_mod_cancel)
  then have "m = 16 * q + i mod 16" using div_mult_mod_eq [of m 16] by (simp add: q_def)
  moreover have "m < 0x8000" "0 \<le> m" by (simp_all add: m_def)
  ultimately have "q < 0x800" by simp
  with \<open>m = 16 * q + i mod 16\<close> i(2) \<open>0 \<le> m\<close> show ?thesis by (simp add: vram_at_def int_low_bits m_def [symmetric])
qed

lemma read_bits_4: "0 \<le> ta \<Longrightarrow> ta mod 16 < 8 \<Longrightarrow> 0 \<le> tile \<Longrightarrow> \<exists>bits. READ_BITS_4 ppu ta tile = Some bits"
  using vram_at_low [of "ta + tile * 16" ppu] vram_at_planes [of "ta + tile * 16" ppu]
  by (auto simp: READ_BITS_4_def Let_def)

lemma read_bits_2: "0 \<le> ta \<Longrightarrow> 0 \<le> tile \<Longrightarrow> \<exists>bits. READ_BITS_2 ppu ta tile = Some bits"
  using vram_at_low [of "ta + tile * 8" ppu] by (auto simp: READ_BITS_2_def)

text \<open>The pixel of two or four planes.\<close>

definition planes :: "bool \<Rightarrow> bool \<Rightarrow> bool \<Rightarrow> bool \<Rightarrow> u32" where
  "planes a b c e = (if a then 1 else 0) OR (if b then 2 else 0) OR (if c then 4 else 0) OR (if e then 8 else 0)"

lemma planes_eq_0 [simp]: "planes a b c e = 0 \<longleftrightarrow> \<not> a \<and> \<not> b \<and> \<not> c \<and> \<not> e"
  by (simp add: planes_def)

lemma pick_bit: "drop_bit n w AND push_bit p 1 = (if bit w (n + p) then push_bit p 1 else 0)" for w :: "'a::len word"
  by (rule bit_word_eqI) (auto simp: bit_simps)

lemma pick_bits:
  fixes w :: u32
  shows "drop_bit n w AND 1 = (if bit w n then 1 else 0)" "drop_bit n w AND 2 = (if bit w (n + 1) then 2 else 0)"
    "drop_bit n w AND 4 = (if bit w (n + 2) then 4 else 0)" "drop_bit n w AND 8 = (if bit w (n + 3) then 8 else 0)"
  using pick_bit [of n w 0] pick_bit [of n w 1] pick_bit [of n w 2] pick_bit [of n w 3] by simp_all

lemma plane_index:
  fixes i :: nat
  assumes "i < 8"
  shows "7 + i + 1 = 8 + i" "14 + i + 2 = 16 + i" "21 + i + 3 = 24 + i"
    and "14 - i + 1 = 15 - i" "21 - i + 2 = 23 - i" "28 - i + 3 = 31 - i"
  using assms by simp_all

lemma pixel4_planes:
  "i < 8 \<Longrightarrow> pixel4 i bits = planes (bit bits i) (bit bits (8 + i)) (bit bits (16 + i)) (bit bits (24 + i))"
  "i < 8 \<Longrightarrow> pixel4_hflip i bits = planes (bit bits (7 - i)) (bit bits (15 - i)) (bit bits (23 - i)) (bit bits (31 - i))"
  unfolding pixel4_def pixel4_hflip_def planes_def pick_bits by (simp_all only: plane_index or.assoc)

lemma pixel2_planes:
  "i < 8 \<Longrightarrow> pixel2 i bits = planes (bit bits i) (bit bits (8 + i)) False False"
  "i < 8 \<Longrightarrow> pixel2_hflip i bits = planes (bit bits (7 - i)) (bit bits (15 - i)) False False"
  unfolding pixel2_def pixel2_hflip_def planes_def pick_bits by (simp_all only: plane_index or.assoc if_False or.right_neutral)

lemma opaque4_planes:
  fixes bits :: u32
  assumes "i < 8"
  shows "bits AND push_bit i 0x01010101 \<noteq> 0 \<longleftrightarrow> pixel4 i bits \<noteq> 0"
    and "bits AND drop_bit i 0x80808080 \<noteq> 0 \<longleftrightarrow> pixel4_hflip i bits \<noteq> 0"
proof -
  have bit: "bits AND push_bit n 1 \<noteq> 0 \<longleftrightarrow> bit bits n" for n using tst_bit [of bits n] by (simp only: tst_def)
  have p: "push_bit i 0x01010101 = push_bit i 1 OR push_bit (8 + i) 1 OR push_bit (16 + i) 1 OR (push_bit (24 + i) 1 :: u32)"
  proof -
    have "(0x01010101 :: u32) = 1 OR push_bit 8 1 OR push_bit 16 1 OR push_bit 24 1" by simp
    then show ?thesis by (simp only: push_bit_or push_bit_push_bit add.commute)
  qed
  have q: "drop_bit i 0x80808080 = push_bit (7 - i) 1 OR push_bit (15 - i) 1 OR push_bit (23 - i) 1 OR (push_bit (31 - i) 1 :: u32)"
  proof -
    have "(0x80808080 :: u32) = push_bit 7 1 OR push_bit 15 1 OR push_bit 23 1 OR push_bit 31 1" by simp
    moreover have "drop_bit i (push_bit n 1) = (push_bit (n - i) 1 :: u32)" if "i \<le> n" "n < 32" for n
      using that by (intro bit_word_eqI) (auto simp: bit_simps)
    ultimately show ?thesis using assms by (simp only: drop_bit_or)
  qed
  show "bits AND push_bit i 0x01010101 \<noteq> 0 \<longleftrightarrow> pixel4 i bits \<noteq> 0"
    unfolding p pixel4_planes(1) [OF assms] planes_eq_0 bit.conj_disj_distrib or_eq_0_iff using bit by blast
  show "bits AND drop_bit i 0x80808080 \<noteq> 0 \<longleftrightarrow> pixel4_hflip i bits \<noteq> 0"
    unfolding q pixel4_planes(2) [OF assms] planes_eq_0 bit.conj_disj_distrib or_eq_0_iff using bit by blast
qed

lemma hflip_shift: "i + k < 8 \<Longrightarrow> p < 4 \<Longrightarrow> bit (push_bit k bits) (8 * p + 7 - i) = bit bits (8 * p + 7 - (i + k))" for bits :: u32
  by (auto simp: bit_simps)

lemmas hflip_shifts = hflip_shift [where p = 0, simplified] hflip_shift [where p = 1, simplified]
  hflip_shift [where p = 2, simplified] hflip_shift [where p = 3, simplified]

lemma flip_shift: "bit (drop_bit k bits) (p + i) = bit bits (p + (i + k))" for bits :: u32
  by (simp add: bit_simps ac_simps)

lemmas flip_shifts = flip_shift [where p = 0, simplified] flip_shift

lemma pixel_shifts:
  assumes "i + k < 8"
  shows "pixel4 i (drop_bit k bits) = pixel4 (i + k) bits" "pixel4_hflip i (push_bit k bits) = pixel4_hflip (i + k) bits"
    "pixel2 i (drop_bit k bits) = pixel2 (i + k) bits" "pixel2_hflip i (push_bit k bits) = pixel2_hflip (i + k) bits"
  using assms add_lessD1 [OF assms] unfolding pixel4_planes [OF assms] pixel4_planes [OF add_lessD1 [OF assms]]
    pixel2_planes [OF assms] pixel2_planes [OF add_lessD1 [OF assms]]
  by (simp_all only: hflip_shifts flip_shifts add.assoc)

interpretation b4: bg_depth bpp4
proof
  fix i k :: nat and bits :: u32 assume ik: "i + k < 8"
  then show "dp_opaque bpp4 i (drop_bit k bits) = dp_opaque bpp4 (i + k) bits"
    "dp_opaque_hflip bpp4 i (push_bit k bits) = dp_opaque_hflip bpp4 (i + k) bits"
    "dp_pixel bpp4 i (drop_bit k bits) = dp_pixel bpp4 (i + k) bits"
    "dp_pixel_hflip bpp4 i (push_bit k bits) = dp_pixel_hflip bpp4 (i + k) bits"
    using opaque4_planes [OF ik] opaque4_planes [OF add_lessD1 [OF ik]] by (simp_all add: bpp4_def pixel_shifts)
qed (simp_all add: bpp4_def read_bits_4)

interpretation b2: bg_depth bpp2
  by unfold_locales (simp_all add: bpp2_def pixel_shifts read_bits_2, simp_all add: pixel2_def pixel2_hflip_def)

section \<open>Whole lines\<close>

lemma map_row_aligned: "map_row ppu layer y mod 32 = 0"
  by (simp add: map_row_def PPU_bgTilemapAdr_def push_bit_eq_mult mod_add_eq [symmetric, of "_ * 256"] mod_eq_0_iff_dvd)

lemma page_in_vram: "a mod 32 = 0 \<Longrightarrow> 0 \<le> a AND 0x7fff \<and> (a AND 0x7fff) + 31 < 0x8000" for a :: int
proof -
  assume "a mod 32 = 0"
  define m where "m = a mod 0x8000"
  have "m mod 32 = 0" using \<open>a mod 32 = 0\<close> by (simp add: m_def mod_mod_cancel)
  then obtain q where q: "m = 32 * q" by auto
  have "0 \<le> m" "m < 0x8000" by (simp_all add: m_def)
  then have "0 \<le> m" "m + 31 < 0x8000" unfolding q by simp_all
  then show ?thesis by (simp add: int_low_bits m_def [symmetric])
qed

lemma bg_line_of_ok: "bg_line_ok (bg_line_of ppu layer y zhi zlo)"
proof -
  define t where "t = uint (drop_bit (layer * 4) (ppu_bgTileAdr ppu) AND 0xf)"
  have t: "PPU_bgTileAdr ppu layer = t * 4096" "0 \<le> t" by (simp_all add: PPU_bgTileAdr_def push_bit_eq_mult t_def)
  have row: "0 \<le> t * 4096 + r \<and> (t * 4096 + r) mod 16 < 8" if "0 \<le> r" "r < 8" for r
  proof -
    have "t * 4096 + r = r + (t * 256) * 16" by simp
    then have "(t * 4096 + r) mod 16 = r mod 16" by (simp only: mod_mult_self1)
    with that t(2) show ?thesis by simp
  qed
  have r: "0 \<le> y mod 8" "y mod 8 < 8" "0 \<le> 7 - y mod 8" "7 - y mod 8 < 8" by (simp_all add: pos_mod_bound)
  have "(map_row ppu layer y + (if PPU_bgTilemapWider ppu layer then 0x400 else 0)) mod 32 = 0"
    using map_row_aligned [of ppu layer y] by (simp add: mod_eq_0_iff_dvd)
  from page_in_vram [OF this] page_in_vram [OF map_row_aligned [of ppu layer y]] row [OF r(1,2)] row [OF r(3,4)] show ?thesis
    by (simp add: bg_line_ok_def bg_line_of_def Let_def t int_low_bits(2) algebra_simps)
qed

text \<open>What the renderer relies on: array lengths, margins inside the buffers, an ordered split.\<close>

definition renderer_ok :: "renderer \<Rightarrow> bool" where
  "renderer_ok rd \<longleftrightarrow> length (rd_bgBuffers rd) = 2 \<and> (\<forall>b\<in>set (rd_bgBuffers rd). length b = 448)
     \<and> length (rd_objBuffer rd) = 448
     \<and> rd_extraLeftCur rd \<le> rd_extraLeftRight rd \<and> rd_extraRightCur rd \<le> rd_extraLeftRight rd \<and> rd_extraLeftRight rd \<le> 96
     \<and> (rd_wsHudSplitHeight rd \<noteq> 0 \<longrightarrow> 0 < rd_wsHudLeftEnd rd \<and> rd_wsHudLeftEnd rd < rd_wsHudRightStart rd)"

lemma renderer_ok_extra:
  assumes "renderer_ok rd"
  shows "uint (rd_extraLeftCur rd) \<le> uint (rd_extraLeftRight rd)" "uint (rd_extraRightCur rd) \<le> uint (rd_extraLeftRight rd)"
    and "uint (rd_extraLeftRight rd) \<le> 96" "uint (rd_extraLeftCur rd) \<le> 96" "uint (rd_extraRightCur rd) \<le> 96"
  using assms by (auto simp: renderer_ok_def word_le_def)

lemma renderer_ok_buf: "renderer_ok rd \<Longrightarrow> length (rd_bgBuffers rd ! of_bool sub) = 448"
  by (auto simp: renderer_ok_def)

lemma renderer_ok_put_bg: "renderer_ok rd \<Longrightarrow> length buf = 448 \<Longrightarrow> renderer_ok (put_bg sub buf rd)"
  by (auto simp: renderer_ok_def put_bg_def dest!: set_update_subset_insert [THEN subsetD])

lemma window_in_buffer:
  assumes "renderer_ok rd"
  shows "- 96 \<le> window_left rd layer y" "window_right rd layer y \<le> 352"
  using renderer_ok_extra [OF assms] by (simp_all add: window_left_def window_right_def PpuLayerExtra_def)

text \<open>Whether a column of a layer is masked on a screen.\<close>

definition layer_masked :: "ppu \<Rightarrow> bool \<Rightarrow> nat \<Rightarrow> int \<Rightarrow> bool" where
  "layer_masked ppu sub layer x \<longleftrightarrow>
     IS_SCREEN_WINDOWED ppu sub layer \<and> (window1_state ppu layer x \<or> window2_state ppu layer x)"

lemma layer_windows_ok:
  "\<exists>win. layer_windows rd sub layer y = Some win
    \<and> windows_ok (window_left rd layer y) (window_right rd layer y) (layer_masked (rd_ppu rd) sub layer) win"
proof (cases "IS_SCREEN_WINDOWED (rd_ppu rd) sub layer")
  case True
  then show ?thesis using windows_calc [of rd layer y] by (simp add: layer_windows_def layer_masked_def [abs_def])
next
  case False
  then show ?thesis using windows_clear [of rd layer y] by (simp add: layer_windows_def layer_masked_def [abs_def])
qed

text \<open>A span of a window lies in the buffer.\<close>

lemma span_in_buffer:
  assumes "windows_ok L R masked win" "- 96 \<le> L" "R \<le> 352" "k < wn_nr win"
  shows "- 96 \<le> wn_edges win ! k" "wn_edges win ! k < wn_edges win ! Suc k" "wn_edges win ! Suc k \<le> 352"
proof -
  have s: "spans L R (wn_nr win) (wn_edges win)" using assms(1) by (simp add: windows_ok_def)
  show "- 96 \<le> wn_edges win ! k" using spans_le [OF s, of 0 k] s assms(2,4) by (simp add: spans_def)
  show "wn_edges win ! k < wn_edges win ! Suc k" using s assms(4) by (simp add: spans_def)
  show "wn_edges win ! Suc k \<le> 352" using spans_le [OF s, of "Suc k" "wn_nr win"] s assms(3,4) by (simp add: spans_def)
qed

context bg_depth
begin

lemma span_cols:
  assumes "bg_line_ok l" "windows_ok L R masked win" "- 96 \<le> L" "R \<le> 352" "k < wn_nr win"
    and "a = wn_edges win ! k" "b = wn_edges win ! Suc k" "length buf = 448"
  shows "bg_span d l ppu (a + s) (nat (b - a)) (a + 96) buf = Some (cols a b (\<lambda>x. bg_column d l ppu (x + s)) buf)"
  using bg_span_cols [OF assms(1), of "nat (b - a)" a buf ppu s] span_in_buffer [OF assms(2-5)] assms(6-8) by simp

end

theorem draw_4bpp:
  assumes "renderer_ok rd" "IS_SCREEN_ENABLED (rd_ppu rd) sub layer"
  shows "PpuDrawBackground_4bpp y sub layer zhi zlo rd =
    (let ppu = rd_ppu rd; l = bg_line_of ppu layer (y + uint (ppu_vScroll ppu ! layer)) zhi zlo
     in Some (put_bg sub (cols (window_left rd layer y) (window_right rd layer y)
          (\<lambda>x v. if layer_masked ppu sub layer x then v else bg_column bpp4 l ppu (x + uint (ppu_hScroll ppu ! layer)) v)
          (rd_bgBuffers rd ! of_bool sub)) rd))"
proof -
  obtain win where win: "layer_windows rd sub layer y = Some win"
      "windows_ok (window_left rd layer y) (window_right rd layer y) (layer_masked (rd_ppu rd) sub layer) win"
    using layer_windows_ok by blast
  define l where "l = bg_line_of (rd_ppu rd) layer (y + uint (ppu_vScroll (rd_ppu rd) ! layer)) zhi zlo"
  have "for_windows win (\<lambda>windex left right buf.
      bg_span bpp4 l (rd_ppu rd) (left + uint (ppu_hScroll (rd_ppu rd) ! layer)) (nat (right - left)) (left + 96) buf)
      (rd_bgBuffers rd ! of_bool sub)
    = Some (cols (window_left rd layer y) (window_right rd layer y) (\<lambda>x v. if layer_masked (rd_ppu rd) sub layer x then v
        else bg_column bpp4 l (rd_ppu rd) (x + uint (ppu_hScroll (rd_ppu rd) ! layer)) v) (rd_bgBuffers rd ! of_bool sub))"
    by (rule for_windows_cols [OF win(2) renderer_ok_buf [OF assms(1)]], rule b4.span_cols [OF _ win(2)])
      (simp_all add: l_def bg_line_of_ok window_in_buffer [OF assms(1)])
  then show ?thesis
    using assms(2) win(1) by (simp only: PpuDrawBackground_4bpp_def Let_def l_def [symmetric]) simp
qed

section \<open>The split status bar\<close>

text \<open>The source column of a screen column of a split status bar; the gaps have none.\<close>

definition hud_active :: "renderer \<Rightarrow> nat \<Rightarrow> int \<Rightarrow> ppu_windows \<Rightarrow> bool" where
  "hud_active rd layer y win \<longleftrightarrow> layer = 2 \<and> y < uint (rd_wsHudSplitHeight rd)
     \<and> rd_extraLeftCur rd \<noteq> 0 \<and> rd_extraRightCur rd \<noteq> 0 \<and> wn_nr win = 1 \<and> wn_bits win = 0"

definition hud_source :: "renderer \<Rightarrow> int \<Rightarrow> int option" where
  "hud_source rd x =
     (let left = uint (rd_extraLeftCur rd); right = uint (rd_extraRightCur rd);
          left_end = uint (rd_wsHudLeftEnd rd); right_start = uint (rd_wsHudRightStart rd) in
      if x < left_end - left then Some (x + left)
      else if x < left_end then None
      else if x < right_start then Some x
      else if x < right_start + right then None
      else Some (x - right))"

lemma hud_split_windows:
  assumes "renderer_ok rd" "0 \<le> y" "hud_active rd layer y win"
  obtains hw bias where "hud_split rd layer y win = (hw, bias)"
    and "windows_ok (- uint (rd_extraLeftCur rd)) (256 + uint (rd_extraRightCur rd)) (\<lambda>x. hud_source rd x = None) hw"
    and "\<And>k x. k < wn_nr hw \<Longrightarrow> wn_edges hw ! k \<le> x \<Longrightarrow> x < wn_edges hw ! Suc k \<Longrightarrow> \<not> bit (wn_bits hw) k \<Longrightarrow>
      hud_source rd x = Some (x + bias ! k)"
proof -
  define l r le rs where d: "l = uint (rd_extraLeftCur rd)" "r = uint (rd_extraRightCur rd)"
    "le = uint (rd_wsHudLeftEnd rd)" "rs = uint (rd_wsHudRightStart rd)"
  have "rd_wsHudSplitHeight rd \<noteq> 0" using assms(2,3) by (auto simp: hud_active_def)
  then have "0 < le" "le < rs" using assms(1) by (simp_all add: d renderer_ok_def word_less_def)
  moreover have "0 < l" "0 < r"
    using assms(3) by (auto simp: d hud_active_def word_neq_0_conv word_less_def)
  moreover have "rs < 256" using uint_lt2p [of "rd_wsHudRightStart rd"] by (simp add: d)
  ultimately have o: "0 < l" "0 < r" "0 < le" "le < rs" "rs < 256" by simp_all
  let ?e = "[- l, le - l, le, rs, rs + r, 256 + r]"
  let ?w = "\<lparr>wn_edges = ?e, wn_nr = 5, wn_bits = 0x0a\<rparr>"
  have split: "hud_split rd layer y win = (?w, [l, 0, 0, 0, - r, 0])"
    using assms(3) o(1,2) [unfolded d] by (auto simp: hud_split_def hud_active_def Let_def d)
  have src: "hud_source rd x = (if x < le - l then Some (x + l) else if x < le then None else if x < rs then Some x
      else if x < rs + r then None else Some (x - r))" for x
    by (simp add: hud_source_def d Let_def)
  have five: "k = 0 \<or> k = 1 \<or> k = 2 \<or> k = 3 \<or> k = 4" if "k < 5" for k :: nat using that by auto
  have bits: "\<not> bit (0x0a::u8) 0" "bit (0x0a::u8) 1" "\<not> bit (0x0a::u8) 2" "bit (0x0a::u8) 3" "\<not> bit (0x0a::u8) 4"
    by simp_all
  have sp: "spans (- l) (256 + r) 5 ?e" using o by (auto simp: spans_def dest!: five)
  have ok: "windows_ok (- l) (256 + r) (\<lambda>x. hud_source rd x = None) ?w"
    using sp o bits by (auto simp: windows_ok_def src dest!: five)
  have bias: "hud_source rd x = Some (x + [l, 0, 0, 0, - r, 0] ! k)"
    if "k < 5" "?e ! k \<le> x" "x < ?e ! Suc k" "\<not> bit (0x0a::u8) k" for k x
    using five [OF that(1)] that(2-4) o bits by (auto simp: src)
  show thesis
  proof (rule that [OF split])
    show "windows_ok (- uint (rd_extraLeftCur rd)) (256 + uint (rd_extraRightCur rd)) (\<lambda>x. hud_source rd x = None) ?w"
      using ok by (simp only: d)
    show "hud_source rd x = Some (x + [l, 0, 0, 0, - r, 0] ! k)"
      if "k < wn_nr ?w" "wn_edges ?w ! k \<le> x" "x < wn_edges ?w ! Suc k" "\<not> bit (wn_bits ?w) k" for k x
      using bias [of k x] that by simp
  qed
qed

text \<open>A line of a 2-bit background: masked columns and gaps stay, the others show the map.\<close>

definition column_source :: "renderer \<Rightarrow> bool \<Rightarrow> nat \<Rightarrow> int \<Rightarrow> int \<Rightarrow> int option" where
  "column_source rd sub layer y x =
     (if \<exists>win. layer_windows rd sub layer y = Some win \<and> hud_active rd layer y win then hud_source rd x
      else if window_left rd layer y \<le> x \<and> x < window_right rd layer y \<and> \<not> layer_masked (rd_ppu rd) sub layer x
      then Some x else None)"

theorem draw_2bpp:
  assumes "renderer_ok rd" "IS_SCREEN_ENABLED (rd_ppu rd) sub layer" "0 \<le> y"
  shows "PpuDrawBackground_2bpp y sub layer zhi zlo rd =
    (let ppu = rd_ppu rd; l = bg_line_of ppu layer (y + uint (ppu_vScroll ppu ! layer)) zhi zlo
     in Some (put_bg sub (cols (- uint (rd_extraLeftCur rd)) (256 + uint (rd_extraRightCur rd))
          (\<lambda>x v. case column_source rd sub layer y x of None \<Rightarrow> v
             | Some x \<Rightarrow> bg_column bpp2 l ppu (x + uint (ppu_hScroll ppu ! layer)) v)
          (rd_bgBuffers rd ! of_bool sub)) rd))"
proof -
  let ?h = "uint (ppu_hScroll (rd_ppu rd) ! layer)" and ?buf = "rd_bgBuffers rd ! of_bool sub"
  let ?L = "- uint (rd_extraLeftCur rd)" and ?R = "256 + uint (rd_extraRightCur rd)"
  define l where "l = bg_line_of (rd_ppu rd) layer (y + uint (ppu_vScroll (rd_ppu rd) ! layer)) zhi zlo"
  let ?g = "\<lambda>x v. case column_source rd sub layer y x of None \<Rightarrow> v | Some x \<Rightarrow> bg_column bpp2 l (rd_ppu rd) (x + ?h) v"
  obtain win where win: "layer_windows rd sub layer y = Some win"
      "windows_ok (window_left rd layer y) (window_right rd layer y) (layer_masked (rd_ppu rd) sub layer) win"
    using layer_windows_ok by blast
  obtain hw bias where split: "hud_split rd layer y win = (hw, bias)" by fastforce
  have "for_windows hw (\<lambda>windex left right buf.
      bg_span bpp2 l (rd_ppu rd) (left + ?h + bias ! windex) (nat (right - left)) (left + 96) buf) ?buf = Some (cols ?L ?R ?g ?buf)"
  proof (cases "hud_active rd layer y win")
    case True
    from hud_split_windows [OF assms(1,3) True] split have
      hw: "windows_ok ?L ?R (\<lambda>x. hud_source rd x = None) hw"
      and bias: "\<And>k x. k < wn_nr hw \<Longrightarrow> wn_edges hw ! k \<le> x \<Longrightarrow> x < wn_edges hw ! Suc k \<Longrightarrow> \<not> bit (wn_bits hw) k \<Longrightarrow>
        hud_source rd x = Some (x + bias ! k)"
      by auto
    have src: "column_source rd sub layer y x = hud_source rd x" for x using True win(1) by (simp add: column_source_def)
    have "for_windows hw (\<lambda>windex left right buf.
        bg_span bpp2 l (rd_ppu rd) (left + ?h + bias ! windex) (nat (right - left)) (left + 96) buf) ?buf
      = Some (cols ?L ?R (\<lambda>x v. if hud_source rd x = None then v else ?g x v) ?buf)"
    proof (rule for_windows_cols [OF hw renderer_ok_buf [OF assms(1)]])
      fix k a b and buf :: "u16 list" assume k: "k < wn_nr hw" "a = wn_edges hw ! k" "b = wn_edges hw ! Suc k" "length buf = 448" "\<not> bit (wn_bits hw) k"
      have "cols a b (\<lambda>x. bg_column bpp2 l (rd_ppu rd) (x + (?h + bias ! k))) buf = cols a b ?g buf"
        using bias [OF k(1) _ _ k(5)] k(2,3) by (intro cols_cong) (simp add: src ac_simps)
      then show "bg_span bpp2 l (rd_ppu rd) (a + ?h + bias ! k) (nat (b - a)) (a + 96) buf = Some (cols a b ?g buf)"
        using b2.span_cols [OF bg_line_of_ok [of _ layer _ zhi zlo] hw _ _ k(1-4), where s = "?h + bias ! k"] renderer_ok_extra [OF assms(1)]
        by (simp add: l_def add.assoc)
    qed
    also have "(\<lambda>x v. if hud_source rd x = None then v else ?g x v) = ?g" by (auto simp: src fun_eq_iff)
    finally show ?thesis .
  next
    case False
    then have hw: "hw = win" "\<And>k. k < 5 \<Longrightarrow> bias ! k = 0"
      using split by (auto simp: hud_split_def hud_active_def Let_def less_Suc_eq eval_nat_numeral split: if_splits)
    let ?WL = "window_left rd layer y" and ?WR = "window_right rd layer y"
    have src: "column_source rd sub layer y x = (if ?WL \<le> x \<and> x < ?WR \<and> \<not> layer_masked (rd_ppu rd) sub layer x then Some x else None)" for x
      using False win(1) by (simp add: column_source_def)
    have "for_windows win (\<lambda>windex left right buf.
        bg_span bpp2 l (rd_ppu rd) (left + ?h + bias ! windex) (nat (right - left)) (left + 96) buf) ?buf
      = Some (cols ?WL ?WR (\<lambda>x v. if layer_masked (rd_ppu rd) sub layer x then v else bg_column bpp2 l (rd_ppu rd) (x + ?h) v) ?buf)"
    proof (rule for_windows_cols [OF win(2) renderer_ok_buf [OF assms(1)]])
      fix k a b and buf :: "u16 list" assume k: "k < wn_nr win" "a = wn_edges win ! k" "b = wn_edges win ! Suc k" "length buf = 448" "\<not> bit (wn_bits win) k"
      have "k < 5" using k(1) win(2) by (simp add: windows_ok_def)
      then show "bg_span bpp2 l (rd_ppu rd) (a + ?h + bias ! k) (nat (b - a)) (a + 96) buf
          = Some (cols a b (\<lambda>x v. bg_column bpp2 l (rd_ppu rd) (x + ?h) v) buf)"
        using b2.span_cols [OF bg_line_of_ok [of _ layer _ zhi zlo] win(2) window_in_buffer [OF assms(1)] k(1-4), where s = "?h"] hw(2)
        by (simp add: l_def)
    qed
    also have "cols ?WL ?WR (\<lambda>x v. if layer_masked (rd_ppu rd) sub layer x then v else bg_column bpp2 l (rd_ppu rd) (x + ?h) v) ?buf
      = cols ?L ?R ?g ?buf"
    proof (subst cols_widen)
      show "?L \<le> ?WL" "?WR \<le> ?R" by (simp_all add: window_left_def window_right_def PpuLayerExtra_def)
    qed (auto simp: src intro!: cols_cong)
    finally show ?thesis using hw(1) by simp
  qed
  then show ?thesis
    using assms(2) win(1) split by (simp only: PpuDrawBackground_2bpp_def Let_def l_def [symmetric]) simp
qed

end
