(* ===== verification/Ppu_Layers.thy ===== *)
theory Ppu_Layers
  imports Ppu_Background
begin

text \<open>
  The other layers of the line renderer: the backgrounds with mosaic, the rotated background of mode 7,
  and the sprites of the line. Mode 7 steps through the plane by adding the matrix to a position; the
  position of a column is shown to be the matrix applied to it. A mosaic block whose width is not
  positive, which happens when the size is changed after the table of the frame was made, runs its
  counter out of range and is \<open>None\<close>.
\<close>

section \<open>Mosaic\<close>

definition PpuMosaicAt :: "renderer \<Rightarrow> int \<Rightarrow> int" where
  "PpuMosaicAt rd i = uint (rd_mosaicModulo rd ! (if 0 \<le> i \<and> i < 256 then nat i else if i < 0 then 0 else 255))"

lemma PPU_mosaicSize_pos: "1 \<le> PPU_mosaicSize ppu"
  by (simp add: PPU_mosaicSize_def)

lemma mosaic_measure:
  assumes "x = min w (e - s)" "\<not> x < 0" "e - (s + x) \<noteq> 0"
  shows "nat (2 * (e - (s + x))) + (if PPU_mosaicSize ppu = 0 then 1 else 0) < nat (2 * (e - s)) + (if w = 0 then 1 else 0)"
  using assms PPU_mosaicSize_pos [of ppu] by (auto simp: min_def split: if_splits)

text \<open>The loop \<open>do { if (z > dstz[i]) dstz[i] = v; } while (++i != w)\<close> over \<open>n\<close> columns.\<close>

primrec mosaic_fill :: "nat \<Rightarrow> u16 \<Rightarrow> u16 \<Rightarrow> int \<Rightarrow> u16 list \<Rightarrow> u16 list option" where
  "mosaic_fill 0 z v pos buf = Some buf"
| "mosaic_fill (Suc n) z v pos buf =
     (if 0 \<le> pos \<and> pos < int (length buf)
      then mosaic_fill n z v (pos + 1) (if z > buf ! nat pos then buf[nat pos := v] else buf) else None)"

text \<open>The loop \<open>for (; x >= 8; x -= 8) tp = (tp != tp_last) ? tp + 1 : tp_next;\<close>.\<close>

fun mosaic_advance :: "int \<Rightarrow> int \<Rightarrow> int \<Rightarrow> nat \<Rightarrow> int \<times> nat" where
  "mosaic_advance tp tp_last tp_next x =
     (if x \<ge> 8 then mosaic_advance (if tp \<noteq> tp_last then tp + 1 else tp_next) tp_last tp_next (x - 8) else (tp, x))"

declare mosaic_advance.simps [simp del]

text \<open>
  One pass over the blocks of a span, which ends at \<open>dend\<close>. A negative width would wrap the unsigned
  column, a width of zero would not end the fill.
\<close>

function mosaic_loop :: "depth \<Rightarrow> bg_line \<Rightarrow> ppu \<Rightarrow> int \<Rightarrow> int \<Rightarrow> int \<Rightarrow> nat \<Rightarrow> int \<Rightarrow> int \<Rightarrow> int \<Rightarrow> u16 list \<Rightarrow> u16 list option" where
  "mosaic_loop d l ppu tp tp_last tp_next x w dstz dend buf =
     (let w = min w (dend - dstz) in
      if w < 0 then None
      else do {
        tile \<leftarrow> vram_at ppu tp;
        bits \<leftarrow> dp_read d ppu (if tst tile 0x8000 then bl_tileadr1 l else bl_tileadr0 l) (uint (tile AND 0x3ff));
        let z = (if tst tile 0x2000 then bl_zhi l else bl_zlo l);
        let pixel = (if tst tile 0x4000 then dp_pixel d 0 (drop_bit x bits) else dp_pixel_hflip d 0 (push_bit x bits));
        buf \<leftarrow> (if pixel = 0 then Some buf
               else if w = 0 then None
               else mosaic_fill (nat w) z (ucast pixel + drop_bit (dp_shift d) (tile AND 0x1c00) + z) dstz buf);
        let (tp, x) = mosaic_advance tp tp_last tp_next (x + nat w);
        if dend - (dstz + w) = 0 then Some buf
        else mosaic_loop d l ppu tp tp_last tp_next x (PPU_mosaicSize ppu) (dstz + w) dend buf
      })"
  by pat_completeness auto
termination
  by (relation "measure (\<lambda>(_, _, _, _, _, _, _, w, dstz, dend, _). nat (2 * (dend - dstz)) + (if w = 0 then 1 else 0))")
    (rule wf_measure, simp only: in_measure case_prod_conv, rule mosaic_measure, blast+)

declare mosaic_loop.simps [simp del]

definition mosaic_span :: "depth \<Rightarrow> bg_line \<Rightarrow> renderer \<Rightarrow> nat \<Rightarrow> int \<Rightarrow> int \<Rightarrow> u16 list \<Rightarrow> u16 list option" where
  "mosaic_span d l rd layer sx right buf =
     (let ppu = rd_ppu rd; x = sx + uint (ppu_hScroll ppu ! layer); (tp, tp_last, tp_next) = walk_at l x
      in mosaic_loop d l ppu tp tp_last tp_next (nat (x AND 7))
           (PPU_mosaicSize ppu - (sx - PpuMosaicAt rd sx)) (sx + 96) (right + 96) buf)"

definition draw_mosaic :: "depth \<Rightarrow> int \<Rightarrow> bool \<Rightarrow> nat \<Rightarrow> u16 \<Rightarrow> u16 \<Rightarrow> renderer \<Rightarrow> renderer option" where
  "draw_mosaic d y sub layer zhi zlo rd =
     (let ppu = rd_ppu rd in
      if \<not> IS_SCREEN_ENABLED ppu sub layer then Some rd
      else if \<not> (0 \<le> y \<and> y < 256) then None
      else do {
        win \<leftarrow> layer_windows rd sub layer y;
        let l = bg_line_of ppu layer (uint (rd_mosaicModulo rd ! nat y) + uint (ppu_vScroll ppu ! layer)) zhi zlo;
        buf \<leftarrow> for_windows win (\<lambda>windex left right buf. mosaic_span d l rd layer left right buf) (rd_bgBuffers rd ! of_bool sub);
        Some (put_bg sub buf rd)
      })"

definition PpuDrawBackground_4bpp_mosaic :: "int \<Rightarrow> bool \<Rightarrow> nat \<Rightarrow> u16 \<Rightarrow> u16 \<Rightarrow> renderer \<Rightarrow> renderer option" where
  "PpuDrawBackground_4bpp_mosaic = draw_mosaic bpp4"

definition PpuDrawBackground_2bpp_mosaic :: "int \<Rightarrow> bool \<Rightarrow> nat \<Rightarrow> u16 \<Rightarrow> u16 \<Rightarrow> renderer \<Rightarrow> renderer option" where
  "PpuDrawBackground_2bpp_mosaic = draw_mosaic bpp2"

section \<open>Mode 7\<close>

text \<open>A 13-bit value, sign-extended by \<open>((int16_t)(v << 3)) >> 3\<close>.\<close>

definition m7signed :: "u16 \<Rightarrow> int" where
  "m7signed v = drop_bit 3 (sint (push_bit 3 v))"

definition m7clip :: "int \<Rightarrow> int" where
  "m7clip v = (if v AND 0x2000 \<noteq> 0 then v OR NOT 1023 else v AND 1023)"

definition m7 :: "ppu \<Rightarrow> nat \<Rightarrow> int" where
  "m7 ppu i = sint (ppu_m7matrix ppu ! i)"

text \<open>The position of the left end of a line, \<open>m7startX\<close> with row 0 and \<open>m7startY\<close> with row 1 of the matrix.\<close>

definition m7start :: "ppu \<Rightarrow> nat \<Rightarrow> int \<Rightarrow> u32" where
  "m7start ppu row y =
     (let hScroll = m7signed (ppu_m7matrix ppu ! 6); vScroll = m7signed (ppu_m7matrix ppu ! 7);
          xCenter = m7signed (ppu_m7matrix ppu ! 4); yCenter = m7signed (ppu_m7matrix ppu ! 5);
          clippedH = m7clip (hScroll - xCenter); clippedV = m7clip (vScroll - yCenter);
          ry = word_of_int (if PPU_m7yFlip ppu then 255 - y else y) :: u32;
          a = m7 ppu (2 * row); b = m7 ppu (2 * row + 1)
      in (word_of_int (a * clippedH) AND NOT 63) + ((word_of_int b * ry) AND NOT 63)
         + (word_of_int (b * clippedV) AND NOT 63) + word_of_int (push_bit 8 (if row = 0 then xCenter else yCenter)))"

text \<open>The pixel at a position; 0 stands for a pixel that is not drawn.\<close>

definition m7texel :: "ppu \<Rightarrow> u32 \<Rightarrow> u32 \<Rightarrow> u8" where
  "m7texel ppu xpos ypos =
     (let outside_value = (if PPU_m7largeField ppu then 0x3ffff else 0xffffffff);
          outside = (xpos OR ypos) > outside_value;
          tile = (if outside then 0
                  else ppu_vram ppu (ucast ((drop_bit 11 ypos AND 0x7f) * 128 + (drop_bit 11 xpos AND 0x7f))) AND 0xff)
      in if outside \<and> \<not> PPU_m7charFill ppu then 0
         else hi8 (ppu_vram ppu (tile * 64 + ucast ((drop_bit 8 ypos AND 7) * 8 + (drop_bit 8 xpos AND 7)))))"

definition m7put :: "u8 \<Rightarrow> u16 \<Rightarrow> int \<Rightarrow> u16 list \<Rightarrow> u16 list option" where
  "m7put pixel z pos buf =
     (if pixel = 0 then Some buf
      else if 0 \<le> pos \<and> pos < int (length buf) then Some (buf[nat pos := ucast pixel + z]) else None)"

text \<open>The loop over the \<open>n\<close> columns of a span.\<close>

primrec m7_run :: "nat \<Rightarrow> ppu \<Rightarrow> u16 \<Rightarrow> u32 \<Rightarrow> u32 \<Rightarrow> u32 \<Rightarrow> u32 \<Rightarrow> int \<Rightarrow> u16 list \<Rightarrow> u16 list option" where
  "m7_run 0 ppu z dx dy xpos ypos dstz buf = Some buf"
| "m7_run (Suc n) ppu z dx dy xpos ypos dstz buf = do {
     buf \<leftarrow> m7put (m7texel ppu xpos ypos) z dstz buf;
     m7_run n ppu z dx dy (xpos + dx) (ypos + dy) (dstz + 1) buf
   }"

primrec m7_fill :: "nat \<Rightarrow> u8 \<Rightarrow> u16 \<Rightarrow> int \<Rightarrow> u16 list \<Rightarrow> u16 list option" where
  "m7_fill 0 pixel z pos buf = Some buf"
| "m7_fill (Suc n) pixel z pos buf = do { buf \<leftarrow> m7put pixel z pos buf; m7_fill n pixel z (pos + 1) buf }"

function m7_mosaic :: "ppu \<Rightarrow> u16 \<Rightarrow> u32 \<Rightarrow> u32 \<Rightarrow> u32 \<Rightarrow> u32 \<Rightarrow> int \<Rightarrow> int \<Rightarrow> int \<Rightarrow> u16 list \<Rightarrow> u16 list option" where
  "m7_mosaic ppu z dx dy xpos ypos w dstz dend buf =
     (let w = min w (dend - dstz); pixel = m7texel ppu xpos ypos in
      if w < 0 \<or> w = 0 \<and> pixel \<noteq> 0 then None
      else do {
        buf \<leftarrow> (if pixel = 0 then Some buf else m7_fill (nat w) pixel z dstz buf);
        if dend - (dstz + w) = 0 then Some buf
        else m7_mosaic ppu z dx dy (xpos + dx * word_of_int w) (ypos + dy * word_of_int w)
               (PPU_mosaicSize ppu) (dstz + w) dend buf
      })"
  by pat_completeness auto
termination
  by (relation "measure (\<lambda>(_, _, _, _, _, _, w, dstz, dend, _). nat (2 * (dend - dstz)) + (if w = 0 then 1 else 0))")
    (rule wf_measure, simp only: in_measure case_prod_conv, rule mosaic_measure, blast+)

declare m7_mosaic.simps [simp del]

definition m7rx :: "ppu \<Rightarrow> int \<Rightarrow> u32" where
  "m7rx ppu x = word_of_int (if PPU_m7xFlip ppu then 255 - x else x)"

definition m7_span :: "renderer \<Rightarrow> u16 \<Rightarrow> int \<Rightarrow> int \<Rightarrow> int \<Rightarrow> u16 list \<Rightarrow> u16 list option" where
  "m7_span rd z y x x2 buf =
     (let ppu = rd_ppu rd; rx = m7rx ppu x;
          xpos = m7start ppu 0 y + word_of_int (m7 ppu 0) * rx; ypos = m7start ppu 1 y + word_of_int (m7 ppu 2) * rx;
          dx = word_of_int (if PPU_m7xFlip ppu then - m7 ppu 0 else m7 ppu 0);
          dy = word_of_int (if PPU_m7xFlip ppu then - m7 ppu 2 else m7 ppu 2)
      in if PPU_mosaicEnabled ppu 0
         then m7_mosaic ppu z dx dy xpos ypos (PPU_mosaicSize ppu - (x - PpuMosaicAt rd x)) (x + 96) (x2 + 96) buf
         else m7_run (nat (x2 - x)) ppu z dx dy xpos ypos (x + 96) buf)"

definition PpuDrawBackground_mode7 :: "int \<Rightarrow> bool \<Rightarrow> u16 \<Rightarrow> renderer \<Rightarrow> renderer option" where
  "PpuDrawBackground_mode7 y sub z rd =
     (let ppu = rd_ppu rd in
      if \<not> IS_SCREEN_ENABLED ppu sub 0 then Some rd
      else do {
        win \<leftarrow> layer_windows rd sub 0 y;
        y \<leftarrow> (if PPU_mosaicEnabled ppu 0
             then if 0 \<le> y \<and> y < 256 then Some (uint (rd_mosaicModulo rd ! nat y)) else None
             else Some y);
        buf \<leftarrow> for_windows win (\<lambda>windex left right buf. m7_span rd z y left right buf) (rd_bgBuffers rd ! of_bool sub);
        Some (put_bg sub buf rd)
      })"

section \<open>The sprites of the line\<close>

text \<open>The two loops of \<open>PpuDrawSprites\<close> over the \<open>n\<close> columns of a span: copy, or keep the larger.\<close>

primrec sprite_cols :: "nat \<Rightarrow> bool \<Rightarrow> u16 list \<Rightarrow> int \<Rightarrow> u16 list \<Rightarrow> u16 list option" where
  "sprite_cols 0 clear_backdrop src pos dst = Some dst"
| "sprite_cols (Suc n) clear_backdrop src pos dst =
     (if 0 \<le> pos \<and> pos < int (length src) \<and> pos < int (length dst)
      then sprite_cols n clear_backdrop src (pos + 1)
             (if clear_backdrop \<or> src ! nat pos > dst ! nat pos then dst[nat pos := src ! nat pos] else dst)
      else None)"

definition PpuDrawSprites :: "int \<Rightarrow> bool \<Rightarrow> bool \<Rightarrow> renderer \<Rightarrow> renderer option" where
  "PpuDrawSprites y sub clear_backdrop rd =
     (if \<not> IS_SCREEN_ENABLED (rd_ppu rd) sub 4 then Some rd
      else do {
        win \<leftarrow> layer_windows rd sub 4 y;
        buf \<leftarrow> for_windows win (\<lambda>windex left right dst.
                 sprite_cols (nat (right - left)) clear_backdrop (rd_objBuffer rd) (left + 96) dst)
               (rd_bgBuffers rd ! of_bool sub);
        Some (put_bg sub buf rd)
      })"

section \<open>Mode 7, column by column\<close>

text \<open>What a column shows: the matrix applied to it.\<close>

definition m7_column :: "ppu \<Rightarrow> u16 \<Rightarrow> int \<Rightarrow> int \<Rightarrow> u16 \<Rightarrow> u16" where
  "m7_column ppu z y x v =
     (let pixel = m7texel ppu (m7start ppu 0 y + word_of_int (m7 ppu 0) * m7rx ppu x)
            (m7start ppu 1 y + word_of_int (m7 ppu 2) * m7rx ppu x)
      in if pixel = 0 then v else ucast pixel + z)"

lemma m7put_cols:
  assumes "0 \<le> x + 96" "x + 96 < int (length buf)"
  shows "m7put pixel z (x + 96) buf = Some (cols x (x + 1) (\<lambda>_ v. if pixel = 0 then v else ucast pixel + z) buf)"
  using assms unfolding cols_one [OF assms(1)] by (simp add: m7put_def)

lemma m7_run_cols:
  fixes a c :: u32
  assumes "0 \<le> x + 96" "x + 96 + int n \<le> int (length buf)"
    and "dx = (if PPU_m7xFlip ppu then - a else a)" "dy = (if PPU_m7xFlip ppu then - c else c)"
  shows "m7_run n ppu z dx dy (sx + a * m7rx ppu x) (sy + c * m7rx ppu x) (x + 96) buf =
    Some (cols x (x + int n) (\<lambda>x v. let p = m7texel ppu (sx + a * m7rx ppu x) (sy + c * m7rx ppu x) in if p = 0 then v else ucast p + z) buf)"
  using assms(1,2)
proof (induction n arbitrary: x buf)
  case 0
  then show ?case by (simp add: cols_empty)
next
  case (Suc n)
  let ?g = "\<lambda>x v. let p = m7texel ppu (sx + a * m7rx ppu x) (sy + c * m7rx ppu x) in if p = 0 then v else ucast p + z"
  have step: "sx + a * m7rx ppu x + dx = sx + a * m7rx ppu (x + 1)" "sy + c * m7rx ppu x + dy = sy + c * m7rx ppu (x + 1)"
    using assms(3,4) by (simp_all add: m7rx_def algebra_simps)
  have "m7put (m7texel ppu (sx + a * m7rx ppu x) (sy + c * m7rx ppu x)) z (x + 96) buf = Some (cols x (x + 1) ?g buf)"
    using Suc.prems by (subst m7put_cols) (auto simp: Let_def intro!: cols_cong)
  moreover have "m7_run n ppu z dx dy (sx + a * m7rx ppu (x + 1)) (sy + c * m7rx ppu (x + 1)) (x + 96 + 1) (cols x (x + 1) ?g buf)
      = Some (cols x (x + int (Suc n)) ?g buf)"
    using Suc.IH [of "x + 1" "cols x (x + 1) ?g buf"] Suc.prems by (simp add: cols_split algebra_simps)
  ultimately show ?case by (simp add: step)
qed

theorem draw_mode7:
  assumes "renderer_ok rd" "IS_SCREEN_ENABLED (rd_ppu rd) sub 0" "\<not> PPU_mosaicEnabled (rd_ppu rd) 0"
  shows "PpuDrawBackground_mode7 y sub z rd =
    Some (put_bg sub (cols (window_left rd 0 y) (window_right rd 0 y)
      (\<lambda>x v. if layer_masked (rd_ppu rd) sub 0 x then v else m7_column (rd_ppu rd) z y x v) (rd_bgBuffers rd ! of_bool sub)) rd)"
proof -
  obtain win where win: "layer_windows rd sub 0 y = Some win"
      "windows_ok (window_left rd 0 y) (window_right rd 0 y) (layer_masked (rd_ppu rd) sub 0) win"
    using layer_windows_ok by blast
  have "for_windows win (\<lambda>windex left right buf. m7_span rd z y left right buf) (rd_bgBuffers rd ! of_bool sub)
    = Some (cols (window_left rd 0 y) (window_right rd 0 y)
      (\<lambda>x v. if layer_masked (rd_ppu rd) sub 0 x then v else m7_column (rd_ppu rd) z y x v) (rd_bgBuffers rd ! of_bool sub))"
  proof (rule for_windows_cols [OF win(2) renderer_ok_buf [OF assms(1)]])
    fix k a b and buf :: "u16 list"
    assume k: "k < wn_nr win" "a = wn_edges win ! k" "b = wn_edges win ! Suc k" "length buf = 448"
    note e = span_in_buffer [OF win(2) window_in_buffer [OF assms(1)] k(1), folded k(2,3)]
    show "m7_span rd z y a b buf = Some (cols a b (\<lambda>x v. m7_column (rd_ppu rd) z y x v) buf)"
      using m7_run_cols [where x = a and n = "nat (b - a)" and buf = buf and ppu = "rd_ppu rd" and z = z
          and a = "word_of_int (m7 (rd_ppu rd) 0)" and c = "word_of_int (m7 (rd_ppu rd) 2)"
          and sx = "m7start (rd_ppu rd) 0 y" and sy = "m7start (rd_ppu rd) 1 y", OF _ _ refl refl] e k(4) assms(3)
      by (cases "PPU_m7xFlip (rd_ppu rd)") (simp_all add: m7_span_def m7_column_def [abs_def] Let_def)
  qed
  then show ?thesis using assms(2,3) win(1) by (simp add: PpuDrawBackground_mode7_def Let_def)
qed

section \<open>Sprites, column by column\<close>

definition sprite_column :: "bool \<Rightarrow> u16 list \<Rightarrow> int \<Rightarrow> u16 \<Rightarrow> u16" where
  "sprite_column clear_backdrop src x v =
     (let s = src ! nat (x + 96) in if clear_backdrop \<or> s > v then s else v)"

lemma sprite_cols_cols:
  assumes "0 \<le> x + 96" "x + 96 + int n \<le> int (length dst)" "length src = length dst"
  shows "sprite_cols n clear_backdrop src (x + 96) dst = Some (cols x (x + int n) (sprite_column clear_backdrop src) dst)"
  using assms
proof (induction n arbitrary: x dst)
  case 0
  then show ?case by (simp add: cols_empty)
next
  case (Suc n)
  let ?s = "src ! nat (x + 96)"
  have "(if clear_backdrop \<or> ?s > dst ! nat (x + 96) then dst[nat (x + 96) := ?s] else dst)
      = cols x (x + 1) (sprite_column clear_backdrop src) dst"
    using Suc.prems unfolding cols_one [OF Suc.prems(1)] by (simp add: sprite_column_def Let_def)
  moreover have "sprite_cols n clear_backdrop src (x + 1 + 96) (cols x (x + 1) (sprite_column clear_backdrop src) dst)
      = Some (cols x (x + int (Suc n)) (sprite_column clear_backdrop src) dst)"
    using Suc.IH [of "x + 1"] Suc.prems by (simp add: cols_split algebra_simps)
  ultimately show ?case using Suc.prems by (simp add: ac_simps)
qed

theorem draw_sprites:
  assumes "renderer_ok rd" "IS_SCREEN_ENABLED (rd_ppu rd) sub 4"
  shows "PpuDrawSprites y sub clear_backdrop rd =
    Some (put_bg sub (cols (window_left rd 4 y) (window_right rd 4 y)
      (\<lambda>x v. if layer_masked (rd_ppu rd) sub 4 x then v else sprite_column clear_backdrop (rd_objBuffer rd) x v)
      (rd_bgBuffers rd ! of_bool sub)) rd)"
proof -
  obtain win where win: "layer_windows rd sub 4 y = Some win"
      "windows_ok (window_left rd 4 y) (window_right rd 4 y) (layer_masked (rd_ppu rd) sub 4) win"
    using layer_windows_ok by blast
  have obj: "length (rd_objBuffer rd) = 448" using assms(1) by (simp add: renderer_ok_def)
  have "for_windows win (\<lambda>windex left right dst. sprite_cols (nat (right - left)) clear_backdrop (rd_objBuffer rd) (left + 96) dst)
      (rd_bgBuffers rd ! of_bool sub)
    = Some (cols (window_left rd 4 y) (window_right rd 4 y)
      (\<lambda>x v. if layer_masked (rd_ppu rd) sub 4 x then v else sprite_column clear_backdrop (rd_objBuffer rd) x v)
      (rd_bgBuffers rd ! of_bool sub))"
  proof (rule for_windows_cols [OF win(2) renderer_ok_buf [OF assms(1)]])
    fix k a b and buf :: "u16 list"
    assume k: "k < wn_nr win" "a = wn_edges win ! k" "b = wn_edges win ! Suc k" "length buf = 448"
    note e = span_in_buffer [OF win(2) window_in_buffer [OF assms(1)] k(1), folded k(2,3)]
    show "sprite_cols (nat (b - a)) clear_backdrop (rd_objBuffer rd) (a + 96) buf
        = Some (cols a b (\<lambda>x v. sprite_column clear_backdrop (rd_objBuffer rd) x v) buf)"
      using sprite_cols_cols [of a "nat (b - a)" buf "rd_objBuffer rd"] e k(4) obj by simp
  qed
  then show ?thesis using assms(2) win(1) by (simp add: PpuDrawSprites_def)
qed

end
