(* ===== verification/Ppu_Sprites.thy ===== *)
theory Ppu_Sprites
  imports Ppu_Layers
begin

text \<open>
  Sprite evaluation, \<open>ppu_evaluateSprites\<close> of \<open>snes/ppu.c\<close>: the sprites of the table in priority
  order, the ones on the line, at most 32 of them and at most 34 slivers of eight pixels, drawn into the
  object buffer where it is still empty. The specification is a list: the slivers of the sprites on the line, cut
  at the two limits; the first opaque one shows.
\<close>

section \<open>The evaluation\<close>

definition spriteSizes :: "int list list" where
  "spriteSizes = [[8, 16], [8, 32], [8, 64], [16, 32], [16, 64], [32, 64], [16, 32], [16, 32]]"

definition SPRITE_PRIO_TO_PRIO :: "u16 \<Rightarrow> bool \<Rightarrow> u16" where
  "SPRITE_PRIO_TO_PRIO prio level6 = (prio * 4 + 2) * 16 + 4 + (if level6 then 2 else 0)"

text \<open>A sprite that is on the line: its column, its row in the sprite, its size and its attributes.\<close>

record sprite =
  sp_x :: int
  sp_row :: u8
  sp_size :: int
  sp_oam1 :: u16

definition high_oam :: "ppu \<Rightarrow> u8 \<Rightarrow> nat \<Rightarrow> bool" where
  "high_oam ppu index k = bit (ppu_highOam ppu (drop_bit 3 index)) (unat (index AND 7) + k)"

definition sprite_on_line :: "renderer \<Rightarrow> int \<Rightarrow> u8 \<Rightarrow> sprite option" where
  "sprite_on_line rd line index =
     (let ppu = rd_ppu rd; y = hi8 (ppu_oam ppu index); row = word_of_int (line - uint y) :: u8;
          spriteSize = spriteSizes ! unat (PPU_objSize ppu) ! of_bool (high_oam ppu index 1);
          spriteHeight = (if PPU_objInterlace ppu then spriteSize div 2 else spriteSize)
      in if uint row < spriteHeight then
           let x = uint (ppu_oam ppu index AND 0xff) + (if high_oam ppu index 0 then 256 else 0);
               x = (if x \<ge> 256 + uint (rd_extraRightCur rd) then x - 512 else x);
               row = (if PPU_objInterlace ppu then row * 2 + (if ppu_evenFrame ppu then 0 else 1) else row);
               oam1 = ppu_oam ppu (index + 1);
               row = (if tst oam1 0x8000 then word_of_int (spriteSize - 1) - row else row)
           in if x + spriteSize > - uint (rd_extraLeftCur rd)
              then Some \<lparr>sp_x = x, sp_row = row, sp_size = spriteSize, sp_oam1 = oam1\<rparr> else None
         else None)"

text \<open>A sliver of a sprite: its column, its four planes, its value and its flip.\<close>

record sliver =
  sl_x :: int
  sl_plane :: u32
  sl_z :: u16
  sl_flip :: bool

definition sliver_of :: "ppu \<Rightarrow> sprite \<Rightarrow> int \<Rightarrow> sliver option" where
  "sliver_of ppu sp col =
     (let oam1 = sp_oam1 sp; row = uint (sp_row sp);
          objAdr = (if tst oam1 0x100 then PPU_objTileAdr2 ppu else PPU_objTileAdr1 ppu);
          usedCol = (if tst oam1 0x4000 then sp_size sp - 1 - col else col);
          usedTile = push_bit 4 (drop_bit 4 (uint (oam1 AND 0xff)) + drop_bit 3 row)
            OR ((uint (oam1 AND 0xf) + drop_bit 3 usedCol) AND 0xf);
          a = (objAdr + usedTile * 16 + (row AND 7)) AND 0x7fff
      in do {
        lo \<leftarrow> vram_at ppu a;
        hi \<leftarrow> vram_at ppu (a + 8);
        Some \<lparr>sl_x = sp_x sp + col, sl_plane = ucast lo OR push_bit 16 (ucast hi),
              sl_z = 0x80 + 16 * drop_bit 9 (oam1 AND 0xe00)
                + push_bit 8 (SPRITE_PRIO_TO_PRIO (drop_bit 12 (oam1 AND 0x3000)) (\<not> tst oam1 0x800)),
              sl_flip = tst oam1 0x4000\<rparr>
      })"

definition sliver_pixel :: "sliver \<Rightarrow> int \<Rightarrow> u32" where
  "sliver_pixel sl px = pixel4 0 (drop_bit (nat (if sl_flip sl then px else 7 - px)) (sl_plane sl))"

text \<open>The loop over the pixels from \<open>px\<close> on, with \<open>n\<close> left.\<close>

primrec sliver_run :: "nat \<Rightarrow> sliver \<Rightarrow> int \<Rightarrow> u16 list \<Rightarrow> u16 list option" where
  "sliver_run 0 sl px buf = Some buf"
| "sliver_run (Suc n) sl px buf =
     (let pixel = sliver_pixel sl px; pos = sl_x sl + px + 96 in
      if pixel = 0 then sliver_run n sl (px + 1) buf
      else if \<not> (0 \<le> pos \<and> pos < int (length buf)) then None
      else sliver_run n sl (px + 1)
             (if buf ! nat pos AND 0xff = 0 then buf[nat pos := sl_z sl + ucast pixel] else buf))"

definition sliver_draw :: "sliver \<Rightarrow> u16 list \<Rightarrow> u16 list option" where
  "sliver_draw sl buf =
     (let px_left = max (- (sl_x sl + 96)) 0; px_right = min (256 + 96 - sl_x sl) 8
      in sliver_run (nat (px_right - px_left)) sl px_left buf)"

definition col_on_line :: "renderer \<Rightarrow> sprite \<Rightarrow> int \<Rightarrow> bool" where
  "col_on_line rd sp col \<longleftrightarrow>
     col + sp_x sp > - 8 - uint (rd_extraLeftCur rd) \<and> col + sp_x sp < 256 + uint (rd_extraRightCur rd)"

definition sprite_columns :: "sprite \<Rightarrow> int list" where
  "sprite_columns sp = map (\<lambda>k. 8 * int k) [0..<nat (sp_size sp div 8)]"

text \<open>The loop over the columns of a sprite; the count runs to 35 when the limit is hit.\<close>

primrec sprite_tiles :: "int list \<Rightarrow> sprite \<Rightarrow> nat \<times> renderer \<Rightarrow> (nat \<times> renderer) option" where
  "sprite_tiles [] sp st = Some st"
| "sprite_tiles (col # cs) sp st =
     (case st of (tilesFound, rd) \<Rightarrow>
       if \<not> col_on_line rd sp col then sprite_tiles cs sp st
       else if tilesFound + 1 > 34 then Some (tilesFound + 1, rd\<lparr>rd_ppu := (rd_ppu rd)\<lparr>ppu_timeOver := True\<rparr>\<rparr>)
       else do {
         sl \<leftarrow> sliver_of (rd_ppu rd) sp col;
         buf \<leftarrow> sliver_draw sl (rd_objBuffer rd);
         sprite_tiles cs sp (tilesFound + 1, rd\<lparr>rd_objBuffer := buf\<rparr>)
       })"

text \<open>The loop over the table.\<close>

primrec sprite_loop :: "nat \<Rightarrow> int \<Rightarrow> u8 \<Rightarrow> nat \<Rightarrow> nat \<times> renderer \<Rightarrow> (nat \<times> renderer) option" where
  "sprite_loop 0 line index spritesFound st = Some st"
| "sprite_loop (Suc k) line index spritesFound st =
     (case sprite_on_line (snd st) line index of
        None \<Rightarrow> sprite_loop k line (index + 2) spritesFound st
      | Some sp \<Rightarrow>
          if spritesFound + 1 > 32
          then Some (fst st, (snd st)\<lparr>rd_ppu := (rd_ppu (snd st))\<lparr>ppu_rangeOver := True\<rparr>\<rparr>)
          else do {
            st \<leftarrow> sprite_tiles (sprite_columns sp) sp st;
            if fst st > 34 then Some st else sprite_loop k line (index + 2) (spritesFound + 1) st
          })"

definition ppu_evaluateSprites :: "int \<Rightarrow> renderer \<Rightarrow> (bool \<times> renderer) option" where
  "ppu_evaluateSprites line rd =
     (let index = (if PPU_objPriority (rd_ppu rd) then ppu_oamaddl (rd_ppu rd) AND 0xfe else 0) in do {
        (tilesFound, rd) \<leftarrow> sprite_loop 128 line index 0 (0, rd);
        Some (tilesFound \<noteq> 0, rd)
      })"

section \<open>The specification\<close>

text \<open>The sprites of the table that are on the line, in order.\<close>

definition sprites_on_line :: "renderer \<Rightarrow> int \<Rightarrow> sprite list" where
  "sprites_on_line rd line =
     (let index = (if PPU_objPriority (rd_ppu rd) then ppu_oamaddl (rd_ppu rd) AND 0xfe else 0)
      in List.map_filter (sprite_on_line rd line) (map (\<lambda>i. index + 2 * of_nat i) [0..<128]))"

definition slivers :: "renderer \<Rightarrow> sprite list \<Rightarrow> sliver list" where
  "slivers rd sps = concat (map (\<lambda>sp. map (\<lambda>col. the (sliver_of (rd_ppu rd) sp col)) (filter (col_on_line rd sp) (sprite_columns sp))) sps)"

text \<open>What a sliver adds to a column that is still empty.\<close>

definition sliver_column :: "sliver \<Rightarrow> int \<Rightarrow> u16 \<Rightarrow> u16" where
  "sliver_column sl x v =
     (let px = x - sl_x sl in
      if 0 \<le> px \<and> px < 8 \<and> sliver_pixel sl px \<noteq> 0 \<and> v AND 0xff = 0 then sl_z sl + ucast (sliver_pixel sl px) else v)"

lemma sliver_run_cols:
  assumes "0 \<le> px" "px + int n \<le> 8" "0 \<le> sl_x sl + px + 96" "sl_x sl + px + 96 + int n \<le> int (length buf)"
  shows "sliver_run n sl px buf = Some (cols (sl_x sl + px) (sl_x sl + px + int n) (sliver_column sl) buf)"
  using assms
proof (induction n arbitrary: px buf)
  case 0
  then show ?case by (simp add: cols_empty)
next
  case (Suc n)
  let ?x = "sl_x sl + px"
  let ?one = "cols ?x (?x + 1) (sliver_column sl) buf"
  have one: "?one = (if sliver_pixel sl px \<noteq> 0 \<and> buf ! nat (?x + 96) AND 0xff = 0
      then buf[nat (?x + 96) := sl_z sl + ucast (sliver_pixel sl px)] else buf)"
    using Suc.prems unfolding cols_one [OF Suc.prems(3)] by (simp add: sliver_column_def Let_def)
  have "sliver_run n sl (px + 1) ?one = Some (cols (?x + 1) (?x + 1 + int n) (sliver_column sl) ?one)"
    using Suc.IH [of "px + 1" ?one] Suc.prems by (simp add: add.assoc)
  also have "cols (?x + 1) (?x + 1 + int n) (sliver_column sl) ?one = cols ?x (?x + int (Suc n)) (sliver_column sl) buf"
    by (subst cols_split) (simp_all add: algebra_simps)
  finally show ?case
    using Suc.prems unfolding one by (auto simp: Let_def split: if_splits)
qed

text \<open>A sliver near the line changes its columns of the buffer and nothing else.\<close>

lemma sliver_draw_cols:
  assumes "- 104 < sl_x sl" "sl_x sl < 352" "length buf = 448"
  shows "sliver_draw sl buf = Some (cols (- 96) 352 (sliver_column sl) buf)"
proof -
  define l r where lr: "l = max (- (sl_x sl + 96)) 0" "r = min (256 + 96 - sl_x sl) 8"
  have b: "0 \<le> l" "l \<le> r" "r \<le> 8" "0 \<le> sl_x sl + l + 96" "sl_x sl + r + 96 \<le> 448" using assms(1,2) by (auto simp: lr)
  have "sliver_draw sl buf = Some (cols (sl_x sl + l) (sl_x sl + r) (sliver_column sl) buf)"
    using sliver_run_cols [of l "nat (r - l)" sl buf] b assms(3)
    unfolding sliver_draw_def Let_def lr [symmetric] by (simp add: algebra_simps)
  also have "cols (sl_x sl + l) (sl_x sl + r) (sliver_column sl) buf = cols (- 96) 352 (sliver_column sl) buf"
  proof (subst cols_widen)
    show "- 96 \<le> sl_x sl + l" "sl_x sl + r \<le> 352" using b by simp_all
    show "cols (- 96) 352 (\<lambda>x v. if sl_x sl + l \<le> x \<and> x < sl_x sl + r then sliver_column sl x v else v) buf
        = cols (- 96) 352 (sliver_column sl) buf"
      by (rule cols_cong) (auto simp: sliver_column_def Let_def lr)
  qed
  finally show ?thesis .
qed

lemma objAdr_aligned:
  fixes k :: int
  shows "0 \<le> PPU_objTileAdr1 ppu" "PPU_objTileAdr1 ppu mod 16 = 0" "0 \<le> PPU_objTileAdr2 ppu" "PPU_objTileAdr2 ppu mod 16 = 0"
  by (simp_all add: PPU_objTileAdr1_def PPU_objTileAdr2_def push_bit_eq_mult mod_eq_0_iff_dvd)

lemma sliver_of_ok: "\<exists>sl. sliver_of ppu sp col = Some sl \<and> sl_x sl = sp_x sp + col"
proof -
  define objAdr where "objAdr = (if tst (sp_oam1 sp) 0x100 then PPU_objTileAdr2 ppu else PPU_objTileAdr1 ppu)"
  define usedCol where "usedCol = (if tst (sp_oam1 sp) 0x4000 then sp_size sp - 1 - col else col)"
  define usedTile where "usedTile = push_bit 4 (drop_bit 4 (uint (sp_oam1 sp AND 0xff)) + drop_bit 3 (uint (sp_row sp)))
      OR ((uint (sp_oam1 sp AND 0xf) + drop_bit 3 usedCol) AND 0xf)"
  define a where "a = objAdr + usedTile * 16 + (uint (sp_row sp) AND 7)"
  have "0 \<le> objAdr" "objAdr mod 16 = 0" using objAdr_aligned [of ppu] by (simp_all add: objAdr_def)
  moreover have "0 \<le> usedTile" by (simp add: usedTile_def)
  moreover have "0 \<le> uint (sp_row sp) AND 7" "(uint (sp_row sp) AND 7) < 8" by (simp_all add: int_low_bits)
  ultimately have a: "0 \<le> a" "a mod 16 < 8"
    by (simp_all add: a_def mod_add_eq [symmetric, of "objAdr + usedTile * 16"] mod_add_eq [symmetric, of objAdr])
  obtain lo hi where "vram_at ppu (a AND 0x7fff) = Some lo" "vram_at ppu ((a AND 0x7fff) + 8) = Some hi"
    using vram_at_low [OF a(1), of ppu] vram_at_planes [OF a, of ppu] by blast
  then show ?thesis
    unfolding sliver_of_def Let_def objAdr_def [symmetric] usedCol_def [symmetric] usedTile_def [symmetric] a_def [symmetric]
    by simp
qed

text \<open>The buffer with a sliver drawn, and with a list of slivers drawn in order.\<close>

definition paint1 :: "sliver \<Rightarrow> renderer \<Rightarrow> renderer" where
  "paint1 sl rd = rd\<lparr>rd_objBuffer := cols (- 96) 352 (sliver_column sl) (rd_objBuffer rd)\<rparr>"

primrec paint :: "sliver list \<Rightarrow> renderer \<Rightarrow> renderer" where
  "paint [] rd = rd"
| "paint (sl # sls) rd = paint sls (paint1 sl rd)"

definition set_timeOver :: "renderer \<Rightarrow> renderer" where
  "set_timeOver rd = rd\<lparr>rd_ppu := (rd_ppu rd)\<lparr>ppu_timeOver := True\<rparr>\<rparr>"
definition set_rangeOver :: "renderer \<Rightarrow> renderer" where
  "set_rangeOver rd = rd\<lparr>rd_ppu := (rd_ppu rd)\<lparr>ppu_rangeOver := True\<rparr>\<rparr>"

lemma paint1_simps [simp]:
  "rd_ppu (paint1 sl rd) = rd_ppu rd" "rd_extraLeftCur (paint1 sl rd) = rd_extraLeftCur rd"
  "rd_extraRightCur (paint1 sl rd) = rd_extraRightCur rd"
  "rd_objBuffer (paint1 sl rd) = cols (- 96) 352 (sliver_column sl) (rd_objBuffer rd)"
  by (simp_all add: paint1_def)

lemma paint_simps [simp]:
  "rd_ppu (paint sls rd) = rd_ppu rd" "rd_extraLeftCur (paint sls rd) = rd_extraLeftCur rd"
  "rd_extraRightCur (paint sls rd) = rd_extraRightCur rd" "length (rd_objBuffer (paint sls rd)) = length (rd_objBuffer rd)"
  by (induction sls arbitrary: rd) simp_all

lemma paint_on_line [simp]:
  "sprite_on_line (paint sls rd) = sprite_on_line rd" "col_on_line (paint sls rd) = col_on_line rd"
  "sprite_on_line (paint1 sl rd) = sprite_on_line rd" "col_on_line (paint1 sl rd) = col_on_line rd"
  unfolding fun_eq_iff sprite_on_line_def col_on_line_def paint_simps paint1_simps by (rule refl | intro allI)+

lemma paint_append: "paint (xs @ ys) rd = paint ys (paint xs rd)"
  by (induction xs arbitrary: rd) simp_all

lemma slivers_paint [simp]: "slivers (paint sls rd) = slivers rd"
  by (simp add: slivers_def [abs_def])

lemma slivers_append: "slivers rd (xs @ ys) = slivers rd xs @ slivers rd ys"
  by (simp add: slivers_def)

text \<open>The slivers of a sprite, up to the limit.\<close>

definition painted :: "nat \<Rightarrow> sliver list \<Rightarrow> renderer \<Rightarrow> nat \<times> renderer" where
  "painted n sls rd =
     (if n + length sls \<le> 34 then (n + length sls, paint sls rd) else (35, set_timeOver (paint (take (34 - n) sls) rd)))"

definition obj_ok :: "renderer \<Rightarrow> bool" where
  "obj_ok rd \<longleftrightarrow> length (rd_objBuffer rd) = 448 \<and> rd_extraLeftCur rd \<le> 96 \<and> rd_extraRightCur rd \<le> 96"

lemma obj_ok_paint [simp]: "obj_ok (paint sls rd) = obj_ok rd" "obj_ok (paint1 sl rd) = obj_ok rd"
  by (simp_all add: obj_ok_def)

lemma sprite_tiles_painted:
  assumes "obj_ok rd" "n \<le> 34"
  shows "sprite_tiles cs sp (n, rd) =
    Some (painted n (map (\<lambda>col. the (sliver_of (rd_ppu rd) sp col)) (filter (col_on_line rd sp) cs)) rd)"
  using assms
proof (induction cs arbitrary: n rd)
  case Nil
  then show ?case by (simp add: painted_def)
next
  case (Cons col cs)
  show ?case
  proof (cases "col_on_line rd sp col")
    case False
    then show ?thesis using Cons by simp
  next
    case True
    obtain sl where sl: "sliver_of (rd_ppu rd) sp col = Some sl" "sl_x sl = sp_x sp + col" using sliver_of_ok by blast
    have "- 104 < sl_x sl" "sl_x sl < 352"
      using True sl(2) Cons.prems(1) by (auto simp: col_on_line_def obj_ok_def word_le_def)
    then have "sliver_draw sl (rd_objBuffer rd) = Some (rd_objBuffer (paint1 sl rd))"
      using sliver_draw_cols Cons.prems(1) by (simp add: obj_ok_def)
    moreover have "rd\<lparr>rd_objBuffer := rd_objBuffer (paint1 sl rd)\<rparr> = paint1 sl rd" by (simp add: paint1_def)
    ultimately show ?thesis
      using True sl(1) Cons.IH [of "paint1 sl rd" "n + 1"] Cons.prems
      by (cases "n = 34") (simp_all add: painted_def set_timeOver_def take_Cons')
  qed
qed

text \<open>The sprites of the table from \<open>index\<close> on.\<close>

definition sprites_from :: "renderer \<Rightarrow> int \<Rightarrow> u8 \<Rightarrow> nat \<Rightarrow> sprite list" where
  "sprites_from rd line index k = List.map_filter (sprite_on_line rd line) (map (\<lambda>i. index + 2 * of_nat i) [0..<k])"

lemma sprites_from_simps [simp]:
  "sprites_from rd line index 0 = []"
  "sprites_from rd line index (Suc k) =
     (case sprite_on_line rd line index of None \<Rightarrow> [] | Some sp \<Rightarrow> [sp]) @ sprites_from rd line (index + 2) k"
proof -
  have "map (\<lambda>i. index + 2 * of_nat i) [0..<Suc k] = index # map (\<lambda>i. index + 2 + 2 * of_nat i) [0..<k]"
    by (simp add: upt_conv_Cons map_Suc_upt [symmetric] o_def algebra_simps del: upt_Suc)
  then show "sprites_from rd line index (Suc k) =
     (case sprite_on_line rd line index of None \<Rightarrow> [] | Some sp \<Rightarrow> [sp]) @ sprites_from rd line (index + 2) k"
    by (simp add: sprites_from_def List.map_filter_simps split: option.splits)
qed (simp add: sprites_from_def List.map_filter_simps)

lemma sprites_from_paint [simp]: "sprites_from (paint sls rd) = sprites_from rd"
  by (simp add: fun_eq_iff sprites_from_def)

text \<open>The loop draws the slivers of the first 32 sprites up to the sliver limit, and looks for a
  33rd sprite only when that limit was not hit.\<close>

definition evaluated :: "nat \<Rightarrow> nat \<Rightarrow> sprite list \<Rightarrow> renderer \<Rightarrow> nat \<times> renderer" where
  "evaluated n found sps rd =
     (let sls = slivers rd (take (32 - found) sps) in
      if n + length sls \<le> 34 \<and> length sps > 32 - found then (n + length sls, set_rangeOver (paint sls rd))
      else painted n sls rd)"

lemma painted_append:
  "n + length xs \<le> 34 \<Longrightarrow> painted n (xs @ ys) rd = painted (n + length xs) ys (paint xs rd)"
  "34 < n + length xs \<Longrightarrow> n \<le> 34 \<Longrightarrow> painted n (xs @ ys) rd = painted n xs rd"
  by (simp_all add: painted_def paint_append add.assoc)

lemma sprite_loop_evaluated:
  assumes "obj_ok rd" "n \<le> 34" "found \<le> 32"
  shows "sprite_loop k line index found (n, rd) = Some (evaluated n found (sprites_from rd line index k) rd)"
  using assms
proof (induction k arbitrary: index found n rd)
  case 0
  then show ?case by (simp add: evaluated_def painted_def slivers_def)
next
  case (Suc k)
  show ?case
  proof (cases "sprite_on_line rd line index")
    case None
    then show ?thesis using Suc by simp
  next
    case (Some sp)
    define xs where "xs = slivers rd [sp]"
    have xs: "sprite_tiles (sprite_columns sp) sp (n, rd) = Some (painted n xs rd)"
      using sprite_tiles_painted [OF Suc.prems(1,2)] by (simp add: xs_def slivers_def)
    have sl: "slivers rd (sp # sps) = xs @ slivers rd sps" for sps by (simp add: xs_def slivers_def)
    show ?thesis
    proof (cases "found = 32")
      case True
      then show ?thesis using Some Suc.prems(2) by (simp add: evaluated_def slivers_def set_rangeOver_def)
    next
      case False
      then have t: "take (32 - found) (sp # sps) = sp # take (32 - Suc found) sps" for sps
        using Suc.prems(3) by (simp add: take_Cons')
      have more: "32 - found < Suc m \<longleftrightarrow> 31 - found < m" for m using False Suc.prems(3) by arith
      show ?thesis
      proof (cases "n + length xs \<le> 34")
        case True
        then show ?thesis
          using Suc.IH [of "paint xs rd" "n + length xs" "Suc found" "index + 2"] Suc.prems False Some xs
          by (simp add: painted_def [of n xs] evaluated_def Let_def t sl more painted_append(1) paint_append add.assoc)
      next
        case over: False
        then show ?thesis
          using Suc.prems False Some xs
          by (simp add: evaluated_def Let_def t sl painted_append(2)) (simp add: painted_def)
      qed
    qed
  qed
qed

section \<open>The line of objects\<close>

text \<open>The column a list of slivers shows: the first opaque one.\<close>

definition opaque_at :: "int \<Rightarrow> sliver \<Rightarrow> bool" where
  "opaque_at x sl \<longleftrightarrow> 0 \<le> x - sl_x sl \<and> x - sl_x sl < 8 \<and> sliver_pixel sl (x - sl_x sl) \<noteq> 0"

definition object_at :: "sliver list \<Rightarrow> int \<Rightarrow> u16 \<Rightarrow> u16" where
  "object_at sls x v = (case find (opaque_at x) sls of None \<Rightarrow> v | Some sl \<Rightarrow> sl_z sl + ucast (sliver_pixel sl (x - sl_x sl)))"

text \<open>The value of a sliver leaves room for its pixel, and marks the column as taken.\<close>

definition sliver_ok :: "sliver \<Rightarrow> bool" where
  "sliver_ok sl \<longleftrightarrow> unat (sl_z sl) mod 16 = 0 \<and> 128 \<le> unat (sl_z sl) mod 256"

lemma sliver_pixel_small: "unat (sliver_pixel sl px) < 16"
  by (simp add: sliver_pixel_def pixel4_planes planes_def)

lemma low_byte_room:
  fixes z p :: nat
  assumes "z mod 16 = 0" "128 \<le> z mod 256" "p < 16"
  shows "(z + p) mod 256 \<noteq> 0"
proof -
  have "z mod 256 mod 16 = 0" using assms(1) by (simp add: mod_mod_cancel)
  then have "z mod 256 = 16 * (z mod 256 div 16)" using mult_div_mod_eq [of 16 "z mod 256"] by linarith
  moreover have "z mod 256 div 16 < 16" by (simp add: less_mult_imp_div_less)
  ultimately have "z mod 256 + p < 256" using assms(3) by linarith
  then have "(z + p) mod 256 = z mod 256 + p" by (subst mod_add_left_eq [symmetric]) simp
  then show ?thesis using assms(2) by simp
qed

lemma sliver_taken:
  assumes "sliver_ok sl"
  shows "(sl_z sl + ucast (sliver_pixel sl px)) AND 0xff \<noteq> 0"
proof -
  let ?p = "sliver_pixel sl px"
  have "unat (sl_z sl + ucast ?p) mod 256 = (unat (sl_z sl) + unat ?p) mod 256"
    using sliver_pixel_small [of sl px]
    by (simp add: unat_word_ariths unsigned_ucast_eq unsigned_take_bit_eq take_bit_eq_mod mod_mod_cancel)
  also have "\<dots> \<noteq> 0"
    using assms by (intro low_byte_room sliver_pixel_small) (simp_all add: sliver_ok_def)
  finally have "take_bit 8 (unat (sl_z sl + ucast ?p)) \<noteq> 0" by (simp add: take_bit_eq_mod)
  then have "take_bit 8 (sl_z sl + ucast ?p) \<noteq> 0" by (simp add: word_unat_eq_iff unsigned_take_bit_eq)
  then show ?thesis by (simp add: take_bit_eq_mask mask_eq_exp_minus_1)
qed

lemma sliver_of_sliver_ok:
  assumes "sliver_of ppu sp col = Some sl"
  shows "sliver_ok sl"
proof -
  define k :: u16 where "k = drop_bit 9 (sp_oam1 sp AND 0xe00)"
  obtain p where z: "sl_z sl = 0x80 + 16 * k + push_bit 8 p"
    using assms by (auto simp: sliver_of_def Let_def k_def split: bind_splits)
  have "k = take_bit 3 (drop_bit 9 (sp_oam1 sp))" by (simp add: k_def take_bit_eq_mask mask_eq_exp_minus_1)
  then have "unat k < 8" using take_bit_nat_less_exp [of 3 "unat (drop_bit 9 (sp_oam1 sp))"] by (simp add: unsigned_take_bit_eq)
  moreover have "(a + b mod 65536) mod 256 = (a + b) mod 256" for a b :: nat
    by (subst mod_add_right_eq [symmetric]) (simp add: mod_mod_cancel mod_add_right_eq)
  ultimately have "unat (sl_z sl) mod 256 = 128 + 16 * unat k"
    by (simp add: z push_bit_eq_mult unat_word_ariths mod_mod_cancel)
  then show ?thesis using mod_mod_cancel [of 16 256 "unat (sl_z sl)"] by (simp add: sliver_ok_def)
qed

lemma slivers_ok: "sl \<in> set (slivers rd sps) \<Longrightarrow> sliver_ok sl"
proof -
  assume "sl \<in> set (slivers rd sps)"
  then obtain sp col where "sl = the (sliver_of (rd_ppu rd) sp col)" by (auto simp: slivers_def)
  then show "sliver_ok sl" using sliver_of_ok [of "rd_ppu rd" sp col] sliver_of_sliver_ok by auto
qed

lemma sliver_column_opaque:
  "sliver_column sl x v =
    (if opaque_at x sl \<and> v AND 0xff = 0 then sl_z sl + ucast (sliver_pixel sl (x - sl_x sl)) else v)"
  by (auto simp: sliver_column_def Let_def opaque_at_def)

lemma paint_taken: "v AND 0xff \<noteq> 0 \<Longrightarrow> fold (\<lambda>sl. sliver_column sl x) sls v = v"
  by (induction sls) (simp_all add: sliver_column_opaque)

lemma paint_column:
  assumes "\<forall>sl \<in> set sls. sliver_ok sl" "v AND 0xff = 0"
  shows "fold (\<lambda>sl. sliver_column sl x) sls v = object_at sls x v"
  using assms
proof (induction sls)
  case (Cons sl sls)
  show ?case
  proof (cases "opaque_at x sl")
    case True
    then show ?thesis using Cons.prems paint_taken [OF sliver_taken] by (simp add: object_at_def sliver_column_opaque [of sl])
  next
    case False
    then show ?thesis using Cons by (simp add: object_at_def sliver_column_opaque [of sl])
  qed
qed (simp add: object_at_def)

lemma nth_paint:
  "i < length (rd_objBuffer rd) \<Longrightarrow> i < 448 \<Longrightarrow>
   rd_objBuffer (paint sls rd) ! i = fold (\<lambda>sl. sliver_column sl (int i - 96)) sls (rd_objBuffer rd ! i)"
  by (induction sls arbitrary: rd) (simp_all add: nth_cols)

lemma paint_frame: "paint sls rd = rd\<lparr>rd_objBuffer := rd_objBuffer (paint sls rd)\<rparr>"
proof (induction sls arbitrary: rd)
  case (Cons sl sls)
  show ?case using Cons [of "paint1 sl rd"] by (simp add: paint1_def)
qed simp

lemma paint_empty_line:
  assumes "rd_objBuffer rd = replicate 448 v" "v AND 0xff = 0" "\<forall>sl \<in> set sls. sliver_ok sl"
  shows "paint sls rd = rd\<lparr>rd_objBuffer := map (\<lambda>i. object_at sls (int i - 96) v) [0..<448]\<rparr>"
proof -
  have "rd_objBuffer (paint sls rd) = map (\<lambda>i. object_at sls (int i - 96) v) [0..<448]"
    using assms by (intro nth_equalityI) (simp_all add: nth_paint paint_column)
  moreover have "paint sls rd = rd\<lparr>rd_objBuffer := rd_objBuffer (paint sls rd)\<rparr>"
    by (rule paint_frame)
  ultimately show ?thesis by simp
qed

text \<open>The line of objects: of the sprites on the line the first 32, of their slivers the first 34, of those
  at a column the first opaque one. A line that overruns the slivers raises time-over; one that has more than 32
  sprites raises range-over unless the slivers ran out first.\<close>

theorem evaluate_sprites:
  fixes rd :: renderer and line :: int
  assumes "obj_ok rd" "rd_objBuffer rd = replicate 448 v" "v AND 0xff = 0"
  defines "sps \<equiv> sprites_on_line rd line"
  defines "sls \<equiv> slivers rd (take 32 sps)"
  defines "ppu \<equiv> rd_ppu rd"
  shows "ppu_evaluateSprites line rd = Some (sls \<noteq> [],
    rd\<lparr>rd_objBuffer := map (\<lambda>i. object_at (take 34 sls) (int i - 96) v) [0..<448],
       rd_ppu := ppu\<lparr>ppu_timeOver := ppu_timeOver ppu \<or> length sls > 34,
                     ppu_rangeOver := ppu_rangeOver ppu \<or> (length sps > 32 \<and> length sls \<le> 34)\<rparr>\<rparr>)"
proof -
  have sps: "sprites_from rd line (if PPU_objPriority ppu then ppu_oamaddl ppu AND 0xfe else 0) 128 = sps"
    by (simp add: sprites_from_def sps_def sprites_on_line_def ppu_def Let_def)
  have ok: "\<forall>sl \<in> set (take k sls). sliver_ok sl" for k using slivers_ok by (auto simp: sls_def dest: in_set_takeD)
  have keep: "rd\<lparr>rd_ppu := ppu\<rparr> = rd" by (simp add: ppu_def)
  have "ppu_evaluateSprites line rd = (case evaluated 0 0 sps rd of (n, rd) \<Rightarrow> Some (n \<noteq> 0, rd))"
    unfolding ppu_evaluateSprites_def Let_def ppu_def [symmetric] sps [symmetric]
    by (subst sprite_loop_evaluated [OF assms(1)]) (simp_all split: prod.splits)
  also have "evaluated 0 0 sps rd = (let over = length sls > 34 in
      (if over then 35 else length sls,
       rd\<lparr>rd_objBuffer := map (\<lambda>i. object_at (take 34 sls) (int i - 96) v) [0..<448],
          rd_ppu := ppu\<lparr>ppu_timeOver := ppu_timeOver ppu \<or> over,
                        ppu_rangeOver := ppu_rangeOver ppu \<or> (length sps > 32 \<and> \<not> over)\<rparr>\<rparr>))"
  proof (cases "length sls > 34")
    case True
    then show ?thesis
      using paint_empty_line [OF assms(2,3) ok, of 34]
      unfolding evaluated_def painted_def Let_def diff_zero sls_def [symmetric] set_timeOver_def ppu_def by simp
  next
    case False
    then have "take 34 sls = sls" by simp
    then show ?thesis
      using paint_empty_line [OF assms(2,3) ok, of 34] False
      unfolding evaluated_def painted_def Let_def diff_zero sls_def [symmetric] set_rangeOver_def ppu_def
      by (cases "length sps > 32") simp_all
  qed
  finally show ?thesis by (auto simp: Let_def not_less)
qed

end
