(* ===== verification/Ppu_Line.thy ===== *)
theory Ppu_Line
  imports Ppu_Sprites
begin

text \<open>
  A whole line of the renderer of \<open>snes/ppu.c\<close>: the backgrounds and sprites of a screen in their order,
  \<open>PpuDrawWholeLine\<close> with the colour window, colour math and brightness, and the pixels it stores. The
  specification is the colour of a column: the stack of layers for the two screens, and channel by
  channel the sum or difference, halved or capped.
\<close>

section \<open>The screens\<close>

definition ClearBackdrop :: "u16 list" where
  "ClearBackdrop = replicate kPpuBufWidth 0x0500"

definition draw_bg :: "(int \<Rightarrow> bool \<Rightarrow> nat \<Rightarrow> u16 \<Rightarrow> u16 \<Rightarrow> renderer \<Rightarrow> renderer option)
    \<Rightarrow> (int \<Rightarrow> bool \<Rightarrow> nat \<Rightarrow> u16 \<Rightarrow> u16 \<Rightarrow> renderer \<Rightarrow> renderer option)
    \<Rightarrow> int \<Rightarrow> bool \<Rightarrow> nat \<Rightarrow> u16 \<Rightarrow> u16 \<Rightarrow> renderer \<Rightarrow> renderer option" where
  "draw_bg plain mosaic y sub layer zhi zlo rd =
     (if PPU_mosaicSize (rd_ppu rd) > 1 \<and> PPU_mosaicEnabled (rd_ppu rd) layer
      then mosaic y sub layer zhi zlo rd else plain y sub layer zhi zlo rd)"

definition PpuDrawBackgrounds :: "int \<Rightarrow> bool \<Rightarrow> renderer \<Rightarrow> renderer option" where
  "PpuDrawBackgrounds y sub rd =
     (if PPU_mode (rd_ppu rd) = 1 then do {
        rd \<leftarrow> (if rd_lineHasSprites rd then PpuDrawSprites y sub True rd else Some rd);
        rd \<leftarrow> draw_bg PpuDrawBackground_4bpp PpuDrawBackground_4bpp_mosaic y sub 0 0xc000 0x8000 rd;
        rd \<leftarrow> draw_bg PpuDrawBackground_4bpp PpuDrawBackground_4bpp_mosaic y sub 1 0xb100 0x7100 rd;
        let bg3prio = (if PPU_bg3priority (rd_ppu rd) then 0xf200 else 0x3200);
        draw_bg PpuDrawBackground_2bpp PpuDrawBackground_2bpp_mosaic y sub 2 bg3prio 0x1200 rd
      } else do {
        rd \<leftarrow> PpuDrawBackground_mode7 y sub 0x5000 rd;
        if rd_lineHasSprites rd then PpuDrawSprites y sub False rd else Some rd
      })"

section \<open>The pixels\<close>

text \<open>The store of bytes into the picture, and of a 32-bit pixel.\<close>

definition put_bytes :: "int \<Rightarrow> u8 list \<Rightarrow> u8 list \<Rightarrow> u8 list option" where
  "put_bytes dst bs out =
     (if 0 \<le> dst \<and> nat dst + length bs \<le> length out
      then Some (take (nat dst) out @ bs @ drop (nat dst + length bs) out) else None)"

definition pixel_le :: "u32 \<Rightarrow> u8 list" where
  "pixel_le p = [ucast p, ucast (drop_bit 8 p), ucast (drop_bit 16 p), ucast (drop_bit 24 p)]"

definition buf_at :: "u16 list \<Rightarrow> int \<Rightarrow> u16 option" where
  "buf_at buf i = (if 0 \<le> i \<and> i < int (length buf) then Some (buf ! nat i) else None)"

definition table_at :: "u8 list \<Rightarrow> u32 \<Rightarrow> u32 option" where
  "table_at t i = (if unat i < length t then Some (ucast (t ! unat i)) else None)"

definition rgb :: "u8 list \<Rightarrow> u32 \<Rightarrow> u32 \<Rightarrow> u32 \<Rightarrow> u32 option" where
  "rgb color_map r g b = do {
     r \<leftarrow> table_at color_map r;
     g \<leftarrow> table_at color_map g;
     b \<leftarrow> table_at color_map b;
     Some (push_bit 16 r OR push_bit 8 g OR b)
   }"

text \<open>The pixel of column \<open>i\<close> of the buffers without colour math, and with it.\<close>

definition plain_pixel :: "renderer \<Rightarrow> u32 \<Rightarrow> int \<Rightarrow> u32 option" where
  "plain_pixel rd clip_color_mask i = do {
     v \<leftarrow> buf_at (rd_bgBuffers rd ! 0) i;
     let color = (ucast (ppu_cgram (rd_ppu rd) (ucast v)) :: u32);
     rgb (rd_brightnessMult rd) (color AND clip_color_mask) (drop_bit 5 color AND clip_color_mask)
       (drop_bit 10 color AND clip_color_mask)
   }"

definition sub_or_zero :: "u32 \<Rightarrow> u32 \<Rightarrow> u32" where
  "sub_or_zero a b = (if a \<ge> b then a - b else 0)"

definition math_pixel :: "renderer \<Rightarrow> u32 \<Rightarrow> u32 \<Rightarrow> int \<Rightarrow> u32 option" where
  "math_pixel rd clip_color_mask math_enabled_cur i =
     (let ppu = rd_ppu rd; fixed_color = ucast (ppu_fixedColor ppu) :: u32;
          half_color_map = (if PPU_halfColor ppu then rd_brightnessMultHalf rd else rd_brightnessMult rd);
          math_enabled_cur = math_enabled_cur OR (if PPU_addSubscreen ppu then 0x100 else 0)
            OR (if PPU_subtractColor ppu then 0x200 else 0)
      in do {
        v \<leftarrow> buf_at (rd_bgBuffers rd ! 0) i;
        let color = (ucast (ppu_cgram ppu (ucast v)) :: u32);
        let main_layer = unat (drop_bit 8 v AND 0xf);
        let r = color AND clip_color_mask;
        let g = drop_bit 5 color AND clip_color_mask;
        let b = drop_bit 10 color AND clip_color_mask;
        if tst math_enabled_cur (push_bit main_layer 1) then do {
          (color2, color_map) \<leftarrow>
            (if tst math_enabled_cur 0x100 then do {
               s \<leftarrow> buf_at (rd_bgBuffers rd ! 1) i;
               Some (if s AND 0xff \<noteq> 0 then (ucast (ppu_cgram ppu (ucast s)), half_color_map)
                     else (fixed_color, rd_brightnessMult rd))
             } else Some (fixed_color, half_color_map));
          let r2 = color2 AND 0x1f;
          let g2 = drop_bit 5 color2 AND 0x1f;
          let b2 = drop_bit 10 color2 AND 0x1f;
          if tst math_enabled_cur 0x200
          then rgb color_map (sub_or_zero r r2) (sub_or_zero g g2) (sub_or_zero b b2)
          else rgb color_map (r + r2) (g + g2) (b + b2)
        } else rgb (rd_brightnessMult rd) r g b
      })"

text \<open>The pixels of a span of the colour window; bit 0 of \<open>cw\<close> keeps the colour, bit 8 allows math.\<close>

definition span_pixel :: "renderer \<Rightarrow> bool \<Rightarrow> u32 \<Rightarrow> int \<Rightarrow> u32 option" where
  "span_pixel rd rendered_subscreen cw =
     (let ppu = rd_ppu rd;
          clip_color_mask = (if tst cw 1 then 0x1f else 0);
          math_enabled_cur = (if tst cw 0x100 then ucast (PPU_mathEnabled ppu) else 0)
      in if math_enabled_cur = 0 \<or> ppu_fixedColor ppu = 0 \<and> \<not> PPU_halfColor ppu \<and> \<not> rendered_subscreen
         then plain_pixel rd clip_color_mask else math_pixel rd clip_color_mask math_enabled_cur)"

primrec pixel_run :: "nat \<Rightarrow> (int \<Rightarrow> u32 option) \<Rightarrow> int \<Rightarrow> int \<Rightarrow> u8 list \<Rightarrow> u8 list option" where
  "pixel_run 0 f i dst out = Some out"
| "pixel_run (Suc n) f i dst out = do {
     p \<leftarrow> f i;
     out \<leftarrow> put_bytes dst (pixel_le p) out;
     pixel_run n f (i + 1) (dst + 4) out
   }"

text \<open>The loop over the spans of the colour window; both loops run at least once.\<close>

primrec line_spans :: "nat \<Rightarrow> renderer \<Rightarrow> bool \<Rightarrow> ppu_windows \<Rightarrow> u32 \<Rightarrow> nat \<Rightarrow> int \<Rightarrow> u8 list \<Rightarrow> u8 list option" where
  "line_spans 0 rd rendered_subscreen cwin cw windex dst out = Some out"
| "line_spans (Suc k) rd rendered_subscreen cwin cw windex dst out =
     (let left = wn_edges cwin ! windex + 96; right = wn_edges cwin ! Suc windex + 96; n = max 1 (nat (right - left)) in do {
        out \<leftarrow> pixel_run n (span_pixel rd rendered_subscreen cw) left dst out;
        line_spans k rd rendered_subscreen cwin (drop_bit 1 cw) (Suc windex) (dst + 4 * int n) out
      })"

definition kCwBitsMod :: "u8 list" where
  "kCwBitsMod = [0x00, 0xff, 0xff, 0x00, 0xff, 0x00, 0xff, 0x00]"

definition cw_bits :: "u8 \<Rightarrow> u8 \<Rightarrow> u8" where
  "cw_bits bits mode = (bits AND kCwBitsMod ! unat mode) XOR kCwBitsMod ! (unat mode + 4)"

definition cw_clip_math :: "ppu \<Rightarrow> u8 \<Rightarrow> u32" where
  "cw_clip_math ppu bits = ucast (cw_bits bits (PPU_clipMode ppu)) OR push_bit 8 (ucast (cw_bits bits (PPU_preventMathMode ppu)))"

text \<open>The other screen, with whether it was drawn.\<close>

definition draw_subscreen :: "int \<Rightarrow> renderer \<Rightarrow> (bool \<times> renderer) option" where
  "draw_subscreen y rd =
     (let ppu = rd_ppu rd in
      if PPU_preventMathMode ppu \<noteq> 3 \<and> PPU_addSubscreen ppu \<and> PPU_mathEnabled ppu \<noteq> 0 then
        if ppu_screenEnabled ppu ! 1 \<noteq> 0 then do {
          rd \<leftarrow> PpuDrawBackgrounds y True (put_bg True ClearBackdrop rd);
          Some (True, rd)
        } else Some (False, put_bg True ClearBackdrop rd)
      else Some (False, rd))"

definition PpuDrawWholeLine :: "int \<Rightarrow> renderer \<Rightarrow> renderer option" where
  "PpuDrawWholeLine y rd =
     (let ppu = rd_ppu rd; dst = (y - 1) * int (rd_renderPitch rd) in
      if y < 1 then None
      else if PPU_forcedBlank ppu then do {
        out \<leftarrow> put_bytes dst (replicate (4 * (256 + unat (rd_extraLeftRight rd) * 2)) 0) (rd_renderBuffer rd);
        Some (rd\<lparr>rd_renderBuffer := out\<rparr>)
      } else do {
        rd \<leftarrow> PpuDrawBackgrounds y False (put_bg False ClearBackdrop rd);
        (rendered_subscreen, rd) \<leftarrow> draw_subscreen y rd;
        cwin \<leftarrow> PpuWindows_Calc rd 5 y;
        out \<leftarrow> line_spans (wn_nr cwin) rd rendered_subscreen cwin (cw_clip_math ppu (wn_bits cwin)) 0
          (dst + 4 * (uint (rd_extraLeftRight rd) - uint (rd_extraLeftCur rd))) (rd_renderBuffer rd);
        Some (rd\<lparr>rd_renderBuffer := out\<rparr>)
      })"

text \<open>The table of brightnesses, with 31 more entries in place of a cap, and the one for halved sums.\<close>

definition bright :: "u8 \<Rightarrow> nat \<Rightarrow> u8" where
  "bright brightness i = word_of_nat ((push_bit 3 i OR drop_bit 2 i) * unat brightness div 15)"

definition cache_brightness :: "renderer \<Rightarrow> renderer" where
  "cache_brightness rd =
     (let brightness = PPU_brightness (rd_ppu rd) in
      if brightness \<noteq> rd_lastBrightnessMult rd
      then rd\<lparr>rd_lastBrightnessMult := brightness,
              rd_brightnessMult := map (bright brightness) [0..<32] @ replicate 31 (bright brightness 31),
              rd_brightnessMultHalf := map (\<lambda>i. bright brightness (i div 2)) [0..<64]\<rparr>
      else rd)"

text \<open>The table of the first line or column of a block.\<close>

primrec mosaic_table :: "nat \<Rightarrow> int \<Rightarrow> nat \<Rightarrow> nat \<Rightarrow> u8 list" where
  "mosaic_table 0 m i j = []"
| "mosaic_table (Suc n) m i j = word_of_int (int i - int j) # mosaic_table n m (Suc i) (if int (Suc j) = m then 0 else Suc j)"

definition cache_mosaic :: "renderer \<Rightarrow> renderer" where
  "cache_mosaic rd =
     (let m = PPU_mosaicSize (rd_ppu rd) in
      if m \<noteq> uint (rd_lastMosaicModulo rd)
      then rd\<lparr>rd_lastMosaicModulo := word_of_int m, rd_mosaicModulo := mosaic_table 256 m 0 0\<rparr> else rd)"

section \<open>The stack of layers\<close>

lemma put_bg_simps [simp]:
  "rd_ppu (put_bg sub buf rd) = rd_ppu rd" "rd_objBuffer (put_bg sub buf rd) = rd_objBuffer rd"
  "rd_lineHasSprites (put_bg sub buf rd) = rd_lineHasSprites rd" "rd_renderBuffer (put_bg sub buf rd) = rd_renderBuffer rd"
  "rd_renderPitch (put_bg sub buf rd) = rd_renderPitch rd" "rd_extraLeftRight (put_bg sub buf rd) = rd_extraLeftRight rd"
  "rd_extraLeftCur (put_bg sub buf rd) = rd_extraLeftCur rd" "rd_extraRightCur (put_bg sub buf rd) = rd_extraRightCur rd"
  "rd_wsHudSplitHeight (put_bg sub buf rd) = rd_wsHudSplitHeight rd" "rd_wsHudLeftEnd (put_bg sub buf rd) = rd_wsHudLeftEnd rd"
  "rd_wsHudRightStart (put_bg sub buf rd) = rd_wsHudRightStart rd" "rd_wsBg3WidenY (put_bg sub buf rd) = rd_wsBg3WidenY rd"
  "rd_brightnessMult (put_bg sub buf rd) = rd_brightnessMult rd"
  "rd_brightnessMultHalf (put_bg sub buf rd) = rd_brightnessMultHalf rd"
  "rd_bgBuffers (put_bg sub buf rd) = (rd_bgBuffers rd)[of_bool sub := buf]"
  by (simp_all add: put_bg_def)

lemma put_bg_windows [simp]:
  "window_left (put_bg sub buf rd) = window_left rd" "window_right (put_bg sub buf rd) = window_right rd"
  "PpuWindows_Calc (put_bg sub buf rd) = PpuWindows_Calc rd" "layer_windows (put_bg sub buf rd) = layer_windows rd"
  "hud_active (put_bg sub buf rd) = hud_active rd" "hud_source (put_bg sub buf rd) = hud_source rd"
  "column_source (put_bg sub buf rd) = column_source rd"
proof -
  have w: "window_left (put_bg sub buf rd) = window_left rd" "window_right (put_bg sub buf rd) = window_right rd"
    by (simp_all add: fun_eq_iff window_left_def window_right_def PpuLayerExtra_def)
  have c: "PpuWindows_Calc (put_bg sub buf rd) = PpuWindows_Calc rd"
    unfolding fun_eq_iff PpuWindows_Calc_def w put_bg_simps by simp
  have l: "layer_windows (put_bg sub buf rd) = layer_windows rd"
    by (simp add: fun_eq_iff layer_windows_def c PpuWindows_Clear_def w)
  have h: "hud_active (put_bg sub buf rd) = hud_active rd" by (simp add: fun_eq_iff hud_active_def)
  have s: "hud_source (put_bg sub buf rd) = hud_source rd" by (simp add: fun_eq_iff hud_source_def)
  show "column_source (put_bg sub buf rd) = column_source rd"
    unfolding fun_eq_iff column_source_def w l h s put_bg_simps by simp
  show "window_left (put_bg sub buf rd) = window_left rd" "window_right (put_bg sub buf rd) = window_right rd"
    "PpuWindows_Calc (put_bg sub buf rd) = PpuWindows_Calc rd" "layer_windows (put_bg sub buf rd) = layer_windows rd"
    "hud_active (put_bg sub buf rd) = hud_active rd" "hud_source (put_bg sub buf rd) = hud_source rd"
    by (fact w c l h s)+
qed

text \<open>A screen changed column by column, and the layers as changes of a column.\<close>

definition shade :: "bool \<Rightarrow> (int \<Rightarrow> u16 \<Rightarrow> u16) \<Rightarrow> renderer \<Rightarrow> renderer" where
  "shade sub g rd = put_bg sub (cols (- 96) 352 g (rd_bgBuffers rd ! of_bool sub)) rd"

definition on_layer :: "renderer \<Rightarrow> bool \<Rightarrow> nat \<Rightarrow> int \<Rightarrow> (int \<Rightarrow> u16 \<Rightarrow> u16) \<Rightarrow> int \<Rightarrow> u16 \<Rightarrow> u16" where
  "on_layer rd sub layer y g x v =
     (if IS_SCREEN_ENABLED (rd_ppu rd) sub layer \<and> window_left rd layer y \<le> x \<and> x < window_right rd layer y
         \<and> \<not> layer_masked (rd_ppu rd) sub layer x then g x v else v)"

definition layer_row :: "ppu \<Rightarrow> nat \<Rightarrow> int \<Rightarrow> u16 \<Rightarrow> u16 \<Rightarrow> bg_line" where
  "layer_row ppu layer y zhi zlo = bg_line_of ppu layer (y + uint (ppu_vScroll ppu ! layer)) zhi zlo"

definition tiles_4bpp :: "renderer \<Rightarrow> nat \<Rightarrow> int \<Rightarrow> u16 \<Rightarrow> u16 \<Rightarrow> int \<Rightarrow> u16 \<Rightarrow> u16" where
  "tiles_4bpp rd layer y zhi zlo x =
     bg_column bpp4 (layer_row (rd_ppu rd) layer y zhi zlo) (rd_ppu rd) (x + uint (ppu_hScroll (rd_ppu rd) ! layer))"

definition tiles_2bpp :: "renderer \<Rightarrow> bool \<Rightarrow> nat \<Rightarrow> int \<Rightarrow> u16 \<Rightarrow> u16 \<Rightarrow> int \<Rightarrow> u16 \<Rightarrow> u16" where
  "tiles_2bpp rd sub layer y zhi zlo x v =
     (if IS_SCREEN_ENABLED (rd_ppu rd) sub layer \<and> - uint (rd_extraLeftCur rd) \<le> x \<and> x < 256 + uint (rd_extraRightCur rd)
      then case column_source rd sub layer y x of
             None \<Rightarrow> v
           | Some x' \<Rightarrow> bg_column bpp2 (layer_row (rd_ppu rd) layer y zhi zlo) (rd_ppu rd) (x' + uint (ppu_hScroll (rd_ppu rd) ! layer)) v
      else v)"

lemma put_bg_id: "renderer_ok rd \<Longrightarrow> put_bg sub (rd_bgBuffers rd ! of_bool sub) rd = rd"
  by (simp add: put_bg_def)

lemma shade_id: "renderer_ok rd \<Longrightarrow> (\<And>x v. g x v = v) \<Longrightarrow> shade sub g rd = rd"
  by (simp add: shade_def cols_id put_bg_id)

lemma shade_ok: "renderer_ok rd \<Longrightarrow> renderer_ok (shade sub g rd)"
  by (simp add: shade_def renderer_ok_put_bg renderer_ok_buf)

lemma shade_shade:
  assumes "renderer_ok rd"
  shows "shade sub h (shade sub g rd) = shade sub (\<lambda>x v. h x (g x v)) rd"
proof -
  have "of_bool sub < length (rd_bgBuffers rd)" using assms by (simp add: renderer_ok_def)
  then have "rd_bgBuffers (shade sub g rd) ! of_bool sub = cols (- 96) 352 g (rd_bgBuffers rd ! of_bool sub)"
    by (simp add: shade_def)
  moreover have "cols a b h (cols a b g buf) = cols a b (\<lambda>x v. h x (g x v)) buf" for a b buf
    by (rule nth_equalityI) (simp_all add: nth_cols)
  ultimately show ?thesis by (simp add: shade_def [of sub h] shade_def [of sub "\<lambda>x v. h x (g x v)"]) (simp add: shade_def put_bg_def)
qed

lemma shade_on_layer:
  assumes "renderer_ok rd" "IS_SCREEN_ENABLED (rd_ppu rd) sub layer"
  shows "put_bg sub (cols (window_left rd layer y) (window_right rd layer y)
      (\<lambda>x v. if layer_masked (rd_ppu rd) sub layer x then v else g x v) (rd_bgBuffers rd ! of_bool sub)) rd
    = shade sub (on_layer rd sub layer y g) rd"
  unfolding shade_def cols_widen [OF window_in_buffer [OF assms(1)]]
  using assms(2) by (intro arg_cong [where f = "\<lambda>b. put_bg sub b rd"] cols_cong) (auto simp: on_layer_def)

lemma sprites_shade:
  assumes "renderer_ok rd"
  shows "PpuDrawSprites y sub cb rd = Some (shade sub (on_layer rd sub 4 y (sprite_column cb (rd_objBuffer rd))) rd)"
proof (cases "IS_SCREEN_ENABLED (rd_ppu rd) sub 4")
  case True
  then show ?thesis using draw_sprites [OF assms True] shade_on_layer [OF assms True] by simp
next
  case False
  then show ?thesis using shade_id [OF assms] by (simp add: PpuDrawSprites_def on_layer_def)
qed

lemma tiles_4bpp_shade:
  assumes "renderer_ok rd"
  shows "PpuDrawBackground_4bpp y sub layer zhi zlo rd = Some (shade sub (on_layer rd sub layer y (tiles_4bpp rd layer y zhi zlo)) rd)"
proof (cases "IS_SCREEN_ENABLED (rd_ppu rd) sub layer")
  case True
  show ?thesis
    unfolding draw_4bpp [OF assms True] shade_on_layer [OF assms True, symmetric] tiles_4bpp_def layer_row_def Let_def
    by (rule refl)
next
  case False
  then show ?thesis using shade_id [OF assms] by (simp add: PpuDrawBackground_4bpp_def on_layer_def)
qed

lemma tiles_2bpp_shade:
  assumes "renderer_ok rd" "0 \<le> y"
  shows "PpuDrawBackground_2bpp y sub layer zhi zlo rd = Some (shade sub (tiles_2bpp rd sub layer y zhi zlo) rd)"
proof (cases "IS_SCREEN_ENABLED (rd_ppu rd) sub layer")
  case True
  have "cols (- uint (rd_extraLeftCur rd)) (256 + uint (rd_extraRightCur rd)) (\<lambda>x v. case column_source rd sub layer y x of None \<Rightarrow> v
        | Some x' \<Rightarrow> bg_column bpp2 (layer_row (rd_ppu rd) layer y zhi zlo) (rd_ppu rd) (x' + uint (ppu_hScroll (rd_ppu rd) ! layer)) v) buf
      = cols (- 96) 352 (tiles_2bpp rd sub layer y zhi zlo) buf" for buf
    using renderer_ok_extra [OF assms(1)] True
    by (subst cols_widen [of "- 96" _ _ 352]) (auto simp: tiles_2bpp_def intro!: cols_cong)
  then show ?thesis
    unfolding draw_2bpp [OF assms(1) True assms(2)] shade_def Let_def layer_row_def by simp
next
  case False
  then show ?thesis
    using shade_id [OF assms(1)] by (simp add: PpuDrawBackground_2bpp_def tiles_2bpp_def)
qed

lemma mode7_shade:
  assumes "renderer_ok rd" "\<not> PPU_mosaicEnabled (rd_ppu rd) 0"
  shows "PpuDrawBackground_mode7 y sub z rd = Some (shade sub (on_layer rd sub 0 y (m7_column (rd_ppu rd) z y)) rd)"
proof (cases "IS_SCREEN_ENABLED (rd_ppu rd) sub 0")
  case True
  then show ?thesis using draw_mode7 [OF assms(1) True assms(2)] shade_on_layer [OF assms(1) True] by simp
next
  case False
  then show ?thesis using shade_id [OF assms(1)] by (simp add: PpuDrawBackground_mode7_def on_layer_def)
qed

text \<open>A screen: what the stack of layers leaves in a column, from the backdrop on.\<close>

definition objects :: "renderer \<Rightarrow> bool \<Rightarrow> int \<Rightarrow> bool \<Rightarrow> int \<Rightarrow> u16 \<Rightarrow> u16" where
  "objects rd sub y cb x v =
     (if rd_lineHasSprites rd then on_layer rd sub 4 y (sprite_column cb (rd_objBuffer rd)) x v else v)"

definition bg3prio :: "ppu \<Rightarrow> u16" where
  "bg3prio ppu = (if PPU_bg3priority ppu then 0xf200 else 0x3200)"

definition stack :: "renderer \<Rightarrow> bool \<Rightarrow> int \<Rightarrow> int \<Rightarrow> u16 \<Rightarrow> u16" where
  "stack rd sub y x v =
     (if PPU_mode (rd_ppu rd) = 1 then
        let v = objects rd sub y True x v;
            v = on_layer rd sub 0 y (tiles_4bpp rd 0 y 0xc000 0x8000) x v;
            v = on_layer rd sub 1 y (tiles_4bpp rd 1 y 0xb100 0x7100) x v
        in tiles_2bpp rd sub 2 y (bg3prio (rd_ppu rd)) 0x1200 x v
      else objects rd sub y False x (on_layer rd sub 0 y (m7_column (rd_ppu rd) 0x5000 y) x v))"

definition no_mosaic :: "ppu \<Rightarrow> bool" where
  "no_mosaic ppu \<longleftrightarrow> (if PPU_mode ppu = 1 then PPU_mosaicSize ppu = 1 \<or> (\<forall>layer\<in>{0,1,2}. \<not> PPU_mosaicEnabled ppu layer)
     else \<not> PPU_mosaicEnabled ppu 0)"

lemma objects_shade:
  assumes "renderer_ok rd"
  shows "(if rd_lineHasSprites rd then PpuDrawSprites y sub cb rd else Some rd) = Some (shade sub (objects rd sub y cb) rd)"
  using sprites_shade [OF assms] shade_id [OF assms] by (simp add: objects_def [abs_def])

lemma shade_fns:
  "rd_ppu (shade s g rd) = rd_ppu rd" "on_layer (shade s g rd) = on_layer rd" "tiles_4bpp (shade s g rd) = tiles_4bpp rd"
  "tiles_2bpp (shade s g rd) = tiles_2bpp rd" "objects (shade s g rd) = objects rd" "rd_lineHasSprites (shade s g rd) = rd_lineHasSprites rd"
proof -
  show o: "on_layer (shade s g rd) = on_layer rd" unfolding fun_eq_iff on_layer_def shade_def put_bg_simps put_bg_windows by simp
  show "tiles_4bpp (shade s g rd) = tiles_4bpp rd" by (simp add: fun_eq_iff tiles_4bpp_def shade_def)
  show "tiles_2bpp (shade s g rd) = tiles_2bpp rd" unfolding fun_eq_iff tiles_2bpp_def shade_def put_bg_simps put_bg_windows by simp
  show "objects (shade s g rd) = objects rd" unfolding fun_eq_iff objects_def o by (simp add: shade_def)
qed (simp_all add: shade_def)

theorem backgrounds_shade:
  assumes "renderer_ok rd" "0 \<le> y" "no_mosaic (rd_ppu rd)"
  shows "PpuDrawBackgrounds y sub rd = Some (shade sub (stack rd sub y) rd)"
proof (cases "PPU_mode (rd_ppu rd) = 1")
  case True
  have plain: "draw_bg f g y sub layer zhi zlo rd' = f y sub layer zhi zlo rd'"
    if "rd_ppu rd' = rd_ppu rd" "layer \<in> {0, 1, 2}" for f g layer zhi zlo rd'
    using assms(3) True that by (auto simp: draw_bg_def no_mosaic_def)
  show ?thesis
    unfolding PpuDrawBackgrounds_def if_P [OF True] objects_shade [OF assms(1)] bind.bind_lunit Let_def
    by (simp add: plain shade_fns tiles_4bpp_shade tiles_2bpp_shade shade_ok shade_shade assms(1,2) stack_def [abs_def] True bg3prio_def Let_def)
next
  case False
  then show ?thesis
    using mode7_shade [OF assms(1)] assms(3) objects_shade [OF shade_ok [OF assms(1)]]
    unfolding PpuDrawBackgrounds_def
    by (simp add: shade_fns no_mosaic_def shade_shade assms(1) stack_def [abs_def])
qed

section \<open>The colour of a column\<close>

definition chan :: "nat \<Rightarrow> u16 \<Rightarrow> nat" where
  "chan k color = unat (drop_bit (5 * k) color AND 0x1f)"

definition blend :: "bool \<Rightarrow> bool \<Rightarrow> nat \<Rightarrow> nat \<Rightarrow> nat" where
  "blend subtract half a b = (let s = (if subtract then a - b else a + b) in if half then s div 2 else min 31 s)"

definition layer_of :: "u16 \<Rightarrow> nat" where
  "layer_of v = unat (drop_bit 8 v AND 0xf)"

text \<open>The second operand of colour math with whether the result is halved: the other screen, or the fixed colour.\<close>

definition math_operand :: "ppu \<Rightarrow> u16 \<Rightarrow> u16 \<times> bool" where
  "math_operand ppu s =
     (if PPU_addSubscreen ppu \<and> s AND 0xff \<noteq> 0 then (ppu_cgram ppu (ucast s), PPU_halfColor ppu)
      else (ppu_fixedColor ppu, \<not> PPU_addSubscreen ppu \<and> PPU_halfColor ppu))"

definition shown :: "ppu \<Rightarrow> bool \<Rightarrow> bool \<Rightarrow> u16 \<Rightarrow> u16 \<Rightarrow> nat \<Rightarrow> nat" where
  "shown ppu keep math m s k =
     (let a = (if keep then chan k (ppu_cgram ppu (ucast m)) else 0) in
      if math \<and> bit (PPU_mathEnabled ppu) (layer_of m)
      then case math_operand ppu s of (c2, half) \<Rightarrow> blend (PPU_subtractColor ppu) half a (chan k c2) else a)"

definition pixel_bytes :: "ppu \<Rightarrow> bool \<Rightarrow> bool \<Rightarrow> u16 \<Rightarrow> u16 \<Rightarrow> u8 list" where
  "pixel_bytes ppu keep math m s =
     map (\<lambda>k. bright (PPU_brightness ppu) (shown ppu keep math m s k)) [2, 1, 0] @ [0]"

definition tables_ok :: "renderer \<Rightarrow> bool" where
  "tables_ok rd \<longleftrightarrow> (let b = PPU_brightness (rd_ppu rd) in
     rd_brightnessMult rd = map (bright b) [0..<32] @ replicate 31 (bright b 31)
     \<and> rd_brightnessMultHalf rd = map (\<lambda>i. bright b (i div 2)) [0..<64])"

lemma chan_less: "chan k c < 32"
proof -
  have "drop_bit (5 * k) c AND 0x1f = take_bit 5 (drop_bit (5 * k) c)" by (simp add: take_bit_eq_mask mask_eq_exp_minus_1)
  then show ?thesis
    using take_bit_nat_less_exp [of 5 "unat (drop_bit (5 * k) c)"] by (simp add: chan_def unsigned_take_bit_eq)
qed

lemma unat_ucast_u32: "unat (ucast (w :: u16) :: u32) = unat w"
  using unsigned_less [of w, where 'a = nat] by (simp add: unsigned_ucast_eq take_bit_nat_eq_self)

lemma chan_word: "unat (drop_bit (5 * k) (ucast c :: u32) AND 0x1f) = chan k c"
proof -
  have "drop_bit (5 * k) (ucast c :: u32) AND 0x1f = ucast (drop_bit (5 * k) c AND 0x1f)"
    by (rule bit_word_eqI) (auto simp: bit_simps dest: bit_imp_le_length)
  then show ?thesis by (simp only: chan_def unat_ucast_u32)
qed

lemma le32_rgb:
  fixes r g b :: u8
  shows "pixel_le (push_bit 16 (ucast r) OR push_bit 8 (ucast g) OR ucast b) = [b, g, r, 0]"
proof -
  let ?p = "push_bit 16 (ucast r) OR push_bit 8 (ucast g) OR ucast b :: u32"
  have "(ucast ?p :: u8) = b" "(ucast (drop_bit 8 ?p) :: u8) = g" "(ucast (drop_bit 16 ?p) :: u8) = r" "(ucast (drop_bit 24 ?p) :: u8) = 0"
    by (rule bit_word_eqI; auto simp: bit_simps dest: bit_imp_le_length)+
  then show ?thesis by (simp add: pixel_le_def)
qed

lemma table_mult:
  assumes "tables_ok rd" "n \<le> 62"
  shows "n < length (rd_brightnessMult rd) \<and> rd_brightnessMult rd ! n = bright (PPU_brightness (rd_ppu rd)) (min 31 n)"
proof (cases "n < 32")
  case True
  then show ?thesis using assms by (simp add: tables_ok_def Let_def nth_append)
next
  case False
  then have "min 31 n = 31" "n - 32 < 31" using assms(2) by auto
  with False show ?thesis using assms by (simp add: tables_ok_def Let_def nth_append)
qed

lemma table_half:
  assumes "tables_ok rd" "n \<le> 62"
  shows "n < length (rd_brightnessMultHalf rd) \<and> rd_brightnessMultHalf rd ! n = bright (PPU_brightness (rd_ppu rd)) (n div 2)"
  using assms by (simp add: tables_ok_def Let_def)

lemma chan_words:
  "unat ((ucast c :: u32) AND 0x1f) = chan 0 c" "unat (drop_bit 5 (ucast c :: u32) AND 0x1f) = chan (Suc 0) c"
  "unat (drop_bit 10 (ucast c :: u32) AND 0x1f) = chan 2 c"
  using chan_word [of 0 c] chan_word [of 1 c] chan_word [of 2 c] by simp_all

text \<open>Three channels through the table for plain or halved sums.\<close>

lemma rgb_bytes:
  fixes r g b :: u32
  assumes "tables_ok rd" "unat r \<le> 62" "unat g \<le> 62" "unat b \<le> 62"
  shows "\<exists>p. rgb (if half then rd_brightnessMultHalf rd else rd_brightnessMult rd) r g b = Some p
    \<and> pixel_le p = map (\<lambda>n. bright (PPU_brightness (rd_ppu rd)) (if half then n div 2 else min 31 n)) [unat b, unat g, unat r] @ [0]"
  using table_mult [OF assms(1)] table_half [OF assms(1)] assms(2-)
  by (cases half) (simp_all add: rgb_def table_at_def le32_rgb)

definition kept :: "bool \<Rightarrow> nat \<Rightarrow> u16 \<Rightarrow> nat" where
  "kept keep k c = (if keep then chan k c else 0)"

lemma kept_words:
  "unat ((ucast c :: u32) AND (if keep then 0x1f else 0)) = kept keep 0 c"
  "unat (drop_bit 5 (ucast c :: u32) AND (if keep then 0x1f else 0)) = kept keep (Suc 0) c"
  "unat (drop_bit 10 (ucast c :: u32) AND (if keep then 0x1f else 0)) = kept keep 2 c"
  using chan_words [of c] by (cases keep; simp add: kept_def)+

lemma kept_less: "kept keep k c \<le> 31"
  using chan_less [of k c] by (simp add: kept_def)

lemma shown_plain: "shown ppu keep False m s k = kept keep k (ppu_cgram ppu (ucast m))"
  by (simp add: shown_def kept_def Let_def)

lemma plain_pixel_bytes:
  assumes "tables_ok rd" "buf_at (rd_bgBuffers rd ! 0) i = Some m"
  shows "\<exists>p. plain_pixel rd (if keep then 0x1f else 0) i = Some p \<and> pixel_le p = pixel_bytes (rd_ppu rd) keep False m s"
proof -
  let ?c = "ppu_cgram (rd_ppu rd) (ucast m)" and ?mask = "if keep then 0x1f else 0 :: u32"
  have small: "kept keep k ?c \<le> 62" "min 31 (kept keep k ?c) = kept keep k ?c" for k using kept_less [of keep k ?c] by simp_all
  show ?thesis
    using rgb_bytes [OF assms(1), of "(ucast ?c :: u32) AND ?mask" "drop_bit 5 (ucast ?c :: u32) AND ?mask" "drop_bit 10 (ucast ?c :: u32) AND ?mask" False]
      assms(2)
    unfolding kept_words plain_pixel_def pixel_bytes_def shown_plain Let_def by (simp add: small)
qed

lemma sub_or_zero_nat: "unat (sub_or_zero a b) = unat a - unat b"
  by (simp add: sub_or_zero_def unat_sub word_le_nat_alt)

lemma rgb_blend:
  fixes r g b r2 g2 b2 :: u32 and half subtract :: bool
  assumes "tables_ok rd" "unat r \<le> 31" "unat g \<le> 31" "unat b \<le> 31" "unat r2 \<le> 31" "unat g2 \<le> 31" "unat b2 \<le> 31"
  defines "t \<equiv> (if half then rd_brightnessMultHalf rd else rd_brightnessMult rd)" and "B \<equiv> PPU_brightness (rd_ppu rd)"
  shows "\<exists>p. (if subtract then rgb t (sub_or_zero r r2) (sub_or_zero g g2) (sub_or_zero b b2) else rgb t (r + r2) (g + g2) (b + b2)) = Some p
    \<and> pixel_le p = [bright B (blend subtract half (unat b) (unat b2)), bright B (blend subtract half (unat g) (unat g2)),
        bright B (blend subtract half (unat r) (unat r2)), 0]"
proof -
  have sum: "unat (x + y) = unat x + unat y" if "unat x \<le> 31" "unat y \<le> 31" for x y :: u32
    using that by (simp add: unat_word_ariths)
  have diff: "unat x - unat y \<le> 62" if "unat x \<le> 31" for x y :: u32 using that by simp
  show ?thesis
    using rgb_bytes [OF assms(1), of "sub_or_zero r r2" "sub_or_zero g g2" "sub_or_zero b b2" half]
      rgb_bytes [OF assms(1), of "r + r2" "g + g2" "b + b2" half] assms(2-7)
    unfolding t_def B_def
    by (cases subtract; cases half) (simp_all add: sub_or_zero_nat sum diff blend_def)
qed

lemma math_pixel_bytes:
  assumes "tables_ok rd" "buf_at (rd_bgBuffers rd ! 0) i = Some m" "buf_at (rd_bgBuffers rd ! 1) i = Some s" "layer_of m < 8"
  shows "\<exists>p. math_pixel rd (if keep then 0x1f else 0) (ucast (PPU_mathEnabled (rd_ppu rd))) i = Some p
    \<and> pixel_le p = pixel_bytes (rd_ppu rd) keep True m s"
proof -
  let ?ppu = "rd_ppu rd" let ?me = "ucast (PPU_mathEnabled ?ppu) :: u32"
  define flags where "flags = ?me OR (if PPU_addSubscreen ?ppu then 0x100 else 0) OR (if PPU_subtractColor ?ppu then 0x200 else 0)"
  have pow: "bit (0x100 :: u32) n \<longleftrightarrow> n = 8" "bit (0x200 :: u32) n \<longleftrightarrow> n = 9" for n
    using bit_push_of_bool [of 8 True n, where 'a = 32] bit_push_of_bool [of 9 True n, where 'a = 32] by simp_all
  have me: "bit ?me n \<longleftrightarrow> bit (PPU_mathEnabled ?ppu) n" "n = 8 \<or> n = 9 \<Longrightarrow> \<not> bit (PPU_mathEnabled ?ppu) n" for n
    by (auto simp: bit_simps dest: bit_imp_le_length)
  have fb: "bit flags n \<longleftrightarrow> bit (PPU_mathEnabled ?ppu) n \<or> PPU_addSubscreen ?ppu \<and> n = 8 \<or> PPU_subtractColor ?ppu \<and> n = 9" for n
    unfolding flags_def bit_or_iff me
    by (cases "PPU_addSubscreen ?ppu"; cases "PPU_subtractColor ?ppu") (simp_all only: if_True if_False pow bit_0_eq bot_apply bot_bool_def simp_thms)
  have f: "tst flags (push_bit (layer_of m) 1) = bit (PPU_mathEnabled ?ppu) (layer_of m)"
      "tst flags 0x100 = PPU_addSubscreen ?ppu" "tst flags 0x200 = PPU_subtractColor ?ppu"
    using assms(4) tst_bit [of flags 8] tst_bit [of flags 9] tst_bit [of flags "layer_of m"] me(2) [of 8] me(2) [of 9] by (auto simp: fb)
  obtain c2 half where op: "math_operand ?ppu s = (c2, half)" by fastforce
  have sel: "(if PPU_addSubscreen ?ppu then do {
        s \<leftarrow> buf_at (rd_bgBuffers rd ! 1) i;
        Some (if s AND 0xff \<noteq> 0 then (ucast (ppu_cgram ?ppu (ucast s)), if PPU_halfColor ?ppu then rd_brightnessMultHalf rd else rd_brightnessMult rd)
              else (ucast (ppu_fixedColor ?ppu), rd_brightnessMult rd)) }
      else Some (ucast (ppu_fixedColor ?ppu), if PPU_halfColor ?ppu then rd_brightnessMultHalf rd else rd_brightnessMult rd))
    = Some (ucast c2 :: u32, if half then rd_brightnessMultHalf rd else rd_brightnessMult rd)"
    using op assms(3) by (auto simp: math_operand_def split: if_splits)
  let ?c = "ppu_cgram ?ppu (ucast m)" and ?mask = "if keep then 0x1f else 0 :: u32"
  have small: "kept keep k ?c \<le> 31" "chan k c2 \<le> 31" for k using kept_less [of keep k ?c] chan_less [of k c2] by simp_all
  let ?r = "(ucast ?c :: u32) AND ?mask" and ?g = "drop_bit 5 (ucast ?c :: u32) AND ?mask" and ?b = "drop_bit 10 (ucast ?c :: u32) AND ?mask"
  let ?r2 = "(ucast c2 :: u32) AND 0x1f" and ?g2 = "drop_bit 5 (ucast c2 :: u32) AND 0x1f" and ?b2 = "drop_bit 10 (ucast c2 :: u32) AND 0x1f"
  have eq: "math_pixel rd ?mask ?me i =
      (if bit (PPU_mathEnabled ?ppu) (layer_of m) then
         if PPU_subtractColor ?ppu
         then rgb (if half then rd_brightnessMultHalf rd else rd_brightnessMult rd) (sub_or_zero ?r ?r2) (sub_or_zero ?g ?g2) (sub_or_zero ?b ?b2)
         else rgb (if half then rd_brightnessMultHalf rd else rd_brightnessMult rd) (?r + ?r2) (?g + ?g2) (?b + ?b2)
       else rgb (rd_brightnessMult rd) ?r ?g ?b)"
    unfolding math_pixel_def Let_def flags_def [symmetric] assms(2) bind.bind_lunit layer_of_def [symmetric] f sel by simp
  show ?thesis
  proof (cases "bit (PPU_mathEnabled ?ppu) (layer_of m)")
    case True
    have pb: "pixel_bytes ?ppu keep True m s =
        map (\<lambda>k. bright (PPU_brightness ?ppu) (blend (PPU_subtractColor ?ppu) half (kept keep k ?c) (chan k c2))) [2, 1, 0] @ [0]"
      using True op by (simp add: pixel_bytes_def shown_def kept_def Let_def)
    show ?thesis
      using rgb_blend [OF assms(1), of ?r ?g ?b ?r2 ?g2 ?b2 "PPU_subtractColor ?ppu" half] small
      unfolding eq pb if_P [OF True] kept_words chan_words One_nat_def list.map append_Cons append_Nil by blast
  next
    case False
    have "min 31 (kept keep k ?c) = kept keep k ?c" "kept keep k ?c \<le> 62" for k using small [of k] by simp_all
    then show ?thesis
      using rgb_bytes [OF assms(1), of ?r ?g ?b False] False
      unfolding eq if_not_P [OF False] kept_words pixel_bytes_def by (simp add: shown_def kept_def [symmetric] Let_def)
  qed
qed

text \<open>A span: whether it takes the short cut or not, each pixel is the colour of its column. The other
  screen, when it was not drawn, shows the backdrop.\<close>

lemma span_pixel_bytes:
  assumes "tables_ok rd" "buf_at (rd_bgBuffers rd ! 0) i = Some m" "buf_at (rd_bgBuffers rd ! 1) i = Some s" "layer_of m < 8"
    and "\<not> rendered \<Longrightarrow> tst cw 0x100 \<Longrightarrow> PPU_mathEnabled (rd_ppu rd) \<noteq> 0 \<Longrightarrow> PPU_addSubscreen (rd_ppu rd) \<Longrightarrow> s AND 0xff = 0"
  shows "\<exists>p. span_pixel rd rendered cw i = Some p \<and> pixel_le p = pixel_bytes (rd_ppu rd) (tst cw 1) (tst cw 0x100) m s"
proof -
  let ?ppu = "rd_ppu rd"
  consider "\<not> tst cw 0x100 \<or> PPU_mathEnabled ?ppu = 0"
    | "tst cw 0x100" "PPU_mathEnabled ?ppu \<noteq> 0" "ppu_fixedColor ?ppu = 0" "\<not> PPU_halfColor ?ppu" "\<not> rendered"
    | "tst cw 0x100" "PPU_mathEnabled ?ppu \<noteq> 0" "\<not> (ppu_fixedColor ?ppu = 0 \<and> \<not> PPU_halfColor ?ppu \<and> \<not> rendered)" by blast
  then show ?thesis
  proof cases
    case 1
    then have "pixel_bytes ?ppu (tst cw 1) (tst cw 0x100) m s = pixel_bytes ?ppu (tst cw 1) False m s"
      by (auto simp: pixel_bytes_def shown_def Let_def)
    moreover have "span_pixel rd rendered cw = plain_pixel rd (if tst cw 1 then 0x1f else 0)"
      using 1 by (auto simp: span_pixel_def Let_def)
    ultimately show ?thesis using plain_pixel_bytes [OF assms(1,2), of "tst cw 1" s] by simp
  next
    case 2
    have "chan k 0 = 0" for k by (simp add: chan_def)
    then have "shown ?ppu (tst cw 1) True m s k = shown ?ppu (tst cw 1) False m s k" for k
      using 2 assms(5) chan_less [of k "ppu_cgram ?ppu (ucast m)"] by (auto simp: shown_def math_operand_def blend_def Let_def)
    then have "pixel_bytes ?ppu (tst cw 1) (tst cw 0x100) m s = pixel_bytes ?ppu (tst cw 1) False m s"
      using 2 by (simp add: pixel_bytes_def)
    moreover have "span_pixel rd rendered cw = plain_pixel rd (if tst cw 1 then 0x1f else 0)"
      using 2 by (simp add: span_pixel_def Let_def)
    ultimately show ?thesis using plain_pixel_bytes [OF assms(1,2), of "tst cw 1" s] by simp
  next
    case 3
    have "ucast (PPU_mathEnabled ?ppu) \<noteq> (0 :: u32)" using 3(2) by (simp add: word_unat_eq_iff)
    then have "span_pixel rd rendered cw = math_pixel rd (if tst cw 1 then 0x1f else 0) (ucast (PPU_mathEnabled ?ppu))"
      using 3 by (auto simp: span_pixel_def Let_def)
    then show ?thesis using math_pixel_bytes [OF assms(1-4)] 3(1) by simp
  qed
qed

text \<open>A run of pixels stores the bytes of its columns one after the other.\<close>

lemma put_bytes_append:
  "put_bytes dst (xs @ ys) out = do { out \<leftarrow> put_bytes dst xs out; put_bytes (dst + int (length xs)) ys out }"
  by (auto simp: put_bytes_def nat_add_distrib ac_simps)

lemma pixel_run_bytes:
  assumes "\<And>i. a \<le> i \<Longrightarrow> i < a + int n \<Longrightarrow> \<exists>p. f i = Some p \<and> pixel_le p = g i"
    and "0 \<le> dst" "nat dst + 4 * n \<le> length out"
  shows "pixel_run n f a dst out = put_bytes dst (concat (map (\<lambda>k. g (a + int k)) [0..<n])) out"
  using assms
proof (induction n arbitrary: a dst out)
  case 0
  then show ?case by (simp add: put_bytes_def)
next
  case (Suc n)
  obtain p where p: "f a = Some p" "pixel_le p = g a" using Suc.prems(1) [of a] by auto
  obtain out' where o: "put_bytes dst (g a) out = Some out'" "length out' = length out"
  proof -
    have "length (g a) = 4" unfolding p(2) [symmetric] by (simp add: pixel_le_def)
    then show thesis using Suc.prems(2,3) that by (simp add: put_bytes_def)
  qed
  have "map (\<lambda>k. g (a + int k)) [0..<Suc n] = g a # map (\<lambda>k. g (a + 1 + int k)) [0..<n]"
    by (simp add: upt_conv_Cons map_Suc_upt [symmetric] o_def algebra_simps del: upt_Suc)
  moreover have "pixel_run n f (a + 1) (dst + 4) out' = put_bytes (dst + 4) (concat (map (\<lambda>k. g (a + 1 + int k)) [0..<n])) out'"
    using Suc.prems o(2) by (intro Suc.IH) (auto simp: nat_add_distrib)
  moreover have "length (g a) = 4" unfolding p(2) [symmetric] by (simp add: pixel_le_def)
  ultimately show ?case using p o by (simp add: put_bytes_append del: upt_Suc)
qed

end
