(* ===== verification/Ppu_Cells.thy ===== *)
theory Ppu_Cells
  imports Ppu_Line
begin

text \<open>
  The values of the priority buffers as cells: a priority, a layer and a colour index. The comparisons
  of the renderer on whole 16-bit values are comparisons of priorities, because no two sources of a
  screen share one. From this follows what a column of a screen shows, and what \<open>PpuDrawWholeLine\<close>
  stores for it.
\<close>

section \<open>Cells\<close>

definition cell :: "nat \<Rightarrow> nat \<Rightarrow> nat \<Rightarrow> u16" where
  "cell p l c = word_of_nat (p * 4096 + l * 256 + c)"

lemma unat_cell: "p < 16 \<Longrightarrow> l < 16 \<Longrightarrow> c < 256 \<Longrightarrow> unat (cell p l c) = p * 4096 + l * 256 + c"
  by (simp add: cell_def unat_of_nat del: of_nat_add of_nat_mult)

lemma cell_add: "c + unat w < 256 \<Longrightarrow> cell p l c + w = cell p l (c + unat w)"
  by (simp add: cell_def)

lemma cell_less:
  assumes "p < 16" "l < 16" "c < 256" "p' < 16" "l' < 16" "c' < 256" "p \<noteq> p'"
  shows "cell p l c < cell p' l' c' \<longleftrightarrow> p < p'"
  using assms by (simp add: word_less_nat_alt unat_cell) linarith

lemma cell_layer: "p < 16 \<Longrightarrow> l < 16 \<Longrightarrow> c < 256 \<Longrightarrow> layer_of (cell p l c) = l"
proof -
  assume a: "p < 16" "l < 16" "c < 256"
  have "unat (drop_bit 8 (cell p l c) AND 0xf) = unat (take_bit 4 (drop_bit 8 (cell p l c)))"
    by (simp add: take_bit_eq_mask mask_eq_exp_minus_1)
  also have "\<dots> = (p * 4096 + l * 256 + c) div 256 mod 16"
    using a unfolding unsigned_take_bit_eq unsigned_drop_bit_eq by (simp add: unat_cell take_bit_eq_mod drop_bit_eq_div)
  also have "(p * 4096 + l * 256 + c) div 256 = p * 16 + l"
    using a div_mult_self1 [of 256 c "p * 16 + l"] by (simp add: algebra_simps)
  also have "(p * 16 + l) mod 16 = l" using a by simp
  finally show ?thesis by (simp add: layer_of_def)
qed

lemma cell_colour:
  assumes "p < 16" "l < 16" "c < 256"
  shows "(ucast (cell p l c) :: u8) = word_of_nat c" "cell p l c AND 0xff = 0 \<longleftrightarrow> c = 0" "unat (cell p l c AND 0xff) = c"
proof -
  have "(p * 4096 + l * 256 + c) mod 256 = c"
    using assms mod_mult_self1 [of c "p * 16 + l" 256] by (simp add: algebra_simps)
  then have t: "unat (take_bit 8 (cell p l c)) = c"
    using assms unfolding unsigned_take_bit_eq by (simp add: unat_cell take_bit_eq_mod)
  show m: "unat (cell p l c AND 0xff) = c" using t by (simp add: take_bit_eq_mask mask_eq_exp_minus_1)
  show "cell p l c AND 0xff = 0 \<longleftrightarrow> c = 0" using m by (simp add: word_unat_eq_iff)
  have "unat (ucast (cell p l c) :: u8) = c" using t by (simp add: unsigned_ucast_eq unsigned_take_bit_eq)
  then show "(ucast (cell p l c) :: u8) = word_of_nat c" by (simp add: word_unat_eq_iff unat_of_nat assms)
qed

lemma backdrop_cell: "0x0500 = cell 0 5 0"
  by (simp add: cell_def)

section \<open>A background\<close>

text \<open>The priority bit and the colour of a column of a background; colour 0 is transparent.\<close>

definition bg_dot :: "depth \<Rightarrow> bg_line \<Rightarrow> ppu \<Rightarrow> int \<Rightarrow> bool \<times> nat" where
  "bg_dot d l ppu x =
     (let tile = the (vram_at ppu (fst (walk_at l x)));
          bits = the (dp_read d ppu (if tst tile 0x8000 then bl_tileadr1 l else bl_tileadr0 l) (uint (tile AND 0x3ff)));
          pixel = (if tst tile 0x4000 then dp_pixel d (nat (x mod 8)) bits else dp_pixel_hflip d (nat (x mod 8)) bits)
      in (tst tile 0x2000, if pixel = 0 then 0 else unat (drop_bit (dp_shift d) (tile AND 0x1c00)) + unat pixel))"

definition over :: "nat \<Rightarrow> nat \<Rightarrow> nat \<Rightarrow> bool \<times> nat \<Rightarrow> nat \<times> nat \<times> nat \<Rightarrow> nat \<times> nat \<times> nat" where
  "over ph pl l dot cl =
     (let P = (if fst dot then ph else pl) in if snd dot \<noteq> 0 \<and> fst cl < P then (P, l, snd dot) else cl)"

fun cell3 :: "nat \<times> nat \<times> nat \<Rightarrow> u16" where
  "cell3 (p, l, c) = cell p l c"

definition cell_ok :: "nat \<times> nat \<times> nat \<Rightarrow> bool" where
  "cell_ok cl \<longleftrightarrow> fst cl < 16 \<and> fst (snd cl) < 8 \<and> snd (snd cl) < 256"

lemma unat_numeral_u16: "unat (0x1c00 :: u16) = 0x1c00"
  by simp

lemma dot_small:
  fixes tile :: u16
  assumes "k < 8" "d = bpp4 \<or> d = bpp2"
  shows "unat (drop_bit (dp_shift d) (tile AND 0x1c00)) \<le> 0x70" "unat (dp_pixel d k bits) < 16" "unat (dp_pixel_hflip d k bits) < 16"
    and "dp_opaque d k bits \<longleftrightarrow> dp_pixel d k bits \<noteq> 0" "dp_opaque_hflip d k bits \<longleftrightarrow> dp_pixel_hflip d k bits \<noteq> 0"
proof -
  have "unat (drop_bit n (tile AND 0x1c00)) \<le> 0x1c00 div 2 ^ n" for n
  proof -
    have "unat (tile AND 0x1c00) \<le> 0x1c00" using word_and_le1 [where a = "0x1c00 :: u16"] by (simp only: word_le_nat_alt unat_numeral_u16)
    then show ?thesis unfolding unsigned_drop_bit_eq unfolding drop_bit_eq_div
      by (intro div_le_mono) (rule le_trans [OF take_bit_nat_less_eq_self])
  qed
  note pal = this
  from pal [of 6] pal [of 8] assms(2) show "unat (drop_bit (dp_shift d) (tile AND 0x1c00)) \<le> 0x70"
    by (auto simp: bpp4_def bpp2_def)
  have planes: "unat (planes a b c e) < 16" for a b c e by (simp add: planes_def)
  show "unat (dp_pixel d k bits) < 16" "unat (dp_pixel_hflip d k bits) < 16"
    using assms planes by (auto simp: bpp4_def bpp2_def pixel4_planes pixel2_planes)
  show "dp_opaque d k bits \<longleftrightarrow> dp_pixel d k bits \<noteq> 0" "dp_opaque_hflip d k bits \<longleftrightarrow> dp_pixel_hflip d k bits \<noteq> 0"
    using assms by (auto simp: bpp4_def bpp2_def opaque4_planes)
qed

lemma bg_dot_small: "d = bpp4 \<or> d = bpp2 \<Longrightarrow> snd (bg_dot d l ppu x) < 256"
proof -
  assume d: "d = bpp4 \<or> d = bpp2"
  have k: "nat (x mod 8) < 8" by (simp add: nat_less_iff)
  have "unat (drop_bit (dp_shift d) (tile AND 0x1c00)) + unat (if f then dp_pixel d (nat (x mod 8)) bits else dp_pixel_hflip d (nat (x mod 8)) bits) < 256"
    for tile :: u16 and bits f
    using dot_small(1) [OF k d, of tile] dot_small(2,3) [OF k d, of bits] by (cases f) auto
  note s = this [of _ True, simplified if_True] this [of _ False, simplified if_False]
  show ?thesis using s by (simp add: bg_dot_def Let_def del: drop_bit_and)
qed

lemma bg_column_cell:
  assumes l: "bg_line_ok l" "d = bpp4 \<or> d = bpp2" and z: "bl_zhi l = cell ph q 0" "bl_zlo l = cell pl q 0"
    and r: "ph < 16" "pl < 16" "q < 16" and v: "fst cl < 16" "fst (snd cl) < 16" "snd (snd cl) < 256"
    and p: "fst cl \<noteq> ph" "fst cl \<noteq> pl"
  shows "bg_column d l ppu x (cell3 cl) = cell3 (over ph pl q (bg_dot d l ppu x) cl)"
proof -
  have k: "nat (x mod 8) < 8" by (simp add: nat_less_iff)
  obtain tile where tile: "vram_at ppu (fst (walk_at l x)) = Some tile" using walk_at_in_vram [OF l(1)] by blast
  let ?ta = "if tst tile 0x8000 then bl_tileadr1 l else bl_tileadr0 l"
  have "0 \<le> ?ta" "?ta mod 16 < 8" using l(1) by (auto simp: bg_line_ok_def)
  then obtain bits where bits: "dp_read d ppu ?ta (uint (tile AND 0x3ff)) = Some bits"
    using b4.read_ok [of ?ta] b2.read_ok [of ?ta] l(2) by (metis unsigned_greater_eq)
  define flip where "flip = tst tile 0x4000"
  define k where "k = nat (x mod 8)"
  define pixel where "pixel = (if flip then dp_pixel d k bits else dp_pixel_hflip d k bits)"
  define pal where "pal = drop_bit (dp_shift d) (tile AND 0x1c00)"
  define P where "P = (if tst tile 0x2000 then ph else pl)"
  have k: "k < 8" by (simp add: k_def nat_less_iff)
  have zz: "(if tst tile 0x2000 then bl_zhi l else bl_zlo l) = cell P q 0" by (simp add: z P_def)
  have small: "unat pal \<le> 0x70" "unat pixel < 16" using dot_small(1-3) [OF k l(2)] by (simp_all add: pal_def pixel_def del: drop_bit_and)
  have opaque: "(if flip then dp_opaque d k bits else dp_opaque_hflip d k bits) \<longleftrightarrow> pixel \<noteq> 0"
    using dot_small(4,5) [OF k l(2)] by (simp add: pixel_def)
  have "P < 16" "fst cl \<noteq> P" using r p by (auto simp: P_def)
  obtain p0 l0 c0 where cl: "cl = (p0, l0, c0)" by (cases cl) auto
  have "unat (ucast pixel :: u16) = unat pixel" using small(2) by (simp add: unsigned_ucast_eq take_bit_nat_eq_self)
  then have sum: "cell P q 0 + pal + ucast pixel = cell P q (unat pal + unat pixel)"
    using small by (simp add: cell_add)
  have less: "cell P q 0 + pal > cell p0 l0 c0 \<longleftrightarrow> p0 < P"
    using small v \<open>P < 16\<close> \<open>fst cl \<noteq> P\<close> r(3) by (subst cell_add) (simp_all add: cell_less cl)
  have "Option.bind (vram_at ppu (fst (walk_at l x))) (tile_row d l ppu) = Some (bits, cell P q 0 + pal, flip)"
    unfolding tile_row_def tile bits zz pal_def [symmetric] flip_def [symmetric] bind.bind_lunit bits by simp
  then have col: "bg_column d l ppu x (cell3 cl) = (if pixel \<noteq> 0 \<and> p0 < P then cell P q (unat pal + unat pixel) else cell p0 l0 c0)"
    unfolding bg_column_def by (simp only: option.case draw_px_def prod.case k_def [symmetric] opaque pixel_def [symmetric] cl cell3.simps less sum)
  have dot: "bg_dot d l ppu x = (tst tile 0x2000, if pixel = 0 then 0 else unat pal + unat pixel)"
    unfolding bg_dot_def Let_def tile option.sel bits pal_def [symmetric] flip_def [symmetric] k_def [symmetric] pixel_def [symmetric] by simp
  have "unat pixel \<noteq> 0" if "pixel \<noteq> 0" using that unat_eq_zero [of pixel] by blast
  then show ?thesis using col by (simp add: dot over_def cl P_def [symmetric] Let_def)
qed

section \<open>A screen\<close>

text \<open>The cells a sprite may leave: priority 2, 6, 10 or 14, layer 4 or 6 by the palette.\<close>

definition obj_cell :: "u16 \<Rightarrow> (nat \<times> nat \<times> nat) \<Rightarrow> bool" where
  "obj_cell v cl \<longleftrightarrow> v = cell3 cl \<and> (cl = (0, 5, 0) \<or>
     (\<exists>pr c. pr < 4 \<and> 128 \<le> c \<and> c < 256 \<and> cl = (4 * pr + 2, if c < 0xc0 then 6 else 4, c)))"

definition obj_line_ok :: "renderer \<Rightarrow> bool" where
  "obj_line_ok rd \<longleftrightarrow> (\<forall>v\<in>set (rd_objBuffer rd). \<exists>cl. obj_cell v cl)"

definition obj_at :: "renderer \<Rightarrow> int \<Rightarrow> nat \<times> nat \<times> nat" where
  "obj_at rd x = (let v = unat (rd_objBuffer rd ! nat (x + 96)) in (v div 4096, v div 256 mod 16, v mod 256))"

text \<open>Whether a layer takes part in a column of a screen.\<close>

definition layer_on :: "renderer \<Rightarrow> bool \<Rightarrow> nat \<Rightarrow> int \<Rightarrow> int \<Rightarrow> bool" where
  "layer_on rd sub layer y x \<longleftrightarrow> IS_SCREEN_ENABLED (rd_ppu rd) sub layer \<and> window_left rd layer y \<le> x
     \<and> x < window_right rd layer y \<and> \<not> layer_masked (rd_ppu rd) sub layer x"

definition bg3_source :: "renderer \<Rightarrow> bool \<Rightarrow> int \<Rightarrow> int \<Rightarrow> int option" where
  "bg3_source rd sub y x =
     (if IS_SCREEN_ENABLED (rd_ppu rd) sub 2 \<and> - uint (rd_extraLeftCur rd) \<le> x \<and> x < 256 + uint (rd_extraRightCur rd)
      then column_source rd sub 2 y x else None)"

text \<open>The stack of layers on cells.\<close>

definition layer_dot :: "depth \<Rightarrow> ppu \<Rightarrow> nat \<Rightarrow> int \<Rightarrow> int \<Rightarrow> bool \<times> nat" where
  "layer_dot d ppu layer y x = bg_dot d (layer_row ppu layer y 0 0) ppu (x + uint (ppu_hScroll ppu ! layer))"

definition mode1_cell :: "renderer \<Rightarrow> bool \<Rightarrow> int \<Rightarrow> int \<Rightarrow> nat \<times> nat \<times> nat" where
  "mode1_cell rd sub y x =
     (let ppu = rd_ppu rd;
          cl = (if rd_lineHasSprites rd \<and> layer_on rd sub 4 y x then obj_at rd x else (0, 5, 0));
          cl = (if layer_on rd sub 0 y x then over 12 8 0 (layer_dot bpp4 ppu 0 y x) cl else cl);
          cl = (if layer_on rd sub 1 y x then over 11 7 1 (layer_dot bpp4 ppu 1 y x) cl else cl)
      in case bg3_source rd sub y x of None \<Rightarrow> cl
         | Some x' \<Rightarrow> over (if PPU_bg3priority ppu then 15 else 3) 1 2 (layer_dot bpp2 ppu 2 y x') cl)"

definition mode7_cell :: "renderer \<Rightarrow> bool \<Rightarrow> int \<Rightarrow> int \<Rightarrow> nat \<times> nat \<times> nat" where
  "mode7_cell rd sub y x =
     (let ppu = rd_ppu rd;
          pixel = unat (m7texel ppu (m7start ppu 0 y + word_of_int (m7 ppu 0) * m7rx ppu x)
            (m7start ppu 1 y + word_of_int (m7 ppu 2) * m7rx ppu x));
          cl = (if layer_on rd sub 0 y x \<and> pixel \<noteq> 0 then (5, 0, pixel) else (0, 5, 0))
      in if rd_lineHasSprites rd \<and> layer_on rd sub 4 y x \<and> fst (obj_at rd x) > fst cl then obj_at rd x else cl)"

definition screen_cell :: "renderer \<Rightarrow> bool \<Rightarrow> int \<Rightarrow> int \<Rightarrow> nat \<times> nat \<times> nat" where
  "screen_cell rd sub y x = (if PPU_mode (rd_ppu rd) = 1 then mode1_cell rd sub y x else mode7_cell rd sub y x)"

lemma cell_digits:
  fixes p l c :: nat
  assumes "l < 16" "c < 256"
  shows "(p * 4096 + l * 256 + c) div 4096 = p" "(p * 4096 + l * 256 + c) div 256 mod 16 = l" "(p * 4096 + l * 256 + c) mod 256 = c"
proof -
  show "(p * 4096 + l * 256 + c) div 4096 = p" by (rule div_nat_eqI) (use assms in simp_all)
  have d: "(p * 4096 + l * 256 + c) div 256 = p * 16 + l" by (rule div_nat_eqI) (use assms in simp_all)
  then show "(p * 4096 + l * 256 + c) div 256 mod 16 = l" using assms by simp
  have "(p * 4096 + l * 256 + c) mod 256 = p * 4096 + l * 256 + c - (p * 16 + l) * 256"
    by (simp only: minus_div_mult_eq_mod [symmetric] d)
  then show "(p * 4096 + l * 256 + c) mod 256 = c" by simp
qed

lemma obj_at_cell:
  assumes "obj_cell (rd_objBuffer rd ! nat (x + 96)) cl"
  shows "obj_at rd x = cl"
proof -
  obtain p l c where cl: "cl = (p, l, c)" by (cases cl) auto
  have b: "p < 16" "l < 16" "c < 256" using assms by (auto simp: obj_cell_def cl split: if_splits)
  then show ?thesis using assms cell_digits [OF b(2,3), of p] by (simp add: obj_at_def obj_cell_def cl unat_cell Let_def)
qed


lemma obj_line_at:
  assumes "obj_line_ok rd" "length (rd_objBuffer rd) = 448" "- 96 \<le> x" "x < 352"
  shows "obj_cell (rd_objBuffer rd ! nat (x + 96)) (obj_at rd x)"
proof -
  have "nat (x + 96) < length (rd_objBuffer rd)" using assms(2-4) by simp
  then obtain cl where "obj_cell (rd_objBuffer rd ! nat (x + 96)) cl"
    using assms(1) nth_mem unfolding obj_line_ok_def by blast
  then show ?thesis using obj_at_cell by metis
qed

lemma obj_cell_bounds:
  "obj_cell v cl \<Longrightarrow> cell_ok cl \<and> fst cl \<in> {0, 2, 6, 10, 14}"
proof -
  assume "obj_cell v cl"
  moreover have "4 * pr + 2 < 16 \<and> 4 * pr + 2 \<in> {2, 6, 10, 14}" if "pr < 4" for pr :: nat
    using that by (cases "pr = 0"; cases "pr = 1"; cases "pr = 2"; cases "pr = 3") simp_all
  ultimately show ?thesis unfolding obj_cell_def cell_ok_def by auto
qed

text \<open>A layer over a cell: the result stays a cell, whose priority is the old one or one of the layer's.\<close>

lemma over_ok:
  "cell_ok cl \<Longrightarrow> ph < 16 \<Longrightarrow> pl < 16 \<Longrightarrow> l < 8 \<Longrightarrow> snd dot < 256 \<Longrightarrow>
   cell_ok (over ph pl l dot cl) \<and> fst (over ph pl l dot cl) \<in> {fst cl, ph, pl}"
  by (auto simp: over_def cell_ok_def Let_def)

text \<open>The start of a row and the two priorities of a layer.\<close>

lemma layer_row_fields:
  "bl_zhi (layer_row ppu layer y zhi zlo) = zhi" "bl_zlo (layer_row ppu layer y zhi zlo) = zlo"
  "bg_line_ok (layer_row ppu layer y zhi zlo)"
  by (simp_all add: layer_row_def bg_line_of_ok) (simp_all add: bg_line_of_def Let_def)

lemma bg_dot_row: "bg_dot d (layer_row ppu layer y zhi zlo) ppu x = bg_dot d (layer_row ppu layer y 0 0) ppu x"
  by (simp add: bg_dot_def walk_at_def bl_tps_def layer_row_def bg_line_of_def Let_def)

lemma layer_column_cell:
  assumes "d = bpp4 \<or> d = bpp2" "zhi = cell ph q 0" "zlo = cell pl q 0" "ph < 16" "pl < 16" "q < 8"
    and "cell_ok cl" "fst cl \<noteq> ph" "fst cl \<noteq> pl"
  shows "bg_column d (layer_row ppu layer y zhi zlo) ppu (x + uint (ppu_hScroll ppu ! layer)) (cell3 cl)
    = cell3 (over ph pl q (layer_dot d ppu layer y x) cl)"
  using assms
  by (subst bg_column_cell [of _ d ph q pl])
    (simp_all add: layer_row_fields cell_ok_def layer_dot_def bg_dot_row [of d ppu layer y "cell ph q 0" "cell pl q 0"])

lemma layer_dot_small: "d = bpp4 \<or> d = bpp2 \<Longrightarrow> snd (layer_dot d ppu layer y x) < 256"
  by (simp add: layer_dot_def bg_dot_small)

text \<open>What a column of a screen shows.\<close>

lemma mode1_stack:
  assumes "renderer_ok rd" "obj_line_ok rd" "- 96 \<le> x" "x < 352" "PPU_mode (rd_ppu rd) = 1"
  shows "stack rd sub y x 0x0500 = cell3 (mode1_cell rd sub y x) \<and> cell_ok (mode1_cell rd sub y x)"
proof -
  let ?ppu = "rd_ppu rd"
  define c0 where "c0 = (if rd_lineHasSprites rd \<and> layer_on rd sub 4 y x then obj_at rd x else (0, 5, 0))"
  define c1 where "c1 = (if layer_on rd sub 0 y x then over 12 8 0 (layer_dot bpp4 ?ppu 0 y x) c0 else c0)"
  define c2 where "c2 = (if layer_on rd sub 1 y x then over 11 7 1 (layer_dot bpp4 ?ppu 1 y x) c1 else c1)"
  have obj: "obj_cell (rd_objBuffer rd ! nat (x + 96)) (obj_at rd x)"
    using obj_line_at [OF assms(2) _ assms(3,4)] assms(1) by (simp add: renderer_ok_def)
  have 0: "objects rd sub y True x 0x0500 = cell3 c0" "cell_ok c0" "fst c0 \<in> {0, 2, 6, 10, 14}"
    using obj obj_cell_bounds [OF obj]
    by (auto simp: objects_def on_layer_def sprite_column_def c0_def layer_on_def obj_cell_def backdrop_cell cell_ok_def Let_def)
  have p0: "fst c0 \<noteq> 12" "fst c0 \<noteq> 8" using 0(3) by auto
  have 1: "on_layer rd sub 0 y (tiles_4bpp rd 0 y 0xc000 0x8000) x (cell3 c0) = cell3 c1"
    using layer_column_cell [of bpp4 "0xc000" 12 0 "0x8000" 8 c0 ?ppu 0 y x] 0(2) p0
    by (simp add: on_layer_def tiles_4bpp_def c1_def layer_on_def cell_def)
  have ok1: "cell_ok c1" "fst c1 \<in> {0, 2, 6, 10, 14, 12, 8}"
    using over_ok [OF 0(2), of 12 8 0 "layer_dot bpp4 ?ppu 0 y x"] layer_dot_small [of bpp4 ?ppu 0 y x] 0(2,3)
    by (auto simp: c1_def)
  have p1: "fst c1 \<noteq> 11" "fst c1 \<noteq> 7" using ok1(2) by auto
  have 2: "on_layer rd sub 1 y (tiles_4bpp rd 1 y 0xb100 0x7100) x (cell3 c1) = cell3 c2"
    using layer_column_cell [of bpp4 "0xb100" 11 1 "0x7100" 7 c1 ?ppu 1 y x] ok1(1) p1
    by (simp add: on_layer_def tiles_4bpp_def c2_def layer_on_def cell_def)
  have ok2: "cell_ok c2" "fst c2 \<in> {0, 2, 6, 10, 14, 12, 8, 11, 7}"
    using over_ok [OF ok1(1), of 11 7 1 "layer_dot bpp4 ?ppu 1 y x"] layer_dot_small [of bpp4 ?ppu 1 y x] ok1
    by (auto simp: c2_def)
  have p2: "fst c2 \<noteq> 1" "fst c2 \<noteq> (if PPU_bg3priority ?ppu then 15 else 3)" using ok2(2) by auto
  have m: "mode1_cell rd sub y x = (case bg3_source rd sub y x of None \<Rightarrow> c2
      | Some x' \<Rightarrow> over (if PPU_bg3priority ?ppu then 15 else 3) 1 2 (layer_dot bpp2 ?ppu 2 y x') c2)"
    unfolding mode1_cell_def Let_def c2_def c1_def c0_def by (rule refl)
  have 3: "tiles_2bpp rd sub 2 y (bg3prio ?ppu) 0x1200 x (cell3 c2) = cell3 (mode1_cell rd sub y x)"
    using layer_column_cell [of bpp2 "bg3prio ?ppu" "if PPU_bg3priority ?ppu then 15 else 3" 2 "0x1200" 1 c2 ?ppu 2 y] ok2(1) p2
    by (auto simp: tiles_2bpp_def m bg3_source_def bg3prio_def cell_def split: option.splits)
  have "cell_ok (mode1_cell rd sub y x)"
    unfolding m using conjunct1 [OF over_ok [OF ok2(1) _ _ _ layer_dot_small]] ok2(1) by (auto split: option.splits)
  then show ?thesis using 0(1) 1 2 3 assms(5) by (simp add: stack_def Let_def)
qed

lemma mode7_stack:
  assumes "renderer_ok rd" "obj_line_ok rd" "- 96 \<le> x" "x < 352" "PPU_mode (rd_ppu rd) \<noteq> 1"
  shows "stack rd sub y x 0x0500 = cell3 (mode7_cell rd sub y x) \<and> cell_ok (mode7_cell rd sub y x)"
proof -
  let ?ppu = "rd_ppu rd"
  define pixel where "pixel = m7texel ?ppu (m7start ?ppu 0 y + word_of_int (m7 ?ppu 0) * m7rx ?ppu x)
    (m7start ?ppu 1 y + word_of_int (m7 ?ppu 2) * m7rx ?ppu x)"
  define c where "c = (if layer_on rd sub 0 y x \<and> unat pixel \<noteq> 0 then (5, 0, unat pixel) else (0, 5, 0) :: nat \<times> nat \<times> nat)"
  have obj: "obj_cell (rd_objBuffer rd ! nat (x + 96)) (obj_at rd x)"
    using obj_line_at [OF assms(2) _ assms(3,4)] assms(1) by (simp add: renderer_ok_def)
  have small: "unat pixel < 256" using unsigned_less [of pixel, where 'a = nat] by simp
  have "0x5000 + (ucast pixel :: u16) = cell 5 0 (unat pixel)"
    using cell_add [of 0 "ucast pixel" 5 0] small by (simp add: cell_def)
  then have "m7_column ?ppu 0x5000 y x 0x0500 = (if pixel = 0 then 0x0500 else cell 5 0 (unat pixel))"
    unfolding m7_column_def pixel_def [symmetric] Let_def by (simp add: add.commute)
  then have bg: "on_layer rd sub 0 y (m7_column ?ppu 0x5000 y) x 0x0500 = cell3 c"
    by (simp add: on_layer_def c_def layer_on_def unat_eq_zero backdrop_cell)
  have ok: "cell_ok c" "c = (0, 5, 0) \<or> fst c = 5" using small by (auto simp: c_def cell_ok_def)
  have m: "mode7_cell rd sub y x = (if rd_lineHasSprites rd \<and> layer_on rd sub 4 y x \<and> fst (obj_at rd x) > fst c then obj_at rd x else c)"
    unfolding mode7_cell_def Let_def c_def pixel_def by (rule refl)
  have gt: "cell3 (obj_at rd x) > cell3 c \<longleftrightarrow> fst (obj_at rd x) > fst c"
  proof (cases "fst (obj_at rd x) = fst c")
    case True
    with ok(2) obj_cell_bounds [OF obj] have "c = (0, 5, 0)" "obj_at rd x = (0, 5, 0)"
      using obj by (auto simp: obj_cell_def)
    then show ?thesis by simp
  next
    case False
    obtain p l k where o: "obj_at rd x = (p, l, k)" by (cases "obj_at rd x") auto
    obtain p' l' k' where c: "c = (p', l', k')" by (cases c) auto
    show ?thesis using cell_less [of p' l' k' p l k] False ok(1) obj_cell_bounds [OF obj] by (simp add: o c cell_ok_def)
  qed
  have "objects rd sub y False x (cell3 c) = cell3 (mode7_cell rd sub y x)"
    using obj gt by (simp add: objects_def on_layer_def sprite_column_def m layer_on_def obj_cell_def Let_def)
  moreover have "cell_ok (mode7_cell rd sub y x)" using ok(1) obj_cell_bounds [OF obj] by (simp add: m)
  ultimately show ?thesis using bg assms(5) by (simp add: stack_def)
qed

theorem stack_cell:
  assumes "renderer_ok rd" "obj_line_ok rd" "- 96 \<le> x" "x < 352"
  shows "stack rd sub y x 0x0500 = cell3 (screen_cell rd sub y x)" "cell_ok (screen_cell rd sub y x)"
  using mode1_stack [OF assms] mode7_stack [OF assms] by (simp_all add: screen_cell_def)

section \<open>The whole line\<close>

text \<open>What a mode of the colour window allows, inside and outside of it.\<close>

definition window_allows :: "u8 \<Rightarrow> bool \<Rightarrow> bool" where
  "window_allows mode inside \<longleftrightarrow> mode = 0 \<or> mode = 1 \<and> inside \<or> mode = 2 \<and> \<not> inside"

definition colour_window :: "ppu \<Rightarrow> int \<Rightarrow> bool" where
  "colour_window ppu x \<longleftrightarrow> window1_state ppu 5 x \<or> window2_state ppu 5 x"

definition line_bytes :: "renderer \<Rightarrow> int \<Rightarrow> int \<Rightarrow> u8 list" where
  "line_bytes rd y x =
     (let ppu = rd_ppu rd; inside = colour_window ppu x
      in pixel_bytes ppu (window_allows (PPU_clipMode ppu) inside) (window_allows (PPU_preventMathMode ppu) inside)
           (cell3 (screen_cell rd False y x)) (cell3 (screen_cell rd True y x)))"

lemma two_bits: "drop_bit n w AND 3 = 0 \<or> drop_bit n w AND 3 = 1 \<or> drop_bit n w AND 3 = 2 \<or> drop_bit n w AND 3 = 3" for w :: u8
proof -
  have "drop_bit n w AND 3 = take_bit 2 (drop_bit n w)" by (simp add: take_bit_eq_mask mask_eq_exp_minus_1)
  then have "unat (drop_bit n w AND 3) = take_bit 2 (unat (drop_bit n w))" by (simp only: unsigned_take_bit_eq)
  then have "unat (drop_bit n w AND 3) < 4" using take_bit_nat_less_exp [of 2 "unat (drop_bit n w)"] by simp
  then have "unat (drop_bit n w AND 3) \<in> {0, 1, 2, 3}" by auto
  then show ?thesis by (auto simp: word_unat_eq_iff)
qed

lemma modes: "mode \<in> {0, 1, 2, 3}" if "mode = PPU_clipMode ppu \<or> mode = PPU_preventMathMode ppu"
  using that two_bits [of 6 "ppu_cgwsel ppu"] two_bits [of 4 "ppu_cgwsel ppu"]
  by (auto simp: PPU_clipMode_def PPU_preventMathMode_def)

lemma cw_bits_bit:
  assumes "mode \<in> {0, 1, 2, 3}" "k < 8"
  shows "bit (cw_bits bits mode) k = window_allows mode (bit bits k)"
proof -
  have ff: "(0xff :: u8) = - 1" by simp
  have "cw_bits bits 0 = - 1" "cw_bits bits 1 = bits" "cw_bits bits 2 = NOT bits" "cw_bits bits 3 = 0"
    by (simp_all add: cw_bits_def kCwBitsMod_def ff)
  then show ?thesis using assms by (auto simp: window_allows_def bit_not_iff)
qed

lemma cw_clip_math_bits:
  assumes "k < 5"
  shows "tst (drop_bit k (cw_clip_math ppu bits)) 1 = window_allows (PPU_clipMode ppu) (bit bits k)"
    and "tst (drop_bit k (cw_clip_math ppu bits)) 0x100 = window_allows (PPU_preventMathMode ppu) (bit bits k)"
proof -
  have "tst (drop_bit k (cw_clip_math ppu bits)) 1 = bit (cw_clip_math ppu bits) k"
    using tst_bit [of "drop_bit k (cw_clip_math ppu bits)" 0] by (simp add: bit_drop_bit_eq)
  also have "\<dots> = bit (cw_bits bits (PPU_clipMode ppu)) k"
    using assms by (auto simp: cw_clip_math_def bit_simps)
  also have "\<dots> = window_allows (PPU_clipMode ppu) (bit bits k)" using modes assms by (intro cw_bits_bit) auto
  finally show "tst (drop_bit k (cw_clip_math ppu bits)) 1 = window_allows (PPU_clipMode ppu) (bit bits k)" .
  have "tst (drop_bit k (cw_clip_math ppu bits)) 0x100 = bit (cw_clip_math ppu bits) (8 + k)"
    using tst_bit [of "drop_bit k (cw_clip_math ppu bits)" 8] by (simp add: bit_drop_bit_eq add.commute)
  also have "\<dots> = bit (cw_bits bits (PPU_preventMathMode ppu)) k"
    using assms by (auto simp: cw_clip_math_def bit_simps dest: bit_imp_le_length)
  also have "\<dots> = window_allows (PPU_preventMathMode ppu) (bit bits k)" using modes assms by (intro cw_bits_bit) auto
  finally show "tst (drop_bit k (cw_clip_math ppu bits)) 0x100 = window_allows (PPU_preventMathMode ppu) (bit bits k)" .
qed

text \<open>The spans in order store the columns of the line in order.\<close>

definition columns :: "(int \<Rightarrow> u8 list) \<Rightarrow> int \<Rightarrow> int \<Rightarrow> u8 list" where
  "columns g a b = concat (map (\<lambda>k. g (a + int k)) [0..<nat (b - a)])"

lemma columns_split: "a \<le> m \<Longrightarrow> m \<le> b \<Longrightarrow> columns g a b = columns g a m @ columns g m b"
proof -
  assume "a \<le> m" "m \<le> b"
  then have n: "nat (b - a) = nat (m - a) + nat (b - m)" "int (nat (m - a)) = m - a" by simp_all
  have "map (\<lambda>k. g (a + int k)) [nat (m - a)..<nat (m - a) + nat (b - m)] = map (\<lambda>k. g (m + int k)) [0..<nat (b - m)]"
    by (rule nth_equalityI) (use \<open>a \<le> m\<close> in \<open>simp_all add: algebra_simps\<close>)
  then show ?thesis unfolding columns_def n(1) by (simp only: upt_add_eq_append [OF le0] map_append concat_append)
qed

lemma length_columns: "(\<And>x. length (g x) = 4) \<Longrightarrow> length (columns g a b) = 4 * nat (b - a)"
  by (simp add: columns_def length_concat o_def sum_list_triv)

lemma columns_shift: "columns (\<lambda>i. g (i - 96)) (a + 96) (b + 96) = columns g a b"
  by (simp add: columns_def algebra_simps)

lemma line_spans_bytes:
  assumes win: "windows_ok L R masked win"
    and px: "\<And>j i. j < wn_nr win \<Longrightarrow> wn_edges win ! j \<le> i \<Longrightarrow> i < wn_edges win ! Suc j \<Longrightarrow>
      \<exists>p. span_pixel rd rendered (drop_bit j cw) (i + 96) = Some p \<and> pixel_le p = g i"
    and len: "\<And>x. length (g x) = 4"
    and "windex + k = wn_nr win" "0 \<le> dst" "nat dst + 4 * nat (R - wn_edges win ! windex) \<le> length out"
  shows "line_spans k rd rendered win (drop_bit windex cw) windex dst out = put_bytes dst (columns g (wn_edges win ! windex) R) out"
  using assms(4-)
proof (induction k arbitrary: windex dst out)
  case 0
  then have "wn_edges win ! windex = R" using win by (simp add: windows_ok_def spans_def)
  then show ?case using 0 by (simp add: columns_def put_bytes_def)
next
  case (Suc k)
  let ?a = "wn_edges win ! windex" and ?b = "wn_edges win ! Suc windex"
  have sp: "spans L R (wn_nr win) (wn_edges win)" using win by (simp add: windows_ok_def)
  have k: "windex < wn_nr win" using Suc.prems by simp
  have ab: "?a < ?b" using sp k by (simp add: spans_def)
  have bR: "?b \<le> R" using spans_le [OF sp, of "Suc windex" "wn_nr win"] sp k by (simp add: spans_def)
  have n: "max 1 (nat (?b + 96 - (?a + 96))) = nat (?b - ?a)" using ab by simp
  have fit: "nat dst + 4 * nat (?b - ?a) + 4 * nat (R - ?b) \<le> length out" using Suc.prems(3) ab bR by simp
  have "pixel_run (nat (?b - ?a)) (span_pixel rd rendered (drop_bit windex cw)) (?a + 96) dst out
      = put_bytes dst (concat (map (\<lambda>j. g (?a + 96 + int j - 96)) [0..<nat (?b - ?a)])) out"
  proof (rule pixel_run_bytes)
    show "\<exists>p. span_pixel rd rendered (drop_bit windex cw) i = Some p \<and> pixel_le p = g (i - 96)"
      if "?a + 96 \<le> i" "i < ?a + 96 + int (nat (?b - ?a))" for i
      using px [OF k, of "i - 96"] that ab by simp
  qed (use Suc.prems(2) fit in simp_all)
  then have run: "pixel_run (nat (?b - ?a)) (span_pixel rd rendered (drop_bit windex cw)) (?a + 96) dst out = put_bytes dst (columns g ?a ?b) out"
    by (simp add: columns_def algebra_simps)
  obtain out' where o: "put_bytes dst (columns g ?a ?b) out = Some out'" "length out' = length out"
    using Suc.prems(2) fit length_columns [of g ?a ?b, OF len] by (simp add: put_bytes_def)
  have "line_spans k rd rendered win (drop_bit (Suc windex) cw) (Suc windex) (dst + 4 * int (nat (?b - ?a))) out'
      = put_bytes (dst + 4 * int (nat (?b - ?a))) (columns g ?b R) out'"
    by (rule Suc.IH) (use Suc.prems fit o(2) ab in \<open>simp_all add: nat_add_distrib nat_mult_distrib\<close>)
  then show ?case
    using run o columns_split [of ?a ?b R g] ab bR length_columns [of g ?a ?b, OF len] n
    by (simp add: put_bytes_append Let_def drop_bit_drop_bit)
qed

text \<open>The picture line: for each column the colour of its two screens. The other screen only matters where
  it was drawn or is the backdrop.\<close>

lemma sub_screen_off: "ppu_screenEnabled (rd_ppu rd) ! 1 = 0 \<Longrightarrow> stack rd True y x v = v"
  by (simp add: stack_def objects_def on_layer_def tiles_2bpp_def IS_SCREEN_ENABLED_def Let_def)

lemma pixel_bytes_sub:
  assumes "\<not> PPU_addSubscreen ppu \<or> PPU_mathEnabled ppu = 0 \<or> \<not> math"
  shows "pixel_bytes ppu keep math m s = pixel_bytes ppu keep math m s'"
proof -
  have "shown ppu keep math m s k = shown ppu keep math m s' k" for k
    using assms by (auto simp: shown_def math_operand_def Let_def)
  then show ?thesis by (simp add: pixel_bytes_def)
qed

text \<open>What a screen buffer must hold for the line: the stack, or anything where it is not looked at.\<close>

lemma line_span_bytes:
  assumes tab: "tables_ok rd" and ok: "renderer_ok rd" "obj_line_ok rd"
    and win: "windows_ok L R (colour_window (rd_ppu rd)) win" and LR: "- 96 \<le> L" "R \<le> 352"
    and m: "\<And>x. L \<le> x \<Longrightarrow> x < R \<Longrightarrow> buf_at (rd_bgBuffers rd ! 0) (x + 96) = Some (cell3 (screen_cell rd False y x))"
    and s: "\<And>x. L \<le> x \<Longrightarrow> x < R \<Longrightarrow> \<exists>s. buf_at (rd_bgBuffers rd ! 1) (x + 96) = Some s \<and>
      (PPU_preventMathMode (rd_ppu rd) \<noteq> 3 \<and> PPU_addSubscreen (rd_ppu rd) \<and> PPU_mathEnabled (rd_ppu rd) \<noteq> 0 \<longrightarrow>
        s = cell3 (screen_cell rd True y x) \<and> (\<not> rendered \<longrightarrow> s AND 0xff = 0))"
    and j: "j < wn_nr win" "wn_edges win ! j \<le> x" "x < wn_edges win ! Suc j"
  shows "\<exists>p. span_pixel rd rendered (drop_bit j (cw_clip_math (rd_ppu rd) (wn_bits win))) (x + 96) = Some p
    \<and> pixel_le p = line_bytes rd y x"
proof -
  let ?ppu = "rd_ppu rd" and ?cw = "drop_bit j (cw_clip_math (rd_ppu rd) (wn_bits win))"
  have sp: "spans L R (wn_nr win) (wn_edges win)" "wn_nr win \<le> 5" using win by (simp_all add: windows_ok_def)
  have x: "L \<le> x" "x < R"
    using spans_le [OF sp(1), of 0 j] spans_le [OF sp(1), of "Suc j" "wn_nr win"] j sp(1) by (simp_all add: spans_def)
  have inside: "bit (wn_bits win) j = colour_window ?ppu x" using win j by (simp add: windows_ok_def)
  have cw: "tst ?cw 1 = window_allows (PPU_clipMode ?ppu) (colour_window ?ppu x)"
      "tst ?cw 0x100 = window_allows (PPU_preventMathMode ?ppu) (colour_window ?ppu x)"
    using cw_clip_math_bits [of j ?ppu "wn_bits win"] j(1) sp(2) inside by simp_all
  obtain s where sub: "buf_at (rd_bgBuffers rd ! 1) (x + 96) = Some s"
      "PPU_preventMathMode ?ppu \<noteq> 3 \<and> PPU_addSubscreen ?ppu \<and> PPU_mathEnabled ?ppu \<noteq> 0 \<longrightarrow>
        s = cell3 (screen_cell rd True y x) \<and> (\<not> rendered \<longrightarrow> s AND 0xff = 0)"
    using s [OF x] by blast
  have no3: "tst ?cw 0x100 \<Longrightarrow> PPU_preventMathMode ?ppu \<noteq> 3" by (auto simp: cw window_allows_def)
  have lay: "layer_of (cell3 (screen_cell rd False y x)) < 8"
  proof -
    have "cell_ok (screen_cell rd False y x)" using stack_cell(2) [OF ok, of x False y] x LR by simp
    then show ?thesis by (cases "screen_cell rd False y x") (simp add: cell_ok_def cell_layer)
  qed
  have "\<exists>p. span_pixel rd rendered ?cw (x + 96) = Some p
      \<and> pixel_le p = pixel_bytes ?ppu (tst ?cw 1) (tst ?cw 0x100) (cell3 (screen_cell rd False y x)) s"
    by (rule span_pixel_bytes [OF tab m [OF x] sub(1) lay]) (use sub(2) no3 in blast)
  moreover have "pixel_bytes ?ppu (tst ?cw 1) (tst ?cw 0x100) (cell3 (screen_cell rd False y x)) s
      = pixel_bytes ?ppu (tst ?cw 1) (tst ?cw 0x100) (cell3 (screen_cell rd False y x)) (cell3 (screen_cell rd True y x))"
  proof (cases "PPU_addSubscreen ?ppu \<and> PPU_mathEnabled ?ppu \<noteq> 0 \<and> tst ?cw 0x100")
    case True
    then show ?thesis using sub(2) no3 by simp
  next
    case False
    then show ?thesis by (intro pixel_bytes_sub) blast
  qed
  ultimately show ?thesis by (simp add: line_bytes_def Let_def cw)
qed

definition screen_buf :: "renderer \<Rightarrow> bool \<Rightarrow> int \<Rightarrow> u16 list" where
  "screen_buf rd sub y = map (\<lambda>i. cell3 (screen_cell rd sub y (int i - 96))) [0..<448]"

lemma screen_cell_put_bg [simp]: "screen_cell (put_bg s b rd) = screen_cell rd"
proof -
  have l: "layer_on (put_bg s b rd) = layer_on rd" unfolding fun_eq_iff layer_on_def put_bg_simps put_bg_windows by simp
  have o: "obj_at (put_bg s b rd) = obj_at rd" by (simp add: fun_eq_iff obj_at_def)
  have g: "bg3_source (put_bg s b rd) = bg3_source rd" unfolding fun_eq_iff bg3_source_def put_bg_simps put_bg_windows by simp
  show ?thesis
    unfolding fun_eq_iff screen_cell_def mode1_cell_def mode7_cell_def put_bg_simps l o g by (rule refl | intro allI)+
qed

lemma screen_drawn:
  assumes "renderer_ok rd" "obj_line_ok rd" "0 \<le> y" "no_mosaic (rd_ppu rd)"
  shows "PpuDrawBackgrounds y sub (put_bg sub ClearBackdrop rd) = Some (put_bg sub (screen_buf rd sub y) rd)"
proof -
  let ?rd = "put_bg sub ClearBackdrop rd"
  have ok: "renderer_ok ?rd" "obj_line_ok ?rd"
    using assms(1,2) by (simp_all add: renderer_ok_put_bg ClearBackdrop_def kPpuBufWidth_def kPpuXPixels_def kPpuExtraLeftRight_def obj_line_ok_def)
  have "of_bool sub < length (rd_bgBuffers rd)" using assms(1) by (simp add: renderer_ok_def)
  then have buf: "rd_bgBuffers ?rd ! of_bool sub = replicate 448 0x0500"
    by (simp add: ClearBackdrop_def kPpuBufWidth_def kPpuXPixels_def kPpuExtraLeftRight_def)
  have "cols (- 96) 352 (stack ?rd sub y) (replicate 448 0x0500) = screen_buf rd sub y"
    by (rule nth_equalityI) (auto simp: nth_cols screen_buf_def stack_cell(1) [OF ok])
  moreover have "put_bg sub b (put_bg sub c rd) = put_bg sub b rd" for b c by (simp add: put_bg_def)
  ultimately show ?thesis
    using backgrounds_shade [OF ok(1) assms(3), of sub] assms(4) buf by (simp add: shade_def)
qed

lemma screen_buf_at: "- 96 \<le> x \<Longrightarrow> x < 352 \<Longrightarrow> buf_at (screen_buf rd sub y) (x + 96) = Some (cell3 (screen_cell rd sub y x))"
proof -
  assume x: "- 96 \<le> x" "x < 352"
  then have n: "nat (x + 96) < 448" by simp
  have "int ([0..<448] ! nat (x + 96)) - 96 = x" using nth_upt [of 0 "nat (x + 96)" 448] n x(1) by simp
  then have "screen_buf rd sub y ! nat (x + 96) = cell3 (screen_cell rd sub y x)" using n by (simp add: screen_buf_def)
  then show ?thesis using x by (simp add: buf_at_def) (simp add: screen_buf_def)
qed

lemma no_sub_screen:
  assumes "renderer_ok rd" "obj_line_ok rd" "- 96 \<le> x" "x < 352" "ppu_screenEnabled (rd_ppu rd) ! 1 = 0"
  shows "cell3 (screen_cell rd True y x) = 0x0500"
  using stack_cell(1) [OF assms(1-4), of True y] sub_screen_off [OF assms(5)] by simp

lemma subscreen_drawn:
  assumes "renderer_ok rd" "obj_line_ok rd" "0 \<le> y" "no_mosaic (rd_ppu rd)"
  shows "\<exists>rendered b. draw_subscreen y rd = Some (rendered, put_bg True b rd) \<and> length b = 448
    \<and> (\<forall>x. - 96 \<le> x \<and> x < 352 \<longrightarrow> (\<exists>s. buf_at b (x + 96) = Some s \<and>
        (PPU_preventMathMode (rd_ppu rd) \<noteq> 3 \<and> PPU_addSubscreen (rd_ppu rd) \<and> PPU_mathEnabled (rd_ppu rd) \<noteq> 0 \<longrightarrow>
          s = cell3 (screen_cell rd True y x) \<and> (\<not> rendered \<longrightarrow> s AND 0xff = 0))))"
    (is "\<exists>r b. ?P r b")
proof -
  let ?ppu = "rd_ppu rd"
  let ?math = "PPU_preventMathMode ?ppu \<noteq> 3 \<and> PPU_addSubscreen ?ppu \<and> PPU_mathEnabled ?ppu \<noteq> 0"
  consider "?math" "ppu_screenEnabled ?ppu ! 1 \<noteq> 0" | "?math" "ppu_screenEnabled ?ppu ! 1 = 0" | "\<not> ?math" by blast
  then show ?thesis
  proof cases
    case 1
    then have "?P True (screen_buf rd True y)"
      using screen_drawn [OF assms, of True] by (auto simp: draw_subscreen_def screen_buf_at) (simp add: screen_buf_def)
    then show ?thesis by blast
  next
    case 2
    have "buf_at ClearBackdrop (x + 96) = Some 0x0500" if "- 96 \<le> x" "x < 352" for x
      using that by (simp add: buf_at_def ClearBackdrop_def kPpuBufWidth_def kPpuXPixels_def kPpuExtraLeftRight_def)
    then have "?P False ClearBackdrop"
      using 2 no_sub_screen [OF assms(1,2) _ _ 2(2)]
      by (auto simp: draw_subscreen_def) (simp add: ClearBackdrop_def kPpuBufWidth_def kPpuXPixels_def kPpuExtraLeftRight_def)
    then show ?thesis by blast
  next
    case 3
    have b: "length (rd_bgBuffers rd ! 1) = 448" using renderer_ok_buf [OF assms(1), of True] by simp
    have "rd = put_bg True (rd_bgBuffers rd ! 1) rd" using put_bg_id [OF assms(1), of True] by simp
    then have "?P False (rd_bgBuffers rd ! 1)" using 3 b by (auto simp: draw_subscreen_def buf_at_def)
    then show ?thesis by blast
  qed
qed

theorem draw_whole_line:
  assumes "renderer_ok rd" "tables_ok rd" "obj_line_ok rd" "1 \<le> y" "no_mosaic (rd_ppu rd)" "\<not> PPU_forcedBlank (rd_ppu rd)"
    and fit: "(y - 1) * int (rd_renderPitch rd) + 4 * (256 + 2 * uint (rd_extraLeftRight rd)) \<le> int (length (rd_renderBuffer rd))"
  defines "L \<equiv> uint (rd_extraLeftCur rd)" and "R \<equiv> 256 + uint (rd_extraRightCur rd)"
  shows "\<exists>bufs out. PpuDrawWholeLine y rd = Some (rd\<lparr>rd_bgBuffers := bufs, rd_renderBuffer := out\<rparr>)
    \<and> length bufs = 2 \<and> (\<forall>b\<in>set bufs. length b = 448)
    \<and> put_bytes ((y - 1) * int (rd_renderPitch rd) + 4 * (uint (rd_extraLeftRight rd) - L))
        (columns (line_bytes rd y) (- L) R) (rd_renderBuffer rd) = Some out"
proof -
  let ?ppu = "rd_ppu rd" and ?main = "screen_buf rd False y"
  let ?dst = "(y - 1) * int (rd_renderPitch rd) + 4 * (uint (rd_extraLeftRight rd) - L)"
  have y: "0 \<le> y" using assms(4) by simp
  have lenm: "length ?main = 448" by (simp add: screen_buf_def)
  define rd1 where "rd1 = put_bg False ?main rd"
  have main: "PpuDrawBackgrounds y False (put_bg False ClearBackdrop rd) = Some rd1"
    using screen_drawn [OF assms(1,3) y assms(5)] by (simp add: rd1_def)
  have ok1: "renderer_ok rd1" "obj_line_ok rd1" "no_mosaic (rd_ppu rd1)"
    using assms(1,3,5) lenm by (simp_all add: rd1_def renderer_ok_put_bg obj_line_ok_def)
  obtain rendered b where sub: "draw_subscreen y rd1 = Some (rendered, put_bg True b rd1)" "length b = 448"
      "\<And>x. - 96 \<le> x \<Longrightarrow> x < 352 \<Longrightarrow> \<exists>s. buf_at b (x + 96) = Some s \<and>
        (PPU_preventMathMode ?ppu \<noteq> 3 \<and> PPU_addSubscreen ?ppu \<and> PPU_mathEnabled ?ppu \<noteq> 0 \<longrightarrow>
          s = cell3 (screen_cell rd True y x) \<and> (\<not> rendered \<longrightarrow> s AND 0xff = 0))"
    using subscreen_drawn [OF ok1(1,2) y ok1(3)] by (auto simp: rd1_def)
  define rd2 where "rd2 = put_bg True b rd1"
  have "length (rd_bgBuffers rd) = 2" using assms(1) by (simp add: renderer_ok_def)
  then obtain b0 b1 where two: "rd_bgBuffers rd = [b0, b1]" by (cases "rd_bgBuffers rd"; cases "tl (rd_bgBuffers rd)") auto
  then have bufs: "rd_bgBuffers rd2 = [?main, b]" by (simp add: rd2_def rd1_def)
  have p2: "rd_ppu rd2 = ?ppu" "rd_renderBuffer rd2 = rd_renderBuffer rd" "screen_cell rd2 = screen_cell rd"
      "rd_extraLeftRight rd2 = rd_extraLeftRight rd" "rd_extraLeftCur rd2 = rd_extraLeftCur rd" "PpuWindows_Calc rd2 = PpuWindows_Calc rd"
    by (simp_all add: rd2_def rd1_def)
  have ok2: "renderer_ok rd2" "obj_line_ok rd2" "tables_ok rd2"
    using ok1 assms(2) sub(2) by (simp_all add: rd2_def renderer_ok_put_bg obj_line_ok_def tables_ok_def rd1_def)
  obtain win where win: "PpuWindows_Calc rd 5 y = Some win" "windows_ok (- L) R (colour_window ?ppu) win"
    using windows_calc [of rd 5 y] by (auto simp: window_left_def window_right_def PpuLayerExtra_def L_def R_def colour_window_def [abs_def])
  have LR: "- 96 \<le> - L" "R \<le> 352" "L \<le> uint (rd_extraLeftRight rd)" "R \<le> 256 + uint (rd_extraLeftRight rd)" "0 \<le> L" "0 \<le> R"
    using renderer_ok_extra [OF assms(1)] by (simp_all add: L_def R_def)
  have lb: "line_bytes rd2 y = line_bytes rd y" by (simp add: fun_eq_iff line_bytes_def p2)
  have len4: "length (line_bytes rd y x) = 4" for x by (simp add: line_bytes_def pixel_bytes_def Let_def)
  have e0: "wn_edges win ! 0 = - L" using win(2) by (simp add: windows_ok_def spans_def)
  have dst: "0 \<le> ?dst" "nat ?dst + 4 * nat (R - - L) \<le> length (rd_renderBuffer rd)"
  proof -
    show "0 \<le> ?dst" using assms(4) LR(3) by simp
    then have "int (nat ?dst + 4 * nat (R - - L)) = ?dst + 4 * (R + L)" using LR(5,6) by simp
    also have "\<dots> \<le> int (length (rd_renderBuffer rd))" using fit LR by (simp add: R_def)
    finally show "nat ?dst + 4 * nat (R - - L) \<le> length (rd_renderBuffer rd)" by (simp only: of_nat_le_iff)
  qed
  have "line_spans (wn_nr win) rd2 rendered win (drop_bit 0 (cw_clip_math ?ppu (wn_bits win))) 0 ?dst (rd_renderBuffer rd)
      = put_bytes ?dst (columns (line_bytes rd y) (wn_edges win ! 0) R) (rd_renderBuffer rd)"
  proof (rule line_spans_bytes [OF win(2)])
    fix j i assume j: "j < wn_nr win" "wn_edges win ! j \<le> i" "i < wn_edges win ! Suc j"
    show "\<exists>p. span_pixel rd2 rendered (drop_bit j (cw_clip_math ?ppu (wn_bits win))) (i + 96) = Some p \<and> pixel_le p = line_bytes rd y i"
      using line_span_bytes [OF ok2(3,1,2) _ LR(1,2) _ _ j, of y] win(2) sub(3) LR(1,2)
      by (simp add: p2 bufs lb screen_buf_at)
  qed (use dst e0 len4 in simp_all)
  then have lines: "line_spans (wn_nr win) rd2 rendered win (cw_clip_math ?ppu (wn_bits win)) 0 ?dst (rd_renderBuffer rd)
      = put_bytes ?dst (columns (line_bytes rd y) (- L) R) (rd_renderBuffer rd)" by (simp add: e0)
  obtain out where out: "put_bytes ?dst (columns (line_bytes rd y) (- L) R) (rd_renderBuffer rd) = Some out"
    using dst length_columns [of "line_bytes rd y" "- L" R, OF len4] by (simp add: put_bytes_def)
  have ds: "draw_subscreen y rd1 = Some (rendered, rd2)" using sub(1) by (simp add: rd2_def)
  have "PpuDrawWholeLine y rd = Some (rd2\<lparr>rd_renderBuffer := out\<rparr>)"
    using assms(4,6) main ds win(1) lines out
    unfolding PpuDrawWholeLine_def Let_def by (simp add: p2 L_def)
  moreover have "rd2\<lparr>rd_renderBuffer := out\<rparr> = rd\<lparr>rd_bgBuffers := [?main, b], rd_renderBuffer := out\<rparr>"
    using two by (simp add: rd2_def rd1_def put_bg_def)
  ultimately show ?thesis using out lenm sub(2) by (intro exI [of _ "[?main, b]"] exI [of _ out]) simp
qed

end
