(* ===== verification/Ppu_Old.thy ===== *)
theory Ppu_Old
  imports Ppu_Cells
begin

text \<open>
  The older renderer of \<open>snes/ppu_old.c\<close>, which looks every pixel up on its own: it walks the layers
  of the mode in order of priority and takes the first opaque pixel. It knows all modes, the combination
  of the two windows, mosaic, offset per tile and direct colour. C \<open>int\<close>s are integers; no value leaves
  their range. The last section is \<open>ppu_runLine\<close> of \<open>snes/ppu.c\<close>, which chooses between the two renderers.
\<close>

section \<open>Tables\<close>

definition layersPerMode :: "nat list list" where
  "layersPerMode =
    [[4, 0, 1, 4, 0, 1, 4, 2, 3, 4, 2, 3],
     [4, 0, 1, 4, 0, 1, 4, 2, 4, 2, 5, 5],
     [4, 0, 4, 1, 4, 0, 4, 1, 5, 5, 5, 5],
     [4, 0, 4, 1, 4, 0, 4, 1, 5, 5, 5, 5],
     [4, 0, 4, 1, 4, 0, 4, 1, 5, 5, 5, 5],
     [4, 0, 4, 1, 4, 0, 4, 1, 5, 5, 5, 5],
     [4, 0, 4, 4, 0, 4, 5, 5, 5, 5, 5, 5],
     [4, 4, 4, 0, 4, 5, 5, 5, 5, 5, 5, 5],
     [2, 4, 0, 1, 4, 0, 1, 4, 4, 2, 5, 5],
     [4, 4, 1, 4, 0, 4, 1, 5, 5, 5, 5, 5]]"

definition prioritysPerMode :: "nat list list" where
  "prioritysPerMode =
    [[3, 1, 1, 2, 0, 0, 1, 1, 1, 0, 0, 0],
     [3, 1, 1, 2, 0, 0, 1, 1, 0, 0, 5, 5],
     [3, 1, 2, 1, 1, 0, 0, 0, 5, 5, 5, 5],
     [3, 1, 2, 1, 1, 0, 0, 0, 5, 5, 5, 5],
     [3, 1, 2, 1, 1, 0, 0, 0, 5, 5, 5, 5],
     [3, 1, 2, 1, 1, 0, 0, 0, 5, 5, 5, 5],
     [3, 1, 2, 1, 0, 0, 5, 5, 5, 5, 5, 5],
     [3, 2, 1, 0, 0, 5, 5, 5, 5, 5, 5, 5],
     [1, 3, 1, 1, 2, 0, 0, 1, 0, 0, 5, 5],
     [3, 2, 1, 1, 0, 0, 0, 5, 5, 5, 5, 5]]"

definition layerCountPerMode :: "nat list" where
  "layerCountPerMode = [12, 10, 8, 8, 8, 8, 6, 5, 10, 7]"

definition bitDepthsPerMode :: "int list list" where
  "bitDepthsPerMode =
    [[2, 2, 2, 2], [4, 4, 2, 5], [4, 4, 5, 5], [8, 4, 5, 5], [8, 2, 5, 5],
     [4, 2, 5, 5], [4, 5, 5, 5], [8, 5, 5, 5], [4, 4, 2, 5], [8, 7, 5, 5]]"

section \<open>Windows\<close>

definition ppu_getWindowState :: "ppu \<Rightarrow> nat \<Rightarrow> int \<Rightarrow> bool" where
  "ppu_getWindowState ppu layer x =
     (let winflags = GET_WINDOW_FLAGS ppu layer;
          in1 = (x \<ge> uint (ppu_window1left ppu) \<and> x \<le> uint (ppu_window1right ppu));
          in2 = (x \<ge> uint (ppu_window2left ppu) \<and> x \<le> uint (ppu_window2right ppu));
          test1 = (if tst winflags kWindow1Inversed then \<not> in1 else in1);
          test2 = (if tst winflags kWindow2Inversed then \<not> in2 else in2);
          logic = drop_bit (layer * 2) (ppu_wbgobjlog ppu) AND 3
      in if \<not> tst winflags kWindow1Enabled \<and> \<not> tst winflags kWindow2Enabled then False
         else if tst winflags kWindow1Enabled \<and> \<not> tst winflags kWindow2Enabled then test1
         else if \<not> tst winflags kWindow1Enabled \<and> tst winflags kWindow2Enabled then test2
         else if logic = 0 then test1 \<or> test2
         else if logic = 1 then test1 \<and> test2
         else if logic = 2 then test1 \<noteq> test2
         else test1 = test2)"

section \<open>Tiles\<close>

text \<open>The tilemap word for a position, with the two tile sizes given by their shift and page bit.\<close>

definition tilemap_word :: "ppu \<Rightarrow> nat \<Rightarrow> nat \<Rightarrow> int \<Rightarrow> nat \<Rightarrow> int \<Rightarrow> int \<Rightarrow> int \<Rightarrow> u16" where
  "tilemap_word ppu layer bitsX highX bitsY highY x y =
     (let adr = PPU_bgTilemapAdr ppu layer + (push_bit 5 (drop_bit bitsY y AND 0x1f) OR (drop_bit bitsX x AND 0x1f));
          adr = (if x AND highX \<noteq> 0 \<and> PPU_bgTilemapWider ppu layer then adr + 0x400 else adr);
          adr = (if y AND highY \<noteq> 0 \<and> PPU_bgTilemapHigher ppu layer
                 then adr + (if PPU_bgTilemapWider ppu layer then 0x800 else 0x400) else adr)
      in ppu_vram ppu (word_of_int adr AND 0x7fff))"

definition ppu_getOffsetValue :: "ppu \<Rightarrow> int \<Rightarrow> int \<Rightarrow> u16" where
  "ppu_getOffsetValue ppu col row =
     (let x = col * 8 + uint (ppu_hScroll ppu ! 2); y = row * 8 + uint (ppu_vScroll ppu ! 2);
          tileBits = (if PPU_bigTiles ppu 2 then 4 else 3); tileHighBit = (if PPU_bigTiles ppu 2 then 0x200 else 0x100)
      in tilemap_word ppu 2 tileBits tileHighBit tileBits tileHighBit x y)"

definition ppu_handleOPT :: "ppu \<Rightarrow> nat \<Rightarrow> int \<Rightarrow> int \<Rightarrow> int \<times> int" where
  "ppu_handleOPT ppu layer x y =
     (let h = uint (ppu_hScroll ppu ! layer);
          column = (if PPU_mode ppu = 6 then drop_bit 4 ((x - (x AND 0xf)) - ((h * 2) AND 0xfff0))
                    else drop_bit 3 ((x - (x AND 7)) - (h AND 0xfff8)))
      in if column > 0 then
           let valid = (if layer = 0 then 0x2000 else 0x4000);
               hOffset = ppu_getOffsetValue ppu (column - 1) 0;
               (hOffset, vOffset) =
                 (if PPU_mode ppu = 4 then if tst hOffset 0x8000 then (0, hOffset) else (hOffset, 0)
                  else (hOffset, ppu_getOffsetValue ppu (column - 1) 1));
               lx = (if tst hOffset valid then
                       if PPU_mode ppu = 6 then ((uint (hOffset AND 0x3f8) + column * 8) * 2) OR (x AND 0xf)
                       else (uint (hOffset AND 0x3f8) + column * 8) OR (x AND 7)
                     else x);
               ly = (if tst vOffset valid then uint (vOffset AND 0x3ff) + (y - uint (ppu_vScroll ppu ! layer)) else y)
           in (lx, ly)
         else (x, y))"

text \<open>Two planes of a tile row at a column, as a number below 4.\<close>

definition plane_pair :: "u16 \<Rightarrow> nat \<Rightarrow> int" where
  "plane_pair plane col = of_bool (bit plane col) + 2 * of_bool (bit plane (8 + col))"

definition ppu_getPixelForBgLayer :: "ppu \<Rightarrow> int \<Rightarrow> int \<Rightarrow> nat \<Rightarrow> bool \<Rightarrow> int" where
  "ppu_getPixelForBgLayer ppu x y layer priority =
     (let big = PPU_bigTiles ppu layer; wideTiles = (big \<or> PPU_mode ppu = 5 \<or> PPU_mode ppu = 6);
          tile = tilemap_word ppu layer (if wideTiles then 4 else 3) (if wideTiles then 0x200 else 0x100)
            (if big then 4 else 3) (if big then 0x200 else 0x100) x y
      in if tst tile 0x2000 \<noteq> priority then 0
         else
           let paletteNum = uint (drop_bit 10 (tile AND 0x1c00));
               row = (if tst tile 0x8000 then 7 - (y AND 7) else y AND 7);
               col = nat (if tst tile 0x4000 then x AND 7 else 7 - (x AND 7));
               tileNum = uint (tile AND 0x3ff);
               tileNum = (if wideTiles \<and> ((x AND 8 \<noteq> 0) \<noteq> tst tile 0x4000) then tileNum + 1 else tileNum);
               tileNum = (if big \<and> ((y AND 8 \<noteq> 0) \<noteq> tst tile 0x8000) then tileNum + 0x10 else tileNum);
               bitDepth = bitDepthsPerMode ! unat (PPU_mode ppu) ! layer;
               paletteNum = (if PPU_mode ppu = 0 then paletteNum + 8 * int layer else paletteNum);
               plane = (\<lambda>k. ppu_vram ppu (word_of_int (PPU_bgTileAdr ppu layer + (tileNum AND 0x3ff) * 4 * bitDepth + k + row) AND 0x7fff));
               paletteSize = (if bitDepth > 4 then 256 else if bitDepth > 2 then 16 else 4);
               pixel = plane_pair (plane 0) col
                 + (if bitDepth > 2 then 4 * plane_pair (plane 8) col else 0)
                 + (if bitDepth > 4 then 16 * plane_pair (plane 16) col + 64 * plane_pair (plane 24) col else 0)
           in if pixel = 0 then 0 else paletteSize * paletteNum + pixel)"

section \<open>Mode 7\<close>

definition mosaic_on :: "ppu \<Rightarrow> nat \<Rightarrow> bool" where
  "mosaic_on ppu layer \<longleftrightarrow> PPU_mosaicEnabled ppu layer \<and> PPU_mosaicSize ppu > 1"

text \<open>\<open>y -= (y - mosaicStartLine) % size\<close>; the difference is not negative from line 1 on.\<close>

definition mosaic_y :: "ppu \<Rightarrow> int \<Rightarrow> int" where
  "mosaic_y ppu y = y - (y - uint (ppu_mosaicStartLine ppu)) mod PPU_mosaicSize ppu"

definition ppu_calculateMode7Starts :: "int \<Rightarrow> renderer \<Rightarrow> renderer" where
  "ppu_calculateMode7Starts y rd =
     (let ppu = rd_ppu rd;
          hScroll = m7signed (ppu_m7matrix ppu ! 6); vScroll = m7signed (ppu_m7matrix ppu ! 7);
          xCenter = m7signed (ppu_m7matrix ppu ! 4); yCenter = m7signed (ppu_m7matrix ppu ! 5);
          clippedH = m7clip (hScroll - xCenter); clippedV = m7clip (vScroll - yCenter);
          y = (if mosaic_on ppu 0 then mosaic_y ppu y else y);
          ry = uint (word_of_int (if PPU_m7yFlip ppu then 255 - y else y) :: u8)
      in rd\<lparr>rd_m7startX := ((m7 ppu 0 * clippedH) AND NOT 63) + ((m7 ppu 1 * ry) AND NOT 63)
              + ((m7 ppu 1 * clippedV) AND NOT 63) + push_bit 8 xCenter,
            rd_m7startY := ((m7 ppu 2 * clippedH) AND NOT 63) + ((m7 ppu 3 * ry) AND NOT 63)
              + ((m7 ppu 3 * clippedV) AND NOT 63) + push_bit 8 yCenter\<rparr>)"

definition ppu_getPixelForMode7 :: "renderer \<Rightarrow> int \<Rightarrow> nat \<Rightarrow> bool \<Rightarrow> int" where
  "ppu_getPixelForMode7 rd x layer priority =
     (let ppu = rd_ppu rd; rx = uint (word_of_int (if PPU_m7xFlip ppu then 255 - x else x) :: u8);
          xPos = drop_bit 8 (rd_m7startX rd + m7 ppu 0 * rx); yPos = drop_bit 8 (rd_m7startY rd + m7 ppu 2 * rx);
          outsideMap = (PPU_m7largeField ppu \<and> (xPos < 0 \<or> xPos \<ge> 1024 \<or> yPos < 0 \<or> yPos \<ge> 1024));
          xPos = xPos AND 0x3ff; yPos = yPos AND 0x3ff;
          tile = (if outsideMap then 0
                  else uint (ppu_vram ppu (word_of_int (drop_bit 3 yPos * 128 + drop_bit 3 xPos)) AND 0xff));
          pixel = (if outsideMap \<and> \<not> PPU_m7charFill ppu then 0
                   else hi8 (ppu_vram ppu (word_of_int (tile * 64 + (yPos AND 7) * 8 + (xPos AND 7)))))
      in if layer = 1 then if tst pixel 0x80 \<noteq> priority then 0 else uint (pixel AND 0x7f) else uint pixel)"

section \<open>A pixel\<close>

definition SPRITE_PRIO_TO_PRIO_HI :: "nat \<Rightarrow> nat" where
  "SPRITE_PRIO_TO_PRIO_HI prio = prio * 4 + 2"

definition layer_active :: "ppu \<Rightarrow> bool \<Rightarrow> nat \<Rightarrow> int \<Rightarrow> bool" where
  "layer_active ppu sub layer x \<longleftrightarrow> IS_SCREEN_ENABLED ppu sub layer
     \<and> (\<not> IS_SCREEN_WINDOWED ppu sub layer \<or> \<not> ppu_getWindowState ppu layer x)"

definition bg_pixel :: "renderer \<Rightarrow> int \<Rightarrow> int \<Rightarrow> bool \<Rightarrow> nat \<Rightarrow> bool \<Rightarrow> int" where
  "bg_pixel rd x y sub layer priority =
     (let ppu = rd_ppu rd; mode = PPU_mode ppu; hires = (mode = 5 \<or> mode = 6);
          lx = (if mosaic_on ppu layer then x - x mod PPU_mosaicSize ppu else x);
          ly = (if mosaic_on ppu layer then mosaic_y ppu y else y)
      in if mode = 7 then ppu_getPixelForMode7 rd lx layer priority
         else
           let lx = lx + uint (ppu_hScroll ppu ! layer);
               lx = (if hires then lx * 2 + (if sub \<or> PPU_mosaicEnabled ppu layer then 0 else 1) else lx);
               ly = (if hires \<and> PPU_interlace ppu
                     then ly * 2 + (if ppu_evenFrame ppu \<or> PPU_mosaicEnabled ppu layer then 0 else 1) else ly);
               ly = ly + uint (ppu_vScroll ppu ! layer);
               (lx, ly) = (if mode = 2 \<or> mode = 4 \<or> mode = 6 then ppu_handleOPT ppu layer lx ly else (lx, ly))
           in ppu_getPixelForBgLayer ppu (lx AND 0x3ff) (ly AND 0x3ff) layer priority)"

definition obj_pixel :: "renderer \<Rightarrow> int \<Rightarrow> nat \<Rightarrow> int" where
  "obj_pixel rd x priority =
     (let v = rd_objBuffer rd ! nat (x + 96)
      in if unat (drop_bit 12 v) = SPRITE_PRIO_TO_PRIO_HI priority then uint (v AND 0xff) else 0)"

text \<open>The loop over the layers; a layer that is not active leaves the pixel of the one before.\<close>

primrec pixel_loop :: "(nat \<times> nat) list \<Rightarrow> renderer \<Rightarrow> int \<Rightarrow> int \<Rightarrow> bool \<Rightarrow> int \<Rightarrow> nat \<times> int" where
  "pixel_loop [] rd x y sub pixel = (5, pixel)"
| "pixel_loop (lp # lps) rd x y sub pixel =
     (let pixel = (if \<not> layer_active (rd_ppu rd) sub (fst lp) x then pixel
                   else if fst lp < 4 then bg_pixel rd x y sub (fst lp) (snd lp \<noteq> 0) else obj_pixel rd x (snd lp))
      in if pixel > 0 then (fst lp, pixel) else pixel_loop lps rd x y sub pixel)"

definition act_mode :: "ppu \<Rightarrow> nat" where
  "act_mode ppu =
     (let actMode = (if PPU_mode ppu = 1 \<and> PPU_bg3priority ppu then 8 else unat (PPU_mode ppu))
      in if PPU_mode ppu = 7 \<and> PPU_m7extBg ppu then 9 else actMode)"

definition mode_layers :: "nat \<Rightarrow> (nat \<times> nat) list" where
  "mode_layers actMode = take (layerCountPerMode ! actMode) (zip (layersPerMode ! actMode) (prioritysPerMode ! actMode))"

definition color_channel :: "u16 \<Rightarrow> nat \<Rightarrow> int" where
  "color_channel color k = uint (drop_bit (5 * k) color AND 0x1f)"

text \<open>The layer of a pixel and its three channels; layer 6 stands for a sprite without colour math.\<close>

definition ppu_getPixel :: "renderer \<Rightarrow> int \<Rightarrow> int \<Rightarrow> bool \<Rightarrow> nat \<times> (nat \<Rightarrow> int)" where
  "ppu_getPixel rd x y sub =
     (let ppu = rd_ppu rd; actMode = act_mode ppu;
          (layer, pixel) = pixel_loop (mode_layers actMode) rd x y sub 0;
          color = (if PPU_directColor ppu \<and> layer < 4 \<and> bitDepthsPerMode ! actMode ! layer = 8
                   then (!) [push_bit 2 (pixel AND 7) OR drop_bit 7 (pixel AND 0x100),
                             drop_bit 1 (pixel AND 0x38) OR drop_bit 8 (pixel AND 0x200),
                             drop_bit 3 (pixel AND 0xc0) OR drop_bit 8 (pixel AND 0x400)]
                   else color_channel (ppu_cgram ppu (word_of_int pixel)))
      in (if layer = 4 \<and> pixel < 0xc0 then 6 else layer, color))"

text \<open>The rule by which the colour window forbids something.\<close>

definition mode_forbids :: "u8 \<Rightarrow> bool \<Rightarrow> bool" where
  "mode_forbids mode state \<longleftrightarrow> mode = 3 \<or> mode = 2 \<and> state \<or> mode = 1 \<and> \<not> state"

definition math_channel :: "ppu \<Rightarrow> nat \<Rightarrow> int \<Rightarrow> int \<Rightarrow> nat \<Rightarrow> int" where
  "math_channel ppu secondLayer c c2 k =
     (let operand = (if PPU_addSubscreen ppu \<and> secondLayer \<noteq> 5 then c2 else color_channel (ppu_fixedColor ppu) k);
          c = (if PPU_subtractColor ppu then c - operand else c + operand);
          c = (if PPU_halfColor ppu \<and> (secondLayer \<noteq> 5 \<or> \<not> PPU_addSubscreen ppu) then drop_bit 1 c else c);
          c = (if c > 31 then 31 else c)
      in if c < 0 then 0 else c)"

text \<open>The channels of a pixel after the colour window and colour math.\<close>

definition pixel_color :: "renderer \<Rightarrow> int \<Rightarrow> int \<Rightarrow> nat \<Rightarrow> int" where
  "pixel_color rd x y =
     (let ppu = rd_ppu rd in
      if PPU_forcedBlank ppu then (\<lambda>k. 0)
      else
        let (mainLayer, color) = ppu_getPixel rd x y False;
            colorWindowState = ppu_getWindowState ppu 5 x;
            color = (if mode_forbids (PPU_clipMode ppu) colorWindowState then (\<lambda>k. 0) else color);
            mathEnabled = (mainLayer < 6 \<and> bit (PPU_mathEnabled ppu) mainLayer
              \<and> \<not> mode_forbids (PPU_preventMathMode ppu) colorWindowState);
            (secondLayer, color2) =
              (if mathEnabled \<and> PPU_addSubscreen ppu \<or> PPU_pseudoHires ppu \<or> PPU_mode ppu = 5 \<or> PPU_mode ppu = 6
               then ppu_getPixel rd x y True else (5, \<lambda>k. 0))
        in if mathEnabled then (\<lambda>k. math_channel ppu secondLayer (color k) (color2 k) k) else color)"

definition ppu_handlePixel :: "int \<Rightarrow> int \<Rightarrow> renderer \<Rightarrow> renderer option" where
  "ppu_handlePixel x y rd =
     (let color = pixel_color rd x y; shade = (\<lambda>k. bright (PPU_brightness (rd_ppu rd)) (nat (color k))) in do {
        out \<leftarrow> put_bytes ((y - 1) * int (rd_renderPitch rd) + (x + uint (rd_extraLeftRight rd)) * 4)
          [shade 2, shade 1, shade 0, 0] (rd_renderBuffer rd);
        Some (rd\<lparr>rd_renderBuffer := out\<rparr>)
      })"

primrec old_columns :: "nat \<Rightarrow> int \<Rightarrow> int \<Rightarrow> renderer \<Rightarrow> renderer option" where
  "old_columns 0 x y rd = Some rd"
| "old_columns (Suc n) x y rd = do { rd \<leftarrow> ppu_handlePixel x y rd; old_columns n (x + 1) y rd }"

definition PpuDrawWholeLineOldPpu :: "int \<Rightarrow> renderer \<Rightarrow> renderer option" where
  "PpuDrawWholeLineOldPpu line rd =
     old_columns 256 0 line (if PPU_mode (rd_ppu rd) = 7 then ppu_calculateMode7Starts line rd else rd)"

section \<open>A line of the frame\<close>

definition ppu_runLine :: "bool \<Rightarrow> int \<Rightarrow> renderer \<Rightarrow> renderer option" where
  "ppu_runLine g_new_ppu line rd =
     (if line = 0 then
        let rd = cache_mosaic rd
        in Some (rd\<lparr>rd_ppu := (rd_ppu rd)\<lparr>ppu_mosaicStartLine := 1, ppu_rangeOver := False, ppu_timeOver := False,
                      ppu_evenFrame := \<not> ppu_evenFrame (rd_ppu rd)\<rparr>\<rparr>)
      else
        let rd = (cache_brightness rd)\<lparr>rd_objBuffer := ClearBackdrop\<rparr> in do {
          (lineHasSprites, rd) \<leftarrow>
            (if PPU_forcedBlank (rd_ppu rd) then Some (False, rd) else ppu_evaluateSprites (line - 1) rd);
          let rd = rd\<lparr>rd_lineHasSprites := lineHasSprites\<rparr>;
          if g_new_ppu then PpuDrawWholeLine line rd else PpuDrawWholeLineOldPpu line rd
        })"

end
