(* ===== verification/Ppu_Equiv.thy ===== *)
theory Ppu_Equiv
  imports Ppu_Old
begin

text \<open>
  The two renderers agree on a pixel. In mode 1 or mode 7 with the features both have (no mosaic, no
  large tiles, no second mode-7 layer, no direct colour, windows combined by \<open>or\<close>, no widescreen
  margins) \<open>ppu_getPixel\<close> finds what \<open>PpuDrawBackgrounds\<close> left at the column. The parts of the proof
  are the parts of a pixel: window, tile, sprite, the order of the layers, colour math.
\<close>

section \<open>Windows\<close>

text \<open>The new renderer always combines the two windows of a layer by \<open>or\<close>.\<close>

definition windows_or :: "ppu \<Rightarrow> nat \<Rightarrow> bool" where
  "windows_or ppu layer \<longleftrightarrow>
     (tst (GET_WINDOW_FLAGS ppu layer) kWindow1Enabled \<and> tst (GET_WINDOW_FLAGS ppu layer) kWindow2Enabled
      \<longrightarrow> drop_bit (layer * 2) (ppu_wbgobjlog ppu) AND 3 = 0)"

lemma window_state_or:
  "windows_or ppu layer \<Longrightarrow> ppu_getWindowState ppu layer x \<longleftrightarrow> window1_state ppu layer x \<or> window2_state ppu layer x"
  by (auto simp: windows_or_def ppu_getWindowState_def window1_state_def window2_state_def window_state_def Let_def)

lemma layer_on_active:
  assumes "windows_or (rd_ppu rd) layer" "rd_extraLeftCur rd = 0" "rd_extraRightCur rd = 0" "0 \<le> x" "x < 256"
  shows "layer_on rd sub layer y x \<longleftrightarrow> layer_active (rd_ppu rd) sub layer x"
  using assms
  by (simp add: layer_on_def layer_active_def layer_masked_def window_state_or window_left_def window_right_def PpuLayerExtra_def)

section \<open>Colour math\<close>

lemma color_channel_chan: "color_channel color k = int (chan k color)"
  by (simp add: color_channel_def chan_def)

lemma forbids_allows: "mode \<in> {0, 1, 2, 3} \<Longrightarrow> mode_forbids mode state \<longleftrightarrow> \<not> window_allows mode state"
  by (auto simp: mode_forbids_def window_allows_def)

lemma blend_int:
  fixes a b :: nat
  assumes "a < 32" "b < 32"
  shows "(let c = (if subtract then int a - int b else int a + int b); c = (if half then drop_bit 1 c else c);
      c = (if c > 31 then 31 else c) in if c < 0 then 0 else c) = int (blend subtract half a b)"
proof -
  have "drop_bit 1 c = c div 2" for c :: int by (simp add: drop_bit_eq_div)
  then show ?thesis using assms by (cases subtract; cases half) (auto simp: blend_def Let_def zdiv_int min_def)
qed

lemma math_channel_blend:
  assumes "a < 32" "PPU_addSubscreen ppu \<Longrightarrow> secondLayer \<noteq> 5 \<Longrightarrow> c2 = int (chan k (ppu_cgram ppu (ucast s)))"
    and "PPU_addSubscreen ppu \<Longrightarrow> secondLayer \<noteq> 5 \<longleftrightarrow> s AND 0xff \<noteq> 0"
  shows "math_channel ppu secondLayer (int a) c2 k =
    (case math_operand ppu s of (color2, half) \<Rightarrow> int (blend (PPU_subtractColor ppu) half a (chan k color2)))"
proof -
  define h where "h \<longleftrightarrow> PPU_halfColor ppu \<and> (secondLayer \<noteq> 5 \<or> \<not> PPU_addSubscreen ppu)"
  define color2 where "color2 = (if PPU_addSubscreen ppu \<and> s AND 0xff \<noteq> 0 then ppu_cgram ppu (ucast s) else ppu_fixedColor ppu)"
  have op: "math_operand ppu s = (color2, h)" using assms(3) by (auto simp: math_operand_def color2_def h_def)
  have c2: "(if PPU_addSubscreen ppu \<and> secondLayer \<noteq> 5 then c2 else color_channel (ppu_fixedColor ppu) k) = int (chan k color2)"
    using assms(2,3) by (auto simp: color2_def color_channel_chan)
  have "math_channel ppu secondLayer (int a) c2 k =
    (let c = (if PPU_subtractColor ppu then int a - int (chan k color2) else int a + int (chan k color2)); c = (if h then drop_bit 1 c else c);
      c = (if c > 31 then 31 else c) in if c < 0 then 0 else c)"
    by (simp only: math_channel_def Let_def h_def c2)
  also have "\<dots> = int (blend (PPU_subtractColor ppu) h a (chan k color2))" by (rule blend_int [OF assms(1) chan_less])
  finally show ?thesis by (simp add: op)
qed

text \<open>What the older renderer finds at a pixel, as a cell.\<close>

definition shows_cell :: "ppu \<Rightarrow> nat \<times> (nat \<Rightarrow> int) \<Rightarrow> nat \<times> nat \<times> nat \<Rightarrow> bool" where
  "shows_cell ppu px cl \<longleftrightarrow> fst px = fst (snd cl) \<and> snd px = (\<lambda>k. int (chan k (ppu_cgram ppu (ucast (cell3 cl)))))
     \<and> (fst (snd cl) = 5 \<longleftrightarrow> snd (snd cl) = 0)"

lemma pixel_color_shown:
  assumes "windows_or ppu 5" "\<not> PPU_forcedBlank ppu" "ppu = rd_ppu rd"
    and m: "shows_cell ppu (ppu_getPixel rd x y False) m" "cell_ok m"
    and s: "shows_cell ppu (ppu_getPixel rd x y True) s" "cell_ok s"
  shows "pixel_color rd x y k = int (shown ppu (window_allows (PPU_clipMode ppu) (colour_window ppu x))
    (window_allows (PPU_preventMathMode ppu) (colour_window ppu x)) (cell3 m) (cell3 s) k)"
proof -
  let ?w = "colour_window ppu x" and ?cm = "ppu_cgram ppu (ucast (cell3 m))"
  have w: "ppu_getWindowState ppu 5 x = ?w" using window_state_or [OF assms(1)] by (simp add: colour_window_def)
  have f: "mode_forbids (PPU_clipMode ppu) ?w \<longleftrightarrow> \<not> window_allows (PPU_clipMode ppu) ?w"
      "mode_forbids (PPU_preventMathMode ppu) ?w \<longleftrightarrow> \<not> window_allows (PPU_preventMathMode ppu) ?w"
    using forbids_allows modes by blast+
  obtain lm where pm: "ppu_getPixel rd x y False = (lm, \<lambda>k. int (chan k ?cm))" "lm = fst (snd m)"
    using m(1) by (cases "ppu_getPixel rd x y False") (simp add: shows_cell_def)
  have lay: "layer_of (cell3 m) = lm" "lm < 8" using m(2) pm(2) by (cases m; simp add: cell_ok_def cell_layer)+
  have me: "lm < 6 \<and> bit (PPU_mathEnabled ppu) lm \<longleftrightarrow> bit (PPU_mathEnabled ppu) lm"
  proof -
    have "\<not> bit (0x3f :: u8) 6" "\<not> bit (0x3f :: u8) 7" by simp_all
    then have "\<not> bit (PPU_mathEnabled ppu) 6" "\<not> bit (PPU_mathEnabled ppu) 7" by (simp_all add: PPU_mathEnabled_def bit_and_iff)
    then show ?thesis using lay(2) by (cases "lm = 6"; cases "lm = 7") auto
  qed
  define a where "a = (if window_allows (PPU_clipMode ppu) ?w then chan k ?cm else 0)"
  have a: "a < 32" "(if mode_forbids (PPU_clipMode ppu) ?w then (\<lambda>k. 0) else (\<lambda>k. int (chan k ?cm))) k = int a"
    using chan_less by (simp_all add: a_def f)
  define math where "math \<longleftrightarrow> bit (PPU_mathEnabled ppu) lm \<and> window_allows (PPU_preventMathMode ppu) ?w"
  have mm: "(lm < 6 \<and> bit (PPU_mathEnabled ppu) lm \<and> \<not> mode_forbids (PPU_preventMathMode ppu) ?w) = math"
    using me f(2) by (auto simp: math_def)
  define second where "second = (if math \<and> PPU_addSubscreen ppu \<or> PPU_pseudoHires ppu \<or> PPU_mode ppu = 5 \<or> PPU_mode ppu = 6
      then ppu_getPixel rd x y True else (5, \<lambda>k. 0))"
  have "pixel_color rd x y k = (if math then math_channel ppu (fst second) (int a) (snd second k) k else int a)"
    unfolding pixel_color_def Let_def assms(3) [symmetric] if_not_P [OF assms(2)] pm(1) prod.case w mm second_def [symmetric]
    by (cases second) (simp only: prod.case fst_conv snd_conv a(2) [symmetric] split: if_split, simp)
  also have "\<dots> = int (shown ppu (window_allows (PPU_clipMode ppu) ?w) (window_allows (PPU_preventMathMode ppu) ?w) (cell3 m) (cell3 s) k)"
  proof (cases math)
    case True
    have sub: "second = ppu_getPixel rd x y True" if "PPU_addSubscreen ppu" using that True by (simp add: second_def)
    have five: "cell3 s AND 0xff \<noteq> 0 \<longleftrightarrow> snd (snd s) \<noteq> 0"
      using s(2) by (cases s) (simp add: cell_ok_def cell_colour(2))
    have "math_channel ppu (fst second) (int a) (snd second k) k =
      (case math_operand ppu (cell3 s) of (color2, half) \<Rightarrow> int (blend (PPU_subtractColor ppu) half a (chan k color2)))"
      using sub s(1) five by (intro math_channel_blend [OF a(1)]) (auto simp: shows_cell_def)
    then show ?thesis using True by (simp add: shown_def lay(1) math_def a_def [symmetric] Let_def split: prod.splits)
  next
    case False
    then show ?thesis using lay(1) by (auto simp: shown_def math_def a_def Let_def)
  qed
  finally show ?thesis .
qed

section \<open>Tiles\<close>

lemma word_of_int_low: "word_of_int (i AND 0x7fff) = (word_of_int i AND 0x7fff :: u16)"
  by (rule bit_word_eqI) (auto simp: bit_simps)

lemma vram_at_word: "vram_at ppu (i AND 0x7fff) = Some (ppu_vram ppu (word_of_int i AND 0x7fff))"
  using word_of_int_low [of i] by (simp add: vram_at_def int_low_bits)

text \<open>An offset inside an aligned block commutes with the wrap of the address.\<close>

lemma block_offset:
  fixes a r m :: int
  assumes "m = 32 \<or> m = 16" "0 \<le> r" "a mod m + r < m"
  shows "(a AND 0x7fff) + r = (a + r) AND 0x7fff"
proof -
  define q where "q = a mod 0x8000"
  have q: "0 \<le> q" "q < 0x8000" by (simp_all add: q_def)
  have "q mod m = a mod m" using assms(1) by (auto simp: q_def mod_mod_cancel)
  then have split: "q = m * (q div m) + a mod m" using mult_div_mod_eq [of m q] by simp
  have "m * (q div m) + m \<le> 0x8000" using assms(1) q by auto
  then have "q + r < 0x8000" using split assms(3) by linarith
  then have "(q + r) mod 0x8000 = q + r" using q(1) assms(2) by simp
  moreover have "(a + r) mod 0x8000 = (q + r) mod 0x8000" by (simp add: q_def mod_add_left_eq)
  ultimately show ?thesis by (simp add: int_low_bits q_def)
qed

lemma low_10_bits:
  fixes x :: int
  shows "(x AND 0x3ff) AND 7 = x AND 7" "drop_bit 3 (x AND 0x3ff) AND 0x1f = drop_bit 3 x AND 0x1f"
    "(x AND 0x3ff) AND 0x100 = x AND 0x100" "x AND 0x100 \<noteq> 0 \<longleftrightarrow> drop_bit 8 x AND 1 \<noteq> 0"
proof -
  show "(x AND 0x3ff) AND 7 = x AND 7" "(x AND 0x3ff) AND 0x100 = x AND 0x100" by (simp_all add: and.assoc)
  show "drop_bit 3 (x AND 0x3ff) AND 0x1f = drop_bit 3 x AND 0x1f" by (simp add: drop_bit_and and.assoc)
  show "x AND 0x100 \<noteq> 0 \<longleftrightarrow> drop_bit 8 x AND 1 \<noteq> 0"
    using and_exp_eq_0_iff_not_bit [of x 8] by (simp add: and_one_eq bit_iff_odd_drop_bit odd_iff_mod_2_eq_one)
qed

lemma or_disjoint: "0 \<le> r \<Longrightarrow> r < 32 \<Longrightarrow> push_bit 5 a OR r = push_bit 5 a + r" for a r :: int
proof -
  assume r: "0 \<le> r" "r < 32"
  then have "take_bit 5 r = r" by (simp add: take_bit_int_eq_self)
  then have "push_bit 5 a AND r = 0" by (metis bit_eqI bit_0_eq bot_apply bot_bool_def bit_and_iff bit_push_bit_iff bit_take_bit_iff not_le)
  then show ?thesis by (simp add: disjunctive_add_eq_or)
qed


lemma bg_tile:
  fixes x y :: int
  shows "vram_at ppu (fst (walk_at (bg_line_of ppu layer y zhi zlo) x))
    = Some (tilemap_word ppu layer 3 0x100 3 0x100 (x AND 0x3ff) (y AND 0x3ff))"
proof -
  let ?l = "bg_line_of ppu layer y zhi zlo" and ?r = "drop_bit 3 x AND 0x1f"
  define page where "page = drop_bit 8 x AND 1"
  define sc where "sc = map_row ppu layer y + (if page \<noteq> 0 \<and> PPU_bgTilemapWider ppu layer then 0x400 else 0)"
  have r: "0 \<le> ?r" "?r < 32" by (simp_all add: int_low_bits)
  have page: "page = 0 \<or> page = 1" by (auto simp: page_def int_low_bits)
  have "sc mod 32 = 0"
    using map_row_aligned [of ppu layer y] by (auto simp: sc_def mod_eq_0_iff_dvd)
  then have off: "(sc AND 0x7fff) + ?r = (sc + ?r) AND 0x7fff" using r by (intro block_offset [of 32]) simp_all
  have "bl_tps ?l page = sc AND 0x7fff"
    using page by (auto simp: bl_tps_def bg_line_of_def sc_def Let_def)
  then have "fst (walk_at ?l x) = (sc + ?r) AND 0x7fff"
    by (simp add: walk_at_def page_def [symmetric] Let_def off)
  then have "vram_at ppu (fst (walk_at ?l x)) = Some (ppu_vram ppu (word_of_int (sc + ?r) AND 0x7fff))"
    by (simp only: vram_at_word)
  also have "ppu_vram ppu (word_of_int (sc + ?r) AND 0x7fff) = tilemap_word ppu layer 3 0x100 3 0x100 (x AND 0x3ff) (y AND 0x3ff)"
    unfolding tilemap_word_def low_10_bits(1-3) low_10_bits(4) [of x] Let_def page_def [symmetric] or_disjoint [OF r]
    by (rule arg_cong [where f = "\<lambda>a. ppu_vram ppu (word_of_int a AND 0x7fff)"]) (simp add: sc_def map_row_def)
  finally show ?thesis .
qed

definition vram_low :: "ppu \<Rightarrow> int \<Rightarrow> u16" where
  "vram_low ppu i = ppu_vram ppu (word_of_int i AND 0x7fff)"

lemma read_planes:
  assumes "ta mod 16 < 8"
  shows "READ_BITS_4 ppu ta tn = Some (ucast (vram_low ppu (ta + tn * 16)) OR push_bit 16 (ucast (vram_low ppu (ta + tn * 16 + 8))))"
    and "READ_BITS_2 ppu ta tn = Some (ucast (vram_low ppu (ta + tn * 8)))"
proof -
  have "(ta + tn * 16) mod 16 + 8 < 16" using assms by simp
  then have "((ta + tn * 16) AND 0x7fff) + 8 = (ta + tn * 16 + 8) AND 0x7fff" by (intro block_offset [of 16]) simp_all
  then show "READ_BITS_4 ppu ta tn = Some (ucast (vram_low ppu (ta + tn * 16)) OR push_bit 16 (ucast (vram_low ppu (ta + tn * 16 + 8))))"
    by (simp add: READ_BITS_4_def Let_def vram_at_word vram_low_def)
  show "READ_BITS_2 ppu ta tn = Some (ucast (vram_low ppu (ta + tn * 8)))"
    by (simp add: READ_BITS_2_def vram_at_word vram_low_def)
qed

lemma plane_bits:
  fixes lo hi :: u16
  assumes "n < 16"
  shows "bit (ucast lo OR push_bit 16 (ucast hi) :: u32) n = bit lo n" "bit (ucast lo OR push_bit 16 (ucast hi) :: u32) (16 + n) = bit hi n"
    and "bit (ucast lo :: u32) n = bit lo n"
  using assms by (auto simp: bit_simps dest: bit_imp_le_length)

lemma unat_planes: "int (unat (planes a b c e)) = of_bool a + 2 * of_bool b + 4 * of_bool c + 8 * of_bool e"
  by (simp add: planes_def)

text \<open>The pixel of the drawing macros is the sum of the planes at the column, counted from the other end of the row
  in an unflipped tile.\<close>

lemma pixel_planes:
  fixes lo hi :: u16
  assumes "k < 8"
  shows "int (unat (pixel4 k (ucast lo OR push_bit 16 (ucast hi)))) = plane_pair lo k + 4 * plane_pair hi k"
    and "int (unat (pixel4_hflip k (ucast lo OR push_bit 16 (ucast hi)))) = plane_pair lo (7 - k) + 4 * plane_pair hi (7 - k)"
    and "int (unat (pixel2 k (ucast lo))) = plane_pair lo k" "int (unat (pixel2_hflip k (ucast lo))) = plane_pair lo (7 - k)"
proof -
  have i: "16 + k = 16 + k" "24 + k = 16 + (8 + k)" "15 - k = 8 + (7 - k)" "23 - k = 16 + (7 - k)" "31 - k = 16 + (8 + (7 - k))"
    "k < 16" "8 + k < 16" "7 - k < 16" "8 + (7 - k) < 16" using assms by simp_all
  show "int (unat (pixel4 k (ucast lo OR push_bit 16 (ucast hi)))) = plane_pair lo k + 4 * plane_pair hi k"
    unfolding pixel4_planes(1) [OF assms] i(2) plane_bits [OF i(6)] plane_bits [OF i(7)] unat_planes by (simp add: plane_pair_def)
  show "int (unat (pixel4_hflip k (ucast lo OR push_bit 16 (ucast hi)))) = plane_pair lo (7 - k) + 4 * plane_pair hi (7 - k)"
    unfolding pixel4_planes(2) [OF assms] i(3-5) plane_bits [OF i(8)] plane_bits [OF i(9)] unat_planes by (simp add: plane_pair_def)
  show "int (unat (pixel2 k (ucast lo))) = plane_pair lo k"
    unfolding pixel2_planes(1) [OF assms] plane_bits [OF i(6)] plane_bits [OF i(7)] unat_planes by (simp add: plane_pair_def)
  show "int (unat (pixel2_hflip k (ucast lo))) = plane_pair lo (7 - k)"
    unfolding pixel2_planes(2) [OF assms] i(3) plane_bits [OF i(8)] plane_bits [OF i(9)] unat_planes by (simp add: plane_pair_def)
qed

lemma palette_index:
  fixes tile :: u16
  shows "int (unat (drop_bit 6 (tile AND 0x1c00))) = 16 * uint (drop_bit 10 (tile AND 0x1c00))"
    and "int (unat (drop_bit 8 (tile AND 0x1c00))) = 4 * uint (drop_bit 10 (tile AND 0x1c00))"
proof -
  define P where "P = drop_bit 10 (tile AND 0x1c00)"
  have "(0x1c00 :: u16) = push_bit 10 1 OR push_bit 11 1 OR push_bit 12 1" by simp
  then have m: "bit (0x1c00 :: u16) n \<longleftrightarrow> n = 10 \<or> n = 11 \<or> n = 12" for n
    using bit_push_of_bool [of 10 True n, where 'a = 16] bit_push_of_bool [of 11 True n, where 'a = 16]
      bit_push_of_bool [of 12 True n, where 'a = 16] by (simp only: bit_or_iff of_bool_eq) auto
  have q: "tile AND 0x1c00 = push_bit 10 P"
  proof (rule bit_word_eqI)
    fix n assume n: "n < LENGTH(16)"
    show "bit (tile AND 0x1c00) n = bit (push_bit 10 P) n"
    proof (cases "10 \<le> n")
      case True
      then have "10 + (n - 10) = n" by simp
      with True n show ?thesis unfolding P_def bit_push_bit_iff bit_drop_bit_eq o_def by simp
    next
      case False
      then show ?thesis unfolding bit_push_bit_iff bit_and_iff m by auto
    qed
  qed
  have "bit P n \<Longrightarrow> n < 3" for n unfolding P_def by (simp only: bit_drop_bit_eq o_def bit_and_iff m) auto
  then have "take_bit 3 P = P" by (intro bit_word_eqI) (auto simp: bit_take_bit_iff)
  then have "take_bit 3 (unat P) = unat P" by (metis unsigned_take_bit_eq)
  then have less: "unat P < 8" using take_bit_nat_less_exp [of 3 "unat P"] by simp
  have u: "unat (tile AND 0x1c00) = unat P * 1024"
    unfolding q using less by (simp add: push_bit_eq_mult unat_word_ariths)
  have "unat (drop_bit n (tile AND 0x1c00)) = unat P * 1024 div 2 ^ n" for n
  proof -
    have "unat (drop_bit n (tile AND 0x1c00)) = drop_bit n (take_bit LENGTH(16) (unat (tile AND 0x1c00)))" by (rule unsigned_drop_bit_eq)
    then show ?thesis using less by (simp add: u drop_bit_eq_div take_bit_nat_eq_self)
  qed
  from this [of 6] this [of 8] show "int (unat (drop_bit 6 (tile AND 0x1c00))) = 16 * uint (drop_bit 10 (tile AND 0x1c00))"
    "int (unat (drop_bit 8 (tile AND 0x1c00))) = 4 * uint (drop_bit 10 (tile AND 0x1c00))"
    unfolding P_def [symmetric] by simp_all
qed

text \<open>A tile pixel of the older renderer is the dot of the background at the column.\<close>

lemma tile_pixel_dot:
  fixes x y :: int
  assumes "\<not> PPU_bigTiles ppu layer" "PPU_mode ppu = 1" "d = bpp4 \<and> layer < 2 \<or> d = bpp2 \<and> layer = 2"
  shows "ppu_getPixelForBgLayer ppu (x AND 0x3ff) (y AND 0x3ff) layer priority =
    (case bg_dot d (bg_line_of ppu layer y 0 0) ppu x of (hi, c) \<Rightarrow> if hi = priority then int c else 0)"
proof -
  let ?l = "bg_line_of ppu layer y 0 0"
  define tile where "tile = tilemap_word ppu layer 3 0x100 3 0x100 (x AND 0x3ff) (y AND 0x3ff)"
  define ta where "ta = (if tst tile 0x8000 then bl_tileadr1 ?l else bl_tileadr0 ?l)"
  define row where "row = (if tst tile 0x8000 then 7 - (y AND 7) else y AND 7)"
  define tn where "tn = uint (tile AND 0x3ff)"
  define k where "k = nat (x mod 8)"
  define col where "col = nat (if tst tile 0x4000 then x AND 7 else 7 - (x AND 7))"
  define pal where "pal = uint (drop_bit 10 (tile AND 0x1c00))"
  have k: "k < 8" by (simp add: k_def nat_less_iff)
  have col: "col = (if tst tile 0x4000 then k else 7 - k)"
    by (simp add: col_def k_def int_low_bits nat_diff_distrib)
  have ta: "ta = PPU_bgTileAdr ppu layer + row" by (simp add: ta_def row_def bg_line_of_def Let_def)
  have ta8: "ta mod 16 < 8" using bg_line_of_ok [of ppu layer y 0 0] by (simp add: bg_line_ok_def ta_def)
  have tn: "tn AND 0x3ff = tn" by (simp add: tn_def uint_and and.assoc)
  define bits where "bits = the (dp_read d ppu ta tn)"
  define pixel where "pixel = (if tst tile 0x4000 then dp_pixel d k bits else dp_pixel_hflip d k bits)"
  have dot: "bg_dot d ?l ppu x = (tst tile 0x2000, if pixel = 0 then 0 else unat (drop_bit (dp_shift d) (tile AND 0x1c00)) + unat pixel)"
    unfolding bg_dot_def bg_tile [of ppu layer y 0 0 x] option.sel Let_def tile_def [symmetric] ta_def [symmetric] tn_def [symmetric]
      bits_def [symmetric] k_def [symmetric] pixel_def [symmetric] by (rule refl)
  have zero: "unat pixel = 0 \<longleftrightarrow> pixel = 0" by (simp add: unat_eq_zero)
  have mode: "PPU_bigTiles ppu layer = False" "(PPU_mode ppu = 5) = False" "(PPU_mode ppu = 6) = False" "(PPU_mode ppu = 0) = False"
    using assms(1,2) by simp_all
  note fold_defs = mode if_False if_True simp_thms tile_def [symmetric] tn_def [symmetric] row_def [symmetric] col_def [symmetric]
    pal_def [symmetric] tn vram_low_def [symmetric]
  from assms(3) show ?thesis
  proof
    assume d: "d = bpp4 \<and> layer < 2"
    then have depth: "bitDepthsPerMode ! unat (PPU_mode ppu) ! layer = 4"
      using assms(2) by (auto simp: bitDepthsPerMode_def less_2_cases_iff)
    define old where "old = plane_pair (vram_low ppu (ta + tn * 16)) col + 4 * plane_pair (vram_low ppu (ta + tn * 16 + 8)) col"
    have pix: "int (unat pixel) = old"
      using pixel_planes [OF k] read_planes(1) [OF ta8, of ppu tn] d by (simp add: pixel_def bits_def bpp4_def old_def col)
    then have old0: "old = 0 \<longleftrightarrow> pixel = 0" using zero by (metis of_nat_eq_0_iff)
    have shift: "dp_shift d = 6" using d by (simp add: bpp4_def)
    have c: "int (snd (bg_dot d ?l ppu x)) = (if old = 0 then 0 else 16 * pal + old)"
      unfolding dot snd_conv shift old0
      by (cases "pixel = 0") (simp_all only: if_True if_False of_nat_0 of_nat_add palette_index pal_def pix simp_thms)
    have "ppu_getPixelForBgLayer ppu (x AND 0x3ff) (y AND 0x3ff) layer priority =
        (if tst tile 0x2000 \<noteq> priority then 0 else if old = 0 then 0 else 16 * pal + old)"
    proof -
      have a: "PPU_bgTileAdr ppu layer + tn * 4 * 4 + row = ta + tn * 16" "PPU_bgTileAdr ppu layer + tn * 4 * 4 + 8 + row = ta + tn * 16 + 8"
        by (simp_all add: ta)
      have n: "(4 :: int) > 2 \<longleftrightarrow> True" "(4 :: int) > 4 \<longleftrightarrow> False" by simp_all
      show ?thesis
        unfolding ppu_getPixelForBgLayer_def Let_def low_10_bits(1)
        by (simp only: fold_defs depth n a old_def add_0_right)
    qed
    then show ?thesis using c unfolding dot by (simp only: prod.case snd_conv) auto
  next
    assume d: "d = bpp2 \<and> layer = 2"
    then have depth: "bitDepthsPerMode ! unat (PPU_mode ppu) ! layer = 2"
      using assms(2) by (simp add: bitDepthsPerMode_def)
    define old where "old = plane_pair (vram_low ppu (ta + tn * 8)) col"
    have pix: "int (unat pixel) = old"
      using pixel_planes [OF k] read_planes(2) [OF ta8, of ppu tn] d by (simp add: pixel_def bits_def bpp2_def old_def col)
    then have old0: "old = 0 \<longleftrightarrow> pixel = 0" using zero by (metis of_nat_eq_0_iff)
    have shift: "dp_shift d = 8" using d by (simp add: bpp2_def)
    have c: "int (snd (bg_dot d ?l ppu x)) = (if old = 0 then 0 else 4 * pal + old)"
      unfolding dot snd_conv shift old0
      by (cases "pixel = 0") (simp_all only: if_True if_False of_nat_0 of_nat_add palette_index pal_def pix simp_thms)
    have "ppu_getPixelForBgLayer ppu (x AND 0x3ff) (y AND 0x3ff) layer priority =
        (if tst tile 0x2000 \<noteq> priority then 0 else if old = 0 then 0 else 4 * pal + old)"
    proof -
      have a: "PPU_bgTileAdr ppu layer + tn * 4 * 2 + row = ta + tn * 8" by (simp add: ta)
      have n: "(2 :: int) > 2 \<longleftrightarrow> False" "(2 :: int) > 4 \<longleftrightarrow> False" by simp_all
      show ?thesis
        unfolding ppu_getPixelForBgLayer_def Let_def low_10_bits(1)
        by (simp only: fold_defs depth n a old_def add_0_right)
    qed
    then show ?thesis using c unfolding dot by (simp only: prod.case snd_conv) auto
  qed
qed

section \<open>Mode 7\<close>

lemma word_of_int_not_63: "(word_of_int i :: u32) AND NOT 63 = word_of_int (i AND NOT 63)"
proof -
  have "(word_of_int i :: u32) AND NOT (mask n) = word_of_int (i AND NOT (mask n))" for n
    by (rule bit_word_eqI) (auto simp: bit_simps)
  from this [of 6] show ?thesis by (simp add: mask_eq_exp_minus_1)
qed

lemma sint16_bounds: "- 32768 \<le> sint w" "sint w < 32768" for w :: u16
  using sint_greater_eq [of w] sint_lt [of w] by simp_all

lemma m7signed_bounds: "- 4096 \<le> m7signed v" "m7signed v < 4096"
  using sint16_bounds [of "push_bit 3 v"] by (simp_all add: m7signed_def drop_bit_eq_div)

lemma m7clip_bounds: "- 1024 \<le> m7clip v" "m7clip v < 1024"
proof -
  have "v AND 1023 = v mod 1024" using take_bit_eq_mask [of 10 v] by (simp add: take_bit_eq_mod mask_eq_exp_minus_1)
  moreover have "v OR NOT 1023 = NOT (NOT v AND 1023)" by simp
  moreover have "NOT v AND 1023 = NOT v mod 1024" using take_bit_eq_mask [of 10 "NOT v"] by (simp add: take_bit_eq_mod mask_eq_exp_minus_1)
  moreover have "NOT w = - w - 1" for w :: int by (simp add: not_eq_complement)
  ultimately show "- 1024 \<le> m7clip v" "m7clip v < 1024"
    using pos_mod_bound [of 1024 v] pos_mod_sign [of 1024 v] pos_mod_bound [of 1024 "NOT v"] pos_mod_sign [of 1024 "NOT v"]
    unfolding m7clip_def by auto
qed

lemma m7_bounds: "- 32768 \<le> m7 ppu i" "m7 ppu i < 32768"
  using sint16_bounds by (simp_all add: m7_def)

lemma and_not_63_bounds: "i - 63 \<le> i AND NOT 63" "i AND NOT 63 \<le> i" for i :: int
proof -
  have "i AND NOT (mask n) = push_bit n (drop_bit n i)" for n by (rule bit_eqI) (auto simp: bit_simps)
  then have "(i AND NOT (mask 6)) + take_bit 6 i = i" by (simp only: bits_ident)
  moreover have "0 \<le> take_bit 6 i" "take_bit 6 i < 64" using take_bit_int_less_exp [of 6 i] by simp_all
  moreover have "i AND NOT 63 = i AND NOT (mask 6)" by (simp add: mask_eq_exp_minus_1)
  ultimately show "i - 63 \<le> i AND NOT 63" "i AND NOT 63 \<le> i" by linarith+
qed

lemma product_bounds:
  fixes a b :: int
  assumes "- A \<le> a" "a \<le> A" "- B \<le> b" "b \<le> B"
  shows "- (A * B) \<le> a * b" "a * b \<le> A * B"
proof -
  have "\<bar>a * b\<bar> \<le> A * B" using assms by (simp add: abs_mult mult_mono abs_le_iff)
  then show "- (A * B) \<le> a * b" "a * b \<le> A * B" by linarith+
qed

text \<open>The position of a column as an integer; the code's 32-bit sums do not overflow.\<close>

definition m7pos :: "ppu \<Rightarrow> nat \<Rightarrow> int \<Rightarrow> int \<Rightarrow> int" where
  "m7pos ppu row y x =
     (let hScroll = m7signed (ppu_m7matrix ppu ! 6); vScroll = m7signed (ppu_m7matrix ppu ! 7);
          xCenter = m7signed (ppu_m7matrix ppu ! 4); yCenter = m7signed (ppu_m7matrix ppu ! 5);
          a = m7 ppu (2 * row); b = m7 ppu (2 * row + 1)
      in ((a * m7clip (hScroll - xCenter)) AND NOT 63) + ((b * (if PPU_m7yFlip ppu then 255 - y else y)) AND NOT 63)
         + ((b * m7clip (vScroll - yCenter)) AND NOT 63) + push_bit 8 (if row = 0 then xCenter else yCenter)
         + a * (if PPU_m7xFlip ppu then 255 - x else x))"

lemma m7pos_word: "m7start ppu row y + word_of_int (m7 ppu (2 * row)) * m7rx ppu x = word_of_int (m7pos ppu row y x)"
proof -
  have p: "word_of_int a * word_of_int b = (word_of_int (a * b) :: u32)" for a b by simp
  show ?thesis
    unfolding m7start_def m7pos_def m7rx_def Let_def p word_of_int_not_63 by simp
qed

lemma m7pos_bounds:
  assumes "0 \<le> x" "x < 256" "0 \<le> y" "y < 256"
  shows "- 0x10000000 < m7pos ppu row y x" "m7pos ppu row y x < 0x10000000"
proof -
  define cH where "cH = m7clip (m7signed (ppu_m7matrix ppu ! 6) - m7signed (ppu_m7matrix ppu ! 4))"
  define cV where "cV = m7clip (m7signed (ppu_m7matrix ppu ! 7) - m7signed (ppu_m7matrix ppu ! 5))"
  define a b where "a = m7 ppu (2 * row)" and "b = m7 ppu (2 * row + 1)"
  define ry rx where "ry = (if PPU_m7yFlip ppu then 255 - y else y)" and "rx = (if PPU_m7xFlip ppu then 255 - x else x)"
  define c where "c = (if row = 0 then m7signed (ppu_m7matrix ppu ! 4) else m7signed (ppu_m7matrix ppu ! 5))"
  have ab: "- 32768 \<le> a" "a \<le> 32768" "- 32768 \<le> b" "b \<le> 32768"
    using m7_bounds [of ppu "2 * row"] m7_bounds [of ppu "2 * row + 1"] by (simp_all add: a_def b_def)
  have cc: "- 1024 \<le> cH" "cH \<le> 1024" "- 1024 \<le> cV" "cV \<le> 1024"
    using m7clip_bounds by (simp_all add: cH_def cV_def less_imp_le)
  have rr: "- 256 \<le> ry" "ry \<le> 256" "- 256 \<le> rx" "rx \<le> 256" using assms by (simp_all add: ry_def rx_def)
  have c: "- 4096 \<le> c" "c \<le> 4096" using m7signed_bounds by (simp_all add: c_def less_imp_le)
  have eq: "m7pos ppu row y x = ((a * cH) AND NOT 63) + ((b * ry) AND NOT 63) + ((b * cV) AND NOT 63) + c * 256 + a * rx"
    unfolding m7pos_def Let_def a_def b_def cH_def cV_def ry_def rx_def c_def by (simp add: push_bit_eq_mult)
  show "- 0x10000000 < m7pos ppu row y x" "m7pos ppu row y x < 0x10000000"
    using product_bounds [OF ab(1,2) cc(1,2)] product_bounds [OF ab(3,4) cc(3,4)] product_bounds [OF ab(3,4) rr(1,2)]
      product_bounds [OF ab(1,2) rr(3,4)] and_not_63_bounds [of "a * cH"] and_not_63_bounds [of "b * ry"] and_not_63_bounds [of "b * cV"] c
    unfolding eq by linarith+
qed

text \<open>The words of the new renderer hold the positions of the old one.\<close>

lemma small_position:
  fixes p :: int
  assumes "- 0x10000000 < p" "p < 0x10000000"
  shows "(word_of_int p :: u32) \<le> 0x3ffff \<longleftrightarrow> 0 \<le> p \<and> p < 0x40000"
proof -
  have u: "uint (word_of_int p :: u32) = p mod 0x100000000" by (simp add: unsigned_of_int take_bit_eq_mod)
  have "p mod 0x100000000 = (if 0 \<le> p then p else p + 0x100000000)"
  proof (cases "0 \<le> p")
    case False
    then have "(p + 0x100000000) mod 0x100000000 = p + 0x100000000" using assms by (intro mod_pos_pos_trivial) simp_all
    then show ?thesis using False by simp
  qed (use assms in simp)
  then show ?thesis using assms by (auto simp: word_le_def u)
qed

lemma or_le_18: "a OR b \<le> 0x3ffff \<longleftrightarrow> a \<le> 0x3ffff \<and> b \<le> 0x3ffff" for a b :: u32
proof -
  have "uint (a OR b) = uint a OR uint b" by (rule uint_or)
  moreover have "uint a \<le> uint a OR uint b" "uint b \<le> uint a OR uint b"
    using or_greater_eq [of "uint b" "uint a"] or_greater_eq [of "uint a" "uint b"] by (simp_all add: or.commute)
  moreover have "uint a < 2 ^ 18 \<Longrightarrow> uint b < 2 ^ 18 \<Longrightarrow> uint a OR uint b < 2 ^ 18" by (rule OR_upper) simp_all
  ultimately show ?thesis by (auto simp: word_le_def)
qed

lemma drop_low_word:
  "n + 7 \<le> 32 \<Longrightarrow> drop_bit n (word_of_int p :: u32) AND 0x7f = word_of_int (drop_bit n p AND 0x7f)"
  "n + 3 \<le> 32 \<Longrightarrow> drop_bit n (word_of_int p :: u32) AND 7 = word_of_int (drop_bit n p AND 7)"
proof -
  have "drop_bit n (word_of_int p :: u32) AND mask k = word_of_int (drop_bit n p AND mask k)" if "n + k \<le> 32" for k
    using that by (intro bit_word_eqI) (auto simp: bit_simps)
  from this [of 7] this [of 3]
  show "n + 7 \<le> 32 \<Longrightarrow> drop_bit n (word_of_int p :: u32) AND 0x7f = word_of_int (drop_bit n p AND 0x7f)"
    "n + 3 \<le> 32 \<Longrightarrow> drop_bit n (word_of_int p :: u32) AND 7 = word_of_int (drop_bit n p AND 7)"
    by (simp_all add: mask_eq_exp_minus_1)
qed

lemma ucast_word_of_int: "(ucast (word_of_int i :: u32) :: u16) = word_of_int i"
  by (rule bit_word_eqI) (auto simp: bit_simps)

lemma low_10_fields:
  fixes p :: int
  shows "drop_bit 3 (drop_bit 8 p AND 0x3ff) = drop_bit 11 p AND 0x7f" "(drop_bit 8 p AND 0x3ff) AND 7 = drop_bit 8 p AND 7"
  by (simp_all add: drop_bit_and and.assoc)

lemma outside_position:
  fixes p :: int
  shows "drop_bit 8 p < 0 \<or> drop_bit 8 p \<ge> 1024 \<longleftrightarrow> \<not> (0 \<le> p \<and> p < 0x40000)"
  by (auto simp: drop_bit_eq_div)

lemma mode7_pixel:
  assumes x: "0 \<le> x" "x < 256" and y: "0 \<le> y" "y < 256" and m: "\<not> mosaic_on (rd_ppu rd) 0"
  shows "ppu_getPixelForMode7 (ppu_calculateMode7Starts y rd) x 0 priority =
    uint (m7texel (rd_ppu rd) (m7start (rd_ppu rd) 0 y + word_of_int (m7 (rd_ppu rd) 0) * m7rx (rd_ppu rd) x)
      (m7start (rd_ppu rd) 1 y + word_of_int (m7 (rd_ppu rd) 2) * m7rx (rd_ppu rd) x))"
proof -
  let ?ppu = "rd_ppu rd" and ?rd = "ppu_calculateMode7Starts y rd"
  define X Y where "X = m7pos ?ppu 0 y x" and "Y = m7pos ?ppu 1 y x"
  have u8: "uint (word_of_int i :: u8) = i" if "0 \<le> i" "i < 256" for i
    using that by (simp add: unsigned_of_int take_bit_int_eq_self)
  have ry: "uint (word_of_int (if PPU_m7yFlip ?ppu then 255 - y else y) :: u8) = (if PPU_m7yFlip ?ppu then 255 - y else y)"
    using y by (intro u8) auto
  have rx: "uint (word_of_int (if PPU_m7xFlip ?ppu then 255 - x else x) :: u8) = (if PPU_m7xFlip ?ppu then 255 - x else x)"
    using x by (intro u8) auto
  have rd: "rd_ppu ?rd = ?ppu" by (simp add: ppu_calculateMode7Starts_def Let_def)
  have XY: "rd_m7startX ?rd + m7 ?ppu 0 * (if PPU_m7xFlip ?ppu then 255 - x else x) = X"
      "rd_m7startY ?rd + m7 ?ppu 2 * (if PPU_m7xFlip ?ppu then 255 - x else x) = Y"
    unfolding X_def Y_def m7pos_def ppu_calculateMode7Starts_def Let_def if_not_P [OF m] ry by simp_all
  have b: "- 0x10000000 < X" "X < 0x10000000" "- 0x10000000 < Y" "Y < 0x10000000"
    using m7pos_bounds [OF x y] by (simp_all add: X_def Y_def)
  have new: "m7start ?ppu 0 y + word_of_int (m7 ?ppu 0) * m7rx ?ppu x = word_of_int X"
      "m7start ?ppu 1 y + word_of_int (m7 ?ppu 2) * m7rx ?ppu x = word_of_int Y"
    using m7pos_word [of ?ppu 0 y x] m7pos_word [of ?ppu 1 y x] by (simp_all add: X_def Y_def)
  define outside where "outside \<longleftrightarrow> PPU_m7largeField ?ppu \<and> \<not> (0 \<le> X \<and> X < 0x40000 \<and> 0 \<le> Y \<and> Y < 0x40000)"
  have out_new: "(word_of_int X OR word_of_int Y :: u32) > (if PPU_m7largeField ?ppu then 0x3ffff else 0xffffffff) \<longleftrightarrow> outside"
  proof (cases "PPU_m7largeField ?ppu")
    case True
    then show ?thesis
      using or_le_18 [of "word_of_int X" "word_of_int Y"] small_position [OF b(1,2)] small_position [OF b(3,4)]
      by (simp add: outside_def not_le [symmetric])
  next
    case False
    have "(w :: u32) \<le> 0xffffffff" for w using uint_lt2p [of w] by (simp add: word_le_def)
    then show ?thesis using False by (simp add: outside_def not_less)
  qed
  have out_old: "(PPU_m7largeField ?ppu \<and> (drop_bit 8 X < 0 \<or> drop_bit 8 X \<ge> 1024 \<or> drop_bit 8 Y < 0 \<or> drop_bit 8 Y \<ge> 1024)) = outside"
    using outside_position [of X] outside_position [of Y] by (auto simp: outside_def)
  define tile where "tile = (if outside then 0
    else ppu_vram ?ppu (word_of_int ((drop_bit 11 Y AND 0x7f) * 128 + (drop_bit 11 X AND 0x7f))) AND 0xff)"
  have "m7texel ?ppu (word_of_int X) (word_of_int Y) =
    (if outside \<and> \<not> PPU_m7charFill ?ppu then 0
     else hi8 (ppu_vram ?ppu (tile * 64 + word_of_int ((drop_bit 8 Y AND 7) * 8 + (drop_bit 8 X AND 7)))))"
  proof -
    have i: "ucast ((drop_bit 11 (word_of_int Y :: u32) AND 0x7f) * 128 + (drop_bit 11 (word_of_int X :: u32) AND 0x7f))
        = (word_of_int ((drop_bit 11 Y AND 0x7f) * 128 + (drop_bit 11 X AND 0x7f)) :: u16)"
      using ucast_word_of_int [of "(drop_bit 11 Y AND 0x7f) * 128 + (drop_bit 11 X AND 0x7f)"] by (simp add: drop_low_word)
    have j: "ucast ((drop_bit 8 (word_of_int Y :: u32) AND 7) * 8 + (drop_bit 8 (word_of_int X :: u32) AND 7))
        = (word_of_int ((drop_bit 8 Y AND 7) * 8 + (drop_bit 8 X AND 7)) :: u16)"
      using ucast_word_of_int [of "(drop_bit 8 Y AND 7) * 8 + (drop_bit 8 X AND 7)"] by (simp add: drop_low_word)
    show ?thesis unfolding m7texel_def Let_def out_new i j tile_def by (rule refl)
  qed
  moreover have "ppu_getPixelForMode7 ?rd x 0 priority =
    uint (if outside \<and> \<not> PPU_m7charFill ?ppu then 0
     else hi8 (ppu_vram ?ppu (tile * 64 + word_of_int ((drop_bit 8 Y AND 7) * 8 + (drop_bit 8 X AND 7)))))"
  proof -
    have t: "(if outside then 0 else uint (ppu_vram ?ppu (word_of_int ((drop_bit 11 Y AND 0x7f) * 128 + (drop_bit 11 X AND 0x7f))) AND 0xff)) = uint tile"
      by (simp add: tile_def)
    have w: "(word_of_int (uint tile * 64 + (drop_bit 8 Y AND 7) * 8 + (drop_bit 8 X AND 7)) :: u16)
        = tile * 64 + word_of_int ((drop_bit 8 Y AND 7) * 8 + (drop_bit 8 X AND 7))" by simp
    show ?thesis
      unfolding ppu_getPixelForMode7_def Let_def rd rx XY out_old low_10_fields t w by simp
  qed
  ultimately show ?thesis unfolding new by simp
qed

section \<open>The order of the layers\<close>

text \<open>What a layer of the walk shows; the walk stops at the first that shows something.\<close>

definition layer_value :: "renderer \<Rightarrow> int \<Rightarrow> int \<Rightarrow> bool \<Rightarrow> nat \<times> nat \<Rightarrow> int" where
  "layer_value rd x y sub lp =
     (if \<not> layer_active (rd_ppu rd) sub (fst lp) x then 0
      else if fst lp < 4 then bg_pixel rd x y sub (fst lp) (snd lp \<noteq> 0) else obj_pixel rd x (snd lp))"

definition first_shown :: "('l \<Rightarrow> int) \<Rightarrow> ('l \<Rightarrow> nat) \<Rightarrow> 'l list \<Rightarrow> nat \<times> int" where
  "first_shown v l lps = (case find (\<lambda>lp. v lp > 0) lps of None \<Rightarrow> (5, 0) | Some lp \<Rightarrow> (l lp, v lp))"

lemma pixel_loop_first:
  assumes "\<forall>lp\<in>set lps. layer_value rd x y sub lp \<ge> 0"
  shows "pixel_loop lps rd x y sub 0 = first_shown (layer_value rd x y sub) fst lps"
  using assms
proof (induction lps)
  case (Cons lp lps)
  have "(if \<not> layer_active (rd_ppu rd) sub (fst lp) x then 0
      else if fst lp < 4 then bg_pixel rd x y sub (fst lp) (snd lp \<noteq> 0) else obj_pixel rd x (snd lp)) = layer_value rd x y sub lp"
    by (simp add: layer_value_def)
  then show ?case using Cons by (cases "layer_value rd x y sub lp = 0") (simp_all add: first_shown_def Let_def)
qed (simp add: first_shown_def)

text \<open>Mode 1: the walk over ten entries and the four layers drawn over each other agree.\<close>

definition dot_value :: "nat \<times> nat \<times> nat \<Rightarrow> (nat \<Rightarrow> bool \<times> nat) \<Rightarrow> nat \<times> nat \<Rightarrow> int" where
  "dot_value obj dots lp =
     (if fst lp = 4 then if fst obj = SPRITE_PRIO_TO_PRIO_HI (snd lp) then int (snd (snd obj)) else 0
      else if fst (dots (fst lp)) = (snd lp \<noteq> 0) then int (snd (dots (fst lp))) else 0)"

definition obj_triple :: "nat \<times> nat \<times> nat \<Rightarrow> bool" where
  "obj_triple cl \<longleftrightarrow> cl = (0, 5, 0) \<or> (\<exists>pr c. pr < 4 \<and> 128 \<le> c \<and> c < 256 \<and> cl = (4 * pr + 2, if c < 0xc0 then 6 else 4, c))"

definition draw_layer :: "nat \<times> nat \<times> nat \<Rightarrow> nat" where
  "draw_layer cl = (if fst (snd cl) = 6 then 4 else fst (snd cl))"

lemma mode_layers_simps:
  "mode_layers (Suc 0) = [(4, 3), (0, 1), (1, 1), (4, 2), (0, 0), (1, 0), (4, 1), (2, 1), (4, 0), (2, 0)]"
  "mode_layers 8 = [(2, 1), (4, 3), (0, 1), (1, 1), (4, 2), (0, 0), (1, 0), (4, 1), (4, 0), (2, 0)]"
  "mode_layers 7 = [(4, 3), (4, 2), (4, 1), (0, 0), (4, 0)]"
  by (simp_all add: mode_layers_def layersPerMode_def prioritysPerMode_def layerCountPerMode_def)

lemma shown_layers:
  "first_shown v l [] = (5, 0)"
  "v a > 0 \<Longrightarrow> first_shown v l (a # as) = (l a, v a)"
  "v a = 0 \<Longrightarrow> first_shown v l (a # as) = first_shown v l as"
  by (simp_all add: first_shown_def)

lemma over_simps:
  "over ph pl l (h, 0) cl = cl"
  "c > 0 \<Longrightarrow> over ph pl l (True, c) (p, q, r) = (if p < ph then (ph, l, c) else (p, q, r))"
  "c > 0 \<Longrightarrow> over ph pl l (False, c) (p, q, r) = (if p < pl then (pl, l, c) else (p, q, r))"
  by (simp_all add: over_def)

lemma dot_value_simps:
  "dot_value (p, l, c) dots (4, pr) = (if p = 4 * pr + 2 then int c else 0)"
  "layer < 4 \<Longrightarrow> dot_value obj dots (layer, pr) = (if fst (dots layer) = (pr \<noteq> 0) then int (snd (dots layer)) else 0)"
  by (auto simp add: dot_value_def SPRITE_PRIO_TO_PRIO_HI_def mult.commute)

text \<open>The layer of a cell: the backdrop exactly if it is transparent, a background, or a sprite by its palette.\<close>

definition cell_layer_ok :: "nat \<times> nat \<times> nat \<Rightarrow> bool" where
  "cell_layer_ok cl \<longleftrightarrow> (fst (snd cl) = 5 \<longleftrightarrow> snd (snd cl) = 0)
     \<and> (fst (snd cl) < 4 \<or> fst (snd cl) = 5 \<or> fst (snd cl) = (if snd (snd cl) < 0xc0 then 6 else 4))"

lemma over_layer_ok: "cell_layer_ok cl \<Longrightarrow> l < 4 \<Longrightarrow> cell_layer_ok (over ph pl l d cl)"
proof -
  assume cl: "cell_layer_ok cl" "l < 4"
  have "over ph pl l d cl = cl \<or> (\<exists>P. over ph pl l d cl = (P, l, snd d) \<and> snd d \<noteq> 0)" by (simp add: over_def Let_def)
  then show ?thesis
  proof (elim disjE exE conjE)
    fix P assume "over ph pl l d cl = (P, l, snd d)" "snd d \<noteq> 0"
    then show ?thesis using cl(2) by (simp add: cell_layer_ok_def)
  qed (use cl(1) in simp)
qed

lemma mode1_order:
  fixes obj :: "nat \<times> nat \<times> nat" and d0 d1 d2 :: "bool \<times> nat" and above :: bool
  assumes "obj_triple obj" "dots 0 = d0" "dots 1 = d1" "dots 2 = d2"
  defines "R \<equiv> over (if above then 15 else 3) 1 2 d2 (over 11 7 1 d1 (over 12 8 0 d0 obj))"
  shows "first_shown (dot_value obj dots) fst (mode_layers (if above then 8 else 1)) = (draw_layer R, int (snd (snd R)))"
    and "fst (snd R) = 5 \<longleftrightarrow> snd (snd R) = 0" "fst (snd R) < 4 \<or> fst (snd R) = 5 \<or> fst (snd R) = (if snd (snd R) < 0xc0 then 6 else 4)"
proof -
  obtain h0 c0 h1 c1 h2 c2 where d: "d0 = (h0, c0)" "d1 = (h1, c1)" "d2 = (h2, c2)" by (metis surj_pair)
  have "dots (Suc 0) = (h1, c1)" using assms(3) d by simp
  note dots = this assms(2) [unfolded d] assms(3) [unfolded d] assms(4) [unfolded d]
  have "\<exists>p l c. obj = (p, l, c) \<and> (p = 0 \<and> l = 5 \<and> c = 0 \<or> (p = 2 \<or> p = 6 \<or> p = 10 \<or> p = 14) \<and> c > 0 \<and> l = (if c < 0xc0 then 6 else 4))"
  proof -
    have "pr = 0 \<or> pr = 1 \<or> pr = 2 \<or> pr = 3" if "pr < 4" for pr :: nat using that by auto
    then show ?thesis using assms(1) unfolding obj_triple_def by fastforce
  qed
  then obtain p l c where obj: "obj = (p, l, c)"
      "p = 0 \<and> l = 5 \<and> c = 0 \<or> (p = 2 \<or> p = 6 \<or> p = 10 \<or> p = 14) \<and> c > 0 \<and> l = (if c < 0xc0 then 6 else 4)" by blast
  have k: "c' = 0 \<or> c' > 0 \<and> h' = True \<or> c' > 0 \<and> h' = False" for c' :: nat and h' by auto
  note simps = shown_layers over_simps dot_value_simps mode_layers_simps draw_layer_def R_def dots
  have one: "mode_layers 1 = mode_layers (Suc 0)" by simp
  show "first_shown (dot_value obj dots) fst (mode_layers (if above then 8 else 1)) = (draw_layer R, int (snd (snd R)))"
  proof (cases above)
    case True
    show ?thesis unfolding if_P [OF True] obj(1) d R_def using obj(2) k [of c0 h0] k [of c1 h1] k [of c2 h2]
      by (elim disjE conjE) (simp_all add: simps)
  next
    case False
    show ?thesis unfolding if_not_P [OF False] obj(1) d R_def using obj(2) k [of c0 h0] k [of c1 h1] k [of c2 h2]
      by (elim disjE conjE) (simp_all add: simps)
  qed
  have "cell_layer_ok obj" unfolding obj(1) using obj(2) by (auto simp: cell_layer_ok_def)
  then have "cell_layer_ok R" unfolding R_def by (intro over_layer_ok) simp_all
  then show "fst (snd R) = 5 \<longleftrightarrow> snd (snd R) = 0" "fst (snd R) < 4 \<or> fst (snd R) = 5 \<or> fst (snd R) = (if snd (snd R) < 0xc0 then 6 else 4)"
    unfolding cell_layer_ok_def by blast+
qed

section \<open>A pixel\<close>

text \<open>The features the two renderers share.\<close>

definition common_features :: "ppu \<Rightarrow> bool" where
  "common_features ppu \<longleftrightarrow>
     (PPU_mode ppu = 1 \<and> (\<forall>layer\<in>{0, 1, 2}. \<not> PPU_bigTiles ppu layer \<and> \<not> mosaic_on ppu layer)
      \<or> PPU_mode ppu = 7 \<and> \<not> PPU_mosaicEnabled ppu 0 \<and> \<not> PPU_m7extBg ppu \<and> \<not> PPU_directColor ppu)
     \<and> (\<forall>layer\<in>{0, 1, 2, 4, 5}. windows_or ppu layer)"

definition no_margins :: "renderer \<Rightarrow> bool" where
  "no_margins rd \<longleftrightarrow> rd_extraLeftCur rd = 0 \<and> rd_extraRightCur rd = 0"

definition sprites_flagged :: "renderer \<Rightarrow> bool" where
  "sprites_flagged rd \<longleftrightarrow> (rd_lineHasSprites rd \<or> rd_objBuffer rd = ClearBackdrop)"

lemma obj_triple_at:
  assumes "renderer_ok rd" "obj_line_ok rd" "- 96 \<le> x" "x < 352"
  shows "obj_triple (obj_at rd x)"
  using obj_line_at [OF assms(2) _ assms(3,4)] assms(1) by (simp add: renderer_ok_def obj_cell_def obj_triple_def)

lemma obj_at_clear:
  assumes "rd_objBuffer rd = ClearBackdrop" "- 96 \<le> x" "x < 352"
  shows "obj_at rd x = (0, 5, 0)"
  using assms by (simp add: obj_at_def ClearBackdrop_def kPpuBufWidth_def kPpuXPixels_def kPpuExtraLeftRight_def)

lemma obj_pixel_value:
  "obj_pixel rd x priority = (if fst (obj_at rd x) = SPRITE_PRIO_TO_PRIO_HI priority then int (snd (snd (obj_at rd x))) else 0)"
proof -
  let ?v = "rd_objBuffer rd ! nat (x + 96)"
  have "unat (drop_bit 12 ?v) = drop_bit 12 (take_bit LENGTH(16) (unat ?v))" by (rule unsigned_drop_bit_eq)
  then have "unat (drop_bit 12 ?v) = unat ?v div 4096"
    using unsigned_less [of ?v, where 'a = nat] by (simp add: drop_bit_eq_div take_bit_nat_eq_self)
  moreover have "?v AND 0xff = take_bit 8 ?v" by (simp add: take_bit_eq_mask mask_eq_exp_minus_1)
  then have "unat (?v AND 0xff) = unat ?v mod 256" by (simp only: unsigned_take_bit_eq) (simp add: take_bit_eq_mod)
  then have "uint (?v AND 0xff) = int (unat ?v mod 256)" by (metis uint_nat)
  ultimately show ?thesis by (simp add: obj_pixel_def obj_at_def Let_def)
qed

lemma mode1_bg_pixel:
  assumes "PPU_mode (rd_ppu rd) = 1" "\<not> PPU_bigTiles (rd_ppu rd) layer" "\<not> mosaic_on (rd_ppu rd) layer"
    and "d = bpp4 \<and> layer < 2 \<or> d = bpp2 \<and> layer = 2"
  shows "bg_pixel rd x y sub layer priority =
    (case layer_dot d (rd_ppu rd) layer y x of (hi, c) \<Rightarrow> if hi = priority then int c else 0)"
  using assms tile_pixel_dot [OF assms(2,1,4)]
  by (simp add: bg_pixel_def Let_def layer_dot_def layer_row_def)


lemma bg3_source_on:
  assumes "no_margins rd" "0 \<le> x" "x < 256"
  shows "bg3_source rd sub y x = (if layer_on rd sub 2 y x then Some x else None)"
  using assms
  by (simp add: no_margins_def bg3_source_def column_source_def hud_active_def layer_on_def window_left_def window_right_def PpuLayerExtra_def)

lemma first_shown_cong: "(\<And>lp. lp \<in> set lps \<Longrightarrow> v lp = w lp) \<Longrightarrow> first_shown v l lps = first_shown w l lps"
  unfolding first_shown_def by (induction lps) auto

text \<open>What the layers contribute to a pixel, with nothing where a layer does not take part.\<close>

definition active_dot :: "renderer \<Rightarrow> bool \<Rightarrow> int \<Rightarrow> int \<Rightarrow> nat \<Rightarrow> bool \<times> nat" where
  "active_dot rd sub y x layer =
     (if layer_active (rd_ppu rd) sub layer x then layer_dot (if layer < 2 then bpp4 else bpp2) (rd_ppu rd) layer y x else (False, 0))"

definition active_obj :: "renderer \<Rightarrow> bool \<Rightarrow> int \<Rightarrow> nat \<times> nat \<times> nat" where
  "active_obj rd sub x = (if layer_active (rd_ppu rd) sub 4 x then obj_at rd x else (0, 5, 0))"

lemma active_obj_triple:
  assumes "renderer_ok rd" "obj_line_ok rd" "- 96 \<le> x" "x < 352"
  shows "obj_triple (active_obj rd sub x)"
  using obj_triple_at [OF assms] by (simp add: active_obj_def obj_triple_def)

lemma sprites_on_pixel:
  assumes "sprites_flagged rd" "no_margins rd" "windows_or (rd_ppu rd) 4" "0 \<le> x" "x < 256"
  shows "(if rd_lineHasSprites rd \<and> layer_on rd sub 4 y x then obj_at rd x else (0, 5, 0)) = active_obj rd sub x"
  using assms obj_at_clear [of rd x] layer_on_active [of rd 4 x sub y]
  by (auto simp: active_obj_def sprites_flagged_def no_margins_def)

lemma mode1_cell_active:
  assumes "PPU_mode (rd_ppu rd) = 1" "common_features (rd_ppu rd)" "no_margins rd" "sprites_flagged rd" "0 \<le> x" "x < 256"
  shows "mode1_cell rd sub y x = over (if PPU_bg3priority (rd_ppu rd) then 15 else 3) 1 2 (active_dot rd sub y x 2)
    (over 11 7 1 (active_dot rd sub y x 1) (over 12 8 0 (active_dot rd sub y x 0) (active_obj rd sub x)))"
proof -
  have w: "layer \<in> {0, 1, 2, 4} \<Longrightarrow> windows_or (rd_ppu rd) layer" for layer using assms(2) by (auto simp: common_features_def)
  have on: "layer \<in> {0, 1, 2, 4} \<Longrightarrow> layer_on rd sub layer y x = layer_active (rd_ppu rd) sub layer x" for layer
    using layer_on_active [OF w _ _ assms(5,6)] assms(3) by (simp add: no_margins_def)
  have obj: "(if rd_lineHasSprites rd \<and> layer_active (rd_ppu rd) sub 4 x then obj_at rd x else (0, 5, 0)) = active_obj rd sub x"
    using sprites_on_pixel [OF assms(4,3) w assms(5,6), of sub y] on [of 4] by simp
  have n: "(1 :: nat) < 2" "(2 :: nat) < 2 \<longleftrightarrow> False" "(0 :: nat) < 2" by simp_all
  show ?thesis
    unfolding mode1_cell_def Let_def bg3_source_on [OF assms(3,5,6)]
    by (simp only: on insert_iff simp_thms obj n active_dot_def over_simps(1) if_True if_False option.case split: if_splits) simp
qed

lemma pixel_loop_mode1:
  assumes "PPU_mode (rd_ppu rd) = 1" "common_features (rd_ppu rd)" "\<forall>lp\<in>set l. fst lp \<in> {0, 1, 2, 4}"
  shows "pixel_loop l rd x y sub 0 = first_shown (dot_value (active_obj rd sub x) (active_dot rd sub y x)) fst l"
proof -
  have v: "layer_value rd x y sub lp = dot_value (active_obj rd sub x) (active_dot rd sub y x) lp" if entry: "lp \<in> set l" for lp
  proof -
    obtain layer pr where lp: "lp = (layer, pr)" "layer \<in> {0, 1, 2, 4}" using assms(3) entry by (metis prod.collapse)
    then show ?thesis
    proof (cases "layer = 4")
      case True
      then show ?thesis by (simp add: lp(1) layer_value_def dot_value_def obj_pixel_value active_obj_def SPRITE_PRIO_TO_PRIO_HI_def)
    next
      case False
      then have f: "\<not> PPU_bigTiles (rd_ppu rd) layer" "\<not> mosaic_on (rd_ppu rd) layer"
        using assms(1,2) lp(2) by (auto simp: common_features_def)
      have "bg_pixel rd x y sub layer (pr \<noteq> 0) =
        (case layer_dot (if layer < 2 then bpp4 else bpp2) (rd_ppu rd) layer y x of (hi, c) \<Rightarrow> if hi = (pr \<noteq> 0) then int c else 0)"
        using lp(2) False by (intro mode1_bg_pixel [OF assms(1) f]) auto
      then show ?thesis using False lp(2)
        by (auto simp: lp(1) layer_value_def dot_value_def active_dot_def split: prod.splits)
    qed
  qed
  have "dot_value obj dots lp \<ge> 0" for obj dots lp by (simp add: dot_value_def)
  then show ?thesis using v by (subst pixel_loop_first) (auto intro: first_shown_cong)
qed


lemma mode1_walk:
  assumes m: "PPU_mode (rd_ppu rd) = 1" and c: "common_features (rd_ppu rd)" "no_margins rd" "sprites_flagged rd"
    and x: "0 \<le> x" "x < 256" and ok: "renderer_ok rd" "obj_line_ok rd"
  shows "pixel_loop (mode_layers (act_mode (rd_ppu rd))) rd x y sub 0
    = (draw_layer (screen_cell rd sub y x), int (snd (snd (screen_cell rd sub y x))))"
    and "cell_layer_ok (screen_cell rd sub y x)"
proof -
  let ?prio3 = "PPU_bg3priority (rd_ppu rd)"
  have am: "act_mode (rd_ppu rd) = (if ?prio3 then 8 else 1)" using m by (simp add: act_mode_def Let_def)
  have sc: "screen_cell rd sub y x = over (if ?prio3 then 15 else 3) 1 2 (active_dot rd sub y x 2)
      (over 11 7 1 (active_dot rd sub y x 1) (over 12 8 0 (active_dot rd sub y x 0) (active_obj rd sub x)))"
    using mode1_cell_active [OF m c x] m by (simp add: screen_cell_def)
  have o: "obj_triple (active_obj rd sub x)" using active_obj_triple [OF ok] x by simp
  note order = mode1_order [where dots = "active_dot rd sub y x" and above = ?prio3, OF o refl refl refl, folded sc]
  have "pixel_loop (mode_layers (act_mode (rd_ppu rd))) rd x y sub 0
      = first_shown (dot_value (active_obj rd sub x) (active_dot rd sub y x)) fst (mode_layers (act_mode (rd_ppu rd)))"
    unfolding am by (rule pixel_loop_mode1 [OF m c(1)]) (simp add: mode_layers_simps)
  then show "pixel_loop (mode_layers (act_mode (rd_ppu rd))) rd x y sub 0
      = (draw_layer (screen_cell rd sub y x), int (snd (snd (screen_cell rd sub y x))))"
    unfolding am using order(1) by simp
  show "cell_layer_ok (screen_cell rd sub y x)" unfolding cell_layer_ok_def using order(2,3) by blast
qed

text \<open>Mode 7: the walk over the sprites above and below the one background.\<close>

lemma mode7_walk:
  assumes m: "PPU_mode (rd_ppu rd) = 7" and c: "common_features (rd_ppu rd)" "no_margins rd" "sprites_flagged rd"
    and x: "0 \<le> x" "x < 256" and y: "0 \<le> y" "y < 256" and ok: "renderer_ok rd" "obj_line_ok rd"
  shows "pixel_loop (mode_layers (act_mode (rd_ppu rd))) (ppu_calculateMode7Starts y rd) x y sub 0
    = (draw_layer (screen_cell rd sub y x), int (snd (snd (screen_cell rd sub y x))))"
    and "cell_layer_ok (screen_cell rd sub y x)"
proof -
  let ?ppu = "rd_ppu rd" and ?rd = "ppu_calculateMode7Starts y rd" and ?obj = "active_obj rd sub x"
  have f: "\<not> PPU_m7extBg ?ppu" "\<not> mosaic_on ?ppu 0" "windows_or ?ppu 0" "windows_or ?ppu 4"
    using c(1) m by (auto simp: common_features_def mosaic_on_def)
  have am: "act_mode ?ppu = 7" using m f(1) by (simp add: act_mode_def Let_def)
  have rd: "rd_ppu ?rd = ?ppu" "rd_objBuffer ?rd = rd_objBuffer rd" by (simp_all add: ppu_calculateMode7Starts_def Let_def)
  define pixel where "pixel = m7texel ?ppu (m7start ?ppu 0 y + word_of_int (m7 ?ppu 0) * m7rx ?ppu x)
    (m7start ?ppu 1 y + word_of_int (m7 ?ppu 2) * m7rx ?ppu x)"
  define v0 where "v0 = (if layer_active ?ppu sub 0 x then unat pixel else 0)"
  have on: "layer_on rd sub layer y x = layer_active ?ppu sub layer x" if "windows_or ?ppu layer" for layer
    using layer_on_active [OF that _ _ x] c(2) by (simp add: no_margins_def)
  have o: "obj_triple ?obj" using active_obj_triple [OF ok] x by simp
  have obj: "(if rd_lineHasSprites rd \<and> layer_active ?ppu sub 4 x then obj_at rd x else (0, 5, 0)) = ?obj"
    using sprites_on_pixel [OF c(3,2) f(4) x, of sub y] on [OF f(4)] by simp
  define cl where "cl = (if v0 \<noteq> 0 then (5, 0, v0) else (0, 5, 0) :: nat \<times> nat \<times> nat)"
  have sc: "screen_cell rd sub y x = (if fst ?obj > fst cl then ?obj else cl)"
  proof -
    have "screen_cell rd sub y x = (if rd_lineHasSprites rd \<and> layer_active ?ppu sub 4 x \<and> fst (obj_at rd x) > fst cl then obj_at rd x else cl)"
      using m unfolding screen_cell_def mode7_cell_def Let_def pixel_def [symmetric] on [OF f(3)] on [OF f(4)] v0_def cl_def by simp
    also have "\<dots> = (if fst ?obj > fst cl then ?obj else cl)"
    proof (cases "rd_lineHasSprites rd \<and> layer_active ?ppu sub 4 x")
      case False
      then have "?obj = (0, 5, 0)" using obj [symmetric] by (simp only: if_False)
      then show ?thesis using False by auto
    qed (use obj in simp)
    finally show ?thesis .
  qed
  have vobj: "layer_value ?rd x y sub (4, pr) = (if fst ?obj = 4 * pr + 2 then int (snd (snd ?obj)) else 0)" for pr
    by (simp add: layer_value_def rd obj_pixel_value active_obj_def SPRITE_PRIO_TO_PRIO_HI_def obj_at_def mult.commute)
  have "ppu_getPixelForMode7 ?rd x 0 False = uint pixel"
    using mode7_pixel [OF x y f(2)] by (simp add: pixel_def)
  then have v: "layer_value ?rd x y sub (0, 0) = int v0"
    using m f(2) by (simp add: layer_value_def rd bg_pixel_def v0_def)
  have walk: "pixel_loop (mode_layers (act_mode ?ppu)) ?rd x y sub 0 = first_shown (layer_value ?rd x y sub) fst (mode_layers 7)"
    unfolding am using v by (intro pixel_loop_first) (simp add: mode_layers_simps vobj)
  have "\<exists>p l k. ?obj = (p, l, k) \<and> (p = 0 \<and> l = 5 \<and> k = 0 \<or> (p = 2 \<or> p = 6 \<or> p = 10 \<or> p = 14) \<and> k > 0 \<and> l = (if k < 0xc0 then 6 else 4))"
  proof -
    have "pr = 0 \<or> pr = 1 \<or> pr = 2 \<or> pr = 3" if "pr < 4" for pr :: nat using that by auto
    then show ?thesis using o unfolding obj_triple_def by fastforce
  qed
  then obtain p l k where pk: "?obj = (p, l, k)"
      "p = 0 \<and> l = 5 \<and> k = 0 \<or> (p = 2 \<or> p = 6 \<or> p = 10 \<or> p = 14) \<and> k > 0 \<and> l = (if k < 0xc0 then 6 else 4)" by blast
  show "pixel_loop (mode_layers (act_mode ?ppu)) ?rd x y sub 0
      = (draw_layer (screen_cell rd sub y x), int (snd (snd (screen_cell rd sub y x))))"
    unfolding walk sc cl_def using pk(2) v
    by (cases "v0 = 0"; elim disjE conjE) (simp_all add: mode_layers_simps shown_layers vobj pk(1) draw_layer_def)
  show "cell_layer_ok (screen_cell rd sub y x)"
    unfolding sc cl_def using pk by (auto simp: cell_layer_ok_def)
qed


text \<open>One walk gives the cell of the screen.\<close>

lemma walk_shows_cell:
  assumes "pixel_loop (mode_layers (act_mode (rd_ppu rd))) rd x y sub 0 = (draw_layer cl, int (snd (snd cl)))"
    and "cell_layer_ok cl" "cell_ok cl" "PPU_mode (rd_ppu rd) = 1 \<or> \<not> PPU_directColor (rd_ppu rd)"
  shows "shows_cell (rd_ppu rd) (ppu_getPixel rd x y sub) cl"
proof -
  let ?ppu = "rd_ppu rd"
  obtain p l c where cl: "cl = (p, l, c)" by (cases cl) auto
  have b: "p < 16" "l < 8" "c < 256" using assms(3) by (simp_all add: cl cell_ok_def)
  have l: "l = 5 \<longleftrightarrow> c = 0" "l < 4 \<or> l = 5 \<or> l = (if c < 0xc0 then 6 else 4)"
    using assms(2) unfolding cl cell_layer_ok_def fst_conv snd_conv by blast+
  have direct: "\<not> (PPU_directColor ?ppu \<and> draw_layer cl < 4 \<and> bitDepthsPerMode ! act_mode ?ppu ! draw_layer cl = 8)"
  proof -
    have "PPU_mode ?ppu = 1 \<Longrightarrow> act_mode ?ppu = 8 \<or> act_mode ?ppu = 1" by (simp add: act_mode_def Let_def)
    moreover have "bitDepthsPerMode ! 8 ! k \<noteq> 8" "bitDepthsPerMode ! 1 ! k \<noteq> 8" if "k < 4" for k
    proof -
      have "k = 0 \<or> k = 1 \<or> k = 2 \<or> k = 3" using that by auto
      then show "bitDepthsPerMode ! 8 ! k \<noteq> 8" "bitDepthsPerMode ! 1 ! k \<noteq> 8" by (auto simp: bitDepthsPerMode_def)
    qed
    ultimately show ?thesis using assms(4) by metis
  qed
  have index: "(word_of_int (int c) :: u8) = ucast (cell p l c)" using cell_colour(1) [of p l c] b by simp
  have "ppu_getPixel rd x y sub = (l, color_channel (ppu_cgram ?ppu (ucast (cell p l c))))"
    unfolding ppu_getPixel_def Let_def assms(1) prod.case if_not_P [OF direct]
    using l index by (cases "c < 0xc0") (auto simp: cl draw_layer_def)
  then show ?thesis using l(1) by (simp add: shows_cell_def cl fun_eq_iff color_channel_chan)
qed

text \<open>The older renderer with the starts of mode 7 in place.\<close>

definition prepared :: "int \<Rightarrow> renderer \<Rightarrow> renderer" where
  "prepared y rd = (if PPU_mode (rd_ppu rd) = 7 then ppu_calculateMode7Starts y rd else rd)"

lemma prepared_simps [simp]:
  "rd_ppu (prepared y rd) = rd_ppu rd" "rd_renderBuffer (prepared y rd) = rd_renderBuffer rd"
  "rd_renderPitch (prepared y rd) = rd_renderPitch rd" "rd_extraLeftRight (prepared y rd) = rd_extraLeftRight rd"
  by (simp_all add: prepared_def ppu_calculateMode7Starts_def Let_def)

lemma getPixel_screen_cell:
  assumes c: "common_features (rd_ppu rd)" "no_margins rd" "sprites_flagged rd"
    and x: "0 \<le> x" "x < 256" and y: "0 \<le> y" "y < 256" and ok: "renderer_ok rd" "obj_line_ok rd"
  shows "shows_cell (rd_ppu rd) (ppu_getPixel (prepared y rd) x y sub) (screen_cell rd sub y x)"
proof -
  have co: "cell_ok (screen_cell rd sub y x)" using stack_cell(2) [OF ok] x by simp
  have m: "PPU_mode (rd_ppu rd) = 1 \<or> PPU_mode (rd_ppu rd) = 7 \<and> \<not> PPU_directColor (rd_ppu rd)"
    using c(1) by (auto simp: common_features_def)
  then have mode: "PPU_mode (rd_ppu rd) = 1 \<or> PPU_mode (rd_ppu rd) = 7" by blast
  then have "pixel_loop (mode_layers (act_mode (rd_ppu rd))) (prepared y rd) x y sub 0
      = (draw_layer (screen_cell rd sub y x), int (snd (snd (screen_cell rd sub y x)))) \<and> cell_layer_ok (screen_cell rd sub y x)"
  proof
    assume 1: "PPU_mode (rd_ppu rd) = 1"
    then have "prepared y rd = rd" by (simp add: prepared_def)
    then show ?thesis using mode1_walk [OF 1 c x ok] by simp
  next
    assume 7: "PPU_mode (rd_ppu rd) = 7"
    then have "prepared y rd = ppu_calculateMode7Starts y rd" by (simp add: prepared_def)
    then show ?thesis using mode7_walk [OF 7 c x y ok] by simp
  qed
  then show ?thesis using walk_shows_cell [of "prepared y rd" x y sub "screen_cell rd sub y x"] co m unfolding prepared_simps by blast
qed

end
