(* ===== verification/Ppu_Frame.thy ===== *)
theory Ppu_Frame
  imports Ppu_Equiv
begin

text \<open>
  Lines and frames. \<open>PpuDrawWholeLine\<close> and \<open>PpuDrawWholeLineOldPpu\<close> store the same bytes for a line, the
  sprites of a line leave what both need, and the frames the debug server draws with \<open>ppu_runLine\<close> are
  the same with either renderer.
\<close>

section \<open>A line\<close>

text \<open>The loop over the columns stores the bytes of the pixels in order.\<close>

definition old_bytes :: "renderer \<Rightarrow> int \<Rightarrow> int \<Rightarrow> u8 list" where
  "old_bytes rd x y = map (\<lambda>k. bright (PPU_brightness (rd_ppu rd)) (nat (pixel_color rd x y k))) [2, 1, 0] @ [0]"

lemma old_columns_put:
  assumes g: "\<And>x out. 0 \<le> x \<Longrightarrow> x < 256 \<Longrightarrow> old_bytes (rd\<lparr>rd_renderBuffer := out\<rparr>) x y = g x"
    and y: "1 \<le> y" and x: "0 \<le> x" "x + int n = 256"
    and fit: "(y - 1) * int (rd_renderPitch rd) + (256 + uint (rd_extraLeftRight rd)) * 4 \<le> int (length buf)"
  shows "old_columns n x y (rd\<lparr>rd_renderBuffer := buf\<rparr>) = map_option (\<lambda>out. rd\<lparr>rd_renderBuffer := out\<rparr>)
    (put_bytes ((y - 1) * int (rd_renderPitch rd) + (x + uint (rd_extraLeftRight rd)) * 4) (columns g x 256) buf)"
  using x fit
proof (induction n arbitrary: x buf)
  case 0
  then show ?case using y by (simp add: columns_def put_bytes_def nat_le_iff add.commute)
next
  case (Suc n)
  let ?at = "\<lambda>x. (y - 1) * int (rd_renderPitch rd) + (x + uint (rd_extraLeftRight rd)) * 4"
  have px: "old_bytes (rd\<lparr>rd_renderBuffer := buf\<rparr>) x y = g x" using g Suc.prems by simp
  have len4: "length (g x) = 4" using px [symmetric] by (simp add: old_bytes_def)
  have dst: "0 \<le> ?at x" "nat (?at x) + 4 \<le> length buf"
  proof -
    show "0 \<le> ?at x" using y Suc.prems(1) by simp
    then have "int (nat (?at x) + 4) \<le> int (length buf)" using Suc.prems(2,3) by simp
    then show "nat (?at x) + 4 \<le> length buf" by (simp only: of_nat_le_iff)
  qed
  then obtain out where out: "put_bytes (?at x) (g x) buf = Some out" "length out = length buf"
    by (simp add: put_bytes_def len4)
  have one: "columns g x (x + 1) = g x" by (simp add: columns_def)
  have "columns g x 256 = g x @ columns g (x + 1) 256"
    using columns_split [of x "x + 1" 256 g] Suc.prems(2) one by simp
  moreover have "?at x + 4 = ?at (x + 1)" by simp
  moreover have "ppu_handlePixel x y (rd\<lparr>rd_renderBuffer := buf\<rparr>) = Some (rd\<lparr>rd_renderBuffer := out\<rparr>)"
    using px out(1) by (simp add: ppu_handlePixel_def old_bytes_def Let_def)
  moreover have "old_columns n (x + 1) y (rd\<lparr>rd_renderBuffer := out\<rparr>) = map_option (\<lambda>out. rd\<lparr>rd_renderBuffer := out\<rparr>)
    (put_bytes (?at (x + 1)) (columns g (x + 1) 256) out)"
    using Suc.prems out(2) by (intro Suc.IH) simp_all
  ultimately show ?case using out by (simp add: put_bytes_append len4 ac_simps)
qed

text \<open>The picture drawn so far, the buffers of the screens and the starts of mode 7 have no part in a pixel.\<close>

definition same_scene :: "renderer \<Rightarrow> renderer \<Rightarrow> bool" where
  "same_scene rd rd' \<longleftrightarrow> rd_ppu rd = rd_ppu rd' \<and> rd_lineHasSprites rd = rd_lineHasSprites rd' \<and> rd_objBuffer rd = rd_objBuffer rd'
     \<and> rd_extraLeftCur rd = rd_extraLeftCur rd' \<and> rd_extraRightCur rd = rd_extraRightCur rd'
     \<and> rd_wsHudSplitHeight rd = rd_wsHudSplitHeight rd' \<and> rd_wsHudLeftEnd rd = rd_wsHudLeftEnd rd'
     \<and> rd_wsHudRightStart rd = rd_wsHudRightStart rd' \<and> rd_wsBg3WidenY rd = rd_wsBg3WidenY rd'"

lemma same_scene_bytes:
  assumes "same_scene rd rd'"
  shows "line_bytes rd = line_bytes rd'"
proof -
  have f: "rd_ppu rd' = rd_ppu rd" "rd_lineHasSprites rd' = rd_lineHasSprites rd" "rd_objBuffer rd' = rd_objBuffer rd"
    "rd_extraLeftCur rd' = rd_extraLeftCur rd" "rd_extraRightCur rd' = rd_extraRightCur rd"
    "rd_wsHudSplitHeight rd' = rd_wsHudSplitHeight rd" "rd_wsHudLeftEnd rd' = rd_wsHudLeftEnd rd"
    "rd_wsHudRightStart rd' = rd_wsHudRightStart rd" "rd_wsBg3WidenY rd' = rd_wsBg3WidenY rd"
    using assms by (simp_all add: same_scene_def)
  have w: "window_left rd' = window_left rd" "window_right rd' = window_right rd"
    by (simp_all add: fun_eq_iff window_left_def window_right_def PpuLayerExtra_def f)
  have c: "PpuWindows_Calc rd' = PpuWindows_Calc rd" unfolding fun_eq_iff PpuWindows_Calc_def w f by simp
  have lw: "layer_windows rd' = layer_windows rd" unfolding fun_eq_iff layer_windows_def c PpuWindows_Clear_def w f by simp
  have h: "hud_active rd' = hud_active rd" "hud_source rd' = hud_source rd"
    by (simp_all add: fun_eq_iff hud_active_def hud_source_def f)
  have l: "layer_on rd' = layer_on rd" unfolding fun_eq_iff layer_on_def w f by simp
  have o: "obj_at rd' = obj_at rd" by (simp add: fun_eq_iff obj_at_def f)
  have g: "bg3_source rd' = bg3_source rd" unfolding fun_eq_iff bg3_source_def column_source_def w h f lw by simp
  have "screen_cell rd' = screen_cell rd"
    unfolding fun_eq_iff screen_cell_def mode1_cell_def mode7_cell_def f l o g by (rule refl | intro allI)+
  then show ?thesis by (simp add: fun_eq_iff line_bytes_def f)
qed

lemma line_bytes_out [simp]: "line_bytes (rd\<lparr>rd_renderBuffer := out\<rparr>) = line_bytes rd"
  by (rule same_scene_bytes) (simp add: same_scene_def)

lemma old_bytes_shown:
  assumes c: "common_features (rd_ppu rd)" "no_margins rd" "sprites_flagged rd" "\<not> PPU_forcedBlank (rd_ppu rd)"
    and x: "0 \<le> x" "x < 256" and y: "0 \<le> y" "y < 256" and ok: "renderer_ok rd" "obj_line_ok rd"
  shows "old_bytes (prepared y rd) x y = line_bytes rd y x"
proof -
  let ?ppu = "rd_ppu rd"
  have w: "windows_or ?ppu 5" using c(1) by (simp add: common_features_def)
  have ce: "cell_ok (screen_cell rd sub y x)" for sub using stack_cell(2) [OF ok] x by simp
  have "pixel_color (prepared y rd) x y k = int (shown ?ppu (window_allows (PPU_clipMode ?ppu) (colour_window ?ppu x))
    (window_allows (PPU_preventMathMode ?ppu) (colour_window ?ppu x)) (cell3 (screen_cell rd False y x)) (cell3 (screen_cell rd True y x)) k)" for k
    using getPixel_screen_cell [OF c(1-3) x y ok] ce by (intro pixel_color_shown [OF w c(4)]) simp_all
  then show ?thesis by (simp add: old_bytes_def line_bytes_def pixel_bytes_def Let_def)
qed

lemma prepared_put: "prepared y rd\<lparr>rd_renderBuffer := out\<rparr> = prepared y (rd\<lparr>rd_renderBuffer := out\<rparr>)"
  by (simp add: prepared_def ppu_calculateMode7Starts_def Let_def)

lemma old_bytes_line:
  assumes c: "common_features (rd_ppu rd)" "no_margins rd" "sprites_flagged rd" "\<not> PPU_forcedBlank (rd_ppu rd)"
    and x: "0 \<le> x" "x < 256" and y: "0 \<le> y" "y < 256" and ok: "renderer_ok rd" "obj_line_ok rd"
  shows "old_bytes (prepared y rd\<lparr>rd_renderBuffer := out\<rparr>) x y = line_bytes rd y x"
  using old_bytes_shown [of "rd\<lparr>rd_renderBuffer := out\<rparr>", OF _ _ _ _ x y] c ok
  by (simp add: prepared_put no_margins_def sprites_flagged_def renderer_ok_def obj_line_ok_def)

lemma old_bytes_blank: "PPU_forcedBlank (rd_ppu rd) \<Longrightarrow> old_bytes rd x y = [0, 0, 0, 0]"
  by (simp add: old_bytes_def pixel_color_def bright_def)

lemma columns_constant: "columns (\<lambda>_. [0, 0, 0, 0]) 0 (int n) = replicate (4 * n) 0"
  by (rule replicate_eqI) (auto simp: columns_def length_concat o_def sum_list_triv split: if_splits)

lemma common_features_mosaic: "common_features ppu \<Longrightarrow> no_mosaic ppu"
proof -
  assume c: "common_features ppu"
  have "PPU_mosaicSize ppu = 1 \<or> PPU_mosaicSize ppu > 1" using uint_ge_0 [of "drop_bit 4 (ppu_mosaic ppu)"] unfolding PPU_mosaicSize_def by linarith
  then show ?thesis using c by (auto simp: common_features_def no_mosaic_def mosaic_on_def)
qed

text \<open>Both renderers store the same bytes at the same place; they differ in what they leave behind otherwise.\<close>

definition line_picture :: "int \<Rightarrow> renderer \<Rightarrow> u8 list" where
  "line_picture y rd = (if PPU_forcedBlank (rd_ppu rd) then replicate 1024 0 else columns (line_bytes rd y) 0 256)"

definition line_place :: "int \<Rightarrow> renderer \<Rightarrow> int" where
  "line_place y rd = (y - 1) * int (rd_renderPitch rd) + uint (rd_extraLeftRight rd) * 4"

definition line_fits :: "int \<Rightarrow> renderer \<Rightarrow> bool" where
  "line_fits y rd \<longleftrightarrow>
     (y - 1) * int (rd_renderPitch rd) + 4 * (256 + 2 * uint (rd_extraLeftRight rd)) \<le> int (length (rd_renderBuffer rd))"

definition drawable :: "renderer \<Rightarrow> bool" where
  "drawable rd \<longleftrightarrow> renderer_ok rd \<and> common_features (rd_ppu rd) \<and> no_margins rd
     \<and> (PPU_forcedBlank (rd_ppu rd) \<longrightarrow> rd_extraLeftRight rd = 0)"

lemma length_line_picture: "length (line_picture y rd) = 1024"
proof -
  have "length (line_bytes rd y x) = 4" for x by (simp add: line_bytes_def pixel_bytes_def Let_def)
  then show ?thesis using length_columns [of "line_bytes rd y" 0 256] by (simp add: line_picture_def)
qed

lemma line_stored:
  assumes "1 \<le> y" "line_fits y rd"
  obtains out where "put_bytes (line_place y rd) (line_picture y rd) (rd_renderBuffer rd) = Some out"
    "length out = length (rd_renderBuffer rd)"
proof -
  have "0 \<le> line_place y rd" using assms(1) by (simp add: line_place_def)
  moreover have "line_place y rd + 1024 \<le> int (length (rd_renderBuffer rd))"
    by (rule order_trans [OF _ assms(2) [unfolded line_fits_def]]) (simp add: line_place_def)
  with calculation have "int (nat (line_place y rd) + 1024) \<le> int (length (rd_renderBuffer rd))" by simp
  then have "nat (line_place y rd) + 1024 \<le> length (rd_renderBuffer rd)" by (simp only: of_nat_le_iff)
  ultimately show thesis using that by (simp add: put_bytes_def length_line_picture)
qed

lemma new_line:
  assumes "drawable rd" "tables_ok rd" "obj_line_ok rd" "1 \<le> y" "line_fits y rd"
  obtains bufs out where "PpuDrawWholeLine y rd = Some (rd\<lparr>rd_bgBuffers := bufs, rd_renderBuffer := out\<rparr>)"
    "length bufs = 2" "\<forall>b\<in>set bufs. length b = 448"
    "put_bytes (line_place y rd) (line_picture y rd) (rd_renderBuffer rd) = Some out"
proof (cases "PPU_forcedBlank (rd_ppu rd)")
  case False
  have d: "renderer_ok rd" "common_features (rd_ppu rd)" "no_margins rd" using assms(1) by (simp_all add: drawable_def)
  show thesis
    using draw_whole_line [OF d(1) assms(2-4) common_features_mosaic [OF d(2)] False assms(5) [unfolded line_fits_def]] d(3) that False
    by (auto simp: no_margins_def line_place_def line_picture_def mult.commute)
next
  case True
  obtain out where out: "put_bytes (line_place y rd) (line_picture y rd) (rd_renderBuffer rd) = Some out"
    using line_stored [OF assms(4,5)] by metis
  have "rd_extraLeftRight rd = 0" "renderer_ok rd" using assms(1) True by (simp_all add: drawable_def)
  moreover have "rd\<lparr>rd_renderBuffer := out\<rparr> = rd\<lparr>rd_bgBuffers := rd_bgBuffers rd, rd_renderBuffer := out\<rparr>" by simp
  ultimately show thesis
    using True assms(4) out that [of out "rd_bgBuffers rd"]
    by (simp add: PpuDrawWholeLine_def line_place_def line_picture_def renderer_ok_def Let_def)
qed

lemma old_line:
  assumes "drawable rd" "obj_line_ok rd" "sprites_flagged rd" "1 \<le> y" "y < 256" "line_fits y rd"
  shows "PpuDrawWholeLineOldPpu y rd = map_option (\<lambda>out. prepared y rd\<lparr>rd_renderBuffer := out\<rparr>)
    (put_bytes (line_place y rd) (line_picture y rd) (rd_renderBuffer rd))"
proof -
  have fit4: "(y - 1) * int (rd_renderPitch rd) + (256 + uint (rd_extraLeftRight rd)) * 4 \<le> int (length (rd_renderBuffer rd))"
    by (rule order_trans [OF _ assms(6) [unfolded line_fits_def]]) simp
  have old: "PpuDrawWholeLineOldPpu y rd = map_option (\<lambda>out. prepared y rd\<lparr>rd_renderBuffer := out\<rparr>)
      (put_bytes (line_place y rd) (columns g 0 256) (rd_renderBuffer rd))"
    if "\<And>x out. 0 \<le> x \<Longrightarrow> x < 256 \<Longrightarrow> old_bytes (prepared y rd\<lparr>rd_renderBuffer := out\<rparr>) x y = g x" for g
    using old_columns_put [of "prepared y rd" y g 0 256 "rd_renderBuffer rd"] that assms(4) fit4
    by (simp add: PpuDrawWholeLineOldPpu_def prepared_def [symmetric] prepared_put line_place_def)
  show ?thesis
  proof (cases "PPU_forcedBlank (rd_ppu rd)")
    case False
    have d: "common_features (rd_ppu rd)" "no_margins rd" "renderer_ok rd" using assms(1) by (simp_all add: drawable_def)
    have "old_bytes (prepared y rd\<lparr>rd_renderBuffer := out\<rparr>) x y = line_bytes rd y x" if "0 \<le> x" "x < 256" for x out
      using old_bytes_line [OF d(1,2) assms(3) False that _ assms(5) d(3) assms(2)] assms(4) by simp
    from old [of "line_bytes rd y", OF this] show ?thesis by (simp add: line_picture_def False)
  next
    case True
    have "old_bytes (prepared y rd\<lparr>rd_renderBuffer := out\<rparr>) x y = [0, 0, 0, 0]" for x out
      by (rule old_bytes_blank) (simp add: True)
    from old [of "\<lambda>_. [0, 0, 0, 0]", OF this] show ?thesis
      using columns_constant [of 256] by (simp add: line_picture_def True)
  qed
qed

section \<open>The line of sprites\<close>

lemma nat_bit_2: "k < 8 \<Longrightarrow> bit k 2 \<longleftrightarrow> \<not> k < 4" for k :: nat
proof -
  assume "k < 8"
  then have "k \<in> {0, 1, 2, 3, 4, 5, 6, 7}" by auto
  then show ?thesis by (auto simp: bit_nat_iff bit_iff_odd)
qed

lemma low_bits_u16:
  fixes w :: u16
  shows "unat (drop_bit 9 (w AND 0xe00)) < 8" "unat (drop_bit 12 (w AND 0x3000)) < 4"
    "tst w 0x800 \<longleftrightarrow> \<not> unat (drop_bit 9 (w AND 0xe00)) < 4"
proof -
  have k: "drop_bit 9 (w AND 0xe00) = take_bit 3 (drop_bit 9 w)" by (simp add: take_bit_eq_mask mask_eq_exp_minus_1)
  have p: "drop_bit 12 (w AND 0x3000) = take_bit 2 (drop_bit 12 w)" by (simp add: take_bit_eq_mask mask_eq_exp_minus_1)
  show k8: "unat (drop_bit 9 (w AND 0xe00)) < 8"
    using take_bit_nat_less_exp [of 3 "unat (drop_bit 9 w)"] unfolding k by (simp only: unsigned_take_bit_eq) simp
  show "unat (drop_bit 12 (w AND 0x3000)) < 4"
    using take_bit_nat_less_exp [of 2 "unat (drop_bit 12 w)"] unfolding p by (simp only: unsigned_take_bit_eq) simp
  have "bit (unat (drop_bit 9 (w AND 0xe00))) 2 = bit (drop_bit 9 (w AND 0xe00)) 2" by (simp only: bit_unsigned_iff) simp
  also have "\<dots> = bit w 11" unfolding k by (simp add: bit_simps)
  also have "\<dots> = tst w 0x800" using tst_bit [of w 11] by simp
  finally show "tst w 0x800 \<longleftrightarrow> \<not> unat (drop_bit 9 (w AND 0xe00)) < 4" using nat_bit_2 [OF k8] by simp
qed

lemma sliver_cell:
  assumes "sliver_of ppu sp col = Some sl"
  shows "\<exists>pr k. pr < 4 \<and> k < 8 \<and> sl_z sl = cell (4 * pr + 2) (if k < 4 then 6 else 4) (128 + 16 * k)"
proof -
  define k where "k = unat (drop_bit 9 (sp_oam1 sp AND 0xe00))"
  define pr where "pr = unat (drop_bit 12 (sp_oam1 sp AND 0x3000))"
  have w: "drop_bit 9 (sp_oam1 sp AND 0xe00) = word_of_nat k" "drop_bit 12 (sp_oam1 sp AND 0x3000) = word_of_nat pr"
    by (simp_all add: k_def pr_def del: drop_bit_and)
  have "sl_z sl = 0x80 + 16 * drop_bit 9 (sp_oam1 sp AND 0xe00)
      + push_bit 8 (SPRITE_PRIO_TO_PRIO (drop_bit 12 (sp_oam1 sp AND 0x3000)) (\<not> tst (sp_oam1 sp) 0x800))"
    using assms by (auto simp: sliver_of_def Let_def simp del: drop_bit_and split: bind_splits)
  also have "\<dots> = 0x80 + 16 * word_of_nat k + push_bit 8 (SPRITE_PRIO_TO_PRIO (word_of_nat pr) (k < 4))"
    using low_bits_u16(3) [of "sp_oam1 sp", folded k_def] by (simp only: w not_not)
  also have "\<dots> = cell (4 * pr + 2) (if k < 4 then 6 else 4) (128 + 16 * k)"
    by (simp add: cell_def SPRITE_PRIO_TO_PRIO_def push_bit_eq_mult algebra_simps)
  finally show ?thesis using low_bits_u16(1,2) [of "sp_oam1 sp"] unfolding k_def [symmetric] pr_def [symmetric] by blast
qed


lemma object_at_cell:
  assumes "\<And>sl. sl \<in> set sls \<Longrightarrow> \<exists>pr k. pr < 4 \<and> k < 8 \<and> sl_z sl = cell (4 * pr + 2) (if k < 4 then 6 else 4) (128 + 16 * k)"
  shows "\<exists>cl. obj_cell (object_at sls x 0x0500) cl"
proof (cases "find (opaque_at x) sls")
  case None
  then show ?thesis by (intro exI [of _ "(0, 5, 0)"]) (simp add: object_at_def obj_cell_def backdrop_cell)
next
  case (Some sl)
  then have "sl \<in> set sls" by (auto simp: find_Some_iff)
  then obtain pr k where z: "pr < 4" "k < 8" "sl_z sl = cell (4 * pr + 2) (if k < 4 then 6 else 4) (128 + 16 * k)"
    using assms by blast
  define px where "px = unat (sliver_pixel sl (x - sl_x sl))"
  have px: "px < 16" "unat (ucast (sliver_pixel sl (x - sl_x sl)) :: u16) = px"
    using sliver_pixel_small [of sl "x - sl_x sl"] by (simp_all add: px_def unsigned_ucast_eq take_bit_nat_eq_self)
  have "object_at sls x 0x0500 = cell (4 * pr + 2) (if k < 4 then 6 else 4) (128 + 16 * k) + ucast (sliver_pixel sl (x - sl_x sl))"
    by (simp only: object_at_def Some option.case z(3))
  also have "\<dots> = cell (4 * pr + 2) (if k < 4 then 6 else 4) (128 + 16 * k + px)"
    using cell_add [of "128 + 16 * k" "ucast (sliver_pixel sl (x - sl_x sl))"] z(2) px by simp
  also have "(if k < 4 then 6 else 4) = (if 128 + 16 * k + px < 0xc0 then 6 else (4 :: nat))" using px(1) by auto
  finally have "obj_cell (object_at sls x 0x0500) (4 * pr + 2, if 128 + 16 * k + px < 0xc0 then 6 else 4, 128 + 16 * k + px)"
    using z(1,2) px(1) unfolding obj_cell_def by (intro conjI disjI2 exI [of _ pr] exI [of _ "128 + 16 * k + px"]) simp_all
  then show ?thesis by blast
qed

lemma slivers_cells:
  "sl \<in> set (take n (slivers rd sps)) \<Longrightarrow> \<exists>pr k. pr < 4 \<and> k < 8 \<and> sl_z sl = cell (4 * pr + 2) (if k < 4 then 6 else 4) (128 + 16 * k)"
proof -
  assume "sl \<in> set (take n (slivers rd sps))"
  then have "sl \<in> set (slivers rd sps)" by (rule in_set_takeD)
  then obtain sp col where "sl = the (sliver_of (rd_ppu rd) sp col)" by (auto simp: slivers_def)
  then have "sliver_of (rd_ppu rd) sp col = Some sl" using sliver_of_ok [of "rd_ppu rd" sp col] by auto
  then show ?thesis by (rule sliver_cell)
qed

text \<open>After the sprites of a line are evaluated its objects are cells, and none are there unless flagged.\<close>

lemma evaluated_line:
  assumes "obj_ok rd" "rd_objBuffer rd = ClearBackdrop"
  obtains has objs timeOver rangeOver where
    "ppu_evaluateSprites line rd = Some (has, rd\<lparr>rd_objBuffer := objs, rd_ppu := (rd_ppu rd)\<lparr>ppu_timeOver := timeOver, ppu_rangeOver := rangeOver\<rparr>\<rparr>)"
    "length objs = 448" "\<forall>v\<in>set objs. \<exists>cl. obj_cell v cl" "has \<or> objs = ClearBackdrop"
proof -
  define sls where "sls = slivers rd (take 32 (sprites_on_line rd line))"
  define objs where "objs = map (\<lambda>i. object_at (take 34 sls) (int i - 96) 0x0500) [0..<448]"
  have "rd_objBuffer rd = replicate 448 0x0500"
    using assms(2) by (simp add: ClearBackdrop_def kPpuBufWidth_def kPpuXPixels_def kPpuExtraLeftRight_def)
  from evaluate_sprites [OF assms(1) this, of line, folded sls_def objs_def]
  have "ppu_evaluateSprites line rd = Some (sls \<noteq> [], rd\<lparr>rd_objBuffer := objs, rd_ppu := (rd_ppu rd)
    \<lparr>ppu_timeOver := ppu_timeOver (rd_ppu rd) \<or> length sls > 34,
     ppu_rangeOver := ppu_rangeOver (rd_ppu rd) \<or> (length (sprites_on_line rd line) > 32 \<and> length sls \<le> 34)\<rparr>\<rparr>)" by (simp add: objs_def)
  moreover have "length objs = 448" by (simp add: objs_def)
  moreover have "\<forall>v\<in>set objs. \<exists>cl. obj_cell v cl"
    using object_at_cell [of "take 34 sls"] slivers_cells [of _ 34 rd "take 32 (sprites_on_line rd line)"]
    unfolding objs_def sls_def by auto
  moreover have "sls \<noteq> [] \<or> objs = ClearBackdrop"
    by (auto simp: objs_def object_at_def ClearBackdrop_def kPpuBufWidth_def kPpuXPixels_def kPpuExtraLeftRight_def map_replicate_const)
  ultimately show thesis by (rule that)
qed

section \<open>The frame\<close>

text \<open>The tables of brightness belong to the brightness they were last computed for.\<close>

definition brightness_cached :: "renderer \<Rightarrow> bool" where
  "brightness_cached rd \<longleftrightarrow> (let b = rd_lastBrightnessMult rd in
     rd_brightnessMult rd = map (bright b) [0..<32] @ replicate 31 (bright b 31)
     \<and> rd_brightnessMultHalf rd = map (\<lambda>i. bright b (i div 2)) [0..<64])"

lemma cached_tables:
  assumes "brightness_cached rd"
  shows "brightness_cached (cache_brightness rd)" "tables_ok (cache_brightness rd)"
  using assms by (auto simp: brightness_cached_def tables_ok_def cache_brightness_def Let_def)

lemma reset_cached: "brightness_cached (renderer_reset rd)"
proof -
  have "bright 0 = (\<lambda>i. 0)" by (simp add: fun_eq_iff bright_def)
  then show ?thesis by (simp add: brightness_cached_def renderer_reset_def map_replicate_const replicate_add [symmetric])
qed

lemma cache_brightness_keeps:
  "rd_ppu (cache_brightness rd) = rd_ppu rd" "rd_renderBuffer (cache_brightness rd) = rd_renderBuffer rd"
  "rd_renderPitch (cache_brightness rd) = rd_renderPitch rd" "rd_extraLeftRight (cache_brightness rd) = rd_extraLeftRight rd"
  "rd_extraLeftCur (cache_brightness rd) = rd_extraLeftCur rd" "rd_extraRightCur (cache_brightness rd) = rd_extraRightCur rd"
  "rd_bgBuffers (cache_brightness rd) = rd_bgBuffers rd" "rd_wsHudSplitHeight (cache_brightness rd) = rd_wsHudSplitHeight rd"
  "rd_wsHudLeftEnd (cache_brightness rd) = rd_wsHudLeftEnd rd" "rd_wsHudRightStart (cache_brightness rd) = rd_wsHudRightStart rd"
  by (simp_all add: cache_brightness_def Let_def)

lemma flags_irrelevant:
  "common_features (ppu\<lparr>ppu_timeOver := t, ppu_rangeOver := r\<rparr>) = common_features ppu"
  "PPU_forcedBlank (ppu\<lparr>ppu_timeOver := t, ppu_rangeOver := r\<rparr>) = PPU_forcedBlank ppu"
  "PPU_brightness (ppu\<lparr>ppu_timeOver := t, ppu_rangeOver := r\<rparr>) = PPU_brightness ppu"
  by (simp_all add: common_features_def PPU_mode_def PPU_bigTiles_def mosaic_on_def PPU_mosaicEnabled_def PPU_mosaicSize_def
    PPU_m7extBg_def PPU_directColor_def windows_or_def GET_WINDOW_FLAGS_def PPU_forcedBlank_def PPU_brightness_def)

lemma ClearBackdrop_objects: "length ClearBackdrop = 448" "\<forall>v\<in>set ClearBackdrop. \<exists>cl. obj_cell v cl"
proof -
  have "obj_cell 0x0500 (0, 5, 0)" by (simp add: obj_cell_def backdrop_cell)
  then show "\<forall>v\<in>set ClearBackdrop. \<exists>cl. obj_cell v cl" by (auto simp: ClearBackdrop_def)
  show "length ClearBackdrop = 448" by (simp add: ClearBackdrop_def kPpuBufWidth_def kPpuXPixels_def kPpuExtraLeftRight_def)
qed


text \<open>A line as both renderers find it: brightness cached, sprites evaluated.\<close>

definition started :: "int \<Rightarrow> renderer \<Rightarrow> renderer" where
  "started line rd =
     (let rd = (cache_brightness rd)\<lparr>rd_objBuffer := ClearBackdrop\<rparr> in
      if PPU_forcedBlank (rd_ppu rd) then rd\<lparr>rd_lineHasSprites := False\<rparr>
      else case ppu_evaluateSprites (line - 1) rd of None \<Rightarrow> rd | Some (lineHasSprites, rd) \<Rightarrow> rd\<lparr>rd_lineHasSprites := lineHasSprites\<rparr>)"

definition ready :: "renderer \<Rightarrow> bool" where
  "ready rd \<longleftrightarrow> drawable rd \<and> brightness_cached rd"

lemma started_line:
  assumes "ready rd"
  obtains has objs timeOver rangeOver where
    "started line rd = (cache_brightness rd)\<lparr>rd_objBuffer := objs,
       rd_ppu := (rd_ppu rd)\<lparr>ppu_timeOver := timeOver, ppu_rangeOver := rangeOver\<rparr>, rd_lineHasSprites := has\<rparr>"
    "length objs = 448" "\<forall>v\<in>set objs. \<exists>cl. obj_cell v cl" "has \<or> objs = ClearBackdrop"
    "line \<noteq> 0 \<Longrightarrow> ppu_runLine g_new_ppu line rd =
       (if g_new_ppu then PpuDrawWholeLine line (started line rd) else PpuDrawWholeLineOldPpu line (started line rd))"
proof -
  let ?rd = "(cache_brightness rd)\<lparr>rd_objBuffer := ClearBackdrop\<rparr>"
  show thesis
  proof (cases "PPU_forcedBlank (rd_ppu rd)")
    case True
    show thesis
    proof (rule that)
      show "started line rd = (cache_brightness rd)\<lparr>rd_objBuffer := ClearBackdrop, rd_ppu := (rd_ppu rd)
        \<lparr>ppu_timeOver := ppu_timeOver (rd_ppu rd), ppu_rangeOver := ppu_rangeOver (rd_ppu rd)\<rparr>, rd_lineHasSprites := False\<rparr>"
        using True by (simp add: started_def cache_brightness_def Let_def)
    qed (use True ClearBackdrop_objects in \<open>simp_all add: ppu_runLine_def started_def cache_brightness_keeps Let_def\<close>)
  next
    case False
    have "obj_ok ?rd"
      using assms by (simp add: obj_ok_def ready_def drawable_def no_margins_def cache_brightness_keeps ClearBackdrop_objects)
    then obtain has objs timeOver rangeOver where
      e: "ppu_evaluateSprites (line - 1) ?rd = Some (has, ?rd\<lparr>rd_objBuffer := objs, rd_ppu := (rd_ppu ?rd)\<lparr>ppu_timeOver := timeOver, ppu_rangeOver := rangeOver\<rparr>\<rparr>)"
      "length objs = 448" "\<forall>v\<in>set objs. \<exists>cl. obj_cell v cl" "has \<or> objs = ClearBackdrop"
      by (rule evaluated_line) simp
    show thesis
    proof (rule that [OF _ e(2-4)])
      show "started line rd = (cache_brightness rd)\<lparr>rd_objBuffer := objs, rd_ppu := (rd_ppu rd)
        \<lparr>ppu_timeOver := timeOver, ppu_rangeOver := rangeOver\<rparr>, rd_lineHasSprites := has\<rparr>"
        using False e(1) by (simp add: started_def cache_brightness_keeps)
    qed (use False e(1) in \<open>simp add: ppu_runLine_def started_def cache_brightness_keeps Let_def\<close>)
  qed
qed

lemma started_ready:
  assumes "ready rd"
  shows "drawable (started line rd)" "tables_ok (started line rd)" "brightness_cached (started line rd)"
    "obj_line_ok (started line rd)" "sprites_flagged (started line rd)" "line_fits y (started line rd) = line_fits y rd"
proof -
  obtain has objs timeOver rangeOver where s:
    "started line rd = (cache_brightness rd)\<lparr>rd_objBuffer := objs,
       rd_ppu := (rd_ppu rd)\<lparr>ppu_timeOver := timeOver, ppu_rangeOver := rangeOver\<rparr>, rd_lineHasSprites := has\<rparr>"
    "length objs = 448" "\<forall>v\<in>set objs. \<exists>cl. obj_cell v cl" "has \<or> objs = ClearBackdrop"
    by (rule started_line [OF assms])
  have r: "renderer_ok rd" "common_features (rd_ppu rd)" "no_margins rd" "PPU_forcedBlank (rd_ppu rd) \<longrightarrow> rd_extraLeftRight rd = 0"
      "brightness_cached rd" using assms by (simp_all add: ready_def drawable_def)
  show "drawable (started line rd)"
    using r s(2) by (simp add: drawable_def s(1) renderer_ok_def no_margins_def flags_irrelevant cache_brightness_keeps)
  show "tables_ok (started line rd)" "brightness_cached (started line rd)"
    using cached_tables [OF r(5)] by (simp_all add: s(1) tables_ok_def brightness_cached_def flags_irrelevant cache_brightness_keeps)
  show "obj_line_ok (started line rd)" "sprites_flagged (started line rd)"
    using s(3,4) by (simp_all add: s(1) obj_line_ok_def sprites_flagged_def)
  show "line_fits y (started line rd) = line_fits y rd" by (simp add: s(1) line_fits_def cache_brightness_keeps)
qed

text \<open>What a renderer may leave behind without a trace in the next line.\<close>

definition view :: "renderer \<Rightarrow> renderer" where
  "view rd = rd\<lparr>rd_bgBuffers := [], rd_m7startX := 0, rd_m7startY := 0\<rparr>"

lemma view_simps [simp]:
  "rd_ppu (view rd) = rd_ppu rd" "rd_renderBuffer (view rd) = rd_renderBuffer rd" "rd_renderPitch (view rd) = rd_renderPitch rd"
  "rd_extraLeftRight (view rd) = rd_extraLeftRight rd" "rd_objBuffer (view rd) = rd_objBuffer rd"
  "rd_extraLeftCur (view rd) = rd_extraLeftCur rd" "rd_extraRightCur (view rd) = rd_extraRightCur rd"
  by (simp_all add: view_def)

lemma evaluate_view:
  assumes "obj_ok rd" "rd_objBuffer rd = ClearBackdrop"
  shows "ppu_evaluateSprites line (view rd) = map_option (map_prod id view) (ppu_evaluateSprites line rd)"
proof -
  have sl: "slivers (view rd) = slivers rd"
  proof -
    have c: "col_on_line (view rd) = col_on_line rd" by (simp add: fun_eq_iff col_on_line_def)
    show ?thesis unfolding fun_eq_iff slivers_def c by simp
  qed
  have sp: "sprites_on_line (view rd) = sprites_on_line rd"
  proof -
    have c: "sprite_on_line (view rd) = sprite_on_line rd" by (simp add: fun_eq_iff sprite_on_line_def Let_def)
    show ?thesis unfolding fun_eq_iff sprites_on_line_def c by simp
  qed
  have b: "rd_objBuffer rd = replicate 448 0x0500" "rd_objBuffer (view rd) = replicate 448 0x0500"
    using assms(2) by (simp_all add: ClearBackdrop_def kPpuBufWidth_def kPpuXPixels_def kPpuExtraLeftRight_def)
  have o: "obj_ok (view rd)" using assms(1) by (simp add: obj_ok_def)
  have low: "(0x0500 :: u16) AND 0xff = 0" by simp
  show ?thesis unfolding evaluate_sprites [OF assms(1) b(1) low] evaluate_sprites [OF o b(2) low] sl sp by (simp add: view_def)
qed

lemma view_started:
  assumes "ready rd"
  shows "started line (view rd) = view (started line rd)"
proof -
  let ?rd = "(cache_brightness rd)\<lparr>rd_objBuffer := ClearBackdrop\<rparr>"
  have c: "(cache_brightness (view rd))\<lparr>rd_objBuffer := ClearBackdrop\<rparr> = view ?rd"
    by (simp add: cache_brightness_def view_def Let_def)
  have "obj_ok ?rd"
    using assms by (simp add: obj_ok_def ready_def drawable_def no_margins_def cache_brightness_keeps ClearBackdrop_objects)
  then have e: "ppu_evaluateSprites (line - 1) (view ?rd) = map_option (map_prod id view) (ppu_evaluateSprites (line - 1) ?rd)"
    by (rule evaluate_view) simp
  have f: "rd_ppu (view ?rd) = rd_ppu ?rd" by simp
  have h: "view rd'\<lparr>rd_lineHasSprites := has\<rparr> = view (rd'\<lparr>rd_lineHasSprites := has\<rparr>)" for rd' has by (simp add: view_def)
  show ?thesis
    unfolding started_def c Let_def e f h by (cases "ppu_evaluateSprites (line - 1) ?rd") (auto simp: h)
qed

lemma same_scene_view: "same_scene (view rd) rd"
  by (simp add: same_scene_def view_def)

lemma view_line: "line_picture y (view rd) = line_picture y rd" "line_place y (view rd) = line_place y rd"
  by (simp_all add: line_picture_def line_place_def same_scene_bytes [OF same_scene_view])

definition pre_line :: "renderer \<Rightarrow> renderer" where
  "pre_line rd = (cache_mosaic rd)\<lparr>rd_ppu := (rd_ppu rd)\<lparr>ppu_mosaicStartLine := 1, ppu_rangeOver := False, ppu_timeOver := False,
     ppu_evenFrame := \<not> ppu_evenFrame (rd_ppu rd)\<rparr>\<rparr>"

text \<open>A line as a change of the view.\<close>

definition line_done :: "int \<Rightarrow> renderer \<Rightarrow> renderer" where
  "line_done line v =
     (if line = 0 then pre_line v
      else let s = started line v
           in s\<lparr>rd_renderBuffer := the (put_bytes (line_place line s) (line_picture line s) (rd_renderBuffer s))\<rparr>)"

lemma run_pre_line: "ppu_runLine g_new_ppu 0 rd = Some (pre_line rd)"
  by (simp add: ppu_runLine_def pre_line_def cache_mosaic_def Let_def)

lemma pre_line_ready: "ready rd \<Longrightarrow> ready (pre_line rd)"
proof -
  have f: "common_features (ppu\<lparr>ppu_mosaicStartLine := m, ppu_rangeOver := r, ppu_timeOver := t, ppu_evenFrame := e\<rparr>) = common_features ppu"
    "PPU_forcedBlank (ppu\<lparr>ppu_mosaicStartLine := m, ppu_rangeOver := r, ppu_timeOver := t, ppu_evenFrame := e\<rparr>) = PPU_forcedBlank ppu" for ppu m r t e
    by (simp_all add: common_features_def PPU_mode_def PPU_bigTiles_def mosaic_on_def PPU_mosaicEnabled_def PPU_mosaicSize_def
      PPU_m7extBg_def PPU_directColor_def windows_or_def GET_WINDOW_FLAGS_def PPU_forcedBlank_def)
  show "ready rd \<Longrightarrow> ready (pre_line rd)"
    by (simp add: ready_def drawable_def renderer_ok_def no_margins_def brightness_cached_def pre_line_def cache_mosaic_def f Let_def)
qed

lemma run_line_done:
  assumes "ready rd" "0 \<le> line" "line < 256" "line_fits line rd"
  obtains rd' where "ppu_runLine g_new_ppu line rd = Some rd'" "view rd' = line_done line (view rd)" "ready rd'"
    "length (rd_renderBuffer rd') = length (rd_renderBuffer rd)"
    "rd_renderPitch rd' = rd_renderPitch rd" "rd_extraLeftRight rd' = rd_extraLeftRight rd"
proof (cases "line = 0")
  case True
  have "view (pre_line rd) = pre_line (view rd)" by (simp add: pre_line_def cache_mosaic_def view_def Let_def)
  then show thesis
    using that [of "pre_line rd"] True run_pre_line pre_line_ready [OF assms(1)]
    by (simp add: line_done_def) (simp add: pre_line_def cache_mosaic_def Let_def)
next
  case False
  then have line: "1 \<le> line" using assms(2) by simp
  let ?s = "started line rd"
  note s = started_ready [OF assms(1), of line]
  have keep: "rd_renderBuffer ?s = rd_renderBuffer rd" "rd_renderPitch ?s = rd_renderPitch rd" "rd_extraLeftRight ?s = rd_extraLeftRight rd"
    by (rule started_line [OF assms(1), of line]; simp add: cache_brightness_keeps)+
  have run: "ppu_runLine g_new_ppu line rd = (if g_new_ppu then PpuDrawWholeLine line ?s else PpuDrawWholeLineOldPpu line ?s)"
    by (rule started_line [OF assms(1), of line]) (use False in blast)
  have fit: "line_fits line ?s" using assms(4) s(6) by simp
  obtain bufs out where new: "PpuDrawWholeLine line ?s = Some (?s\<lparr>rd_bgBuffers := bufs, rd_renderBuffer := out\<rparr>)"
      "length bufs = 2" "\<forall>b\<in>set bufs. length b = 448"
      "put_bytes (line_place line ?s) (line_picture line ?s) (rd_renderBuffer ?s) = Some out"
    by (rule new_line [OF s(1,2,4) line fit])
  have old: "PpuDrawWholeLineOldPpu line ?s = Some (prepared line ?s\<lparr>rd_renderBuffer := out\<rparr>)"
    using old_line [OF s(1,4,5) line assms(3) fit] new(4) by simp
  have len: "length out = length (rd_renderBuffer rd)" using new(4) keep(1) by (auto simp: put_bytes_def split: if_splits)
  have fin: "line_done line (view rd) = view ?s\<lparr>rd_renderBuffer := out\<rparr>"
    using False new(4) by (simp add: line_done_def view_started [OF assms(1)] view_line Let_def)
  show thesis
  proof (cases g_new_ppu)
    case True
    show thesis
    proof (rule that)
      show "ppu_runLine g_new_ppu line rd = Some (?s\<lparr>rd_bgBuffers := bufs, rd_renderBuffer := out\<rparr>)" using run new(1) True by simp
      show "ready (?s\<lparr>rd_bgBuffers := bufs, rd_renderBuffer := out\<rparr>)"
        using s(1,3) new(2,3) by (simp add: ready_def drawable_def renderer_ok_def no_margins_def brightness_cached_def)
    qed (use fin keep len in \<open>simp_all add: view_def\<close>)
  next
    case False
    show thesis
    proof (rule that)
      show "ppu_runLine g_new_ppu line rd = Some (prepared line ?s\<lparr>rd_renderBuffer := out\<rparr>)" using run old False by simp
      show "ready (prepared line ?s\<lparr>rd_renderBuffer := out\<rparr>)"
        using s(1,3) by (simp add: ready_def drawable_def renderer_ok_def no_margins_def brightness_cached_def prepared_def
          ppu_calculateMode7Starts_def Let_def)
    qed (use fin keep len in \<open>simp_all add: view_def prepared_def ppu_calculateMode7Starts_def Let_def\<close>)
  qed
qed

text \<open>The frame the debug server draws for a screenshot and for a frame dump (\<open>debug_server.c\<close>): all
  lines into a buffer of 240 rows, then the buffer of the main loop again.\<close>

primrec run_lines :: "bool \<Rightarrow> nat \<Rightarrow> int \<Rightarrow> renderer \<Rightarrow> renderer option" where
  "run_lines g_new_ppu 0 i rd = Some rd"
| "run_lines g_new_ppu (Suc n) i rd = do { rd \<leftarrow> ppu_runLine g_new_ppu i rd; run_lines g_new_ppu n (i + 1) rd }"

definition draw_screenshot :: "bool \<Rightarrow> u8 list \<Rightarrow> renderer \<Rightarrow> (u8 list \<times> renderer) option" where
  "draw_screenshot g_new_ppu scr_pixels rd =
     (let saved_render_buffer = rd_renderBuffer rd; saved_render_pitch = rd_renderPitch rd in do {
        rd \<leftarrow> run_lines g_new_ppu 225 0 (PpuBeginDrawing scr_pixels (256 * 4) rd);
        Some (rd_renderBuffer rd, rd\<lparr>rd_renderBuffer := saved_render_buffer, rd_renderPitch := saved_render_pitch\<rparr>)
      })"

lemma run_lines_done:
  assumes "ready rd" "0 \<le> i" "i + int n \<le> 256" "line_fits (i + int n - 1) rd"
  shows "\<exists>rd'. run_lines g_new_ppu n i rd = Some rd' \<and> view rd' = fold line_done (map (\<lambda>k. i + int k) [0..<n]) (view rd)
    \<and> ready rd' \<and> length (rd_renderBuffer rd') = length (rd_renderBuffer rd)"
  using assms
proof (induction n arbitrary: i rd)
  case (Suc n)
  have fit: "line_fits j rd" if "j \<le> i + int n" for j
  proof -
    have "(j - 1) * int (rd_renderPitch rd) \<le> (i + int (Suc n) - 1 - 1) * int (rd_renderPitch rd)"
      using that by (intro mult_right_mono) simp_all
    then show ?thesis using Suc.prems(4) unfolding line_fits_def by linarith
  qed
  have one: "0 \<le> i" "i < 256" "line_fits i rd" using Suc.prems fit by simp_all
  obtain rd1 where rd1: "ppu_runLine g_new_ppu i rd = Some rd1" "view rd1 = line_done i (view rd)" "ready rd1"
      "length (rd_renderBuffer rd1) = length (rd_renderBuffer rd)"
      "rd_renderPitch rd1 = rd_renderPitch rd" "rd_extraLeftRight rd1 = rd_extraLeftRight rd"
    by (rule run_line_done [OF Suc.prems(1) one])
  have "line_fits (i + 1 + int n - 1) rd1" using fit [of "i + int n"] rd1(4-6) by (simp add: line_fits_def)
  then obtain rd2 where "run_lines g_new_ppu n (i + 1) rd1 = Some rd2"
      "view rd2 = fold line_done (map (\<lambda>k. i + 1 + int k) [0..<n]) (view rd1)" "ready rd2"
      "length (rd_renderBuffer rd2) = length (rd_renderBuffer rd1)"
    using Suc.IH [of rd1 "i + 1"] rd1(3) Suc.prems(2,3) by auto
  moreover have "map (\<lambda>k. i + int k) [0..<Suc n] = i # map (\<lambda>k. i + 1 + int k) [0..<n]"
    by (simp only: map_upt_Suc) (simp add: algebra_simps)
  ultimately show ?case using rd1 by simp
qed simp

lemma screenshot_drawn:
  assumes "ready rd" "length scr_pixels = 256 * 4 * 240"
  shows "\<exists>pixels rd'. draw_screenshot g_new_ppu scr_pixels rd = Some (pixels, rd') \<and> ready rd'
    \<and> pixels = rd_renderBuffer (fold line_done (map int [0..<225]) (view (PpuBeginDrawing scr_pixels 1024 rd)))
    \<and> length pixels = length scr_pixels \<and> rd_renderBuffer rd' = rd_renderBuffer rd \<and> rd_renderPitch rd' = rd_renderPitch rd
    \<and> view rd' = (fold line_done (map int [0..<225]) (view (PpuBeginDrawing scr_pixels 1024 rd)))
        \<lparr>rd_renderBuffer := rd_renderBuffer rd, rd_renderPitch := rd_renderPitch rd\<rparr>"
proof -
  let ?rd = "PpuBeginDrawing scr_pixels 1024 rd"
  have r: "renderer_ok rd" "rd_extraLeftRight rd \<le> 96" using assms(1) by (simp_all add: ready_def drawable_def renderer_ok_def)
  have "ready ?rd"
    using assms(1) by (simp add: ready_def drawable_def renderer_ok_def no_margins_def brightness_cached_def PpuBeginDrawing_def)
  moreover have "line_fits (0 + int 225 - 1) ?rd"
    using r(2) assms(2) by (simp add: line_fits_def PpuBeginDrawing_def word_le_def)
  ultimately obtain rd1 where rd1: "run_lines g_new_ppu 225 0 ?rd = Some rd1"
      "view rd1 = fold line_done (map (\<lambda>k. 0 + int k) [0..<225]) (view ?rd)" "ready rd1"
      "length (rd_renderBuffer rd1) = length (rd_renderBuffer ?rd)"
    using run_lines_done [of ?rd 0 225 g_new_ppu] by auto
  define final where "final = fold line_done (map int [0..<225]) (view ?rd)"
  have v: "view rd1 = final" using rd1(2) by (simp add: final_def del: upt_Suc)
  define rd' where "rd' = rd1\<lparr>rd_renderBuffer := rd_renderBuffer rd, rd_renderPitch := rd_renderPitch rd\<rparr>"
  have "draw_screenshot g_new_ppu scr_pixels rd = Some (rd_renderBuffer rd1, rd')"
    using rd1(1) by (simp add: draw_screenshot_def rd'_def Let_def)
  moreover have "ready rd'"
    using rd1(3) by (simp add: rd'_def ready_def drawable_def renderer_ok_def no_margins_def brightness_cached_def)
  moreover have "rd_renderBuffer rd1 = rd_renderBuffer final" using arg_cong [OF v, of rd_renderBuffer] by simp
  moreover have "length (rd_renderBuffer rd1) = length scr_pixels" using rd1(4) by (simp add: PpuBeginDrawing_def)
  moreover have "view rd' = final\<lparr>rd_renderBuffer := rd_renderBuffer rd, rd_renderPitch := rd_renderPitch rd\<rparr>"
    unfolding v [symmetric] by (simp add: rd'_def view_def)
  ultimately show ?thesis unfolding final_def [symmetric] by (simp add: rd'_def)
qed

end
