(* ===== verification/Ppu_Properties.thy ===== *)
theory Ppu_Properties
  imports Ppu_Frame
begin

text \<open>
  What the theories of the renderers show, as statements about the functions of \<open>snes/ppu.c\<close> and
  \<open>snes/ppu_old.c\<close>, each applied to a concrete picture: two tile layers and text in mode 1, or a rotated
  map in mode 7, with sprites, a window and colour math.
\<close>

section \<open>A picture\<close>

definition demo_ppu :: "u8 \<Rightarrow> ppu" where
  "demo_ppu mode = ppu_reset\<lparr>ppu_inidisp := 0xf, ppu_bgmode := mode, ppu_bgXsc := [0x11, 0x16, 0x58, 0], ppu_bgTileAdr := 0x4321,
     ppu_m7sel := 0x81, ppu_hScroll := [3, 517, 0, 0], ppu_vScroll := [1, 40, 0, 0], ppu_m7matrix := [0x100, 0x30, 0xffd0, 0x100, 0x80, 0x80, 0, 0],
     ppu_fixedColor := 0x1ce7, ppu_windowsel := 0x200002, ppu_window1left := 20, ppu_window1right := 200,
     ppu_screenEnabled := [0x17, 0x13], ppu_screenWindowed := [0x11, 0], ppu_cgadsub := 0x63, ppu_cgwsel := 0x12,
     ppu_cgram := (\<lambda>i. ucast i * 0x421), ppu_oam := (\<lambda>i. 0x3050 + ucast i * 0x101), ppu_vram := (\<lambda>a. a * 0x1235)\<rparr>"

definition demo :: "u8 \<Rightarrow> renderer" where
  "demo mode =
     \<lparr>rd_ppu = demo_ppu mode, rd_m7startX = 0, rd_m7startY = 0, rd_frameOverscan = False, rd_frameInterlace = False,
      rd_extraLeftCur = 0, rd_extraRightCur = 0, rd_extraLeftRight = 0, rd_extraBottomCur = 0,
      rd_wsHudSplitHeight = 0, rd_wsHudLeftEnd = 0, rd_wsHudRightStart = 0, rd_wsBg3WidenY = 0,
      rd_lastMosaicModulo = 0, rd_lastBrightnessMult = 0, rd_lineHasSprites = False,
      rd_bgBuffers = replicate 2 (replicate 448 0), rd_objBuffer = replicate 448 0,
      rd_renderPitch = 1024, rd_renderBuffer = replicate (256 * 4 * 240) 0,
      rd_brightnessMult = replicate 63 0, rd_brightnessMultHalf = replicate 64 0, rd_mosaicModulo = replicate 256 0\<rparr>"

lemma demo_common: "common_features (demo_ppu 9)" "common_features (demo_ppu 7)"
  by (simp_all add: common_features_def demo_ppu_def ppu_reset_def PPU_mode_def PPU_bigTiles_def mosaic_on_def PPU_mosaicEnabled_def
    PPU_mosaicSize_def PPU_m7extBg_def PPU_directColor_def windows_or_def GET_WINDOW_FLAGS_def)

lemma demo_ready: "ready (demo 9)" "ready (demo 7)"
proof -
  have "bright 0 = (\<lambda>i. 0)" by (simp add: fun_eq_iff bright_def)
  then have "brightness_cached (demo mode)" for mode
    by (simp add: brightness_cached_def demo_def map_replicate_const replicate_add [symmetric])
  moreover have "\<not> PPU_forcedBlank (demo_ppu mode)" for mode by (simp add: PPU_forcedBlank_def demo_ppu_def)
  ultimately show "ready (demo 9)" "ready (demo 7)"
    using demo_common by (simp_all add: ready_def drawable_def renderer_ok_def no_margins_def) (simp_all add: demo_def)
qed

lemma demo_fits: "line \<le> 224 \<Longrightarrow> line_fits line (demo mode)"
  by (simp add: line_fits_def demo_def)

section \<open>Frames and lines\<close>

text \<open>
  C1. A screenshot with the new renderer is, byte for byte, the one with the older renderer: from every
  state with the features both have, both draw the 225 lines without leaving an array, the pictures
  are equal, the picture of the main loop is bound again, and the states left behind differ only in the
  screen buffers and the starts of mode 7.
\<close>

theorem screenshots_agree:
  assumes "ready rd" "length scr_pixels = 256 * 4 * 240"
  shows "\<exists>pixels new old. draw_screenshot True scr_pixels rd = Some (pixels, new)
    \<and> draw_screenshot False scr_pixels rd = Some (pixels, old) \<and> view new = view old \<and> ready new \<and> ready old
    \<and> rd_renderBuffer new = rd_renderBuffer rd \<and> rd_renderPitch new = rd_renderPitch rd"
  using screenshot_drawn [OF assms, of True] screenshot_drawn [OF assms, of False] by auto

theorem screenshots_agree_witness:
  "\<exists>pixels new old. draw_screenshot True (replicate (256 * 4 * 240) 7) (demo 9) = Some (pixels, new)
    \<and> draw_screenshot False (replicate (256 * 4 * 240) 7) (demo 9) = Some (pixels, old) \<and> view new = view old"
  using screenshots_agree [OF demo_ready(1), of "replicate (256 * 4 * 240) 7"] unfolding length_replicate by blast

text \<open>
  C15. Line by line the two renderers stay in step within the features both have (\<open>ready\<close>: mode 1 or 7, no
  mosaic, no large tiles, no direct colour and no second layer in mode 7, the windows of a layer combined by
  or, no widescreen margins, brightness tables that belong to the brightness): from two such states that
  differ only in the screen buffers and the starts of mode 7, a line with either leaves states that differ
  only there, so that the pictures stay equal also when registers change between lines. Outside these
  features the renderers do differ.
\<close>

theorem run_line_agrees:
  assumes "ready rd" "ready rd'" "view rd = view rd'" "0 \<le> line" "line < 256" "line_fits line rd"
  shows "\<exists>new old. ppu_runLine True line rd = Some new \<and> ppu_runLine False line rd' = Some old
    \<and> view new = view old \<and> rd_renderBuffer new = rd_renderBuffer old \<and> ready new \<and> ready old"
proof -
  have "line_fits line rd' = line_fits line rd"
    using arg_cong [OF assms(3), of rd_renderPitch] arg_cong [OF assms(3), of rd_renderBuffer] arg_cong [OF assms(3), of rd_extraLeftRight]
    by (simp add: line_fits_def)
  then have fit: "line_fits line rd'" using assms(6) by simp
  obtain new where new: "ppu_runLine True line rd = Some new" "view new = line_done line (view rd)" "ready new"
    by (rule run_line_done [OF assms(1,4,5,6)])
  obtain old where old: "ppu_runLine False line rd' = Some old" "view old = line_done line (view rd')" "ready old"
    by (rule run_line_done [OF assms(2,4,5) fit])
  have v: "view new = view old" using new(2) old(2) assms(3) by simp
  then have "rd_renderBuffer new = rd_renderBuffer old" by (metis view_simps(2))
  then show ?thesis using new(1,3) old(1,3) v by blast
qed

theorem run_line_agrees_witness:
  "\<exists>new old. ppu_runLine True 100 (demo 7) = Some new \<and> ppu_runLine False 100 (demo 7) = Some old
    \<and> rd_renderBuffer new = rd_renderBuffer old"
  using run_line_agrees [OF demo_ready(2,2) refl _ _ demo_fits, of 100] by auto

text \<open>
  C16. Within the features both renderers have (\<open>ready\<close>, as for C15) every line keeps the structure of the
  renderer: with either renderer \<open>ppu_runLine\<close> returns, the two screen buffers keep 448 columns each, the line of objects keeps 448 columns whose values are a sprite's
  or the backdrop's, the picture keeps its size and the brightness tables belong to the brightness they are
  marked with.
\<close>

theorem run_line_type:
  assumes "ready rd" "1 \<le> line" "line < 256" "line_fits line rd"
  shows "\<exists>rd'. ppu_runLine g_new_ppu line rd = Some rd' \<and> renderer_ok rd' \<and> obj_line_ok rd' \<and> brightness_cached rd'
    \<and> length (rd_renderBuffer rd') = length (rd_renderBuffer rd)"
proof -
  obtain rd' where rd': "ppu_runLine g_new_ppu line rd = Some rd'" "view rd' = line_done line (view rd)" "ready rd'"
      "length (rd_renderBuffer rd') = length (rd_renderBuffer rd)"
    by (rule run_line_done [OF assms(1) _ assms(3,4), of g_new_ppu]) (use assms(2) in simp_all)
  have "rd_objBuffer rd' = rd_objBuffer (started line rd)"
    using arg_cong [OF rd'(2), of rd_objBuffer] assms(2) by (simp add: line_done_def view_started [OF assms(1)] Let_def)
  then have "obj_line_ok rd'" using started_ready(4) [OF assms(1), of line] by (simp add: obj_line_ok_def)
  then show ?thesis using rd' by (auto simp: ready_def drawable_def)
qed

theorem run_line_type_witness:
  "\<exists>rd'. ppu_runLine True 224 (demo 9) = Some rd' \<and> renderer_ok rd' \<and> obj_line_ok rd' \<and> brightness_cached rd'"
  using run_line_type [OF demo_ready(1) _ _ demo_fits, of 224] by auto

section \<open>The parts of a line\<close>

lemma blank_line:
  assumes "PPU_forcedBlank (rd_ppu rd)" "1 \<le> y" "line_fits y rd"
  shows "\<exists>out. PpuDrawWholeLine y rd = Some (rd\<lparr>rd_renderBuffer := out\<rparr>)
    \<and> put_bytes ((y - 1) * int (rd_renderPitch rd)) (replicate (4 * (256 + 2 * unat (rd_extraLeftRight rd))) 0) (rd_renderBuffer rd) = Some out"
proof -
  obtain k where k: "uint (rd_extraLeftRight rd) = int k" "unat (rd_extraLeftRight rd) = k" by (simp add: uint_nat)
  obtain d where d: "(y - 1) * int (rd_renderPitch rd) = int d" using assms(2) by (metis zero_le_imp_eq_int mult_nonneg_nonneg diff_ge_0_iff_ge of_nat_0_le_iff)
  have "int d + 4 * (256 + 2 * int k) \<le> int (length (rd_renderBuffer rd))" using assms(3) unfolding line_fits_def d k .
  then have "int (d + 4 * (256 + 2 * k)) \<le> int (length (rd_renderBuffer rd))" by simp
  then have "d + 4 * (256 + 2 * k) \<le> length (rd_renderBuffer rd)" by (simp only: of_nat_le_iff)
  then have "\<exists>out. put_bytes ((y - 1) * int (rd_renderPitch rd)) (replicate (4 * (256 + 2 * unat (rd_extraLeftRight rd))) 0) (rd_renderBuffer rd) = Some out"
    unfolding d k by (simp add: put_bytes_def)
  then show ?thesis using assms(1,2) by (auto simp: PpuDrawWholeLine_def Let_def mult.commute)
qed

text \<open>
  C17. \<open>PpuDrawWholeLine\<close> stores the picture of the line and nothing else, in the modes 1 and 7 and with
  mosaic off: from the first visible column on the left margin to the last on the right one, the bytes of
  each column are those of the layer that is shown there, blended with the other screen or the fixed colour
  where colour math applies; a line under forced blank is black over its whole width, margins included. The
  margins of the widescreen mode, the split status bar and the windows are covered. The line buffers, the
  brightness tables and the line of sprites must have the structure that starting a line gives them, and the
  line must lie inside the picture.
\<close>

theorem whole_line_refines:
  assumes "renderer_ok rd" "tables_ok rd" "obj_line_ok rd" "PPU_mode (rd_ppu rd) \<in> {1, 7}" "no_mosaic (rd_ppu rd)"
    and "1 \<le> y" "line_fits y rd"
  shows "\<exists>bufs out. PpuDrawWholeLine y rd = Some (rd\<lparr>rd_bgBuffers := bufs, rd_renderBuffer := out\<rparr>)
    \<and> (if PPU_forcedBlank (rd_ppu rd)
       then bufs = rd_bgBuffers rd \<and> put_bytes ((y - 1) * int (rd_renderPitch rd))
          (replicate (4 * (256 + 2 * unat (rd_extraLeftRight rd))) 0) (rd_renderBuffer rd) = Some out
       else put_bytes ((y - 1) * int (rd_renderPitch rd) + 4 * (uint (rd_extraLeftRight rd) - uint (rd_extraLeftCur rd)))
          (columns (line_bytes rd y) (- uint (rd_extraLeftCur rd)) (256 + uint (rd_extraRightCur rd))) (rd_renderBuffer rd) = Some out)"
proof (cases "PPU_forcedBlank (rd_ppu rd)")
  case True
  have "rd\<lparr>rd_bgBuffers := rd_bgBuffers rd, rd_renderBuffer := out\<rparr> = rd\<lparr>rd_renderBuffer := out\<rparr>" for out by simp
  then show ?thesis using blank_line [OF True assms(6,7)] True by metis
next
  case False
  then show ?thesis using draw_whole_line [OF assms(1-3,6,5) False assms(7) [unfolded line_fits_def]] by auto
qed

theorem whole_line_refines_witness:
  "\<exists>bufs out. PpuDrawWholeLine 17 (started 17 (demo 9)) = Some ((started 17 (demo 9))\<lparr>rd_bgBuffers := bufs, rd_renderBuffer := out\<rparr>)"
proof -
  have "rd_ppu (demo 9) = demo_ppu 9" by (simp add: demo_def)
  moreover have "\<not> PPU_forcedBlank (demo_ppu 9)" by (simp add: PPU_forcedBlank_def demo_ppu_def)
  ultimately have "\<not> PPU_forcedBlank (rd_ppu (started 17 (demo 9)))"
    by (rule_tac started_line [OF demo_ready(1), of 17]) (simp add: flags_irrelevant)
  then have blank: "\<not> PPU_forcedBlank (rd_ppu (started 17 (demo 9)))" .
  have d: "renderer_ok (started 17 (demo 9))" "no_mosaic (rd_ppu (started 17 (demo 9)))"
    using started_ready(1) [OF demo_ready(1), of 17] common_features_mosaic by (simp_all add: drawable_def)
  have fit: "line_fits 17 (started 17 (demo 9))" using started_ready(6) [OF demo_ready(1)] demo_fits by simp
  have "PPU_mode (rd_ppu (started 17 (demo 9))) \<in> {1, 7}"
    using started_ready(1) [OF demo_ready(1), of 17] by (auto simp: drawable_def common_features_def)
  from whole_line_refines [OF d(1) started_ready(2,4) [OF demo_ready(1)] this d(2) _ fit] show ?thesis using blank by auto
qed

text \<open>
  C18. The sprites of a line, with the limits of the hardware: of the sprites on the line, in the order the
  priority rotation gives, the first 32 count, of their slivers of eight columns the first 34, and a column
  shows the first of them that is opaque there. Too many slivers raise time-over, too many sprites
  range-over unless the slivers ran out first.
\<close>

theorem line_of_sprites:
  assumes "renderer_ok rd" "rd_objBuffer rd = ClearBackdrop"
  shows "let sps = sprites_on_line rd line; sls = slivers rd (take 32 sps); ppu = rd_ppu rd
    in ppu_evaluateSprites line rd = Some (sls \<noteq> [],
      rd\<lparr>rd_objBuffer := map (\<lambda>i. object_at (take 34 sls) (int i - 96) 0x0500) [0..<448],
         rd_ppu := ppu\<lparr>ppu_timeOver := ppu_timeOver ppu \<or> length sls > 34,
                       ppu_rangeOver := ppu_rangeOver ppu \<or> (length sps > 32 \<and> length sls \<le> 34)\<rparr>\<rparr>)"
proof -
  have "obj_ok rd" using assms(1) renderer_ok_extra [OF assms(1)] by (auto simp: obj_ok_def renderer_ok_def)
  moreover have "rd_objBuffer rd = replicate 448 0x0500"
    using assms(2) by (simp add: ClearBackdrop_def kPpuBufWidth_def kPpuXPixels_def kPpuExtraLeftRight_def)
  ultimately show ?thesis using evaluate_sprites [of rd "0x0500" line] by (simp add: Let_def)
qed

theorem line_of_sprites_witness:
  "\<exists>has rd'. ppu_evaluateSprites 5 ((demo 9)\<lparr>rd_objBuffer := ClearBackdrop\<rparr>) = Some (has, rd')"
  using line_of_sprites [of "(demo 9)\<lparr>rd_objBuffer := ClearBackdrop\<rparr>" 5] demo_ready(1) ClearBackdrop_objects
  by (simp add: ready_def drawable_def renderer_ok_def Let_def)

text \<open>
  C2. A pixel of the older renderer is the column the new one painted, within the features both have
  (\<open>drawable\<close>: mode 1 or 7, no mosaic, no large tiles, no direct colour and no second layer in mode 7, the
  windows of a layer combined by or, no widescreen margins): the walk over the layers of the mode in order of
  priority stops at the layer, and finds the colour, that painting all layers over each other by comparing
  16-bit values leaves in the screen buffer, for tiles, sprites and the rotated map alike. Outside these
  features the renderers do differ.
\<close>

theorem pixel_agrees:
  assumes "drawable rd" "obj_line_ok rd" "sprites_flagged rd" "0 \<le> x" "x < 256" "0 \<le> y" "y < 256"
  shows "\<exists>rd'. PpuDrawBackgrounds y sub (put_bg sub ClearBackdrop rd) = Some rd'
    \<and> (let v = rd_bgBuffers rd' ! of_bool sub ! nat (x + 96)
       in ppu_getPixel (if PPU_mode (rd_ppu rd) = 7 then ppu_calculateMode7Starts y rd else rd) x y sub
         = (layer_of v, \<lambda>k. int (chan k (ppu_cgram (rd_ppu rd) (ucast v)))))"
proof -
  have d: "renderer_ok rd" "common_features (rd_ppu rd)" "no_margins rd" using assms(1) by (simp_all add: drawable_def)
  have buf: "of_bool sub < length (rd_bgBuffers rd)" using d(1) by (simp add: renderer_ok_def)
  define v where "v = screen_buf rd sub y ! nat (x + 96)"
  have v: "v = cell3 (screen_cell rd sub y x)"
    using screen_buf_at [of x rd sub y] assms(4,5) by (simp add: buf_at_def v_def split: if_splits)
  have ok: "cell_ok (screen_cell rd sub y x)" using stack_cell(2) [OF d(1) assms(2)] assms(4,5) by simp
  then have "layer_of v = fst (snd (screen_cell rd sub y x))"
    unfolding v by (cases "screen_cell rd sub y x") (simp add: cell_ok_def cell_layer)
  then have "ppu_getPixel (prepared y rd) x y sub = (layer_of v, \<lambda>k. int (chan k (ppu_cgram (rd_ppu rd) (ucast v))))"
    using getPixel_screen_cell [OF d(2,3) assms(3-7) d(1) assms(2), of sub] by (simp add: shows_cell_def v prod_eq_iff)
  then show ?thesis
    using screen_drawn [OF d(1) assms(2,6) common_features_mosaic [OF d(2)], of sub] buf
    by (simp add: prepared_def v_def Let_def)
qed

theorem pixel_agrees_witness:
  "\<exists>rd'. PpuDrawBackgrounds 100 False (put_bg False ClearBackdrop (started 100 (demo 9))) = Some rd'"
  using pixel_agrees [OF started_ready(1,4,5) [OF demo_ready(1), of 100], of 128 100 False] by (auto simp: Let_def)

text \<open>
  The windows of a layer: the edges \<open>PpuWindows_Calc\<close> produces split the visible part of the line into at
  most five non-empty spans in order, and the bit of a span says for every column of it whether the column
  is in window 1 or in window 2, each inverted if so set.
\<close>

theorem window_spans:
  "\<exists>win. PpuWindows_Calc rd layer y = Some win \<and> wn_nr win \<le> 5
    \<and> wn_edges win ! 0 = window_left rd layer y \<and> wn_edges win ! wn_nr win = window_right rd layer y
    \<and> (\<forall>k<wn_nr win. wn_edges win ! k < wn_edges win ! Suc k
        \<and> (\<forall>x. wn_edges win ! k \<le> x \<and> x < wn_edges win ! Suc k \<longrightarrow>
            bit (wn_bits win) k = (window1_state (rd_ppu rd) layer x \<or> window2_state (rd_ppu rd) layer x)))"
  using windows_calc [of rd layer y] unfolding windows_ok_def spans_def by blast

theorem window_spans_witness:
  "\<exists>win. PpuWindows_Calc (demo 9) 0 100 = Some win \<and> wn_nr win \<le> 5
    \<and> wn_edges win ! 0 = window_left (demo 9) 0 100 \<and> wn_edges win ! wn_nr win = window_right (demo 9) 0 100"
  using window_spans [of "demo 9" 0 100] by blast

text \<open>
  C19. A layer of 4-bit tiles, whatever the scroll, the map size and the margins: the loop over whole tiles
  with its partial tiles at both ends leaves at every visible column that is not masked the pixel of the
  tile at that position of the map if it is opaque and of higher priority, and changes nothing else.
\<close>

theorem tile_layer:
  assumes "renderer_ok rd" "IS_SCREEN_ENABLED (rd_ppu rd) sub layer"
  shows "PpuDrawBackground_4bpp y sub layer zhi zlo rd =
    (let ppu = rd_ppu rd; l = bg_line_of ppu layer (y + uint (ppu_vScroll ppu ! layer)) zhi zlo
     in Some (put_bg sub (cols (window_left rd layer y) (window_right rd layer y)
          (\<lambda>x v. if layer_masked ppu sub layer x then v else bg_column bpp4 l ppu (x + uint (ppu_hScroll ppu ! layer)) v)
          (rd_bgBuffers rd ! of_bool sub)) rd))"
  by (rule draw_4bpp [OF assms])

theorem tile_layer_witness:
  "\<exists>rd'. PpuDrawBackground_4bpp 50 False 0 0xc000 0x8000 (demo 9) = Some rd'"
  using tile_layer [of "demo 9" False 0 50 "0xc000" "0x8000"] demo_ready(1)
  by (simp add: ready_def drawable_def demo_def demo_ppu_def IS_SCREEN_ENABLED_def Let_def)

end
