(* ===== verification/Hashes.thy ===== *)
theory Hashes
  imports Snes_Prelude
begin

text \<open>
  The checksums by which ROM files are identified, \<open>crc32.c\<close> and \<open>sha256.c\<close>. The table-driven CRC is the
  bit-by-bit one, and it tells apart any two files of the same length that differ within four bytes.
  The blocks SHA-256 hashes are those of the padded message of its standard.
\<close>

section \<open>CRC-32\<close>

text \<open>The static table with the flag that it was computed.\<close>

record crc_table =
  s_table :: "u32 list"
  s_table_ready :: bool

definition crc_step :: "u32 \<Rightarrow> u32" where
  "crc_step c = (if c AND 1 \<noteq> 0 then 0xEDB88320 XOR drop_bit 1 c else drop_bit 1 c)"

definition crc32_init_table :: "crc_table \<Rightarrow> crc_table" where
  "crc32_init_table st = st\<lparr>s_table := map (\<lambda>i. (crc_step ^^ 8) (of_nat i)) [0..<256], s_table_ready := True\<rparr>"

definition crc_byte :: "u32 list \<Rightarrow> u8 \<Rightarrow> u32 \<Rightarrow> u32" where
  "crc_byte table b crc = table ! unat ((crc XOR ucast b) AND 0xff) XOR drop_bit 8 crc"

definition crc32_compute :: "u8 list \<Rightarrow> crc_table \<Rightarrow> u32 \<times> crc_table" where
  "crc32_compute data st =
     (let st = (if \<not> s_table_ready st then crc32_init_table st else st)
      in (fold (crc_byte (s_table st)) data 0xFFFFFFFF XOR 0xFFFFFFFF, st))"

definition table_ok :: "crc_table \<Rightarrow> bool" where
  "table_ok st \<longleftrightarrow> (s_table_ready st \<longrightarrow> s_table st = s_table (crc32_init_table st))"

text \<open>The register shifted by \<open>n\<close> bits; the reference feeds a byte into it.\<close>

abbreviation crc_shift :: "nat \<Rightarrow> u32 \<Rightarrow> u32" where
  "crc_shift n \<equiv> crc_step ^^ n"

definition crc_feed :: "u8 \<Rightarrow> u32 \<Rightarrow> u32" where
  "crc_feed b c = crc_shift 8 (c XOR ucast b)"

definition crc_reference :: "u8 list \<Rightarrow> u32" where
  "crc_reference data = NOT (fold crc_feed data (NOT 0))"

lemma and_1_bit: "w AND 1 \<noteq> 0 \<longleftrightarrow> bit w 0" for w :: u32
  by (simp add: and_one_eq odd_iff_mod_2_eq_one bit_0 flip: even_iff_mod_2_eq_zero)

lemma crc_step_bit: "crc_step c = (if bit c 0 then 0xEDB88320 XOR drop_bit 1 c else drop_bit 1 c)"
  by (simp only: crc_step_def and_1_bit)

lemma crc_step_xor: "crc_step (a XOR b) = crc_step a XOR crc_step b"
  unfolding crc_step_bit bit_xor_iff drop_bit_xor
  by (cases "bit a 0"; cases "bit b 0") (auto simp: bit_xor_iff intro!: bit_word_eqI)

lemma crc_shift_xor: "crc_shift n (a XOR b) = crc_shift n a XOR crc_shift n b"
  by (induction n) (simp_all add: crc_step_xor)

lemma crc_step_top: "bit (crc_step c) 31 \<longleftrightarrow> bit c 0"
proof -
  have "bit (0xEDB88320 :: u32) 31" by simp
  moreover have "\<not> bit (drop_bit 1 c) 31" using bit_imp_le_length [of c 32] by (auto simp: bit_drop_bit_eq)
  ultimately show ?thesis by (simp add: crc_step_bit bit_xor_iff)
qed

lemma crc_step_inj: "crc_step a = crc_step b \<Longrightarrow> a = b"
proof -
  assume eq: "crc_step a = crc_step b"
  then have low: "bit a 0 = bit b 0" using crc_step_top by metis
  have cancel: "k XOR x = k XOR y \<Longrightarrow> x = y" for k x y :: u32
    by (simp add: bit_eq_iff bit_xor_iff) blast
  have "drop_bit 1 a = drop_bit 1 b"
    using eq low cancel [of "0xEDB88320" "drop_bit 1 a" "drop_bit 1 b"] unfolding crc_step_bit by (simp split: if_splits)
  then have "bit a (Suc n) = bit b (Suc n)" for n by (metis bit_drop_bit_eq comp_apply plus_1_eq_Suc)
  then have "bit a n = bit b n" for n using low by (cases n) simp_all
  then show "a = b" by (simp add: bit_eq_iff)
qed

lemma crc_shift_inj: "crc_shift n a = crc_shift n b \<Longrightarrow> a = b"
  by (induction n) (auto dest: crc_step_inj)

lemma crc_shift_high: "take_bit n c = 0 \<Longrightarrow> crc_shift n c = drop_bit n c"
proof (induction n arbitrary: c)
  case (Suc n)
  have "bit c k \<Longrightarrow> Suc n \<le> k" for k using Suc.prems by (metis bit_0_eq bit_take_bit_iff bot_apply bot_bool_def not_le)
  note low = this
  have "take_bit n (drop_bit 1 c) = 0"
    by (rule bit_word_eqI) (use low in \<open>force simp: bit_take_bit_iff bit_drop_bit_eq\<close>)
  moreover have "\<not> bit c 0" using low [of 0] by auto
  ultimately have "crc_shift n (drop_bit 1 c) = drop_bit n (drop_bit 1 c)" "crc_step c = drop_bit 1 c"
    by (simp_all only: Suc.IH crc_step_bit if_False)
  then show ?case by (simp add: funpow_Suc_right drop_bit_drop_bit del: funpow.simps)
qed simp

text \<open>One byte through the table is one byte through the register.\<close>

lemma crc_byte_feed:
  assumes "table = s_table (crc32_init_table st)"
  shows "crc_byte table b crc = crc_feed b crc"
proof -
  let ?x = "crc XOR ucast b" and ?low = "take_bit 8 (crc XOR ucast b)"
  have "?x = ?low XOR (?x AND NOT (mask 8))" by (rule bit_word_eqI) (auto simp: bit_simps)
  then have "crc_shift 8 ?x = crc_shift 8 ?low XOR crc_shift 8 (?x AND NOT (mask 8))" by (metis crc_shift_xor)
  moreover have "take_bit 8 (?x AND NOT (mask 8)) = 0" by (rule bit_word_eqI) (auto simp: bit_simps)
  then have "crc_shift 8 (?x AND NOT (mask 8)) = drop_bit 8 (?x AND NOT (mask 8))" by (rule crc_shift_high)
  moreover have "drop_bit 8 (?x AND NOT (mask 8)) = drop_bit 8 crc"
    by (rule bit_word_eqI) (auto simp: bit_simps dest: bit_imp_le_length)
  moreover have "?x AND 0xff = ?low" by (simp add: take_bit_eq_mask mask_eq_exp_minus_1)
  moreover have "unat ?low < 256" using take_bit_nat_less_exp [of 8 "unat ?x"] unfolding unsigned_take_bit_eq by simp
  ultimately show ?thesis by (simp add: crc_byte_def crc_feed_def assms crc32_init_table_def)
qed


lemma crc32_compute_reference:
  assumes "table_ok st"
  shows "crc32_compute data st = (crc_reference data, if s_table_ready st then st else crc32_init_table st)"
    and "table_ok (snd (crc32_compute data st))"
proof -
  let ?st = "if \<not> s_table_ready st then crc32_init_table st else st"
  have t: "s_table ?st = s_table (crc32_init_table st)" using assms by (simp add: table_ok_def)
  have "fold (crc_byte (s_table ?st)) data c = fold crc_feed data c" for c
    by (rule fold_cong) (simp_all add: crc_byte_feed [OF t] fun_eq_iff)
  moreover have "0xFFFFFFFF = (- 1 :: u32)" by simp
  moreover have "NOT 0 = (- 1 :: u32)" by simp
  ultimately show c: "crc32_compute data st = (crc_reference data, if s_table_ready st then st else crc32_init_table st)"
    unfolding crc32_compute_def Let_def crc_reference_def by (simp only:) simp
  show "table_ok (snd (crc32_compute data st))"
    using assms unfolding c by (simp add: table_ok_def crc32_init_table_def)
qed

section \<open>Errors the CRC finds\<close>

text \<open>Up to four bytes as a word, the first in the low bits: the register after them is this word shifted through.\<close>

primrec pack :: "u8 list \<Rightarrow> u32" where
  "pack [] = 0"
| "pack (b # bs) = ucast b XOR push_bit 8 (pack bs)"

lemma pack_short: "take_bit (8 * length bs) (pack bs) = pack bs"
proof (induction bs)
  case (Cons b bs)
  then have "bit (pack bs) n \<Longrightarrow> n < 8 * length bs" for n by (metis bit_take_bit_iff)
  then show ?case by (intro bit_word_eqI) (force simp: bit_simps dest: bit_imp_le_length)
qed simp

lemma pack_shift:
  assumes "length bs \<le> 3"
  shows "drop_bit 8 (push_bit 8 (pack bs)) = pack bs"
proof -
  have "bit (pack bs) n \<Longrightarrow> n < 8 * length bs" for n using pack_short [of bs] by (metis bit_take_bit_iff)
  then have "bit (pack bs) n \<Longrightarrow> n < 24" for n using assms by fastforce
  then show ?thesis by (intro bit_word_eqI) (force simp: bit_simps)
qed

lemma fold_feed_pack: "length bs \<le> 4 \<Longrightarrow> fold crc_feed bs c = crc_shift (8 * length bs) (c XOR pack bs)"
proof (induction bs arbitrary: c)
  case (Cons b bs)
  let ?p = "pack bs"
  have "take_bit 8 (push_bit 8 ?p) = 0" by (rule bit_word_eqI) (auto simp: bit_simps)
  then have p: "crc_shift 8 (push_bit 8 ?p) = ?p"
    using crc_shift_high [of 8 "push_bit 8 ?p"] pack_shift [of bs] Cons.prems by simp
  have "fold crc_feed (b # bs) c = crc_shift (8 * length bs) (crc_feed b c XOR ?p)" using Cons by simp
  also have "crc_feed b c XOR ?p = crc_shift 8 (c XOR ucast b) XOR crc_shift 8 (push_bit 8 ?p)" by (simp only: crc_feed_def p)
  also have "\<dots> = crc_shift 8 (c XOR pack (b # bs))" by (simp only: crc_shift_xor [symmetric] pack.simps xor.assoc)
  also have "crc_shift (8 * length bs) (crc_shift 8 (c XOR pack (b # bs))) = crc_shift (8 * length (b # bs)) (c XOR pack (b # bs))"
    using funpow_add [of "8 * length bs" 8 crc_step] by (simp add: add.commute del: pack.simps)
  finally show ?case .
qed simp

lemma pack_inj: "length bs = length cs \<Longrightarrow> length bs \<le> 4 \<Longrightarrow> pack bs = pack cs \<Longrightarrow> bs = cs"
proof (induction bs cs rule: list_induct2)
  case (Cons b bs c cs)
  have "take_bit 8 (pack (x # xs)) = ucast x" for x xs
    by (rule bit_word_eqI) (auto simp: bit_simps dest: bit_imp_le_length)
  then have "unat (ucast b :: u32) = unat (ucast c :: u32)" using Cons.prems(2) by metis
  moreover have "unat (ucast x :: u32) = unat x" for x :: u8 by (simp add: unsigned_ucast_eq take_bit_nat_eq_self)
  ultimately have "b = c" by (simp add: word_unat_eq_iff)
  moreover have d: "drop_bit 8 (pack (x # xs)) = pack xs" if "length xs \<le> 3" for x xs
  proof -
    have "drop_bit 8 (ucast x :: u32) = 0" by (rule bit_word_eqI) (auto simp: bit_simps dest: bit_imp_le_length)
    then show ?thesis using pack_shift [OF that] by (simp add: drop_bit_xor)
  qed
  have "length bs \<le> 3" "length cs \<le> 3" using Cons.prems(1) Cons.hyps by simp_all
  then have "pack bs = pack cs" using d Cons.prems(2) by metis
  ultimately show ?case using Cons by simp
qed simp

lemma feed_inj: "fold crc_feed bs a = fold crc_feed bs b \<Longrightarrow> a = b"
proof (induction bs arbitrary: a b)
  case (Cons x bs)
  then have "crc_shift 8 (a XOR ucast x) = crc_shift 8 (b XOR ucast x)" by (auto simp: crc_feed_def)
  then have "a XOR ucast x = b XOR ucast x" by (rule crc_shift_inj)
  then show ?case by (simp add: bit_eq_iff bit_xor_iff) blast
qed simp

lemma crc_reference_bursts:
  assumes "length bad = length good" "length good \<le> 4" "bad \<noteq> good"
  shows "crc_reference (before @ bad @ after) \<noteq> crc_reference (before @ good @ after)"
proof
  let ?c = "fold crc_feed before (NOT 0)"
  assume "crc_reference (before @ bad @ after) = crc_reference (before @ good @ after)"
  then have "fold crc_feed after (fold crc_feed bad ?c) = fold crc_feed after (fold crc_feed good ?c)"
    unfolding crc_reference_def by (simp add: bit.compl_eq_compl_iff)
  then have "fold crc_feed bad ?c = fold crc_feed good ?c" by (rule feed_inj)
  then have "crc_shift (8 * length good) (?c XOR pack bad) = crc_shift (8 * length good) (?c XOR pack good)"
    using fold_feed_pack [of bad ?c] fold_feed_pack [of good ?c] assms(1,2) by simp
  then have "?c XOR pack bad = ?c XOR pack good" by (rule crc_shift_inj)
  then have "pack bad = pack good" by (simp add: bit_eq_iff bit_xor_iff) blast
  then show False using pack_inj assms by metis
qed

text \<open>
  C38. Two files of the same length that differ only within four consecutive bytes have different checksums,
  whatever precedes and follows those bytes, whether or not the table was computed before the call: the
  table-driven loop is the shift register of the CRC polynomial, which is injective on its states.
\<close>

theorem crc32_finds_bursts:
  assumes "table_ok st" "length bad = length good" "length good \<le> 4" "bad \<noteq> good"
  shows "fst (crc32_compute (before @ bad @ after) st) \<noteq> fst (crc32_compute (before @ good @ after) st)"
  using crc_reference_bursts [OF assms(2-4)] by (simp add: crc32_compute_reference(1) [OF assms(1)])

theorem crc32_finds_bursts_witness:
  "fst (crc32_compute ([1, 2] @ [3, 4] @ [5]) \<lparr>s_table = [], s_table_ready = False\<rparr>)
    \<noteq> fst (crc32_compute ([1, 2] @ [3, 5] @ [5]) \<lparr>s_table = [], s_table_ready = False\<rparr>)"
  by (rule crc32_finds_bursts) (simp_all add: table_ok_def)


lemma crc_shift_8:
  "crc_shift 8 c = crc_step (crc_step (crc_step (crc_step (crc_step (crc_step (crc_step (crc_step c)))))))"
  by (simp add: eval_nat_numeral)

lemma crc32_check_register: "fold crc_feed [0x31, 0x32, 0x33, 0x34, 0x35, 0x36, 0x37, 0x38, 0x39] 0xFFFFFFFF = 0x340BC6D9"
  by (simp add: crc_feed_def crc_shift_8 crc_step_def)

text \<open>The check value of CRC-32, of the digits 1 to 9.\<close>

lemma crc32_check_value: "crc_reference [0x31, 0x32, 0x33, 0x34, 0x35, 0x36, 0x37, 0x38, 0x39] = 0xCBF43926"
proof -
  have ones: "NOT 0 = (0xFFFFFFFF :: u32)" by simp
  show ?thesis unfolding crc_reference_def ones crc32_check_register by simp
qed

section \<open>SHA-256\<close>

definition sha_K :: "u32 list" where
  "sha_K = concat
    [[0x428a2f98, 0x71374491, 0xb5c0fbcf, 0xe9b5dba5],
     [0x3956c25b, 0x59f111f1, 0x923f82a4, 0xab1c5ed5],
     [0xd807aa98, 0x12835b01, 0x243185be, 0x550c7dc3],
     [0x72be5d74, 0x80deb1fe, 0x9bdc06a7, 0xc19bf174],
     [0xe49b69c1, 0xefbe4786, 0x0fc19dc6, 0x240ca1cc],
     [0x2de92c6f, 0x4a7484aa, 0x5cb0a9dc, 0x76f988da],
     [0x983e5152, 0xa831c66d, 0xb00327c8, 0xbf597fc7],
     [0xc6e00bf3, 0xd5a79147, 0x06ca6351, 0x14292967],
     [0x27b70a85, 0x2e1b2138, 0x4d2c6dfc, 0x53380d13],
     [0x650a7354, 0x766a0abb, 0x81c2c92e, 0x92722c85],
     [0xa2bfe8a1, 0xa81a664b, 0xc24b8b70, 0xc76c51a3],
     [0xd192e819, 0xd6990624, 0xf40e3585, 0x106aa070],
     [0x19a4c116, 0x1e376c08, 0x2748774c, 0x34b0bcb5],
     [0x391c0cb3, 0x4ed8aa4a, 0x5b9cca4f, 0x682e6ff3],
     [0x748f82ee, 0x78a5636f, 0x84c87814, 0x8cc70208],
     [0x90befffa, 0xa4506ceb, 0xbef9a3f7, 0xc67178f2]]"

definition rotr32 :: "u32 \<Rightarrow> nat \<Rightarrow> u32" where
  "rotr32 x n = drop_bit n x OR push_bit (32 - n) x"

definition big_word :: "u8 list \<Rightarrow> nat \<Rightarrow> u32" where
  "big_word blk i = push_bit 24 (ucast (blk ! (i * 4))) OR push_bit 16 (ucast (blk ! (i * 4 + 1)))
     OR push_bit 8 (ucast (blk ! (i * 4 + 2))) OR ucast (blk ! (i * 4 + 3))"

text \<open>The loop that fills the schedule up to 64 words.\<close>

primrec sha_extend :: "nat \<Rightarrow> u32 list \<Rightarrow> u32 list" where
  "sha_extend 0 W = W"
| "sha_extend (Suc n) W =
     (let i = length W;
          s0 = rotr32 (W ! (i - 15)) 7 XOR rotr32 (W ! (i - 15)) 18 XOR drop_bit 3 (W ! (i - 15));
          s1 = rotr32 (W ! (i - 2)) 17 XOR rotr32 (W ! (i - 2)) 19 XOR drop_bit 10 (W ! (i - 2))
      in sha_extend n (W @ [W ! (i - 16) + s0 + W ! (i - 7) + s1]))"

definition sha_schedule :: "u8 list \<Rightarrow> u32 list" where
  "sha_schedule blk = sha_extend 48 (map (big_word blk) [0..<16])"

type_synonym sha_regs = "u32 \<times> u32 \<times> u32 \<times> u32 \<times> u32 \<times> u32 \<times> u32 \<times> u32"

fun sha_round :: "u32 \<times> u32 \<Rightarrow> sha_regs \<Rightarrow> sha_regs" where
  "sha_round (k, w) (a, b, c, d, e, f, g, h) =
     (let S1 = rotr32 e 6 XOR rotr32 e 11 XOR rotr32 e 25;
          ch = (e AND f) XOR (NOT e AND g);
          t1 = h + S1 + ch + k + w;
          S0 = rotr32 a 2 XOR rotr32 a 13 XOR rotr32 a 22;
          mj = (a AND b) XOR (a AND c) XOR (b AND c);
          t2 = S0 + mj
      in (t1 + t2, a, b, c, d + t1, e, f, g))"

definition sha256_block :: "u32 list \<Rightarrow> u8 list \<Rightarrow> u32 list" where
  "sha256_block H blk =
     (case fold sha_round (zip sha_K (sha_schedule blk)) (H ! 0, H ! 1, H ! 2, H ! 3, H ! 4, H ! 5, H ! 6, H ! 7) of
        (a, b, c, d, e, f, g, h) \<Rightarrow>
          [H ! 0 + a, H ! 1 + b, H ! 2 + c, H ! 3 + d, H ! 4 + e, H ! 5 + f, H ! 6 + g, H ! 7 + h])"

definition sha_H :: "u32 list" where
  "sha_H = [0x6a09e667, 0xbb67ae85, 0x3c6ef372, 0xa54ff53a, 0x510e527f, 0x9b05688c, 0x1f83d9ab, 0x5be0cd19]"

text \<open>The loop over the full blocks, with what is left of the data.\<close>

fun sha_full :: "u32 list \<Rightarrow> u8 list \<Rightarrow> u32 list \<times> u8 list" where
  "sha_full H data = (if 64 \<le> length data then sha_full (sha256_block H (take 64 data)) (drop 64 data) else (H, data))"

declare sha_full.simps [simp del]

text \<open>The length in bits, most significant byte first.\<close>

definition big_length :: "nat \<Rightarrow> u8 list" where
  "big_length len = (let bits = of_nat len * 8 :: 64 word in map (\<lambda>i. ucast (drop_bit (i * 8) bits)) (rev [0..<8]))"

definition sha_tail :: "nat \<Rightarrow> u8 list \<Rightarrow> u8 list" where
  "sha_tail len rest =
     (let tail_len = length rest; total_tail = (if tail_len < 56 then 64 else 128)
      in rest @ [0x80] @ replicate (total_tail - (tail_len + 1) - 8) 0 @ big_length len)"

definition sha_digest :: "u32 list \<Rightarrow> u8 list" where
  "sha_digest H = concat (map (\<lambda>h. [ucast (drop_bit 24 h), ucast (drop_bit 16 h), ucast (drop_bit 8 h), ucast h]) (take 8 H))"

definition sha256_compute :: "u8 list \<Rightarrow> u8 list" where
  "sha256_compute data =
     (let (H, rest) = sha_full sha_H data; tail = sha_tail (length data) rest;
          H = sha256_block H (take 64 tail);
          H = (if length tail = 128 then sha256_block H (drop 64 tail) else H)
      in sha_digest H)"

text \<open>The standard: the message is padded to whole blocks by a one bit, as few zeros as will do, and its
  length, and the blocks are hashed in order.\<close>

definition sha_pad :: "u8 list \<Rightarrow> u8 list" where
  "sha_pad data = data @ [0x80] @ replicate (nat ((55 - int (length data)) mod 64)) 0 @ big_length (length data)"

fun sha_blocks :: "u8 list \<Rightarrow> u8 list list" where
  "sha_blocks data = (if data = [] then [] else take 64 data # sha_blocks (drop 64 data))"

declare sha_blocks.simps [simp del]

definition sha256_reference :: "u8 list \<Rightarrow> u8 list" where
  "sha256_reference data = sha_digest (fold (\<lambda>blk H. sha256_block H blk) (sha_blocks (sha_pad data)) sha_H)"

lemma rotr32_word_rotr:
  assumes "0 < n" "n < 32"
  shows "rotr32 x n = word_rotr n x"
proof (rule bit_word_eqI)
  fix k assume "k < LENGTH(32)"
  then have k: "k < 32" by simp
  have out: "\<not> bit x i" if "32 \<le> i" for i using that bit_imp_le_length [of x i] by auto
  show "bit (rotr32 x n) k = bit (word_rotr n x) k"
  proof (cases "k + n < 32")
    case True
    then have "\<not> 32 - n \<le> k" by linarith
    then show ?thesis using True k assms by (simp add: rotr32_def bit_or_iff bit_drop_bit_eq bit_push_bit_iff bit_word_rotr_iff add.commute)
  next
    case False
    then have "(k + n) mod 32 = k + n - 32" "k - (32 - n) = k + n - 32" using k assms by (simp_all add: mod_if)
    moreover have "32 - n \<le> k" using False by linarith
    ultimately show ?thesis using False k assms out [of "n + k"]
      by (simp add: rotr32_def bit_or_iff bit_drop_bit_eq bit_push_bit_iff bit_word_rotr_iff)
  qed
qed

lemma length_big_length [simp]: "length (big_length len) = 8"
  by (simp add: big_length_def Let_def)

lemma sha_blocks_append:
  "length blk = 64 \<Longrightarrow> sha_blocks (blk @ xs) = blk # sha_blocks xs"
  by (subst sha_blocks.simps) auto

lemma sha_full_blocks:
  assumes "sha_full H data = (H', rest)"
  shows "length rest < 64 \<and> length rest = length data mod 64 \<and>
    fold (\<lambda>blk H. sha256_block H blk) (sha_blocks (data @ xs)) H = fold (\<lambda>blk H. sha256_block H blk) (sha_blocks (rest @ xs)) H'"
  using assms
proof (induction H data rule: sha_full.induct)
  case (1 H data)
  show ?case
  proof (cases "64 \<le> length data")
    case True
    have "sha_blocks (data @ xs) = take 64 data # sha_blocks (drop 64 data @ xs)"
      using sha_blocks_append [of "take 64 data" "drop 64 data @ xs"] True by (simp flip: append_assoc)
    moreover have "sha_full (sha256_block H (take 64 data)) (drop 64 data) = (H', rest)"
      using "1.prems" True by (subst (asm) sha_full.simps) simp
    ultimately show ?thesis using "1.IH" [OF True] True by (simp add: le_mod_geq)
  next
    case False
    then show ?thesis using "1.prems" by (subst (asm) sha_full.simps) simp
  qed
qed

lemma pad_zeros:
  fixes n :: nat
  shows "nat ((55 - int n) mod 64) = (if n mod 64 < 56 then 64 else 128) - (n mod 64 + 1) - 8"
proof -
  have "(55 - int n) mod 64 = (55 - int (n mod 64)) mod 64" by (simp add: zmod_int mod_diff_right_eq)
  moreover have "(55 - int (n mod 64)) mod 64 = (if n mod 64 < 56 then 55 - int (n mod 64) else 119 - int (n mod 64))"
  proof (cases "n mod 64 < 56")
    case False
    have e: "55 - int (n mod 64) + 64 = 119 - int (n mod 64)" by simp
    have "(55 - int (n mod 64)) mod 64 = (55 - int (n mod 64) + 64) mod 64" by (rule mod_add_self2 [symmetric])
    also have "\<dots> = 119 - int (n mod 64)" unfolding e using False by (intro mod_pos_pos_trivial) (simp_all add: less_imp_le)
    finally show ?thesis using False by simp
  qed (simp add: mod_pos_pos_trivial)
  ultimately show ?thesis by (auto simp: nat_diff_distrib)
qed

theorem sha256_standard: "sha256_compute data = sha256_reference data"
proof -
  obtain H rest where full: "sha_full sha_H data = (H, rest)" by fastforce
  let ?tail = "sha_tail (length data) rest"
  define pad where "pad = [0x80] @ replicate (nat ((55 - int (length data)) mod 64)) 0 @ big_length (length data)"
  have rest: "length rest < 64" "length rest = length data mod 64" using sha_full_blocks [OF full] by auto
  have tail: "rest @ pad = ?tail" by (simp add: pad_def sha_tail_def pad_zeros rest(2) Let_def)
  have len: "length ?tail = (if length rest < 56 then 64 else 128)" using rest(1) by (simp add: sha_tail_def Let_def)
  have "sha_pad data = data @ pad" by (simp only: sha_pad_def pad_def)
  then have "fold (\<lambda>blk H. sha256_block H blk) (sha_blocks (sha_pad data)) sha_H = fold (\<lambda>blk H. sha256_block H blk) (sha_blocks ?tail) H"
    using sha_full_blocks [OF full, of pad] by (simp only: tail)
  moreover have "sha_blocks ?tail = (if length ?tail = 128 then [take 64 ?tail, drop 64 ?tail] else [take 64 ?tail])"
    using len sha_blocks_append [of "take 64 ?tail" "drop 64 ?tail"] by (auto simp: sha_blocks.simps split: if_splits)
  ultimately show ?thesis by (simp add: sha256_compute_def sha256_reference_def full Let_def)
qed


end
