(* ===== verification/Save_Codec.thy ===== *)
theory Save_Codec
  imports Dsp_Invariants
begin

text \<open>
  The memory images of C structures, as save states store them. A \<open>field\<close> of a state has a size in
  bytes, an image and a way to read the image back; fields are put together in the order of the
  structure, with the padding of natural alignment between them. \<open>copies\<close> says what reading back an
  image does. Padding bytes, indeterminate in C, are written as zeros and ignored when read.
\<close>

section \<open>Fields\<close>

record 's field =
  f_size :: nat
  f_image :: "'s \<Rightarrow> u8 list"
  f_load :: "u8 list \<Rightarrow> 's \<Rightarrow> 's"

definition gap :: "nat \<Rightarrow> 's field" where
  "gap n = \<lparr>f_size = n, f_image = (\<lambda>_. replicate n 0), f_load = (\<lambda>_ s. s)\<rparr>"

definition then_field :: "'s field \<Rightarrow> 's field \<Rightarrow> 's field" where
  "then_field f g =
     \<lparr>f_size = f_size f + f_size g, f_image = (\<lambda>s. f_image f s @ f_image g s),
      f_load = (\<lambda>bs s. f_load g (drop (f_size f) bs) (f_load f (take (f_size f) bs) s))\<rparr>"

definition struct :: "'s field list \<Rightarrow> 's field" where
  "struct fs = foldr then_field fs (gap 0)"

text \<open>A field of a component of the state, given by the selector and the update of a record.\<close>

definition within :: "('s \<Rightarrow> 'a) \<Rightarrow> (('a \<Rightarrow> 'a) \<Rightarrow> 's \<Rightarrow> 's) \<Rightarrow> 'a field \<Rightarrow> 's field" where
  "within get upd f = \<lparr>f_size = f_size f, f_image = (\<lambda>s. f_image f (get s)), f_load = (\<lambda>bs. upd (f_load f bs))\<rparr>"

text \<open>Integers, the least significant byte first.\<close>

primrec le_bytes :: "nat \<Rightarrow> 'a::len word \<Rightarrow> u8 list" where
  "le_bytes 0 w = []"
| "le_bytes (Suc n) w = ucast w # le_bytes n (drop_bit 8 w)"

primrec of_le :: "u8 list \<Rightarrow> 'a::len word" where
  "of_le [] = 0"
| "of_le (b # bs) = ucast b OR push_bit 8 (of_le bs)"

definition wordf :: "'a::len word field" where
  "wordf = \<lparr>f_size = LENGTH('a) div 8, f_image = le_bytes (LENGTH('a) div 8), f_load = (\<lambda>bs _. of_le bs)\<rparr>"

definition boolf :: "bool field" where
  "boolf = \<lparr>f_size = 1, f_image = (\<lambda>b. [of_bool b]), f_load = (\<lambda>bs _. hd bs \<noteq> 0)\<rparr>"

definition int8f :: "int field" where
  "int8f = \<lparr>f_size = 1, f_image = (\<lambda>x. [word_of_int x]), f_load = (\<lambda>bs _. sint (hd bs))\<rparr>"

definition int16f :: "int field" where
  "int16f = \<lparr>f_size = 2, f_image = (\<lambda>x. le_bytes 2 (word_of_int x :: u16)), f_load = (\<lambda>bs _. sint (of_le bs :: u16))\<rparr>"

text \<open>Arrays, as lists of their length and as functions of the index.\<close>

definition slice :: "nat \<Rightarrow> nat \<Rightarrow> 'a list \<Rightarrow> 'a list" where
  "slice sz i xs = take sz (drop (i * sz) xs)"

definition array :: "nat \<Rightarrow> 'a field \<Rightarrow> 'a list field" where
  "array n f =
     \<lparr>f_size = n * f_size f, f_image = (\<lambda>xs. concat (map (f_image f) xs)),
      f_load = (\<lambda>bs xs. map (\<lambda>i. f_load f (slice (f_size f) i bs) (xs ! i)) [0..<n])\<rparr>"

definition cells :: "nat \<Rightarrow> 'a field \<Rightarrow> ('i::len word \<Rightarrow> 'a) field" where
  "cells n f =
     \<lparr>f_size = n * f_size f, f_image = (\<lambda>m. concat (map (\<lambda>i. f_image f (m (of_nat i))) [0..<n])),
      f_load = (\<lambda>bs m i. if unat i < n then f_load f (slice (f_size f) (unat i) bs) (m i) else m i)\<rparr>"

section \<open>What is read back\<close>

text \<open>The image has the size of the field, and reading it back into \<open>t\<close> gives \<open>cp s t\<close>.\<close>

definition copies :: "'s field \<Rightarrow> ('s \<Rightarrow> bool) \<Rightarrow> ('s \<Rightarrow> 's \<Rightarrow> 's) \<Rightarrow> bool" where
  "copies f ok cp \<longleftrightarrow> (\<forall>s t. ok s \<longrightarrow> length (f_image f s) = f_size f \<and> f_load f (f_image f s) t = cp s t)"

abbreviation copied :: "'s field \<Rightarrow> ('s \<Rightarrow> bool) \<Rightarrow> bool" where
  "copied f ok \<equiv> copies f ok (\<lambda>s _. s)"

lemma copiesD: "copies f ok cp \<Longrightarrow> ok s \<Longrightarrow> length (f_image f s) = f_size f"
  "copies f ok cp \<Longrightarrow> ok s \<Longrightarrow> f_load f (f_image f s) t = cp s t"
  by (auto simp: copies_def)

lemma copies_weaken: "copies f ok cp \<Longrightarrow> (\<And>s. ok' s \<Longrightarrow> ok s) \<Longrightarrow> copies f ok' cp"
  by (auto simp: copies_def)

lemma copies_gap: "copies (gap n) ok (\<lambda>_ t. t)"
  by (simp add: copies_def gap_def)

lemma copies_then:
  "copies f ok cp \<Longrightarrow> copies g ok cp' \<Longrightarrow> copies (then_field f g) ok (\<lambda>s t. cp' s (cp s t))"
  by (simp add: copies_def then_field_def)

lemma copies_struct_Nil: "copies (struct []) ok (\<lambda>_ t. t)"
  by (simp add: struct_def copies_gap)

lemma copies_struct_Cons:
  "copies f ok cp \<Longrightarrow> copies (struct fs) ok cp' \<Longrightarrow> copies (struct (f # fs)) ok (\<lambda>s t. cp' s (cp s t))"
  using copies_then [of f ok cp "struct fs" cp'] by (simp add: struct_def)

lemma copies_within:
  "copies f ok cp \<Longrightarrow> copies (within get upd f) (\<lambda>s. ok (get s)) (\<lambda>s. upd (cp (get s)))"
  by (auto simp: copies_def within_def fun_eq_iff) (metis (mono_tags, lifting) ext)

lemma le_bytes_length [simp]: "length (le_bytes n w) = n"
  by (induction n arbitrary: w) simp_all

lemma of_le_bytes: "of_le (le_bytes n w) = take_bit (8 * n) w"
proof (induction n arbitrary: w)
  case (Suc n)
  show ?case
    by (rule bit_word_eqI) (auto simp: Suc bit_simps dest: bit_imp_le_length)
qed simp

lemma copied_word: "LENGTH('a) mod 8 = 0 \<Longrightarrow> copied (wordf :: 'a::len word field) ok"
  by (auto simp: copies_def wordf_def of_le_bytes mult_div_mod_eq [symmetric])

lemma copied_bool: "copied boolf ok"
  by (simp add: copies_def boolf_def)

lemma sint_word8: "sint (word_of_int x :: u8) = i8 x"
  by (simp add: signed_of_int i8_def)

lemma i8_id: "in8 x \<Longrightarrow> i8 x = x"
  unfolding i8_def in8_def by (rule signed_take_bit_int_eq_self) auto

lemma copied_int8: "(\<And>x. ok x \<Longrightarrow> in8 x) \<Longrightarrow> copied int8f ok"
  by (auto simp: copies_def int8f_def sint_word8 i8_id)

lemma sint_word16: "sint (word_of_int x :: u16) = i16 x"
  by (simp add: signed_of_int i16_def)

lemma copied_int16: "(\<And>x. ok x \<Longrightarrow> in16 x) \<Longrightarrow> copied int16f ok"
  unfolding copies_def int16f_def by (auto simp: of_le_bytes i16_id sint_word16 take_bit_word_eq_self)

lemma concat_slice:
  assumes "\<And>x. x \<in> set xs \<Longrightarrow> length (f x) = sz" "i < length xs"
  shows "slice sz i (concat (map f xs)) = f (xs ! i)"
  using assms
proof (induction xs arbitrary: i)
  case (Cons x xs)
  then show ?case by (cases i) (simp_all add: slice_def)
qed simp

lemma concat_length: "(\<And>x. x \<in> set xs \<Longrightarrow> length (f x) = sz) \<Longrightarrow> length (concat (map f xs)) = length xs * sz"
  by (induction xs) simp_all

lemma copied_array:
  assumes "copied f ok"
  shows "copied (array n f) (\<lambda>xs. length xs = n \<and> list_all ok xs)"
  unfolding copies_def
proof (intro allI impI)
  fix xs t assume xs: "length xs = n \<and> list_all ok xs"
  then have sz: "x \<in> set xs \<Longrightarrow> length (f_image f x) = f_size f" for x using copiesD(1) [OF assms] by (simp add: list_all_iff)
  moreover have "f_load f (f_image f (xs ! i)) (t ! i) = xs ! i" if "i < n" for i
    using that xs copiesD(2) [OF assms] by (simp add: list_all_length)
  ultimately show "length (f_image (array n f) xs) = f_size (array n f) \<and> f_load (array n f) (f_image (array n f) xs) t = xs"
    using xs concat_length [of xs "f_image f"] concat_slice [of xs "f_image f"]
    by (auto simp: array_def intro!: nth_equalityI)
qed

lemma copies_cells:
  assumes "copied f ok" "n \<le> 2 ^ LENGTH('i)"
  shows "copies (cells n f :: ('i::len word \<Rightarrow> 'a) field) (\<lambda>m. \<forall>i. ok (m i)) (\<lambda>m t i. if unat i < n then m i else t i)"
  unfolding copies_def
proof (intro allI impI)
  fix m t :: "'i word \<Rightarrow> 'a" assume ok: "\<forall>i. ok (m i)"
  let ?g = "\<lambda>i. f_image f (m (of_nat i))"
  have sz: "length (?g i) = f_size f" for i using copiesD(1) [OF assms(1)] ok by simp
  have "slice (f_size f) (unat i) (concat (map ?g [0..<n])) = f_image f (m i)" if "unat i < n" for i
    using concat_slice [of "[0..<n]" ?g "f_size f" "unat i"] sz that by simp
  then show "length (f_image (cells n f) m) = f_size (cells n f) \<and>
      f_load (cells n f) (f_image (cells n f) m) t = (\<lambda>i. if unat i < n then m i else t i)"
    using concat_length [of "[0..<n]" ?g] sz copiesD(2) [OF assms(1)] ok by (auto simp: cells_def fun_eq_iff)
qed

lemma copies_eq: "copies f ok cp \<Longrightarrow> (\<And>s t. ok s \<Longrightarrow> cp s t = cp' s t) \<Longrightarrow> copies f ok cp'"
  by (simp add: copies_def)

lemma copied_within:
  assumes "copied f ok" "\<And>s. ok' s \<Longrightarrow> ok (get s)"
  shows "copies (within get upd f) ok' (\<lambda>s. upd (\<lambda>_. get s))"
  using copies_within [OF assms(1), of get upd] assms(2) by (auto simp: copies_def)

lemma copied_always: "LENGTH('a) mod 8 = 0 \<Longrightarrow> copied (wordf :: 'a::len word field) (\<lambda>_. True)" "copied boolf (\<lambda>_. True)"
  by (rule copied_word copied_bool, assumption?)+

lemma copied_ints: "copied int8f in8" "copied int16f in16" "copied int16f in15"
  by (rule copied_int8 copied_int16; simp add: in15_in16)+

named_theorems copies_rules

declare copies_struct_Cons [copies_rules] copies_struct_Nil [copies_rules] copied_within [copies_rules]
  copies_gap [copies_rules] copied_always [copies_rules] copied_ints [copies_rules] copied_array [copies_rules]

section \<open>Files\<close>

text \<open>
  \<open>file_sli_func\<close> of \<open>common_rtl.c\<close>. A file being written is what was handed to the stream so far, the room
  on the disk and the size of the stream's buffer: as the C standard has it, bytes leave for the disk as a
  block when a buffer is full, so a write falls short only when the full buffers no longer fit, and the rest
  leaves when the file is closed. A file being read is what is still to be read; a short read leaves the old
  bytes behind the new ones.
\<close>

record file_sli =
  fs_bytes :: "u8 list"
  fs_room :: nat
  fs_buf :: nat
  fs_is_save :: bool
  fs_error :: bool

abbreviation fopen_wb :: "nat \<Rightarrow> nat \<Rightarrow> u8 list \<Rightarrow> file_sli" where
  "fopen_wb buf room bs \<equiv> \<lparr>fs_bytes = bs, fs_room = room, fs_buf = buf, fs_is_save = True, fs_error = False\<rparr>"

abbreviation fopen_rb :: "u8 list \<Rightarrow> file_sli" where
  "fopen_rb bs \<equiv> \<lparr>fs_bytes = bs, fs_room = 0, fs_buf = 0, fs_is_save = False, fs_error = False\<rparr>"

text \<open>Of \<open>n\<close> bytes handed to the stream, those that have left for the disk.\<close>

definition flushed :: "nat \<Rightarrow> nat \<Rightarrow> nat" where
  "flushed buf n = n div buf * buf"

definition file_sli_func :: "'s field \<Rightarrow> file_sli \<times> 's \<Rightarrow> file_sli \<times> 's" where
  "file_sli_func f = (\<lambda>(fs, s).
     if fs_error fs then (fs, s)
     else if fs_is_save fs then
       let bytes = fs_bytes fs @ f_image f s;
           short = f_size f \<noteq> 0 \<and> fs_room fs < flushed (fs_buf fs) (length bytes)
       in (fs\<lparr>fs_bytes := bytes, fs_error := short\<rparr>, s)
     else
       let got = min (f_size f) (length (fs_bytes fs))
       in (fs\<lparr>fs_bytes := drop got (fs_bytes fs), fs_error := got \<noteq> f_size f\<rparr>,
           f_load f (take (f_size f) (take got (fs_bytes fs) @ drop got (f_image f s))) s))"

text \<open>\<open>fclose\<close> writes what is left in the buffer: the file, as far as it fits, and whether it fitted.\<close>

definition fclose :: "file_sli \<Rightarrow> u8 list \<times> bool" where
  "fclose fs = (take (fs_room fs) (fs_bytes fs), length (fs_bytes fs) \<le> fs_room fs)"

lemma flushed_le: "flushed buf n \<le> n"
  by (simp add: flushed_def)

lemma flushed_mono: "m \<le> n \<Longrightarrow> flushed buf m \<le> flushed buf n"
  by (simp add: flushed_def div_le_mono)

definition zoom :: "('s \<Rightarrow> 'a) \<Rightarrow> (('a \<Rightarrow> 'a) \<Rightarrow> 's \<Rightarrow> 's) \<Rightarrow> ('f \<times> 'a \<Rightarrow> 'f \<times> 'a) \<Rightarrow> 'f \<times> 's \<Rightarrow> 'f \<times> 's" where
  "zoom get upd m = (\<lambda>(fs, s). case m (fs, get s) of (fs, x) \<Rightarrow> (fs, upd (\<lambda>_. x) s))"

text \<open>The bytes needed from a file and the error at its end: the same for every transfer.\<close>

locale saveload =
  fixes m :: "file_sli \<times> 's \<Rightarrow> file_sli \<times> 's" and sz :: nat and image :: "'s \<Rightarrow> u8 list"
    and ok :: "'s \<Rightarrow> bool" and cp :: "'s \<Rightarrow> 's \<Rightarrow> 's"
  assumes failed: "fs_error fs \<Longrightarrow> m (fs, s) = (fs, s)"
    and image_size: "ok s \<Longrightarrow> length (image s) = sz"
    and save: "ok s \<Longrightarrow> fs_is_save fs \<Longrightarrow> \<not> fs_error fs \<Longrightarrow>
      sz = 0 \<or> flushed (fs_buf fs) (length (fs_bytes fs) + sz) \<le> fs_room fs \<Longrightarrow>
      m (fs, s) = (fs\<lparr>fs_bytes := fs_bytes fs @ image s\<rparr>, s)"
    and load: "ok s \<Longrightarrow> \<not> fs_is_save fs \<Longrightarrow> \<not> fs_error fs \<Longrightarrow> fs_bytes fs = image s @ rest \<Longrightarrow>
      m (fs, t) = (fs\<lparr>fs_bytes := rest\<rparr>, cp s t)"
    and enough: "\<not> fs_is_save fs \<Longrightarrow> \<not> fs_error fs \<Longrightarrow> sz \<le> length (fs_bytes fs) \<Longrightarrow>
      \<exists>t'. m (fs, t) = (fs\<lparr>fs_bytes := drop sz (fs_bytes fs)\<rparr>, t')"
    and short: "\<not> fs_is_save fs \<Longrightarrow> \<not> fs_error fs \<Longrightarrow> length (fs_bytes fs) < sz \<Longrightarrow> fs_error (fst (m (fs, t)))"
    and full: "ok s \<Longrightarrow> fs_is_save fs \<Longrightarrow> \<not> fs_error fs \<Longrightarrow> sz \<noteq> 0 \<Longrightarrow>
      fs_room fs < flushed (fs_buf fs) (length (fs_bytes fs) + sz) \<Longrightarrow>
      \<exists>bs s'. m (fs, s) = (fs\<lparr>fs_bytes := bs, fs_error := True\<rparr>, s') \<and> take (fs_room fs) bs = take (fs_room fs) (fs_bytes fs @ image s)"
begin

text \<open>What a save leaves on the disk, a save read back, and which files are accepted.\<close>

lemma saved:
  assumes "ok s" "fs_is_save fs" "\<not> fs_error fs" "sz \<noteq> 0"
  shows "fst (fclose (fst (m (fs, s)))) = take (fs_room fs) (fs_bytes fs @ image s)
    \<and> (fs_error (fst (m (fs, s))) \<longleftrightarrow> fs_room fs < flushed (fs_buf fs) (length (fs_bytes fs) + sz))"
proof (cases "fs_room fs < flushed (fs_buf fs) (length (fs_bytes fs) + sz)")
  case True
  then show ?thesis using full [OF assms] by (auto simp: fclose_def)
next
  case False
  then show ?thesis using save [OF assms(1-3)] assms(3) by (simp add: fclose_def)
qed

lemma round_trip:
  assumes "ok s" "length before + sz \<le> n"
  shows "\<exists>fs. m (fopen_wb buf n before, s) = (fs, s) \<and> fs_error fs = False \<and> fclose fs = (before @ image s, True)
    \<and> m (fopen_rb (image s @ rest), t) = (fopen_rb rest, cp s t)"
  using save [OF assms(1), of "fopen_wb buf n before"] load [OF assms(1), of "fopen_rb (image s @ rest)"] assms(2)
    flushed_le [of buf "length before + sz"] image_size [OF assms(1)]
  by (simp add: fclose_def)

lemma accepts:
  assumes "\<not> fs_is_save fs" "\<not> fs_error fs"
  shows "fs_error (fst (m (fs, t))) \<longleftrightarrow> length (fs_bytes fs) < sz"
proof (cases "length (fs_bytes fs) < sz")
  case False
  then obtain t' where "m (fs, t) = (fs\<lparr>fs_bytes := drop sz (fs_bytes fs)\<rparr>, t')" using enough [OF assms] by (meson not_le)
  then show ?thesis using False assms by simp
qed (use short [OF assms] in simp)

end

lemma saveload_func:
  assumes "copies f ok cp"
  shows "saveload (file_sli_func f) (f_size f) (f_image f) ok cp"
  by unfold_locales (use copiesD [OF assms] in \<open>auto simp: file_sli_func_def Let_def min_def not_le\<close>)

lemma saveload_comp:
  assumes "saveload m1 n1 i1 ok cp1" "saveload m2 n2 i2 ok cp2"
  shows "saveload (\<lambda>st. m2 (m1 st)) (n1 + n2) (\<lambda>s. i1 s @ i2 s) ok (\<lambda>s t. cp2 s (cp1 s t))"
proof unfold_locales
  note a = saveload.failed [OF assms(1)] saveload.image_size [OF assms(1)] saveload.save [OF assms(1)]
  note b = saveload.failed [OF assms(2)] saveload.image_size [OF assms(2)] saveload.save [OF assms(2)]
  fix fs s t rest
  show "fs_error fs \<Longrightarrow> m2 (m1 (fs, s)) = (fs, s)" using a b by simp
  show "ok s \<Longrightarrow> length (i1 s @ i2 s) = n1 + n2" using a b by simp
  let ?n = "length (fs_bytes fs)" and ?fl = "flushed (fs_buf fs)"
  have mono: "?fl (?n + n1) \<le> ?fl (?n + n1 + n2)" by (rule flushed_mono) simp
  show "ok s \<Longrightarrow> fs_is_save fs \<Longrightarrow> \<not> fs_error fs \<Longrightarrow> n1 + n2 = 0 \<or> ?fl (?n + (n1 + n2)) \<le> fs_room fs \<Longrightarrow>
      m2 (m1 (fs, s)) = (fs\<lparr>fs_bytes := fs_bytes fs @ i1 s @ i2 s\<rparr>, s)"
    using a b mono by (auto simp: add.assoc)
  show "ok s \<Longrightarrow> \<not> fs_is_save fs \<Longrightarrow> \<not> fs_error fs \<Longrightarrow> fs_bytes fs = (i1 s @ i2 s) @ rest \<Longrightarrow>
      m2 (m1 (fs, t)) = (fs\<lparr>fs_bytes := rest\<rparr>, cp2 s (cp1 s t))"
    using saveload.load [OF assms(1), of s fs "i2 s @ rest"] saveload.load [OF assms(2), of s "fs\<lparr>fs_bytes := i2 s @ rest\<rparr>" rest]
    by simp
  { assume f: "\<not> fs_is_save fs" "\<not> fs_error fs"
    show "n1 + n2 \<le> length (fs_bytes fs) \<Longrightarrow> \<exists>t'. m2 (m1 (fs, t)) = (fs\<lparr>fs_bytes := drop (n1 + n2) (fs_bytes fs)\<rparr>, t')"
    proof -
      assume l: "n1 + n2 \<le> length (fs_bytes fs)"
      then obtain t1 where "m1 (fs, t) = (fs\<lparr>fs_bytes := drop n1 (fs_bytes fs)\<rparr>, t1)" using saveload.enough [OF assms(1) f] by fastforce
      then show ?thesis using saveload.enough [OF assms(2), of "fs\<lparr>fs_bytes := drop n1 (fs_bytes fs)\<rparr>" t1] f l
        by (simp add: add.commute)
    qed
    show "length (fs_bytes fs) < n1 + n2 \<Longrightarrow> fs_error (fst (m2 (m1 (fs, t))))"
    proof (cases "length (fs_bytes fs) < n1")
      case True
      then have "fs_error (fst (m1 (fs, t)))" by (rule saveload.short [OF assms(1) f])
      then show ?thesis using b(1) [of "fst (m1 (fs, t))" "snd (m1 (fs, t))"] by simp
    next
      case False
      assume l: "length (fs_bytes fs) < n1 + n2"
      obtain t1 where "m1 (fs, t) = (fs\<lparr>fs_bytes := drop n1 (fs_bytes fs)\<rparr>, t1)"
        using saveload.enough [OF assms(1) f] False by (meson not_le)
      then show ?thesis using saveload.short [OF assms(2), of "fs\<lparr>fs_bytes := drop n1 (fs_bytes fs)\<rparr>" t1] f l False by simp
    qed }
  assume s: "ok s" "fs_is_save fs" "\<not> fs_error fs" "n1 + n2 \<noteq> 0" "fs_room fs < ?fl (?n + (n1 + n2))"
  show "\<exists>bs s'. m2 (m1 (fs, s)) = (fs\<lparr>fs_bytes := bs, fs_error := True\<rparr>, s')
      \<and> take (fs_room fs) bs = take (fs_room fs) (fs_bytes fs @ i1 s @ i2 s)"
  proof (cases "n1 \<noteq> 0 \<and> fs_room fs < ?fl (?n + n1)")
    case True
    moreover have "fs_room fs \<le> length (fs_bytes fs @ i1 s)" using True flushed_le [of "fs_buf fs" "?n + n1"] a(2) [OF s(1)] by simp
    ultimately show ?thesis using saveload.full [OF assms(1) s(1-3)] b(1) by fastforce
  next
    case False
    then have "m1 (fs, s) = (fs\<lparr>fs_bytes := fs_bytes fs @ i1 s\<rparr>, s)" using a(3) [OF s(1-3)] by (auto simp: not_less)
    moreover have "n2 \<noteq> 0" using False s(4,5) by (cases "n2 = 0") auto
    ultimately show ?thesis
      using saveload.full [OF assms(2) s(1), of "fs\<lparr>fs_bytes := fs_bytes fs @ i1 s\<rparr>"] s a(2) [OF s(1)] by (simp add: add.assoc)
  qed
qed

lemma saveload_zoom:
  assumes "saveload m n i ok cp" "\<And>s. upd (\<lambda>_. get s) s = s" "\<And>s. ok' s \<Longrightarrow> ok (get s)"
  shows "saveload (zoom get upd m) n (\<lambda>s. i (get s)) ok' (\<lambda>s t. upd (\<lambda>_. cp (get s) (get t)) t)"
proof unfold_locales
  note laws = saveload.failed [OF assms(1)] saveload.image_size [OF assms(1)] saveload.save [OF assms(1)]
    saveload.load [OF assms(1)]
  fix fs s t rest
  show "fs_error fs \<Longrightarrow> zoom get upd m (fs, s) = (fs, s)" using laws(1) assms(2) by (simp add: zoom_def)
  show "ok' s \<Longrightarrow> length (i (get s)) = n" using laws(2) assms(3) by simp
  show "ok' s \<Longrightarrow> fs_is_save fs \<Longrightarrow> \<not> fs_error fs \<Longrightarrow>
      n = 0 \<or> flushed (fs_buf fs) (length (fs_bytes fs) + n) \<le> fs_room fs \<Longrightarrow>
      zoom get upd m (fs, s) = (fs\<lparr>fs_bytes := fs_bytes fs @ i (get s)\<rparr>, s)"
    using laws(3) assms(2,3) by (simp add: zoom_def)
  show "ok' s \<Longrightarrow> \<not> fs_is_save fs \<Longrightarrow> \<not> fs_error fs \<Longrightarrow> fs_bytes fs = i (get s) @ rest \<Longrightarrow>
      zoom get upd m (fs, t) = (fs\<lparr>fs_bytes := rest\<rparr>, upd (\<lambda>_. cp (get s) (get t)) t)"
    using laws(4) [of "get s" fs rest "get t"] assms(3) by (simp add: zoom_def)
  show "\<not> fs_is_save fs \<Longrightarrow> \<not> fs_error fs \<Longrightarrow> n \<le> length (fs_bytes fs) \<Longrightarrow>
      \<exists>t'. zoom get upd m (fs, t) = (fs\<lparr>fs_bytes := drop n (fs_bytes fs)\<rparr>, t')"
    using saveload.enough [OF assms(1), of fs "get t"] by (auto simp: zoom_def)
  show "\<not> fs_is_save fs \<Longrightarrow> \<not> fs_error fs \<Longrightarrow> length (fs_bytes fs) < n \<Longrightarrow> fs_error (fst (zoom get upd m (fs, t)))"
    using saveload.short [OF assms(1), of fs "get t"] by (auto simp: zoom_def split: prod.splits)
  show "ok' s \<Longrightarrow> fs_is_save fs \<Longrightarrow> \<not> fs_error fs \<Longrightarrow> n \<noteq> 0 \<Longrightarrow>
      fs_room fs < flushed (fs_buf fs) (length (fs_bytes fs) + n) \<Longrightarrow>
      \<exists>bs s'. zoom get upd m (fs, s) = (fs\<lparr>fs_bytes := bs, fs_error := True\<rparr>, s')
        \<and> take (fs_room fs) bs = take (fs_room fs) (fs_bytes fs @ i (get s))"
    using saveload.full [OF assms(1), of "get s" fs] assms(3) by (fastforce simp: zoom_def)
qed

lemma saveload_part:
  assumes "saveload m n i ok cp" "\<And>s. upd (\<lambda>_. get s) s = s" "\<And>s. ok' s \<Longrightarrow> ok (get s)"
    "\<And>s t. upd (\<lambda>_. cp (get s) (get t)) t = cp' s t"
  shows "saveload (zoom get upd m) n (\<lambda>s. i (get s)) ok' cp'"
proof -
  have "(\<lambda>s t. upd (\<lambda>_. cp (get s) (get t)) t) = cp'" using assms(4) by (simp add: fun_eq_iff)
  then show ?thesis using saveload_zoom [where upd = upd, OF assms(1,2), of ok'] assms(3) by simp
qed

lemma saveload_then:
  assumes "saveload m1 n1 i1 ok cp1" "saveload m2 n2 i2 ok cp2" "\<And>s t. cp2 s (cp1 s t) = cp s t" "\<And>st. m st = m2 (m1 st)"
  shows "saveload m (n1 + n2) (\<lambda>s. i1 s @ i2 s) ok cp"
proof -
  have "(\<lambda>s t. cp2 s (cp1 s t)) = cp" "(\<lambda>st. m2 (m1 st)) = m" using assms(3,4) by (simp_all add: fun_eq_iff)
  then show ?thesis using saveload_comp [OF assms(1,2)] by simp
qed

lemma saveload_weaken: "saveload m n i ok cp \<Longrightarrow> (\<And>s. ok' s \<Longrightarrow> ok s) \<Longrightarrow> saveload m n i ok' cp"
  unfolding saveload_def by blast

lemma saveload_blob: "copies f ok cp \<Longrightarrow> f_size f = n \<Longrightarrow> (\<And>s. ok' s \<Longrightarrow> ok s) \<Longrightarrow> saveload (file_sli_func f) n (f_image f) ok' cp"
  using saveload_weaken [OF saveload_func] by blast

end
