(* ===== verification/Snapshot.thy ===== *)
theory Snapshot
  imports Save_Codec Snes_Invariants
begin

text \<open>
  Save states: \<open>snes_saveload\<close> with the functions it calls in \<open>cpu.c\<close>, \<open>apu.c\<close>, \<open>dsp.c\<close>, \<open>spc.c\<close>, \<open>dma.c\<close>,
  \<open>ppu.c\<close> and \<open>cart.c\<close>, and the snapshot files of \<open>common_rtl.c\<close>. Each function transfers blobs, ranges of a
  structure from one field to another; they are laid out here as on a 64-bit little-endian host. A
  snapshot read back restores what the blobs hold and keeps the rest of the running system.
\<close>

section \<open>The legacy processor structure\<close>

record legacy_cpu =
  lc_a :: u16
  lc_x :: u16
  lc_y :: u16
  lc_sp :: u16
  lc_pc :: u16
  lc_dp :: u16
  lc_k :: u8
  lc_db :: u8
  lc_c :: bool
  lc_z :: bool
  lc_v :: bool
  lc_n :: bool
  lc_i :: bool
  lc_d :: bool
  lc_xf :: bool
  lc_mf :: bool
  lc_e :: bool

definition cpu_reset :: legacy_cpu where
  "cpu_reset = \<lparr>lc_a = 0, lc_x = 0, lc_y = 0, lc_sp = 0x100, lc_pc = 0, lc_dp = 0, lc_k = 0, lc_db = 0,
     lc_c = False, lc_z = False, lc_v = False, lc_n = False, lc_i = True, lc_d = False, lc_xf = True, lc_mf = True, lc_e = True\<rparr>"

definition cpu_getFlags :: "legacy_cpu \<Rightarrow> u8" where
  "cpu_getFlags cpu =
     push_bit 7 (of_bool (lc_n cpu)) OR push_bit 6 (of_bool (lc_v cpu)) OR push_bit 5 (of_bool (lc_mf cpu))
     OR push_bit 4 (of_bool (lc_xf cpu)) OR push_bit 3 (of_bool (lc_d cpu)) OR push_bit 2 (of_bool (lc_i cpu))
     OR push_bit 1 (of_bool (lc_z cpu)) OR of_bool (lc_c cpu)"

definition cpu_setFlags :: "u8 \<Rightarrow> legacy_cpu \<Rightarrow> legacy_cpu" where
  "cpu_setFlags val cpu =
     (let cpu = cpu\<lparr>lc_n := (val AND 0x80 \<noteq> 0), lc_v := (val AND 0x40 \<noteq> 0), lc_mf := (val AND 0x20 \<noteq> 0),
                    lc_xf := (val AND 0x10 \<noteq> 0), lc_d := (val AND 8 \<noteq> 0), lc_i := (val AND 4 \<noteq> 0),
                    lc_z := (val AND 2 \<noteq> 0), lc_c := (val AND 1 \<noteq> 0)\<rparr>;
          cpu = (if lc_e cpu then cpu\<lparr>lc_mf := True, lc_xf := True, lc_sp := (lc_sp cpu AND 0xff) OR 0x100\<rparr> else cpu)
      in (if lc_xf cpu then cpu\<lparr>lc_x := lc_x cpu AND 0xff, lc_y := lc_y cpu AND 0xff\<rparr> else cpu))"

section \<open>The blobs\<close>

definition cpu_blob :: "legacy_cpu field" where
  "cpu_blob = struct
     [within lc_a lc_a_update wordf, within lc_x lc_x_update wordf, within lc_y lc_y_update wordf,
      within lc_sp lc_sp_update wordf, within lc_pc lc_pc_update wordf, within lc_dp lc_dp_update wordf,
      within lc_k lc_k_update wordf, within lc_db lc_db_update wordf, within lc_c lc_c_update boolf,
      within lc_z lc_z_update boolf, within lc_v lc_v_update boolf, within lc_n lc_n_update boolf,
      within lc_i lc_i_update boolf, within lc_d lc_d_update boolf, within lc_xf lc_xf_update boolf,
      within lc_mf lc_mf_update boolf, within lc_e lc_e_update boolf, gap 1]"

definition spc_blob :: "spc field" where
  "spc_blob = struct
     [within spc_a spc_a_update wordf, within spc_x spc_x_update wordf, within spc_y spc_y_update wordf,
      within spc_sp spc_sp_update wordf, within spc_pc spc_pc_update wordf,
      within spc_c spc_c_update boolf, within spc_z spc_z_update boolf, within spc_v spc_v_update boolf,
      within spc_n spc_n_update boolf, within spc_i spc_i_update boolf, within spc_h spc_h_update boolf,
      within spc_p spc_p_update boolf, within spc_b spc_b_update boolf,
      within spc_stopped spc_stopped_update boolf]"

definition timer_field :: "timer field" where
  "timer_field = struct
     [within tm_cycles tm_cycles_update wordf, within tm_divider tm_divider_update wordf,
      within tm_target tm_target_update wordf, within tm_counter tm_counter_update wordf,
      within tm_enabled tm_enabled_update boolf]"

text \<open>From \<open>ram\<close> to the end of \<open>pad\<close>; the port queue lies behind it.\<close>

definition apu_blob :: "apu field" where
  "apu_blob = struct
     [within apu_ram apu_ram_update (cells 0x10000 wordf),
      within apu_romReadable apu_romReadable_update boolf, within apu_dspAdr apu_dspAdr_update wordf,
      gap 2, within apu_cycles apu_cycles_update wordf,
      within apu_inPorts apu_inPorts_update (array 6 wordf),
      within apu_outPorts apu_outPorts_update (array 4 wordf),
      within apu_timers apu_timers_update (array 3 timer_field),
      within apu_cpuCyclesLeft apu_cpuCyclesLeft_update wordf, gap 6]"

definition dsp_channel_field :: "dsp_channel field" where
  "dsp_channel_field = struct
     [within ch_pitch ch_pitch_update wordf, within ch_pitchCounter ch_pitchCounter_update wordf,
      within ch_pitchModulation ch_pitchModulation_update boolf, gap 1,
      within ch_decodeBuffer ch_decodeBuffer_update (array 19 int16f), within ch_srcn ch_srcn_update wordf,
      gap 1, within ch_decodeOffset ch_decodeOffset_update wordf,
      within ch_previousFlags ch_previousFlags_update wordf, gap 1, within ch_old ch_old_update int16f,
      within ch_older ch_older_update int16f, within ch_useNoise ch_useNoise_update boolf, gap 1,
      within ch_adsrRates ch_adsrRates_update (array 4 wordf),
      within ch_rateCounter ch_rateCounter_update wordf, within ch_adsrState ch_adsrState_update wordf,
      gap 1, within ch_sustainLevel ch_sustainLevel_update wordf,
      within ch_useGain ch_useGain_update boolf, within ch_gainMode ch_gainMode_update wordf,
      within ch_directGain ch_directGain_update boolf, gap 1,
      within ch_gainValue ch_gainValue_update wordf, within ch_gain ch_gain_update wordf,
      within ch_keyOn ch_keyOn_update boolf, within ch_keyOff ch_keyOff_update boolf,
      within ch_sampleOut ch_sampleOut_update int16f, within ch_volumeL ch_volumeL_update int8f,
      within ch_volumeR ch_volumeR_update int8f, within ch_echoEnable ch_echoEnable_update boolf, gap 1]"

text \<open>From \<open>ram\<close> to the end of the structure, the output ring included.\<close>

definition dsp_blob :: "dsp field" where
  "dsp_blob = struct
     [within dsp_ram dsp_ram_update (array 0x80 wordf),
      within dsp_channels dsp_channels_update (array 8 dsp_channel_field),
      within dsp_dirPage dsp_dirPage_update wordf, within dsp_evenCycle dsp_evenCycle_update boolf,
      within dsp_mute dsp_mute_update boolf, within dsp_resetFlag dsp_resetFlag_update boolf,
      within dsp_masterVolumeL dsp_masterVolumeL_update int8f,
      within dsp_masterVolumeR dsp_masterVolumeR_update int8f, gap 1,
      within dsp_noiseSample dsp_noiseSample_update int16f,
      within dsp_noiseRate dsp_noiseRate_update wordf,
      within dsp_noiseCounter dsp_noiseCounter_update wordf,
      within dsp_echoWrites dsp_echoWrites_update boolf,
      within dsp_echoVolumeL dsp_echoVolumeL_update int8f,
      within dsp_echoVolumeR dsp_echoVolumeR_update int8f,
      within dsp_feedbackVolume dsp_feedbackVolume_update int8f,
      within dsp_echoBufferAdr dsp_echoBufferAdr_update wordf,
      within dsp_echoDelay dsp_echoDelay_update wordf, within dsp_echoRemain dsp_echoRemain_update wordf,
      within dsp_echoBufferIndex dsp_echoBufferIndex_update wordf,
      within dsp_firBufferIndex dsp_firBufferIndex_update wordf,
      within dsp_firValues dsp_firValues_update (array 8 int8f), gap 1,
      within dsp_firBufferL dsp_firBufferL_update (array 8 int16f),
      within dsp_firBufferR dsp_firBufferR_update (array 8 int16f),
      within dsp_sampleBuffer dsp_sampleBuffer_update (array (DSP_SAMPLE_RING * 2) int16f),
      within dsp_sampleWrite dsp_sampleWrite_update wordf,
      within dsp_sampleRead dsp_sampleRead_update wordf, gap 4]"

definition dma_channel_field :: "dma_channel field" where
  "dma_channel_field = struct
     [within dc_bAdr dc_bAdr_update wordf, gap 1, within dc_aAdr dc_aAdr_update wordf,
      within dc_aBank dc_aBank_update wordf, gap 1, within dc_size dc_size_update wordf,
      within dc_indBank dc_indBank_update wordf, gap 1, within dc_tableAdr dc_tableAdr_update wordf,
      within dc_repCount dc_repCount_update wordf, within dc_unusedByte dc_unusedByte_update wordf,
      within dc_dmaActive dc_dmaActive_update boolf, within dc_hdmaActive dc_hdmaActive_update boolf,
      within dc_mode dc_mode_update wordf, within dc_fixed dc_fixed_update boolf,
      within dc_decrement dc_decrement_update boolf, within dc_indirect dc_indirect_update boolf,
      within dc_fromB dc_fromB_update boolf, within dc_unusedBit dc_unusedBit_update boolf,
      within dc_doTransfer dc_doTransfer_update boolf, within dc_terminated dc_terminated_update boolf,
      within dc_offIndex dc_offIndex_update wordf, gap 1]"

definition dma_blob :: "dma field" where
  "dma_blob = struct
     [within dma_channels dma_channels_update (array 8 dma_channel_field),
      within dma_dmaTimer dma_dmaTimer_update wordf, within dma_dmaBusy dma_dmaBusy_update boolf, gap 3]"

text \<open>The two ranges of the picture processor: from \<open>inidisp\<close> to \<open>cgwsel\<close>, from \<open>cgram\<close> to \<open>vram\<close>.\<close>

definition ppu_regs_blob :: "ppu field" where
  "ppu_regs_blob = struct
     [within ppu_inidisp ppu_inidisp_update wordf, within ppu_obsel ppu_obsel_update wordf,
      within ppu_oamaddl ppu_oamaddl_update wordf, within ppu_oamaddh ppu_oamaddh_update wordf,
      within ppu_bgmode ppu_bgmode_update wordf, within ppu_mosaic ppu_mosaic_update wordf,
      within ppu_bgXsc ppu_bgXsc_update (array 4 wordf), within ppu_bgTileAdr ppu_bgTileAdr_update wordf,
      within ppu_m7sel ppu_m7sel_update wordf, within ppu_setini ppu_setini_update wordf,
      within ppu_hScroll ppu_hScroll_update (array 4 wordf),
      within ppu_vScroll ppu_vScroll_update (array 4 wordf),
      within ppu_m7matrix ppu_m7matrix_update (array 8 wordf),
      within ppu_fixedColor ppu_fixedColor_update wordf, within ppu_windowsel ppu_windowsel_update wordf,
      within ppu_window1left ppu_window1left_update wordf,
      within ppu_window1right ppu_window1right_update wordf,
      within ppu_window2left ppu_window2left_update wordf,
      within ppu_window2right ppu_window2right_update wordf,
      within ppu_wbgobjlog ppu_wbgobjlog_update wordf,
      within ppu_screenEnabled ppu_screenEnabled_update (array 2 wordf),
      within ppu_screenWindowed ppu_screenWindowed_update (array 2 wordf),
      within ppu_cgadsub ppu_cgadsub_update wordf, within ppu_cgwsel ppu_cgwsel_update wordf]"

definition ppu_mem_blob :: "ppu field" where
  "ppu_mem_blob = struct
     [within ppu_cgram ppu_cgram_update (cells 0x100 wordf),
      within ppu_oam ppu_oam_update (cells 0x100 wordf),
      within ppu_highOam ppu_highOam_update (cells 0x20 wordf),
      within ppu_vram ppu_vram_update (cells 0x8000 wordf)]"

text \<open>A local variable of a function: written with its value, read and forgotten.\<close>

definition local_blob :: "u8 list \<Rightarrow> 's field" where
  "local_blob bs = \<lparr>f_size = length bs, f_image = (\<lambda>_. bs), f_load = (\<lambda>_ s. s)\<rparr>"

text \<open>\<open>PPU0\<close> and the size of the two ranges.\<close>

definition ppu_version :: "u8 list" where
  "ppu_version = le_bytes 4 (0x30555050 :: u32) @ le_bytes 4 (0x40 + 0x10420 :: u32)"

text \<open>The system with the structures the other theories leave out: the legacy processor and the bits of
  the floating-point accumulator \<open>apuCatchupCycles\<close>.\<close>

record host =
  h_snes :: snes
  h_cpu :: legacy_cpu
  h_apuCatchup :: u64

abbreviation of_snes :: "(snes \<Rightarrow> 'a) \<Rightarrow> (('a \<Rightarrow> 'a) \<Rightarrow> snes \<Rightarrow> snes) \<Rightarrow> 'a field \<Rightarrow> host field" where
  "of_snes get upd \<equiv> within (\<lambda>h. get (h_snes h)) (\<lambda>g. h_snes_update (upd g))"

definition snes_blob :: "host field" where
  "snes_blob = struct
     [of_snes sn_hPos sn_hPos_update wordf, of_snes sn_vPos sn_vPos_update wordf, gap 4,
      within h_apuCatchup h_apuCatchup_update wordf, of_snes sn_hIrqEnabled sn_hIrqEnabled_update boolf,
      of_snes sn_vIrqEnabled sn_vIrqEnabled_update boolf, of_snes sn_nmiEnabled sn_nmiEnabled_update boolf,
      gap 1, of_snes sn_hTimer sn_hTimer_update wordf, of_snes sn_vTimer sn_vTimer_update wordf,
      of_snes sn_inNmi sn_inNmi_update boolf, of_snes sn_inIrq sn_inIrq_update boolf,
      of_snes sn_inVblank sn_inVblank_update boolf, of_snes sn_autoJoyRead sn_autoJoyRead_update boolf,
      of_snes sn_autoJoyTimer sn_autoJoyTimer_update wordf, of_snes sn_ppuLatch sn_ppuLatch_update boolf,
      of_snes sn_multiplyA sn_multiplyA_update wordf,
      of_snes sn_multiplyResult sn_multiplyResult_update wordf, of_snes sn_divideA sn_divideA_update wordf,
      of_snes sn_divideResult sn_divideResult_update wordf, gap 2]"

section \<open>The transfer of the system\<close>

type_synonym 's transfer = "file_sli \<times> 's \<Rightarrow> file_sli \<times> 's"

definition cpu_saveload :: "legacy_cpu transfer" where "cpu_saveload = file_sli_func cpu_blob"

definition dsp_saveload :: "dsp transfer" where "dsp_saveload = file_sli_func dsp_blob"

definition spc_saveload :: "spc transfer" where "spc_saveload = file_sli_func spc_blob"

definition apu_saveload :: "spc transfer" where
  "apu_saveload st =
     (let st = zoom spc_apu spc_apu_update (file_sli_func apu_blob) st;
          st = zoom (\<lambda>spc. apu_dsp (spc_apu spc)) (\<lambda>g. spc_apu_update (apu_dsp_update g)) dsp_saveload st
      in spc_saveload st)"

definition dma_saveload :: "dma transfer" where "dma_saveload = file_sli_func dma_blob"

definition ppu_saveload :: "ppu transfer" where
  "ppu_saveload st =
     (let st = file_sli_func (local_blob ppu_version) st;
          st = file_sli_func ppu_regs_blob st
      in file_sli_func ppu_mem_blob st)"

definition cart_blob :: "nat \<Rightarrow> cart field" where
  "cart_blob n = within cart_ram cart_ram_update (array n wordf)"

definition cart_saveload :: "cart transfer" where
  "cart_saveload st = file_sli_func (cart_blob (unat (cart_ramSize (snd st)))) st"

abbreviation zoom_snes :: "(snes \<Rightarrow> 'a) \<Rightarrow> (('a \<Rightarrow> 'a) \<Rightarrow> snes \<Rightarrow> snes) \<Rightarrow> 'a transfer \<Rightarrow> host transfer" where
  "zoom_snes get upd \<equiv> zoom (\<lambda>h. get (h_snes h)) (\<lambda>g. h_snes_update (upd g))"

definition snes_saveload :: "host transfer" where
  "snes_saveload st =
     (let st = zoom h_cpu h_cpu_update cpu_saveload st;
          st = zoom_snes sn_apu sn_apu_update apu_saveload st;
          st = zoom_snes sn_dma sn_dma_update dma_saveload st;
          st = zoom_snes sn_ppu sn_ppu_update ppu_saveload st;
          st = zoom_snes sn_cart sn_cart_update cart_saveload st;
          st = file_sli_func snes_blob st;
          st = file_sli_func (of_snes sn_ram sn_ram_update (cells 0x20000 wordf)) st;
          st = file_sli_func (of_snes sn_ramAdr sn_ramAdr_update wordf) st
      in (fst st, h_cpu_update (lc_e_update (\<lambda>_. False)) (snd st)))"

section \<open>Snapshot files\<close>

text \<open>\<open>RTL_SAV_MAGIC\<close> and \<open>RTL_SAV_VERSION\<close>.\<close>

definition snapshot_header :: "u8 list" where
  "snapshot_header = le_bytes 4 (0x52544c53 :: u32) @ le_bytes 4 (4 :: u32)"

text \<open>
  The file that \<open>RtlSaveSnapshot\<close> leaves on a disk with room for \<open>room\<close> bytes through a stream with a buffer
  of \<open>buf\<close> bytes, whether it prints an error, and the state after it. The header is written unchecked, and
  what \<open>fclose\<close> returns is dropped. \<open>RtlLoadSnapshot\<close> of a file, if there is one.
\<close>

definition RtlSaveSnapshot :: "nat \<Rightarrow> nat \<Rightarrow> host \<Rightarrow> u8 list \<times> bool \<times> host" where
  "RtlSaveSnapshot buf room h =
     (let (fs, h) = snes_saveload (fopen_wb buf room snapshot_header, h);
          error = fs_error fs;
          (bytes, _) = fclose fs
      in (bytes, error, h))"

definition RtlLoadSnapshot :: "u8 list option \<Rightarrow> host \<Rightarrow> bool \<times> host" where
  "RtlLoadSnapshot f h =
     (case f of None \<Rightarrow> (False, h)
      | Some bytes \<Rightarrow>
          if length bytes < 8 \<or> take 8 bytes \<noteq> snapshot_header then (False, h)
          else (let (fs, h) = snes_saveload (fopen_rb (drop 8 bytes), h) in (\<not> fs_error fs, h)))"

section \<open>What a snapshot restores\<close>

text \<open>All of the audio unit but the pending port writes, the clock they wait for and a scratch counter.\<close>

definition restore_apu :: "spc \<Rightarrow> spc \<Rightarrow> spc" where
  "restore_apu s t = s\<lparr>spc_cyclesUsed := spc_cyclesUsed t,
     spc_apu := (spc_apu s)\<lparr>apu_portQueue := apu_portQueue (spc_apu t), apu_portQHead := apu_portQHead (spc_apu t),
       apu_portQTail := apu_portQTail (spc_apu t), apu_produced := apu_produced (spc_apu t)\<rparr>\<rparr>"

text \<open>The registers and memories of the picture processor, without the state of its access ports.\<close>

definition first_cells :: "nat \<Rightarrow> ('i::len word \<Rightarrow> 'a) \<Rightarrow> ('i word \<Rightarrow> 'a) \<Rightarrow> 'i word \<Rightarrow> 'a" where
  "first_cells n s t = (\<lambda>i. if unat i < n then s i else t i)"

definition restore_ppu :: "ppu \<Rightarrow> ppu \<Rightarrow> ppu" where
  "restore_ppu s t = t
     \<lparr>ppu_inidisp := ppu_inidisp s, ppu_obsel := ppu_obsel s, ppu_oamaddl := ppu_oamaddl s,
       ppu_oamaddh := ppu_oamaddh s, ppu_bgmode := ppu_bgmode s, ppu_mosaic := ppu_mosaic s,
       ppu_bgXsc := ppu_bgXsc s, ppu_bgTileAdr := ppu_bgTileAdr s, ppu_m7sel := ppu_m7sel s,
       ppu_setini := ppu_setini s, ppu_hScroll := ppu_hScroll s, ppu_vScroll := ppu_vScroll s,
       ppu_m7matrix := ppu_m7matrix s, ppu_fixedColor := ppu_fixedColor s, ppu_windowsel := ppu_windowsel s,
       ppu_window1left := ppu_window1left s, ppu_window1right := ppu_window1right s,
       ppu_window2left := ppu_window2left s, ppu_window2right := ppu_window2right s,
       ppu_wbgobjlog := ppu_wbgobjlog s, ppu_screenEnabled := ppu_screenEnabled s,
       ppu_screenWindowed := ppu_screenWindowed s, ppu_cgadsub := ppu_cgadsub s, ppu_cgwsel := ppu_cgwsel s,
       ppu_cgram := ppu_cgram s, ppu_oam := ppu_oam s,
      ppu_highOam := first_cells 0x20 (ppu_highOam s) (ppu_highOam t),
      ppu_vram := first_cells 0x8000 (ppu_vram s) (ppu_vram t)\<rparr>"

definition restore_snes :: "snes \<Rightarrow> snes \<Rightarrow> snes" where
  "restore_snes s t = t
     \<lparr>sn_apu := restore_apu (sn_apu s) (sn_apu t), sn_dma := sn_dma s, sn_ppu := restore_ppu (sn_ppu s) (sn_ppu t),
      sn_cart := (sn_cart t)\<lparr>cart_ram := cart_ram (sn_cart s)\<rparr>,
      sn_ram := first_cells 0x20000 (sn_ram s) (sn_ram t),
      sn_hPos := sn_hPos s, sn_vPos := sn_vPos s, sn_hIrqEnabled := sn_hIrqEnabled s,
       sn_vIrqEnabled := sn_vIrqEnabled s, sn_nmiEnabled := sn_nmiEnabled s, sn_hTimer := sn_hTimer s,
       sn_vTimer := sn_vTimer s, sn_inNmi := sn_inNmi s, sn_inIrq := sn_inIrq s,
       sn_inVblank := sn_inVblank s, sn_autoJoyRead := sn_autoJoyRead s,
       sn_autoJoyTimer := sn_autoJoyTimer s, sn_ppuLatch := sn_ppuLatch s,
       sn_multiplyA := sn_multiplyA s, sn_multiplyResult := sn_multiplyResult s,
       sn_divideA := sn_divideA s, sn_divideResult := sn_divideResult s, sn_ramAdr := sn_ramAdr s\<rparr>"

text \<open>The flag \<open>e\<close> of the legacy processor is cleared by every transfer.\<close>

definition restored :: "host \<Rightarrow> host \<Rightarrow> host" where
  "restored s t = t\<lparr>h_snes := restore_snes (h_snes s) (h_snes t), h_cpu := (h_cpu s)\<lparr>lc_e := False\<rparr>,
     h_apuCatchup := h_apuCatchup s\<rparr>"

section \<open>The blobs read back\<close>

lemma copied_full_cells:
  assumes "copied f (\<lambda>_. True)" "n = 2 ^ LENGTH('i)"
  shows "copied (cells n f :: ('i::len word \<Rightarrow> 'a) field) (\<lambda>_. True)"
proof -
  have "unat i < n" for i :: "'i word" using unsigned_less [of i, where 'a = nat] assms(2) by simp
  then show ?thesis using copies_cells [OF assms(1), of n, where 'i = 'i] assms(2) by (simp add: copies_def)
qed

lemma copies_first_cells:
  assumes "copied f (\<lambda>_. True)" "n \<le> 2 ^ LENGTH('i)"
  shows "copies (within get upd (cells n f :: ('i::len word \<Rightarrow> 'a) field)) ok (\<lambda>s. upd (first_cells n (get s)))"
  using copies_within [OF copies_cells [OF assms], of get upd] by (simp add: copies_def first_cells_def [abs_def])

lemma cpu_blob_copies: "copied cpu_blob (\<lambda>_. True)"
  unfolding cpu_blob_def
  by (rule copies_eq, (rule copies_rules | simp)+)

lemma spc_blob_copies: "copies spc_blob (\<lambda>_. True) (\<lambda>s t. s\<lparr>spc_cyclesUsed := spc_cyclesUsed t, spc_apu := spc_apu t\<rparr>)"
  unfolding spc_blob_def
  by (rule copies_eq, (rule copies_rules | simp)+)

lemma timer_copied: "copied timer_field (\<lambda>_. True)"
  unfolding timer_field_def
  by (rule copies_eq, (rule copies_rules | simp)+)

lemma dma_channel_copied: "copied dma_channel_field (\<lambda>_. True)"
  unfolding dma_channel_field_def
  by (rule copies_eq, (rule copies_rules | simp)+)

declare timer_copied [copies_rules] dma_channel_copied [copies_rules]

lemma apu_blob_copies:
  "copies apu_blob apu_wf (\<lambda>s t. s\<lparr>apu_dsp := apu_dsp t, apu_portQueue := apu_portQueue t,
     apu_portQHead := apu_portQHead t, apu_portQTail := apu_portQTail t, apu_produced := apu_produced t\<rparr>)"
  unfolding apu_blob_def
  by (rule copies_eq, (rule copies_rules copied_full_cells | (auto simp: apu_wf_def list_all_iff in15_in16)[1])+)

lemma dsp_channel_copied: "copied dsp_channel_field ch_wf"
  unfolding dsp_channel_field_def
  by (rule copies_eq, (rule copies_rules | (auto simp: ch_wf_def list_all_iff in15_in16)[1])+)

declare dsp_channel_copied [copies_rules]

lemma dsp_blob_copied: "copied dsp_blob dsp_wf"
  unfolding dsp_blob_def
  by (rule copies_eq, (rule copies_rules | (auto simp: dsp_wf_def list_all_iff in15_in16)[1])+)

lemma dma_blob_copied: "copied dma_blob dma_shape"
  unfolding dma_blob_def
  by (rule copies_eq, (rule copies_rules | (auto simp: dma_shape_def list_all_iff in15_in16)[1])+)

lemma ppu_regs_copies: "copies ppu_regs_blob ppu_wf (\<lambda>s t. restore_ppu s t
    \<lparr>ppu_cgram := ppu_cgram t, ppu_oam := ppu_oam t, ppu_highOam := ppu_highOam t, ppu_vram := ppu_vram t\<rparr>)"
  unfolding ppu_regs_blob_def
  by (rule copies_eq, (rule copies_rules | (auto simp: ppu_wf_def list_all_iff restore_ppu_def)[1])+)

lemma ppu_mem_copies: "copies ppu_mem_blob ppu_wf (\<lambda>s t. t\<lparr>ppu_cgram := ppu_cgram s, ppu_oam := ppu_oam s,
    ppu_highOam := first_cells 0x20 (ppu_highOam s) (ppu_highOam t), ppu_vram := first_cells 0x8000 (ppu_vram s) (ppu_vram t)\<rparr>)"
  unfolding ppu_mem_blob_def
  by (rule copies_eq, (rule copies_struct_Cons copies_struct_Nil copies_first_cells [where n = "0x20"]
    copies_first_cells [where n = "0x8000"] copied_within copied_full_cells copied_always | simp)+)

lemma local_blob_copies: "copies (local_blob bs) ok (\<lambda>_ t. t)"
  by (simp add: copies_def local_blob_def)

lemma cart_blob_copies:
  "copies (cart_blob n) (\<lambda>c. length (cart_ram c) = n) (\<lambda>s t. t\<lparr>cart_ram := cart_ram s\<rparr>)"
  unfolding cart_blob_def
  by (rule copies_eq, (rule copies_rules | (auto simp: list_all_iff)[1])+)

lemma snes_blob_copies: "copies snes_blob (\<lambda>_. True) (\<lambda>s t. t\<lparr>h_apuCatchup := h_apuCatchup s, h_snes := restore_snes (h_snes s) (h_snes t)
    \<lparr>sn_apu := sn_apu (h_snes t), sn_dma := sn_dma (h_snes t), sn_ppu := sn_ppu (h_snes t), sn_cart := sn_cart (h_snes t),
     sn_ram := sn_ram (h_snes t), sn_ramAdr := sn_ramAdr (h_snes t)\<rparr>\<rparr>)"
  unfolding snes_blob_def
  by (rule copies_eq, (rule copies_rules | (auto simp: restore_snes_def)[1])+)

text \<open>The sizes on disk; those of the picture processor are the ones its assertions demand.\<close>

lemma struct_size [simp]: "f_size (struct []) = 0" "f_size (struct (f # fs)) = f_size f + f_size (struct fs)"
  by (simp_all add: struct_def then_field_def gap_def)

lemma field_sizes [simp]:
  "f_size (gap n) = n" "f_size (within get upd f) = f_size f" "f_size (wordf :: 'a::len word field) = LENGTH('a) div 8"
  "f_size boolf = 1" "f_size int8f = 1" "f_size int16f = 2" "f_size (array n f) = n * f_size f" "f_size (cells n f) = n * f_size f"
  "f_size (local_blob bs) = length bs"
  by (simp_all add: gap_def within_def wordf_def boolf_def int8f_def int16f_def array_def cells_def local_blob_def)

lemma blob_sizes [simp]:
  "f_size cpu_blob = 24" "f_size spc_blob = 15" "f_size apu_blob = 0x10028" "f_size dsp_blob = 33664" "f_size dma_blob = 216"
  "f_size ppu_regs_blob = 0x40" "f_size ppu_mem_blob = 0x10420" "length ppu_version = 8" "f_size (cart_blob n) = n" "f_size snes_blob = 40"
  by (simp_all add: cpu_blob_def spc_blob_def apu_blob_def timer_field_def dsp_blob_def dsp_channel_field_def DSP_SAMPLE_RING_def
      dma_blob_def dma_channel_field_def ppu_regs_blob_def ppu_mem_blob_def ppu_version_def cart_blob_def snes_blob_def)

section \<open>The transfer read back\<close>

interpretation apu_transfer: saveload apu_saveload "0x10028 + 33664 + 15"
  "\<lambda>spc. (f_image apu_blob (spc_apu spc) @ f_image dsp_blob (apu_dsp (spc_apu spc))) @ f_image spc_blob spc"
  "\<lambda>spc. apu_wf (spc_apu spc)" restore_apu
proof -
  let ?wf = "\<lambda>spc. apu_wf (spc_apu spc)"
  have a: "saveload (zoom spc_apu spc_apu_update (file_sli_func apu_blob)) 0x10028 (\<lambda>s. f_image apu_blob (spc_apu s))
      ?wf (\<lambda>s t. t\<lparr>spc_apu := (spc_apu s)\<lparr>apu_dsp := apu_dsp (spc_apu t), apu_portQueue := apu_portQueue (spc_apu t),
     apu_portQHead := apu_portQHead (spc_apu t), apu_portQTail := apu_portQTail (spc_apu t), apu_produced := apu_produced (spc_apu t)\<rparr>\<rparr>)"
    by (rule saveload_part [OF saveload_blob [OF apu_blob_copies, of _ apu_wf]]) simp_all
  have d: "saveload (zoom (\<lambda>spc. apu_dsp (spc_apu spc)) (\<lambda>g. spc_apu_update (apu_dsp_update g)) dsp_saveload) 33664
      (\<lambda>s. f_image dsp_blob (apu_dsp (spc_apu s))) ?wf (\<lambda>s t. t\<lparr>spc_apu := (spc_apu t)\<lparr>apu_dsp := apu_dsp (spc_apu s)\<rparr>\<rparr>)"
    unfolding dsp_saveload_def
    by (rule saveload_part [OF saveload_blob [OF dsp_blob_copied, of _ dsp_wf]]) (simp_all add: apu_wf_def)
  have p: "saveload spc_saveload 15 (f_image spc_blob) ?wf (\<lambda>s t. s\<lparr>spc_cyclesUsed := spc_cyclesUsed t, spc_apu := spc_apu t\<rparr>)"
    unfolding spc_saveload_def by (rule saveload_blob [OF spc_blob_copies]) simp_all
  show "saveload apu_saveload (0x10028 + 33664 + 15)
      (\<lambda>spc. (f_image apu_blob (spc_apu spc) @ f_image dsp_blob (apu_dsp (spc_apu spc))) @ f_image spc_blob spc) ?wf restore_apu"
    by (rule saveload_then [OF saveload_comp [OF a d] p]) (simp_all add: apu_saveload_def restore_apu_def)
qed

interpretation ppu_transfer: saveload ppu_saveload "8 + 0x40 + 0x10420"
  "\<lambda>ppu. (ppu_version @ f_image ppu_regs_blob ppu) @ f_image ppu_mem_blob ppu" ppu_wf restore_ppu
proof -
  have v: "saveload (file_sli_func (local_blob ppu_version)) 8 (\<lambda>_. ppu_version) ppu_wf (\<lambda>_ t. t)"
    using saveload_func [OF local_blob_copies [of ppu_version]] by (simp add: local_blob_def)
  note r = saveload_blob [OF ppu_regs_copies, of "0x40" ppu_wf]
  note m = saveload_blob [OF ppu_mem_copies, of "0x10420" ppu_wf]
  show "saveload ppu_saveload (8 + 0x40 + 0x10420) (\<lambda>ppu. (ppu_version @ f_image ppu_regs_blob ppu) @ f_image ppu_mem_blob ppu) ppu_wf restore_ppu"
    by (rule saveload_then [OF saveload_comp [OF v r] m]) (simp_all add: ppu_saveload_def restore_ppu_def)
qed

text \<open>The transfer for a cartridge with \<open>n\<close> bytes of RAM, before the flag is cleared.\<close>

definition snes_transfers :: "nat \<Rightarrow> host transfer" where
  "snes_transfers n st =
     (let st = zoom h_cpu h_cpu_update cpu_saveload st;
          st = zoom_snes sn_apu sn_apu_update apu_saveload st;
          st = zoom_snes sn_dma sn_dma_update dma_saveload st;
          st = zoom_snes sn_ppu sn_ppu_update ppu_saveload st;
          st = zoom_snes sn_cart sn_cart_update (file_sli_func (cart_blob n)) st;
          st = file_sli_func snes_blob st;
          st = file_sli_func (of_snes sn_ram sn_ram_update (cells 0x20000 wordf)) st
      in file_sli_func (of_snes sn_ramAdr sn_ramAdr_update wordf) st)"

definition snapshot_size :: "nat \<Rightarrow> nat" where
  "snapshot_size n = 24 + (0x10028 + 33664 + 15) + 216 + (8 + 0x40 + 0x10420) + n + 40 + 0x20000 + 4"

definition host_image :: "host \<Rightarrow> u8 list" where
  "host_image h =
     (let s = h_snes h; spc = sn_apu s
      in ((((((f_image cpu_blob (h_cpu h)
          @ ((f_image apu_blob (spc_apu spc) @ f_image dsp_blob (apu_dsp (spc_apu spc))) @ f_image spc_blob spc))
          @ f_image dma_blob (sn_dma s))
          @ ((ppu_version @ f_image ppu_regs_blob (sn_ppu s)) @ f_image ppu_mem_blob (sn_ppu s)))
          @ f_image (cart_blob (length (cart_ram (sn_cart s)))) (sn_cart s))
          @ f_image snes_blob h)
          @ f_image (of_snes sn_ram sn_ram_update (cells 0x20000 wordf)) h)
          @ f_image (of_snes sn_ramAdr sn_ramAdr_update wordf) h)"

definition host_ok :: "nat \<Rightarrow> host \<Rightarrow> bool" where
  "host_ok n h \<longleftrightarrow> snes_wf (h_snes h) \<and> unat (cart_ramSize (sn_cart (h_snes h))) = n"

lemma host_ok_parts:
  assumes "host_ok n h"
  shows "apu_wf (spc_apu (sn_apu (h_snes h)))" "dma_shape (sn_dma (h_snes h))" "ppu_wf (sn_ppu (h_snes h))"
    "length (cart_ram (sn_cart (h_snes h))) = n"
  using assms apu_reach_wf by (auto simp: host_ok_def snes_wf_def cart_wf_def)

lemma cart_image: "f_image (cart_blob n) = f_image (cart_blob k)"
  by (simp add: cart_blob_def within_def array_def)

lemma component_transfers:
  "saveload (zoom h_cpu h_cpu_update cpu_saveload) 24 (\<lambda>h. f_image cpu_blob (h_cpu h)) (host_ok n) (\<lambda>s t. t\<lparr>h_cpu := h_cpu s\<rparr>)"
  "saveload (zoom_snes sn_apu sn_apu_update apu_saveload) (0x10028 + 33664 + 15)
    (\<lambda>h. (f_image apu_blob (spc_apu (sn_apu (h_snes h))) @ f_image dsp_blob (apu_dsp (spc_apu (sn_apu (h_snes h)))))
      @ f_image spc_blob (sn_apu (h_snes h))) (host_ok n)
    (\<lambda>s t. t\<lparr>h_snes := (h_snes t)\<lparr>sn_apu := restore_apu (sn_apu (h_snes s)) (sn_apu (h_snes t))\<rparr>\<rparr>)"
  "saveload (zoom_snes sn_dma sn_dma_update dma_saveload) 216 (\<lambda>h. f_image dma_blob (sn_dma (h_snes h))) (host_ok n)
    (\<lambda>s t. t\<lparr>h_snes := (h_snes t)\<lparr>sn_dma := sn_dma (h_snes s)\<rparr>\<rparr>)"
  "saveload (zoom_snes sn_ppu sn_ppu_update ppu_saveload) (8 + 0x40 + 0x10420)
    (\<lambda>h. (ppu_version @ f_image ppu_regs_blob (sn_ppu (h_snes h))) @ f_image ppu_mem_blob (sn_ppu (h_snes h))) (host_ok n)
    (\<lambda>s t. t\<lparr>h_snes := (h_snes t)\<lparr>sn_ppu := restore_ppu (sn_ppu (h_snes s)) (sn_ppu (h_snes t))\<rparr>\<rparr>)"
  "saveload (zoom_snes sn_cart sn_cart_update (file_sli_func (cart_blob n))) n (\<lambda>h. f_image (cart_blob n) (sn_cart (h_snes h))) (host_ok n)
    (\<lambda>s t. t\<lparr>h_snes := (h_snes t)\<lparr>sn_cart := (sn_cart (h_snes t))\<lparr>cart_ram := cart_ram (sn_cart (h_snes s))\<rparr>\<rparr>\<rparr>)"
  unfolding cpu_saveload_def dma_saveload_def
  by (rule saveload_part [OF saveload_blob [OF cpu_blob_copies]] saveload_part [OF apu_transfer.saveload_axioms]
      saveload_part [OF saveload_blob [OF dma_blob_copied]] saveload_part [OF ppu_transfer.saveload_axioms]
      saveload_part [OF saveload_blob [OF cart_blob_copies]]; assumption?; (simp add: host_ok_parts)?)+

lemma host_transfers:
  "saveload (file_sli_func snes_blob) 40 (f_image snes_blob) (host_ok n)
    (\<lambda>s t. t\<lparr>h_apuCatchup := h_apuCatchup s, h_snes := restore_snes (h_snes s) (h_snes t)
      \<lparr>sn_apu := sn_apu (h_snes t), sn_dma := sn_dma (h_snes t), sn_ppu := sn_ppu (h_snes t), sn_cart := sn_cart (h_snes t),
       sn_ram := sn_ram (h_snes t), sn_ramAdr := sn_ramAdr (h_snes t)\<rparr>\<rparr>)"
  "saveload (file_sli_func (of_snes sn_ram sn_ram_update (cells 0x20000 wordf))) 0x20000
    (f_image (of_snes sn_ram sn_ram_update (cells 0x20000 wordf))) (host_ok n)
    (\<lambda>s t. t\<lparr>h_snes := (h_snes t)\<lparr>sn_ram := first_cells 0x20000 (sn_ram (h_snes s)) (sn_ram (h_snes t))\<rparr>\<rparr>)"
  "saveload (file_sli_func (of_snes sn_ramAdr sn_ramAdr_update wordf)) 4 (f_image (of_snes sn_ramAdr sn_ramAdr_update wordf)) (host_ok n)
    (\<lambda>s t. t\<lparr>h_snes := (h_snes t)\<lparr>sn_ramAdr := sn_ramAdr (h_snes s)\<rparr>\<rparr>)"
proof -
  show "saveload (file_sli_func snes_blob) 40 (f_image snes_blob) (host_ok n)
    (\<lambda>s t. t\<lparr>h_apuCatchup := h_apuCatchup s, h_snes := restore_snes (h_snes s) (h_snes t)
      \<lparr>sn_apu := sn_apu (h_snes t), sn_dma := sn_dma (h_snes t), sn_ppu := sn_ppu (h_snes t), sn_cart := sn_cart (h_snes t),
       sn_ram := sn_ram (h_snes t), sn_ramAdr := sn_ramAdr (h_snes t)\<rparr>\<rparr>)"
    by (rule saveload_blob [OF snes_blob_copies]) simp_all
  have "copies (of_snes sn_ram sn_ram_update (cells 0x20000 wordf)) (host_ok n)
      (\<lambda>s t. t\<lparr>h_snes := (h_snes t)\<lparr>sn_ram := first_cells 0x20000 (sn_ram (h_snes s)) (sn_ram (h_snes t))\<rparr>\<rparr>)"
    by (rule copies_eq [OF copies_first_cells [OF copied_always(1)]]) simp_all
  then show "saveload (file_sli_func (of_snes sn_ram sn_ram_update (cells 0x20000 wordf))) 0x20000
    (f_image (of_snes sn_ram sn_ram_update (cells 0x20000 wordf))) (host_ok n)
    (\<lambda>s t. t\<lparr>h_snes := (h_snes t)\<lparr>sn_ram := first_cells 0x20000 (sn_ram (h_snes s)) (sn_ram (h_snes t))\<rparr>\<rparr>)"
    by (rule saveload_blob) simp_all
  have "copies (of_snes sn_ramAdr sn_ramAdr_update wordf) (host_ok n) (\<lambda>s t. t\<lparr>h_snes := (h_snes t)\<lparr>sn_ramAdr := sn_ramAdr (h_snes s)\<rparr>\<rparr>)"
    by (rule copies_eq [OF copied_within [OF copied_always(1)]]) simp_all
  then show "saveload (file_sli_func (of_snes sn_ramAdr sn_ramAdr_update wordf)) 4 (f_image (of_snes sn_ramAdr sn_ramAdr_update wordf)) (host_ok n)
    (\<lambda>s t. t\<lparr>h_snes := (h_snes t)\<lparr>sn_ramAdr := sn_ramAdr (h_snes s)\<rparr>\<rparr>)"
    by (rule saveload_blob) simp_all
qed

interpretation snes_transfer: saveload "snes_transfers n" "snapshot_size n" host_image "host_ok n"
  "\<lambda>s t. h_cpu_update (\<lambda>_. h_cpu s) (restored s t)" for n
  unfolding snapshot_size_def host_image_def Let_def cart_image [of "length _" n]
  by (rule saveload_then [OF saveload_comp [OF saveload_comp [OF saveload_comp [OF saveload_comp [OF saveload_comp [OF saveload_comp
      [OF component_transfers(1,2)] component_transfers(3)] component_transfers(4)] component_transfers(5)] host_transfers(1)] host_transfers(2)]
      host_transfers(3)])
    (simp_all add: restored_def restore_snes_def snes_transfers_def)

lemma zoom_keeps:
  assumes "\<And>f s. k (upd f s) = k s"
  shows "k (snd (zoom get upd m st)) = k (snd st)"
  by (cases st) (simp add: zoom_def assms split: prod.split)

lemma snes_saveload_transfers:
  assumes "unat (cart_ramSize (sn_cart (h_snes (snd st)))) = n"
  shows "snes_saveload st = (case snes_transfers n st of (fs, h) \<Rightarrow> (fs, h_cpu_update (lc_e_update (\<lambda>_. False)) h))"
proof -
  let ?k = "\<lambda>h. cart_ramSize (sn_cart (h_snes h))"
  have "zoom_snes sn_cart sn_cart_update cart_saveload st' = zoom_snes sn_cart sn_cart_update (file_sli_func (cart_blob n)) st'"
    if "unat (?k (snd st')) = n" for st'
    using that by (cases st') (simp add: zoom_def cart_saveload_def)
  moreover have "?k (snd (zoom h_cpu h_cpu_update m st')) = ?k (snd st')" "?k (snd (zoom_snes sn_apu sn_apu_update m2 st')) = ?k (snd st')"
    "?k (snd (zoom_snes sn_dma sn_dma_update m3 st')) = ?k (snd st')" "?k (snd (zoom_snes sn_ppu sn_ppu_update m4 st')) = ?k (snd st')"
    for m m2 m3 m4 st'
    by (rule zoom_keeps; simp)+
  ultimately show ?thesis using assms by (simp add: snes_saveload_def snes_transfers_def Let_def split_beta)
qed

section \<open>Snapshots written and read\<close>

definition clear_e :: "host \<Rightarrow> host" where "clear_e = h_cpu_update (lc_e_update (\<lambda>_. False))"

lemma header_length [simp]: "length snapshot_header = 8"
  by (simp add: snapshot_header_def)

lemma snapshot_size_pos: "snapshot_size n \<noteq> 0"
  by (simp add: snapshot_size_def)

lemma snapshot_length: "host_ok n s \<Longrightarrow> length (snapshot_header @ host_image s) = 8 + snapshot_size n"
  using snes_transfer.image_size by simp

lemma save_snapshot_file:
  assumes "host_ok n s"
  shows "fst (RtlSaveSnapshot buf room s) = take room (snapshot_header @ host_image s)"
    "fst (snd (RtlSaveSnapshot buf room s)) \<longleftrightarrow> room < flushed buf (8 + snapshot_size n)"
proof -
  have n: "unat (cart_ramSize (sn_cart (h_snes s))) = n" using assms by (simp add: host_ok_def)
  show "fst (RtlSaveSnapshot buf room s) = take room (snapshot_header @ host_image s)"
    "fst (snd (RtlSaveSnapshot buf room s)) \<longleftrightarrow> room < flushed buf (8 + snapshot_size n)"
    using n snes_transfer.saved [OF assms, of "fopen_wb buf room snapshot_header"] snapshot_size_pos
    by (simp_all add: RtlSaveSnapshot_def Let_def snes_saveload_transfers split_beta)
qed

lemma save_snapshot:
  assumes "host_ok n s" "8 + snapshot_size n \<le> room"
  shows "RtlSaveSnapshot buf room s = (snapshot_header @ host_image s, False, clear_e s)"
proof -
  have n: "unat (cart_ramSize (sn_cart (h_snes s))) = n" using assms by (simp add: host_ok_def)
  have "flushed buf (8 + snapshot_size n) \<le> room" using assms(2) flushed_le le_trans by blast
  then have "snes_transfers n (fopen_wb buf room snapshot_header, s) = (fopen_wb buf room (snapshot_header @ host_image s), s)"
    using snes_transfer.save [OF assms(1), of "fopen_wb buf room snapshot_header"] by simp
  then show ?thesis
    using n assms(2) snapshot_length [OF assms(1)]
    by (simp add: RtlSaveSnapshot_def Let_def snes_saveload_transfers clear_e_def fclose_def)
qed

lemma load_snapshot:
  assumes "host_ok n s" "unat (cart_ramSize (sn_cart (h_snes t))) = n"
  shows "RtlLoadSnapshot (Some (snapshot_header @ host_image s @ rest)) t = (True, restored s t)"
  using assms snes_transfer.load [OF assms(1)]
  by (simp add: RtlLoadSnapshot_def Let_def snes_saveload_transfers restored_def)

lemma load_snapshot_accepts:
  assumes "unat (cart_ramSize (sn_cart (h_snes t))) = n"
  shows "fst (RtlLoadSnapshot (Some f) t) \<longleftrightarrow> 8 + snapshot_size n \<le> length f \<and> take 8 f = snapshot_header"
proof -
  have "fs_error (fst (snes_transfers n (fopen_rb (drop 8 f), t)))
    \<longleftrightarrow> length f - 8 < snapshot_size n"
    using snes_transfer.accepts [of "fopen_rb (drop 8 f)"] by simp
  then show ?thesis
    using assms by (auto simp: RtlLoadSnapshot_def Let_def snes_saveload_transfers split: prod.splits)
qed

text \<open>
  C28. What becomes of a snapshot on a full disk, and which files are accepted. The file is the snapshot as
  far as it fits. An error is printed exactly when the disk is full before the last full buffer of the stream
  has left; a snapshot whose end was still in the buffer is cut without a message, since the program drops
  what \<open>fclose\<close> returns. Cut with a message or without, the file is refused when it is loaded. A file is
  accepted exactly when it begins with the magic number and the version and holds at least as many bytes as
  a snapshot of a cartridge with this much RAM; no file or another header leaves the system unchanged.
\<close>

theorem snapshot_errors:
  assumes "host_ok n s" "unat (cart_ramSize (sn_cart (h_snes t))) = n"
  shows "(case RtlSaveSnapshot buf room s of (bytes, error, _) \<Rightarrow>
      bytes = take room (snapshot_header @ host_image s)
      \<and> (error \<longleftrightarrow> room < (8 + snapshot_size n) div buf * buf)
      \<and> (fst (RtlLoadSnapshot (Some bytes) t) \<longleftrightarrow> 8 + snapshot_size n \<le> room))
    \<and> (fst (RtlLoadSnapshot (Some f) t) \<longleftrightarrow> 8 + snapshot_size n \<le> length f \<and> take 8 f = snapshot_header)
    \<and> (take 8 f \<noteq> snapshot_header \<longrightarrow> RtlLoadSnapshot (Some f) t = (False, t))
    \<and> RtlLoadSnapshot None t = (False, t)"
proof (intro conjI)
  obtain bytes error h where save: "RtlSaveSnapshot buf room s = (bytes, error, h)" by (metis prod_cases3)
  then have bytes: "bytes = take room (snapshot_header @ host_image s)" "error \<longleftrightarrow> room < (8 + snapshot_size n) div buf * buf"
    using save_snapshot_file [OF assms(1), of buf room] by (simp_all add: flushed_def)
  have len: "length bytes = min room (8 + snapshot_size n)" unfolding bytes(1) length_take snapshot_length [OF assms(1)] by (rule min.commute)
  have "8 + snapshot_size n \<le> length bytes \<and> take 8 bytes = snapshot_header \<longleftrightarrow> 8 + snapshot_size n \<le> room"
  proof
    assume "8 + snapshot_size n \<le> room"
    then show "8 + snapshot_size n \<le> length bytes \<and> take 8 bytes = snapshot_header" using len by (simp add: bytes(1) min_def)
  qed (simp add: len)
  then have "fst (RtlLoadSnapshot (Some bytes) t) \<longleftrightarrow> 8 + snapshot_size n \<le> room"
    using load_snapshot_accepts [OF assms(2)] by simp
  then show "case RtlSaveSnapshot buf room s of (bytes, error, _) \<Rightarrow>
      bytes = take room (snapshot_header @ host_image s)
      \<and> (error \<longleftrightarrow> room < (8 + snapshot_size n) div buf * buf)
      \<and> (fst (RtlLoadSnapshot (Some bytes) t) \<longleftrightarrow> 8 + snapshot_size n \<le> room)"
    using bytes by (simp add: save)
  show "take 8 f \<noteq> snapshot_header \<longrightarrow> RtlLoadSnapshot (Some f) t = (False, t)" "RtlLoadSnapshot None t = (False, t)"
    by (simp_all add: RtlLoadSnapshot_def)
qed (rule load_snapshot_accepts [OF assms(2)])

definition idle_host :: host where
  "idle_host = \<lparr>h_snes = snes_reset True idle_snes, h_cpu = cpu_reset, h_apuCatchup = 0\<rparr>"

lemma idle_host_ok: "host_ok (unat (cart_ramSize (sn_cart (h_snes idle_host)))) idle_host"
  using idle_snes_wf by (simp add: host_ok_def idle_host_def)

text \<open>A snapshot cut by one byte, with a buffer of 4096 bytes: no message, and the file is refused.\<close>

theorem snapshot_errors_witness:
  "case RtlSaveSnapshot 4096 (7 + snapshot_size 4) idle_host of (bytes, error, _) \<Rightarrow> \<not> error \<and> \<not> fst (RtlLoadSnapshot (Some bytes) idle_host)"
proof -
  have n: "unat (cart_ramSize (sn_cart (h_snes idle_host))) = 4"
    by (simp add: idle_host_def snes_reset_def idle_snes_def cart_load_def)
  have "\<not> 7 + snapshot_size 4 < (8 + snapshot_size 4) div 4096 * 4096" "\<not> 8 + snapshot_size 4 \<le> 7 + snapshot_size 4"
    by (simp_all add: snapshot_size_def)
  then show ?thesis
    using snapshot_errors [OF idle_host_ok refl, where buf = 4096 and room = "7 + snapshot_size 4" and f = "[]"] unfolding n by (auto split: prod.splits)
qed

text \<open>A rejected file is not undone: what it holds of the legacy processor has been taken over.\<close>

lemma other_fields_keep_cpu:
  "(\<And>bs h. h_cpu (f_load f bs h) = h_cpu h) \<Longrightarrow> h_cpu (snd (file_sli_func f st)) = h_cpu (snd st)"
  "h_cpu (snd (zoom_snes get upd m st)) = h_cpu (snd st)"
  by (cases st, simp add: file_sli_func_def Let_def) (rule zoom_keeps, simp)

lemma later_transfers_keep_cpu: "h_cpu (snd (snes_transfers n st)) = h_cpu (snd (zoom h_cpu h_cpu_update cpu_saveload st))"
proof -
  have "h_cpu (snd (file_sli_func snes_blob st')) = h_cpu (snd st')" for st'
    by (rule other_fields_keep_cpu) (simp add: snes_blob_def struct_def then_field_def within_def gap_def)
  then show ?thesis unfolding snes_transfers_def Let_def by (simp add: other_fields_keep_cpu within_def)
qed

lemma rejected_not_undone:
  assumes "take 8 f = snapshot_header" "drop 8 f = f_image cpu_blob c"
  shows "fst (RtlLoadSnapshot (Some f) t) = False" "h_cpu (snd (RtlLoadSnapshot (Some f) t)) = c\<lparr>lc_e := False\<rparr>"
proof -
  define n where "n = unat (cart_ramSize (sn_cart (h_snes t)))"
  have len: "length (f_image cpu_blob c) = 24" using copiesD(1) [OF cpu_blob_copies, of c] by simp
  then have f: "length f = 32" using assms length_drop [of 8 f] by simp
  then show "fst (RtlLoadSnapshot (Some f) t) = False"
    using load_snapshot_accepts [OF n_def [symmetric], of f] by (simp add: snapshot_size_def)
  have "snd (zoom h_cpu h_cpu_update cpu_saveload (fopen_rb (drop 8 f), t))
      = t\<lparr>h_cpu := c\<rparr>"
    using assms(2) len copiesD(2) [OF cpu_blob_copies, of c] by (simp add: zoom_def cpu_saveload_def file_sli_func_def)
  then show "h_cpu (snd (RtlLoadSnapshot (Some f) t)) = c\<lparr>lc_e := False\<rparr>"
    using f assms(1) n_def later_transfers_keep_cpu [of n]
    by (simp add: RtlLoadSnapshot_def snes_saveload_transfers split_beta)
qed

end
