(* ===== verification/Save_Files.thy ===== *)
theory Save_Files
  imports Snapshot
begin

text \<open>
  The files of \<open>common_rtl.c\<close> under \<open>saves/\<close>: save slots (\<open>RtlSaveLoad\<close>) and the battery-backed RAM
  (\<open>RtlMigrateLegacySram\<close>, \<open>RtlReadSram\<close>, \<open>RtlWriteSram\<close>). The file system is a map from names to contents;
  an argument \<open>disk\<close> says whether a file can be opened for writing and how many bytes it takes, \<open>buf\<close> is the
  size of a stream's buffer.
\<close>

section \<open>The file system\<close>

type_synonym files = "string \<Rightarrow> u8 list option"

type_synonym disk = "string \<Rightarrow> nat option"

text \<open>The decimal digits of a slot number, \<open>%d\<close>.\<close>

fun decimal :: "nat \<Rightarrow> string" where
  "decimal n = (if n < 10 then [char_of (48 + n)] else decimal (n div 10) @ [char_of (48 + n mod 10)])"

declare decimal.simps [simp del]

section \<open>Save slots\<close>

record game_info =
  gi_title :: string
  gi_save_name_prefix :: "string option"

text \<open>The name is printed into 128 bytes, its end included, unchecked; a longer one is \<open>None\<close>.\<close>

definition slot_name :: "game_info \<Rightarrow> nat \<Rightarrow> string option" where
  "slot_name gi slot =
     (let name = (case gi_save_name_prefix gi of
            Some prefix \<Rightarrow> ''saves/'' @ prefix @ decimal slot @ ''.sav''
          | None \<Rightarrow> ''saves/'' @ gi_title gi @ ''_save'' @ decimal slot @ ''.sav'')
      in if length name < 128 then Some name else None)"

text \<open>\<open>kSaveLoad_Save\<close>; every other command loads.\<close>

definition kSaveLoad_Save :: nat where "kSaveLoad_Save = 1"

definition RtlSaveLoad :: "game_info \<Rightarrow> nat \<Rightarrow> disk \<Rightarrow> nat \<Rightarrow> nat \<Rightarrow> files \<times> host \<Rightarrow> (files \<times> host) option" where
  "RtlSaveLoad gi buf disk cmd slot = (\<lambda>(files, h).
     case slot_name gi slot of None \<Rightarrow> None
     | Some name \<Rightarrow> Some (
         if cmd = kSaveLoad_Save then
           (case disk name of None \<Rightarrow> (files, h)
            | Some room \<Rightarrow> (case RtlSaveSnapshot buf room h of (bytes, _, h) \<Rightarrow> (files(name \<mapsto> bytes), h)))
         else (files, snd (RtlLoadSnapshot (files name) h))))"

section \<open>Battery RAM\<close>

definition SRAM_FILE :: string where "SRAM_FILE = ''saves/save.srm''"

definition SRAM_BAK_FILE :: string where "SRAM_BAK_FILE = ''saves/save.srm.bak''"

text \<open>\<open>snprintf\<close> into 64 bytes cuts the name.\<close>

definition legacy_sram_file :: "string \<Rightarrow> string" where
  "legacy_sram_file title = take 63 (''saves/'' @ title @ ''.srm'')"

definition RtlMigrateLegacySram :: "disk \<Rightarrow> string option \<Rightarrow> files \<Rightarrow> files" where
  "RtlMigrateLegacySram disk legacy_title files =
     (case legacy_title of None \<Rightarrow> files
      | Some title \<Rightarrow>
          if title = [] then files
          else if files SRAM_FILE \<noteq> None then files
          else let legacy = legacy_sram_file title in
            if legacy = SRAM_FILE then files
            else (case files legacy of None \<Rightarrow> files
                  | Some bytes \<Rightarrow>
                      (case disk SRAM_FILE of None \<Rightarrow> files
                       | Some room \<Rightarrow> files(SRAM_FILE \<mapsto> take room bytes))))"

text \<open>The RAM after reading: a short file leaves its end unchanged.\<close>

definition RtlReadSram :: "disk \<Rightarrow> string option \<Rightarrow> files \<times> u8 list \<Rightarrow> files \<times> u8 list" where
  "RtlReadSram disk title = (\<lambda>(files, sram).
     let files = RtlMigrateLegacySram disk title files
     in (files, case files SRAM_FILE of None \<Rightarrow> sram
                | Some bytes \<Rightarrow> take (length sram) bytes @ drop (length bytes) sram))"

text \<open>\<open>rename\<close> of POSIX: the old backup is replaced; without a save nothing happens.\<close>

definition rename_file :: "string \<Rightarrow> string \<Rightarrow> files \<Rightarrow> files" where
  "rename_file old new files = (case files old of None \<Rightarrow> files | Some bytes \<Rightarrow> files(old := None, new \<mapsto> bytes))"

definition RtlWriteSram :: "disk \<Rightarrow> u8 list \<Rightarrow> files \<Rightarrow> files" where
  "RtlWriteSram disk sram files =
     (let files = rename_file SRAM_FILE SRAM_BAK_FILE files
      in case disk SRAM_FILE of None \<Rightarrow> files | Some room \<Rightarrow> files(SRAM_FILE \<mapsto> take room sram))"

section \<open>Slot names\<close>

lemma char_of_digit: "a < 10 \<Longrightarrow> b < 10 \<Longrightarrow> char_of (48 + a) = char_of (48 + b) \<longleftrightarrow> a = b" for a b :: nat
  by (simp add: char_of_eq_iff take_bit_eq_mod)

lemma decimal_inj: "decimal m = decimal n \<Longrightarrow> m = n"
proof (induction m arbitrary: n rule: decimal.induct)
  case (1 m)
  have nonempty: "decimal k \<noteq> []" for k by (subst decimal.simps) simp
  have eq: "(if m < 10 then [char_of (48 + m)] else decimal (m div 10) @ [char_of (48 + m mod 10)])
      = (if n < 10 then [char_of (48 + n)] else decimal (n div 10) @ [char_of (48 + n mod 10)])"
    using "1.prems" by (subst (asm) (1 2) decimal.simps)
  show ?case
  proof (cases "m < 10")
    case True
    then show ?thesis using eq char_of_digit [of m n] nonempty [of "n div 10"] by (cases "decimal (n div 10)") (auto split: if_splits)
  next
    case False
    then have "\<not> n < 10" "decimal (m div 10) = decimal (n div 10)" "m mod 10 = n mod 10"
      using eq char_of_digit [of "m mod 10" "n mod 10"] nonempty by (auto split: if_splits)
    then show ?thesis using "1.IH" [OF False] by (metis div_mult_mod_eq)
  qed
qed

lemma slot_name_inj: "slot_name gi a = Some name \<Longrightarrow> slot_name gi b = Some name \<Longrightarrow> a = b"
  by (auto simp: slot_name_def Let_def split: option.splits if_splits dest!: decimal_inj)

text \<open>
  C27. A snapshot saved to one slot and loaded later restores the saved system, whatever was saved to
  another slot in between: the names of two slots differ, and the state read is the state written in
  every field a snapshot has, with the pending port writes and the access ports of the picture processor
  left as they are in the system that loads.
\<close>

theorem save_slots:
  assumes "host_ok n s" "unat (cart_ramSize (sn_cart (h_snes t))) = n" "a \<noteq> b"
    "slot_name gi a = Some name" "slot_name gi b = Some name'" "disk name = Some room" "8 + snapshot_size n \<le> room"
  shows "\<exists>files' s'. RtlSaveLoad gi buf disk kSaveLoad_Save a (files, s) = Some (files', s')
    \<and> (\<forall>u. \<exists>files'' u'. RtlSaveLoad gi buf disk kSaveLoad_Save b (files', u) = Some (files'', u')
         \<and> RtlSaveLoad gi buf disk 2 a (files'', t) = Some (files'', restored s t))"
proof -
  have ne: "name \<noteq> name'" using assms(3-5) slot_name_inj by auto
  have "snd (RtlLoadSnapshot (Some (snapshot_header @ host_image s)) t) = restored s t"
    using load_snapshot [OF assms(1,2), of "[]"] by simp
  then show ?thesis
    using assms(4-6) ne by (auto simp: RtlSaveLoad_def save_snapshot [OF assms(1,7)] kSaveLoad_Save_def split: option.split prod.split)
qed

theorem save_slots_witness:
  "\<exists>files' s'. RtlSaveLoad \<lparr>gi_title = ''smw'', gi_save_name_prefix = None\<rparr> 4096 (\<lambda>_. Some 1000000) 1 3 (\<lambda>_. None, idle_host) = Some (files', s')
    \<and> (\<forall>u. \<exists>files'' u'. RtlSaveLoad \<lparr>gi_title = ''smw'', gi_save_name_prefix = None\<rparr> 4096 (\<lambda>_. Some 1000000) 1 12 (files', u) = Some (files'', u')
         \<and> RtlSaveLoad \<lparr>gi_title = ''smw'', gi_save_name_prefix = None\<rparr> 4096 (\<lambda>_. Some 1000000) 2 3 (files'', idle_host)
           = Some (files'', restored idle_host idle_host))"
proof -
  let ?gi = "\<lparr>gi_title = ''smw'', gi_save_name_prefix = None\<rparr>"
  have "\<exists>name. slot_name ?gi 3 = Some name" "\<exists>name. slot_name ?gi 12 = Some name"
    by (simp_all add: slot_name_def Let_def decimal.simps)
  then obtain a b where "slot_name ?gi 3 = Some a" "slot_name ?gi 12 = Some b" by blast
  moreover have "8 + snapshot_size (unat (cart_ramSize (sn_cart (h_snes idle_host)))) \<le> 1000000"
    by (simp add: idle_host_def snes_reset_def idle_snes_def cart_load_def snapshot_size_def)
  ultimately show ?thesis
    using save_slots [OF idle_host_ok refl, of 3 12 ?gi a b "\<lambda>_. Some 1000000" 1000000 4096 "\<lambda>_. None"]
    by (simp add: kSaveLoad_Save_def)
qed

section \<open>Battery files\<close>

lemma sram_names: "SRAM_FILE \<noteq> SRAM_BAK_FILE"
  by (simp add: SRAM_FILE_def SRAM_BAK_FILE_def)

text \<open>
  C29. Battery RAM written to a disk that takes it is read back at the next start, whatever the title of
  the game and its legacy file; the save before it is kept as the backup, and no other file changes.
\<close>

theorem sram_round_trip:
  assumes "disk SRAM_FILE = Some room" "length sram \<le> room" "length old = length sram"
  shows "let files' = RtlWriteSram disk sram files in
    RtlReadSram disk' title (files', old) = (files', sram)
    \<and> files' SRAM_BAK_FILE = (if files SRAM_FILE = None then files SRAM_BAK_FILE else files SRAM_FILE)
    \<and> (\<forall>name. name \<noteq> SRAM_FILE \<longrightarrow> name \<noteq> SRAM_BAK_FILE \<longrightarrow> files' name = files name)"
proof -
  define files' where "files' = RtlWriteSram disk sram files"
  have now: "files' SRAM_FILE = Some sram" using assms(1,2) by (simp add: files'_def RtlWriteSram_def)
  then have "RtlMigrateLegacySram disk' title files' = files'" by (simp add: RtlMigrateLegacySram_def split: option.split)
  then have "RtlReadSram disk' title (files', old) = (files', sram)" using now assms(3) by (simp add: RtlReadSram_def)
  moreover have "files' SRAM_BAK_FILE = (if files SRAM_FILE = None then files SRAM_BAK_FILE else files SRAM_FILE)"
    "\<forall>name. name \<noteq> SRAM_FILE \<longrightarrow> name \<noteq> SRAM_BAK_FILE \<longrightarrow> files' name = files name"
    using assms(1) sram_names by (auto simp: files'_def RtlWriteSram_def rename_file_def split: option.split)
  ultimately show ?thesis unfolding files'_def Let_def by blast
qed

theorem sram_round_trip_witness:
  "RtlReadSram (\<lambda>_. None) (Some ''smw'') (RtlWriteSram (\<lambda>_. Some 8) [1, 2] (\<lambda>name. if name = ''saves/smw.srm'' then Some [9, 9] else None), [0, 0])
    = (RtlWriteSram (\<lambda>_. Some 8) [1, 2] (\<lambda>name. if name = ''saves/smw.srm'' then Some [9, 9] else None), [1, 2])"
  using sram_round_trip [of "\<lambda>_. Some 8" 8 "[1, 2]" "[0, 0]" "\<lambda>name. if name = ''saves/smw.srm'' then Some [9, 9] else None"]
  by (simp add: Let_def)

text \<open>
  When the file cannot be opened for writing, the save has already been renamed; the next start then finds
  no save and carries the legacy file of an older version forward, an older game than the backup holds.
\<close>

lemma failed_write_revives_legacy:
  assumes "disk SRAM_FILE = None" "files SRAM_FILE = Some save" "title \<noteq> []" "legacy_sram_file title \<noteq> SRAM_FILE"
    "legacy_sram_file title \<noteq> SRAM_BAK_FILE" "files (legacy_sram_file title) = Some legacy" "disk' SRAM_FILE = Some room"
    "length legacy \<le> room" "length legacy = length old"
  shows "snd (RtlReadSram disk' (Some title) (RtlWriteSram disk sram files, old)) = legacy"
  using assms sram_names
  by (simp add: RtlReadSram_def RtlMigrateLegacySram_def RtlWriteSram_def rename_file_def Let_def)

end
