(* ===== verification/Patches.thy ===== *)
theory Patches
  imports Hashes Save_Codec "HOL-Library.Monad_Syntax"
begin

text \<open>
  Patches in the BPS format, \<open>ApplyBps\<close> of \<open>util.c\<close> with its variable-length integers and its checksum. A
  pointer into the patch is the list of the bytes behind it; a read or write outside an array, and a read
  of a byte of the result that was not written, are \<open>Overrun\<close>. The format is specified by the actions a
  patch consists of; an encoded patch applies to the result of its actions.
\<close>

section \<open>The decoder\<close>

text \<open>The loop with its variables \<open>data\<close> and \<open>shift\<close>; \<open>None\<close> when the bytes end.\<close>

fun BpsDecodeInt_loop :: "64 word \<Rightarrow> 64 word \<Rightarrow> u8 list \<Rightarrow> (64 word \<times> u8 list) option" where
  "BpsDecodeInt_loop data shift [] = None"
| "BpsDecodeInt_loop data shift (x # src) =
     (let data = data + ucast (x AND 0x7f) * shift
      in if x AND 0x80 \<noteq> 0 then Some (data, src)
         else let shift = push_bit 7 shift in BpsDecodeInt_loop (data + shift) shift src)"

definition BpsDecodeInt :: "u8 list \<Rightarrow> (64 word \<times> u8 list) option" where
  "BpsDecodeInt = BpsDecodeInt_loop 0 1"

definition crc32_bit :: "u32 \<Rightarrow> u32" where
  "crc32_bit crc = drop_bit 1 crc XOR ((crc AND 1) * 0xEDB88320)"

definition bps_crc32 :: "u8 list \<Rightarrow> u32" where
  "bps_crc32 data = fold (\<lambda>b crc. (crc32_bit ^^ 8) (crc XOR ucast b)) data 0xFFFFFFFF XOR 0xFFFFFFFF"

text \<open>A 32-bit integer in memory, little endian.\<close>

definition read32 :: "u8 list \<Rightarrow> nat \<Rightarrow> u32" where
  "read32 bs i = ucast (bs ! i) OR push_bit 8 (ucast (bs ! (i + 1))) OR push_bit 16 (ucast (bs ! (i + 2))) OR push_bit 24 (ucast (bs ! (i + 3)))"

text \<open>The four copy loops. The bytes written so far are a list, whose length is \<open>outputOffset\<close>.\<close>

primrec bps_source_read :: "nat \<Rightarrow> u8 list \<Rightarrow> nat \<Rightarrow> u8 list \<Rightarrow> u8 list option" where
  "bps_source_read 0 src dst_size dst = Some dst"
| "bps_source_read (Suc n) src dst_size dst =
     (if length dst < dst_size \<and> length dst < length src
      then bps_source_read n src dst_size (dst @ [src ! length dst]) else None)"

fun bps_target_read :: "nat \<Rightarrow> u8 list \<Rightarrow> nat \<Rightarrow> u8 list \<Rightarrow> (u8 list \<times> u8 list) option" where
  "bps_target_read 0 bps dst_size dst = Some (bps, dst)"
| "bps_target_read (Suc n) [] dst_size dst = None"
| "bps_target_read (Suc n) (x # bps) dst_size dst =
     (if length dst < dst_size then bps_target_read n bps dst_size (dst @ [x]) else None)"

primrec bps_source_copy :: "nat \<Rightarrow> u8 list \<Rightarrow> nat \<Rightarrow> u32 \<Rightarrow> u8 list \<Rightarrow> (u32 \<times> u8 list) option" where
  "bps_source_copy 0 src dst_size off dst = Some (off, dst)"
| "bps_source_copy (Suc n) src dst_size off dst =
     (if length dst < dst_size \<and> unat off < length src
      then bps_source_copy n src dst_size (off + 1) (dst @ [src ! unat off]) else None)"

primrec bps_target_copy :: "nat \<Rightarrow> nat \<Rightarrow> u32 \<Rightarrow> u8 list \<Rightarrow> (u32 \<times> u8 list) option" where
  "bps_target_copy 0 dst_size off dst = Some (off, dst)"
| "bps_target_copy (Suc n) dst_size off dst =
     (if length dst < dst_size \<and> unat off < length dst
      then bps_target_copy n dst_size (off + 1) (dst @ [dst ! unat off]) else None)"

record bps_state =
  bs_bps :: "u8 list"
  bs_dst :: "u8 list"
  bs_sourceRelativeOffset :: u32
  bs_targetRelativeOffset :: u32

text \<open>The signed offset of a copy.\<close>

definition bps_offset :: "u32 \<Rightarrow> u32" where
  "bps_offset cmd = (if cmd AND 1 \<noteq> 0 then - 1 else 1) * drop_bit 1 cmd"

definition bps_command :: "u8 list \<Rightarrow> nat \<Rightarrow> bps_state \<Rightarrow> bps_state option" where
  "bps_command src dst_size st =
     do { (cmd64, bps) \<leftarrow> BpsDecodeInt (bs_bps st);
          let cmd = (ucast cmd64 :: u32);
          let n = unat (drop_bit 2 cmd + 1);
          if cmd AND 3 = 0 then
            do { dst \<leftarrow> bps_source_read n src dst_size (bs_dst st); Some (st\<lparr>bs_bps := bps, bs_dst := dst\<rparr>) }
          else if cmd AND 3 = 1 then
            do { (bps, dst) \<leftarrow> bps_target_read n bps dst_size (bs_dst st); Some (st\<lparr>bs_bps := bps, bs_dst := dst\<rparr>) }
          else do {
            (off64, bps) \<leftarrow> BpsDecodeInt bps;
            let off = bps_offset (ucast off64);
            if cmd AND 3 = 2 then
              do { (off, dst) \<leftarrow> bps_source_copy n src dst_size (bs_sourceRelativeOffset st + off) (bs_dst st);
                   Some (st\<lparr>bs_bps := bps, bs_dst := dst, bs_sourceRelativeOffset := off\<rparr>) }
            else
              do { (off, dst) \<leftarrow> bps_target_copy n dst_size (bs_targetRelativeOffset st + off) (bs_dst st);
                   Some (st\<lparr>bs_bps := bps, bs_dst := dst, bs_targetRelativeOffset := off\<rparr>) } } }"

lemma BpsDecodeInt_shorter: "BpsDecodeInt bs = Some (v, rest) \<Longrightarrow> length rest < length bs"
proof -
  have "BpsDecodeInt_loop d sh bs = Some (v, rest) \<Longrightarrow> length rest < length bs" for d sh
    by (induction bs arbitrary: d sh) (auto simp: Let_def less_SucI split: if_splits)
  then show "BpsDecodeInt bs = Some (v, rest) \<Longrightarrow> ?thesis" by (simp add: BpsDecodeInt_def)
qed

lemma target_read_shorter: "bps_target_read n bps k dst = Some (bps', dst') \<Longrightarrow> length bps' \<le> length bps"
  by (induction n bps k dst rule: bps_target_read.induct) (auto split: if_splits)

lemma bps_command_shorter: "bps_command src k st = Some st' \<Longrightarrow> length (bs_bps st') < length (bs_bps st)"
  by (auto simp: bps_command_def Let_def bind_eq_Some_conv split: if_splits
      dest!: BpsDecodeInt_shorter target_read_shorter)

text \<open>The loop up to the twelve bytes of checksums.\<close>

function bps_run :: "u8 list \<Rightarrow> nat \<Rightarrow> bps_state \<Rightarrow> bps_state option" where
  "bps_run src dst_size st =
     (if length (bs_bps st) > 12
      then (case bps_command src dst_size st of None \<Rightarrow> None | Some st \<Rightarrow> bps_run src dst_size st)
      else Some st)"
  by pat_completeness auto

termination bps_run
  by (relation "measure (\<lambda>(src, k, st). length (bs_bps st))") (auto dest: bps_command_shorter)

declare bps_run.simps [simp del]

datatype bps_outcome = Image "u8 list" | Refused | Overrun

definition of_overrun :: "bps_outcome option \<Rightarrow> bps_outcome" where
  "of_overrun r = (case r of None \<Rightarrow> Overrun | Some r \<Rightarrow> r)"

definition ApplyBps :: "u8 list \<Rightarrow> u8 list \<Rightarrow> bps_outcome" where
  "ApplyBps src bps =
     (let bps_end = length bps - 12 in
      if length bps < 4 then Overrun
      else if take 4 bps \<noteq> [0x42, 0x50, 0x53, 0x31] then Refused
      else if length bps < 12 then Overrun
      else if bps_crc32 src \<noteq> read32 bps bps_end then Refused
      else if bps_crc32 (take (length bps - 4) bps) \<noteq> read32 bps (bps_end + 8) then Refused
      else of_overrun (do {
        (src_size, bps') \<leftarrow> BpsDecodeInt (drop 4 bps);
        (dst_size, bps') \<leftarrow> BpsDecodeInt bps';
        (meta_size, bps') \<leftarrow> BpsDecodeInt bps';
        let dst_size = unat (ucast dst_size :: u32);
        if unat (ucast src_size :: u32) \<noteq> length src then Some Refused
        else do {
          st \<leftarrow> bps_run src dst_size \<lparr>bs_bps = bps', bs_dst = [], bs_sourceRelativeOffset = 0, bs_targetRelativeOffset = 0\<rparr>;
          Some (if dst_size \<noteq> length (bs_dst st) then Refused
                else if bps_crc32 (bs_dst st) \<noteq> read32 bps (bps_end + 4) then Refused
                else Image (bs_dst st)) } }))"

section \<open>The checksum\<close>

lemma crc32_bit_step: "crc32_bit c = crc_step c"
proof -
  have "c AND 1 = of_bool (bit c 0)" by (simp only: and_one_eq mod_2_eq_odd bit_0)
  then show ?thesis by (simp add: crc32_bit_def crc_step_bit xor.commute)
qed

text \<open>The bit-by-bit checksum of \<open>util.c\<close> is the one \<open>crc32.c\<close> looks up in its table.\<close>

lemma bps_crc32_reference: "bps_crc32 data = crc_reference data"
proof -
  have "(\<lambda>b crc. (crc32_bit ^^ 8) (crc XOR ucast b)) = crc_feed"
    by (simp add: fun_eq_iff crc_feed_def crc32_bit_step [abs_def])
  moreover have "0xFFFFFFFF = (- 1 :: u32)" "NOT 0 = (- 1 :: u32)" by simp_all
  ultimately show ?thesis unfolding bps_crc32_def crc_reference_def by (simp only:) simp
qed

section \<open>The format\<close>

fun bps_encode :: "nat \<Rightarrow> u8 list" where
  "bps_encode n = (if n < 128 then [of_nat (128 + n)] else of_nat (n mod 128) # bps_encode (n div 128 - 1))"

declare bps_encode.simps [simp del]

text \<open>What a patch does: read the source in place, insert bytes, copy from the source or from the result so
  far, where a copy may read what it writes.\<close>

datatype bps_action = Source_read nat | Target_read "u8 list" | Source_copy nat nat | Target_copy nat nat

primrec copy_within :: "nat \<Rightarrow> nat \<Rightarrow> u8 list \<Rightarrow> u8 list" where
  "copy_within 0 off dst = dst"
| "copy_within (Suc n) off dst = copy_within n (Suc off) (dst @ [dst ! off])"

fun bps_perform :: "u8 list \<Rightarrow> bps_action \<Rightarrow> u8 list \<Rightarrow> u8 list" where
  "bps_perform src (Source_read n) dst = dst @ take n (drop (length dst) src)"
| "bps_perform src (Target_read bs) dst = dst @ bs"
| "bps_perform src (Source_copy n off) dst = dst @ take n (drop off src)"
| "bps_perform src (Target_copy n off) dst = copy_within n off dst"

fun bps_possible :: "u8 list \<Rightarrow> bps_action \<Rightarrow> u8 list \<Rightarrow> bool" where
  "bps_possible src (Source_read n) dst \<longleftrightarrow> 1 \<le> n \<and> n \<le> 2 ^ 30 \<and> length dst + n \<le> length src"
| "bps_possible src (Target_read bs) dst \<longleftrightarrow> 1 \<le> length bs \<and> length bs \<le> 2 ^ 30"
| "bps_possible src (Source_copy n off) dst \<longleftrightarrow> 1 \<le> n \<and> n \<le> 2 ^ 30 \<and> off + n \<le> length src"
| "bps_possible src (Target_copy n off) dst \<longleftrightarrow> 1 \<le> n \<and> n \<le> 2 ^ 30 \<and> off < length dst"

primrec bps_result :: "u8 list \<Rightarrow> bps_action list \<Rightarrow> u8 list \<Rightarrow> u8 list option" where
  "bps_result src [] dst = Some dst"
| "bps_result src (act # acts) dst =
     (if bps_possible src act dst then bps_result src acts (bps_perform src act dst) else None)"

text \<open>The encoding, with the two relative offsets.\<close>

definition bps_delta :: "nat \<Rightarrow> nat \<Rightarrow> u8 list" where
  "bps_delta cur off = bps_encode (if off < cur then 2 * (cur - off) + 1 else 2 * (off - cur))"

fun bps_write :: "bps_action \<Rightarrow> nat \<times> nat \<Rightarrow> u8 list \<times> nat \<times> nat" where
  "bps_write (Source_read n) (s, t) = (bps_encode (4 * (n - 1)), s, t)"
| "bps_write (Target_read bs) (s, t) = (bps_encode (4 * (length bs - 1) + 1) @ bs, s, t)"
| "bps_write (Source_copy n off) (s, t) = (bps_encode (4 * (n - 1) + 2) @ bps_delta s off, off + n, t)"
| "bps_write (Target_copy n off) (s, t) = (bps_encode (4 * (n - 1) + 3) @ bps_delta t off, s, off + n)"

primrec bps_write_all :: "bps_action list \<Rightarrow> nat \<times> nat \<Rightarrow> u8 list" where
  "bps_write_all [] st = []"
| "bps_write_all (act # acts) st = (case bps_write act st of (bs, st) \<Rightarrow> bs @ bps_write_all acts st)"

definition bps_patch :: "u8 list \<Rightarrow> bps_action list \<Rightarrow> u8 list \<Rightarrow> u8 list" where
  "bps_patch src acts target =
     (let body = [0x42, 0x50, 0x53, 0x31] @ bps_encode (length src) @ bps_encode (length target) @ bps_encode 0
        @ bps_write_all acts (0, 0) @ le_bytes 4 (crc_reference src) @ le_bytes 4 (crc_reference target)
      in body @ le_bytes 4 (crc_reference body))"

section \<open>Integers\<close>

lemma byte_7f:
  assumes "n < 128"
  shows "(of_nat n :: u8) AND 0x7f = of_nat n" "(of_nat n :: u8) AND 0x80 = 0"
    "(of_nat (128 + n) :: u8) AND 0x7f = of_nat n" "(of_nat (128 + n) :: u8) AND 0x80 \<noteq> 0"
proof -
  have b: "unat (of_nat m :: u8) = m" if "m < 256" for m using that by (simp add: unat_of_nat)
  have m7: "unat (w AND 0x7f) = unat w mod 128" for w :: u8
  proof -
    have "w AND 0x7f = take_bit 7 w" by (simp add: take_bit_eq_mask mask_eq_exp_minus_1)
    then show ?thesis by (simp add: take_bit_eq_mod unat_mod)
  qed
  have bit7: "w AND 0x80 = 0 \<longleftrightarrow> unat w < 128" for w :: u8
    using and_exp_eq_0_iff_not_bit [of w 7] bit7_unat [of w] by (simp add: not_le)
  show "(of_nat n :: u8) AND 0x7f = of_nat n" "(of_nat (128 + n) :: u8) AND 0x7f = of_nat n"
    using assms b [of n] b [of "128 + n"] by (simp_all only: word_unat_eq_iff m7) (use assms in simp_all)
  show "(of_nat n :: u8) AND 0x80 = 0" "(of_nat (128 + n) :: u8) AND 0x80 \<noteq> 0"
    using assms b [of n] b [of "128 + n"] by (simp_all only: bit7)
qed

lemma decode_encode_loop: "BpsDecodeInt_loop d s (bps_encode n @ rest) = Some (d + s * of_nat n, rest)"
proof (induction n arbitrary: d s rule: bps_encode.induct)
  case (1 n)
  have u: "(ucast (of_nat k :: u8) :: 64 word) = of_nat k" if "k < 256" for k
    using that by (simp add: word_unat_eq_iff unat_of_nat unsigned_ucast_eq take_bit_nat_eq_self)
  show ?case
  proof (cases "n < 128")
    case True
    then show ?thesis using byte_7f [OF True] u [of n] by (subst bps_encode.simps) (simp add: Let_def mult.commute)
  next
    case False
    let ?q = "n div 128 - 1"
    have "of_nat n = (of_nat (n mod 128) + 128 * (of_nat ?q + 1) :: 64 word)"
    proof -
      have "n = n mod 128 + 128 * (?q + 1)" using False by simp
      then show ?thesis by (metis of_nat_1 of_nat_add of_nat_mult of_nat_numeral)
    qed
    moreover have "push_bit 7 s = s * 128" by (simp add: push_bit_eq_mult)
    ultimately show ?thesis
      using False byte_7f [of "n mod 128"] u [of "n mod 128"] "1.IH" [OF False]
      by (subst bps_encode.simps) (simp add: Let_def algebra_simps)
  qed
qed

lemma decode_encode: "BpsDecodeInt (bps_encode n @ rest) = Some (of_nat n, rest)"
  by (simp add: BpsDecodeInt_def decode_encode_loop)

lemma unat_ucast_of_nat: "n < 2 ^ 32 \<Longrightarrow> unat (ucast (of_nat n :: 64 word) :: u32) = n"
  by (simp add: unsigned_ucast_eq unat_of_nat take_bit_eq_mod del: of_nat_add of_nat_mult)

lemma command_parts:
  assumes "m < 2 ^ 30" "j < 4"
  shows "(ucast (of_nat (4 * m + j) :: 64 word) :: u32) AND 3 = of_nat j"
    "unat (drop_bit 2 (ucast (of_nat (4 * m + j) :: 64 word) :: u32) + 1) = Suc m"
proof -
  let ?c = "ucast (of_nat (4 * m + j) :: 64 word) :: u32"
  have u: "unat ?c = 4 * m + j" using assms by (intro unat_ucast_of_nat) simp
  have "?c AND 3 = take_bit 2 ?c" by (simp add: take_bit_eq_mask mask_eq_exp_minus_1)
  then have j: "unat (?c AND 3) = j" using u assms(2) by (simp add: take_bit_eq_mod unat_mod)
  have "of_nat (unat (?c AND 3)) = ?c AND 3" by simp
  then show "?c AND 3 = of_nat j" unfolding j by simp
  have d: "unat (drop_bit 2 ?c) = m" using u assms(2) by (simp add: drop_bit_eq_div unat_div)
  then have "unat (drop_bit 2 ?c) + unat (1 :: u32) < 2 ^ LENGTH(32)" using assms(1) by simp
  then show "unat (drop_bit 2 ?c + 1) = Suc m" using d unat_add_lem [of "drop_bit 2 ?c" 1] by simp
qed

lemma offset_decoded:
  assumes "cur < 2 ^ 31" "off < 2 ^ 31"
  shows "of_nat cur + bps_offset (ucast (of_nat (if off < cur then 2 * (cur - off) + 1 else 2 * (off - cur)) :: 64 word)) = (of_nat off :: u32)"
proof -
  define d where "d = (if off < cur then cur - off else off - cur)"
  define b where "b = (if off < cur then 1 else 0 :: nat)"
  define c where "c = (ucast (of_nat (2 * d + b) :: 64 word) :: u32)"
  have u: "unat c = 2 * d + b" unfolding c_def by (rule unat_ucast_of_nat) (use assms in \<open>auto simp: d_def b_def\<close>)
  have "bit c 0 \<longleftrightarrow> bit (unat c) 0" by (simp add: bit_unsigned_iff)
  then have odd: "c AND 1 \<noteq> 0 \<longleftrightarrow> off < cur" using u by (simp only: and_1_bit) (simp add: b_def bit_0)
  have d: "unat (drop_bit 1 c) = d" using u by (simp add: drop_bit_eq_div unat_div b_def)
  have "drop_bit 1 c = of_nat d" unfolding d [symmetric] by simp
  then have "of_nat cur + bps_offset c = (of_nat off :: u32)"
    unfolding bps_offset_def odd by (auto simp: d_def of_nat_diff)
  moreover have "(if off < cur then 2 * (cur - off) + 1 else 2 * (off - cur)) = 2 * d + b" by (simp add: d_def b_def)
  ultimately show ?thesis by (simp only: c_def)
qed

section \<open>The copy loops\<close>

lemma source_read_done:
  "length dst + n \<le> length src \<Longrightarrow> length dst + n \<le> k \<Longrightarrow>
    bps_source_read n src k dst = Some (dst @ take n (drop (length dst) src))"
proof (induction n arbitrary: dst)
  case (Suc n)
  then have "drop (length dst) src = src ! length dst # drop (Suc (length dst)) src" by (simp add: Cons_nth_drop_Suc)
  then show ?case using Suc by simp
qed simp

lemma target_read_done:
  "length dst + length bs \<le> k \<Longrightarrow> bps_target_read (length bs) (bs @ tail) k dst = Some (tail, dst @ bs)"
  by (induction bs arbitrary: dst) simp_all

lemma source_copy_done:
  assumes "length src < 2 ^ 32"
  shows "off + n \<le> length src \<Longrightarrow> length dst + n \<le> k \<Longrightarrow>
    bps_source_copy n src k (of_nat off) dst = Some (of_nat (off + n), dst @ take n (drop off src))"
proof (induction n arbitrary: off dst)
  case (Suc n)
  then have "unat (of_nat off :: u32) = off" using assms by (simp add: unat_of_nat)
  moreover have "drop off src = src ! off # drop (Suc off) src" using Suc.prems by (simp add: Cons_nth_drop_Suc)
  moreover have "of_nat off + 1 = (of_nat (Suc off) :: u32)" by simp
  ultimately show ?case using Suc by (simp del: of_nat_Suc) simp
qed simp

lemma copy_within_length [simp]: "length (copy_within n off dst) = length dst + n"
  by (induction n arbitrary: off dst) simp_all

lemma target_copy_done:
  assumes "k < 2 ^ 32"
  shows "off < length dst \<Longrightarrow> length dst + n \<le> k \<Longrightarrow>
    bps_target_copy n k (of_nat off) dst = Some (of_nat (off + n), copy_within n off dst)"
proof (induction n arbitrary: off dst)
  case (Suc n)
  then have "unat (of_nat off :: u32) = off" using assms by (simp add: unat_of_nat)
  moreover have "of_nat off + 1 = (of_nat (Suc off) :: u32)" by simp
  ultimately show ?case using Suc by (simp del: of_nat_Suc) simp
qed simp

section \<open>One action\<close>

text \<open>The state between two actions: the relative offsets are the numbers the encoder keeps.\<close>

definition bps_at :: "u8 list \<Rightarrow> u8 list \<Rightarrow> nat \<times> nat \<Rightarrow> bps_state" where
  "bps_at bps dst st = \<lparr>bs_bps = bps, bs_dst = dst, bs_sourceRelativeOffset = of_nat (fst st), bs_targetRelativeOffset = of_nat (snd st)\<rparr>"

lemma decode_command:
  assumes "1 \<le> n" "n \<le> 2 ^ 30" "j < 4"
  shows "\<exists>v. BpsDecodeInt (bps_encode (4 * (n - 1) + j) @ rest) = Some (v, rest) \<and> (ucast v :: u32) AND 3 = of_nat j
    \<and> unat (drop_bit 2 (ucast v :: u32) + 1) = n"
  using command_parts [of "n - 1" j] assms decode_encode [of "4 * (n - 1) + j" rest] by (auto simp del: of_nat_add of_nat_mult)

lemma decode_delta:
  assumes "cur < 2 ^ 31" "off < 2 ^ 31"
  shows "\<exists>v. BpsDecodeInt (bps_delta cur off @ rest) = Some (v, rest) \<and> of_nat cur + bps_offset (ucast v) = of_nat off"
  using offset_decoded [OF assms] decode_encode [of "if off < cur then 2 * (cur - off) + 1 else 2 * (off - cur)" rest]
  unfolding bps_delta_def by blast

lemma action_done:
  assumes "bps_possible src act dst" "length src < 2 ^ 31" "k < 2 ^ 31" "length (bps_perform src act dst) \<le> k"
    "s \<le> length src" "t \<le> k" "bps_write act (s, t) = (bs, s', t')"
  shows "bps_command src k (bps_at (bs @ tail) dst (s, t)) = Some (bps_at tail (bps_perform src act dst) (s', t')) \<and> s' \<le> length src \<and> t' \<le> k"
proof (cases act)
  case (Source_read n)
  then obtain v where "BpsDecodeInt (bs @ tail) = Some (v, tail)" "(ucast v :: u32) AND 3 = 0" "unat (drop_bit 2 (ucast v :: u32) + 1) = n"
    using assms(1,7) decode_command [of n 0 tail] by auto
  moreover have "length dst + n \<le> length src" "length dst + n \<le> k"
    using assms(1,4) Source_read by (auto simp: min_def split: if_splits)
  ultimately show ?thesis using assms Source_read source_read_done [of dst n src k] by (simp add: bps_command_def bps_at_def Let_def)
next
  case (Target_read xs)
  then obtain v where "BpsDecodeInt (bs @ tail) = Some (v, xs @ tail)" "(ucast v :: u32) AND 3 = 1" "unat (drop_bit 2 (ucast v :: u32) + 1) = length xs"
    using assms(1,7) decode_command [of "length xs" 1 "xs @ tail"] by auto
  then show ?thesis using assms Target_read target_read_done [of dst xs k tail] by (simp add: bps_command_def bps_at_def Let_def)
next
  case (Source_copy n off)
  then obtain v where v: "BpsDecodeInt (bs @ tail) = Some (v, bps_delta s off @ tail)" "(ucast v :: u32) AND 3 = 2" "unat (drop_bit 2 (ucast v :: u32) + 1) = n"
    using assms(1,7) decode_command [of n 2 "bps_delta s off @ tail"] by auto
  obtain w where "BpsDecodeInt (bps_delta s off @ tail) = Some (w, tail)" "of_nat s + bps_offset (ucast w) = of_nat off"
    using decode_delta [of s off tail] assms(1,2,5) Source_copy by auto
  moreover have "length dst + n \<le> k" using assms(1,4) Source_copy by (auto simp: min_def split: if_splits)
  ultimately show ?thesis using v assms Source_copy source_copy_done [of src off n dst k] by (simp add: bps_command_def bps_at_def Let_def)
next
  case (Target_copy n off)
  then obtain v where v: "BpsDecodeInt (bs @ tail) = Some (v, bps_delta t off @ tail)" "(ucast v :: u32) AND 3 = 3" "unat (drop_bit 2 (ucast v :: u32) + 1) = n"
    using assms(1,7) decode_command [of n 3 "bps_delta t off @ tail"] by auto
  obtain w where "BpsDecodeInt (bps_delta t off @ tail) = Some (w, tail)" "of_nat t + bps_offset (ucast w) = of_nat off"
    using decode_delta [of t off tail] assms(1,3,4,6) Target_copy by auto
  then show ?thesis using v assms Target_copy target_copy_done [of k off dst n] by (simp add: bps_command_def bps_at_def Let_def)
qed

section \<open>Whole patches\<close>

lemma perform_grows: "bps_possible src act dst \<Longrightarrow> length dst \<le> length (bps_perform src act dst)"
  by (cases act) simp_all

lemma result_grows: "bps_result src acts dst = Some out \<Longrightarrow> length dst \<le> length out"
  by (induction acts arbitrary: dst) (auto split: if_splits dest!: perform_grows intro: order_trans)

lemma encode_nonempty: "bps_encode n \<noteq> []"
  by (subst bps_encode.simps) simp

lemma write_nonempty: "bps_write act st = (bs, st') \<Longrightarrow> bs \<noteq> []"
  by (cases "(act, st)" rule: bps_write.cases) (auto simp: encode_nonempty)

lemma actions_done:
  assumes "length src < 2 ^ 31" "k < 2 ^ 31" "length tail = 12"
  shows "bps_result src acts dst = Some out \<Longrightarrow> length out \<le> k \<Longrightarrow> s \<le> length src \<Longrightarrow> t \<le> k \<Longrightarrow>
    \<exists>st. bps_run src k (bps_at (bps_write_all acts (s, t) @ tail) dst (s, t)) = Some st \<and> bs_dst st = out"
proof (induction acts arbitrary: dst s t)
  case Nil
  then show ?case by (subst bps_run.simps) (simp add: bps_at_def assms(3))
next
  case (Cons act acts)
  then have p: "bps_possible src act dst" and r: "bps_result src acts (bps_perform src act dst) = Some out" by (auto split: if_splits)
  obtain bs s' t' where w: "bps_write act (s, t) = (bs, s', t')" by (metis prod_cases3)
  have "length (bps_perform src act dst) \<le> k" using result_grows [OF r] Cons.prems(2) by simp
  note done1 = action_done [OF p assms(1,2) this Cons.prems(3,4) w, of "bps_write_all acts (s', t') @ tail"]
  have "length ((bs @ bps_write_all acts (s', t')) @ tail) > 12" using write_nonempty [OF w] assms(3) by (cases bs) simp_all
  then show ?case
    using done1 Cons.IH [OF r Cons.prems(2), of s' t'] w by (subst bps_run.simps) (simp add: bps_at_def)
qed

lemma read32_le: "length xs = i \<Longrightarrow> read32 (xs @ le_bytes 4 w @ ys) i = w" for w :: u32
proof -
  assume i: "length xs = i"
  obtain a b c d where le: "le_bytes 4 w = [a, b, c, d]" by (simp add: eval_nat_numeral)
  have "read32 (xs @ le_bytes 4 w @ ys) i = of_le (le_bytes 4 w)"
    using i unfolding read32_def le by (simp add: nth_append push_bit_or or.assoc)
  then show ?thesis by (simp add: of_le_bytes take_bit_word_eq_self)
qed

text \<open>The parts of an encoded patch, at the places where they are read.\<close>

lemma patch_parts:
  fixes src acts target
  defines "p \<equiv> bps_patch src acts target"
  shows "16 \<le> length p" "take 4 p = [0x42, 0x50, 0x53, 0x31]"
    "read32 p (length p - 12) = crc_reference src" "read32 p (length p - 12 + 4) = crc_reference target"
    "read32 p (length p - 12 + 8) = crc_reference (take (length p - 4) p)"
    "\<exists>tail. length tail = 12 \<and> drop 4 p = bps_encode (length src) @ bps_encode (length target) @ bps_encode 0 @ bps_write_all acts (0, 0) @ tail"
proof -
  define pre where "pre = [0x42, 0x50, 0x53, 0x31 :: u8] @ bps_encode (length src) @ bps_encode (length target) @ bps_encode 0 @ bps_write_all acts (0, 0)"
  define s t w where "s = le_bytes 4 (crc_reference src)" and "t = le_bytes 4 (crc_reference target)"
    and "w = le_bytes 4 (crc_reference (pre @ s @ t))"
  have p: "p = pre @ s @ t @ w" by (simp add: p_def bps_patch_def Let_def pre_def s_def t_def w_def)
  have len: "length s = 4" "length t = 4" "length w = 4" "4 \<le> length pre" by (simp_all add: s_def t_def w_def pre_def)
  show "16 \<le> length p" using len by (simp add: p)
  show "take 4 p = [0x42, 0x50, 0x53, 0x31]" by (simp add: p pre_def)
  have at: "length p - 12 = length pre" by (simp add: p len)
  show "read32 p (length p - 12) = crc_reference src" unfolding at unfolding p s_def by (rule read32_le) simp
  show "read32 p (length p - 12 + 4) = crc_reference target"
    unfolding at using read32_le [of "pre @ s" "length pre + 4" "crc_reference target" w] len by (simp add: p t_def)
  have "take (length p - 4) p = pre @ s @ t" using len by (simp add: p)
  then show "read32 p (length p - 12 + 8) = crc_reference (take (length p - 4) p)"
    unfolding at using read32_le [of "pre @ s @ t" "length pre + 8" "crc_reference (pre @ s @ t)" "[]"] len by (simp add: p w_def)
  have "length (s @ t @ w) = 12" "drop 4 p = bps_encode (length src) @ bps_encode (length target) @ bps_encode 0 @ bps_write_all acts (0, 0) @ s @ t @ w"
    using len by (simp_all add: p pre_def)
  then show "\<exists>tail. length tail = 12 \<and> drop 4 p = bps_encode (length src) @ bps_encode (length target) @ bps_encode 0 @ bps_write_all acts (0, 0) @ tail"
    by blast
qed

lemma patch_applies:
  assumes "bps_result src acts [] = Some target" "length src < 2 ^ 31" "length target < 2 ^ 31"
  shows "ApplyBps src (bps_patch src acts target) = Image target"
proof -
  define p where "p = bps_patch src acts target"
  note parts = patch_parts [of src acts target, folded p_def]
  obtain tail where tail: "length tail = 12" "drop 4 p = bps_encode (length src) @ bps_encode (length target) @ bps_encode 0 @ bps_write_all acts (0, 0) @ tail"
    using parts(6) by blast
  obtain st where st: "bps_run src (length target) (bps_at (bps_write_all acts (0, 0) @ tail) [] (0, 0)) = Some st" "bs_dst st = target"
    using actions_done [OF assms(2,3) tail(1) assms(1), of 0 0] by auto
  have sz: "unat (ucast (of_nat n :: 64 word) :: u32) = n" if "n < 2 ^ 31" for n using that by (intro unat_ucast_of_nat) simp
  show ?thesis
    unfolding p_def [symmetric] ApplyBps_def Let_def bps_crc32_reference parts(2-5) tail(2)
    using st sz [OF assms(2)] sz [OF assms(3)] parts(1) by (simp add: decode_encode of_overrun_def bps_at_def)
qed

lemma read32_behind: "read32 (xs @ ys) (length xs) = read32 ys 0"
  by (simp add: read32_def nth_append numeral_2_eq_2)

lemma damaged_refused:
  assumes "ApplyBps src (before @ good @ after @ check) = Image target" "length check = 4"
    "length bad = length good" "length good \<le> 4" "bad \<noteq> good"
  shows "ApplyBps src (before @ bad @ after @ check) = Refused"
proof -
  let ?body = "\<lambda>x. before @ x @ after" and ?patch = "\<lambda>x. before @ x @ after @ check"
  have len: "length (?patch bad) = length (?patch good)" "length (?body bad) = length (?body good)" using assms(3) by simp_all
  have accepted: "12 \<le> length (?patch good)"
      "bps_crc32 (take (length (?patch good) - 4) (?patch good)) = read32 (?patch good) (length (?patch good) - 12 + 8)"
    using assms(1) unfolding ApplyBps_def Let_def by (auto split: if_splits)
  have parts: "take (length (?patch x) - 4) (?patch x) = ?body x" "length (?patch x) - 12 + 8 = length (?body x)"
      "read32 (?patch x) (length (?body x)) = read32 check 0" if "12 \<le> length (?patch x)" for x
    using that assms(2) read32_behind [of "?body x" check] by simp_all
  have "bps_crc32 (?body bad) \<noteq> read32 check 0"
    using accepted parts [OF accepted(1)] crc_reference_bursts [OF assms(3-5), of before after] by (simp add: bps_crc32_reference)
  then have "bps_crc32 (take (length (?patch bad) - 4) (?patch bad)) \<noteq> read32 (?patch bad) (length (?patch bad) - 12 + 8)"
    using parts [of bad] accepted(1) len(1) by simp
  then show ?thesis using accepted(1) len(1) unfolding ApplyBps_def Let_def by simp
qed

text \<open>
  C39. A patch applies: the file that encodes a list of actions, with the sizes and checksums of the format,
  turns the source into the result of the actions, whatever they copy, overlapping copies of the result
  included, and no read or write leaves an array. The same file damaged within any four consecutive bytes
  before its checksum is refused: its checksum is compared before anything is decoded.
\<close>

theorem bps_patch_applies:
  assumes "bps_result src acts [] = Some target" "length src < 2 ^ 31" "length target < 2 ^ 31"
  shows "ApplyBps src (bps_patch src acts target) = Image target
    \<and> (\<forall>before good bad after check. bps_patch src acts target = before @ good @ after @ check \<and> length check = 4
         \<and> length bad = length good \<and> length good \<le> 4 \<and> bad \<noteq> good \<longrightarrow> ApplyBps src (before @ bad @ after @ check) = Refused)"
  using patch_applies [OF assms] damaged_refused by metis

text \<open>A patch whose actions read the source, insert, repeat a byte of the result and copy from the source.\<close>

theorem bps_patch_applies_witness:
  "ApplyBps [1, 2, 3, 4] (bps_patch [1, 2, 3, 4] [Source_read 2, Target_read [7], Target_copy 3 2, Source_copy 2 1] [1, 2, 7, 7, 7, 7, 2, 3])
    = Image [1, 2, 7, 7, 7, 7, 2, 3]"
proof -
  have "bps_result [1, 2, 3, 4] [Source_read 2, Target_read [7], Target_copy 3 2, Source_copy 2 1] [] = Some [1, 2, 7, 7, 7, 7, 2, 3]"
    by (simp add: numeral_3_eq_3)
  from bps_patch_applies [OF this] show ?thesis by simp
qed

end
