(* ===== verification/Spec2Isabelle.thy ===== *)
theory Spec2Isabelle
  imports Interp_Bridge Rom_Load Rtl_Boot Ppu_Properties Hashes Save_Files Patches
begin

text \<open>
  \<^bold>\<open>A verification of the runtime of snesrecomp.\<close> The program is a static recompiler for games of
  the Super Nintendo with a runtime in C (\<open>src/runner/src\<close>). Generated C functions stand for the
  65816 code of the game; the runtime gives them registers, memory and hardware, and interprets what
  was not recompiled. This development models the runtime: the emulated hardware, the interpreter,
  the processor state of recompiled code and the seams between them. Paths below are relative to
  \<open>src/runner/src\<close>.

  \<^bold>\<open>The parts and how they interact.\<close> Recompiled code works on \<open>CpuState\<close>. Its memory accesses go
  to work RAM, ROM and battery RAM directly and to hardware registers through \<open>WriteReg\<close> and
  \<open>ReadReg\<close>, which call the system bus. The bus reaches the picture processor, the audio ports, the
  internal registers, the DMA engine and the cartridge; the DMA engine writes to the bus again. The
  audio unit runs its own processor and the sound processor; port writes are queued with a target
  sample and applied when the audio unit has produced that many samples. An indirect jump is
  dispatched through a generated table; a miss tiers down to the interpreter, which bounces calls
  back into recompiled bodies.

  \<^bold>\<open>Conventions.\<close> A C structure is a \<open>record\<close>, an unsigned C integer a word
  of its width, a signed intermediate an \<open>int\<close> with the source's casts written out. The
  processors are written in the state monad, in the order of the C statements. A failed
  \<open>assert\<close> and an access outside an array are values (\<open>None\<close>, or
  \<open>Abort\<close> of the type \<open>outcome\<close>). Code outside the sources is a parameter: the
  functions the recompiler generates and their table, the file system of the MSU-1, the wall clock, the
  whole number of cycles in the floating-point accumulators, the step cap read from the environment, the
  room on the disk, the size of the buffer of a stream, and the frame function of the game. Tracing, logging
  and debug hooks are left out; they do not change the emulated state.

  \<^bold>\<open>Theories.\<close>

  \<^item> \<open>Snes_Prelude\<close>: integer types, byte and word assembly, state-monad helpers, and \<open>keeps\<close>, the
    predicate by which invariants are pushed through monadic programs.

  \<^item> \<open>Interp816_Core\<close>, \<open>_Modes\<close>, \<open>_Ops\<close>, \<open>_Opcodes\<close>: \<open>snes/interp816.c\<close>, every addressing mode,
    operation and opcode, interrupts and \<open>interp816_runOpcode\<close>. \<open>Interp816_Frame\<close> has the locales
    \<open>bus_frame\<close> and \<open>cpu_frame\<close>: a predicate kept by the bus and by each kind of register update is
    kept by all 256 opcodes. \<open>Interp816_Invariants\<close> interprets them for the register widths and for the
    24-bit addresses, over whole executions with interrupts. \<open>Interp816_Arith\<close> relates ADC, SBC and
    the comparisons to arithmetic; its locale \<open>decimal_chain\<close> carries the decimal mode through two
    or four digits for addition and subtraction alike.

  \<^item> \<open>Dsp\<close>, \<open>Dsp_Invariants\<close>: \<open>snes/dsp.c\<close>, voices, sample decoder, envelopes, echo, noise, output
    ring, and the bounds of every array index.

  \<^item> \<open>Apu_Bus\<close>, \<open>Spc_Core\<close>, \<open>Spc_Opcodes\<close>, \<open>Spc_Frame\<close>, \<open>Apu\<close>: \<open>snes/apu.c\<close> and \<open>snes/spc.c\<close>, the audio
    bus, the audio processor with its 256 opcodes, timers and \<open>apu_cycle\<close>. \<open>Spc_Frame\<close> has the locale
    \<open>spc_frame\<close> through which the opcodes are covered once. \<open>Ring_Buffer\<close> is the locale of rings with
    free-running 32-bit counters, interpreted in \<open>Apu_Ports\<close> for the port queue and the output ring;
    \<open>Apu_Invariants\<close> has the invariants over all executions, the cycle bounds and the timers' rate.

  \<^item> \<open>Rtl_Apu\<close>, \<open>Rtl_Ports\<close>: how \<open>common_rtl.c\<close> drives the audio unit, \<open>RtlApuWrite\<close> with its write
    clock, \<open>RtlRenderAudio\<close> with its top-up loop.

  \<^item> \<open>Cart\<close>, \<open>Dma_Regs\<close>, \<open>Ppu_Regs\<close>, \<open>Snes_Bus\<close>, \<open>Snes_Regs\<close>: \<open>snes/cart.c\<close>, \<open>snes/dma.c\<close>, the register
    interface of \<open>snes/ppu.c\<close>, and \<open>snes/snes.c\<close>. \<open>Snes_Invariants\<close> has the locale \<open>dma_bus\<close>, the
    contract between the transfer engine and the bus it writes to, interpreted on \<open>snes_write\<close>
    itself; \<open>Dma_Transfer\<close> specifies a whole transfer from work RAM to the picture processor.

  \<^item> \<open>Msu1\<close>: \<open>snes/msu1.c\<close>, registers, data channel, track loader, frame reader and mixer.

  \<^item> \<open>Rtl_Regs\<close>: \<open>WriteReg\<close>, \<open>ReadReg\<close>, the RAM and ROM pointers, the HDMA replay, the input filter and
    \<open>RtlRunFrame\<close> of \<open>common_rtl.c\<close>, \<open>common_rtl.h\<close> and \<open>recomp_hw.c\<close>.

  \<^item> \<open>Cpu_State\<close>, \<open>Cpu_Dispatch\<close>: \<open>cpu_state.h\<close>, \<open>cpu_state.c\<close> and the control transfer of
    \<open>common_cpu_infra.c\<close>; \<open>Interp_Bridge\<close>: \<open>snes/interp_bridge.c\<close>; \<open>Rom_Load\<close>: \<open>snes/snes_other.c\<close>.

  \<^item> \<open>Rtl_Boot\<close>: \<open>RtlReset\<close> and \<open>RtlUploadSpcImageFromDp\<close> of \<open>common_rtl.c\<close>; the upload loop is a
    recursion that ends after 512 blocks.

  \<^item> \<open>Ppu_Windows\<close>, \<open>Ppu_Background\<close>, \<open>Ppu_Layers\<close>, \<open>Ppu_Sprites\<close>, \<open>Ppu_Line\<close>: the line renderer of
    \<open>snes/ppu.c\<close>. Windows are lists of edges with a bit for each span; the tile loops of both depths,
    mosaic included, paint 16-bit values with a priority in the high byte into the layer buffers;
    sprites are evaluated and drawn into their own buffer; \<open>PpuDrawWholeLine\<close> composes the two
    screens with colour arithmetic and brightness. \<open>Ppu_Old\<close>: \<open>snes/ppu_old.c\<close>, the older renderer,
    which computes each pixel by walking over the layers of the mode.

  \<^item> \<open>Ppu_Cells\<close>, \<open>Ppu_Equiv\<close>, \<open>Ppu_Frame\<close>, \<open>Ppu_Properties\<close>: what each painting step leaves in a cell of the
    buffers, the agreement of the two renderers on a pixel, on a line and on the 224 lines of a
    screenshot (\<open>cmd_screenshot\<close> of \<open>debug_server.c\<close>), and the properties with pictures that
    exercise them.

  \<^item> \<open>Hashes\<close>: \<open>crc32.c\<close> and \<open>sha256.c\<close>, the checksums by which ROM files are identified.

  \<^item> \<open>Patches\<close>: \<open>ApplyBps\<close> of \<open>util.c\<close>, with the variable-length integers of a BPS patch, its four copy
    commands and the checks before and after them.

  \<^item> \<open>Save_Codec\<close>: byte images of C structures as lists of fields, the transfer of a field to or from
    a file (\<open>file_sli_func\<close>) through a stream with a buffer, and the locale \<open>saveload\<close>, the contract of every transfer, with its rules for
    sequences and for parts of a state. \<open>Snapshot\<close>: \<open>snes_saveload\<close> with the functions it calls in
    \<open>snes/cpu.c\<close>, \<open>apu.c\<close>, \<open>dsp.c\<close>, \<open>spc.c\<close>, \<open>dma.c\<close>, \<open>ppu.c\<close> and \<open>cart.c\<close>, each an interpretation of the locale,
    and the snapshot files. \<open>Save_Files\<close>: save slots and battery RAM, over a file system that is a map.

  \<^bold>\<open>What is shown.\<close> The optimised line renderer against the older one, within the
  features both have (mode 1 or 7, no mosaic, no large tiles, windows combined by or, no margins): a whole
  screenshot (C1), a pixel (C2), a line (C15), the buffers it leaves (C16); the line as a function of the
  two screens in the modes 1 and 7 without mosaic, margins included (C17); the sprites of a line (C18), the
  spans of a window (\<open>window_spans\<close>) and a tile layer (C19) specified on their own. Invariants
  of whole executions: register widths and bus addresses of the interpreter (C3, C4), array bounds of the
  sound processor whatever the audio program does (C5), the well-formed system under nested transfers (C31).
  Arithmetic against mathematics: C6 to C9, the multiplier and divider (C26). Refinements of queues: C10 to
  C12, C22; of a transfer: C30; of the upload of a sound image (C20). Loops end: C21, C37, and within the
  functional statements C20, C30, C36, C39, C40. Memory, against the numbers of the memory map: C13, C14,
  C32; recompiled code and the bus see the same memory but for the windows C33 names. Timing of the audio
  ports: C23 and C24, of the vertical blank: C25. Save states, slots and battery RAM are read back as they
  were written, what a full disk leaves of them and which files are accepted: C27 to C29. The seam between
  recompiled code and the interpreter: C34 to C36. ROM files: C37 expands the image, C38 is the strength of
  the checksum, C39 applies a patch to it; \<open>sha256_standard\<close> of \<open>Hashes\<close> relates
  the block loop to the padded message of the standard. C13, C24, C28, C33 and C34 also prove behaviour the
  code does not mean to have; the manifest lists further findings.

  \<^bold>\<open>Fuel and bounds.\<close> A write to \<open>$420b\<close> runs the DMA loop, whose transfers write to the bus again, so
  bus writes carry fuel. Fuel never changes a result (\<open>snes_write_fuel\<close> of \<open>Snes_Invariants\<close>), and
  \<open>4 * n + 14\<close> is enough for a transfer of \<open>n\<close> bytes to the picture processor (C30). The interpreter loop
  of the bridge runs to the step cap of the source. The port drain terminates by the distance of its
  counters; the top-up loop is a \<open>while_option\<close> proved to end within \<open>534 * 32\<close> cycles; the loops of the
  ROM loader, the upload and the dispatch search are partial functions or recursions proved to return.
  The interpreter's memory accesses inside the bridge use the fuel given to it. In the line renderer an
  index outside an array and a loop whose unsigned counter would run past zero are \<open>None\<close>; C1, C15 and
  C16 prove that neither happens in a started picture processor. The images of structures have the
  layout of a 64-bit little-endian host; padding bytes, indeterminate in C, are written as zeros.

  \<^bold>\<open>Not modelled.\<close> \<open>debug_server.c\<close> but for its screenshots, \<open>cpu_trace.c\<close>, the trace rings and dumps
  (observation only), the launcher, key bindings and configuration (user interface), the text
  and file helpers and packed tables of \<open>util.c\<close>, the stack-balance auditor and watchdog of
  \<open>common_cpu_infra.c\<close> (diagnostics), the shadow mixers (floating-point output filters), the colour
  lookup and widescreen copy of the host surface, the vendored \<open>libretro.h\<close> with its frontend, and the recompiler itself, which is Python.

  \<^bold>\<open>Next.\<close> The arithmetic of the audio processor; calls, returns and interrupts of the interpreter as
  round trips on the stack; the address remapping of VRAM; the agreement of the renderers with the
  widescreen margins, which the older renderer does not have.
\<close>

end
